(* ===== verification/Prelude.thy ===== *)
theory Prelude
  imports Main "HOL-Library.Monad_Syntax" "HOL-Library.Char_ord" "HOL-Library.List_Lexorder"
    "HOL-Library.Word"
begin

section \<open>Shared vocabulary: JavaScript values, guards and string patterns\<close>

text \<open>
  What every component theory uses.  The handlers of the repository take
  \<^verbatim>\<open>unknown\<close> values and check them field by field, so untrusted inputs are
  values of the type \<open>jsval\<close> below and the checks are written as the code has
  them.

  Strings are lists of 8-bit characters: a character stands for the UTF-16
  code unit with its number, so the model covers strings whose code units are
  below 256.  Objects are their own enumerable properties in insertion order;
  accessors that throw and symbol keys are not represented, so the
  \<^verbatim>\<open>catch\<close> branches that only such objects reach have no counterpart.
  \<open>JNum\<close> is an integral number; \<open>JFrac\<close> stands for every other
  number (fractions, infinities, NaN).  The code tests
  \<^verbatim>\<open>Number.isSafeInteger\<close> before it computes with a number, and an integer
  sum that leaves the safe range stays outside it when it is rounded to a
  double, so exact integers decide these tests as doubles do.
\<close>

named_theorems guard_simps \<open>unfoldings of the input guards shared by the handlers\<close>
named_theorems pattern_simps \<open>unfoldings of the string patterns\<close>
named_theorems codec_simps \<open>lengths and shapes of byte encodings\<close>

type_synonym byte = "8 word"
type_synonym bytes = "byte list"

subsection \<open>Values\<close>

datatype jsval =
    JUndef
  | JNull
  | JBool bool
  | JNum int
  | JFrac
  | JBig int
  | JStr string
  | JBytes bytes
  | JArr "jsval list"
  | JObj "(string \<times> jsval) list"
  | JOpaque

fun is_record :: "jsval \<Rightarrow> bool" where
  "is_record (JObj _) = True"
| "is_record (JBytes _) = True"
| "is_record JOpaque = True"
| "is_record _ = False"

fun own_keys :: "jsval \<Rightarrow> string list" where
  "own_keys (JObj kvs) = map fst kvs"
| "own_keys _ = []"

text \<open>
  Reading a property of an object.  The code reads only after it has checked
  the object's own keys, so the prototype chain never answers.
\<close>

fun get_prop :: "jsval \<Rightarrow> string \<Rightarrow> jsval" where
  "get_prop (JObj kvs) k = (case map_of kvs k of None \<Rightarrow> JUndef | Some v \<Rightarrow> v)"
| "get_prop _ k = JUndef"

definition has_exact_keys :: "jsval \<Rightarrow> string list \<Rightarrow> bool" where
  "has_exact_keys v expected \<longleftrightarrow>
     length (own_keys v) = length expected \<and>
     list_all (\<lambda>k. k \<in> set expected) (own_keys v)"

definition exact_record :: "jsval \<Rightarrow> string list \<Rightarrow> bool" where
  "exact_record v expected \<longleftrightarrow> is_record v \<and> has_exact_keys v expected"

definition exact_object :: "jsval \<Rightarrow> string list \<Rightarrow> bool" where
  "exact_object v expected \<longleftrightarrow>
     is_record v \<and> length (own_keys v) = length expected \<and>
     list_all (\<lambda>k. k \<in> set (own_keys v)) expected"

subsection \<open>Numbers\<close>

definition MAX_SAFE_INTEGER :: int where
  "MAX_SAFE_INTEGER = 9007199254740991"

definition UINT32_MAX :: int where
  "UINT32_MAX = 4294967295"

definition UINT64_MAX :: int where
  "UINT64_MAX = 18446744073709551615"

definition safe_int :: "int \<Rightarrow> bool" where
  "safe_int n \<longleftrightarrow> - MAX_SAFE_INTEGER \<le> n \<and> n \<le> MAX_SAFE_INTEGER"

definition positive_safe :: "int \<Rightarrow> bool" where
  "positive_safe n \<longleftrightarrow> safe_int n \<and> n > 0"

fun as_safe_int :: "jsval \<Rightarrow> int option" where
  "as_safe_int (JNum n) = (if safe_int n then Some n else None)"
| "as_safe_int _ = None"

text \<open>The two shapes the code uses: an integer in a closed interval, a bigint in a closed interval.\<close>

definition as_bounded :: "int \<Rightarrow> int \<Rightarrow> jsval \<Rightarrow> int option" where
  "as_bounded lo hi v =
     (case as_safe_int v of
        Some n \<Rightarrow> if lo \<le> n \<and> n \<le> hi then Some n else None
      | None \<Rightarrow> None)"

fun as_u64 :: "jsval \<Rightarrow> int option" where
  "as_u64 (JBig n) = (if 0 \<le> n \<and> n \<le> UINT64_MAX then Some n else None)"
| "as_u64 _ = None"

fun as_str :: "jsval \<Rightarrow> string option" where
  "as_str (JStr s) = Some s"
| "as_str _ = None"

fun as_arr :: "jsval \<Rightarrow> jsval list option" where
  "as_arr (JArr xs) = Some xs"
| "as_arr _ = None"

fun as_bool :: "jsval \<Rightarrow> bool option" where
  "as_bool (JBool b) = Some b"
| "as_bool _ = None"

fun as_bytes :: "jsval \<Rightarrow> bytes option" where
  "as_bytes (JBytes b) = Some b"
| "as_bytes _ = None"

definition require :: "bool \<Rightarrow> unit option" where
  "require b = (if b then Some () else None)"

definition as_str_matching :: "(string \<Rightarrow> bool) \<Rightarrow> jsval \<Rightarrow> string option" where
  "as_str_matching p v =
     (case v of JStr s \<Rightarrow> if p s then Some s else None | _ \<Rightarrow> None)"

text \<open>Reading every element of an array, all or nothing.\<close>

fun all_some :: "('a \<Rightarrow> 'b option) \<Rightarrow> 'a list \<Rightarrow> 'b list option" where
  "all_some f [] = Some []"
| "all_some f (x # xs) =
     (case f x of None \<Rightarrow> None
      | Some y \<Rightarrow> (case all_some f xs of None \<Rightarrow> None | Some ys \<Rightarrow> Some (y # ys)))"

subsection \<open>Characters and patterns\<close>

definition code_of :: "char \<Rightarrow> nat" where
  "code_of c = of_char c"

definition is_digit :: "char \<Rightarrow> bool" where
  "is_digit c \<longleftrightarrow> 48 \<le> code_of c \<and> code_of c \<le> 57"

definition is_lower :: "char \<Rightarrow> bool" where
  "is_lower c \<longleftrightarrow> 97 \<le> code_of c \<and> code_of c \<le> 122"

definition is_upper :: "char \<Rightarrow> bool" where
  "is_upper c \<longleftrightarrow> 65 \<le> code_of c \<and> code_of c \<le> 90"

definition is_alnum :: "char \<Rightarrow> bool" where
  "is_alnum c \<longleftrightarrow> is_digit c \<or> is_lower c \<or> is_upper c"

definition is_lower_hex :: "char \<Rightarrow> bool" where
  "is_lower_hex c \<longleftrightarrow> is_digit c \<or> (97 \<le> code_of c \<and> code_of c \<le> 102)"

definition is_graphic :: "char \<Rightarrow> bool" where
  "is_graphic c \<longleftrightarrow> 33 \<le> code_of c \<and> code_of c \<le> 126"

text \<open>The white space \<^verbatim>\<open>String.prototype.trim\<close> removes, below code unit 256.\<close>

definition is_js_space :: "char \<Rightarrow> bool" where
  "is_js_space c \<longleftrightarrow> (9 \<le> code_of c \<and> code_of c \<le> 13) \<or> code_of c = 32 \<or> code_of c = 160"

definition js_trim :: "string \<Rightarrow> string" where
  "js_trim s = rev (dropWhile is_js_space (rev (dropWhile is_js_space s)))"

definition js_lower_char :: "char \<Rightarrow> char" where
  "js_lower_char c =
     (if is_upper c \<or> (192 \<le> code_of c \<and> code_of c \<le> 222 \<and> code_of c \<noteq> 215)
      then char_of (code_of c + 32) else c)"

definition js_lower :: "string \<Rightarrow> string" where
  "js_lower s = map js_lower_char s"

definition starts_with :: "string \<Rightarrow> string \<Rightarrow> bool" where
  "starts_with pre s \<longleftrightarrow> take (length pre) s = pre"

text \<open>\<^verbatim>\<open>/^[A-Za-z0-9][A-Za-z0-9_-]{0,127}$/u\<close>\<close>

definition id_pattern :: "string \<Rightarrow> bool" where
  "id_pattern s \<longleftrightarrow>
     (case s of [] \<Rightarrow> False
      | c # cs \<Rightarrow> is_alnum c \<and> length cs \<le> 127 \<and>
          list_all (\<lambda>d. is_alnum d \<or> d = CHR ''_'' \<or> d = CHR ''-'') cs)"

text \<open>\<^verbatim>\<open>/^[A-Za-z0-9][A-Za-z0-9._:/-]{0,127}$/u\<close>\<close>

definition principal_pattern :: "string \<Rightarrow> bool" where
  "principal_pattern s \<longleftrightarrow>
     (case s of [] \<Rightarrow> False
      | c # cs \<Rightarrow> is_alnum c \<and> length cs \<le> 127 \<and>
          list_all (\<lambda>d. is_alnum d \<or> d \<in> set ''._:/-'') cs)"

text \<open>A prefix and 64 lower-case hexadecimal digits.\<close>

definition hex64_pattern :: "string \<Rightarrow> string \<Rightarrow> bool" where
  "hex64_pattern pre s \<longleftrightarrow>
     length s = length pre + 64 \<and> starts_with pre s \<and>
     list_all is_lower_hex (drop (length pre) s)"

abbreviation sha256_pattern :: "string \<Rightarrow> bool" where
  "sha256_pattern \<equiv> hex64_pattern ''sha256:''"

abbreviation hmac_sha256_pattern :: "string \<Rightarrow> bool" where
  "hmac_sha256_pattern \<equiv> hex64_pattern ''hmac-sha256:''"

text \<open>\<^verbatim>\<open>/^[\x21-\x7e]{1,128}$/u\<close>\<close>

definition idempotency_key_pattern :: "string \<Rightarrow> bool" where
  "idempotency_key_pattern s \<longleftrightarrow> 1 \<le> length s \<and> length s \<le> 128 \<and> list_all is_graphic s"

subsection \<open>Splitting and joining strings\<close>

text \<open>\<^verbatim>\<open>s.split(c)\<close> for a one-character separator: never empty.\<close>

fun split_on :: "'a \<Rightarrow> 'a list \<Rightarrow> 'a list list" where
  "split_on c [] = [[]]"
| "split_on c (x # xs) =
     (if x = c then [] # split_on c xs
      else (case split_on c xs of [] \<Rightarrow> [[x]] | p # ps \<Rightarrow> (x # p) # ps))"

fun join_with :: "'a list \<Rightarrow> 'a list list \<Rightarrow> 'a list" where
  "join_with sep [] = []"
| "join_with sep [p] = p"
| "join_with sep (p # ps) = p @ sep @ join_with sep ps"

subsection \<open>Generic lemmas\<close>

lemma require_eq_Some [simp]: "(require b = Some u) = b"
  by (simp add: require_def)

lemma require_simps [simp]: "require True = Some ()" "require False = None"
  by (simp_all add: require_def)

lemma as_safe_int_Some:
  "as_safe_int v = Some n \<longleftrightarrow> v = JNum n \<and> safe_int n"
  by (cases v) auto

lemma as_bounded_Some:
  "as_bounded lo hi v = Some n \<longleftrightarrow> v = JNum n \<and> safe_int n \<and> lo \<le> n \<and> n \<le> hi"
  by (auto simp: as_bounded_def as_safe_int_Some split: option.splits)

lemma as_u64_Some: "as_u64 v = Some n \<longleftrightarrow> v = JBig n \<and> 0 \<le> n \<and> n \<le> UINT64_MAX"
  by (cases v) auto

lemma as_str_Some: "as_str v = Some s \<longleftrightarrow> v = JStr s"
  by (cases v) auto

lemma as_arr_Some: "as_arr v = Some xs \<longleftrightarrow> v = JArr xs"
  by (cases v) auto

lemma as_bool_Some: "as_bool v = Some b \<longleftrightarrow> v = JBool b"
  by (cases v) auto

lemma as_bytes_Some: "as_bytes v = Some b \<longleftrightarrow> v = JBytes b"
  by (cases v) auto

lemma as_str_matching_Some: "as_str_matching p v = Some s \<longleftrightarrow> v = JStr s \<and> p s"
  by (cases v) (auto simp: as_str_matching_def)

lemmas readers [guard_simps] =
  as_safe_int_Some as_bounded_Some as_u64_Some as_str_Some as_arr_Some as_bool_Some
  as_bytes_Some as_str_matching_Some

lemma positive_safe_pos [dest]: "positive_safe n \<Longrightarrow> 0 < n"
  by (simp add: positive_safe_def)

lemma all_some_length: "all_some f xs = Some ys \<Longrightarrow> length ys = length xs"
  by (induction xs arbitrary: ys) (auto split: option.splits)

lemma all_some_set: "all_some f xs = Some ys \<Longrightarrow> y \<in> set ys \<Longrightarrow> \<exists>x \<in> set xs. f x = Some y"
  by (induction xs arbitrary: ys) (auto split: option.splits)

lemma all_some_nth:
  "all_some f xs = Some ys \<Longrightarrow> i < length xs \<Longrightarrow> f (xs ! i) = Some (ys ! i)"
  by (induction xs arbitrary: ys i) (auto split: option.splits simp: nth_Cons split: nat.splits)

lemma all_some_map: "(\<And>x. x \<in> set xs \<Longrightarrow> f (g x) = Some (h x)) \<Longrightarrow>
    all_some f (map g xs) = Some (map h xs)"
  by (induction xs) auto

lemma split_on_not_Nil [simp]: "split_on c xs \<noteq> []"
  by (induction xs) (auto split: list.splits)

lemma split_on_no_sep: "c \<notin> set xs \<Longrightarrow> split_on c xs = [xs]"
  by (induction xs) auto

lemma split_on_append_sep:
  "c \<notin> set xs \<Longrightarrow> split_on c (xs @ c # ys) = xs # split_on c ys"
  by (induction xs) auto

lemma split_on_append: "split_on c (xs @ c # ys) = split_on c xs @ split_on c ys"
proof (induction xs)
  case (Cons x xs)
  then show ?case
    by (cases "split_on c xs") auto
qed simp

lemma split_on_parts: "p \<in> set (split_on c xs) \<Longrightarrow> c \<notin> set p"
  by (induction xs arbitrary: p) (auto split: list.splits if_splits)

lemma join_split [simp]: "join_with [c] (split_on c xs) = xs"
proof (induction xs)
  case Nil
  then show ?case by simp
next
  case (Cons x xs)
  then show ?case
    by (cases "split_on c xs"; cases "tl (split_on c xs)") auto
qed

lemma id_pattern_nonempty: "id_pattern s \<Longrightarrow> s \<noteq> []"
  by (auto simp: id_pattern_def)

lemma id_pattern_length: "id_pattern s \<Longrightarrow> 1 \<le> length s \<and> length s \<le> 128"
  by (auto simp: id_pattern_def split: list.splits)

lemma principal_pattern_length: "principal_pattern s \<Longrightarrow> 1 \<le> length s \<and> length s \<le> 128"
  by (auto simp: principal_pattern_def split: list.splits)

lemma hex64_pattern_length: "hex64_pattern pre s \<Longrightarrow> length s = length pre + 64"
  by (simp add: hex64_pattern_def)

lemma hex64_replicate: "is_lower_hex c \<Longrightarrow> hex64_pattern pre (pre @ replicate 64 c)"
  by (simp add: hex64_pattern_def starts_with_def list_all_iff)

lemma hex64_pattern_split:
  "hex64_pattern pre s \<Longrightarrow> s = pre @ drop (length pre) s"
  by (metis append_take_drop_id hex64_pattern_def starts_with_def)

subsection \<open>Concrete digests for the witnesses\<close>

definition uniform_digest :: "char \<Rightarrow> string" where
  "uniform_digest c = ''sha256:'' @ replicate 64 c"

lemma uniform_digest_inj [simp]: "uniform_digest c = uniform_digest d \<longleftrightarrow> c = d"
  by (auto simp: uniform_digest_def eval_nat_numeral)

lemma uniform_digest_valid: "is_lower_hex c \<Longrightarrow> sha256_pattern (uniform_digest c)"
  unfolding uniform_digest_def by (rule hex64_replicate)

lemma hex_samples: "is_lower_hex (CHR ''a'')" "is_lower_hex (CHR ''b'')" "is_lower_hex (CHR ''0'')"
  by (simp_all add: is_lower_hex_def is_digit_def code_of_def)

end
