(* ===== verification/Byte_Codec.thy ===== *)
theory Byte_Codec
  imports Prelude
begin

section \<open>Byte encodings\<close>

text \<open>
  Models \<^verbatim>\<open>apps/api/src/guest-crypto/binary.ts\<close>: big-endian integers,
  length prefixes and the canonical base64url decoder, with what they use of
  Node's \<^verbatim>\<open>Buffer\<close>.  The locales state what the message formats of the
  repository rely on: an encoding that can be read back from the front of a
  longer byte string.
\<close>

subsection \<open>Interfaces: prefix codes\<close>

locale prefix_code =
  fixes enc :: "'a \<Rightarrow> bytes"
    and ok :: "'a \<Rightarrow> bool"
  assumes prefix_free: "ok a \<Longrightarrow> ok b \<Longrightarrow> enc a @ x = enc b @ y \<Longrightarrow> a = b \<and> x = y"
begin

lemma append_eq: "ok a \<Longrightarrow> ok b \<Longrightarrow> enc a @ x = enc b @ y \<longleftrightarrow> a = b \<and> x = y"
  using prefix_free by blast

lemma injective: "ok a \<Longrightarrow> ok b \<Longrightarrow> enc a = enc b \<longleftrightarrow> a = b"
  using prefix_free [of a b "[]" "[]"] by auto

end

locale fixed_code =
  fixes enc :: "'a \<Rightarrow> bytes"
    and ok :: "'a \<Rightarrow> bool"
    and width :: nat
  assumes width: "ok a \<Longrightarrow> length (enc a) = width"
    and inj: "ok a \<Longrightarrow> ok b \<Longrightarrow> enc a = enc b \<Longrightarrow> a = b"

sublocale fixed_code \<subseteq> prefix_code enc ok
proof
  fix a b x y
  assume ok: "ok a" "ok b" and eq: "enc a @ x = enc b @ y"
  then have "enc a = enc b \<and> x = y" using width by (simp add: append_eq_append_conv)
  with ok inj show "a = b \<and> x = y" by blast
qed

subsection \<open>Big-endian integers\<close>

fun be_bytes :: "nat \<Rightarrow> int \<Rightarrow> bytes" where
  "be_bytes 0 n = []"
| "be_bytes (Suc k) n = be_bytes k (n div 256) @ [word_of_int n]"

definition be_value :: "bytes \<Rightarrow> int" where
  "be_value bs = foldl (\<lambda>acc b. acc * 256 + uint b) 0 bs"

lemma length_be_bytes [simp]: "length (be_bytes k n) = k"
  by (induction k arbitrary: n) auto

lemma be_value_be_bytes: "0 \<le> n \<Longrightarrow> n < 256 ^ k \<Longrightarrow> be_value (be_bytes k n) = n"
proof (induction k arbitrary: n)
  case 0
  then show ?case by (simp add: be_value_def)
next
  case (Suc k)
  have "n div 256 < 256 ^ k" using Suc.prems(2) by (simp add: div_less_iff_less_mult)
  then have "be_value (be_bytes k (n div 256)) = n div 256"
    using Suc.prems(1) by (intro Suc.IH) auto
  then show ?case
    by (simp add: be_value_def uint_word_of_int take_bit_eq_mod)
qed

lemma be_value_snoc: "be_value (bs @ [b]) = be_value bs * 256 + uint b"
  by (simp add: be_value_def)

lemma uint_byte_bounds: "0 \<le> uint (b :: byte)" "uint (b :: byte) < 256"
proof -
  show "0 \<le> uint b" by simp
  have "uint b < 2 ^ LENGTH(8)" by (rule unsigned_less)
  then show "uint b < 256" by simp
qed

lemma be_value_bounds: "0 \<le> be_value bs \<and> be_value bs < 256 ^ length bs"
proof (induction bs rule: rev_induct)
  case Nil
  then show ?case by (simp add: be_value_def)
next
  case (snoc b bs)
  then show ?case using uint_byte_bounds [of b] by (simp add: be_value_snoc)
qed

lemma be_bytes_be_value: "be_bytes (length bs) (be_value bs) = bs"
proof (induction bs rule: rev_induct)
  case Nil
  then show ?case by simp
next
  case (snoc b bs)
  have "(be_value bs * 256 + uint b) div 256 = be_value bs"
    using uint_byte_bounds [of b] by simp
  moreover have "word_of_int (be_value bs * 256 + uint b) = b"
  proof -
    have "word_of_int (be_value bs * 256 + uint b) = (word_of_int (be_value bs * 256) :: byte) + b"
      by simp
    also have "(word_of_int (be_value bs * 256) :: byte) = 0"
      unfolding word_of_int_eq_0_iff by simp
    finally show ?thesis by simp
  qed
  ultimately show ?case using snoc.IH by (simp add: be_value_snoc)
qed

lemma be_bytes_inj:
  "0 \<le> m \<Longrightarrow> m < 256 ^ k \<Longrightarrow> 0 \<le> n \<Longrightarrow> n < 256 ^ k \<Longrightarrow> be_bytes k m = be_bytes k n \<Longrightarrow> m = n"
  using be_value_be_bytes by metis

text \<open>\<^verbatim>\<open>u32be\<close> and \<^verbatim>\<open>u64be\<close>; the \<^verbatim>\<open>RangeError\<close> is \<open>None\<close>.\<close>

definition fits_u32 :: "int \<Rightarrow> bool" where
  "fits_u32 n \<longleftrightarrow> 0 \<le> n \<and> n \<le> UINT32_MAX"

definition fits_u64 :: "int \<Rightarrow> bool" where
  "fits_u64 n \<longleftrightarrow> 0 \<le> n \<and> n \<le> UINT64_MAX"

definition u32be :: "int \<Rightarrow> bytes option" where
  "u32be n = (if \<not> safe_int n \<or> n < 0 \<or> n > UINT32_MAX then None else Some (be_bytes 4 n))"

definition u64be :: "int \<Rightarrow> bytes option" where
  "u64be n = (if n < 0 \<or> n > UINT64_MAX then None else Some (be_bytes 8 n))"

lemma u32be_Some: "u32be n = Some b \<longleftrightarrow> fits_u32 n \<and> b = be_bytes 4 n"
  by (auto simp: u32be_def fits_u32_def UINT32_MAX_def safe_int_def MAX_SAFE_INTEGER_def)

lemma u64be_Some: "u64be n = Some b \<longleftrightarrow> fits_u64 n \<and> b = be_bytes 8 n"
  by (auto simp: u64be_def fits_u64_def)

lemma fits_u32_bounds: "fits_u32 n \<longleftrightarrow> 0 \<le> n \<and> n < 256 ^ 4"
  by (auto simp: fits_u32_def UINT32_MAX_def)

lemma fits_u64_bounds: "fits_u64 n \<longleftrightarrow> 0 \<le> n \<and> n < 256 ^ 8"
  by (auto simp: fits_u64_def UINT64_MAX_def)

interpretation u32: fixed_code "be_bytes 4" fits_u32 4
proof
  show "length (be_bytes 4 a) = 4" for a by simp
  show "fits_u32 a \<Longrightarrow> fits_u32 b \<Longrightarrow> be_bytes 4 a = be_bytes 4 b \<Longrightarrow> a = b" for a b
    using be_bytes_inj [of a 4 b] fits_u32_bounds by blast
qed

interpretation u64: fixed_code "be_bytes 8" fits_u64 8
proof
  show "length (be_bytes 8 a) = 8" for a by simp
  show "fits_u64 a \<Longrightarrow> fits_u64 b \<Longrightarrow> be_bytes 8 a = be_bytes 8 b \<Longrightarrow> a = b" for a b
    using be_bytes_inj [of a 8 b] fits_u64_bounds by blast
qed

subsection \<open>Length prefixes\<close>

definition length_prefix :: "bytes \<Rightarrow> bytes option" where
  "length_prefix v =
     (if int (length v) > UINT32_MAX then None
      else map_option (\<lambda>p. p @ v) (u32be (int (length v))))"

definition prefixed :: "bytes \<Rightarrow> bytes" where
  "prefixed v = be_bytes 4 (int (length v)) @ v"

definition prefixable :: "bytes \<Rightarrow> bool" where
  "prefixable v \<longleftrightarrow> int (length v) \<le> UINT32_MAX"

lemma length_prefix_Some: "length_prefix v = Some b \<longleftrightarrow> prefixable v \<and> b = prefixed v"
  by (auto simp: length_prefix_def prefixed_def prefixable_def u32be_Some fits_u32_def)

interpretation length_prefixed: prefix_code prefixed prefixable
proof
  fix a b x y
  assume ok: "prefixable a" "prefixable b" and eq: "prefixed a @ x = prefixed b @ y"
  have fits: "fits_u32 (int (length a))" "fits_u32 (int (length b))"
    using ok by (auto simp: prefixable_def fits_u32_def)
  have "be_bytes 4 (int (length a)) @ (a @ x) = be_bytes 4 (int (length b)) @ (b @ y)"
    using eq by (simp add: prefixed_def)
  then have "int (length a) = int (length b) \<and> a @ x = b @ y"
    using u32.prefix_free [OF fits] by blast
  then show "a = b \<and> x = y" by auto
qed

subsection \<open>Text as bytes\<close>

definition ascii_bytes :: "string \<Rightarrow> bytes" where
  "ascii_bytes s = map (\<lambda>c. of_nat (code_of c)) s"

text \<open>\<^verbatim>\<open>ascii\<close>: \<open>None\<close> for its exception on other characters.\<close>

definition ascii :: "string \<Rightarrow> bytes option" where
  "ascii s = (if list_all (\<lambda>c. code_of c \<le> 127) s then Some (ascii_bytes s) else None)"

definition utf8_char :: "char \<Rightarrow> bytes" where
  "utf8_char c =
     (if code_of c < 128 then [of_nat (code_of c)]
      else [of_nat (192 + code_of c div 64), of_nat (128 + code_of c mod 64)])"

definition utf8 :: "string \<Rightarrow> bytes" where
  "utf8 s = concat (map utf8_char s)"

lemma code_of_less [simp]: "code_of c < 256"
  by (simp add: code_of_def)

lemma code_of_inj: "code_of c = code_of d \<longleftrightarrow> c = d"
  by (simp add: code_of_def)

lemma unat_byte: "n < 256 \<Longrightarrow> unat (of_nat n :: byte) = n"
  by (simp add: unat_of_nat)

lemma byte_eq: "m < 256 \<Longrightarrow> n < 256 \<Longrightarrow> (of_nat m :: byte) = of_nat n \<longleftrightarrow> m = n"
  using unat_byte [of m] unat_byte [of n] by metis

lemma unat_byte_less: "unat (b :: byte) < 256"
  using unsigned_less [of b] by simp

lemma utf8_char_decode:
  "utf8_char c @ x = utf8_char d @ y \<Longrightarrow> c = d \<and> x = y"
proof -
  assume eq: "utf8_char c @ x = utf8_char d @ y"
  have hi: "192 + code_of e div 64 < 256" "128 + code_of e mod 64 < 256" for e
    using code_of_less [of e] by linarith+
  have recompose: "code_of e = (code_of e div 64) * 64 + code_of e mod 64" for e by simp
  show ?thesis
  proof (cases "code_of c < 128"; cases "code_of d < 128")
    assume "code_of c < 128" "code_of d < 128"
    with eq byte_eq show ?thesis by (auto simp: utf8_char_def code_of_inj)
  next
    assume a: "code_of c < 128" "\<not> code_of d < 128"
    then have "code_of c = 192 + code_of d div 64"
      using eq byte_eq hi(1) [of d] by (simp add: utf8_char_def del: of_nat_add)
    with a show ?thesis by linarith
  next
    assume a: "\<not> code_of c < 128" "code_of d < 128"
    then have "code_of d = 192 + code_of c div 64"
      using eq byte_eq hi(1) [of c] by (simp add: utf8_char_def del: of_nat_add)
    with a show ?thesis by linarith
  next
    assume "\<not> code_of c < 128" "\<not> code_of d < 128"
    then have "code_of c div 64 = code_of d div 64" "code_of c mod 64 = code_of d mod 64" "x = y"
      using eq byte_eq hi [of c] hi [of d] by (simp_all add: utf8_char_def del: of_nat_add)
    then show ?thesis using recompose [of c] recompose [of d] code_of_inj by simp
  qed
qed

interpretation utf8_code: prefix_code utf8_char "\<lambda>_. True"
  by unfold_locales (rule utf8_char_decode)

lemma utf8_char_nonempty [simp]: "utf8_char c \<noteq> []"
  by (simp add: utf8_char_def)

lemma utf8_inj: "utf8 s = utf8 t \<longleftrightarrow> s = t"
proof
  show "utf8 s = utf8 t \<Longrightarrow> s = t"
  proof (induction s arbitrary: t)
    case Nil
    then show ?case by (cases t) (auto simp: utf8_def)
  next
    case (Cons c s)
    then obtain d t' where t: "t = d # t'" by (cases t) (auto simp: utf8_def)
    with Cons.prems have "c = d" "utf8 s = utf8 t'"
      by (auto simp: utf8_def utf8_code.append_eq)
    with Cons.IH t show ?case by simp
  qed
qed simp

lemma length_utf8: "length (utf8 s) \<le> 2 * length s"
  by (induction s) (auto simp: utf8_def utf8_char_def)

subsection \<open>Hexadecimal digests\<close>

definition hex_value :: "char \<Rightarrow> nat" where
  "hex_value c = (if is_digit c then code_of c - 48 else code_of c - 87)"

text \<open>\<^verbatim>\<open>Buffer.from(value, "hex")\<close> on lower-case digits; a lone last digit is dropped.\<close>

fun hex_bytes :: "string \<Rightarrow> bytes" where
  "hex_bytes (a # b # rest) = of_nat (hex_value a * 16 + hex_value b) # hex_bytes rest"
| "hex_bytes _ = []"

definition hex_digit :: "nat \<Rightarrow> char" where
  "hex_digit n = (if n < 10 then char_of (48 + n) else char_of (87 + n))"

definition to_hex :: "bytes \<Rightarrow> string" where
  "to_hex bs = concat (map (\<lambda>b. [hex_digit (unat b div 16), hex_digit (unat b mod 16)]) bs)"

lemma hex_value_less: "is_lower_hex c \<Longrightarrow> hex_value c < 16"
  by (auto simp: is_lower_hex_def is_digit_def hex_value_def)

lemma base16_unique:
  fixes p q r s :: nat
  assumes "p * 16 + q = r * 16 + s" "q < 16" "s < 16"
  shows "p = r \<and> q = s"
proof -
  have "(p * 16 + q) div 16 = p" "(r * 16 + s) div 16 = r" using assms(2,3) by simp_all
  then have "p = r" using assms(1) by metis
  with assms(1) show ?thesis by simp
qed

lemma hex_value_inj: "is_lower_hex c \<Longrightarrow> is_lower_hex d \<Longrightarrow> hex_value c = hex_value d \<Longrightarrow> c = d"
  using code_of_inj [of c d]
  by (auto simp: is_lower_hex_def is_digit_def hex_value_def split: if_splits)

lemma hex_digit_props:
  assumes "n < 16"
  shows "is_lower_hex (hex_digit n)" "hex_value (hex_digit n) = n"
  using assms
  by (auto simp: hex_digit_def is_lower_hex_def is_digit_def hex_value_def code_of_def)

lemma length_hex_bytes: "length (hex_bytes s) = length s div 2"
  by (induction s rule: hex_bytes.induct) auto

lemma hex_bytes_inj:
  "even (length s) \<Longrightarrow> length s = length t \<Longrightarrow> list_all is_lower_hex s \<Longrightarrow>
   list_all is_lower_hex t \<Longrightarrow> hex_bytes s = hex_bytes t \<Longrightarrow> s = t"
proof (induction s arbitrary: t rule: hex_bytes.induct)
  case (1 a b rest)
  then obtain c d more where t: "t = c # d # more"
    by (cases t; cases "tl t") auto
  have bound: "hex_value u * 16 + hex_value v < 256" if "is_lower_hex u" "is_lower_hex v" for u v
    using that hex_value_less [of u] hex_value_less [of v] by linarith
  have lower: "is_lower_hex a" "is_lower_hex b" "is_lower_hex c" "is_lower_hex d"
    using "1.prems" t by auto
  have "(of_nat (hex_value a * 16 + hex_value b) :: byte) = of_nat (hex_value c * 16 + hex_value d)"
    using "1.prems" t by (simp del: of_nat_add of_nat_mult)
  then have "hex_value a * 16 + hex_value b = hex_value c * 16 + hex_value d"
    using byte_eq bound lower by blast
  moreover have "hex_value b < 16" "hex_value d < 16"
    using lower hex_value_less by auto
  ultimately have "hex_value a = hex_value c" "hex_value b = hex_value d"
    using base16_unique by blast+
  then have "a = c" "b = d" using lower hex_value_inj by auto
  moreover have "rest = more" using "1.prems" t by (intro "1.IH") auto
  ultimately show ?case using t by simp
qed auto

lemma to_hex_length [simp]: "length (to_hex bs) = 2 * length bs"
  by (induction bs) (auto simp: to_hex_def)

lemma to_hex_lower: "list_all is_lower_hex (to_hex bs)"
proof (induction bs)
  case (Cons b bs)
  have "unat b < 256" using unat_byte_less [of b] by simp
  then have "unat b div 16 < 16" by linarith
  with Cons show ?case by (simp add: to_hex_def hex_digit_props)
qed (simp add: to_hex_def)

lemma hex_bytes_to_hex: "hex_bytes (to_hex bs) = bs"
proof (induction bs)
  case (Cons b bs)
  have "unat b < 256" using unat_byte_less [of b] by simp
  then have "unat b div 16 < 16" by linarith
  with Cons show ?case by (simp add: to_hex_def hex_digit_props)
qed (simp add: to_hex_def)

definition digest_bytes :: "string \<Rightarrow> string \<Rightarrow> bytes" where
  "digest_bytes pre v = hex_bytes (drop (length pre) v)"

definition sha256_text :: "bytes \<Rightarrow> string" where
  "sha256_text digest = ''sha256:'' @ to_hex digest"

lemma sha256_text_valid: "length d = 32 \<Longrightarrow> sha256_pattern (sha256_text d)"
  using to_hex_lower [of d]
  by (simp add: hex64_pattern_def sha256_text_def starts_with_def)

lemma digest_bytes_sha256_text: "digest_bytes ''sha256:'' (sha256_text d) = d"
  by (simp add: digest_bytes_def sha256_text_def hex_bytes_to_hex)

interpretation digest: fixed_code "digest_bytes pre" "hex64_pattern pre" 32
proof
  fix a b
  show "hex64_pattern pre a \<Longrightarrow> length (digest_bytes pre a) = 32"
    by (simp add: digest_bytes_def length_hex_bytes hex64_pattern_def)
  assume ok: "hex64_pattern pre a" "hex64_pattern pre b"
    and eq: "digest_bytes pre a = digest_bytes pre b"
  have "drop (length pre) a = drop (length pre) b"
    using ok eq by (intro hex_bytes_inj) (auto simp: hex64_pattern_def digest_bytes_def)
  then show "a = b" using ok hex64_pattern_split by metis
qed

subsection \<open>Canonical base64url\<close>

definition base64url_digit :: "nat \<Rightarrow> char" where
  "base64url_digit n =
     (if n < 26 then char_of (65 + n)
      else if n < 52 then char_of (71 + n)
      else if n < 62 then char_of (n - 4)
      else if n = 62 then CHR ''-'' else CHR ''_'')"

definition base64url_value :: "char \<Rightarrow> nat" where
  "base64url_value c =
     (if is_upper c then code_of c - 65
      else if is_lower c then code_of c - 71
      else if is_digit c then code_of c + 4
      else if c = CHR ''-'' then 62 else 63)"

definition is_base64url :: "char \<Rightarrow> bool" where
  "is_base64url c \<longleftrightarrow> is_alnum c \<or> c = CHR ''_'' \<or> c = CHR ''-''"

text \<open>\<^verbatim>\<open>Buffer.toString("base64url")\<close>: no padding.\<close>

fun base64url_groups :: "nat list \<Rightarrow> nat list" where
  "base64url_groups (a # b # c # rest) =
     a div 4 # (a mod 4 * 16 + b div 16) # (b mod 16 * 4 + c div 64) # c mod 64 #
     base64url_groups rest"
| "base64url_groups [a, b] = [a div 4, a mod 4 * 16 + b div 16, b mod 16 * 4]"
| "base64url_groups [a] = [a div 4, a mod 4 * 16]"
| "base64url_groups [] = []"

definition encode_base64url :: "bytes \<Rightarrow> string" where
  "encode_base64url bs = map base64url_digit (base64url_groups (map unat bs))"

text \<open>
  \<^verbatim>\<open>Buffer.from(value, "base64url")\<close> on characters of the alphabet: left-over
  bits are dropped, and so is a lone last character.
\<close>

fun base64url_ungroup :: "nat list \<Rightarrow> nat list" where
  "base64url_ungroup (p # q # r # s # rest) =
     (p * 4 + q div 16) # (q mod 16 * 16 + r div 4) # (r mod 4 * 64 + s) #
     base64url_ungroup rest"
| "base64url_ungroup [p, q, r] = [p * 4 + q div 16, q mod 16 * 16 + r div 4]"
| "base64url_ungroup [p, q] = [p * 4 + q div 16]"
| "base64url_ungroup _ = []"

definition decode_base64url :: "string \<Rightarrow> bytes" where
  "decode_base64url s = map of_nat (base64url_ungroup (map base64url_value s))"

definition decode_canonical_base64url :: "string \<Rightarrow> bytes option" where
  "decode_canonical_base64url s =
     (if s = [] \<or> \<not> list_all is_base64url s \<or> CHR ''='' \<in> set s then None
      else let decoded = decode_base64url s
           in if encode_base64url decoded = s then Some decoded else None)"

lemma base64url_digit_props:
  assumes "n < 64"
  shows "is_base64url (base64url_digit n)" "base64url_value (base64url_digit n) = n"
    "base64url_digit n \<noteq> CHR ''=''"
proof -
  consider "n < 26" | "26 \<le> n" "n < 52" | "52 \<le> n" "n < 62" | "n = 62" | "n = 63"
    using assms by linarith
  then have "is_base64url (base64url_digit n) \<and> base64url_value (base64url_digit n) = n"
    by cases
      (auto simp: base64url_digit_def is_base64url_def base64url_value_def is_alnum_def
        is_upper_def is_lower_def is_digit_def code_of_def)
  moreover have "\<not> is_base64url (CHR ''='')"
    by (simp add: is_base64url_def is_alnum_def is_upper_def is_lower_def is_digit_def code_of_def)
  ultimately show "is_base64url (base64url_digit n)" "base64url_value (base64url_digit n) = n"
    "base64url_digit n \<noteq> CHR ''=''" by auto
qed

lemma base64url_groups_less:
  "list_all (\<lambda>n. n < 256) ns \<Longrightarrow> list_all (\<lambda>n. n < 64) (base64url_groups ns)"
  by (induction ns rule: base64url_groups.induct) (auto simp: less_mult_imp_div_less)

lemma base64url_ungroup_groups:
  "list_all (\<lambda>n. n < 256) ns \<Longrightarrow> base64url_ungroup (base64url_groups ns) = ns"
  by (induction ns rule: base64url_groups.induct) (auto simp: less_mult_imp_div_less)

lemma unat_bytes_less: "list_all (\<lambda>n. n < 256) (map unat (bs :: bytes))"
  by (induction bs) (auto simp: unat_byte_less)

lemma decode_encode_base64url: "decode_base64url (encode_base64url bs) = bs"
proof -
  let ?g = "base64url_groups (map unat bs)"
  have "list_all (\<lambda>n. n < 64) ?g" by (rule base64url_groups_less) (rule unat_bytes_less)
  then have "map base64url_value (map base64url_digit ?g) = ?g"
    by (auto simp: base64url_digit_props list_all_iff intro: map_idI)
  then show ?thesis
    by (simp add: decode_base64url_def encode_base64url_def base64url_ungroup_groups
        unat_bytes_less o_def)
qed

lemma encode_base64url_alphabet:
  "list_all is_base64url (encode_base64url bs)" "CHR ''='' \<notin> set (encode_base64url bs)"
proof -
  have less: "n < 64" if "n \<in> set (base64url_groups (map unat bs))" for n
    using base64url_groups_less [OF unat_bytes_less, of bs] that by (simp add: list_all_iff)
  show "list_all is_base64url (encode_base64url bs)"
    by (auto simp: encode_base64url_def list_all_iff base64url_digit_props less)
  show "CHR ''='' \<notin> set (encode_base64url bs)"
    using base64url_digit_props(3) less by (force simp: encode_base64url_def)
qed

lemma encode_base64url_nonempty: "encode_base64url bs = [] \<longleftrightarrow> bs = []"
proof -
  have "base64url_groups ns = [] \<longleftrightarrow> ns = []" for ns
    by (cases ns rule: base64url_groups.cases) auto
  then show ?thesis by (simp add: encode_base64url_def)
qed

lemma decode_canonical_Some:
  "decode_canonical_base64url s = Some bs \<longleftrightarrow> bs \<noteq> [] \<and> s = encode_base64url bs"
  using encode_base64url_alphabet [of bs] encode_base64url_nonempty [of bs]
  by (auto simp: decode_canonical_base64url_def Let_def decode_encode_base64url
      encode_base64url_nonempty split: if_splits)

lemma encode_base64url_inj [simp]: "encode_base64url x = encode_base64url y \<longleftrightarrow> x = y"
  using decode_encode_base64url by metis

lemma decode_canonical_encode [simp]:
  "decode_canonical_base64url (encode_base64url bs) = (if bs = [] then None else Some bs)"
  by (simp add: decode_canonical_base64url_def encode_base64url_nonempty encode_base64url_alphabet
      decode_encode_base64url Let_def)

lemma length_encode_base64url: "length (encode_base64url bs) = (4 * length bs + 2) div 3"
proof -
  have "length (base64url_groups ns) = (4 * length ns + 2) div 3" for ns
    by (induction ns rule: base64url_groups.induct) auto
  then show ?thesis by (simp add: encode_base64url_def)
qed

end
