(* ===== verification/Decimal.thy ===== *)
theory Decimal
  imports Byte_Codec
begin

section \<open>Numbers as text\<close>

text \<open>
  The digits \<^verbatim>\<open>String(n)\<close> and \<^verbatim>\<open>n.toString(16)\<close> print and the value of a
  text of digits, with the lemmas that the two are inverse.
\<close>

definition is_hex_digit :: "char \<Rightarrow> bool" where
  "is_hex_digit c \<longleftrightarrow> is_lower_hex (js_lower_char c)"

subsection \<open>Printing\<close>

function to_digits :: "int \<Rightarrow> int \<Rightarrow> string" where
  "to_digits b n =
     (if b < 2 \<or> n < b then [hex_digit (nat n)]
      else to_digits b (n div b) @ [hex_digit (nat (n mod b))])"
  by auto
termination
proof (relation "measure (\<lambda>(b, n). nat n)")
  fix b n :: int
  assume "\<not> (b < 2 \<or> n < b)"
  then have "n div b < n" "0 < n" by (auto intro!: int_div_less_self)
  then show "((b, n div b), (b, n)) \<in> measure (\<lambda>(b, n). nat n)" by simp
qed simp

declare to_digits.simps [simp del]

definition digits_value :: "int \<Rightarrow> string \<Rightarrow> int" where
  "digits_value b s = foldl (\<lambda>acc c. acc * b + int (hex_value c)) 0 s"

subsection \<open>Digits\<close>

lemma hex_digit_chars: assumes "n < 16"
  shows "js_lower_char (hex_digit n) = hex_digit n" "is_hex_digit (hex_digit n)"
  "n < 10 \<Longrightarrow> is_digit (hex_digit n)" "hex_digit n \<noteq> CHR '':''" "hex_digit n \<noteq> CHR ''.''" "hex_digit n \<noteq> CHR ''%''"
  "0 < n \<Longrightarrow> hex_digit n \<noteq> CHR ''0''" "hex_digit n \<noteq> CHR ''/''"
proof -
  have "\<not> is_upper (hex_digit n)" "code_of (hex_digit n) < 103"
    using assms by (auto simp: hex_digit_def is_upper_def code_of_def)
  then show l: "js_lower_char (hex_digit n) = hex_digit n" by (simp add: js_lower_char_def)
  show "is_hex_digit (hex_digit n)" unfolding is_hex_digit_def l by (rule hex_digit_props(1)) fact
  show "n < 10 \<Longrightarrow> is_digit (hex_digit n)" by (simp add: hex_digit_def is_digit_def code_of_def)
  have "\<not> is_lower_hex c" if "c \<in> {CHR '':'', CHR ''.'', CHR ''%'', CHR ''/''}" for c
    using that by (auto simp: is_lower_hex_def is_digit_def code_of_def)
  then show "hex_digit n \<noteq> CHR '':''" "hex_digit n \<noteq> CHR ''.''" "hex_digit n \<noteq> CHR ''%''" "hex_digit n \<noteq> CHR ''/''"
    using hex_digit_props(1) [OF assms] by auto
  show "0 < n \<Longrightarrow> hex_digit n \<noteq> CHR ''0''" using hex_digit_props(2) [OF assms]
    by (auto simp: hex_value_def is_digit_def code_of_def)
qed

lemma digits_value_snoc: "digits_value b (s @ [c]) = digits_value b s * b + int (hex_value c)"
  by (simp add: digits_value_def)

lemma to_digits_value:
  assumes "2 \<le> b" "b \<le> 16" "0 \<le> n" shows "digits_value b (to_digits b n) = n"
  using assms
proof (induction b n rule: to_digits.induct)
  case (1 b n)
  show ?case
  proof (cases "n < b")
    case True
    then show ?thesis using "1.prems" by (subst to_digits.simps) (simp add: digits_value_def hex_digit_props(2))
  next
    case False
    then have "digits_value b (to_digits b (n div b)) = n div b"
      using 1 by (auto simp: pos_imp_zdiv_nonneg_iff)
    moreover have "nat (n mod b) < 16" using "1.prems" pos_mod_bound [of b n] by linarith
    ultimately show ?thesis using False "1.prems"
      by (subst to_digits.simps) (simp add: digits_value_snoc hex_digit_props(2))
  qed
qed

lemma to_digits_chars:
  assumes "2 \<le> b" "b \<le> 16" "0 \<le> n"
  shows "list_all (\<lambda>c. \<exists>k<nat b. c = hex_digit k) (to_digits b n)"
  using assms
proof (induction b n rule: to_digits.induct)
  case (1 b n)
  have mod: "nat (n mod b) < nat b" using "1.prems" by simp
  show ?case
  proof (cases "n < b")
    case True
    then show ?thesis using "1.prems"
      by (subst to_digits.simps) (auto intro!: exI [of _ "nat n"])
  next
    case False
    then have "list_all (\<lambda>c. \<exists>k<nat b. c = hex_digit k) (to_digits b (n div b))"
      using 1 by (auto simp: pos_imp_zdiv_nonneg_iff)
    moreover have "\<exists>k<nat b. hex_digit (nat (n mod b)) = hex_digit k" using mod by blast
    ultimately show ?thesis using False "1.prems" by (subst to_digits.simps) auto
  qed
qed

lemma to_digits_length:
  assumes "2 \<le> b" "0 \<le> n" "n < b ^ Suc k"
  shows "1 \<le> length (to_digits b n) \<and> length (to_digits b n) \<le> Suc k"
  using assms
proof (induction k arbitrary: n)
  case 0
  then show ?case by (subst to_digits.simps, subst (2) to_digits.simps) auto
next
  case (Suc k)
  have pos: "0 < b" using Suc.prems(1) by simp
  have "n div b * b \<le> n"
    using pos_mod_sign [OF pos, of n] div_mult_mod_eq [of n b] by linarith
  also have "n < b ^ Suc k * b" using Suc.prems(3) by (simp add: ac_simps)
  finally have "n div b < b ^ Suc k" using pos by (simp add: ac_simps)
  then have "length (to_digits b (n div b)) \<le> Suc k"
    using Suc.prems Suc.IH [of "n div b"] by (simp add: pos_imp_zdiv_nonneg_iff)
  then show ?case by (subst to_digits.simps, subst (2) to_digits.simps) auto
qed

lemma to_digits_hd:
  assumes "2 \<le> b" "b \<le> 16" "0 < n" shows "hd (to_digits b n) \<noteq> CHR ''0''"
  using assms
proof (induction b n rule: to_digits.induct)
  case (1 b n)
  have ne: "to_digits b m \<noteq> []" for m by (subst to_digits.simps) auto
  show ?case
  proof (cases "n < b")
    case True
    then show ?thesis using "1.prems" hex_digit_chars(7) [of "nat n"] by (subst to_digits.simps) auto
  next
    case False
    then have "0 < n div b" using "1.prems" by (simp add: pos_imp_zdiv_pos_iff)
    then show ?thesis using 1 False ne by (subst to_digits.simps) auto
  qed
qed


lemma to_digits_no_char:
  assumes "2 \<le> b" "b \<le> 16" "0 \<le> n" "x \<in> {CHR '':'', CHR ''.'', CHR ''%'', CHR ''/''}"
  shows "x \<notin> set (to_digits b n)"
proof
  assume "x \<in> set (to_digits b n)"
  then obtain k where "k < nat b" "x = hex_digit k"
    using to_digits_chars [OF assms(1-3)] by (auto simp: list_all_iff)
  moreover have "k < 16" using \<open>k < nat b\<close> assms(2) by linarith
  ultimately show False using hex_digit_chars(4-6,8) [of k] assms(4) by auto
qed

end
