(* ===== verification/Json.thy ===== *)
theory Json
  imports Decimal "HOL-Library.AList"
begin

section \<open>JSON texts\<close>

text \<open>
  What the scanner output code uses of the standard library: the fatal UTF-8
  decoder of \<^verbatim>\<open>TextDecoder\<close>, \<^verbatim>\<open>JSON.parse\<close> and \<^verbatim>\<open>JSON.stringify\<close>, and
  \<^verbatim>\<open>hasUniqueJsonKeys\<close> of
  \<^verbatim>\<open>apps/api/src/scanner-output/guest-projection.ts\<close>.  A text is the list of
  its UTF-16 code units, all of them, so nothing is assumed about its characters.
  The main result is that a text that passes \<^verbatim>\<open>hasUniqueJsonKeys\<close> parses without
  dropping a member: no object in it, at any depth, repeats a key, however the
  keys are escaped.
\<close>

type_synonym units = "nat list"

definition units :: "string \<Rightarrow> units" where
  "units s = map of_char s"

lemma units_simps [simp]:
  "units [] = []" "units (c # s) = of_char c # units s" "units (s @ t) = units s @ units t"
  "length (units s) = length s" "units s = [] \<longleftrightarrow> s = []"
  by (simp_all add: units_def)

lemma units_inj [simp]: "units s = units t \<longleftrightarrow> s = t"
proof -
  have "inj (of_char :: char \<Rightarrow> nat)" by (rule injI) simp
  then show ?thesis by (simp add: units_def inj_map_eq_map)
qed

datatype json =
    JsNull
  | JsBool bool
  | JsNum int
  | JsFrac
  | JsStr units
  | JsArr "json list"
  | JsObj "(units \<times> json) list"

subsection \<open>UTF-8\<close>

definition continuation :: "nat \<Rightarrow> bool" where
  "continuation b \<longleftrightarrow> 128 \<le> b \<and> b \<le> 191"

definition utf16 :: "nat \<Rightarrow> units" where
  "utf16 cp =
     (if cp < 65536 then [cp]
      else [55296 + (cp - 65536) div 1024, 56320 + (cp - 65536) mod 1024])"

text \<open>The well-formed sequences; a byte order mark is refused before this is used.\<close>

fun decode_utf8 :: "nat list \<Rightarrow> units option" where
  "decode_utf8 [] = Some []"
| "decode_utf8 (a # s) =
     (if a < 128 then map_option ((@) [a]) (decode_utf8 s)
      else if 194 \<le> a \<and> a \<le> 223 then
        (case s of
           b # r \<Rightarrow>
             if continuation b
             then map_option ((@) [(a - 192) * 64 + (b - 128)]) (decode_utf8 r) else None
         | _ \<Rightarrow> None)
      else if 224 \<le> a \<and> a \<le> 239 then
        (case s of
           b # c # r \<Rightarrow>
             if continuation b \<and> continuation c \<and> (a = 224 \<longrightarrow> 160 \<le> b) \<and> (a = 237 \<longrightarrow> b \<le> 159)
             then map_option ((@) [(a - 224) * 4096 + (b - 128) * 64 + (c - 128)]) (decode_utf8 r)
             else None
         | _ \<Rightarrow> None)
      else if 240 \<le> a \<and> a \<le> 244 then
        (case s of
           b # c # d # r \<Rightarrow>
             if continuation b \<and> continuation c \<and> continuation d \<and>
                (a = 240 \<longrightarrow> 144 \<le> b) \<and> (a = 244 \<longrightarrow> b \<le> 143)
             then map_option
               ((@) (utf16 ((a - 240) * 262144 + (b - 128) * 4096 + (c - 128) * 64 + (d - 128))))
               (decode_utf8 r)
             else None
         | _ \<Rightarrow> None)
      else None)"

definition decode_text :: "bytes \<Rightarrow> units option" where
  "decode_text b = decode_utf8 (map unat b)"

text \<open>\<^verbatim>\<open>Buffer.byteLength(text, "utf8")\<close>: a lone surrogate takes three bytes.\<close>

definition high_surrogate :: "nat \<Rightarrow> bool" where
  "high_surrogate u \<longleftrightarrow> 55296 \<le> u \<and> u \<le> 56319"

definition low_surrogate :: "nat \<Rightarrow> bool" where
  "low_surrogate u \<longleftrightarrow> 56320 \<le> u \<and> u \<le> 57343"

fun utf8_length :: "units \<Rightarrow> nat" where
  "utf8_length [] = 0"
| "utf8_length [u] = (if u < 128 then 1 else if u < 2048 then 2 else 3)"
| "utf8_length (u # v # r) =
     (if u < 128 then 1 + utf8_length (v # r)
      else if u < 2048 then 2 + utf8_length (v # r)
      else if high_surrogate u \<and> low_surrogate v then 4 + utf8_length r
      else 3 + utf8_length (v # r))"

subsection \<open>Numbers\<close>

definition unit_digit :: "nat \<Rightarrow> bool" where
  "unit_digit u \<longleftrightarrow> 48 \<le> u \<and> u \<le> 57"

definition digits_nat :: "units \<Rightarrow> int" where
  "digits_nat ds = foldl (\<lambda>n u. n * 10 + int (u - 48)) 0 ds"

text \<open>
  The double nearest to \<open>m / den\<close>, if it is below \<open>2 ^ 53\<close>: \<open>fraction_bits\<close> is
  the number of bits after the point that its significand has.
\<close>

fun fraction_bits :: "nat \<Rightarrow> int \<Rightarrow> int \<Rightarrow> nat" where
  "fraction_bits 0 m den = 0"
| "fraction_bits (Suc n) m den =
     (if 2 ^ 52 * den \<le> m then 0 else Suc (fraction_bits n (2 * m) den))"

definition round_half_even :: "int \<Rightarrow> int \<Rightarrow> int" where
  "round_half_even m den =
     (let q = m div den; r = m mod den
      in if 2 * r < den then q else if 2 * r > den then q + 1
         else if even q then q else q + 1)"

definition nearest_double :: "int \<Rightarrow> int \<Rightarrow> json" where
  "nearest_double m den =
     (if m mod den = 0 then JsNum (m div den)
      else if 2 ^ 53 * den \<le> m then JsNum (m div den)
      else let f = fraction_bits 1074 m den; r = round_half_even (m * 2 ^ f) den
           in if r mod 2 ^ f = 0 then JsNum (r div 2 ^ f) else JsFrac)"

text \<open>\<open>digits\<close>, the digits after the point, and the exponent; beyond \<open>2 ^ 53\<close> the exact
  integer stands for the double, which is no safe integer either.\<close>

definition decimal_number :: "bool \<Rightarrow> units \<Rightarrow> units \<Rightarrow> int \<Rightarrow> json" where
  "decimal_number negative whole fraction e =
     (let m = digits_nat (whole @ fraction); scale = e - int (length fraction);
          v = (if 0 \<le> scale then nearest_double (m * 10 ^ nat scale) 1
               else nearest_double m (10 ^ nat (- scale)))
      in if negative then (case v of JsNum n \<Rightarrow> JsNum (- n) | _ \<Rightarrow> v) else v)"

definition take_digits :: "units \<Rightarrow> units \<times> units" where
  "take_digits s = (takeWhile unit_digit s, dropWhile unit_digit s)"

definition parse_whole :: "units \<Rightarrow> (units \<times> units) option" where
  "parse_whole s =
     (case s of
        [] \<Rightarrow> None
      | u # r \<Rightarrow>
          if u = 48 then Some ([u], r)
          else if unit_digit u then Some (take_digits s) else None)"

definition parse_fraction :: "units \<Rightarrow> (units \<times> units) option" where
  "parse_fraction s =
     (case s of
        u # r \<Rightarrow>
          if u = 46 then
            (let (ds, r') = take_digits r in if ds = [] then None else Some (ds, r'))
          else Some ([], s)
      | [] \<Rightarrow> Some ([], []))"

definition parse_exponent :: "units \<Rightarrow> (int \<times> units) option" where
  "parse_exponent s =
     (case s of
        u # r \<Rightarrow>
          if u = 101 \<or> u = 69 then
            (let (sign, r1) =
                   (case r of v # r' \<Rightarrow> if v = 45 then (- 1, r') else if v = 43 then (1, r') else (1, r)
                    | [] \<Rightarrow> (1, r));
                 (ds, r2) = take_digits r1
             in if ds = [] then None else Some (sign * digits_nat ds, r2))
          else Some (0, s)
      | [] \<Rightarrow> Some (0, []))"

definition parse_number :: "units \<Rightarrow> (json \<times> units) option" where
  "parse_number s =
     (let (negative, s1) = (case s of u # r \<Rightarrow> if u = 45 then (True, r) else (False, s) | [] \<Rightarrow> (False, s))
      in do {
        (whole, s2) \<leftarrow> parse_whole s1;
        (fraction, s3) \<leftarrow> parse_fraction s2;
        (e, s4) \<leftarrow> parse_exponent s3;
        Some (decimal_number negative whole fraction e, s4)
      })"


subsection \<open>Strings\<close>

definition hex_unit :: "nat \<Rightarrow> nat option" where
  "hex_unit u =
     (if unit_digit u then Some (u - 48)
      else if 97 \<le> u \<and> u \<le> 102 then Some (u - 87)
      else if 65 \<le> u \<and> u \<le> 70 then Some (u - 55) else None)"

definition short_escape :: "nat \<Rightarrow> nat option" where
  "short_escape u =
     map_of [(34, 34), (92, 92), (47, 47), (98, 8), (102, 12), (110, 10), (114, 13), (116, 9)] u"

definition hex4 :: "units \<Rightarrow> (nat \<times> units) option" where
  "hex4 s =
     (case s of
        a # b # c # d # r \<Rightarrow>
          do {
            w \<leftarrow> hex_unit a; x \<leftarrow> hex_unit b; y \<leftarrow> hex_unit c; z \<leftarrow> hex_unit d;
            Some (((w * 16 + x) * 16 + y) * 16 + z, r)
          }
      | _ \<Rightarrow> None)"

lemma hex4_shorter: "hex4 s = Some (u, r) \<Longrightarrow> length r < length s"
  by (auto simp: hex4_def Option.bind_eq_Some_conv split: list.splits)

text \<open>The characters after the opening quote, with what follows the closing one.\<close>

function parse_chars :: "units \<Rightarrow> (units \<times> units) option" where
  "parse_chars [] = None"
| "parse_chars (c # s) =
     (if c = 34 then Some ([], s)
      else if c = 92 then
        (case s of
           [] \<Rightarrow> None
         | e # r \<Rightarrow>
             if e = 117 then
               (case hex4 r of
                  None \<Rightarrow> None
                | Some (u, r') \<Rightarrow> map_option (\<lambda>(us, t). (u # us, t)) (parse_chars r'))
             else
               (case short_escape e of
                  None \<Rightarrow> None
                | Some u \<Rightarrow> map_option (\<lambda>(us, t). (u # us, t)) (parse_chars r)))
      else if c < 32 then None
      else map_option (\<lambda>(us, t). (c # us, t)) (parse_chars s))"
  by pat_completeness auto
termination
  by (relation "measure length") (auto dest: hex4_shorter)

subsection \<open>Values\<close>

definition js_space :: "nat \<Rightarrow> bool" where
  "js_space u \<longleftrightarrow> u \<in> {9, 10, 13, 32}"

abbreviation skip_space :: "units \<Rightarrow> units" where
  "skip_space \<equiv> dropWhile js_space"

definition strip_prefix :: "string \<Rightarrow> units \<Rightarrow> units option" where
  "strip_prefix w s =
     (if take (length w) s = units w then Some (drop (length w) s) else None)"

definition parse_literal :: "units \<Rightarrow> (json \<times> units) option" where
  "parse_literal s =
     (case strip_prefix ''null'' s of
        Some r \<Rightarrow> Some (JsNull, r)
      | None \<Rightarrow>
          (case strip_prefix ''true'' s of
             Some r \<Rightarrow> Some (JsBool True, r)
           | None \<Rightarrow> map_option (Pair (JsBool False)) (strip_prefix ''false'' s)))"

text \<open>
  The grammar.  The first argument bounds the recursion; a text of \<open>n\<close> units
  never needs more than \<open>n + 1\<close>.  Objects keep every member the text has.
\<close>

fun parse_value :: "nat \<Rightarrow> units \<Rightarrow> (json \<times> units) option"
  and parse_elements :: "nat \<Rightarrow> units \<Rightarrow> (json list \<times> units) option"
  and parse_members :: "nat \<Rightarrow> units \<Rightarrow> ((units \<times> json) list \<times> units) option" where
  "parse_value 0 s = None"
| "parse_value (Suc n) s =
     (case skip_space s of
        [] \<Rightarrow> None
      | c # r \<Rightarrow>
          if c = 34 then map_option (\<lambda>(us, t). (JsStr us, t)) (parse_chars r)
          else if c = 91 then
            (case skip_space r of
               [] \<Rightarrow> None
             | d # t \<Rightarrow>
                 if d = 93 then Some (JsArr [], t)
                 else map_option (\<lambda>(vs, t'). (JsArr vs, t')) (parse_elements n r))
          else if c = 123 then
            (case skip_space r of
               [] \<Rightarrow> None
             | d # t \<Rightarrow>
                 if d = 125 then Some (JsObj [], t)
                 else map_option (\<lambda>(ms, t'). (JsObj ms, t')) (parse_members n r))
          else if c = 45 \<or> unit_digit c then parse_number (c # r)
          else parse_literal (c # r))"
| "parse_elements 0 s = None"
| "parse_elements (Suc n) s =
     (case parse_value n s of
        None \<Rightarrow> None
      | Some (v, r) \<Rightarrow>
          (case skip_space r of
             [] \<Rightarrow> None
           | d # t \<Rightarrow>
               if d = 93 then Some ([v], t)
               else if d = 44 then map_option (\<lambda>(vs, t'). (v # vs, t')) (parse_elements n t)
               else None))"
| "parse_members 0 s = None"
| "parse_members (Suc n) s =
     (case skip_space s of
        [] \<Rightarrow> None
      | q # s1 \<Rightarrow>
          if q \<noteq> 34 then None
          else case parse_chars s1 of
            None \<Rightarrow> None
          | Some (key, s2) \<Rightarrow>
              (case skip_space s2 of
                 [] \<Rightarrow> None
               | colon # s3 \<Rightarrow>
                   if colon \<noteq> 58 then None
                   else case parse_value n s3 of
                     None \<Rightarrow> None
                   | Some (v, r) \<Rightarrow>
                       (case skip_space r of
                          [] \<Rightarrow> None
                        | d # t \<Rightarrow>
                            if d = 125 then Some ([(key, v)], t)
                            else if d = 44
                            then map_option (\<lambda>(ms, t'). ((key, v) # ms, t')) (parse_members n t)
                            else None)))"

definition parse_json_raw :: "units \<Rightarrow> json option" where
  "parse_json_raw s =
     (case parse_value (length s + 1) s of
        None \<Rightarrow> None
      | Some (v, r) \<Rightarrow> if skip_space r = [] then Some v else None)"

text \<open>A repeated key keeps its first place and its last value.\<close>

fun last_members :: "(units \<times> json) list \<Rightarrow> (units \<times> json) list \<Rightarrow> (units \<times> json) list" where
  "last_members acc [] = acc"
| "last_members acc ((k, v) # ms) = last_members (AList.update k v acc) ms"

fun merge_keys :: "json \<Rightarrow> json" where
  "merge_keys (JsArr vs) = JsArr (map merge_keys vs)"
| "merge_keys (JsObj ms) = JsObj (last_members [] (map (\<lambda>(k, v). (k, merge_keys v)) ms))"
| "merge_keys v = v"

definition parse_json :: "units \<Rightarrow> json option" where
  "parse_json s = map_option merge_keys (parse_json_raw s)"

subsection \<open>The scan for repeated keys\<close>

datatype json_context = CX_ARRAY | CX_OBJECT "units set"

definition MAX_JSON_DEPTH :: nat where "MAX_JSON_DEPTH = 32"

text \<open>\<^verbatim>\<open>/\s/u\<close>.\<close>

definition regex_space :: "nat \<Rightarrow> bool" where
  "regex_space u \<longleftrightarrow>
     (9 \<le> u \<and> u \<le> 13) \<or> u \<in> {32, 160, 5760, 8232, 8233, 8239, 8287, 12288, 65279} \<or>
     (8192 \<le> u \<and> u \<le> 8202)"

text \<open>Up to the quote that no backslash escapes: the text of the string and the rest.\<close>

fun string_end :: "units \<Rightarrow> (units \<times> units) option" where
  "string_end [] = None"
| "string_end (c # s) =
     (if c = 34 then Some ([], s)
      else if c = 92 then
        (case s of
           [] \<Rightarrow> None
         | e # r \<Rightarrow> map_option (\<lambda>(b, t). (c # e # b, t)) (string_end r))
      else map_option (\<lambda>(b, t). (c # b, t)) (string_end s))"

lemma string_end_shorter: "string_end s = Some (b, t) \<Longrightarrow> length t < length s"
  by (induction s arbitrary: b t rule: string_end.induct)
    (fastforce split: if_splits list.splits)+

text \<open>What the string at the current position does to the innermost context.\<close>

definition note_key :: "units \<Rightarrow> units \<Rightarrow> json_context list \<Rightarrow> json_context list option" where
  "note_key body rest stack =
     (case (dropWhile regex_space rest, stack) of
        (c # _, CX_OBJECT keys # outer) \<Rightarrow>
          if c \<noteq> 58 then Some stack
          else (case parse_json (34 # body @ [34]) of
                  Some (JsStr key) \<Rightarrow>
                    if key \<in> keys then None else Some (CX_OBJECT (insert key keys) # outer)
                | _ \<Rightarrow> None)
      | _ \<Rightarrow> Some stack)"

function unique_keys_from :: "json_context list \<Rightarrow> units \<Rightarrow> bool" where
  "unique_keys_from stack [] = (stack = [])"
| "unique_keys_from stack (c # s) =
     (if c = 123 then
        length stack + 1 \<le> MAX_JSON_DEPTH \<and> unique_keys_from (CX_OBJECT {} # stack) s
      else if c = 91 then
        length stack + 1 \<le> MAX_JSON_DEPTH \<and> unique_keys_from (CX_ARRAY # stack) s
      else if c = 125 \<or> c = 93 then unique_keys_from (tl stack) s
      else if c \<noteq> 34 then unique_keys_from stack s
      else case string_end s of
        None \<Rightarrow> False
      | Some (body, rest) \<Rightarrow>
          (case note_key body rest stack of
             None \<Rightarrow> False
           | Some stack' \<Rightarrow> unique_keys_from stack' rest))"
  by pat_completeness auto
termination
  by (relation "measure (length \<circ> snd)") (auto dest: string_end_shorter)

definition has_unique_json_keys :: "units \<Rightarrow> bool" where
  "has_unique_json_keys s = unique_keys_from [] s"


subsection \<open>Strings in the two readings\<close>

lemma hex_unit_plain: "hex_unit u = Some x \<Longrightarrow> u \<noteq> 34 \<and> u \<noteq> 92"
  by (auto simp: hex_unit_def unit_digit_def split: if_splits)

lemma hex4_Some:
  assumes "hex4 s = Some (u, r)"
  obtains a b c d where "s = a # b # c # d # r" "a \<notin> {34, 92}" "b \<notin> {34, 92}" "c \<notin> {34, 92}"
    "d \<notin> {34, 92}" "\<forall>t. hex4 (a # b # c # d # t) = Some (u, t)"
proof -
  from assms obtain a b c d w x y z where s: "s = a # b # c # d # r"
    and h: "hex_unit a = Some w" "hex_unit b = Some x" "hex_unit c = Some y" "hex_unit d = Some z"
    and u: "u = ((w * 16 + x) * 16 + y) * 16 + z"
    by (auto simp: hex4_def Option.bind_eq_Some_conv split: list.splits)
  show ?thesis by (rule that [OF s]) (use h hex_unit_plain in \<open>auto simp: hex4_def u\<close>)
qed

lemma parse_chars_end:
  "parse_chars s = Some (key, t) \<Longrightarrow>
   \<exists>b. string_end s = Some (b, t) \<and> parse_chars (b @ [34]) = Some (key, [])"
proof (induction s arbitrary: key rule: parse_chars.induct)
  case (2 c s)
  consider "c = 34" | (unicode) r where "c = 92" "s = 117 # r" | (escape) e r where "c = 92" "s = e # r" "e \<noteq> 117"
    | (plain) "c \<noteq> 34" "c \<noteq> 92"
    using "2.prems" by (cases s) (auto split: if_splits)
  then show ?case
  proof cases
    case 1
    then show ?thesis using "2.prems" by simp
  next
    case unicode
    with "2.prems" obtain u r' us where h: "hex4 r = Some (u, r')" "parse_chars r' = Some (us, t)" "key = u # us"
      by (auto split: option.splits)
    then obtain b where b: "string_end r' = Some (b, t)" "parse_chars (b @ [34]) = Some (us, [])"
      using "2.IH"(1) unicode by fastforce
    obtain w x y z where "r = w # x # y # z # r'" "w \<notin> {34, 92}" "x \<notin> {34, 92}" "y \<notin> {34, 92}"
      "z \<notin> {34, 92}" "\<forall>t. hex4 (w # x # y # z # t) = Some (u, t)"
      by (rule hex4_Some [OF h(1)])
    with b unicode h(3) show ?thesis by (intro exI [of _ "92 # 117 # w # x # y # z # b"]) simp
  next
    case escape
    with "2.prems" obtain u us where h: "short_escape e = Some u" "parse_chars r = Some (us, t)" "key = u # us"
      by (auto split: option.splits)
    then obtain b where b: "string_end r = Some (b, t)" "parse_chars (b @ [34]) = Some (us, [])"
      using "2.IH"(2) escape by fastforce
    with escape h show ?thesis by (intro exI [of _ "92 # e # b"]) simp
  next
    case plain
    with "2.prems" obtain us where h: "\<not> c < 32" "parse_chars s = Some (us, t)" "key = c # us"
      by (auto split: if_splits)
    then obtain b where "string_end s = Some (b, t)" "parse_chars (b @ [34]) = Some (us, [])"
      using "2.IH"(3) plain by fastforce
    with plain h show ?thesis by (intro exI [of _ "c # b"]) simp
  qed
qed simp

lemma parse_json_string:
  "parse_chars (b @ [34]) = Some (key, []) \<Longrightarrow> parse_json (34 # b @ [34]) = Some (JsStr key)"
  by (simp add: parse_json_def parse_json_raw_def js_space_def)

subsection \<open>Text the scan passes over\<close>

definition plain_unit :: "nat \<Rightarrow> bool" where
  "plain_unit u \<longleftrightarrow> u \<notin> {34, 91, 93, 123, 125}"

lemma unique_keys_plain:
  "list_all plain_unit p \<Longrightarrow> unique_keys_from st (p @ s) = unique_keys_from st s"
  by (induction p) (auto simp: plain_unit_def)

lemma unique_keys_space: "unique_keys_from st (skip_space s) = unique_keys_from st s"
proof -
  have "list_all plain_unit (takeWhile js_space s)"
    by (auto simp: list_all_iff plain_unit_def js_space_def dest: set_takeWhileD)
  then show ?thesis
    using unique_keys_plain [of "takeWhile js_space s" st "skip_space s"] by simp
qed

lemma digits_plain: "list_all plain_unit (takeWhile unit_digit s)"
  by (auto simp: list_all_iff plain_unit_def unit_digit_def dest: set_takeWhileD)

definition consumes :: "units \<Rightarrow> units \<Rightarrow> bool" where
  "consumes s r \<longleftrightarrow> (\<exists>p. s = p @ r \<and> list_all plain_unit p)"

lemma consumes_simps [simp, intro]:
  "consumes s s" "plain_unit u \<Longrightarrow> consumes s r \<Longrightarrow> consumes (u # s) r"
  "consumes s (dropWhile unit_digit s)"
proof -
  show "consumes s s" by (simp add: consumes_def)
  show "consumes (u # s) r" if "plain_unit u" "consumes s r"
  proof -
    from that(2) obtain p where "s = p @ r" "list_all plain_unit p" by (auto simp: consumes_def)
    with that(1) show ?thesis unfolding consumes_def by (intro exI [of _ "u # p"]) simp
  qed
  show "consumes s (dropWhile unit_digit s)"
    using digits_plain unfolding consumes_def by (intro exI [of _ "takeWhile unit_digit s"]) simp
qed

lemma consumes_trans: "consumes a b \<Longrightarrow> consumes b c \<Longrightarrow> consumes a c"
  unfolding consumes_def by (metis append.assoc list_all_append)

lemma consumes_unique: "consumes s r \<Longrightarrow> unique_keys_from st s = unique_keys_from st r"
  by (auto simp: consumes_def unique_keys_plain)

lemma plain_units [simp]:
  "plain_unit 45" "plain_unit 43" "plain_unit 46" "plain_unit 48" "plain_unit 101" "plain_unit 69"
  "unit_digit u \<Longrightarrow> plain_unit u"
  by (auto simp: plain_unit_def unit_digit_def)

lemma parse_whole_consumes: "parse_whole s = Some (w, r) \<Longrightarrow> consumes s r"
  by (auto simp: parse_whole_def take_digits_def split: list.splits if_splits)

lemma parse_fraction_consumes: "parse_fraction s = Some (f, r) \<Longrightarrow> consumes s r"
  by (auto simp: parse_fraction_def take_digits_def Let_def split: list.splits if_splits)

lemma parse_exponent_consumes: "parse_exponent s = Some (e, r) \<Longrightarrow> consumes s r"
  by (auto simp: parse_exponent_def take_digits_def Let_def split: list.splits if_splits)

lemma parse_number_consumes:
  assumes "parse_number s = Some (v, r)"
  shows "consumes s r"
proof -
  define s1 where "s1 = (case s of u # t \<Rightarrow> if u = 45 then t else s | [] \<Rightarrow> [])"
  have 1: "consumes s s1" by (cases s) (simp_all add: s1_def)
  obtain w s2 f s3 e where "parse_whole s1 = Some (w, s2)" "parse_fraction s2 = Some (f, s3)"
    "parse_exponent s3 = Some (e, r)"
    using assms
    by (cases s) (auto simp: parse_number_def s1_def Option.bind_eq_Some_conv split: if_splits)
  then show ?thesis
    using 1 parse_whole_consumes parse_fraction_consumes parse_exponent_consumes consumes_trans by metis
qed

lemma strip_prefix_consumes:
  assumes "strip_prefix w s = Some r" "list_all plain_unit (units w)"
  shows "consumes s r"
proof -
  have "take (length w) s = units w" "r = drop (length w) s"
    using assms(1) by (simp_all add: strip_prefix_def split: if_splits)
  then have "s = units w @ r" by (metis append_take_drop_id)
  with assms(2) show ?thesis by (auto simp: consumes_def)
qed

lemma parse_literal_consumes: "parse_literal s = Some (v, r) \<Longrightarrow> consumes s r"
  by (auto simp: parse_literal_def plain_unit_def split: option.splits elim!: strip_prefix_consumes)


subsection \<open>The scan agrees with the parser\<close>

fun distinct_keys :: "json \<Rightarrow> bool" where
  "distinct_keys (JsArr vs) = (\<forall>v \<in> set vs. distinct_keys v)"
| "distinct_keys (JsObj ms) =
     (distinct (map fst ms) \<and> (\<forall>(k, v) \<in> set ms. distinct_keys v))"
| "distinct_keys v = True"

text \<open>\<open>nested n v\<close>: inside \<open>n\<close> brackets, \<open>v\<close> stays within the depth limit.\<close>

fun nested :: "nat \<Rightarrow> json \<Rightarrow> bool" where
  "nested n (JsArr vs) = (n + 1 \<le> MAX_JSON_DEPTH \<and> (\<forall>v \<in> set vs. nested (n + 1) v))"
| "nested n (JsObj ms) = (n + 1 \<le> MAX_JSON_DEPTH \<and> (\<forall>(k, v) \<in> set ms. nested (n + 1) v))"
| "nested n v = True"

definition well_keyed :: "nat \<Rightarrow> json \<Rightarrow> bool" where
  "well_keyed n v \<longleftrightarrow> distinct_keys v \<and> nested n v"

lemma well_keyed_simps [simp]:
  "well_keyed n JsNull" "well_keyed n (JsBool b)" "well_keyed n (JsNum i)" "well_keyed n JsFrac"
  "well_keyed n (JsStr s)"
  "well_keyed n (JsArr vs) \<longleftrightarrow> n + 1 \<le> MAX_JSON_DEPTH \<and> (\<forall>v \<in> set vs. well_keyed (n + 1) v)"
  "well_keyed n (JsObj ms) \<longleftrightarrow> n + 1 \<le> MAX_JSON_DEPTH \<and> distinct (map fst ms) \<and>
     (\<forall>(k, v) \<in> set ms. well_keyed (n + 1) v)"
  by (auto simp: well_keyed_def)

text \<open>After a value comes the end, a comma or a closing bracket.\<close>

definition ends_value :: "units \<Rightarrow> bool" where
  "ends_value r \<longleftrightarrow> (case skip_space r of [] \<Rightarrow> True | c # _ \<Rightarrow> c \<in> {44, 93, 125})"

lemma regex_space_after:
  assumes "skip_space r = t" "case t of [] \<Rightarrow> True | c # _ \<Rightarrow> \<not> regex_space c"
  shows "dropWhile regex_space r = t"
proof -
  have "dropWhile regex_space (takeWhile js_space r @ t) = dropWhile regex_space t"
    by (rule dropWhile_append2) (auto simp: js_space_def regex_space_def dest: set_takeWhileD)
  moreover have "takeWhile js_space r @ t = r" using assms(1) by auto
  moreover have "dropWhile regex_space t = t" using assms(2) by (cases t) simp_all
  ultimately show ?thesis by simp
qed

lemma note_key_value:
  assumes "ends_value r"
  shows "note_key b r st = Some st"
proof -
  have "dropWhile regex_space r = skip_space r"
    using assms by (intro regex_space_after)
      (auto simp: ends_value_def regex_space_def simp del: dropWhile_eq_Nil_conv split: list.splits)
  then show ?thesis
    using assms by (auto simp: note_key_def ends_value_def simp del: dropWhile_eq_Nil_conv
        split: list.splits json_context.splits)
qed

lemma note_key_colon:
  assumes "skip_space r = 58 # t" "parse_chars (b @ [34]) = Some (key, [])"
  shows "note_key b r (CX_OBJECT keys # st) =
    (if key \<in> keys then None else Some (CX_OBJECT (insert key keys) # st))"
proof -
  have "dropWhile regex_space r = 58 # t"
    by (rule regex_space_after [OF assms(1)]) (simp add: regex_space_def)
  then show ?thesis using parse_json_string [OF assms(2)] by (simp add: note_key_def)
qed

lemma space_unique: "skip_space s = t \<Longrightarrow> unique_keys_from st s = unique_keys_from st t"
  using unique_keys_space by metis

lemma consumed_literal: "parse_literal s = Some (v, r) \<Longrightarrow> well_keyed n v"
  by (auto simp: parse_literal_def split: option.splits)

lemma consumed_number: "parse_number s = Some (v, r) \<Longrightarrow> well_keyed n v"
  by (auto simp: parse_number_def decimal_number_def nearest_double_def Let_def
      Option.bind_eq_Some_conv split: prod.splits json.splits if_splits)

lemma string_value_unique:
  assumes "parse_chars s = Some (key, r)" "ends_value r"
  shows "unique_keys_from st (34 # s) = unique_keys_from st r"
proof -
  obtain b where "string_end s = Some (b, r)" using parse_chars_end [OF assms(1)] by blast
  then show ?thesis by (simp add: note_key_value [OF assms(2)])
qed

lemma string_key_unique:
  assumes "parse_chars s = Some (key, r)" "skip_space r = 58 # t"
  shows "unique_keys_from (CX_OBJECT keys # st) (34 # s) \<longleftrightarrow>
    key \<notin> keys \<and> unique_keys_from (CX_OBJECT (insert key keys) # st) t"
proof -
  obtain b where b: "string_end s = Some (b, r)" "parse_chars (b @ [34]) = Some (key, [])"
    using parse_chars_end [OF assms(1)] by blast
  show ?thesis
    using space_unique [OF assms(2), of "CX_OBJECT (insert key keys) # st"]
    by (simp add: b(1) note_key_colon [OF assms(2) b(2)])
qed

lemma closing_ends: "skip_space r = d # t \<Longrightarrow> d \<in> {44, 93, 125} \<Longrightarrow> ends_value r"
  by (simp add: ends_value_def)

text \<open>The scan of a value is the scan of what follows it, if the value is well keyed.\<close>

lemma unique_keys_value:
  "parse_value n s = Some (v, r) \<Longrightarrow> ends_value r \<Longrightarrow> length st \<le> MAX_JSON_DEPTH \<Longrightarrow>
   unique_keys_from st s \<longleftrightarrow> well_keyed (length st) v \<and> unique_keys_from st r"
  "parse_elements n s = Some (vs, r) \<Longrightarrow> length st + 1 \<le> MAX_JSON_DEPTH \<Longrightarrow>
   unique_keys_from (CX_ARRAY # st) s \<longleftrightarrow>
   (\<forall>v \<in> set vs. well_keyed (length st + 1) v) \<and> unique_keys_from st r"
  "parse_members n s = Some (ms, r) \<Longrightarrow> length st + 1 \<le> MAX_JSON_DEPTH \<Longrightarrow>
   unique_keys_from (CX_OBJECT keys # st) s \<longleftrightarrow>
   distinct (map fst ms) \<and> fst ` set ms \<inter> keys = {} \<and>
   (\<forall>(k, v) \<in> set ms. well_keyed (length st + 1) v) \<and> unique_keys_from st r"
proof (induction n s and n s and n s arbitrary: v r st and vs r st and ms r st keys
    rule: parse_value_parse_elements_parse_members.induct)
  case (2 n s)
  obtain c t where s: "skip_space s = c # t" using "2.prems"(1) by (cases "skip_space s") auto
  note u = space_unique [OF s, of st]
  consider (str) "c = 34" | (arr) "c = 91" | (obj) "c = 123" | (num) "c = 45 \<or> unit_digit c"
    | (lit) "c \<notin> {34, 91, 123, 45}" "\<not> unit_digit c" by blast
  then show ?case
  proof cases
    case str
    with "2.prems"(1) s obtain us where "parse_chars t = Some (us, r)" "v = JsStr us" by auto
    with string_value_unique [OF this(1) "2.prems"(2)] u str show ?thesis by simp
  next
    case arr
    show ?thesis
    proof (cases "skip_space t")
      case Nil
      then show ?thesis using "2.prems"(1) s arr by (simp del: dropWhile_eq_Nil_conv)
    next
      case (Cons d t')
      show ?thesis
      proof (cases "d = 93")
        case True
        with "2.prems"(1) s arr Cons have "v = JsArr []" "r = t'" by auto
        with u arr space_unique [OF Cons] True show ?thesis by simp
      next
        case False
        with "2.prems"(1) s arr Cons obtain vs where "parse_elements n t = Some (vs, r)" "v = JsArr vs"
          by auto
        with "2.IH"(1) [OF s _ arr Cons False] u arr show ?thesis by auto
      qed
    qed
  next
    case obj
    show ?thesis
    proof (cases "skip_space t")
      case Nil
      then show ?thesis using "2.prems"(1) s obj by (simp del: dropWhile_eq_Nil_conv)
    next
      case (Cons d t')
      show ?thesis
      proof (cases "d = 125")
        case True
        with "2.prems"(1) s obj Cons have "v = JsObj []" "r = t'" by auto
        with u obj space_unique [OF Cons] True show ?thesis by simp
      next
        case False
        with "2.prems"(1) s obj Cons obtain ms where "parse_members n t = Some (ms, r)" "v = JsObj ms"
          by auto
        with "2.IH"(2) [OF s _ _ obj Cons False] u obj show ?thesis by auto
      qed
    qed
  next
    case num
    with "2.prems"(1) s have "parse_number (c # t) = Some (v, r)" by (auto simp: unit_digit_def)
    from consumes_unique [OF parse_number_consumes [OF this]] consumed_number [OF this] show ?thesis
      unfolding u by (simp del: unique_keys_from.simps)
  next
    case lit
    with "2.prems"(1) s have "parse_literal (c # t) = Some (v, r)" by auto
    from consumes_unique [OF parse_literal_consumes [OF this]] consumed_literal [OF this] show ?thesis
      unfolding u by (simp del: unique_keys_from.simps)
  qed
next
  case (4 n s)
  obtain v r1 where v: "parse_value n s = Some (v, r1)" using "4.prems"(1) by (auto split: option.splits)
  obtain d t where d: "skip_space r1 = d # t" using "4.prems"(1) v by (cases "skip_space r1") auto
  have d': "d = 93 \<or> d = 44" using "4.prems"(1) v d by (auto split: if_splits)
  have ih: "unique_keys_from (CX_ARRAY # st) s \<longleftrightarrow>
      well_keyed (length st + 1) v \<and> unique_keys_from (CX_ARRAY # st) r1"
    using "4.IH"(1) [OF v closing_ends [OF d], of "CX_ARRAY # st"] d' "4.prems"(2) by auto
  from d' show ?case
  proof
    assume "d = 93"
    with "4.prems"(1) v d have "vs = [v]" "r = t" by auto
    with ih space_unique [OF d] \<open>d = 93\<close> show ?thesis by simp
  next
    assume 44: "d = 44"
    with "4.prems"(1) v d obtain vs' where "parse_elements n t = Some (vs', r)" "vs = v # vs'" by auto
    with "4.IH"(2) [OF v _ d _ 44 this(1) "4.prems"(2)] ih space_unique [OF d] 44 show ?thesis by simp
  qed
next
  case (6 n s)
  obtain s1 where s: "skip_space s = 34 # s1"
    using "6.prems"(1) by (cases "skip_space s") (auto split: if_splits)
  obtain key s2 where key: "parse_chars s1 = Some (key, s2)"
    using "6.prems"(1) s by (auto split: option.splits)
  obtain s3 where s3: "skip_space s2 = 58 # s3"
    using "6.prems"(1) s key by (cases "skip_space s2") (auto split: if_splits)
  obtain v r1 where v: "parse_value n s3 = Some (v, r1)"
    using "6.prems"(1) s key s3 by (auto split: option.splits)
  obtain d t where d: "skip_space r1 = d # t" using "6.prems"(1) s key s3 v by (cases "skip_space r1") auto
  have d': "d = 125 \<or> d = 44" using "6.prems"(1) s key s3 v d by (auto split: if_splits)
  have start: "unique_keys_from (CX_OBJECT keys # st) s \<longleftrightarrow>
      key \<notin> keys \<and> unique_keys_from (CX_OBJECT (insert key keys) # st) s3"
    using space_unique [OF s, of "CX_OBJECT keys # st"] string_key_unique [OF key s3, of keys st] by simp
  have ih: "unique_keys_from (CX_OBJECT (insert key keys) # st) s3 \<longleftrightarrow>
      well_keyed (length st + 1) v \<and> unique_keys_from (CX_OBJECT (insert key keys) # st) r1"
    using "6.IH"(1) [OF s _ key refl s3 _ v closing_ends [OF d], of "CX_OBJECT (insert key keys) # st"]
      d' "6.prems"(2) by auto
  from d' show ?case
  proof
    assume "d = 125"
    with "6.prems"(1) s key s3 v d have "ms = [(key, v)]" "r = t" by auto
    with start ih space_unique [OF d] \<open>d = 125\<close> show ?thesis by auto
  next
    assume 44: "d = 44"
    with "6.prems"(1) s key s3 v d obtain ms' where ms: "parse_members n t = Some (ms', r)"
      "ms = (key, v) # ms'" by auto
    have "unique_keys_from (CX_OBJECT (insert key keys) # st) t \<longleftrightarrow>
        distinct (map fst ms') \<and> fst ` set ms' \<inter> insert key keys = {} \<and>
        (\<forall>(k, v) \<in> set ms'. well_keyed (length st + 1) v) \<and> unique_keys_from st r"
      using "6.IH"(2) [OF s _ key refl s3 _ v refl d _ 44 ms(1) "6.prems"(2)] 44 by simp
    with ms start ih space_unique [OF d] 44 show ?thesis by auto
  qed
qed simp_all


text \<open>Without repeated keys nothing is merged.\<close>

lemma last_members_distinct:
  "distinct (map fst (acc @ ms)) \<Longrightarrow> last_members acc ms = acc @ ms"
proof (induction acc ms rule: last_members.induct)
  case (2 acc k v ms)
  then have "k \<notin> fst ` set acc" by auto
  then have "AList.update k v acc = acc @ [(k, v)]" by (induction acc) auto
  with 2 show ?case by simp
qed simp

lemma merge_keys_distinct: "distinct_keys v \<Longrightarrow> merge_keys v = v"
proof (induction v rule: merge_keys.induct)
  case (1 vs)
  then show ?case by (simp add: map_idI)
next
  case (2 ms)
  have "map (\<lambda>(k, v). (k, merge_keys v)) ms = ms" using 2 by (intro map_idI) auto
  with 2 show ?case using last_members_distinct [of "[]" ms] by simp
qed simp_all

text \<open>No member of a JSON text is dropped silently: for a text that \<^verbatim>\<open>JSON.parse\<close> accepts,
  \<^verbatim>\<open>hasUniqueJsonKeys\<close> answers true exactly when no object in it, at any depth, has two members
  whose keys are equal once their escapes are decoded, and no value is nested in more than
  32 brackets; the value \<^verbatim>\<open>JSON.parse\<close> returns then has every member of the text.\<close>

lemma repeated_keys_detected:
  assumes "parse_json_raw s = Some v"
  shows "(has_unique_json_keys s \<longleftrightarrow> distinct_keys v \<and> nested 0 v) \<and>
    (has_unique_json_keys s \<longrightarrow> parse_json s = Some v)"
proof -
  obtain r where r: "parse_value (length s + 1) s = Some (v, r)" "skip_space r = []"
    using assms by (auto simp: parse_json_raw_def simp del: dropWhile_eq_Nil_conv
        split: option.splits if_splits)
  have "ends_value r" by (simp add: ends_value_def r(2) del: dropWhile_eq_Nil_conv)
  then have "unique_keys_from [] s \<longleftrightarrow> well_keyed 0 v \<and> unique_keys_from [] r"
    using unique_keys_value(1) [OF r(1), of "[]"] by simp
  then have iff: "has_unique_json_keys s \<longleftrightarrow> distinct_keys v \<and> nested 0 v"
    using space_unique [OF r(2), of "[]"] by (simp add: has_unique_json_keys_def well_keyed_def)
  then show ?thesis
    using merge_keys_distinct [of v] by (auto simp: parse_json_def assms)
qed

subsection \<open>\<^verbatim>\<open>JSON.stringify\<close>\<close>

definition hex_code :: "nat \<Rightarrow> nat" where
  "hex_code n = (if n < 10 then 48 + n else 87 + n)"

definition unicode_escape :: "nat \<Rightarrow> units" where
  "unicode_escape u =
     [92, 117, hex_code (u div 4096 mod 16), hex_code (u div 256 mod 16), hex_code (u div 16 mod 16),
      hex_code (u mod 16)]"

definition escape_unit :: "nat \<Rightarrow> units" where
  "escape_unit u =
     (if u = 34 then [92, 34] else if u = 92 then [92, 92] else if u = 8 then [92, 98]
      else if u = 12 then [92, 102] else if u = 10 then [92, 110] else if u = 13 then [92, 114]
      else if u = 9 then [92, 116] else if u < 32 then unicode_escape u else [u])"

text \<open>A surrogate without its partner is escaped.\<close>

fun quote_units :: "units \<Rightarrow> units" where
  "quote_units [] = []"
| "quote_units [u] =
     (if high_surrogate u \<or> low_surrogate u then unicode_escape u else escape_unit u)"
| "quote_units (u # v # r) =
     (if high_surrogate u \<and> low_surrogate v then u # v # quote_units r
      else if high_surrogate u \<or> low_surrogate u then unicode_escape u @ quote_units (v # r)
      else escape_unit u @ quote_units (v # r))"

definition integer_text :: "int \<Rightarrow> units" where
  "integer_text n = (if n < 0 then 45 # units (to_digits 10 (- n)) else units (to_digits 10 n))"

fun joined :: "units list \<Rightarrow> units" where
  "joined [] = []"
| "joined [t] = t"
| "joined (t # ts) = t @ 44 # joined ts"

text \<open>Integers print their digits below \<open>10 ^ 21\<close>; the code prints no other number, and
  \<open>JsFrac\<close> has no text here.\<close>

fun json_text :: "json \<Rightarrow> units" where
  "json_text JsNull = units ''null''"
| "json_text (JsBool b) = (if b then units ''true'' else units ''false'')"
| "json_text (JsNum n) = integer_text n"
| "json_text JsFrac = []"
| "json_text (JsStr s) = 34 # quote_units s @ [34]"
| "json_text (JsArr vs) = 91 # joined (map json_text vs) @ [93]"
| "json_text (JsObj ms) =
     123 # joined (map (\<lambda>(k, v). 34 # quote_units k @ 34 # 58 # json_text v) ms) @ [125]"

fun printable :: "json \<Rightarrow> bool" where
  "printable (JsNum n) = (\<bar>n\<bar> < 2 ^ 53)"
| "printable JsFrac = False"
| "printable (JsStr s) = list_all (\<lambda>u. u < 65536) s"
| "printable (JsArr vs) = (\<forall>v \<in> set vs. printable v)"
| "printable (JsObj ms) = (\<forall>(k, v) \<in> set ms. list_all (\<lambda>u. u < 65536) k \<and> printable v)"
| "printable v = True"

lemma hex_unit_code: "n < 16 \<Longrightarrow> hex_unit (hex_code n) = Some n"
  by (auto simp: hex_unit_def hex_code_def unit_digit_def)

lemma parse_unicode_escape:
  assumes "u < 65536"
  shows "parse_chars (unicode_escape u @ s) = map_option (\<lambda>(us, t). (u # us, t)) (parse_chars s)"
proof -
  have "((u div 4096 mod 16 * 16 + u div 256 mod 16) * 16 + u div 16 mod 16) * 16 + u mod 16 = u"
  proof -
    have "u div 256 = u div 16 div 16" "u div 4096 = u div 16 div 16 div 16"
      by (simp_all add: div_mult2_eq [symmetric])
    moreover have "u div 16 div 16 div 16 < 16" using assms calculation(2) by simp
    ultimately show ?thesis
      using div_mult_mod_eq [of u 16] div_mult_mod_eq [of "u div 16" 16]
        div_mult_mod_eq [of "u div 16 div 16" 16]
      by (simp only: mod_less)
  qed
  moreover have "u div 4096 mod 16 = u div 4096" using assms by simp
  moreover have "hex_unit (hex_code (u div 4096)) = Some (u div 4096)"
    using assms by (intro hex_unit_code) simp
  ultimately have "hex4 (drop 2 (unicode_escape u) @ s) = Some (u, s)"
    by (simp add: hex4_def unicode_escape_def hex_unit_code)
  then show ?thesis by (simp add: unicode_escape_def)
qed

lemma parse_escape_unit:
  assumes "u < 65536"
  shows "parse_chars (escape_unit u @ s) = map_option (\<lambda>(us, t). (u # us, t)) (parse_chars s)"
  using parse_unicode_escape [OF assms, of s] by (simp add: escape_unit_def short_escape_def)

lemma parse_quoted:
  "list_all (\<lambda>u. u < 65536) s \<Longrightarrow> parse_chars (quote_units s @ 34 # r) = Some (s, r)"
proof (induction s rule: quote_units.induct)
  case (2 u)
  then show ?case using parse_unicode_escape [of u] parse_escape_unit [of u] by simp
next
  case (3 u v s)
  have "parse_chars (w # t) = map_option (\<lambda>(us, t). (w # us, t)) (parse_chars t)"
    if "high_surrogate w \<or> low_surrogate w" for w t
  proof -
    have "w \<noteq> 34" "w \<noteq> 92" "\<not> w < 32"
      using that by (auto simp: high_surrogate_def low_surrogate_def)
    then show ?thesis by simp
  qed
  then show ?case using 3 parse_unicode_escape [of u] parse_escape_unit [of u] by auto
qed simp


subsection \<open>Parsing what was printed\<close>

lemma unit_digit_hex: "n < 10 \<Longrightarrow> unit_digit (of_char (hex_digit n)) \<and> of_char (hex_digit n) = 48 + n"
proof -
  assume "n < 10"
  then have "is_digit (hex_digit n)" "hex_value (hex_digit n) = n"
    using hex_digit_chars(3) hex_digit_props(2) by simp_all
  then show ?thesis
    by (auto simp: unit_digit_def is_digit_def hex_value_def code_of_def split: if_splits)
qed

lemma digits_nat_units:
  "list_all is_digit s \<Longrightarrow> digits_nat (units s) = digits_value 10 s"
proof (induction s rule: rev_induct)
  case (snoc c s)
  then have "is_digit c" by simp
  then have "int (of_char c - 48) = int (hex_value c)"
    by (simp add: is_digit_def hex_value_def code_of_def)
  with snoc show ?case by (simp add: digits_nat_def digits_value_def)
qed (simp add: digits_nat_def digits_value_def)

lemma decimal_digits:
  assumes "0 \<le> n"
  shows "list_all is_digit (to_digits 10 n)" "digits_value 10 (to_digits 10 n) = n"
    "to_digits 10 n \<noteq> []" "0 < n \<Longrightarrow> hd (to_digits 10 n) \<noteq> CHR ''0''"
proof -
  show "list_all is_digit (to_digits 10 n)"
    using to_digits_chars [of 10 n] assms hex_digit_chars(3) by (fastforce simp: list_all_iff)
  show "digits_value 10 (to_digits 10 n) = n" using to_digits_value assms by simp
  show "to_digits 10 n \<noteq> []" by (subst to_digits.simps) simp
  show "0 < n \<Longrightarrow> hd (to_digits 10 n) \<noteq> CHR ''0''" using to_digits_hd by simp
qed

text \<open>What may follow a number.\<close>

definition number_ends :: "units \<Rightarrow> bool" where
  "number_ends r \<longleftrightarrow> (case r of [] \<Rightarrow> True | c # _ \<Rightarrow> \<not> unit_digit c \<and> c \<notin> {46, 69, 101})"

lemma number_ends_value: "ends_value r \<Longrightarrow> number_ends r"
  by (cases r) (auto simp: ends_value_def number_ends_def js_space_def unit_digit_def split: if_splits)

lemma take_digits_append:
  assumes "list_all unit_digit ds" "number_ends r"
  shows "take_digits (ds @ r) = (ds, r)"
proof -
  have "takeWhile unit_digit r = []" "dropWhile unit_digit r = r"
    using assms(2) by (cases r; simp add: number_ends_def)+
  with assms(1) show ?thesis
    by (simp add: take_digits_def list_all_iff takeWhile_append2 dropWhile_append2)
qed

lemma nearest_double_integer: "nearest_double m 1 = JsNum m"
  by (simp add: nearest_double_def)

lemma parse_number_digits:
  assumes "0 \<le> n" "number_ends r"
  shows "parse_whole (units (to_digits 10 n) @ r) = Some (units (to_digits 10 n), r)"
proof -
  note d = decimal_digits [OF assms(1)]
  obtain c t where c: "to_digits 10 n = c # t" using d(3) by (cases "to_digits 10 n") auto
  have all: "list_all unit_digit (units (c # t))"
    using d(1) by (simp add: c list_all_iff units_def is_digit_def unit_digit_def code_of_def)
  show ?thesis
  proof (cases "n = 0")
    case True
    moreover have "hex_digit 0 = CHR ''0''" by code_simp
    ultimately have "to_digits 10 n = ''0''" by (subst to_digits.simps) simp
    then show ?thesis by (simp add: parse_whole_def)
  next
    case False
    then have "c \<noteq> CHR ''0''" using d(4) assms(1) by (simp add: c)
    then have "of_char c \<noteq> (of_char (CHR ''0'') :: nat)" by (simp only: of_char_eq_iff not_False_eq_True)
    then have "of_char c \<noteq> (48 :: nat)" by simp
    then show ?thesis
      using take_digits_append [OF all assms(2)] all by (simp add: c parse_whole_def)
  qed
qed

lemma parse_integer_text:
  assumes "number_ends r"
  shows "parse_number (integer_text n @ r) = Some (JsNum n, r)"
proof -
  have rest: "parse_fraction r = Some ([], r)" "parse_exponent r = Some (0, r)"
    using assms by (cases r; auto simp: parse_fraction_def parse_exponent_def number_ends_def)+
  have num: "decimal_number b (units (to_digits 10 m)) [] 0 = (if b then JsNum (- m) else JsNum m)"
    if "0 \<le> m" for b m
    using decimal_digits(1,2) [OF that]
    by (simp add: decimal_number_def digits_nat_units nearest_double_integer)
  have head: "\<not> (\<exists>t. units (to_digits 10 m) @ r = 45 # t)" if m: "0 \<le> m" for m
  proof -
    obtain c t where c: "to_digits 10 m = c # t" using decimal_digits(3) [OF m] by (cases "to_digits 10 m") auto
    have "is_digit c" using decimal_digits(1) [OF m] by (simp add: c)
    then show ?thesis by (auto simp: c is_digit_def code_of_def)
  qed
  show ?thesis
  proof (cases "n < 0")
    case True
    then show ?thesis
      using parse_number_digits [of "- n", OF _ assms] rest num [of "- n"]
      by (simp add: parse_number_def integer_text_def)
  next
    case False
    then have n: "0 \<le> n" by simp
    obtain c t where c: "units (to_digits 10 n) @ r = c # t" "c \<noteq> 45"
      using head [OF n] decimal_digits(3) [OF n] by (cases "units (to_digits 10 n) @ r") auto
    then show ?thesis
      using parse_number_digits [OF n assms] rest num [OF n] False
      by (simp add: parse_number_def integer_text_def)
  qed
qed


text \<open>The first unit of a printed value decides the branch of the parser.\<close>

lemma integer_text_head:
  obtains c t where "integer_text n = c # t" "c = 45 \<or> unit_digit c"
proof -
  have digit: "\<exists>c t. units (to_digits 10 m) = c # t \<and> unit_digit c" if m: "0 \<le> m" for m
  proof -
    obtain c t where c: "to_digits 10 m = c # t" using decimal_digits(3) [OF m] by (cases "to_digits 10 m") auto
    have "is_digit c" using decimal_digits(1) [OF m] by (simp add: c)
    then show ?thesis by (simp add: c is_digit_def unit_digit_def code_of_def)
  qed
  show ?thesis
  proof (cases "n < 0")
    case True
    then show ?thesis using that by (simp add: integer_text_def)
  next
    case False
    then show ?thesis using that digit [of n] by (auto simp: integer_text_def)
  qed
qed

lemma json_text_head:
  assumes "printable v"
  obtains c t where "json_text v = c # t" "\<not> js_space c" "c \<notin> {93, 125}"
  using assms
proof (cases v)
  case (JsNum n)
  obtain c t where "integer_text n = c # t" "c = 45 \<or> unit_digit c" by (rule integer_text_head)
  then show ?thesis using that JsNum by (auto simp: js_space_def unit_digit_def)
next
  case (JsBool b)
  then show ?thesis using that by (cases b) (auto simp: js_space_def)
qed (auto simp: js_space_def intro: that)

lemma strip_prefix_units: "strip_prefix w (units w @ r) = Some r"
  by (simp add: strip_prefix_def)

lemma parse_literals:
  "parse_literal (units ''null'' @ r) = Some (JsNull, r)"
  "parse_literal (units ''true'' @ r) = Some (JsBool True, r)"
  "parse_literal (units ''false'' @ r) = Some (JsBool False, r)"
  by (simp_all add: parse_literal_def strip_prefix_def)

lemma joined_Cons: "ts \<noteq> [] \<Longrightarrow> joined (t # ts) = t @ 44 # joined ts"
  by (cases ts) simp_all

text \<open>Printed values parse back; a text of \<open>n\<close> units is bound enough.\<close>

definition parses_back :: "json \<Rightarrow> bool" where
  "parses_back v \<longleftrightarrow>
     (\<forall>n r. length (json_text v) \<le> n \<longrightarrow> ends_value r \<longrightarrow>
        parse_value n (json_text v @ r) = Some (v, r))"

lemma parses_backD:
  "parses_back v \<Longrightarrow> length (json_text v) \<le> n \<Longrightarrow> ends_value r \<Longrightarrow>
   parse_value n (json_text v @ r) = Some (v, r)"
  by (simp add: parses_back_def)

lemma ends_value_simps [simp]:
  "ends_value (44 # r)" "ends_value (93 # r)" "ends_value (125 # r)" "ends_value []"
  by (simp_all add: ends_value_def js_space_def)

lemma parse_elements_back:
  assumes "vs \<noteq> []" "\<forall>v \<in> set vs. parses_back v" "length (joined (map json_text vs)) + 1 \<le> n"
  shows "parse_elements n (joined (map json_text vs) @ 93 # r) = Some (vs, r)"
  using assms
proof (induction vs arbitrary: n)
  case (Cons v vs)
  obtain m where n: "n = Suc m" using Cons.prems(3) by (cases n) auto
  show ?case
  proof (cases "vs = []")
    case True
    then show ?thesis
      using Cons.prems parses_backD [of v m "93 # r"] by (simp add: n js_space_def)
  next
    case False
    have "parse_value m (json_text v @ 44 # joined (map json_text vs) @ 93 # r) =
        Some (v, 44 # joined (map json_text vs) @ 93 # r)"
      using Cons.prems False by (intro parses_backD) (simp_all add: n joined_Cons)
    moreover have "parse_elements m (joined (map json_text vs) @ 93 # r) = Some (vs, r)"
      using Cons.prems False by (intro Cons.IH) (simp_all add: n joined_Cons)
    ultimately show ?thesis using False by (simp add: n joined_Cons js_space_def)
  qed
qed simp

definition member_text :: "units \<times> json \<Rightarrow> units" where
  "member_text = (\<lambda>(k, v). 34 # quote_units k @ 34 # 58 # json_text v)"

lemma parse_members_back:
  assumes "ms \<noteq> []" "\<forall>(k, v) \<in> set ms. list_all (\<lambda>u. u < 65536) k \<and> parses_back v"
    and "length (joined (map member_text ms)) + 1 \<le> n"
  shows "parse_members n (joined (map member_text ms) @ 125 # r) = Some (ms, r)"
  using assms
proof (induction ms arbitrary: n)
  case (Cons m ms)
  obtain k v where m: "m = (k, v)" by fastforce
  obtain n' where n: "n = Suc n'" using Cons.prems(3) by (cases n) auto
  have k: "parse_chars (quote_units k @ 34 # t) = Some (k, t)" for t
    using Cons.prems(2) by (simp add: m parse_quoted)
  show ?case
  proof (cases "ms = []")
    case True
    then have "parse_value n' (json_text v @ 125 # r) = Some (v, 125 # r)"
      using Cons.prems by (intro parses_backD) (simp_all add: m n member_text_def)
    then show ?thesis using True by (simp add: m n member_text_def k js_space_def)
  next
    case False
    have "parse_value n' (json_text v @ 44 # joined (map member_text ms) @ 125 # r) =
        Some (v, 44 # joined (map member_text ms) @ 125 # r)"
      using Cons.prems False by (intro parses_backD) (simp_all add: m n joined_Cons member_text_def)
    moreover have "parse_members n' (joined (map member_text ms) @ 125 # r) = Some (ms, r)"
      using Cons.prems False by (intro Cons.IH) (simp_all add: m n joined_Cons)
    ultimately show ?thesis
      using False by (simp add: m n joined_Cons member_text_def k js_space_def)
  qed
qed simp

lemma json_text_object:
  "json_text (JsObj ms) = 123 # joined (map member_text ms) @ [125]"
  by (simp add: member_text_def)

lemma joined_head:
  assumes "ts \<noteq> []" "hd ts = c # t"
  obtains t' where "joined ts = c # t'"
  using assms by (cases ts; cases "tl ts") auto

lemma printable_parses_back: "printable v \<Longrightarrow> parses_back v"
proof (induction v)
  case (JsNum i)
  obtain c t where c: "integer_text i = c # t" "c = 45 \<or> unit_digit c" by (rule integer_text_head)
  have "\<not> js_space c" "c \<notin> {34, 91, 123}" using c(2) by (auto simp: js_space_def unit_digit_def)
  moreover have "parse_number (c # t @ r) = Some (JsNum i, r)" if "ends_value r" for r
    using parse_integer_text [OF number_ends_value [OF that], of i] by (simp add: c(1))
  ultimately show ?case
    using c unfolding parses_back_def
    by (intro allI impI, case_tac n) (auto simp del: parse_number_def)
next
  case (JsStr s)
  then show ?case
    unfolding parses_back_def
    by (intro allI impI, case_tac n) (simp_all add: parse_quoted js_space_def)
next
  case (JsArr vs)
  then have each: "\<forall>v \<in> set vs. parses_back v" and all_print: "\<forall>v \<in> set vs. printable v" by simp_all
  show ?case
    unfolding parses_back_def
  proof (intro allI impI)
    fix n r
    assume n: "length (json_text (JsArr vs)) \<le> n" and "ends_value r"
    obtain m where m: "n = Suc m" using n by (cases n) auto
    show "parse_value n (json_text (JsArr vs) @ r) = Some (JsArr vs, r)"
    proof (cases "vs = []")
      case True
      then show ?thesis by (simp add: m js_space_def)
    next
      case False
      then have "printable (hd vs)" using all_print by simp
      then obtain c t where "json_text (hd vs) = c # t" "\<not> js_space c" "c \<notin> {93, 125}"
        by (rule json_text_head)
      moreover obtain t' where "joined (map json_text vs) = c # t'"
        using calculation(1) False by (rule_tac joined_head [of "map json_text vs" c t]) (auto simp: hd_map)
      moreover have "parse_elements m (joined (map json_text vs) @ 93 # r) = Some (vs, r)"
        using False each n by (intro parse_elements_back) (simp_all add: m)
      ultimately show ?thesis by (simp add: m js_space_def)
    qed
  qed
next
  case (JsObj ms)
  then have each: "\<forall>(k, v) \<in> set ms. list_all (\<lambda>u. u < 65536) k \<and> parses_back v" by fastforce
  show ?case
    unfolding parses_back_def json_text_object
  proof (intro allI impI)
    fix n r
    assume n: "length (123 # joined (map member_text ms) @ [125]) \<le> n" and "ends_value r"
    obtain m where m: "n = Suc m" using n by (cases n) auto
    show "parse_value n ((123 # joined (map member_text ms) @ [125]) @ r) = Some (JsObj ms, r)"
    proof (cases "ms = []")
      case True
      then show ?thesis by (simp add: m js_space_def)
    next
      case False
      obtain k v where "hd ms = (k, v)" by fastforce
      then have "hd (map member_text ms) = 34 # (quote_units k @ 34 # 58 # json_text v)"
        using False by (simp add: hd_map member_text_def)
      then obtain t where "joined (map member_text ms) = 34 # t"
        using False joined_head [of "map member_text ms"] by blast
      moreover have "parse_members m (joined (map member_text ms) @ 125 # r) = Some (ms, r)"
        using False each n by (intro parse_members_back) (simp_all add: m)
      ultimately show ?thesis by (simp add: m js_space_def)
    qed
  qed
next
  case (JsBool b)
  show ?case
    unfolding parses_back_def
    by (cases b; intro allI impI; case_tac n)
      (use parse_literals in \<open>auto simp: js_space_def unit_digit_def\<close>)
next
  case JsNull
  show ?case
    unfolding parses_back_def
    by (intro allI impI, case_tac n)
      (use parse_literals in \<open>auto simp: js_space_def unit_digit_def\<close>)
qed simp


text \<open>What \<^verbatim>\<open>JSON.stringify\<close> prints, \<^verbatim>\<open>JSON.parse\<close> reads back: every value made of strings,
  safe integers, literals, arrays and objects without repeated keys is recovered exactly,
  whatever characters its strings hold.\<close>

theorem json_roundtrip:
  assumes "printable v" "distinct_keys v"
  shows "parse_json (json_text v) = Some v"
proof -
  have "parse_value (length (json_text v) + 1) (json_text v @ []) = Some (v, [])"
    by (rule parses_backD [OF printable_parses_back [OF assms(1)]]) simp_all
  then show ?thesis using merge_keys_distinct [OF assms(2)] by (simp add: parse_json_def parse_json_raw_def)
qed

theorem json_roundtrip_witness:
  "parse_json (json_text (JsObj [(units ''a'', JsArr [JsNum (-12), JsStr [34, 55357, 10]]),
     (units ''b'', JsNull)])) =
   Some (JsObj [(units ''a'', JsArr [JsNum (-12), JsStr [34, 55357, 10]]), (units ''b'', JsNull)])"
  by (rule json_roundtrip) simp_all

lemma parse_json_text:
  assumes "printable v" "well_keyed 0 v"
  shows "parse_json (json_text v) = Some v" "has_unique_json_keys (json_text v)"
proof -
  have raw: "parse_value (length (json_text v) + 1) (json_text v @ []) = Some (v, [])"
    by (rule parses_backD [OF printable_parses_back [OF assms(1)]]) simp_all
  have "unique_keys_from [] (json_text v)"
    using unique_keys_value(1) [of "length (json_text v) + 1" "json_text v" v "[]" "[]"] raw assms(2)
    by simp
  then show "has_unique_json_keys (json_text v)" by (simp add: has_unique_json_keys_def)
  show "parse_json (json_text v) = Some v"
    using raw merge_keys_distinct assms(2) by (simp add: parse_json_def parse_json_raw_def well_keyed_def)
qed

subsection \<open>Bytes\<close>

text \<open>\<^verbatim>\<open>Buffer.from(text, "utf8")\<close>.\<close>

fun encode_utf8 :: "units \<Rightarrow> nat list" where
  "encode_utf8 [] = []"
| "encode_utf8 (u # r) =
     (if u < 128 then u # encode_utf8 r
      else if u < 2048 then [192 + u div 64, 128 + u mod 64] @ encode_utf8 r
      else if high_surrogate u then
        (case r of
           v # r' \<Rightarrow>
             if low_surrogate v then
               (let cp = 65536 + (u - 55296) * 1024 + (v - 56320)
                in [240 + cp div 262144, 128 + cp div 4096 mod 64, 128 + cp div 64 mod 64,
                    128 + cp mod 64] @ encode_utf8 r')
             else [239, 191, 189] @ encode_utf8 r
         | [] \<Rightarrow> [239, 191, 189])
      else if low_surrogate u then [239, 191, 189] @ encode_utf8 r
      else [224 + u div 4096, 128 + u div 64 mod 64, 128 + u mod 64] @ encode_utf8 r)"

definition encode_text :: "units \<Rightarrow> bytes" where
  "encode_text u = map of_nat (encode_utf8 u)"

lemma ascii_text:
  assumes "list_all (\<lambda>u. u < 128) u"
  shows "encode_utf8 u = u" "decode_utf8 u = Some u" "decode_text (encode_text u) = Some u"
    "length (encode_text u) = length u"
proof -
  show e: "encode_utf8 u = u" using assms by (induction u) simp_all
  show d: "decode_utf8 u = Some u" using assms by (induction u) simp_all
  have "map (unat \<circ> (of_nat :: nat \<Rightarrow> byte)) u = u"
    using assms by (intro map_idI) (auto simp: list_all_iff unat_byte)
  then show "decode_text (encode_text u) = Some u" by (simp add: decode_text_def encode_text_def e d)
  show "length (encode_text u) = length u" by (simp add: encode_text_def e)
qed

end
