(* ===== verification/Ip_Policy.thy ===== *)
theory Ip_Policy
  imports Decimal
begin

section \<open>IP addresses and the destination policy\<close>

text \<open>
  Models \<^verbatim>\<open>apps/api/src/target/ip-policy.ts\<close> and, of the standard library,
  \<^verbatim>\<open>isIP\<close> of \<^verbatim>\<open>node:net\<close>: which texts are IPv4 and IPv6 addresses.
  Addresses are \<^verbatim>\<open>bigint\<close>s in the code and integers here; a shift by \<open>k\<close>
  bits is a division or multiplication by \<open>2 ^ k\<close>.
\<close>

subsection \<open>\<^verbatim>\<open>isIP\<close>\<close>

definition v4_segment :: "string \<Rightarrow> bool" where
  "v4_segment s \<longleftrightarrow>
     1 \<le> length s \<and> length s \<le> 3 \<and> list_all is_digit s \<and>
     (length s = 1 \<or> hd s \<noteq> CHR ''0'') \<and> digits_value 10 s \<le> 255"

definition is_ipv4 :: "string \<Rightarrow> bool" where
  "is_ipv4 s \<longleftrightarrow>
     (let parts = split_on (CHR ''.'') s in length parts = 4 \<and> list_all v4_segment parts)"

definition v6_segment :: "string \<Rightarrow> bool" where
  "v6_segment s \<longleftrightarrow> 1 \<le> length s \<and> length s \<le> 4 \<and> list_all is_hex_digit s"

text \<open>The number of 16-bit groups a list of segments stands for, if the last may be dotted.\<close>

definition v6_width :: "string list \<Rightarrow> nat option" where
  "v6_width segs =
     (if list_all v6_segment segs then Some (length segs)
      else if segs \<noteq> [] \<and> list_all v6_segment (butlast segs) \<and> is_ipv4 (last segs)
      then Some (length segs + 1) else None)"

text \<open>\<^verbatim>\<open>s.split("::")\<close>\<close>

fun split_double_colon :: "string \<Rightarrow> string list" where
  "split_double_colon [] = [[]]"
| "split_double_colon [c] = [[c]]"
| "split_double_colon (c # d # cs) =
     (if c = CHR '':'' \<and> d = CHR '':'' then [] # split_double_colon cs
      else (case split_double_colon (d # cs) of
              [] \<Rightarrow> [[c]] | p # ps \<Rightarrow> (c # p) # ps))"

definition v6_segments :: "string \<Rightarrow> string list" where
  "v6_segments s = (if s = [] then [] else split_on (CHR '':'') s)"

definition is_ipv6_body :: "string \<Rightarrow> bool" where
  "is_ipv6_body s \<longleftrightarrow>
     (case split_double_colon s of
        [whole] \<Rightarrow> v6_width (v6_segments whole) = Some 8
      | [left, right] \<Rightarrow>
          list_all v6_segment (v6_segments left) \<and>
          (case v6_width (v6_segments right) of
             None \<Rightarrow> False | Some n \<Rightarrow> length (v6_segments left) + n \<le> 7)
      | _ \<Rightarrow> False)"

definition zone_char :: "char \<Rightarrow> bool" where
  "zone_char c \<longleftrightarrow> is_alnum c \<or> c = CHR ''-'' \<or> c = CHR ''.'' \<or> c = CHR '':''"

definition is_ipv6 :: "string \<Rightarrow> bool" where
  "is_ipv6 s \<longleftrightarrow>
     (let body = takeWhile (\<lambda>c. c \<noteq> CHR ''%'') s;
          zone = dropWhile (\<lambda>c. c \<noteq> CHR ''%'') s
      in is_ipv6_body body \<and> (zone = [] \<or> (tl zone \<noteq> [] \<and> list_all zone_char (tl zone))))"

definition is_ip :: "string \<Rightarrow> nat" where
  "is_ip s = (if is_ipv4 s then 4 else if is_ipv6 s then 6 else 0)"

subsection \<open>Parsing\<close>

datatype ip_family = IPv4 | IPv6

record parsed_ip =
  pi_address :: string
  pi_family :: ip_family
  pi_value :: int

record cidr_range =
  cr_family :: ip_family
  cr_network :: int
  cr_prefix :: nat

definition ip_bits :: "ip_family \<Rightarrow> nat" where
  "ip_bits f = (case f of IPv4 \<Rightarrow> 32 | IPv6 \<Rightarrow> 128)"

definition parse_ipv4 :: "string \<Rightarrow> parsed_ip option" where
  "parse_ipv4 address =
     (if is_ip address \<noteq> 4 then None
      else let octets = map (digits_value 10) (split_on (CHR ''.'') address)
           in Some \<lparr>pi_address = join_with ''.'' (map (to_digits 10) octets), pi_family = IPv4,
                pi_value = foldl (\<lambda>current octet. current * 2 ^ 8 + octet) 0 octets\<rparr>)"

text \<open>
  The scan of \<^verbatim>\<open>formatIpv6\<close> for the first longest run of zero groups: the
  result is its start and length.
\<close>

definition zero_run :: "int list \<Rightarrow> nat" where
  "zero_run groups = length (takeWhile (\<lambda>g. g = 0) groups)"

function best_zero_run :: "int list \<Rightarrow> nat \<Rightarrow> nat \<times> nat \<Rightarrow> nat \<times> nat" where
  "best_zero_run groups index best =
     (if index \<ge> length groups then best
      else if groups ! index \<noteq> 0 then best_zero_run groups (index + 1) best
      else let run = zero_run (drop index groups)
           in best_zero_run groups (index + max 1 run) (if run > snd best then (index, run) else best))"
  by auto
termination by (relation "measure (\<lambda>(groups, index, _). length groups - index)") auto

definition group_text :: "int list \<Rightarrow> string" where
  "group_text groups = join_with '':'' (map (to_digits 16) groups)"

definition format_ipv6 :: "int list \<Rightarrow> string" where
  "format_ipv6 groups =
     (case best_zero_run groups 0 (0, 0) of
        (start, len) \<Rightarrow>
          if len < 2 then group_text groups
          else group_text (take start groups) @ ''::'' @ group_text (drop (start + len) groups))"

definition last_colon_split :: "string \<Rightarrow> string \<times> string" where
  "last_colon_split s =
     (let tail = rev (takeWhile (\<lambda>c. c \<noteq> CHR '':'') (rev s))
      in (take (length s - length tail - 1) s, tail))"

text \<open>The rewriting of a dotted tail into two groups; \<open>None\<close> when the tail is no IPv4 address.\<close>

definition expand_dotted :: "string \<Rightarrow> string option" where
  "expand_dotted s =
     (if CHR ''.'' \<notin> set s then Some s
      else (case last_colon_split s of
              (front, tail) \<Rightarrow>
                (case parse_ipv4 tail of
                   None \<Rightarrow> None
                 | Some v4 \<Rightarrow>
                     Some (front @ '':'' @ to_digits 16 (pi_value v4 div 2 ^ 16 mod 2 ^ 16) @
                       '':'' @ to_digits 16 (pi_value v4 mod 2 ^ 16)))))"

definition v6_groups :: "string \<Rightarrow> int list option" where
  "v6_groups s =
     (let halves = split_double_colon s;
          left = v6_segments (hd halves);
          right = (case halves of _ # r # _ \<Rightarrow> v6_segments r | _ \<Rightarrow> []);
          missing = 8 - int (length left) - int (length right)
      in if length halves > 2 then None
         else if (if length halves = 1 then missing \<noteq> 0 else missing < 1) then None
         else Some (map (digits_value 16) (left @ replicate (nat missing) ''0'' @ right)))"

definition parse_ipv6 :: "string \<Rightarrow> parsed_ip option" where
  "parse_ipv6 address =
     (if CHR ''%'' \<in> set address \<or> is_ip address \<noteq> 6 then None
      else case expand_dotted (js_lower address) of
             None \<Rightarrow> None
           | Some expanded \<Rightarrow>
               (case v6_groups expanded of
                  None \<Rightarrow> None
                | Some groups \<Rightarrow>
                    if length groups \<noteq> 8 then None
                    else Some \<lparr>pi_address = format_ipv6 groups, pi_family = IPv6,
                           pi_value = foldl (\<lambda>current g. current * 2 ^ 16 + g) 0 groups\<rparr>))"

definition parse_ip :: "string \<Rightarrow> parsed_ip option" where
  "parse_ip address =
     (if length address = 0 \<or> length address > 64 then None
      else case parse_ipv4 address of Some p \<Rightarrow> Some p | None \<Rightarrow> parse_ipv6 address)"

definition prefix_pattern :: "string \<Rightarrow> bool" where
  "prefix_pattern s \<longleftrightarrow>
     s = ''0'' \<or> (1 \<le> length s \<and> length s \<le> 3 \<and> list_all is_digit s \<and> hd s \<noteq> CHR ''0'')"

text \<open>Clearing the host bits: \<^verbatim>\<open>(value >> hostBits) << hostBits\<close>.\<close>

definition clear_host_bits :: "nat \<Rightarrow> int \<Rightarrow> int" where
  "clear_host_bits k v = v div 2 ^ k * 2 ^ k"

definition parse_cidr :: "string \<Rightarrow> cidr_range option" where
  "parse_cidr v =
     (case split_on (CHR ''/'') v of
        [address_text, prefix_text] \<Rightarrow>
          (case parse_ip address_text of
             None \<Rightarrow> None
           | Some address \<Rightarrow>
               if \<not> prefix_pattern prefix_text then None
               else let prefix = nat (digits_value 10 prefix_text); bits = ip_bits (pi_family address)
                    in if prefix > bits then None
                       else Some \<lparr>cr_family = pi_family address,
                              cr_network = (if bits - prefix = bits then 0
                                else clear_host_bits (bits - prefix) (pi_value address)),
                              cr_prefix = prefix\<rparr>)
      | _ \<Rightarrow> None)"

subsection \<open>The policy\<close>

datatype forbidden_reason =
    THIS_NETWORK | PRIVATE_RANGE | SHARED | LOOPBACK | LINK_LOCAL | METADATA | SPECIAL_PURPOSE
  | DOCUMENTATION | BENCHMARK | MULTICAST | RESERVED | IPV4_MAPPED | TRANSLATION | UNIQUE_LOCAL
  | NON_GLOBAL_UNICAST | CONFIGURED_INTERNAL

definition MAX_RESOLVED_ADDRESSES :: nat where "MAX_RESOLVED_ADDRESSES = 64"
definition MAX_CONFIGURED_INTERNAL_RANGES :: nat where "MAX_CONFIGURED_INTERNAL_RANGES = 128"

definition BUILT_IN_CIDRS :: "(string \<times> forbidden_reason) list" where
  "BUILT_IN_CIDRS = [
     (''0.0.0.0/8'', THIS_NETWORK), (''10.0.0.0/8'', PRIVATE_RANGE), (''100.64.0.0/10'', SHARED),
     (''127.0.0.0/8'', LOOPBACK), (''168.63.129.16/32'', METADATA),
     (''169.254.0.0/16'', LINK_LOCAL), (''172.16.0.0/12'', PRIVATE_RANGE),
     (''192.0.0.0/24'', SPECIAL_PURPOSE), (''192.0.2.0/24'', DOCUMENTATION),
     (''192.31.196.0/24'', SPECIAL_PURPOSE), (''192.52.193.0/24'', SPECIAL_PURPOSE),
     (''192.88.99.0/24'', SPECIAL_PURPOSE), (''192.168.0.0/16'', PRIVATE_RANGE),
     (''192.175.48.0/24'', SPECIAL_PURPOSE), (''198.18.0.0/15'', BENCHMARK),
     (''198.51.100.0/24'', DOCUMENTATION), (''203.0.113.0/24'', DOCUMENTATION),
     (''224.0.0.0/4'', MULTICAST), (''240.0.0.0/4'', RESERVED), (''::/128'', THIS_NETWORK),
     (''::1/128'', LOOPBACK), (''::ffff:0:0/96'', IPV4_MAPPED), (''64:ff9b::/96'', TRANSLATION),
     (''64:ff9b:1::/48'', TRANSLATION), (''100::/64'', SPECIAL_PURPOSE),
     (''100:0:0:1::/64'', SPECIAL_PURPOSE), (''2001::/23'', SPECIAL_PURPOSE),
     (''2001:db8::/32'', DOCUMENTATION), (''2002::/16'', SPECIAL_PURPOSE),
     (''2620:4f:8000::/48'', SPECIAL_PURPOSE), (''3ffe::/16'', RESERVED),
     (''3fff::/20'', DOCUMENTATION), (''5f00::/16'', SPECIAL_PURPOSE),
     (''fc00::/7'', UNIQUE_LOCAL), (''fe80::/10'', LINK_LOCAL), (''ff00::/8'', MULTICAST)]"

definition range_contains :: "cidr_range \<Rightarrow> parsed_ip \<Rightarrow> bool" where
  "range_contains r a \<longleftrightarrow>
     cr_family r = pi_family a \<and>
     clear_host_bits (ip_bits (pi_family a) - cr_prefix r) (pi_value a) = cr_network r"

text \<open>A built-in text that does not parse makes the code throw at load time (\<open>None\<close>).\<close>

definition BUILT_IN_RANGES :: "(cidr_range \<times> forbidden_reason) list option" where
  "BUILT_IN_RANGES =
     all_some (\<lambda>(cidr, reason). map_option (\<lambda>r. (r, reason)) (parse_cidr cidr)) BUILT_IN_CIDRS"

definition built_in_ranges :: "(cidr_range \<times> forbidden_reason) list" where
  "built_in_ranges = (case BUILT_IN_RANGES of None \<Rightarrow> [] | Some rs \<Rightarrow> rs)"

definition block_reason :: "parsed_ip \<Rightarrow> cidr_range list \<Rightarrow> forbidden_reason option" where
  "block_reason a configured =
     (case find (\<lambda>(r, _). range_contains r a) built_in_ranges of
        Some (_, reason) \<Rightarrow> Some reason
      | None \<Rightarrow>
          if list_ex (\<lambda>r. range_contains r a) configured then Some CONFIGURED_INTERNAL
          else if pi_family a = IPv6 then
            (case parse_cidr ''2000::/3'' of
               None \<Rightarrow> Some NON_GLOBAL_UNICAST
             | Some g \<Rightarrow> if range_contains g a then None else Some NON_GLOBAL_UNICAST)
          else None)"

fun snapshot_cidrs_loop :: "string list \<Rightarrow> jsval list \<Rightarrow> string list option" where
  "snapshot_cidrs_loop vs [] = Some vs"
| "snapshot_cidrs_loop vs (v # rest) =
     (case v of
        JStr s \<Rightarrow>
          if length s > 80 \<or> parse_cidr s = None \<or> s \<in> set vs then None
          else snapshot_cidrs_loop (vs @ [s]) rest
      | _ \<Rightarrow> None)"

definition snapshot_configured_internal_cidrs :: "jsval \<Rightarrow> string list option" where
  "snapshot_configured_internal_cidrs v =
     (case as_arr v of
        None \<Rightarrow> None
      | Some xs \<Rightarrow>
          if length xs > MAX_CONFIGURED_INTERNAL_RANGES then None else snapshot_cidrs_loop [] xs)"

datatype classify_fail =
    INVALID_RESOLUTION | EMPTY_RESOLUTION | TOO_MANY_ADDRESSES | INVALID_ADDRESS
  | INVALID_INTERNAL_RANGE | FORBIDDEN_ADDRESS "(string \<times> ip_family \<times> forbidden_reason) list"

definition parse_address_value :: "jsval \<Rightarrow> parsed_ip option" where
  "parse_address_value v = (case v of JStr s \<Rightarrow> parse_ip s | _ \<Rightarrow> None)"

text \<open>
  The \<^verbatim>\<open>Map\<close> keyed by family and value: a later entry replaces an earlier
  one in place.
\<close>

fun dedupe_set :: "parsed_ip list \<Rightarrow> parsed_ip \<Rightarrow> parsed_ip list" where
  "dedupe_set [] a = [a]"
| "dedupe_set (b # bs) a =
     (if pi_family b = pi_family a \<and> pi_value b = pi_value a then a # bs else b # dedupe_set bs a)"

definition dedupe :: "parsed_ip list \<Rightarrow> parsed_ip list" where
  "dedupe = foldl dedupe_set []"

definition classify_resolved_address_set ::
  "jsval \<Rightarrow> jsval \<Rightarrow> classify_fail + (string \<times> ip_family) list" where
  "classify_resolved_address_set input configured_internal =
     (case as_arr input of
        None \<Rightarrow> Inl INVALID_RESOLUTION
      | Some xs \<Rightarrow>
          if length xs = 0 then Inl EMPTY_RESOLUTION
          else if length xs > MAX_RESOLVED_ADDRESSES then Inl TOO_MANY_ADDRESSES
          else case snapshot_configured_internal_cidrs configured_internal of
            None \<Rightarrow> Inl INVALID_INTERNAL_RANGE
          | Some cidrs \<Rightarrow>
              (case all_some parse_cidr cidrs of
                 None \<Rightarrow> Inl INVALID_INTERNAL_RANGE
               | Some ranges \<Rightarrow>
                   (case all_some parse_address_value xs of
                      None \<Rightarrow> Inl INVALID_ADDRESS
                    | Some parsed \<Rightarrow>
                        let unique = dedupe parsed;
                            blocked = List.map_filter
                              (\<lambda>a. map_option (\<lambda>r. (pi_address a, pi_family a, r))
                                (block_reason a ranges)) unique
                        in if blocked \<noteq> [] then Inl (FORBIDDEN_ADDRESS blocked)
                           else Inr (map (\<lambda>a. (pi_address a, pi_family a)) unique))))"

subsection \<open>The built-in ranges as numbers\<close>

definition BUILT_IN_TABLE :: "(cidr_range \<times> forbidden_reason) list" where
  "BUILT_IN_TABLE = [
     (\<lparr>cr_family = IPv4, cr_network = 0, cr_prefix = 8\<rparr>, THIS_NETWORK),
     (\<lparr>cr_family = IPv4, cr_network = 167772160, cr_prefix = 8\<rparr>, PRIVATE_RANGE),
     (\<lparr>cr_family = IPv4, cr_network = 1681915904, cr_prefix = 10\<rparr>, SHARED),
     (\<lparr>cr_family = IPv4, cr_network = 2130706432, cr_prefix = 8\<rparr>, LOOPBACK),
     (\<lparr>cr_family = IPv4, cr_network = 2822734096, cr_prefix = 32\<rparr>, METADATA),
     (\<lparr>cr_family = IPv4, cr_network = 2851995648, cr_prefix = 16\<rparr>, LINK_LOCAL),
     (\<lparr>cr_family = IPv4, cr_network = 2886729728, cr_prefix = 12\<rparr>, PRIVATE_RANGE),
     (\<lparr>cr_family = IPv4, cr_network = 3221225472, cr_prefix = 24\<rparr>, SPECIAL_PURPOSE),
     (\<lparr>cr_family = IPv4, cr_network = 3221225984, cr_prefix = 24\<rparr>, DOCUMENTATION),
     (\<lparr>cr_family = IPv4, cr_network = 3223307264, cr_prefix = 24\<rparr>, SPECIAL_PURPOSE),
     (\<lparr>cr_family = IPv4, cr_network = 3224682752, cr_prefix = 24\<rparr>, SPECIAL_PURPOSE),
     (\<lparr>cr_family = IPv4, cr_network = 3227017984, cr_prefix = 24\<rparr>, SPECIAL_PURPOSE),
     (\<lparr>cr_family = IPv4, cr_network = 3232235520, cr_prefix = 16\<rparr>, PRIVATE_RANGE),
     (\<lparr>cr_family = IPv4, cr_network = 3232706560, cr_prefix = 24\<rparr>, SPECIAL_PURPOSE),
     (\<lparr>cr_family = IPv4, cr_network = 3323068416, cr_prefix = 15\<rparr>, BENCHMARK),
     (\<lparr>cr_family = IPv4, cr_network = 3325256704, cr_prefix = 24\<rparr>, DOCUMENTATION),
     (\<lparr>cr_family = IPv4, cr_network = 3405803776, cr_prefix = 24\<rparr>, DOCUMENTATION),
     (\<lparr>cr_family = IPv4, cr_network = 3758096384, cr_prefix = 4\<rparr>, MULTICAST),
     (\<lparr>cr_family = IPv4, cr_network = 4026531840, cr_prefix = 4\<rparr>, RESERVED),
     (\<lparr>cr_family = IPv6, cr_network = 0, cr_prefix = 128\<rparr>, THIS_NETWORK),
     (\<lparr>cr_family = IPv6, cr_network = 1, cr_prefix = 128\<rparr>, LOOPBACK),
     (\<lparr>cr_family = IPv6, cr_network = 281470681743360, cr_prefix = 96\<rparr>, IPV4_MAPPED),
     (\<lparr>cr_family = IPv6, cr_network = 524413980667603649783483181312245760, cr_prefix = 96\<rparr>, TRANSLATION),
     (\<lparr>cr_family = IPv6, cr_network = 524413980668812575603097810486951936, cr_prefix = 48\<rparr>, TRANSLATION),
     (\<lparr>cr_family = IPv6, cr_network = 1329227995784915872903807060280344576, cr_prefix = 64\<rparr>, SPECIAL_PURPOSE),
     (\<lparr>cr_family = IPv6, cr_network = 1329227995784915891350551133989896192, cr_prefix = 64\<rparr>, SPECIAL_PURPOSE),
     (\<lparr>cr_family = IPv6, cr_network = 42540488161975842760550356425300246528, cr_prefix = 23\<rparr>, SPECIAL_PURPOSE),
     (\<lparr>cr_family = IPv6, cr_network = 42540766411282592856903984951653826560, cr_prefix = 32\<rparr>, DOCUMENTATION),
     (\<lparr>cr_family = IPv6, cr_network = 42545680458834377588178886921629466624, cr_prefix = 16\<rparr>, SPECIAL_PURPOSE),
     (\<lparr>cr_family = IPv6, cr_network = 50676823637938837538472482859932188672, cr_prefix = 48\<rparr>, SPECIAL_PURPOSE),
     (\<lparr>cr_family = IPv6, cr_network = 85060207136517546210586590865283612672, cr_prefix = 16\<rparr>, RESERVED),
     (\<lparr>cr_family = IPv6, cr_network = 85065399433376081038215121361612832768, cr_prefix = 20\<rparr>, DOCUMENTATION),
     (\<lparr>cr_family = IPv6, cr_network = 126276659599567007925861670726632734720, cr_prefix = 16\<rparr>, SPECIAL_PURPOSE),
     (\<lparr>cr_family = IPv6, cr_network = 334965454937798799971759379190646833152, cr_prefix = 7\<rparr>, UNIQUE_LOCAL),
     (\<lparr>cr_family = IPv6, cr_network = 338288524927261089654018896841347694592, cr_prefix = 10\<rparr>, LINK_LOCAL),
     (\<lparr>cr_family = IPv6, cr_network = 338953138925153547590470800371487866880, cr_prefix = 8\<rparr>, MULTICAST)]"

lemma all_some_append:
  "all_some f xs = Some as \<Longrightarrow> all_some f ys = Some bs \<Longrightarrow> all_some f (xs @ ys) = Some (as @ bs)"
  by (induction xs arbitrary: as) (auto split: option.splits)

lemma built_in_v4:
  "all_some (\<lambda>(cidr, reason). map_option (\<lambda>r. (r, reason)) (parse_cidr cidr))
     (take 19 BUILT_IN_CIDRS) = Some (take 19 BUILT_IN_TABLE)"
  by code_simp

lemma built_in_v6_first:
  "all_some (\<lambda>(cidr, reason). map_option (\<lambda>r. (r, reason)) (parse_cidr cidr))
     (take 9 (drop 19 BUILT_IN_CIDRS)) = Some (take 9 (drop 19 BUILT_IN_TABLE))"
  by code_simp

lemma built_in_v6_rest:
  "all_some (\<lambda>(cidr, reason). map_option (\<lambda>r. (r, reason)) (parse_cidr cidr))
     (drop 28 BUILT_IN_CIDRS) = Some (drop 28 BUILT_IN_TABLE)"
  by code_simp

lemma three_parts: "xs = take 19 xs @ take 9 (drop 19 xs) @ drop 28 xs"
proof -
  have "drop 28 xs = drop 9 (drop 19 xs)" by simp
  then show ?thesis by (simp only: append_take_drop_id)
qed

lemma BUILT_IN_RANGES_table: "BUILT_IN_RANGES = Some BUILT_IN_TABLE"
proof -
  let ?f = "\<lambda>(cidr, reason). map_option (\<lambda>r. (r, reason)) (parse_cidr cidr)"
  have "all_some ?f (take 19 BUILT_IN_CIDRS @ take 9 (drop 19 BUILT_IN_CIDRS) @
      drop 28 BUILT_IN_CIDRS) =
    Some (take 19 BUILT_IN_TABLE @ take 9 (drop 19 BUILT_IN_TABLE) @ drop 28 BUILT_IN_TABLE)"
    by (intro all_some_append built_in_v4 built_in_v6_first built_in_v6_rest)
  then show ?thesis unfolding BUILT_IN_RANGES_def by (simp only: three_parts [symmetric])
qed

lemma built_in_ranges_table: "built_in_ranges = BUILT_IN_TABLE"
  by (simp only: built_in_ranges_def BUILT_IN_RANGES_table option.case)

lemma global_unicast:
  "parse_cidr ''2000::/3'' = Some \<lparr>cr_family = IPv6, cr_network = 2 ^ 125, cr_prefix = 3\<rparr>"
  by code_simp

text \<open>A range as an interval of addresses.\<close>

definition range_interval :: "cidr_range \<Rightarrow> int set" where
  "range_interval r = {cr_network r ..< cr_network r + 2 ^ (ip_bits (cr_family r) - cr_prefix r)}"

lemma clear_host_bits_interval:
  assumes "network mod 2 ^ k = 0"
  shows "clear_host_bits k v = network \<longleftrightarrow> v \<in> {network ..< network + 2 ^ k}"
proof -
  have split: "v = clear_host_bits k v + v mod 2 ^ k" "0 \<le> v mod 2 ^ k" "v mod 2 ^ k < 2 ^ k"
    unfolding clear_host_bits_def by (simp_all only: div_mult_mod_eq) simp_all
  show ?thesis
  proof
    assume "v \<in> {network ..< network + 2 ^ k}"
    then have "0 \<le> v - network" "v - network < 2 ^ k" by auto
    then have "(v - network) div 2 ^ k = 0" by simp
    moreover have "network = (network div 2 ^ k) * 2 ^ k" using assms by auto
    then have "v div 2 ^ k = network div 2 ^ k"
      using \<open>(v - network) div 2 ^ k = 0\<close>
      by (metis add.commute add_0 diff_add_cancel div_mult_self3 power_not_zero zero_neq_numeral)
    then show "clear_host_bits k v = network"
      using \<open>network = (network div 2 ^ k) * 2 ^ k\<close> by (simp add: clear_host_bits_def)
  next
    assume "clear_host_bits k v = network"
    then have "v = network + v mod 2 ^ k" using split(1) by metis
    then show "v \<in> {network ..< network + 2 ^ k}"
      using split(2,3) unfolding atLeastLessThan_iff by linarith
  qed
qed

definition aligned :: "cidr_range \<Rightarrow> bool" where
  "aligned r \<longleftrightarrow> cr_network r mod 2 ^ (ip_bits (cr_family r) - cr_prefix r) = 0"

lemma range_contains_interval:
  "aligned r \<Longrightarrow> range_contains r a \<longleftrightarrow> cr_family r = pi_family a \<and> pi_value a \<in> range_interval r"
  using clear_host_bits_interval [of "cr_network r"]
  by (auto simp: range_contains_def aligned_def range_interval_def)

lemma parse_cidr_aligned: "parse_cidr c = Some r \<Longrightarrow> aligned r"
  by (auto simp: parse_cidr_def aligned_def clear_host_bits_def Let_def
      split: list.splits option.splits if_splits)

lemma table_aligned: "(r, reason) \<in> set BUILT_IN_TABLE \<Longrightarrow> aligned r"
proof -
  assume "(r, reason) \<in> set BUILT_IN_TABLE"
  moreover have "all_some (\<lambda>(cidr, reason). map_option (\<lambda>r. (r, reason)) (parse_cidr cidr))
      BUILT_IN_CIDRS = Some BUILT_IN_TABLE"
    using BUILT_IN_RANGES_table by (simp only: BUILT_IN_RANGES_def)
  ultimately obtain c where "parse_cidr c = Some r"
    by (force dest: all_some_set)
  then show ?thesis by (rule parse_cidr_aligned)
qed

subsection \<open>What the policy accepts\<close>

definition public_address :: "cidr_range list \<Rightarrow> parsed_ip \<Rightarrow> bool" where
  "public_address configured a \<longleftrightarrow>
     (\<forall>(r, reason) \<in> set BUILT_IN_TABLE.
        cr_family r = pi_family a \<longrightarrow> pi_value a \<notin> range_interval r) \<and>
     (\<forall>r \<in> set configured. cr_family r = pi_family a \<longrightarrow> pi_value a \<notin> range_interval r) \<and>
     (pi_family a = IPv6 \<longrightarrow> 2 ^ 125 \<le> pi_value a \<and> pi_value a < 2 ^ 126)"

lemma find_None: "find P xs = None \<longleftrightarrow> (\<forall>x \<in> set xs. \<not> P x)"
  by (induction xs) auto

lemma table_contains:
  "find (\<lambda>(r, _). range_contains r a) BUILT_IN_TABLE = None \<longleftrightarrow>
     (\<forall>(r, reason) \<in> set BUILT_IN_TABLE. cr_family r = pi_family a \<longrightarrow> pi_value a \<notin> range_interval r)"
  unfolding find_None using table_aligned range_contains_interval by (fastforce simp: split_beta)

lemma block_reason_None:
  assumes "\<forall>r \<in> set configured. aligned r"
  shows "block_reason a configured = None \<longleftrightarrow> public_address configured a"
proof -
  let ?g = "\<lparr>cr_family = IPv6, cr_network = 2 ^ 125, cr_prefix = 3\<rparr>"
  have conf: "list_ex (\<lambda>r. range_contains r a) configured \<longleftrightarrow>
      \<not> (\<forall>r \<in> set configured. cr_family r = pi_family a \<longrightarrow> pi_value a \<notin> range_interval r)"
    using assms range_contains_interval by (auto simp: list_ex_iff)
  have "aligned ?g" using global_unicast parse_cidr_aligned by blast
  then have glob: "pi_family a = IPv6 \<Longrightarrow>
      range_contains ?g a \<longleftrightarrow> 2 ^ 125 \<le> pi_value a \<and> pi_value a < 2 ^ 126"
    by (simp add: range_contains_interval range_interval_def ip_bits_def)
  show ?thesis
    using glob conf
    unfolding block_reason_def built_in_ranges_table global_unicast public_address_def
      table_contains [symmetric]
    by (auto split: option.splits)
qed

lemma dedupe_set_keys:
  "(\<lambda>a. (pi_family a, pi_value a)) ` set (dedupe_set bs a) =
   insert (pi_family a, pi_value a) ((\<lambda>a. (pi_family a, pi_value a)) ` set bs)"
  by (induction bs) auto

lemma dedupe_set_subset: "set (dedupe_set bs a) \<subseteq> insert a (set bs)"
  by (induction bs) auto

lemma dedupe_keys:
  "(\<lambda>a. (pi_family a, pi_value a)) ` set (dedupe as) = (\<lambda>a. (pi_family a, pi_value a)) ` set as"
proof -
  have "(\<lambda>a. (pi_family a, pi_value a)) ` set (foldl dedupe_set bs as) =
    (\<lambda>a. (pi_family a, pi_value a)) ` (set bs \<union> set as)" for bs
    by (induction as arbitrary: bs) (auto simp: dedupe_set_keys image_Un)
  from this [of "[]"] show ?thesis by (simp add: dedupe_def)
qed

lemma dedupe_subset: "set (dedupe as) \<subseteq> set as"
proof -
  have "set (foldl dedupe_set bs as) \<subseteq> set bs \<union> set as" for bs
    by (induction as arbitrary: bs) (use dedupe_set_subset in \<open>fastforce+\<close>)
  from this [of "[]"] show ?thesis by (simp add: dedupe_def)
qed

lemma public_address_key:
  "pi_family a = pi_family b \<Longrightarrow> pi_value a = pi_value b \<Longrightarrow>
   public_address configured a = public_address configured b"
  by (simp add: public_address_def)

lemma map_filter_empty: "List.map_filter f xs = [] \<longleftrightarrow> (\<forall>x \<in> set xs. f x = None)"
  by (induction xs) (auto simp: List.map_filter_simps split: option.splits)

lemma snapshot_cidrs_parse:
  "snapshot_cidrs_loop vs xs = Some out \<Longrightarrow> \<forall>c \<in> set vs. parse_cidr c \<noteq> None \<Longrightarrow>
   \<forall>c \<in> set out. parse_cidr c \<noteq> None"
  by (induction vs xs rule: snapshot_cidrs_loop.induct)
    (auto split: jsval.splits if_splits)

lemma classify_Inr:
  "classify_resolved_address_set input configured = Inr out \<longleftrightarrow>
     (\<exists>xs cidrs ranges parsed. input = JArr xs \<and> xs \<noteq> [] \<and> length xs \<le> MAX_RESOLVED_ADDRESSES \<and>
        snapshot_configured_internal_cidrs configured = Some cidrs \<and>
        all_some parse_cidr cidrs = Some ranges \<and>
        all_some parse_address_value xs = Some parsed \<and>
        (\<forall>a \<in> set (dedupe parsed). block_reason a ranges = None) \<and>
        out = map (\<lambda>a. (pi_address a, pi_family a)) (dedupe parsed))"
  by (auto simp: classify_resolved_address_set_def as_arr_Some Let_def map_filter_empty
      split: option.splits if_splits)

lemma ranges_aligned:
  "all_some parse_cidr cidrs = Some ranges \<Longrightarrow> \<forall>r \<in> set ranges. aligned r"
proof
  fix r
  assume "all_some parse_cidr cidrs = Some ranges" "r \<in> set ranges"
  then obtain c where "parse_cidr c = Some r" by (blast dest: all_some_set)
  then show "aligned r" by (rule parse_cidr_aligned)
qed

end
