(* ===== verification/Hostname.thy ===== *)
theory Hostname
  imports Ip_Policy
begin

section \<open>Canonical host names\<close>

text \<open>
  Models \<^verbatim>\<open>apps/api/src/target/hostname.ts\<close>.  \<^verbatim>\<open>domainToASCII\<close> of
  \<^verbatim>\<open>node:url\<close> (the IDNA mapping tables) is the parameter \<open>to_ascii\<close>; it
  answers the empty string for a name it cannot convert.  The result is proved
  from the checks the code makes after the conversion, so no claim assumes
  anything about it unless it says so.
\<close>

definition MAX_RAW_TARGET_LENGTH :: nat where "MAX_RAW_TARGET_LENGTH = 1024"
definition MAX_HOSTNAME_LENGTH :: nat where "MAX_HOSTNAME_LENGTH = 253"
definition MAX_LABEL_LENGTH :: nat where "MAX_LABEL_LENGTH = 63"

datatype hostname_rejection =
    INVALID_TYPE | EMPTY_TARGET | TARGET_TOO_LONG | URL_NOT_ALLOWED | USERINFO_NOT_ALLOWED
  | PATH_NOT_ALLOWED | PORT_NOT_ALLOWED | IP_LITERAL_NOT_ALLOWED | INVALID_IDNA
  | INVALID_HOSTNAME

text \<open>\<^verbatim>\<open>/^[a-z0-9](?:[a-z0-9-]*[a-z0-9])?$/u\<close>\<close>

definition host_label :: "string \<Rightarrow> bool" where
  "host_label s \<longleftrightarrow>
     s \<noteq> [] \<and> list_all (\<lambda>c. is_lower c \<or> is_digit c \<or> c = CHR ''-'') s \<and>
     hd s \<noteq> CHR ''-'' \<and> last s \<noteq> CHR ''-''"

text \<open>\<^verbatim>\<open>0x[0-9a-f]+|[0-9]+\<close> without regard to case\<close>

definition ip_literal_part :: "string \<Rightarrow> bool" where
  "ip_literal_part s \<longleftrightarrow>
     (s \<noteq> [] \<and> list_all is_digit s) \<or>
     (2 < length s \<and> js_lower (take 2 s) = ''0x'' \<and> list_all is_hex_digit (drop 2 s))"

definition ip_literalish :: "string \<Rightarrow> bool" where
  "ip_literalish s \<longleftrightarrow>
     (let parts = split_on (CHR ''.'') s in length parts \<le> 4 \<and> list_all ip_literal_part parts)"

definition ends_with_dot :: "string \<Rightarrow> bool" where
  "ends_with_dot s \<longleftrightarrow> s \<noteq> [] \<and> last s = CHR ''.''"

definition without_trailing_dot :: "string \<Rightarrow> string" where
  "without_trailing_dot s = (if ends_with_dot s then butlast s else s)"

definition is_ip_literal :: "string \<Rightarrow> bool" where
  "is_ip_literal s \<longleftrightarrow>
     (if is_ip (without_trailing_dot s) \<noteq> 0 then True
      else if s \<noteq> [] \<and> hd s = CHR ''['' \<and> last s = CHR '']''
      then is_ip (butlast (tl s)) \<noteq> 0
      else ip_literalish (without_trailing_dot s))"

definition has_valid_dns_shape :: "string \<Rightarrow> bool" where
  "has_valid_dns_shape h \<longleftrightarrow>
     length h \<noteq> 0 \<and> \<not> length h > MAX_HOSTNAME_LENGTH \<and>
     list_all (\<lambda>label. length label > 0 \<and> length label \<le> MAX_LABEL_LENGTH \<and> host_label label)
       (split_on (CHR ''.'') h)"

text \<open>\<^verbatim>\<open>/^[a-z][a-z0-9+.-]*:\/\//iu\<close>\<close>

definition url_like :: "string \<Rightarrow> bool" where
  "url_like s \<longleftrightarrow>
     (let scheme = takeWhile (\<lambda>c. is_alnum c \<or> c \<in> set ''+.-'') s
      in scheme \<noteq> [] \<and> (is_lower (hd scheme) \<or> is_upper (hd scheme)) \<and>
         starts_with ''://'' (drop (length scheme) s))"

definition canonicalize_hostname ::
  "(string \<Rightarrow> string) \<Rightarrow> jsval \<Rightarrow> hostname_rejection + string" where
  "canonicalize_hostname to_ascii input =
     (case as_str input of
        None \<Rightarrow> Inl INVALID_TYPE
      | Some raw \<Rightarrow>
          if length raw > MAX_RAW_TARGET_LENGTH then Inl TARGET_TOO_LONG
          else let target = js_trim raw in
          if length target = 0 then Inl EMPTY_TARGET
          else if length target > MAX_RAW_TARGET_LENGTH then Inl TARGET_TOO_LONG
          else if url_like target then Inl URL_NOT_ALLOWED
          else if CHR ''@'' \<in> set target then Inl USERINFO_NOT_ALLOWED
          else if list_ex (\<lambda>c. c \<in> {CHR ''/'', CHR ''?'', CHR ''#'', CHR 0x5C}) target
          then Inl PATH_NOT_ALLOWED
          else if list_ex is_js_space target then Inl INVALID_HOSTNAME
          else if is_ip_literal target then Inl IP_LITERAL_NOT_ALLOWED
          else if CHR '':'' \<in> set target then Inl PORT_NOT_ALLOWED
          else let ascii_hostname = js_lower (to_ascii target) in
          if length ascii_hostname = 0 then Inl INVALID_IDNA
          else let canonical_host = without_trailing_dot ascii_hostname in
          if is_ip_literal canonical_host then Inl IP_LITERAL_NOT_ALLOWED
          else if \<not> has_valid_dns_shape canonical_host then Inl INVALID_HOSTNAME
          else Inr canonical_host)"

subsection \<open>Facts about accepted names\<close>

lemma canonicalize_Inr:
  "canonicalize_hostname to_ascii v = Inr h \<Longrightarrow> has_valid_dns_shape h \<and> \<not> is_ip_literal h"
  by (auto simp: canonicalize_hostname_def Let_def split: option.splits if_splits)

lemma dns_shape_chars:
  assumes "has_valid_dns_shape h"
  shows "list_all (\<lambda>c. is_lower c \<or> is_digit c \<or> c = CHR ''-'' \<or> c = CHR ''.'') h"
proof -
  let ?P = "\<lambda>c. is_lower c \<or> is_digit c \<or> c = CHR ''-'' \<or> c = CHR ''.''"
  have join: "list_all ?P (join_with ''.'' ps)" if "list_all (list_all ?P) ps" for ps
    using that by (induction "''.''" ps rule: join_with.induct) auto
  have "list_all (list_all ?P) (split_on (CHR ''.'') h)"
    using assms by (auto simp: has_valid_dns_shape_def host_label_def list_all_iff)
  from join [OF this] show ?thesis by simp
qed

lemma dns_char_lower:
  assumes "is_lower c \<or> is_digit c \<or> c = CHR ''-'' \<or> c = CHR ''.''"
  shows "js_lower_char c = c" "\<not> is_js_space c" "c \<notin> set ''@:/?#'' \<and> c \<noteq> CHR 0x5C"
  using assms
  by (auto simp: js_lower_char_def is_lower_def is_digit_def is_upper_def is_js_space_def code_of_def)

lemma dns_shape_lower: "has_valid_dns_shape h \<Longrightarrow> js_lower h = h"
  using dns_shape_chars [of h] dns_char_lower(1) unfolding js_lower_def list_all_iff
  by (intro map_idI) blast

lemma dns_shape_no_trailing_dot: "has_valid_dns_shape h \<Longrightarrow> \<not> ends_with_dot h"
proof
  assume shape: "has_valid_dns_shape h" and "ends_with_dot h"
  then have h: "h = butlast h @ [CHR ''.'']"
    by (metis append_butlast_last_id ends_with_dot_def)
  have "[] \<in> set (split_on c (xs @ [c]))" for c :: char and xs
    by (simp add: split_on_append [of c xs "[]"])
  then have "[] \<in> set (split_on (CHR ''.'') h)" using h by metis
  then show False using shape by (auto simp: has_valid_dns_shape_def list_all_iff)
qed

lemma dns_shape_accepted:
  assumes shape: "has_valid_dns_shape h" and ip: "\<not> is_ip_literal h" and fixed: "to_ascii h = h"
  shows "canonicalize_hostname to_ascii (JStr h) = Inr h"
proof -
  note chars = dns_shape_chars [OF shape, unfolded list_all_iff]
  have no_space: "\<not> list_ex is_js_space h" using chars dns_char_lower(2) by (auto simp: list_ex_iff)
  have no_special: "CHR ''@'' \<notin> set h" "CHR '':'' \<notin> set h"
    "\<not> list_ex (\<lambda>c. c \<in> {CHR ''/'', CHR ''?'', CHR ''#'', CHR 0x5C}) h"
    using chars dns_char_lower(3) by (auto simp: list_ex_iff)
  have len: "length h \<noteq> 0" "length h \<le> 253"
    using shape by (auto simp: has_valid_dns_shape_def MAX_HOSTNAME_LENGTH_def)
  have trim: "js_trim h = h"
  proof -
    have id: "dropWhile is_js_space s = s" if "\<not> list_ex is_js_space s" for s
      using that by (cases s) auto
    have "\<not> list_ex is_js_space (rev h)" using no_space by (simp add: list_ex_iff)
    then show ?thesis using id no_space by (simp add: js_trim_def)
  qed
  have "\<not> url_like h"
  proof
    assume "url_like h"
    then obtain n where "starts_with ''://'' (drop n h)" by (auto simp: url_like_def Let_def)
    then have "take 3 (drop n h) = ''://''" by (simp add: starts_with_def numeral_3_eq_3)
    then have "CHR '':'' \<in> set (take 3 (drop n h))" by simp
    then have "CHR '':'' \<in> set h" by (meson in_set_dropD in_set_takeD)
    then show False using no_special(2) by simp
  qed
  then show ?thesis
    using len no_space no_special trim ip fixed dns_shape_lower [OF shape]
      dns_shape_no_trailing_dot [OF shape] shape
    by (simp add: canonicalize_hostname_def Let_def MAX_RAW_TARGET_LENGTH_def
        without_trailing_dot_def)
qed

subsection \<open>Properties\<close>

text \<open>A canonical host is safe to use as a DNS name whatever the IDNA conversion
  answers: it has 1 to 253 characters, only lower-case letters, digits, hyphens
  and dots, every label has 1 to 63 characters and neither begins nor ends with a
  hyphen, it has no trailing dot, and it is no IP literal in any of the dotted,
  bracketed or numeric spellings.  It is canonical: if the conversion leaves it
  alone, canonicalizing it again returns it unchanged.\<close>

lemma canonical_host_wellformed:
  assumes "canonicalize_hostname to_ascii input = Inr h"
  shows "1 \<le> length h \<and> length h \<le> 253 \<and>
    list_all (\<lambda>c. is_lower c \<or> is_digit c \<or> c = CHR ''-'' \<or> c = CHR ''.'') h \<and>
    (\<forall>label \<in> set (split_on (CHR ''.'') h). 1 \<le> length label \<and> length label \<le> 63 \<and>
       hd label \<noteq> CHR ''-'' \<and> last label \<noteq> CHR ''-'') \<and>
    last h \<noteq> CHR ''.'' \<and> \<not> is_ip_literal h \<and> is_ip h = 0 \<and>
    (to_ascii h = h \<longrightarrow> canonicalize_hostname to_ascii (JStr h) = Inr h)"
proof -
  have shape: "has_valid_dns_shape h" and ip: "\<not> is_ip_literal h"
    using canonicalize_Inr [OF assms] by auto
  have len: "1 \<le> length h \<and> length h \<le> 253"
    using shape by (cases h) (auto simp: has_valid_dns_shape_def MAX_HOSTNAME_LENGTH_def)
  have labels: "\<forall>label \<in> set (split_on (CHR ''.'') h). 1 \<le> length label \<and> length label \<le> 63 \<and>
      hd label \<noteq> CHR ''-'' \<and> last label \<noteq> CHR ''-''"
    using shape by (auto simp: has_valid_dns_shape_def host_label_def MAX_LABEL_LENGTH_def list_all_iff
        Suc_le_eq)
  have dot: "last h \<noteq> CHR ''.''" "without_trailing_dot h = h"
    using dns_shape_no_trailing_dot [OF shape] len by (auto simp: ends_with_dot_def without_trailing_dot_def)
  have "is_ip h = 0" using ip dot(2) by (auto simp: is_ip_literal_def split: if_splits)
  with len labels dot ip dns_shape_chars [OF shape] dns_shape_accepted [OF shape ip] show ?thesis
    by blast
qed

end
