(* ===== verification/Digests.thy ===== *)
theory Digests
  imports Byte_Codec
begin

unbundle bit_operations_syntax

section \<open>SHA-256 and HMAC-SHA-256\<close>

text \<open>
  What the code uses of \<^verbatim>\<open>node:crypto\<close>: \<^verbatim>\<open>createHash("sha256")\<close> and
  \<^verbatim>\<open>createHmac("sha256", key)\<close>, as FIPS 180-4 and RFC 2104 define them.
  \<^verbatim>\<open>timingSafeEqual\<close> is equality of the bytes.  No property of the
  development assumes that the hash has no collisions; where a claim would need
  it, the claim names the two colliding messages.
\<close>

type_synonym word32 = "32 word"

type_synonym sha_state =
  "word32 \<times> word32 \<times> word32 \<times> word32 \<times> word32 \<times> word32 \<times> word32 \<times> word32"

definition SHA256_K :: "word32 list" where
  "SHA256_K = [
     1116352408, 1899447441, 3049323471, 3921009573, 961987163, 1508970993, 2453635748,
     2870763221, 3624381080, 310598401, 607225278, 1426881987, 1925078388, 2162078206,
     2614888103, 3248222580, 3835390401, 4022224774, 264347078, 604807628, 770255983,
     1249150122, 1555081692, 1996064986, 2554220882, 2821834349, 2952996808, 3210313671,
     3336571891, 3584528711, 113926993, 338241895, 666307205, 773529912, 1294757372,
     1396182291, 1695183700, 1986661051, 2177026350, 2456956037, 2730485921, 2820302411,
     3259730800, 3345764771, 3516065817, 3600352804, 4094571909, 275423344, 430227734,
     506948616, 659060556, 883997877, 958139571, 1322822218, 1537002063, 1747873779,
     1955562222, 2024104815, 2227730452, 2361852424, 2428436474, 2756734187, 3204031479,
     3329325298]"

definition SHA256_INIT :: sha_state where
  "SHA256_INIT = (
    1779033703, 3144134277, 1013904242, 2773480762,
    1359893119, 2600822924, 528734635, 1541459225)"

definition sha_ch :: "word32 \<Rightarrow> word32 \<Rightarrow> word32 \<Rightarrow> word32" where
  "sha_ch x y z = (x AND y) XOR (NOT x AND z)"

definition sha_maj :: "word32 \<Rightarrow> word32 \<Rightarrow> word32 \<Rightarrow> word32" where
  "sha_maj x y z = (x AND y) XOR (x AND z) XOR (y AND z)"

definition sha_big0 :: "word32 \<Rightarrow> word32" where
  "sha_big0 x = word_rotr 2 x XOR word_rotr 13 x XOR word_rotr 22 x"

definition sha_big1 :: "word32 \<Rightarrow> word32" where
  "sha_big1 x = word_rotr 6 x XOR word_rotr 11 x XOR word_rotr 25 x"

definition sha_small0 :: "word32 \<Rightarrow> word32" where
  "sha_small0 x = word_rotr 7 x XOR word_rotr 18 x XOR drop_bit 3 x"

definition sha_small1 :: "word32 \<Rightarrow> word32" where
  "sha_small1 x = word_rotr 17 x XOR word_rotr 19 x XOR drop_bit 10 x"

text \<open>Padding to whole blocks of 64 bytes with the bit length at the end.\<close>

definition sha_pad :: "bytes \<Rightarrow> bytes" where
  "sha_pad m =
     m @ [0x80] @ replicate ((119 - length m mod 64) mod 64) 0 @ be_bytes 8 (8 * int (length m))"

fun chunks_of :: "nat \<Rightarrow> nat \<Rightarrow> 'a list \<Rightarrow> 'a list list" where
  "chunks_of k 0 xs = []"
| "chunks_of k (Suc n) xs = take k xs # chunks_of k n (drop k xs)"

definition sha_words :: "bytes \<Rightarrow> word32 list" where
  "sha_words block = map (\<lambda>bs. word_of_int (be_value bs)) (chunks_of 4 16 block)"

text \<open>The message schedule, kept with the newest word first.\<close>

fun sha_extend :: "nat \<Rightarrow> word32 list \<Rightarrow> word32 list" where
  "sha_extend 0 ws = ws"
| "sha_extend (Suc n) ws =
     sha_extend n
       ((sha_small1 (ws ! 1) + ws ! 6 + sha_small0 (ws ! 14) + ws ! 15) # ws)"

definition sha_schedule :: "bytes \<Rightarrow> word32 list" where
  "sha_schedule block = rev (sha_extend 48 (rev (sha_words block)))"

fun sha_round :: "sha_state \<Rightarrow> word32 \<times> word32 \<Rightarrow> sha_state" where
  "sha_round (a, b, c, d, e, f, g, h) (k, w) =
     (let t1 = h + sha_big1 e + sha_ch e f g + k + w;
          t2 = sha_big0 a + sha_maj a b c
      in (t1 + t2, a, b, c, d + t1, e, f, g))"

fun sha_add :: "sha_state \<Rightarrow> sha_state \<Rightarrow> sha_state" where
  "sha_add (a, b, c, d, e, f, g, h) (a', b', c', d', e', f', g', h') =
     (a + a', b + b', c + c', d + d', e + e', f + f', g + g', h + h')"

definition sha_block :: "sha_state \<Rightarrow> bytes \<Rightarrow> sha_state" where
  "sha_block st block = sha_add st (foldl sha_round st (zip SHA256_K (sha_schedule block)))"

fun sha_output :: "sha_state \<Rightarrow> bytes" where
  "sha_output (a, b, c, d, e, f, g, h) =
     concat (map (\<lambda>w. be_bytes 4 (uint w)) [a, b, c, d, e, f, g, h])"

definition sha256 :: "bytes \<Rightarrow> bytes" where
  "sha256 m =
     (let padded = sha_pad m
      in sha_output (foldl sha_block SHA256_INIT (chunks_of 64 (length padded div 64) padded)))"

definition hmac_key :: "bytes \<Rightarrow> bytes" where
  "hmac_key key =
     (let k = (if length key > 64 then sha256 key else key)
      in k @ replicate (64 - length k) 0)"

definition hmac_sha256 :: "bytes \<Rightarrow> bytes \<Rightarrow> bytes" where
  "hmac_sha256 key m =
     (let k = hmac_key key
      in sha256 (map (\<lambda>b. b XOR 0x5c) k @ sha256 (map (\<lambda>b. b XOR 0x36) k @ m)))"

lemma sha_output_length [simp]: "length (sha_output st) = 32"
  by (cases st rule: sha_output.cases) simp

lemma sha256_length [simp]: "length (sha256 m) = 32"
  by (simp add: sha256_def Let_def)

lemma hmac_sha256_length [simp]: "length (hmac_sha256 key m) = 32"
  by (simp add: hmac_sha256_def Let_def)

lemma sha_pad_blocks: "length (sha_pad m) mod 64 = 0"
proof -
  have "(length m + 1 + (119 - length m mod 64) mod 64 + 8) mod 64 = 0"
  proof -
    obtain q r where m: "length m = 64 * q + r" "r < 64"
      by (metis div_mult_mod_eq mult.commute mod_less_divisor zero_less_numeral)
    have "(r + 1 + (119 - r) mod 64 + 8) mod 64 = 0"
    proof (cases "r \<le> 55")
      case True
      then have "(119 - r) mod 64 = 55 - r" by (simp add: mod_if)
      with True show ?thesis by simp
    next
      case False
      with m have "(119 - r) mod 64 = 119 - r" by simp
      with False m show ?thesis by simp
    qed
    then have "(64 * q + (r + 1 + (119 - r) mod 64 + 8)) mod 64 = 0"
      unfolding mod_mult_self4 .
    moreover have "length m mod 64 = r" using m by simp
    ultimately show ?thesis using m(1) by (simp only: add.assoc)
  qed
  then show ?thesis by (simp add: sha_pad_def ac_simps)
qed

text \<open>\<^verbatim>\<open>`sha256:${createHash("sha256").update(payload).digest("hex")}`\<close>\<close>

definition payload_digest :: "bytes \<Rightarrow> string" where
  "payload_digest payload = sha256_text (sha256 payload)"

lemma payload_digest_valid [simp]: "sha256_pattern (payload_digest p)"
  by (simp add: payload_digest_def sha256_text_valid)

lemma payload_digest_eq: "payload_digest p = payload_digest q \<longleftrightarrow> sha256 p = sha256 q"
  using digest_bytes_sha256_text by (metis payload_digest_def)

end
