(* ===== verification/Scanner_Output.thy ===== *)
theory Scanner_Output
  imports Json Hostname Digests "HOL-Library.Product_Lexorder"
begin

section \<open>The scanner's output: validation, projection and canonical form\<close>

text \<open>
  Models \<^verbatim>\<open>apps/api/src/scanner-output/guest-projection.ts\<close> and
  \<^verbatim>\<open>canonical-guest.ts\<close>.  The output of the scanner is untrusted bytes; they are
  decoded and parsed (theory \<open>Json\<close>), checked member by member, reduced to the
  projection that guests may see, and rewritten in a canonical form whose digest
  the signed envelope carries.

  All strings the code keeps are compared with ASCII constants or matched against
  ASCII patterns, so a string with a code unit above 255 fails these tests
  and reads as \<open>None\<close> here; a canonical host is ASCII as well
  (\<open>canonical_host_wellformed\<close>).  Evidence keeps all its units until it is redacted.
\<close>

definition MAX_GUEST_OUTPUT_BYTES :: int where "MAX_GUEST_OUTPUT_BYTES = 2 * 1024 * 1024"
definition MAX_OBSERVATIONS :: nat where "MAX_OBSERVATIONS = 64"
definition MAX_FINDINGS :: nat where "MAX_FINDINGS = 256"
definition MAX_COVERAGE :: nat where "MAX_COVERAGE = 16"
definition MAX_WARNINGS :: nat where "MAX_WARNINGS = 32"
definition MAX_EVIDENCE_BYTES :: nat where "MAX_EVIDENCE_BYTES = 4096"

definition GUEST_POSTURE_CHECKS :: "string list" where
  "GUEST_POSTURE_CHECKS =
     [''DNS_AAAA_PRESENT'', ''DNS_DNSSEC'', ''DNS_CAA'', ''MAIL_SPF'', ''MAIL_DMARC'', ''MAIL_MTA_STS'',
      ''MAIL_TLS_RPT'', ''TLS_CERTIFICATE'', ''HTTP_HSTS'', ''HTTP_CSP'', ''HTTP_X_CONTENT_TYPE_OPTIONS'',
      ''HTTP_FRAME_PROTECTION'', ''HTTP_REFERRER_POLICY'', ''HTTP_PERMISSIONS_POLICY'', ''HTTP_PROTOCOL'',
      ''INFRA_RPKI'', ''SECURITY_TXT'']"

definition GUEST_COVERAGE_GROUPS :: "string list" where
  "GUEST_COVERAGE_GROUPS =
     [''TARGET_RESOLUTION'', ''DNS_DOMAIN_POSTURE'', ''TLS_CERTIFICATE_POSTURE'',
      ''HTTP_SECURITY_POSTURE'', ''MAIL_SECURITY_POSTURE'', ''PUBLIC_INFRASTRUCTURE'',
      ''RDAP_ENRICHMENT'', ''CT_ENRICHMENT'']"

definition OUTCOMES :: "string list" where
  "OUTCOMES = [''PASS'', ''ATTENTION'', ''UNKNOWN'', ''NOT_APPLICABLE'']"

definition EXECUTION_STATUSES :: "string list" where
  "EXECUTION_STATUSES = [''SUCCESS'', ''FAILED'', ''TIMED_OUT'', ''CANCELLED'', ''SUPERSEDED'']"

definition COMPLETENESS :: "string list" where
  "COMPLETENESS = [''COMPLETE'', ''PARTIAL'', ''NOT_APPLICABLE'', ''UNKNOWN'']"

definition SEVERITIES :: "string list" where
  "SEVERITIES = [''INFO'', ''LOW'', ''MEDIUM'', ''HIGH'', ''CRITICAL'']"

record guest_observation =
  ob_check_id :: string
  ob_outcome :: string

record guest_coverage =
  cv_detector_group :: string
  cv_execution_status :: string
  cv_completeness :: string

text \<open>The fields \<^verbatim>\<open>schema_version\<close> and \<^verbatim>\<open>policy_version\<close> are constants.\<close>

record sanitized_projection =
  sp_canonical_host :: string
  sp_posture :: "guest_observation list"
  sp_potential_risk_count :: int
  sp_coverage :: "guest_coverage list"
  sp_warning_count :: int
  sp_duration_ms :: int
  sp_request_count :: int

datatype projection_fail = INVALID_OUTPUT_LIMIT | OUTPUT_TOO_LARGE | INVALID_SCANNER_OUTPUT

subsection \<open>Reading members\<close>

fun latin :: "json \<Rightarrow> string option" where
  "latin (JsStr u) = (if list_all (\<lambda>x. x < 256) u then Some (map char_of u) else None)"
| "latin _ = None"

fun member :: "json \<Rightarrow> string \<Rightarrow> json option" where
  "member (JsObj ms) k = map_of ms (units k)"
| "member _ k = None"

fun exact_json :: "json \<Rightarrow> string list \<Rightarrow> bool" where
  "exact_json (JsObj ms) keys =
     (length ms = length keys \<and> list_all (\<lambda>k. units k \<in> set (map fst ms)) keys)"
| "exact_json _ keys = False"

definition read_among :: "string list \<Rightarrow> json \<Rightarrow> string option" where
  "read_among allowed v =
     do { s \<leftarrow> latin v; require (s \<in> set allowed); Some s }"

fun bounded_integer :: "json \<Rightarrow> int \<Rightarrow> int \<Rightarrow> int option" where
  "bounded_integer (JsNum n) lo hi = (if safe_int n \<and> lo \<le> n \<and> n \<le> hi then Some n else None)"
| "bounded_integer _ lo hi = None"

fun elements :: "json \<Rightarrow> json list option" where
  "elements (JsArr vs) = Some vs"
| "elements _ = None"

text \<open>\<^verbatim>\<open>/^[A-Z][A-Z0-9_]{0,63}$/u\<close>\<close>

definition machine_code :: "string \<Rightarrow> bool" where
  "machine_code s \<longleftrightarrow>
     (case s of [] \<Rightarrow> False
      | c # cs \<Rightarrow> is_upper c \<and> length cs \<le> 63 \<and>
          list_all (\<lambda>d. is_upper d \<or> is_digit d \<or> d = CHR ''_'') cs)"

text \<open>
  \<^verbatim>\<open>localeCompare\<close> on the identifiers of the two tables, which consist of capital
  letters and underscores: in the root collation the underscore, a punctuation
  mark, comes before the letters.
\<close>

definition collation_key :: "string \<Rightarrow> nat list" where
  "collation_key s = map (\<lambda>c. if c = CHR ''_'' then 0 else of_char c) s"

subsection \<open>The four lists\<close>

definition read_observation :: "json \<Rightarrow> guest_observation option" where
  "read_observation e =
     do {
       require (exact_json e [''check_id'', ''outcome'']);
       check \<leftarrow> Option.bind (member e ''check_id'') (read_among GUEST_POSTURE_CHECKS);
       outcome \<leftarrow> Option.bind (member e ''outcome'') (read_among OUTCOMES);
       Some \<lparr>ob_check_id = check, ob_outcome = outcome\<rparr>
     }"

definition read_observations :: "json \<Rightarrow> guest_observation list option" where
  "read_observations v =
     do {
       entries \<leftarrow> elements v;
       require (length entries \<le> MAX_OBSERVATIONS);
       obs \<leftarrow> all_some read_observation entries;
       require (distinct (map ob_check_id obs));
       Some obs
     }"

definition parse_observations :: "json \<Rightarrow> guest_observation list option" where
  "parse_observations v =
     map_option (sort_key (\<lambda>b. collation_key (ob_check_id b))) (read_observations v)"

definition read_coverage :: "json \<Rightarrow> guest_coverage option" where
  "read_coverage e =
     do {
       require (exact_json e [''detector_group'', ''execution_status'', ''completeness'']);
       group \<leftarrow> Option.bind (member e ''detector_group'') (read_among GUEST_COVERAGE_GROUPS);
       status \<leftarrow> Option.bind (member e ''execution_status'') (read_among EXECUTION_STATUSES);
       completeness \<leftarrow> Option.bind (member e ''completeness'') (read_among COMPLETENESS);
       Some \<lparr>cv_detector_group = group, cv_execution_status = status, cv_completeness = completeness\<rparr>
     }"

definition read_coverages :: "json \<Rightarrow> guest_coverage list option" where
  "read_coverages v =
     do {
       entries \<leftarrow> elements v;
       require (length entries \<noteq> 0 \<and> length entries \<le> MAX_COVERAGE);
       cs \<leftarrow> all_some read_coverage entries;
       require (distinct (map cv_detector_group cs));
       Some cs
     }"

definition parse_coverage :: "json \<Rightarrow> guest_coverage list option" where
  "parse_coverage v =
     map_option (sort_key (\<lambda>c. collation_key (cv_detector_group c))) (read_coverages v)"

record guest_finding =
  fd_fingerprint :: string
  fd_severity :: string
  fd_confidence :: int

definition read_finding :: "json \<Rightarrow> guest_finding option" where
  "read_finding e =
     do {
       require (exact_json e [''fingerprint'', ''severity'', ''confidence'', ''evidence'']);
       fingerprint \<leftarrow> Option.bind (member e ''fingerprint'') latin;
       require (sha256_pattern fingerprint);
       severity \<leftarrow> Option.bind (member e ''severity'') (read_among SEVERITIES);
       confidence \<leftarrow> Option.bind (member e ''confidence'') (\<lambda>n. bounded_integer n 0 100);
       evidence \<leftarrow> member e ''evidence'';
       require (case evidence of JsStr u \<Rightarrow> utf8_length u \<le> MAX_EVIDENCE_BYTES | _ \<Rightarrow> False);
       Some \<lparr>fd_fingerprint = fingerprint, fd_severity = severity, fd_confidence = confidence\<rparr>
     }"

definition read_findings :: "json \<Rightarrow> guest_finding list option" where
  "read_findings v =
     do {
       entries \<leftarrow> elements v;
       require (length entries \<le> MAX_FINDINGS);
       all_some read_finding entries
     }"

definition finding_count :: "json \<Rightarrow> int option" where
  "finding_count v = map_option (\<lambda>fs. int (length (remdups (map fd_fingerprint fs)))) (read_findings v)"

definition read_warning :: "json \<Rightarrow> string option" where
  "read_warning e =
     do {
       require (exact_json e [''code'']);
       code \<leftarrow> Option.bind (member e ''code'') latin;
       require (machine_code code);
       Some code
     }"

definition read_warnings :: "json \<Rightarrow> string list option" where
  "read_warnings v =
     do {
       entries \<leftarrow> elements v;
       require (length entries \<le> MAX_WARNINGS);
       codes \<leftarrow> all_some read_warning entries;
       require (distinct codes);
       Some codes
     }"

definition warning_count :: "json \<Rightarrow> int option" where
  "warning_count v = map_option (\<lambda>codes. int (length codes)) (read_warnings v)"

subsection \<open>The projection\<close>

definition ENVELOPE_MEMBERS :: "string list" where
  "ENVELOPE_MEMBERS = [''observations'', ''candidate_findings'', ''coverage'', ''execution_metadata'',
     ''warnings'']"

definition METADATA_MEMBERS :: "string list" where
  "METADATA_MEMBERS = [''schema_version'', ''profile'', ''canonical_host'', ''policy_id'',
     ''policy_version'', ''duration_ms'', ''request_count'']"

definition read_metadata :: "(string \<Rightarrow> string) \<Rightarrow> json \<Rightarrow> (string \<times> int \<times> int) option" where
  "read_metadata to_ascii v =
     do {
       require (exact_json v METADATA_MEMBERS);
       host \<leftarrow> Option.bind (member v ''canonical_host'') latin;
       require (canonicalize_hostname to_ascii (JStr host) = Inr host);
       require (member v ''schema_version'' = Some (JsNum 1) \<and>
         member v ''profile'' = Some (JsStr (units ''GUEST_SAFE'')) \<and>
         member v ''policy_id'' = Some (JsStr (units ''outscan-v1'')) \<and>
         member v ''policy_version'' = Some (JsStr (units ''1.0.0'')));
       duration \<leftarrow> Option.bind (member v ''duration_ms'') (\<lambda>n. bounded_integer n 0 30000);
       requests \<leftarrow> Option.bind (member v ''request_count'') (\<lambda>n. bounded_integer n 0 40);
       Some (host, duration, requests)
     }"

definition project_envelope :: "(string \<Rightarrow> string) \<Rightarrow> json \<Rightarrow> sanitized_projection option" where
  "project_envelope to_ascii v =
     do {
       require (exact_json v ENVELOPE_MEMBERS);
       observations \<leftarrow> Option.bind (member v ''observations'') parse_observations;
       risks \<leftarrow> Option.bind (member v ''candidate_findings'') finding_count;
       coverage \<leftarrow> Option.bind (member v ''coverage'') parse_coverage;
       warnings \<leftarrow> Option.bind (member v ''warnings'') warning_count;
       (host, duration, requests) \<leftarrow> Option.bind (member v ''execution_metadata'') (read_metadata to_ascii);
       Some \<lparr>sp_canonical_host = host, sp_posture = observations, sp_potential_risk_count = risks,
         sp_coverage = coverage, sp_warning_count = warnings, sp_duration_ms = duration,
         sp_request_count = requests\<rparr>
     }"

definition parse_json_bytes :: "jsval \<Rightarrow> int \<Rightarrow> json option" where
  "parse_json_bytes raw maximum =
     do {
       b \<leftarrow> as_bytes raw;
       require (\<not> int (length b) > maximum);
       require (\<not> (length b \<ge> 3 \<and> take 3 b = [0xef, 0xbb, 0xbf]));
       text \<leftarrow> decode_text b;
       require (has_unique_json_keys text);
       parse_json text
     }"

definition project_guest_scanner_output ::
  "(string \<Rightarrow> string) \<Rightarrow> jsval \<Rightarrow> jsval \<Rightarrow> projection_fail + sanitized_projection" where
  "project_guest_scanner_output to_ascii raw maximum_bytes =
     (case as_bounded 1 MAX_GUEST_OUTPUT_BYTES maximum_bytes of
        None \<Rightarrow> Inl INVALID_OUTPUT_LIMIT
      | Some maximum \<Rightarrow>
          if (case as_bytes raw of Some b \<Rightarrow> int (length b) > maximum | None \<Rightarrow> False)
          then Inl OUTPUT_TOO_LARGE
          else (case Option.bind (parse_json_bytes raw maximum) (project_envelope to_ascii) of
                  None \<Rightarrow> Inl INVALID_SCANNER_OUTPUT
                | Some projection \<Rightarrow> Inr projection))"

subsection \<open>The canonical form\<close>

definition GUEST_EVIDENCE_REDACTION :: string where
  "GUEST_EVIDENCE_REDACTION = ''[REDACTED:UNTRUSTED_EVIDENCE]''"

text \<open>Members of a validated output; all of them are there.\<close>

definition member_of :: "json \<Rightarrow> string \<Rightarrow> json" where
  "member_of v k = (case member v k of Some x \<Rightarrow> x | None \<Rightarrow> JsNull)"

definition items :: "json \<Rightarrow> json list" where
  "items v = (case elements v of Some vs \<Rightarrow> vs | None \<Rightarrow> [])"

fun text_units :: "json \<Rightarrow> units" where
  "text_units (JsStr u) = u"
| "text_units _ = []"

fun num_value :: "json \<Rightarrow> int" where
  "num_value (JsNum n) = n"
| "num_value _ = 0"

text \<open>\<^verbatim>\<open>compareText\<close> is the order of code units.\<close>

definition canonical_observations :: "json list \<Rightarrow> json list" where
  "canonical_observations es =
     sort_key (\<lambda>e. text_units (member_of e ''check_id''))
       (map (\<lambda>e. JsObj [(units ''check_id'', member_of e ''check_id''), (units ''outcome'', member_of e ''outcome'')])
         es)"

definition canonical_finding :: "json \<Rightarrow> json" where
  "canonical_finding e =
     JsObj [(units ''fingerprint'', member_of e ''fingerprint''), (units ''severity'', member_of e ''severity''),
       (units ''confidence'', member_of e ''confidence''),
       (units ''evidence'', JsStr (units GUEST_EVIDENCE_REDACTION))]"

definition compare_findings :: "json \<Rightarrow> units \<times> units \<times> int" where
  "compare_findings e =
     (text_units (member_of e ''fingerprint''), text_units (member_of e ''severity''), num_value (member_of e ''confidence''))"

definition canonical_findings :: "json list \<Rightarrow> json list" where
  "canonical_findings es = sort_key compare_findings (map canonical_finding es)"

definition canonical_coverage :: "json list \<Rightarrow> json list" where
  "canonical_coverage es =
     sort_key (\<lambda>e. text_units (member_of e ''detector_group''))
       (map (\<lambda>e. JsObj [(units ''detector_group'', member_of e ''detector_group''),
           (units ''execution_status'', member_of e ''execution_status''),
           (units ''completeness'', member_of e ''completeness'')]) es)"

definition canonical_warnings :: "json list \<Rightarrow> json list" where
  "canonical_warnings es =
     sort_key (\<lambda>e. text_units (member_of e ''code'')) (map (\<lambda>e. JsObj [(units ''code'', member_of e ''code'')]) es)"

definition canonical_object :: "json \<Rightarrow> json" where
  "canonical_object v =
     (let metadata = member_of v ''execution_metadata''
      in JsObj [(units ''observations'', JsArr (canonical_observations (items (member_of v ''observations'')))),
         (units ''candidate_findings'', JsArr (canonical_findings (items (member_of v ''candidate_findings'')))),
         (units ''coverage'', JsArr (canonical_coverage (items (member_of v ''coverage'')))),
         (units ''execution_metadata'', JsObj
            [(units ''schema_version'', JsNum 1), (units ''profile'', JsStr (units ''GUEST_SAFE'')),
             (units ''canonical_host'', member_of metadata ''canonical_host''),
             (units ''policy_id'', JsStr (units ''outscan-v1'')),
             (units ''policy_version'', JsStr (units ''1.0.0'')),
             (units ''duration_ms'', member_of metadata ''duration_ms''),
             (units ''request_count'', member_of metadata ''request_count'')]),
         (units ''warnings'', JsArr (canonical_warnings (items (member_of v ''warnings''))))])"

record canonical_result =
  cr_payload_digest :: string
  cr_payload_size :: int
  cr_projection :: sanitized_projection
  cr_canonical_payload :: bytes

definition produce_canonical_guest_scanner_result ::
  "(string \<Rightarrow> string) \<Rightarrow> jsval \<Rightarrow> jsval \<Rightarrow> projection_fail + canonical_result" where
  "produce_canonical_guest_scanner_result to_ascii raw maximum_bytes =
     (case as_bytes raw of
        None \<Rightarrow> Inl INVALID_SCANNER_OUTPUT
      | Some snapshot \<Rightarrow>
          (case project_guest_scanner_output to_ascii (JBytes snapshot) maximum_bytes of
             Inl code \<Rightarrow> Inl code
           | Inr projection \<Rightarrow>
               (case Option.bind (decode_text snapshot) parse_json of
                  None \<Rightarrow> Inl INVALID_SCANNER_OUTPUT
                | Some parsed \<Rightarrow>
                    let payload = encode_text (json_text (canonical_object parsed))
                    in if \<not> (case as_safe_int maximum_bytes of
                               Some m \<Rightarrow> int (length payload) \<le> m | None \<Rightarrow> False)
                       then Inl OUTPUT_TOO_LARGE
                       else Inr \<lparr>cr_payload_digest = payload_digest payload,
                         cr_payload_size = int (length payload), cr_projection = projection,
                         cr_canonical_payload = payload\<rparr>)))"

end
