(* ===== verification/Canonical_Output.thy ===== *)
theory Canonical_Output
  imports Scanner_Output "HOL-Library.Multiset"
begin

section \<open>The canonical form of the scanner's output is canonical\<close>

text \<open>
  A typed reading of the validated output (\<open>guest_envelope\<close>), its JSON value, and
  the proof that the canonical payload is a fixed point of
  \<^verbatim>\<open>produceCanonicalGuestScannerResult\<close> that depends on nothing but the contents
  the validation keeps: not on the order of lists and members, white space,
  escapes, or evidence.
\<close>

subsection \<open>Sorting\<close>

lemma insort_key_map: "insort_key f (g x) (map g xs) = map g (insort_key (\<lambda>y. f (g y)) x xs)"
  by (induction xs) simp_all

lemma sort_key_map: "sort_key f (map g xs) = map g (sort_key (\<lambda>y. f (g y)) xs)"
  by (induction xs) (simp_all add: insort_key_map)

lemma sort_key_twice: "inj_on f (set xs) \<Longrightarrow> sort_key f (sort_key g xs) = sort_key f xs"
  by (rule sort_key_eq_sort_key) simp_all

lemma distinct_inj_on:
  assumes "distinct (map f xs)" "inj_on g (f ` set xs)"
  shows "inj_on (\<lambda>x. g (f x)) (set xs)"
  using assms comp_inj_on [of f "set xs" g] by (simp add: distinct_map comp_def)

lemma inj_units: "inj_on units A"
  by (rule inj_onI) simp

lemma inj_collation:
  "set ss \<subseteq> set GUEST_POSTURE_CHECKS \<Longrightarrow> inj_on collation_key (set ss)"
  "set ss \<subseteq> set GUEST_COVERAGE_GROUPS \<Longrightarrow> inj_on collation_key (set ss)"
proof -
  have "distinct (map collation_key GUEST_POSTURE_CHECKS)"
    "distinct (map collation_key GUEST_COVERAGE_GROUPS)" by code_simp+
  then show "set ss \<subseteq> set GUEST_POSTURE_CHECKS \<Longrightarrow> inj_on collation_key (set ss)"
    "set ss \<subseteq> set GUEST_COVERAGE_GROUPS \<Longrightarrow> inj_on collation_key (set ss)"
    unfolding distinct_map by (blast intro: inj_on_subset)+
qed

subsection \<open>Strings and members\<close>

lemma units_latin [simp]: "list_all (\<lambda>x. x < 256) (units s)" "map char_of (units s) = s"
  by (auto simp: units_def list_all_iff comp_def)

lemma latin_Some: "latin v = Some s \<longleftrightarrow> v = JsStr (units s)"
proof
  assume read: "latin v = Some s"
  have "units (map char_of u) = u" if "\<forall>x \<in> set u. x < 256" for u
    using that by (auto simp: units_def intro!: map_idI)
  with read show "v = JsStr (units s)" by (cases v) (auto simp: list_all_iff split: if_splits)
qed simp

lemma read_among_Some: "read_among A v = Some s \<longleftrightarrow> v = JsStr (units s) \<and> s \<in> set A"
  by (auto simp: read_among_def Option.bind_eq_Some_conv latin_Some)

lemma bounded_integer_Some:
  "bounded_integer v lo hi = Some n \<longleftrightarrow> v = JsNum n \<and> safe_int n \<and> lo \<le> n \<and> n \<le> hi"
  by (cases v) auto

lemma elements_Some: "elements v = Some vs \<longleftrightarrow> v = JsArr vs"
  by (cases v) auto

lemmas json_readers = latin_Some read_among_Some bounded_integer_Some elements_Some
  Option.bind_eq_Some_conv

subsection \<open>The items\<close>

definition observation_json :: "guest_observation \<Rightarrow> json" where
  "observation_json b = JsObj [(units ''check_id'', JsStr (units (ob_check_id b))),
     (units ''outcome'', JsStr (units (ob_outcome b)))]"

definition coverage_json :: "guest_coverage \<Rightarrow> json" where
  "coverage_json c = JsObj [(units ''detector_group'', JsStr (units (cv_detector_group c))),
     (units ''execution_status'', JsStr (units (cv_execution_status c))),
     (units ''completeness'', JsStr (units (cv_completeness c)))]"

definition finding_json :: "guest_finding \<Rightarrow> json" where
  "finding_json f = JsObj [(units ''fingerprint'', JsStr (units (fd_fingerprint f))),
     (units ''severity'', JsStr (units (fd_severity f))), (units ''confidence'', JsNum (fd_confidence f)),
     (units ''evidence'', JsStr (units GUEST_EVIDENCE_REDACTION))]"

definition warning_json :: "string \<Rightarrow> json" where
  "warning_json code = JsObj [(units ''code'', JsStr (units code))]"

lemmas item_json = observation_json_def coverage_json_def finding_json_def warning_json_def

definition valid_observation :: "guest_observation \<Rightarrow> bool" where
  "valid_observation b \<longleftrightarrow>
     ob_check_id b \<in> set GUEST_POSTURE_CHECKS \<and> ob_outcome b \<in> set OUTCOMES"

definition valid_coverage :: "guest_coverage \<Rightarrow> bool" where
  "valid_coverage c \<longleftrightarrow>
     cv_detector_group c \<in> set GUEST_COVERAGE_GROUPS \<and>
     cv_execution_status c \<in> set EXECUTION_STATUSES \<and> cv_completeness c \<in> set COMPLETENESS"

definition valid_finding :: "guest_finding \<Rightarrow> bool" where
  "valid_finding f \<longleftrightarrow>
     sha256_pattern (fd_fingerprint f) \<and> fd_severity f \<in> set SEVERITIES \<and>
     0 \<le> fd_confidence f \<and> fd_confidence f \<le> 100"

lemmas valid_items = valid_observation_def valid_coverage_def valid_finding_def

lemma read_observation_Some:
  assumes "read_observation e = Some b"
  shows "valid_observation b" "member_of e ''check_id'' = JsStr (units (ob_check_id b))"
    "member_of e ''outcome'' = JsStr (units (ob_outcome b))"
  using assms by (auto simp: read_observation_def valid_items member_of_def json_readers)

lemma read_coverage_Some:
  assumes "read_coverage e = Some c"
  shows "valid_coverage c" "member_of e ''detector_group'' = JsStr (units (cv_detector_group c))"
    "member_of e ''execution_status'' = JsStr (units (cv_execution_status c))"
    "member_of e ''completeness'' = JsStr (units (cv_completeness c))"
  using assms by (auto simp: read_coverage_def valid_items member_of_def json_readers)

lemma read_finding_Some:
  assumes "read_finding e = Some f"
  shows "valid_finding f" "member_of e ''fingerprint'' = JsStr (units (fd_fingerprint f))"
    "member_of e ''severity'' = JsStr (units (fd_severity f))"
    "member_of e ''confidence'' = JsNum (fd_confidence f)"
  using assms by (auto simp: read_finding_def valid_items member_of_def json_readers)

lemma read_warning_Some:
  assumes "read_warning e = Some code"
  shows "machine_code code" "member_of e ''code'' = JsStr (units code)"
  using assms by (auto simp: read_warning_def member_of_def json_readers)

lemma read_items_back:
  "valid_observation b \<Longrightarrow> read_observation (observation_json b) = Some b"
  "valid_coverage c \<Longrightarrow> read_coverage (coverage_json c) = Some c"
  "valid_finding f \<Longrightarrow> read_finding (finding_json f) = Some f"
  "machine_code code \<Longrightarrow> read_warning (warning_json code) = Some code"
proof -
  show "valid_observation b \<Longrightarrow> read_observation (observation_json b) = Some b"
    by (simp add: read_observation_def observation_json_def valid_items json_readers del: units_simps)
  show "valid_coverage c \<Longrightarrow> read_coverage (coverage_json c) = Some c"
    by (simp add: read_coverage_def coverage_json_def valid_items json_readers del: units_simps)
  have "utf8_length (units GUEST_EVIDENCE_REDACTION) \<le> MAX_EVIDENCE_BYTES" by code_simp
  then show "valid_finding f \<Longrightarrow> read_finding (finding_json f) = Some f"
    by (simp add: read_finding_def finding_json_def valid_items json_readers safe_int_def
        MAX_SAFE_INTEGER_def del: units_simps)
  show "machine_code code \<Longrightarrow> read_warning (warning_json code) = Some code"
    by (simp add: read_warning_def warning_json_def json_readers del: units_simps)
qed

subsection \<open>The validated contents\<close>

record guest_envelope =
  en_observations :: "guest_observation list"
  en_findings :: "guest_finding list"
  en_coverage :: "guest_coverage list"
  en_metadata :: "string \<times> int \<times> int"
  en_warnings :: "string list"

definition read_envelope :: "(string \<Rightarrow> string) \<Rightarrow> json \<Rightarrow> guest_envelope option" where
  "read_envelope to_ascii v =
     do {
       require (exact_json v ENVELOPE_MEMBERS);
       observations \<leftarrow> Option.bind (member v ''observations'') read_observations;
       findings \<leftarrow> Option.bind (member v ''candidate_findings'') read_findings;
       coverage \<leftarrow> Option.bind (member v ''coverage'') read_coverages;
       warnings \<leftarrow> Option.bind (member v ''warnings'') read_warnings;
       metadata \<leftarrow> Option.bind (member v ''execution_metadata'') (read_metadata to_ascii);
       Some \<lparr>en_observations = observations, en_findings = findings, en_coverage = coverage,
         en_metadata = metadata, en_warnings = warnings\<rparr>
     }"

abbreviation check_key :: "guest_observation \<Rightarrow> units" where
  "check_key b \<equiv> units (ob_check_id b)"

abbreviation group_key :: "guest_coverage \<Rightarrow> units" where
  "group_key c \<equiv> units (cv_detector_group c)"

definition finding_key :: "guest_finding \<Rightarrow> units \<times> units \<times> int" where
  "finding_key f = (units (fd_fingerprint f), units (fd_severity f), fd_confidence f)"

definition projection_of :: "guest_envelope \<Rightarrow> sanitized_projection" where
  "projection_of e =
     (let (host, duration, requests) = en_metadata e
      in \<lparr>sp_canonical_host = host,
          sp_posture = sort_key (\<lambda>b. collation_key (ob_check_id b)) (en_observations e),
          sp_potential_risk_count = int (length (remdups (map fd_fingerprint (en_findings e)))),
          sp_coverage = sort_key (\<lambda>c. collation_key (cv_detector_group c)) (en_coverage e),
          sp_warning_count = int (length (en_warnings e)),
          sp_duration_ms = duration, sp_request_count = requests\<rparr>)"

definition sort_envelope :: "guest_envelope \<Rightarrow> guest_envelope" where
  "sort_envelope e =
     e\<lparr>en_observations := sort_key check_key (en_observations e),
       en_findings := sort_key finding_key (en_findings e),
       en_coverage := sort_key group_key (en_coverage e),
       en_warnings := sort_key units (en_warnings e)\<rparr>"

definition metadata_json :: "string \<times> int \<times> int \<Rightarrow> json" where
  "metadata_json = (\<lambda>(host, duration, requests). JsObj
     [(units ''schema_version'', JsNum 1), (units ''profile'', JsStr (units ''GUEST_SAFE'')),
      (units ''canonical_host'', JsStr (units host)),
      (units ''policy_id'', JsStr (units ''outscan-v1'')),
      (units ''policy_version'', JsStr (units ''1.0.0'')),
      (units ''duration_ms'', JsNum duration), (units ''request_count'', JsNum requests)])"

definition envelope_json :: "guest_envelope \<Rightarrow> json" where
  "envelope_json e = JsObj
     [(units ''observations'', JsArr (map observation_json (en_observations e))),
      (units ''candidate_findings'', JsArr (map finding_json (en_findings e))),
      (units ''coverage'', JsArr (map coverage_json (en_coverage e))),
      (units ''execution_metadata'', metadata_json (en_metadata e)),
      (units ''warnings'', JsArr (map warning_json (en_warnings e)))]"

definition valid_metadata_triple :: "(string \<Rightarrow> string) \<Rightarrow> string \<times> int \<times> int \<Rightarrow> bool" where
  "valid_metadata_triple to_ascii = (\<lambda>(host, duration, requests).
     canonicalize_hostname to_ascii (JStr host) = Inr host \<and>
     0 \<le> duration \<and> duration \<le> 30000 \<and> 0 \<le> requests \<and> requests \<le> 40)"

definition valid_envelope :: "(string \<Rightarrow> string) \<Rightarrow> guest_envelope \<Rightarrow> bool" where
  "valid_envelope to_ascii e \<longleftrightarrow>
     (\<forall>b \<in> set (en_observations e). valid_observation b) \<and>
     distinct (map ob_check_id (en_observations e)) \<and> length (en_observations e) \<le> MAX_OBSERVATIONS \<and>
     (\<forall>f \<in> set (en_findings e). valid_finding f) \<and> length (en_findings e) \<le> MAX_FINDINGS \<and>
     (\<forall>c \<in> set (en_coverage e). valid_coverage c) \<and>
     distinct (map cv_detector_group (en_coverage e)) \<and>
     length (en_coverage e) \<noteq> 0 \<and> length (en_coverage e) \<le> MAX_COVERAGE \<and>
     (\<forall>w \<in> set (en_warnings e). machine_code w) \<and> distinct (en_warnings e) \<and>
     length (en_warnings e) \<le> MAX_WARNINGS \<and> valid_metadata_triple to_ascii (en_metadata e)"

lemma project_envelope_eq:
  "project_envelope to_ascii v = map_option projection_of (read_envelope to_ascii v)"
  by (simp add: project_envelope_def read_envelope_def parse_observations_def finding_count_def
      parse_coverage_def warning_count_def bind_map_option map_option_bind Option.bind_assoc comp_def
      projection_of_def case_prod_unfold)

lemma list_readers:
  "read_observations v = Some bs \<Longrightarrow> \<exists>es. v = JsArr es \<and> all_some read_observation es = Some bs \<and>
     distinct (map ob_check_id bs) \<and> length bs \<le> MAX_OBSERVATIONS"
  "read_coverages v = Some cs \<Longrightarrow> \<exists>es. v = JsArr es \<and> all_some read_coverage es = Some cs \<and>
     distinct (map cv_detector_group cs) \<and> length cs \<noteq> 0 \<and> length cs \<le> MAX_COVERAGE"
  "read_findings v = Some fs \<Longrightarrow> \<exists>es. v = JsArr es \<and> all_some read_finding es = Some fs \<and>
     length fs \<le> MAX_FINDINGS"
  "read_warnings v = Some ws \<Longrightarrow> \<exists>es. v = JsArr es \<and> all_some read_warning es = Some ws \<and>
     distinct ws \<and> length ws \<le> MAX_WARNINGS"
  unfolding read_observations_def read_coverages_def read_findings_def read_warnings_def
  by (fastforce simp: json_readers dest: all_some_length)+

lemma all_some_maps:
  assumes "all_some f es = Some xs" "\<And>e x. f e = Some x \<Longrightarrow> g e = h x"
  shows "map g es = map h xs"
  using assms(1) by (induction es arbitrary: xs) (auto split: option.splits dest: assms(2))

lemma read_metadata_Some:
  assumes "read_metadata to_ascii v = Some m"
  shows "valid_metadata_triple to_ascii m"
    "member_of v ''canonical_host'' = JsStr (units (fst m))"
    "member_of v ''duration_ms'' = JsNum (fst (snd m))"
    "member_of v ''request_count'' = JsNum (snd (snd m))"
  using assms by (auto simp: read_metadata_def valid_metadata_triple_def member_of_def json_readers)

lemma read_envelope_valid:
  assumes "read_envelope to_ascii v = Some e"
  shows "valid_envelope to_ascii e"
proof -
  have each: "\<forall>x \<in> set xs. P x" if "all_some f es = Some xs" "\<And>e x. f e = Some x \<Longrightarrow> P x" for f es xs P
    using that(1) by (induction es arbitrary: xs) (auto split: option.splits dest: that(2))
  show ?thesis
    using assms
    by (auto simp: read_envelope_def valid_envelope_def Option.bind_eq_Some_conv
        dest!: list_readers dest: read_metadata_Some(1)
        each [OF _ read_observation_Some(1)] each [OF _ read_coverage_Some(1)]
        each [OF _ read_finding_Some(1)] each [OF _ read_warning_Some(1)])
qed

lemma all_items_back:
  "\<forall>b \<in> set bs. valid_observation b \<Longrightarrow> all_some read_observation (map observation_json bs) = Some bs"
  "\<forall>f \<in> set fs. valid_finding f \<Longrightarrow> all_some read_finding (map finding_json fs) = Some fs"
  "\<forall>c \<in> set cs. valid_coverage c \<Longrightarrow> all_some read_coverage (map coverage_json cs) = Some cs"
  "\<forall>w \<in> set ws. machine_code w \<Longrightarrow> all_some read_warning (map warning_json ws) = Some ws"
proof -
  show "\<forall>b \<in> set bs. valid_observation b \<Longrightarrow> all_some read_observation (map observation_json bs) = Some bs"
    by (induction bs) (simp_all add: read_items_back)
  show "\<forall>f \<in> set fs. valid_finding f \<Longrightarrow> all_some read_finding (map finding_json fs) = Some fs"
    by (induction fs) (simp_all add: read_items_back)
  show "\<forall>c \<in> set cs. valid_coverage c \<Longrightarrow> all_some read_coverage (map coverage_json cs) = Some cs"
    by (induction cs) (simp_all add: read_items_back)
  show "\<forall>w \<in> set ws. machine_code w \<Longrightarrow> all_some read_warning (map warning_json ws) = Some ws"
    by (induction ws) (simp_all add: read_items_back)
qed

lemma read_back_lists:
  assumes "valid_envelope to_ascii e"
  shows "read_observations (JsArr (map observation_json (en_observations e))) = Some (en_observations e)"
    "read_findings (JsArr (map finding_json (en_findings e))) = Some (en_findings e)"
    "read_coverages (JsArr (map coverage_json (en_coverage e))) = Some (en_coverage e)"
    "read_warnings (JsArr (map warning_json (en_warnings e))) = Some (en_warnings e)"
proof -
  note v = assms [unfolded valid_envelope_def]
  show "read_observations (JsArr (map observation_json (en_observations e))) = Some (en_observations e)"
    using v all_items_back by (simp add: read_observations_def)
  show "read_findings (JsArr (map finding_json (en_findings e))) = Some (en_findings e)"
    using v all_items_back by (simp add: read_findings_def)
  show "read_coverages (JsArr (map coverage_json (en_coverage e))) = Some (en_coverage e)"
    using v all_items_back by (simp add: read_coverages_def)
  show "read_warnings (JsArr (map warning_json (en_warnings e))) = Some (en_warnings e)"
    using v all_items_back by (simp add: read_warnings_def)
qed

lemma read_metadata_back:
  assumes "valid_metadata_triple to_ascii m"
  shows "read_metadata to_ascii (metadata_json m) = Some m"
  using assms
  by (auto simp: read_metadata_def metadata_json_def valid_metadata_triple_def METADATA_MEMBERS_def
      safe_int_def MAX_SAFE_INTEGER_def simp del: units_simps)

lemma read_envelope_back:
  assumes "valid_envelope to_ascii e"
  shows "read_envelope to_ascii (envelope_json e) = Some e"
  using read_back_lists [OF assms] assms
  by (simp add: read_envelope_def envelope_json_def ENVELOPE_MEMBERS_def valid_envelope_def
      read_metadata_back del: units_simps)

lemma canonical_lists:
  "all_some read_observation es = Some bs \<Longrightarrow>
   canonical_observations es = map observation_json (sort_key check_key bs)"
  "all_some read_finding es = Some fs \<Longrightarrow>
   canonical_findings es = map finding_json (sort_key finding_key fs)"
  "all_some read_coverage es = Some cs \<Longrightarrow>
   canonical_coverage es = map coverage_json (sort_key group_key cs)"
  "all_some read_warning es = Some ws \<Longrightarrow>
   canonical_warnings es = map warning_json (sort_key units ws)"
proof -
  assume read: "all_some read_observation es = Some bs"
  show "canonical_observations es = map observation_json (sort_key check_key bs)"
    unfolding canonical_observations_def
    by (subst all_some_maps [OF read, where h = observation_json])
      (simp_all add: read_observation_Some observation_json_def sort_key_map member_of_def [of "JsObj ms" for ms])
next
  assume read: "all_some read_finding es = Some fs"
  show "canonical_findings es = map finding_json (sort_key finding_key fs)"
    unfolding canonical_findings_def
    by (subst all_some_maps [OF read, where h = finding_json])
      (simp_all add: read_finding_Some canonical_finding_def finding_json_def sort_key_map member_of_def [of "JsObj ms" for ms]
        compare_findings_def finding_key_def [abs_def])
next
  assume read: "all_some read_coverage es = Some cs"
  show "canonical_coverage es = map coverage_json (sort_key group_key cs)"
    unfolding canonical_coverage_def
    by (subst all_some_maps [OF read, where h = coverage_json])
      (simp_all add: read_coverage_Some coverage_json_def sort_key_map member_of_def [of "JsObj ms" for ms])
next
  assume read: "all_some read_warning es = Some ws"
  show "canonical_warnings es = map warning_json (sort_key units ws)"
    unfolding canonical_warnings_def
    by (subst all_some_maps [OF read, where h = warning_json])
      (simp_all add: read_warning_Some warning_json_def sort_key_map member_of_def [of "JsObj ms" for ms])
qed

lemma canonical_object_eq:
  assumes "read_envelope to_ascii v = Some e"
  shows "canonical_object v = envelope_json (sort_envelope e)"
proof -
  obtain a b c m d where
    v: "member v ''observations'' = Some a" "member v ''candidate_findings'' = Some b"
      "member v ''coverage'' = Some c" "member v ''execution_metadata'' = Some m"
      "member v ''warnings'' = Some d" and
    r: "read_observations a = Some (en_observations e)" "read_findings b = Some (en_findings e)"
      "read_coverages c = Some (en_coverage e)" "read_metadata to_ascii m = Some (en_metadata e)"
      "read_warnings d = Some (en_warnings e)"
    using assms by (auto simp: read_envelope_def Option.bind_eq_Some_conv)
  obtain es fs cs ws where
    l: "a = JsArr es" "b = JsArr fs" "c = JsArr cs" "d = JsArr ws" and
    s: "all_some read_observation es = Some (en_observations e)"
      "all_some read_finding fs = Some (en_findings e)"
      "all_some read_coverage cs = Some (en_coverage e)"
      "all_some read_warning ws = Some (en_warnings e)"
    using list_readers(1) [OF r(1)] list_readers(3) [OF r(2)] list_readers(2) [OF r(3)]
      list_readers(4) [OF r(5)] by blast
  show ?thesis
    using canonical_lists(1) [OF s(1)] canonical_lists(2) [OF s(2)] canonical_lists(3) [OF s(3)]
      canonical_lists(4) [OF s(4)] read_metadata_Some [OF r(4)]
    by (simp add: canonical_object_def envelope_json_def sort_envelope_def metadata_json_def
        member_of_def [of v] v l items_def case_prod_unfold del: units_simps)
qed

subsection \<open>Sorted contents\<close>

lemma valid_envelope_sort: "valid_envelope to_ascii e \<Longrightarrow> valid_envelope to_ascii (sort_envelope e)"
  by (simp add: valid_envelope_def sort_envelope_def distinct_map)

lemma inj_keys:
  assumes "valid_envelope to_ascii e"
  shows "inj_on check_key (set (en_observations e))" "inj_on group_key (set (en_coverage e))"
    "inj_on (\<lambda>b. collation_key (ob_check_id b)) (set (en_observations e))"
    "inj_on (\<lambda>c. collation_key (cv_detector_group c)) (set (en_coverage e))"
proof -
  have checks: "set (map ob_check_id (en_observations e)) \<subseteq> set GUEST_POSTURE_CHECKS"
    and groups: "set (map cv_detector_group (en_coverage e)) \<subseteq> set GUEST_COVERAGE_GROUPS"
    using assms by (auto simp: valid_envelope_def valid_items)
  have d: "distinct (map ob_check_id (en_observations e))" "distinct (map cv_detector_group (en_coverage e))"
    using assms by (simp_all add: valid_envelope_def)
  show "inj_on check_key (set (en_observations e))" by (rule distinct_inj_on [OF d(1) inj_units])
  show "inj_on group_key (set (en_coverage e))" by (rule distinct_inj_on [OF d(2) inj_units])
  show "inj_on (\<lambda>b. collation_key (ob_check_id b)) (set (en_observations e))"
    using distinct_inj_on [OF d(1)] inj_collation(1) [OF checks] by simp
  show "inj_on (\<lambda>c. collation_key (cv_detector_group c)) (set (en_coverage e))"
    using distinct_inj_on [OF d(2)] inj_collation(2) [OF groups] by simp
qed

lemma inj_finding_key: "inj_on finding_key A"
  by (rule inj_onI) (simp add: finding_key_def)

lemma card_remdups: "length (remdups (map f (sort_key g xs))) = length (remdups (map f xs))"
  by (simp add: length_remdups_card_conv)

text \<open>Sorting by code units or by collation first makes no difference.\<close>

lemma projection_of_sort:
  "valid_envelope to_ascii e \<Longrightarrow> projection_of (sort_envelope e) = projection_of e"
  using inj_keys [of to_ascii e]
  by (simp add: projection_of_def sort_envelope_def sort_key_twice card_remdups)

lemma sort_envelope_unique:
  assumes "valid_envelope to_ascii e" "valid_envelope to_ascii' e'"
  shows "sort_envelope e = sort_envelope e' \<longleftrightarrow>
    mset (en_observations e) = mset (en_observations e') \<and>
    mset (en_findings e) = mset (en_findings e') \<and>
    mset (en_coverage e) = mset (en_coverage e') \<and>
    mset (en_warnings e) = mset (en_warnings e') \<and> en_metadata e = en_metadata e'"
    (is "_ \<longleftrightarrow> ?same")
proof
  assume eq: "sort_envelope e = sort_envelope e'"
  have "mset (sort_key check_key (en_observations e)) = mset (sort_key check_key (en_observations e'))"
    "mset (sort_key finding_key (en_findings e)) = mset (sort_key finding_key (en_findings e'))"
    "mset (sort_key group_key (en_coverage e)) = mset (sort_key group_key (en_coverage e'))"
    "mset (sort_key units (en_warnings e)) = mset (sort_key units (en_warnings e'))"
    using arg_cong [OF eq, of en_observations] arg_cong [OF eq, of en_findings]
      arg_cong [OF eq, of en_coverage] arg_cong [OF eq, of en_warnings]
    by (simp_all add: sort_envelope_def)
  moreover have "en_metadata e = en_metadata e'"
    using arg_cong [OF eq, of en_metadata] by (simp add: sort_envelope_def)
  ultimately show ?same by simp
next
  assume same: ?same
  note inj = inj_keys [OF assms(1)]
  have "sort_key check_key (en_observations e) = sort_key check_key (en_observations e')"
    using same inj(1) by (intro sort_key_eq_sort_key) simp_all
  moreover have "sort_key finding_key (en_findings e) = sort_key finding_key (en_findings e')"
    using same by (intro sort_key_eq_sort_key inj_finding_key) simp
  moreover have "sort_key group_key (en_coverage e) = sort_key group_key (en_coverage e')"
    using same inj(2) by (intro sort_key_eq_sort_key) simp_all
  moreover have "sort_key units (en_warnings e) = sort_key units (en_warnings e')"
    using same by (intro sort_key_eq_sort_key inj_units) simp
  ultimately show "sort_envelope e = sort_envelope e'"
    using same by (simp add: sort_envelope_def)
qed

lemma sort_envelope_idem:
  "valid_envelope to_ascii e \<Longrightarrow> sort_envelope (sort_envelope e) = sort_envelope e"
  using sort_envelope_unique [OF valid_envelope_sort, of to_ascii e to_ascii e]
  by (simp add: sort_envelope_def)

subsection \<open>The text of the canonical form is ASCII\<close>

fun tidy :: "json \<Rightarrow> bool" where
  "tidy (JsStr u) = list_all (\<lambda>x. x < 128) u"
| "tidy (JsNum n) = (\<bar>n\<bar> < 2 ^ 53)"
| "tidy JsFrac = False"
| "tidy (JsArr vs) = (\<forall>v \<in> set vs. tidy v)"
| "tidy (JsObj ms) = (\<forall>(k, v) \<in> set ms. list_all (\<lambda>x. x < 128) k \<and> tidy v)"
| "tidy v = True"

lemma tidy_printable: "tidy v \<Longrightarrow> printable v"
proof (induction v)
  case (JsObj ms)
  then show ?case by (fastforce simp: list_all_iff)
qed (auto simp: list_all_iff)

lemma ascii_escapes:
  "list_all (\<lambda>x. x < 128) (unicode_escape u)"
  "u < 128 \<Longrightarrow> list_all (\<lambda>x. x < 128) (escape_unit u)"
proof -
  have "hex_code (n mod 16) < 128" for n
  proof -
    have "n mod 16 < 16" by simp
    then show ?thesis by (auto simp: hex_code_def)
  qed
  then show escape: "list_all (\<lambda>x. x < 128) (unicode_escape u)"
    by (simp add: unicode_escape_def)
  show "u < 128 \<Longrightarrow> list_all (\<lambda>x. x < 128) (escape_unit u)"
    using escape by (simp add: escape_unit_def)
qed

lemma ascii_quoted: "list_all (\<lambda>x. x < 128) u \<Longrightarrow> list_all (\<lambda>x. x < 128) (quote_units u)"
  by (induction u rule: quote_units.induct) (simp_all add: ascii_escapes)

lemma ascii_joined: "\<forall>t \<in> set ts. list_all (\<lambda>x. x < 128) t \<Longrightarrow> list_all (\<lambda>x. x < 128) (joined ts)"
  by (induction ts rule: joined.induct) simp_all

lemma ascii_integer: "list_all (\<lambda>x. x < 128) (integer_text n)"
proof -
  have "list_all (\<lambda>x. x < 128) (units (to_digits 10 m))" if "0 \<le> m" for m
    using decimal_digits(1) [OF that] by (auto simp: list_all_iff units_def is_digit_def code_of_def)
  then show ?thesis by (simp add: integer_text_def)
qed

lemma ascii_json_text: "tidy v \<Longrightarrow> list_all (\<lambda>x. x < 128) (json_text v)"
proof (induction v)
  case (JsArr vs)
  then show ?case by (simp add: ascii_joined)
next
  case (JsObj ms)
  then show ?case by (fastforce simp: ascii_quoted intro!: ascii_joined)
qed (simp_all add: ascii_quoted ascii_integer)

text \<open>A bound on the length of a text.\<close>

fun weight :: "json \<Rightarrow> nat" where
  "weight (JsNum n) = 17"
| "weight (JsStr u) = 6 * length u + 2"
| "weight (JsArr vs) = sum_list (map weight vs) + length vs + 2"
| "weight (JsObj ms) = sum_list (map (\<lambda>(k, v). 6 * length k + 3 + weight v) ms) + length ms + 2"
| "weight v = 5"

lemma length_quote_units: "length (quote_units u) \<le> 6 * length u"
  by (induction u rule: quote_units.induct) (auto simp: unicode_escape_def escape_unit_def)

lemma length_joined: "length (joined ts) \<le> sum_list (map length ts) + length ts"
  by (induction ts rule: joined.induct) simp_all

lemma json_text_weight: "tidy v \<Longrightarrow> length (json_text v) \<le> weight v"
proof (induction v)
  case (JsNum n)
  have "length (to_digits 10 m) \<le> 16" if "0 \<le> m" "m < 2 ^ 53" for m
    using to_digits_length [of 10 m 15] that by simp
  from this [of n] this [of "- n"] JsNum show ?case by (cases "n < 0") (auto simp: integer_text_def)
next
  case (JsStr u)
  then show ?case using length_quote_units [of u] by simp
next
  case (JsArr vs)
  have "sum_list (map (\<lambda>v. length (json_text v)) vs) \<le> sum_list (map weight vs)"
    using JsArr by (intro sum_list_mono) simp
  then show ?case using length_joined [of "map json_text vs"] by (simp add: comp_def)
next
  case (JsObj ms)
  have "sum_list (map (\<lambda>m. length (member_text m)) ms) \<le>
      sum_list (map (\<lambda>(k, v). 6 * length k + 3 + weight v) ms)"
  proof (rule sum_list_mono)
    fix m assume m: "m \<in> set ms"
    obtain k v where kv: "m = (k, v)" by fastforce
    have "length (json_text v) \<le> weight v"
      using JsObj.IH [of "(k, v)" v] JsObj.prems m by (auto simp: kv)
    then show "length (member_text m) \<le> (case m of (k, v) \<Rightarrow> 6 * length k + 3 + weight v)"
      using length_quote_units [of k] by (simp add: kv member_text_def)
  qed
  then show ?case
    using length_joined [of "map member_text ms"] by (simp add: json_text_object comp_def del: json_text.simps)
qed simp_all

subsection \<open>The canonical payload\<close>

lemma table_ascii:
  "s \<in> set GUEST_POSTURE_CHECKS \<union> set GUEST_COVERAGE_GROUPS \<union> set OUTCOMES \<union>
    set EXECUTION_STATUSES \<union> set COMPLETENESS \<union> set SEVERITIES \<union> {GUEST_EVIDENCE_REDACTION} \<Longrightarrow>
   list_all (\<lambda>x. x < 128) (units s)"
proof -
  have "list_all (\<lambda>s. list_all (\<lambda>x. x < 128) (units s))
    (GUEST_POSTURE_CHECKS @ GUEST_COVERAGE_GROUPS @ OUTCOMES @ EXECUTION_STATUSES @ COMPLETENESS @
     SEVERITIES @ [GUEST_EVIDENCE_REDACTION])" by code_simp
  then show "s \<in> set GUEST_POSTURE_CHECKS \<union> set GUEST_COVERAGE_GROUPS \<union> set OUTCOMES \<union>
    set EXECUTION_STATUSES \<union> set COMPLETENESS \<union> set SEVERITIES \<union> {GUEST_EVIDENCE_REDACTION} \<Longrightarrow>
   list_all (\<lambda>x. x < 128) (units s)"
    unfolding list_all_iff by auto
qed

lemma pattern_ascii:
  "machine_code s \<Longrightarrow> list_all (\<lambda>x. x < 128) (units s)"
  "sha256_pattern s \<Longrightarrow> list_all (\<lambda>x. x < 128) (units s)"
  "has_valid_dns_shape s \<Longrightarrow> list_all (\<lambda>x. x < 128) (units s)"
proof -
  show "machine_code s \<Longrightarrow> list_all (\<lambda>x. x < 128) (units s)"
    by (auto simp: machine_code_def units_def list_all_iff is_upper_def is_digit_def code_of_def
        split: list.splits)
  have ascii: "list_all (\<lambda>x. x < 128) (units ''sha256:'')" by code_simp
  have "list_all (\<lambda>x. x < 128) (units t)" if "list_all is_lower_hex t" for t
    using that by (auto simp: units_def list_all_iff is_lower_hex_def is_digit_def code_of_def)
  then have "list_all (\<lambda>x. x < 128) (units (''sha256:'' @ drop (length ''sha256:'') s))" if "list_all is_lower_hex (drop (length ''sha256:'') s)"
    using ascii that by (simp only: units_simps(3) list_all_append)
  moreover have "sha256_pattern s \<Longrightarrow> s = ''sha256:'' @ drop (length ''sha256:'') s \<and> list_all is_lower_hex (drop (length ''sha256:'') s)"
    using hex64_pattern_split [of "''sha256:''" s] unfolding hex64_pattern_def by blast
  ultimately show "sha256_pattern s \<Longrightarrow> list_all (\<lambda>x. x < 128) (units s)" by metis
  show "has_valid_dns_shape s \<Longrightarrow> list_all (\<lambda>x. x < 128) (units s)"
    by (drule dns_shape_chars)
      (auto simp: units_def list_all_iff is_lower_def is_digit_def code_of_def)
qed

lemma member_names_ascii:
  "list_all (\<lambda>k. list_all (\<lambda>x. x < 128) (units k))
    (ENVELOPE_MEMBERS @ METADATA_MEMBERS @ [''check_id'', ''outcome'', ''detector_group'',
     ''execution_status'', ''completeness'', ''fingerprint'', ''severity'', ''confidence'', ''evidence'', ''code''])"
  by code_simp

lemma items_tidy:
  "valid_observation b \<Longrightarrow> tidy (observation_json b)"
  "valid_coverage c \<Longrightarrow> tidy (coverage_json c)"
  "valid_finding f \<Longrightarrow> tidy (finding_json f)"
  "machine_code w \<Longrightarrow> tidy (warning_json w)"
  "valid_metadata_triple to_ascii m \<Longrightarrow> tidy (metadata_json m)"
proof -
  show "valid_observation b \<Longrightarrow> tidy (observation_json b)"
    by (simp add: observation_json_def valid_items table_ascii)
  show "valid_coverage c \<Longrightarrow> tidy (coverage_json c)"
    by (simp add: coverage_json_def valid_items table_ascii)
  show "valid_finding f \<Longrightarrow> tidy (finding_json f)"
    by (simp add: finding_json_def valid_items table_ascii pattern_ascii)
  show "machine_code w \<Longrightarrow> tidy (warning_json w)"
    by (simp add: warning_json_def pattern_ascii)
  show "valid_metadata_triple to_ascii m \<Longrightarrow> tidy (metadata_json m)"
    by (auto simp: metadata_json_def valid_metadata_triple_def pattern_ascii dest!: canonicalize_Inr)
qed

lemma envelope_tidy: "valid_envelope to_ascii e \<Longrightarrow> tidy (envelope_json e)"
  by (simp add: envelope_json_def valid_envelope_def items_tidy(1-4) items_tidy(5) [of to_ascii])

lemma envelope_keyed: "well_keyed 0 (envelope_json e)"
  by (cases "en_metadata e") (auto simp: envelope_json_def item_json metadata_json_def MAX_JSON_DEPTH_def)

definition canonical_bytes :: "guest_envelope \<Rightarrow> bytes" where
  "canonical_bytes e = encode_text (json_text (envelope_json e))"

lemma canonical_bytes_parse:
  assumes "valid_envelope to_ascii e"
  shows "decode_text (canonical_bytes e) = Some (json_text (envelope_json e))"
    "parse_json (json_text (envelope_json e)) = Some (envelope_json e)"
    "int (length (canonical_bytes e)) \<le> maximum \<Longrightarrow>
     parse_json_bytes (JBytes (canonical_bytes e)) maximum = Some (envelope_json e)"
proof -
  note tidy = envelope_tidy [OF assms]
  show txt_eq: "decode_text (canonical_bytes e) = Some (json_text (envelope_json e))"
    unfolding canonical_bytes_def by (rule ascii_text(3) [OF ascii_json_text [OF tidy]])
  show parse: "parse_json (json_text (envelope_json e)) = Some (envelope_json e)"
    by (rule parse_json_text(1) [OF tidy_printable [OF tidy] envelope_keyed])
  have unique: "has_unique_json_keys (json_text (envelope_json e))"
    by (rule parse_json_text(2) [OF tidy_printable [OF tidy] envelope_keyed])
  obtain t where "canonical_bytes e = 123 # t"
    by (simp add: canonical_bytes_def envelope_json_def encode_text_def)
  then have "take 3 (canonical_bytes e) \<noteq> [0xef, 0xbb, 0xbf]" by (simp add: numeral_3_eq_3)
  then show "int (length (canonical_bytes e)) \<le> maximum \<Longrightarrow>
     parse_json_bytes (JBytes (canonical_bytes e)) maximum = Some (envelope_json e)"
    using txt_eq parse unique by (simp add: parse_json_bytes_def)
qed

lemma produce_iff:
  "produce_canonical_guest_scanner_result to_ascii raw m = Inr r \<longleftrightarrow>
   (\<exists>b maximum v e. raw = JBytes b \<and> as_bounded 1 MAX_GUEST_OUTPUT_BYTES m = Some maximum \<and>
      parse_json_bytes (JBytes b) maximum = Some v \<and> read_envelope to_ascii v = Some e \<and>
      int (length (canonical_bytes (sort_envelope e))) \<le> maximum \<and>
      r = \<lparr>cr_payload_digest = payload_digest (canonical_bytes (sort_envelope e)),
        cr_payload_size = int (length (canonical_bytes (sort_envelope e))),
        cr_projection = projection_of e, cr_canonical_payload = canonical_bytes (sort_envelope e)\<rparr>)"
  (is "?produced \<longleftrightarrow> ?parts")
proof
  assume produced: ?produced
  then obtain b where raw: "raw = JBytes b"
    by (auto simp: produce_canonical_guest_scanner_result_def as_bytes_Some split: option.splits)
  obtain p where p: "project_guest_scanner_output to_ascii (JBytes b) m = Inr p"
    using produced
    by (auto simp: raw produce_canonical_guest_scanner_result_def split: sum.splits)
  obtain maximum v where max: "as_bounded 1 MAX_GUEST_OUTPUT_BYTES m = Some maximum"
    and v: "parse_json_bytes (JBytes b) maximum = Some v" "project_envelope to_ascii v = Some p"
    using p by (auto simp: project_guest_scanner_output_def Option.bind_eq_Some_conv
        split: option.splits if_splits)
  obtain e where e: "read_envelope to_ascii v = Some e" "p = projection_of e"
    using v(2) by (auto simp: project_envelope_eq)
  have "Option.bind (decode_text b) parse_json = Some v"
    using v(1) by (auto simp: parse_json_bytes_def Option.bind_eq_Some_conv)
  moreover have "as_safe_int m = Some maximum"
    using max by (simp add: as_bounded_Some as_safe_int_Some)
  ultimately show ?parts
    using produced max v e p raw canonical_object_eq [OF e(1)]
    by (auto simp: produce_canonical_guest_scanner_result_def canonical_bytes_def Let_def
        split: if_splits)
next
  assume ?parts
  then obtain b maximum v e where raw: "raw = JBytes b"
    and max: "as_bounded 1 MAX_GUEST_OUTPUT_BYTES m = Some maximum"
    and v: "parse_json_bytes (JBytes b) maximum = Some v" and e: "read_envelope to_ascii v = Some e"
    and size: "int (length (canonical_bytes (sort_envelope e))) \<le> maximum"
    and r: "r = \<lparr>cr_payload_digest = payload_digest (canonical_bytes (sort_envelope e)),
        cr_payload_size = int (length (canonical_bytes (sort_envelope e))),
        cr_projection = projection_of e, cr_canonical_payload = canonical_bytes (sort_envelope e)\<rparr>"
    by blast
  have len: "\<not> int (length b) > maximum" and parsed: "Option.bind (decode_text b) parse_json = Some v"
    using v by (auto simp: parse_json_bytes_def Option.bind_eq_Some_conv)
  have "project_guest_scanner_output to_ascii (JBytes b) m = Inr (projection_of e)"
    using max v e len by (simp add: project_guest_scanner_output_def project_envelope_eq)
  moreover have "as_safe_int m = Some maximum"
    using max by (simp add: as_bounded_Some as_safe_int_Some)
  ultimately show ?produced
    using canonical_object_eq [OF e] parsed size
    by (simp add: raw r produce_canonical_guest_scanner_result_def canonical_bytes_def Let_def)
qed

lemma produce_canonical:
  assumes "valid_envelope to_ascii e" "as_bounded 1 MAX_GUEST_OUTPUT_BYTES m = Some maximum"
    and "int (length (canonical_bytes (sort_envelope e))) \<le> maximum"
  shows "produce_canonical_guest_scanner_result to_ascii (JBytes (canonical_bytes (sort_envelope e))) m =
    Inr \<lparr>cr_payload_digest = payload_digest (canonical_bytes (sort_envelope e)),
      cr_payload_size = int (length (canonical_bytes (sort_envelope e))),
      cr_projection = projection_of e, cr_canonical_payload = canonical_bytes (sort_envelope e)\<rparr>"
proof -
  note valid = valid_envelope_sort [OF assms(1)]
  show ?thesis
    unfolding produce_iff
    using canonical_bytes_parse(3) [OF valid assms(3)] read_envelope_back [OF valid] assms(2,3)
      sort_envelope_idem [OF assms(1)] projection_of_sort [OF assms(1)]
    by (intro exI [of _ "canonical_bytes (sort_envelope e)"] exI [of _ maximum]
        exI [of _ "envelope_json (sort_envelope e)"] exI [of _ "sort_envelope e"] conjI) simp_all
qed

definition validated_contents :: "(string \<Rightarrow> string) \<Rightarrow> jsval \<Rightarrow> guest_envelope option" where
  "validated_contents to_ascii raw =
     do {
       b \<leftarrow> as_bytes raw;
       v \<leftarrow> Option.bind (decode_text b) parse_json;
       read_envelope to_ascii v
     }"

lemma produced_from:
  assumes "produce_canonical_guest_scanner_result to_ascii raw m = Inr r"
  obtains e maximum where "validated_contents to_ascii raw = Some e" "valid_envelope to_ascii e"
    "as_bounded 1 MAX_GUEST_OUTPUT_BYTES m = Some maximum"
    "int (length (canonical_bytes (sort_envelope e))) \<le> maximum"
    "r = \<lparr>cr_payload_digest = payload_digest (canonical_bytes (sort_envelope e)),
      cr_payload_size = int (length (canonical_bytes (sort_envelope e))),
      cr_projection = projection_of e, cr_canonical_payload = canonical_bytes (sort_envelope e)\<rparr>"
proof -
  obtain b maximum v e where parts: "raw = JBytes b"
    "as_bounded 1 MAX_GUEST_OUTPUT_BYTES m = Some maximum"
    "parse_json_bytes (JBytes b) maximum = Some v" "read_envelope to_ascii v = Some e"
    "int (length (canonical_bytes (sort_envelope e))) \<le> maximum"
    "r = \<lparr>cr_payload_digest = payload_digest (canonical_bytes (sort_envelope e)),
        cr_payload_size = int (length (canonical_bytes (sort_envelope e))),
        cr_projection = projection_of e, cr_canonical_payload = canonical_bytes (sort_envelope e)\<rparr>"
    using assms unfolding produce_iff by blast
  have "Option.bind (decode_text b) parse_json = Some v"
    using parts(3) by (auto simp: parse_json_bytes_def Option.bind_eq_Some_conv)
  then have "validated_contents to_ascii raw = Some e"
    using parts(1,4) by (auto simp: validated_contents_def Option.bind_eq_Some_conv)
  then show ?thesis using that read_envelope_valid [OF parts(4)] parts(2,5,6) by blast
qed

text \<open>A scanner output for the witnesses: the observations are out of order.\<close>

definition sample_contents :: guest_envelope where
  "sample_contents =
     \<lparr>en_observations = [\<lparr>ob_check_id = ''MAIL_SPF'', ob_outcome = ''PASS''\<rparr>,
        \<lparr>ob_check_id = ''DNS_CAA'', ob_outcome = ''ATTENTION''\<rparr>],
      en_findings = [\<lparr>fd_fingerprint = uniform_digest (CHR ''a''), fd_severity = ''LOW'', fd_confidence = 80\<rparr>],
      en_coverage = [\<lparr>cv_detector_group = ''DNS_DOMAIN_POSTURE'', cv_execution_status = ''SUCCESS'',
        cv_completeness = ''COMPLETE''\<rparr>],
      en_metadata = (''example.com'', 900, 7), en_warnings = [''SLOW_DNS'']\<rparr>"

lemma sample_valid: "valid_envelope (\<lambda>s. s) sample_contents"
  by code_simp

lemma sample_size:
  "int (length (canonical_bytes sample_contents)) \<le> 65536"
  "int (length (canonical_bytes (sort_envelope sample_contents))) \<le> 65536"
proof -
  note tidy = envelope_tidy [OF sample_valid] envelope_tidy [OF valid_envelope_sort [OF sample_valid]]
  have "weight (envelope_json sample_contents) \<le> 65536"
    "weight (envelope_json (sort_envelope sample_contents)) \<le> 65536"
    by (simp_all add: sample_contents_def sort_envelope_def envelope_json_def item_json metadata_json_def
        GUEST_EVIDENCE_REDACTION_def uniform_digest_def)
  then show "int (length (canonical_bytes sample_contents)) \<le> 65536"
    "int (length (canonical_bytes (sort_envelope sample_contents))) \<le> 65536"
    using json_text_weight [OF tidy(1)] json_text_weight [OF tidy(2)]
      ascii_text(4) [OF ascii_json_text [OF tidy(1)]] ascii_text(4) [OF ascii_json_text [OF tidy(2)]]
    by (simp_all add: canonical_bytes_def)
qed

definition sample_result :: canonical_result where
  "sample_result =
     \<lparr>cr_payload_digest = payload_digest (canonical_bytes (sort_envelope sample_contents)),
      cr_payload_size = int (length (canonical_bytes (sort_envelope sample_contents))),
      cr_projection = projection_of sample_contents,
      cr_canonical_payload = canonical_bytes (sort_envelope sample_contents)\<rparr>"

lemma sample_bounded: "as_bounded 1 MAX_GUEST_OUTPUT_BYTES (JNum 65536) = Some 65536"
  by code_simp

lemma sample_produced:
  "produce_canonical_guest_scanner_result (\<lambda>s. s) (JBytes (canonical_bytes sample_contents)) (JNum 65536) =
   Inr sample_result"
  unfolding produce_iff sample_result_def
  using canonical_bytes_parse(3) [OF sample_valid, of 65536] read_envelope_back [OF sample_valid]
    sample_size sample_bounded
  by (intro exI [of _ "canonical_bytes sample_contents"] exI [of _ 65536]
      exI [of _ "envelope_json sample_contents"] exI [of _ sample_contents] conjI) simp_all

subsection \<open>Properties\<close>

text \<open>The canonical payload is canonical: producing the canonical result of a canonical payload
  gives the same payload, digest, size and projection again, so the digest a signed
  envelope carries identifies one payload.  The digest is the SHA-256 of the payload and the
  size its length, at most the limit.\<close>

lemma canonical_payload_fixed:
  assumes "produce_canonical_guest_scanner_result to_ascii raw m = Inr r"
  shows "produce_canonical_guest_scanner_result to_ascii (JBytes (cr_canonical_payload r)) m = Inr r \<and>
    cr_payload_digest r = payload_digest (cr_canonical_payload r) \<and>
    cr_payload_size r = int (length (cr_canonical_payload r)) \<and>
    (\<exists>n. m = JNum n \<and> cr_payload_size r \<le> n \<and> n \<le> MAX_GUEST_OUTPUT_BYTES)"
proof -
  obtain e maximum where e: "valid_envelope to_ascii e"
    "as_bounded 1 MAX_GUEST_OUTPUT_BYTES m = Some maximum"
    "int (length (canonical_bytes (sort_envelope e))) \<le> maximum"
    "r = \<lparr>cr_payload_digest = payload_digest (canonical_bytes (sort_envelope e)),
      cr_payload_size = int (length (canonical_bytes (sort_envelope e))),
      cr_projection = projection_of e, cr_canonical_payload = canonical_bytes (sort_envelope e)\<rparr>"
    using assms by (rule produced_from)
  show ?thesis
    using produce_canonical [OF e(1-3)] e(2,3) by (simp add: e(4) as_bounded_Some)
qed

text \<open>C32: the payload is determined by the validated contents alone: two outputs have the same canonical
  payload exactly when they have the same observations, findings, coverage, warnings and
  metadata, in any order.  White space, escapes, member order and the evidence of the findings make
  no difference.\<close>

theorem payload_iff_same_contents:
  assumes "produce_canonical_guest_scanner_result to_ascii raw m = Inr r"
    and "produce_canonical_guest_scanner_result to_ascii raw' m' = Inr r'"
    and "validated_contents to_ascii raw = Some e" "validated_contents to_ascii raw' = Some e'"
  shows "cr_canonical_payload r = cr_canonical_payload r' \<longleftrightarrow>
    mset (en_observations e) = mset (en_observations e') \<and>
    mset (en_findings e) = mset (en_findings e') \<and>
    mset (en_coverage e) = mset (en_coverage e') \<and>
    mset (en_warnings e) = mset (en_warnings e') \<and> en_metadata e = en_metadata e'"
proof -
  obtain e1 where e1: "validated_contents to_ascii raw = Some e1" "valid_envelope to_ascii e1"
    "cr_canonical_payload r = canonical_bytes (sort_envelope e1)"
    by (rule produced_from [OF assms(1)]) simp
  obtain e2 where e2: "validated_contents to_ascii raw' = Some e2" "valid_envelope to_ascii e2"
    "cr_canonical_payload r' = canonical_bytes (sort_envelope e2)"
    by (rule produced_from [OF assms(2)]) simp
  have valid: "valid_envelope to_ascii e" "valid_envelope to_ascii e'"
    and payload: "cr_canonical_payload r = canonical_bytes (sort_envelope e)"
      "cr_canonical_payload r' = canonical_bytes (sort_envelope e')"
    using e1 e2 assms(3,4) by simp_all
  note round = canonical_bytes_parse(1,2) [OF valid_envelope_sort [OF valid(1)]]
    canonical_bytes_parse(1,2) [OF valid_envelope_sort [OF valid(2)]]
    read_envelope_back [OF valid_envelope_sort [OF valid(1)]]
    read_envelope_back [OF valid_envelope_sort [OF valid(2)]]
  have "canonical_bytes (sort_envelope e) = canonical_bytes (sort_envelope e') \<longleftrightarrow>
      sort_envelope e = sort_envelope e'"
  proof
    assume same: "canonical_bytes (sort_envelope e) = canonical_bytes (sort_envelope e')"
    have texts: "json_text (envelope_json (sort_envelope e)) = json_text (envelope_json (sort_envelope e'))"
      using arg_cong [OF same, of decode_text] unfolding round(1,3) by (rule option.inject [THEN iffD1])
    have "envelope_json (sort_envelope e) = envelope_json (sort_envelope e')"
      using arg_cong [OF texts, of parse_json] unfolding round(2,4) by (rule option.inject [THEN iffD1])
    then show "sort_envelope e = sort_envelope e'"
      using arg_cong [of _ _ "read_envelope to_ascii"] round(5,6) by (metis option.inject)
  qed (rule arg_cong)
  then show ?thesis unfolding payload sort_envelope_unique [OF valid] .
qed

theorem payload_iff_same_contents_witness:
  "cr_canonical_payload sample_result \<noteq> [] \<and>
   (cr_canonical_payload sample_result = cr_canonical_payload sample_result \<longleftrightarrow>
    mset (en_warnings sample_contents) = mset (en_warnings sample_contents))"
proof -
  have contents: "validated_contents (\<lambda>s. s) (JBytes (canonical_bytes sample_contents)) = Some sample_contents"
    using canonical_bytes_parse(1,2) [OF sample_valid] read_envelope_back [OF sample_valid]
    by (simp add: validated_contents_def)
  have "cr_canonical_payload sample_result \<noteq> []"
    by (simp add: sample_result_def canonical_bytes_def envelope_json_def encode_text_def)
  then show ?thesis
    using payload_iff_same_contents [OF sample_produced sample_produced contents contents] by simp
qed

text \<open>C33: evidence never leaves the service: in the value of every canonical payload the evidence of each
  finding is the fixed redaction text.\<close>

theorem evidence_redacted:
  assumes "produce_canonical_guest_scanner_result to_ascii raw m = Inr r"
  shows "\<exists>v fs. Option.bind (decode_text (cr_canonical_payload r)) parse_json = Some v \<and>
    member v ''candidate_findings'' = Some (JsArr fs) \<and>
    (\<forall>f \<in> set fs. member f ''evidence'' = Some (JsStr (units GUEST_EVIDENCE_REDACTION)))"
proof -
  obtain e where e: "valid_envelope to_ascii e"
    "cr_canonical_payload r = canonical_bytes (sort_envelope e)"
    by (rule produced_from [OF assms]) simp
  define v where "v = envelope_json (sort_envelope e)"
  have "Option.bind (decode_text (cr_canonical_payload r)) parse_json = Some v"
    using canonical_bytes_parse(1,2) [OF valid_envelope_sort [OF e(1)]] by (simp add: e(2) v_def)
  moreover have "member v ''candidate_findings'' = Some (JsArr (map finding_json (en_findings (sort_envelope e))))"
    by (simp add: v_def envelope_json_def del: units_simps)
  moreover have "member (finding_json f) ''evidence'' = Some (JsStr (units GUEST_EVIDENCE_REDACTION))" for f
    by (simp add: finding_json_def del: units_simps)
  ultimately show ?thesis by auto
qed

theorem evidence_redacted_witness:
  "\<exists>v. Option.bind (decode_text (cr_canonical_payload sample_result)) parse_json = Some v"
  using evidence_redacted [OF sample_produced] by blast

text \<open>C34: a projection has the published shape: the host is canonical; every check and every
  detector group occurs at most once, in order, with values of the closed lists; the counts, the duration and
  the number of requests are within their bounds.  Nothing else of the output is in it.\<close>

theorem projection_sanitized:
  assumes "project_guest_scanner_output to_ascii raw m = Inr p"
  shows "canonicalize_hostname to_ascii (JStr (sp_canonical_host p)) = Inr (sp_canonical_host p) \<and>
    distinct (map ob_check_id (sp_posture p)) \<and>
    sorted (map (\<lambda>b. collation_key (ob_check_id b)) (sp_posture p)) \<and>
    (\<forall>b \<in> set (sp_posture p). ob_check_id b \<in> set GUEST_POSTURE_CHECKS \<and> ob_outcome b \<in> set OUTCOMES) \<and>
    distinct (map cv_detector_group (sp_coverage p)) \<and>
    sorted (map (\<lambda>c. collation_key (cv_detector_group c)) (sp_coverage p)) \<and>
    sp_coverage p \<noteq> [] \<and>
    (\<forall>c \<in> set (sp_coverage p). cv_detector_group c \<in> set GUEST_COVERAGE_GROUPS \<and>
      cv_execution_status c \<in> set EXECUTION_STATUSES \<and> cv_completeness c \<in> set COMPLETENESS) \<and>
    0 \<le> sp_potential_risk_count p \<and> sp_potential_risk_count p \<le> 256 \<and>
    0 \<le> sp_warning_count p \<and> sp_warning_count p \<le> 32 \<and>
    0 \<le> sp_duration_ms p \<and> sp_duration_ms p \<le> 30000 \<and>
    0 \<le> sp_request_count p \<and> sp_request_count p \<le> 40"
proof -
  obtain v where "project_envelope to_ascii v = Some p"
    using assms by (auto simp: project_guest_scanner_output_def Option.bind_eq_Some_conv
        split: option.splits if_splits)
  then obtain e where e: "read_envelope to_ascii v = Some e" "p = projection_of e"
    by (auto simp: project_envelope_eq)
  have valid: "valid_envelope to_ascii e" by (rule read_envelope_valid [OF e(1)])
  have "length (remdups (map fd_fingerprint (en_findings e))) \<le> 256"
    using valid length_remdups_leq [of "map fd_fingerprint (en_findings e)"]
    by (simp add: valid_envelope_def MAX_FINDINGS_def)
  moreover have "sort_key f xs \<noteq> []" if "xs \<noteq> []" for f :: "'a \<Rightarrow> nat list" and xs
    using that by (metis length_0_conv length_sort)
  ultimately show ?thesis
    using valid
    by (auto simp: e(2) projection_of_def valid_envelope_def valid_items valid_metadata_triple_def
        distinct_map MAX_WARNINGS_def split: prod.splits)
qed

theorem projection_sanitized_witness:
  "sp_posture (projection_of sample_contents) \<noteq> [] \<and>
   sorted (map (\<lambda>b. collation_key (ob_check_id b)) (sp_posture (projection_of sample_contents)))"
proof -
  have "project_guest_scanner_output (\<lambda>s. s) (JBytes (canonical_bytes sample_contents)) (JNum 65536) =
      Inr (projection_of sample_contents)"
    using canonical_bytes_parse(3) [OF sample_valid, of 65536] read_envelope_back [OF sample_valid]
      sample_size sample_bounded
    by (simp add: project_guest_scanner_output_def project_envelope_eq)
  from projection_sanitized [OF this] show ?thesis
    by (simp add: projection_of_def sample_contents_def)
qed

end
