(* ===== verification/Iso_Date.thy ===== *)
theory Iso_Date
  imports Decimal
begin

section \<open>Dates in the form of ISO 8601\<close>

text \<open>
  \<^verbatim>\<open>new Date(seconds * 1000).toISOString()\<close> for the years 1970 to 9999, and
  \<^verbatim>\<open>Date.parse\<close> on texts of that form, with the calendar of ECMAScript: the
  year of a day is the last one that does not begin after it.
\<close>

definition MAX_UNIX_SECONDS_FOR_ISO :: int where
  "MAX_UNIX_SECONDS_FOR_ISO = 253402300799"

subsection \<open>The calendar\<close>

definition day_from_year :: "int \<Rightarrow> int" where
  "day_from_year y =
     365 * (y - 1970) + (y - 1969) div 4 - (y - 1901) div 100 + (y - 1601) div 400"

definition days_in_year :: "int \<Rightarrow> int" where
  "days_in_year y =
     (if y mod 4 = 0 \<and> (y mod 100 \<noteq> 0 \<or> y mod 400 = 0) then 366 else 365)"

lemma div_step:
  fixes a n k :: int
  assumes "0 < n" "c = n * k + 1"
  shows "(a + 1 - c) div n = (a - c) div n + (if a mod n = 0 then 1 else 0)"
proof -
  have a: "a = n * (a div n) + a mod n" "0 \<le> a mod n" "a mod n < n" using assms(1) by simp_all
  have "(a + 1 - c) div n = a div n - k"
    by (rule int_div_pos_eq [where r = "a mod n"]) (use a assms(2) in \<open>auto simp: algebra_simps\<close>)
  moreover have "(a - c) div n = a div n - k - (if a mod n = 0 then 1 else 0)"
  proof (cases "a mod n = 0")
    case True
    show ?thesis
      by (rule int_div_pos_eq [where r = "n - 1"]) (use a assms True in \<open>auto simp: algebra_simps\<close>)
  next
    case False
    then have "1 \<le> a mod n" using a(2) by linarith
    then show ?thesis
      using a assms(2) False by (intro int_div_pos_eq [where r = "a mod n - 1"]) (simp_all add: algebra_simps)
  qed
  ultimately show ?thesis by simp
qed

lemma day_from_next_year: "day_from_year (y + 1) = day_from_year y + days_in_year y"
proof -
  define p q r :: int where "p = (if y mod 4 = 0 then 1 else 0)" and "q = (if y mod 100 = 0 then 1 else 0)"
    and "r = (if y mod 400 = 0 then 1 else 0)"
  define a b c where "a = (y - 1969) div 4" and "b = (y - 1901) div 100" and "c = (y - 1601) div 400"
  have "(y + 1 - 1969) div 4 = a + p" "(y + 1 - 1901) div 100 = b + q" "(y + 1 - 1601) div 400 = c + r"
    unfolding p_def q_def r_def a_def b_def c_def
    by (rule div_step [where k = 492], simp, simp, rule div_step [where k = 19], simp, simp,
        rule div_step [where k = 4], simp, simp)
  then have next_year: "day_from_year (y + 1) = 365 * (y + 1 - 1970) + (a + p) - (b + q) + (c + r)"
    unfolding day_from_year_def by metis
  have this_year: "day_from_year y = 365 * (y - 1970) + a - b + c"
    unfolding day_from_year_def a_def b_def c_def by (rule refl)
  have "y mod 400 = 0 \<Longrightarrow> y mod 100 = 0" "y mod 100 = 0 \<Longrightarrow> y mod 4 = 0"
    using mod_mod_cancel [of 100 400 y] mod_mod_cancel [of 4 100 y] by simp_all
  then have "days_in_year y = 365 + p - q + r"
    unfolding days_in_year_def p_def q_def r_def
    by (cases "y mod 4 = 0"; cases "y mod 100 = 0"; cases "y mod 400 = 0") simp_all
  then show ?thesis unfolding next_year this_year by simp
qed

lemma days_in_year_bounds: "365 \<le> days_in_year y" "days_in_year y \<le> 366"
  by (simp_all add: days_in_year_def)

function year_from :: "int \<Rightarrow> int \<Rightarrow> int" where
  "year_from y d = (if day_from_year (y + 1) \<le> d then year_from (y + 1) d else y)"
  by auto
termination
proof (relation "measure (\<lambda>(y, d). nat (d - day_from_year y))")
  fix y d
  assume "day_from_year (y + 1) \<le> d"
  then show "((y + 1, d), (y, d)) \<in> measure (\<lambda>(y, d). nat (d - day_from_year y))"
    using day_from_next_year [of y] days_in_year_bounds [of y] by simp
qed simp

declare year_from.simps [simp del]

lemma day_from_year_mono: "y \<le> z \<Longrightarrow> day_from_year y + 365 * (z - y) \<le> day_from_year z"
proof (induction z rule: int_ge_induct)
  case (step z)
  then show ?case using day_from_next_year [of z] days_in_year_bounds [of z] by simp
qed simp

lemma year_from_bounds:
  "day_from_year y \<le> d \<Longrightarrow>
   day_from_year (year_from y d) \<le> d \<and> d < day_from_year (year_from y d + 1) \<and> y \<le> year_from y d"
proof (induction y d rule: year_from.induct)
  case (1 y d)
  show ?case
    by (subst (1 2 3) year_from.simps) (use 1 in auto)
qed

definition month_lengths :: "int \<Rightarrow> int list" where
  "month_lengths y = [31, if days_in_year y = 366 then 29 else 28, 31, 30, 31, 30, 31, 31, 30, 31, 30, 31]"

fun month_and_day :: "int \<Rightarrow> int \<Rightarrow> int list \<Rightarrow> int \<times> int" where
  "month_and_day m d [] = (m, d + 1)"
| "month_and_day m d (n # ns) = (if d < n then (m, d + 1) else month_and_day (m + 1) (d - n) ns)"

text \<open>Year, month and day of the day with this number since the first of January 1970.\<close>

definition civil :: "int \<Rightarrow> int \<times> int \<times> int" where
  "civil d =
     (let y = year_from (1970 + d div 366) d
      in (y, month_and_day 1 (d - day_from_year y) (month_lengths y)))"

definition day_number :: "int \<Rightarrow> int \<Rightarrow> int \<Rightarrow> int" where
  "day_number y m d = day_from_year y + sum_list (take (nat (m - 1)) (month_lengths y)) + (d - 1)"

lemma month_and_day_sum:
  assumes "month_and_day m d ns = (m', d')" "0 \<le> d" "d < sum_list ns"
  shows "m \<le> m' \<and> m' < m + int (length ns) \<and> 1 \<le> d' \<and>
    d' \<le> ns ! nat (m' - m) \<and> sum_list (take (nat (m' - m)) ns) + (d' - 1) = d"
  using assms
proof (induction ns arbitrary: m d)
  case (Cons n ns)
  show ?case
  proof (cases "d < n")
    case False
    with Cons.prems have "month_and_day (m + 1) (d - n) ns = (m', d')" "0 \<le> d - n" "d - n < sum_list ns"
      by simp_all
    from Cons.IH [OF this]
    have ih: "m + 1 \<le> m'" "m' < m + 1 + int (length ns)" "1 \<le> d'"
      "d' \<le> ns ! nat (m' - (m + 1))"
      "sum_list (take (nat (m' - (m + 1))) ns) + (d' - 1) = d - n" by simp_all
    then have "nat (m' - m) = Suc (nat (m' - (m + 1)))" by simp
    with ih show ?thesis by simp
  qed (use Cons.prems in auto)
qed simp

lemma sum_month_lengths: "sum_list (month_lengths y) = days_in_year y"
  by (simp add: month_lengths_def days_in_year_def)

lemma length_month_lengths: "length (month_lengths y) = 12"
  by (simp add: month_lengths_def)

lemma first_guess: assumes "0 \<le> d" shows "day_from_year (1970 + d div 366) \<le> d"
proof -
  define q where "q = d div 366"
  have q: "0 \<le> q" "366 * q \<le> d" using assms by (simp_all add: q_def pos_imp_zdiv_nonneg_iff)
  have parts: "4 * ((q + 1) div 4) \<le> q + 1" "400 * ((q + 369) div 400) \<le> q + 369"
    "q + 69 < 100 * ((q + 69) div 100) + 100" "0 \<le> (q + 69) div 100"
    using q(1) by (simp_all add: pos_imp_zdiv_nonneg_iff)
  then have "4 * ((q + 369) div 400) \<le> (q + 69) div 100 + 3" by linarith
  then have "(q + 369) div 400 \<le> (q + 69) div 100" using parts(4) by linarith
  moreover have "(q + 1) div 4 \<le> q" using parts(1) q(1) by linarith
  ultimately show ?thesis using q(2) by (simp add: day_from_year_def q_def [symmetric] algebra_simps)
qed

lemma civil_day:
  assumes "0 \<le> d" "d \<le> 2932896" "civil d = (y, m, k)"
  shows "day_number y m k = d" "1970 \<le> y" "y \<le> 9999" "1 \<le> m" "m \<le> 12" "1 \<le> k"
    "k \<le> month_lengths y ! nat (m - 1)"
proof -
  let ?y = "year_from (1970 + d div 366) d"
  have "day_from_year (1970 + d div 366) \<le> d" using assms(1) by (rule first_guess)
  from year_from_bounds [OF this]
  have y: "day_from_year ?y \<le> d" "d < day_from_year ?y + days_in_year ?y" "1970 + d div 366 \<le> ?y"
    by (simp_all add: day_from_next_year)
  have "?y = y \<and> month_and_day 1 (d - day_from_year ?y) (month_lengths ?y) = (m, k)"
    using assms(3) unfolding civil_def Let_def prod.inject .
  then have md: "month_and_day 1 (d - day_from_year ?y) (month_lengths ?y) = (m, k)" and eq: "?y = y"
    by (rule conjunct2, rule conjunct1)
  have "y = ?y" using eq by (rule sym)
  show "1970 \<le> y" using y(3) assms(1) by (simp add: \<open>y = ?y\<close> pos_imp_zdiv_nonneg_iff)
  show "y \<le> 9999"
  proof (rule ccontr)
    assume "\<not> y \<le> 9999"
    then have "day_from_year 10000 \<le> day_from_year y"
      using day_from_year_mono [of 10000 y] by simp
    with y(1) assms(2) show False by (simp add: \<open>y = ?y\<close> day_from_year_def [of 10000])
  qed
  from month_and_day_sum [OF md] y(1,2)
  have "1 \<le> m \<and> m < 13 \<and> 1 \<le> k \<and> k \<le> month_lengths ?y ! nat (m - 1) \<and>
      sum_list (take (nat (m - 1)) (month_lengths ?y)) + (k - 1) = d - day_from_year ?y"
    by (simp add: sum_month_lengths length_month_lengths)
  then show "day_number y m k = d" "1 \<le> m" "m \<le> 12" "1 \<le> k" "k \<le> month_lengths y ! nat (m - 1)"
    by (simp_all add: day_number_def \<open>y = ?y\<close>)
qed

subsection \<open>The text\<close>

fun padded :: "nat \<Rightarrow> int \<Rightarrow> string" where
  "padded 0 n = []"
| "padded (Suc k) n = padded k (n div 10) @ [hex_digit (nat (n mod 10))]"

definition iso_date :: "int \<Rightarrow> string" where
  "iso_date seconds =
     (case civil (seconds div 86400) of (y, m, d) \<Rightarrow>
        padded 4 y @ ''-'' @ padded 2 m @ ''-'' @ padded 2 d @ ''T'' @
        padded 2 (seconds div 3600 mod 24) @ '':'' @ padded 2 (seconds div 60 mod 60) @ '':'' @
        padded 2 (seconds mod 60) @ ''.000Z'')"

text \<open>A field of digits within bounds.\<close>

definition field :: "int \<Rightarrow> int \<Rightarrow> string \<Rightarrow> int option" where
  "field lo hi s =
     (if list_all is_digit s \<and> lo \<le> digits_value 10 s \<and> digits_value 10 s \<le> hi
      then Some (digits_value 10 s) else None)"

definition slice :: "nat \<Rightarrow> nat \<Rightarrow> 'a list \<Rightarrow> 'a list" where
  "slice i n xs = take n (drop i xs)"

text \<open>The milliseconds of a text of the form \<^verbatim>\<open>YYYY-MM-DDTHH:mm:ss.sssZ\<close>.\<close>

definition parse_iso :: "string \<Rightarrow> int option" where
  "parse_iso s =
     do {
       require (length s = 24 \<and> slice 4 1 s = ''-'' \<and> slice 7 1 s = ''-'' \<and> slice 10 1 s = ''T'' \<and>
         slice 13 1 s = '':'' \<and> slice 16 1 s = '':'' \<and> slice 19 1 s = ''.'' \<and> slice 23 1 s = ''Z'');
       y \<leftarrow> field 0 9999 (slice 0 4 s);
       m \<leftarrow> field 1 12 (slice 5 2 s);
       d \<leftarrow> field 1 (month_lengths y ! nat (m - 1)) (slice 8 2 s);
       hour \<leftarrow> field 0 23 (slice 11 2 s);
       minute \<leftarrow> field 0 59 (slice 14 2 s);
       second \<leftarrow> field 0 59 (slice 17 2 s);
       millisecond \<leftarrow> field 0 999 (slice 20 3 s);
       Some ((day_number y m d * 86400 + hour * 3600 + minute * 60 + second) * 1000 + millisecond)
     }"

lemma length_padded [simp]: "length (padded k n) = k"
  by (induction k arbitrary: n) simp_all

lemma padded_digits: "list_all is_digit (padded k n)"
proof (induction k arbitrary: n)
  case (Suc k)
  have "nat (n mod 10) < 10" by simp
  then show ?case using Suc hex_digit_chars(3) [of "nat (n mod 10)"] by simp
qed simp

lemma padded_value: "0 \<le> n \<Longrightarrow> n < 10 ^ k \<Longrightarrow> digits_value 10 (padded k n) = n"
proof (induction k arbitrary: n)
  case (Suc k)
  have "n div 10 < 10 ^ k" using Suc.prems by (simp add: div_less_iff_less_mult mult.commute)
  then have "digits_value 10 (padded k (n div 10)) = n div 10"
    using Suc by (simp add: pos_imp_zdiv_nonneg_iff)
  moreover have "nat (n mod 10) < 16" by simp
  ultimately show ?case by (simp add: digits_value_snoc hex_digit_props(2))
qed (simp add: digits_value_def)

lemma field_padded:
  "lo \<le> n \<Longrightarrow> n \<le> hi \<Longrightarrow> 0 \<le> n \<Longrightarrow> n < 10 ^ k \<Longrightarrow> field lo hi (padded k n) = Some n"
  by (simp add: field_def padded_digits padded_value)

lemma month_length_bound:
  assumes "1 \<le> m" "m \<le> 12" shows "month_lengths y ! nat (m - 1) \<le> 31"
proof -
  have "nat (m - 1) < length (month_lengths y)" using assms by (simp add: length_month_lengths)
  then have "month_lengths y ! nat (m - 1) \<in> set (month_lengths y)" by (rule nth_mem)
  then show ?thesis by (auto simp: month_lengths_def split: if_splits)
qed

lemma parse_iso_date:
  assumes "0 \<le> s" "s \<le> MAX_UNIX_SECONDS_FOR_ISO"
  shows "parse_iso (iso_date s) = Some (s * 1000)"
proof -
  obtain y m d where c: "civil (s div 86400) = (y, m, d)" by (cases "civil (s div 86400)")
  have day: "0 \<le> s div 86400" "s div 86400 \<le> 2932896"
    using assms by (simp_all add: MAX_UNIX_SECONDS_FOR_ISO_def pos_imp_zdiv_nonneg_iff)
  note civil = civil_day [OF day c]
  have k: "d \<le> 31" using civil(7) month_length_bound [OF civil(4,5), of y] by simp
  have zero: "''000'' = padded 3 0" by code_simp
  let ?t = "iso_date s"
  have t: "?t = padded 4 y @ CHR ''-'' # padded 2 m @ CHR ''-'' # padded 2 d @ CHR ''T'' #
      padded 2 (s div 3600 mod 24) @ CHR '':'' # padded 2 (s div 60 mod 60) @ CHR '':'' #
      padded 2 (s mod 60) @ CHR ''.'' # padded 3 0 @ ''Z''"
    by (simp add: iso_date_def c zero [symmetric])
  have slices: "length ?t = 24" "slice 4 1 ?t = ''-''" "slice 7 1 ?t = ''-''" "slice 10 1 ?t = ''T''"
    "slice 13 1 ?t = '':''" "slice 16 1 ?t = '':''" "slice 19 1 ?t = ''.''" "slice 23 1 ?t = ''Z''"
    "slice 0 4 ?t = padded 4 y" "slice 5 2 ?t = padded 2 m" "slice 8 2 ?t = padded 2 d"
    "slice 11 2 ?t = padded 2 (s div 3600 mod 24)" "slice 14 2 ?t = padded 2 (s div 60 mod 60)"
    "slice 17 2 ?t = padded 2 (s mod 60)" "slice 20 3 ?t = padded 3 0"
    unfolding t by (simp_all add: slice_def del: padded.simps)
  have fields: "field 0 9999 (padded 4 y) = Some y" "field 1 12 (padded 2 m) = Some m"
    "field 1 (month_lengths y ! nat (m - 1)) (padded 2 d) = Some d"
    "field 0 23 (padded 2 (s div 3600 mod 24)) = Some (s div 3600 mod 24)"
    "field 0 59 (padded 2 (s div 60 mod 60)) = Some (s div 60 mod 60)"
    "field 0 59 (padded 2 (s mod 60)) = Some (s mod 60)" "field 0 999 (padded 3 0) = Some 0"
    using civil k
    by (auto intro!: field_padded intro: less_imp_le pos_mod_bound
        simp: less_le_trans [OF pos_mod_bound] zle_diff1_eq [symmetric])
  have parts: "(s div 86400) * 86400 + (s div 3600 mod 24) * 3600 + (s div 60 mod 60) * 60 + s mod 60 = s"
  proof -
    have "s div 3600 = s div 60 div 60" "s div 86400 = s div 3600 div 24"
      using zdiv_zmult2_eq [of 60 s 60] zdiv_zmult2_eq [of 24 s 3600] by simp_all
    then show ?thesis
      using div_mult_mod_eq [of s 60] div_mult_mod_eq [of "s div 60" 60]
        div_mult_mod_eq [of "s div 3600" 24] by linarith
  qed
  show ?thesis
    by (simp only: parse_iso_def slices fields civil(1) parts require_simps simp_thms Option.bind.simps) simp
qed

lemma length_iso_date: "length (iso_date s) = 24"
  by (cases "civil (s div 86400)") (simp add: iso_date_def del: padded.simps)

end
