(* ===== verification/Guest_Token.thy ===== *)
theory Guest_Token
  imports Digests
begin

section \<open>Guest result tokens\<close>

text \<open>
  Models \<^verbatim>\<open>apps/api/src/guest-crypto/result-token.ts\<close>: the bearer token of a
  guest scan is the HMAC of the scan's token metadata, so the server derives it
  again instead of storing it.  Bigints are integers in the 64-bit range the
  code checks; a key ring whose \<^verbatim>\<open>get\<close> throws answers like one without the
  key.
\<close>

record token_metadata =
  tm_guest_scan_id :: string
  tm_token_version :: int
  tm_token_nonce :: bytes
  tm_key_version :: int
  tm_access_expires_at :: int
  tm_access_revoked_at :: "int option"

definition TOKEN_DOMAIN :: bytes where
  "TOKEN_DOMAIN = ascii_bytes ''OUTSCAN:GUEST_RESULT_TOKEN:v1'' @ [0]"

definition METADATA_KEYS :: "string list" where
  "METADATA_KEYS = [''guest_scan_id'', ''token_version'', ''token_nonce'', ''key_version'',
     ''result_access_expires_at_unix_seconds'', ''result_access_revoked_at_unix_seconds'']"

definition is_valid_key :: "bytes \<Rightarrow> bool" where
  "is_valid_key key \<longleftrightarrow> 32 \<le> length key"

definition is_u64 :: "int \<Rightarrow> bool" where
  "is_u64 n \<longleftrightarrow> 0 \<le> n \<and> n \<le> UINT64_MAX"

fun read_revocation :: "jsval \<Rightarrow> int option option" where
  "read_revocation JNull = Some None"
| "read_revocation v = map_option Some (as_u64 v)"

definition snapshot_guest_result_token_metadata :: "jsval \<Rightarrow> token_metadata option" where
  "snapshot_guest_result_token_metadata v =
     do {
       require (exact_object v METADATA_KEYS);
       scan \<leftarrow> as_str_matching (\<lambda>s. 1 \<le> length (utf8 s) \<and> length (utf8 s) \<le> 512)
         (get_prop v ''guest_scan_id'');
       version \<leftarrow> as_u64 (get_prop v ''token_version'');
       nonce \<leftarrow> as_bytes (get_prop v ''token_nonce'');
       require (length nonce = 32);
       key_version \<leftarrow> as_bounded 0 UINT32_MAX (get_prop v ''key_version'');
       expires \<leftarrow> as_u64 (get_prop v ''result_access_expires_at_unix_seconds'');
       revoked \<leftarrow> read_revocation (get_prop v ''result_access_revoked_at_unix_seconds'');
       Some \<lparr>tm_guest_scan_id = scan, tm_token_version = version, tm_token_nonce = nonce,
         tm_key_version = key_version, tm_access_expires_at = expires,
         tm_access_revoked_at = revoked\<rparr>
     }"

text \<open>The object form of typed metadata, as the callers build it.\<close>

definition metadata_object :: "token_metadata \<Rightarrow> jsval" where
  "metadata_object m =
     JObj [(''guest_scan_id'', JStr (tm_guest_scan_id m)),
       (''token_version'', JBig (tm_token_version m)),
       (''token_nonce'', JBytes (tm_token_nonce m)),
       (''key_version'', JNum (tm_key_version m)),
       (''result_access_expires_at_unix_seconds'', JBig (tm_access_expires_at m)),
       (''result_access_revoked_at_unix_seconds'',
         case tm_access_revoked_at m of None \<Rightarrow> JNull | Some t \<Rightarrow> JBig t)]"

text \<open>\<open>None\<close> is the \<^verbatim>\<open>RangeError\<close>.\<close>

definition encode_guest_result_token_message :: "token_metadata \<Rightarrow> bytes option" where
  "encode_guest_result_token_message m =
     (let scan_id = utf8 (tm_guest_scan_id m)
      in if length scan_id = 0 \<or> length scan_id > 512 \<or> length (tm_token_nonce m) \<noteq> 32 then None
         else do {
           scan \<leftarrow> length_prefix scan_id;
           version \<leftarrow> u64be (tm_token_version m);
           nonce \<leftarrow> length_prefix (tm_token_nonce m);
           expires \<leftarrow> u64be (tm_access_expires_at m);
           Some (TOKEN_DOMAIN @ scan @ version @ nonce @ expires)
         })"

definition derive_guest_result_token :: "token_metadata \<Rightarrow> bytes \<Rightarrow> string option" where
  "derive_guest_result_token m key =
     (if \<not> is_valid_key key then None
      else case snapshot_guest_result_token_metadata (metadata_object m) of
             None \<Rightarrow> None
           | Some snapshot \<Rightarrow>
               map_option (\<lambda>message. encode_base64url (hmac_sha256 key message))
                 (encode_guest_result_token_message snapshot))"

definition verify_guest_result_token ::
  "jsval \<Rightarrow> jsval \<Rightarrow> (int \<Rightarrow> bytes option) \<Rightarrow> jsval \<Rightarrow> bool" where
  "verify_guest_result_token supplied_token metadata keyring now =
     (case (as_str_matching (\<lambda>t. length t = 43) supplied_token,
            snapshot_guest_result_token_metadata metadata, as_u64 now) of
        (Some token, Some snapshot, Some n) \<Rightarrow>
          if tm_access_revoked_at snapshot \<noteq> None \<or> n \<ge> tm_access_expires_at snapshot then False
          else (case (decode_canonical_base64url token, keyring (tm_key_version snapshot)) of
                  (Some supplied, Some key) \<Rightarrow>
                    if length supplied \<noteq> 32 \<or> \<not> is_valid_key key then False
                    else (case derive_guest_result_token snapshot key of
                            None \<Rightarrow> False
                          | Some expected \<Rightarrow> supplied = decode_base64url expected)
                | _ \<Rightarrow> False)
      | _ \<Rightarrow> False)"

subsection \<open>Well-formed metadata\<close>

definition valid_metadata :: "token_metadata \<Rightarrow> bool" where
  "valid_metadata m \<longleftrightarrow>
     1 \<le> length (utf8 (tm_guest_scan_id m)) \<and> length (utf8 (tm_guest_scan_id m)) \<le> 512 \<and>
     is_u64 (tm_token_version m) \<and> length (tm_token_nonce m) = 32 \<and>
     fits_u32 (tm_key_version m) \<and> is_u64 (tm_access_expires_at m) \<and>
     (case tm_access_revoked_at m of None \<Rightarrow> True | Some t \<Rightarrow> is_u64 t)"

definition token_message :: "token_metadata \<Rightarrow> bytes" where
  "token_message m =
     TOKEN_DOMAIN @ prefixed (utf8 (tm_guest_scan_id m)) @ be_bytes 8 (tm_token_version m) @
     prefixed (tm_token_nonce m) @ be_bytes 8 (tm_access_expires_at m)"

lemma read_revocation_Some:
  "read_revocation v = Some r \<longleftrightarrow>
     (r = None \<and> v = JNull) \<or> (\<exists>t. r = Some t \<and> v = JBig t \<and> is_u64 t)"
  by (cases v) (auto simp: is_u64_def)

lemma snapshot_metadata_valid:
  "snapshot_guest_result_token_metadata v = Some m \<Longrightarrow> valid_metadata m"
  by (auto simp: snapshot_guest_result_token_metadata_def valid_metadata_def guard_simps
      Option.bind_eq_Some_conv read_revocation_Some is_u64_def fits_u32_def split: option.splits)

lemma snapshot_metadata_object:
  "snapshot_guest_result_token_metadata (metadata_object m) =
     (if valid_metadata m then Some m else None)"
proof (cases "valid_metadata m")
  case True
  then show ?thesis
    by (cases "tm_access_revoked_at m")
      (auto simp: snapshot_guest_result_token_metadata_def metadata_object_def exact_object_def
        METADATA_KEYS_def as_str_matching_def as_bounded_def valid_metadata_def is_u64_def
        fits_u32_def safe_int_def UINT32_MAX_def MAX_SAFE_INTEGER_def)
next
  case False
  have "snapshot_guest_result_token_metadata (metadata_object m) = Some k \<Longrightarrow> k = m" for k
    by (auto simp: snapshot_guest_result_token_metadata_def metadata_object_def guard_simps
        Option.bind_eq_Some_conv read_revocation_Some split: option.splits if_splits)
  then show ?thesis using False snapshot_metadata_valid
    by (cases "snapshot_guest_result_token_metadata (metadata_object m)") force+
qed

lemma fits_u64_is_u64: "fits_u64 n \<longleftrightarrow> is_u64 n"
  by (simp add: fits_u64_def is_u64_def)

lemma metadata_prefixable:
  assumes "valid_metadata m"
  shows "prefixable (utf8 (tm_guest_scan_id m))" "prefixable (tm_token_nonce m)"
  using assms by (simp_all add: valid_metadata_def prefixable_def UINT32_MAX_def)

lemma encode_token_message_valid:
  assumes "valid_metadata m"
  shows "encode_guest_result_token_message m = Some (token_message m)"
proof -
  have "length_prefix (utf8 (tm_guest_scan_id m)) = Some (prefixed (utf8 (tm_guest_scan_id m)))"
    "length_prefix (tm_token_nonce m) = Some (prefixed (tm_token_nonce m))"
    "u64be (tm_token_version m) = Some (be_bytes 8 (tm_token_version m))"
    "u64be (tm_access_expires_at m) = Some (be_bytes 8 (tm_access_expires_at m))"
    using assms metadata_prefixable [OF assms]
    by (simp_all add: length_prefix_Some u64be_Some fits_u64_is_u64 valid_metadata_def)
  then show ?thesis
    using assms
    by (auto simp: encode_guest_result_token_message_def token_message_def valid_metadata_def
        Let_def)
qed

lemma token_message_injective:
  assumes "valid_metadata m" "valid_metadata k" "token_message m = token_message k"
  shows "tm_guest_scan_id m = tm_guest_scan_id k \<and> tm_token_version m = tm_token_version k \<and>
    tm_token_nonce m = tm_token_nonce k \<and> tm_access_expires_at m = tm_access_expires_at k"
  using assms(3) metadata_prefixable [OF assms(1)] metadata_prefixable [OF assms(2)] assms(1,2)
  by (simp add: token_message_def length_prefixed.append_eq length_prefixed.injective u64.injective
      fits_u64_is_u64 valid_metadata_def utf8_inj)

lemma derive_token_eq:
  "derive_guest_result_token m key =
     (if is_valid_key key \<and> valid_metadata m
      then Some (encode_base64url (hmac_sha256 key (token_message m))) else None)"
  by (simp add: derive_guest_result_token_def snapshot_metadata_object encode_token_message_valid)

lemma hmac_nonempty [simp]: "hmac_sha256 key m \<noteq> []"
  using hmac_sha256_length [of key m] by (metis list.size(3) zero_neq_numeral)

lemma verify_token_iff:
  "verify_guest_result_token (JStr token) metadata keyring (JBig now) \<longleftrightarrow>
     (\<exists>m key. snapshot_guest_result_token_metadata metadata = Some m \<and> is_u64 now \<and>
        tm_access_revoked_at m = None \<and> now < tm_access_expires_at m \<and>
        keyring (tm_key_version m) = Some key \<and>
        derive_guest_result_token m key = Some token)"
proof (cases "snapshot_guest_result_token_metadata metadata")
  case None
  then show ?thesis by (simp add: verify_guest_result_token_def split: option.splits)
next
  case (Some m)
  note valid = snapshot_metadata_valid [OF Some]
  show ?thesis
  proof (cases "keyring (tm_key_version m)")
    case None
    with Some show ?thesis
      by (auto simp: verify_guest_result_token_def split: option.splits)
  next
    case key: (Some key)
    let ?mac = "hmac_sha256 key (token_message m)"
    have token: "decode_canonical_base64url token = Some ?mac \<longleftrightarrow> token = encode_base64url ?mac"
      by (auto simp: decode_canonical_Some)
    show ?thesis
      using Some key valid token
      by (cases "decode_canonical_base64url token")
        (auto simp: verify_guest_result_token_def derive_token_eq decode_encode_base64url
          as_str_matching_def is_u64_def length_encode_base64url decode_canonical_Some
          split: option.splits if_splits)
  qed
qed

lemma verify_token_shape:
  "verify_guest_result_token supplied metadata keyring now \<Longrightarrow>
     \<exists>token n. supplied = JStr token \<and> now = JBig n"
  by (cases supplied; cases now)
    (auto simp: verify_guest_result_token_def as_str_matching_def split: option.splits)

subsection \<open>Properties\<close>

definition sample_metadata :: token_metadata where
  "sample_metadata =
     \<lparr>tm_guest_scan_id = ''scan-1'', tm_token_version = 1, tm_token_nonce = replicate 32 5,
      tm_key_version = 3, tm_access_expires_at = 2800, tm_access_revoked_at = None\<rparr>"

lemma sample_metadata_valid: "valid_metadata sample_metadata"
  by (simp add: sample_metadata_def valid_metadata_def is_u64_def UINT64_MAX_def fits_u32_def
      UINT32_MAX_def utf8_def utf8_char_def code_of_def)

text \<open>A result token opens a scan exactly while it may: for stored metadata and a
  key in the ring, a text verifies if and only if it is the text the server
  derives for this scan, the access window has not ended and access has not
  been revoked.  In particular every token the server hands out verifies until
  then.\<close>

lemma result_token_verifies_iff:
  assumes "valid_metadata m" "keyring (tm_key_version m) = Some key" "is_valid_key key"
    and "is_u64 now"
  shows "verify_guest_result_token (JStr token) (metadata_object m) keyring (JBig now) \<longleftrightarrow>
    derive_guest_result_token m key = Some token \<and>
    tm_access_revoked_at m = None \<and> now < tm_access_expires_at m"
  using assms by (auto simp: verify_token_iff snapshot_metadata_object)

text \<open>A token belongs to one scan: if the same text is derived under one key for two
  sets of metadata, they name the same scan, token version, nonce and expiry,
  unless their two messages are a collision of HMAC-SHA-256.\<close>

lemma result_token_binds_scan:
  assumes "derive_guest_result_token m key = Some token"
    and "derive_guest_result_token k key = Some token"
  shows "(tm_guest_scan_id m = tm_guest_scan_id k \<and> tm_token_version m = tm_token_version k \<and>
      tm_token_nonce m = tm_token_nonce k \<and> tm_access_expires_at m = tm_access_expires_at k) \<or>
    (token_message m \<noteq> token_message k \<and>
      hmac_sha256 key (token_message m) = hmac_sha256 key (token_message k))"
  using assms token_message_injective [of m k] by (auto simp: derive_token_eq split: if_splits)

end
