(* ===== verification/Guest_Result_View.thy ===== *)
theory Guest_Result_View
  imports Canonical_Output Iso_Date Guest_Token
begin

section \<open>The result a guest sees\<close>

text \<open>
  Models \<^verbatim>\<open>apps/api/src/guest-result/view.ts\<close>, which turns a stored projection into
  the public view of a result; \<^verbatim>\<open>guest-crypto/guest-result-http.ts\<close>, which decides
  who may see it; and \<^verbatim>\<open>guest-http/result-projection.ts\<close>, which rebuilds a decision
  before it is sent.  Views are records; \<open>view_object\<close> is the object the code returns.
\<close>

subsection \<open>Access\<close>

definition MAX_RESULT_WINDOW_SECONDS :: int where "MAX_RESULT_WINDOW_SECONDS = 1800"

record result_access =
  ra_guest_scan_id :: string
  ra_access_expires_at :: int
  ra_token_expires_in :: int

datatype result_read_fail = INVALID_RESULT_REQUEST | RESULT_ACCESS_DENIED

record access_request =
  aq_authorization_header :: jsval
  aq_route_guest_scan_id :: string
  aq_now :: int

definition ACCESS_REQUEST_KEYS :: "string list" where
  "ACCESS_REQUEST_KEYS = [''authorization_header'', ''route_guest_scan_id'', ''query'', ''now_unix_seconds'']"

definition empty_query :: "jsval \<Rightarrow> bool" where
  "empty_query v \<longleftrightarrow> v = JObj []"

definition parse_access_request :: "jsval \<Rightarrow> access_request option" where
  "parse_access_request v =
     do {
       require (exact_object v ACCESS_REQUEST_KEYS);
       route \<leftarrow> as_str_matching (\<lambda>s. 1 \<le> length (utf8 s) \<and> length (utf8 s) \<le> 512)
         (get_prop v ''route_guest_scan_id'');
       require (empty_query (get_prop v ''query''));
       now \<leftarrow> as_u64 (get_prop v ''now_unix_seconds'');
       Some \<lparr>aq_authorization_header = get_prop v ''authorization_header'',
         aq_route_guest_scan_id = route, aq_now = now\<rparr>
     }"

definition access_request_object :: "access_request \<Rightarrow> jsval" where
  "access_request_object q =
     JObj [(''authorization_header'', aq_authorization_header q),
       (''route_guest_scan_id'', JStr (aq_route_guest_scan_id q)), (''query'', JObj []),
       (''now_unix_seconds'', JBig (aq_now q))]"

text \<open>
  \<^verbatim>\<open>/^Bearer ([A-Za-z0-9_-]{43})$/iu\<close>.  The flag \<^verbatim>\<open>i\<close> with \<^verbatim>\<open>u\<close> also lets U+017F and
  U+212A match, which are not below 256.
\<close>

definition bearer_token :: "string \<Rightarrow> string option" where
  "bearer_token header =
     (if js_lower (take 7 header) = ''bearer '' \<and> length header = 50 \<and>
         list_all is_base64url (drop 7 header)
      then Some (drop 7 header) else None)"

definition authorize_guest_result_access ::
  "jsval \<Rightarrow> jsval \<Rightarrow> (int \<Rightarrow> bytes option) \<Rightarrow> result_read_fail + result_access" where
  "authorize_guest_result_access request_value metadata_value keyring =
     (case parse_access_request request_value of
        None \<Rightarrow> Inl INVALID_RESULT_REQUEST
      | Some q \<Rightarrow>
          (case Option.bind (as_str_matching (\<lambda>h. length h \<le> 128) (aq_authorization_header q)) bearer_token of
             None \<Rightarrow> Inl RESULT_ACCESS_DENIED
           | Some token \<Rightarrow>
               (case snapshot_guest_result_token_metadata metadata_value of
                  None \<Rightarrow> Inl RESULT_ACCESS_DENIED
                | Some m \<Rightarrow>
                    if tm_guest_scan_id m \<noteq> aq_route_guest_scan_id q \<or>
                       tm_access_expires_at m \<le> aq_now q \<or>
                       tm_access_expires_at m - aq_now q > MAX_RESULT_WINDOW_SECONDS
                    then Inl RESULT_ACCESS_DENIED
                    else if \<not> verify_guest_result_token (JStr token) (metadata_object m) keyring
                        (JBig (aq_now q))
                    then Inl RESULT_ACCESS_DENIED
                    else Inr \<lparr>ra_guest_scan_id = tm_guest_scan_id m,
                      ra_access_expires_at = tm_access_expires_at m,
                      ra_token_expires_in = tm_access_expires_at m - aq_now q\<rparr>)))"

definition GUEST_RESULT_SECURITY_HEADERS :: jsval where
  "GUEST_RESULT_SECURITY_HEADERS =
     JObj [(''cache-control'', JStr ''no-store''), (''referrer-policy'', JStr ''no-referrer'')]"

definition access_object :: "result_access \<Rightarrow> jsval" where
  "access_object a =
     JObj [(''guest_scan_id'', JStr (ra_guest_scan_id a)),
       (''result_access_expires_at_unix_seconds'', JBig (ra_access_expires_at a)),
       (''result_token_expires_in_seconds'', JNum (ra_token_expires_in a)),
       (''response_headers'', GUEST_RESULT_SECURITY_HEADERS)]"

subsection \<open>Snapshots of the inputs of a view\<close>

definition ACCESS_KEYS :: "string list" where
  "ACCESS_KEYS = [''guest_scan_id'', ''result_access_expires_at_unix_seconds'',
     ''result_token_expires_in_seconds'', ''response_headers'']"

fun as_iso_seconds :: "int \<Rightarrow> jsval \<Rightarrow> int option" where
  "as_iso_seconds lo (JBig n) = (if lo \<le> n \<and> n \<le> MAX_UNIX_SECONDS_FOR_ISO then Some n else None)"
| "as_iso_seconds lo _ = None"

definition snapshot_access :: "jsval \<Rightarrow> result_access option" where
  "snapshot_access v =
     do {
       require (exact_object v ACCESS_KEYS);
       sid \<leftarrow> as_str_matching id_pattern (get_prop v ''guest_scan_id'');
       expires \<leftarrow> as_iso_seconds 1 (get_prop v ''result_access_expires_at_unix_seconds'');
       remaining \<leftarrow> as_bounded 1 MAX_RESULT_WINDOW_SECONDS (get_prop v ''result_token_expires_in_seconds'');
       let headers = get_prop v ''response_headers'';
       require (exact_object headers [''cache-control'', ''referrer-policy'']);
       require (get_prop headers ''cache-control'' = JStr ''no-store'');
       require (get_prop headers ''referrer-policy'' = JStr ''no-referrer'');
       Some \<lparr>ra_guest_scan_id = sid, ra_access_expires_at = expires, ra_token_expires_in = remaining\<rparr>
     }"

definition PROJECTION_KEYS :: "string list" where
  "PROJECTION_KEYS = [''schema_version'', ''canonical_host'', ''posture'', ''potential_risk_count'',
     ''coverage'', ''warning_count'', ''execution'']"

definition as_among :: "string list \<Rightarrow> jsval \<Rightarrow> string option" where
  "as_among allowed = as_str_matching (\<lambda>s. s \<in> set allowed)"

definition snapshot_observation :: "jsval \<Rightarrow> guest_observation option" where
  "snapshot_observation v =
     do {
       require (exact_object v [''check_id'', ''outcome'']);
       check \<leftarrow> as_among GUEST_POSTURE_CHECKS (get_prop v ''check_id'');
       outcome \<leftarrow> as_among OUTCOMES (get_prop v ''outcome'');
       Some \<lparr>ob_check_id = check, ob_outcome = outcome\<rparr>
     }"

definition snapshot_coverage :: "jsval \<Rightarrow> guest_coverage option" where
  "snapshot_coverage v =
     do {
       require (exact_object v [''detector_group'', ''execution_status'', ''completeness'']);
       group \<leftarrow> as_among GUEST_COVERAGE_GROUPS (get_prop v ''detector_group'');
       status \<leftarrow> as_among EXECUTION_STATUSES (get_prop v ''execution_status'');
       completeness \<leftarrow> as_among COMPLETENESS (get_prop v ''completeness'');
       Some \<lparr>cv_detector_group = group, cv_execution_status = status, cv_completeness = completeness\<rparr>
     }"

definition snapshot_sanitized_guest_projection ::
  "(string \<Rightarrow> string) \<Rightarrow> jsval \<Rightarrow> sanitized_projection option" where
  "snapshot_sanitized_guest_projection to_ascii v =
     do {
       require (exact_object v PROJECTION_KEYS);
       host \<leftarrow> as_str (get_prop v ''canonical_host'');
       require (canonicalize_hostname to_ascii (JStr host) = Inr host);
       require (get_prop v ''schema_version'' = JNum 1);
       posture_items \<leftarrow> as_arr (get_prop v ''posture'');
       require (length posture_items \<le> length GUEST_POSTURE_CHECKS);
       posture \<leftarrow> all_some snapshot_observation posture_items;
       require (distinct (map ob_check_id posture));
       coverage_items \<leftarrow> as_arr (get_prop v ''coverage'');
       require (1 \<le> length coverage_items \<and> length coverage_items \<le> length GUEST_COVERAGE_GROUPS);
       coverage \<leftarrow> all_some snapshot_coverage coverage_items;
       require (distinct (map cv_detector_group coverage));
       risks \<leftarrow> as_bounded 0 256 (get_prop v ''potential_risk_count'');
       warnings \<leftarrow> as_bounded 0 32 (get_prop v ''warning_count'');
       let execution = get_prop v ''execution'';
       require (exact_object execution [''policy_version'', ''duration_ms'', ''request_count'']);
       require (get_prop execution ''policy_version'' = JStr ''1.0.0'');
       duration \<leftarrow> as_bounded 0 30000 (get_prop execution ''duration_ms'');
       requests \<leftarrow> as_bounded 0 40 (get_prop execution ''request_count'');
       Some \<lparr>sp_canonical_host = host, sp_posture = posture, sp_potential_risk_count = risks,
         sp_coverage = coverage, sp_warning_count = warnings, sp_duration_ms = duration,
         sp_request_count = requests\<rparr>
     }"

subsection \<open>The view\<close>

definition SECTION_CHECKS :: "(string \<times> string list) list" where
  "SECTION_CHECKS =
     [(''INFRASTRUCTURE'', [''DNS_AAAA_PRESENT'', ''INFRA_RPKI'']),
      (''DOMAIN'', [''DNS_DNSSEC'', ''DNS_CAA'', ''SECURITY_TXT'']),
      (''MAIL'', [''MAIL_SPF'', ''MAIL_DMARC'', ''MAIL_MTA_STS'', ''MAIL_TLS_RPT'']),
      (''TLS'', [''TLS_CERTIFICATE'']),
      (''WEB'', [''HTTP_HSTS'', ''HTTP_CSP'', ''HTTP_X_CONTENT_TYPE_OPTIONS'', ''HTTP_FRAME_PROTECTION'',
         ''HTTP_REFERRER_POLICY'', ''HTTP_PERMISSIONS_POLICY'', ''HTTP_PROTOCOL''])]"

definition GUEST_RESULT_LIMITATIONS :: "string list" where
  "GUEST_RESULT_LIMITATIONS = [''GUEST_POSTURE_ONLY'', ''NO_SECURITY_SCORE'', ''NO_ABSOLUTE_ASSURANCE'']"

record result_view =
  gv_guest_scan_id :: string
  gv_canonical_host :: string
  gv_completed_at :: string
  gv_access_expires_at :: string
  gv_posture_sections :: "(string \<times> guest_observation list) list"
  gv_potential_risk_count :: int
  gv_warning_count :: int
  gv_coverage_state :: string
  gv_complete_group_count :: int
  gv_groups :: "(string \<times> string) list"

definition public_coverage_state :: "string \<Rightarrow> string \<Rightarrow> string" where
  "public_coverage_state status completeness =
     (if completeness = ''NOT_APPLICABLE'' then ''NOT_APPLICABLE''
      else if status \<noteq> ''SUCCESS'' then ''UNAVAILABLE''
      else completeness)"

definition section_observations :: "sanitized_projection \<Rightarrow> string list \<Rightarrow> guest_observation list" where
  "section_observations p checks =
     concat (map (\<lambda>check. case map_of (rev (map (\<lambda>b. (ob_check_id b, b)) (sp_posture p))) check of
        None \<Rightarrow> [] | Some b \<Rightarrow> [b]) checks)"

definition group_state :: "sanitized_projection \<Rightarrow> string \<Rightarrow> string" where
  "group_state p g =
     (case map_of (rev (map (\<lambda>c. (cv_detector_group c, c)) (sp_coverage p))) g of
        None \<Rightarrow> ''MISSING''
      | Some c \<Rightarrow> public_coverage_state (cv_execution_status c) (cv_completeness c))"

definition overall_coverage :: "string list \<Rightarrow> string" where
  "overall_coverage states =
     (let resolved = length (filter (\<lambda>s. s = ''COMPLETE'' \<or> s = ''NOT_APPLICABLE'') states);
          useful = list_ex (\<lambda>s. s = ''COMPLETE'' \<or> s = ''PARTIAL'') states
      in if resolved = length states then ''COMPLETE''
         else if useful then ''PARTIAL'' else ''INSUFFICIENT'')"

definition build_view :: "result_access \<Rightarrow> int \<Rightarrow> sanitized_projection \<Rightarrow> result_view" where
  "build_view a completed p =
     (let groups = map (\<lambda>g. (g, group_state p g)) GUEST_COVERAGE_GROUPS
      in \<lparr>gv_guest_scan_id = ra_guest_scan_id a, gv_canonical_host = sp_canonical_host p,
          gv_completed_at = iso_date completed,
          gv_access_expires_at = iso_date (ra_access_expires_at a),
          gv_posture_sections = map (\<lambda>(sid, checks). (sid, section_observations p checks)) SECTION_CHECKS,
          gv_potential_risk_count = sp_potential_risk_count p, gv_warning_count = sp_warning_count p,
          gv_coverage_state = overall_coverage (map snd groups),
          gv_complete_group_count = int (length (filter (\<lambda>g. snd g = ''COMPLETE'') groups)),
          gv_groups = groups\<rparr>)"

definition VIEW_INPUT_KEYS :: "string list" where
  "VIEW_INPUT_KEYS = [''access'', ''completed_at_unix_seconds'', ''projection'']"

text \<open>\<open>None\<close> is \<^verbatim>\<open>INVALID_GUEST_RESULT_VIEW\<close>.\<close>

definition create_guest_result_view :: "(string \<Rightarrow> string) \<Rightarrow> jsval \<Rightarrow> result_view option" where
  "create_guest_result_view to_ascii v =
     do {
       require (exact_object v VIEW_INPUT_KEYS);
       a \<leftarrow> snapshot_access (get_prop v ''access'');
       p \<leftarrow> snapshot_sanitized_guest_projection to_ascii (get_prop v ''projection'');
       completed \<leftarrow> as_iso_seconds 0 (get_prop v ''completed_at_unix_seconds'');
       require (completed \<le> ra_access_expires_at a - ra_token_expires_in a);
       Some (build_view a completed p)
     }"

definition observation_value :: "guest_observation \<Rightarrow> jsval" where
  "observation_value b = JObj [(''check_id'', JStr (ob_check_id b)), (''outcome'', JStr (ob_outcome b))]"

definition coverage_value :: "guest_coverage \<Rightarrow> jsval" where
  "coverage_value c = JObj [(''detector_group'', JStr (cv_detector_group c)),
     (''execution_status'', JStr (cv_execution_status c)), (''completeness'', JStr (cv_completeness c))]"

definition projection_value :: "sanitized_projection \<Rightarrow> jsval" where
  "projection_value p = JObj
     [(''schema_version'', JNum 1), (''canonical_host'', JStr (sp_canonical_host p)),
      (''posture'', JArr (map observation_value (sp_posture p))),
      (''potential_risk_count'', JNum (sp_potential_risk_count p)),
      (''coverage'', JArr (map coverage_value (sp_coverage p))),
      (''warning_count'', JNum (sp_warning_count p)),
      (''execution'', JObj [(''policy_version'', JStr ''1.0.0''), (''duration_ms'', JNum (sp_duration_ms p)),
         (''request_count'', JNum (sp_request_count p))])]"

definition view_object :: "result_view \<Rightarrow> jsval" where
  "view_object w = JObj
     [(''schema_version'', JNum 1), (''guest_scan_id'', JStr (gv_guest_scan_id w)),
      (''canonical_host'', JStr (gv_canonical_host w)), (''status'', JStr ''COMPLETED''),
      (''completed_at'', JStr (gv_completed_at w)),
      (''result_access_expires_at'', JStr (gv_access_expires_at w)),
      (''posture_sections'', JArr (map (\<lambda>(sid, bs). JObj [(''section_id'', JStr sid),
         (''checks'', JArr (map observation_value bs))]) (gv_posture_sections w))),
      (''potential_risk_count'', JNum (gv_potential_risk_count w)),
      (''warning_count'', JNum (gv_warning_count w)),
      (''coverage'', JObj [(''state'', JStr (gv_coverage_state w)),
         (''complete_group_count'', JNum (gv_complete_group_count w)),
         (''total_group_count'', JNum (int (length (gv_groups w)))),
         (''groups'', JArr (map (\<lambda>(g, s). JObj [(''detector_group'', JStr g), (''state'', JStr s)])
            (gv_groups w)))]),
      (''limitations'', JArr (map JStr GUEST_RESULT_LIMITATIONS))]"

subsection \<open>Decisions\<close>

datatype read_decision = READ_OK result_view | READ_FAILED result_read_fail

fun result_fail_code :: "result_read_fail \<Rightarrow> string" where
  "result_fail_code INVALID_RESULT_REQUEST = ''INVALID_RESULT_REQUEST''"
| "result_fail_code RESULT_ACCESS_DENIED = ''RESULT_ACCESS_DENIED''"

fun decision_object :: "read_decision \<Rightarrow> jsval" where
  "decision_object (READ_OK w) = JObj [(''ok'', JBool True),
     (''response_headers'', GUEST_RESULT_SECURITY_HEADERS), (''body'', view_object w)]"
| "decision_object (READ_FAILED code) =
     JObj [(''ok'', JBool False), (''code'', JStr (result_fail_code code))]"

text \<open>
  \<^verbatim>\<open>isDeepStrictEqual(value, plain)\<close> where the second argument consists of plain objects,
  arrays, strings, booleans and integers.
\<close>

function (sequential) deep_equal :: "jsval \<Rightarrow> jsval \<Rightarrow> bool" where
  "deep_equal (JArr xs) (JArr ys) \<longleftrightarrow> length xs = length ys \<and> list_all (\<lambda>(x, y). deep_equal x y) (zip xs ys)"
| "deep_equal (JObj kvs) (JObj kws) \<longleftrightarrow>
     length kvs = length kws \<and>
     list_all (\<lambda>(k, v). case map_of kws k of None \<Rightarrow> False | Some w \<Rightarrow> deep_equal v w) kvs"
| "deep_equal v w \<longleftrightarrow> v = w \<and> v \<noteq> JOpaque \<and> v \<noteq> JFrac"
  by pat_completeness auto
termination
  by (relation "measure (\<lambda>(v, w). size v)")
    (auto simp: less_Suc_eq_le dest!: set_zip_leftD intro: size_list_estimation')

text \<open>
  \<^verbatim>\<open>seconds\<close>.  \<^verbatim>\<open>Date.parse\<close> may read other texts too; the equality at the end fails for them,
  since what is rebuilt has the canonical text.
\<close>

definition date_seconds :: "jsval \<Rightarrow> int option" where
  "date_seconds v =
     do {
       s \<leftarrow> as_str v;
       milliseconds \<leftarrow> parse_iso s;
       require (safe_int milliseconds \<and> milliseconds \<ge> 0 \<and> milliseconds mod 1000 = 0);
       Some (milliseconds div 1000)
     }"

definition PUBLIC_COVERAGE_STATES :: "string list" where
  "PUBLIC_COVERAGE_STATES = [''UNAVAILABLE'', ''COMPLETE'', ''PARTIAL'', ''NOT_APPLICABLE'', ''UNKNOWN'']"

text \<open>The items a section or a coverage group contributes; \<open>None\<close> is the exception.\<close>

definition section_items :: "jsval \<Rightarrow> jsval list option" where
  "section_items section =
     do {
       require (is_record section);
       checks \<leftarrow> as_arr (get_prop section ''checks'');
       require (length checks \<le> length GUEST_POSTURE_CHECKS);
       Some checks
     }"

definition group_items :: "jsval \<Rightarrow> jsval list option" where
  "group_items g =
     do {
       require (is_record g);
       if get_prop g ''state'' = JStr ''MISSING'' then Some []
       else do {
         state \<leftarrow> as_among PUBLIC_COVERAGE_STATES (get_prop g ''state'');
         Some [JObj [(''detector_group'', get_prop g ''detector_group''),
           (''execution_status'', JStr (if state = ''UNAVAILABLE'' then ''FAILED'' else ''SUCCESS'')),
           (''completeness'', JStr (if state = ''UNAVAILABLE'' then ''UNKNOWN'' else state))]]
       }
     }"

definition rebuild_decision :: "(string \<Rightarrow> string) \<Rightarrow> jsval \<Rightarrow> string \<Rightarrow> int \<Rightarrow> result_view option" where
  "rebuild_decision to_ascii body sid now =
     do {
       expires \<leftarrow> date_seconds (get_prop body ''result_access_expires_at'');
       completed \<leftarrow> date_seconds (get_prop body ''completed_at'');
       require (\<not> (expires \<le> now \<or> expires - now > 1800 \<or> completed > now));
       sections \<leftarrow> as_arr (get_prop body ''posture_sections'');
       require (length sections = 5 \<and> is_record (get_prop body ''coverage''));
       posture \<leftarrow> map_option concat (all_some section_items sections);
       groups \<leftarrow> as_arr (get_prop (get_prop body ''coverage'') ''groups'');
       require (length groups = length GUEST_COVERAGE_GROUPS);
       coverage \<leftarrow> map_option concat (all_some group_items groups);
       create_guest_result_view to_ascii (JObj
         [(''access'', access_object \<lparr>ra_guest_scan_id = sid, ra_access_expires_at = expires,
             ra_token_expires_in = expires - now\<rparr>),
          (''completed_at_unix_seconds'', JBig completed),
          (''projection'', JObj [(''schema_version'', JNum 1),
             (''canonical_host'', get_prop body ''canonical_host''), (''posture'', JArr posture),
             (''potential_risk_count'', get_prop body ''potential_risk_count''),
             (''warning_count'', get_prop body ''warning_count''), (''coverage'', JArr coverage),
             (''execution'', JObj [(''policy_version'', JStr ''1.0.0''), (''duration_ms'', JNum 0),
                (''request_count'', JNum 0)])])])
     }"

definition project_guest_result_decision ::
  "(string \<Rightarrow> string) \<Rightarrow> jsval \<Rightarrow> string \<Rightarrow> int \<Rightarrow> read_decision option" where
  "project_guest_result_decision to_ascii v sid now =
     (if \<not> is_record v then None
      else if get_prop v ''ok'' = JBool False
      then find (\<lambda>denial. deep_equal v (decision_object denial))
        [READ_FAILED INVALID_RESULT_REQUEST, READ_FAILED RESULT_ACCESS_DENIED]
      else if get_prop v ''ok'' \<noteq> JBool True \<or> \<not> is_record (get_prop v ''body'') then None
      else case rebuild_decision to_ascii (get_prop v ''body'') sid now of
             None \<Rightarrow> None
           | Some w \<Rightarrow> if deep_equal v (decision_object (READ_OK w)) then Some (READ_OK w) else None)"

end
