(* ===== verification/Tables.thy ===== *)
theory Tables
  imports Prelude "HOL-Library.AList"
begin

section \<open>Tables keyed by a primary key\<close>

text \<open>
  A table of the database is the list of its rows with their primary keys, in
  insertion order.  \<open>put\<close> replaces the row of a key in place or appends a new
  one, \<open>delete_where\<close> removes rows, \<open>count_rows\<close> counts them.  The lemmas
  say how a row, the rows of one owner and the counts change; the proofs about
  the transactions rest on them.  \<open>reachable\<close> and the locale
  \<open>invariant_system\<close> are the shared form of safety arguments.
\<close>

type_synonym ('k, 'r) table = "('k \<times> 'r) list"

abbreviation put :: "'k \<Rightarrow> 'r \<Rightarrow> ('k, 'r) table \<Rightarrow> ('k, 'r) table" where
  "put \<equiv> AList.update"

definition keys_distinct :: "('k, 'r) table \<Rightarrow> bool" where
  "keys_distinct t \<longleftrightarrow> distinct (map fst t)"

definition delete_where :: "('k \<Rightarrow> 'r \<Rightarrow> bool) \<Rightarrow> ('k, 'r) table \<Rightarrow> ('k, 'r) table" where
  "delete_where p t = filter (\<lambda>(k, r). \<not> p k r) t"

definition rows_where :: "('k \<Rightarrow> 'r \<Rightarrow> bool) \<Rightarrow> ('k, 'r) table \<Rightarrow> ('k, 'r) table" where
  "rows_where p t = filter (\<lambda>(k, r). p k r) t"

definition count_rows :: "('k \<Rightarrow> 'r \<Rightarrow> bool) \<Rightarrow> ('k, 'r) table \<Rightarrow> int" where
  "count_rows p t = int (length (rows_where p t))"

subsection \<open>Reading after a change\<close>

lemma get_put [simp]: "map_of (put k v t) = (map_of t)(k \<mapsto> v)"
  by (rule update_conv')

lemma keys_distinct_put [intro, simp]: "keys_distinct t \<Longrightarrow> keys_distinct (put k v t)"
  by (simp add: keys_distinct_def distinct_update)

lemma keys_distinct_delete [intro, simp]: "keys_distinct t \<Longrightarrow> keys_distinct (delete_where p t)"
  by (auto simp: keys_distinct_def delete_where_def distinct_map intro: inj_on_subset)

lemma keys_distinct_rows [intro, simp]: "keys_distinct t \<Longrightarrow> keys_distinct (rows_where p t)"
  by (auto simp: keys_distinct_def rows_where_def distinct_map intro: inj_on_subset)

lemma keys_distinct_Nil [simp]: "keys_distinct []"
  by (simp add: keys_distinct_def)

lemma get_delete:
  "keys_distinct t \<Longrightarrow>
   map_of (delete_where p t) k = (case map_of t k of None \<Rightarrow> None | Some r \<Rightarrow> if p k r then None else Some r)"
  by (induction t)
    (auto simp: keys_distinct_def delete_where_def split: option.splits dest: map_of_SomeD
      intro: rev_image_eqI)

lemma get_rows:
  "keys_distinct t \<Longrightarrow>
   map_of (rows_where p t) k = (case map_of t k of None \<Rightarrow> None | Some r \<Rightarrow> if p k r then Some r else None)"
  by (induction t)
    (auto simp: keys_distinct_def rows_where_def split: option.splits dest: map_of_SomeD
      intro: rev_image_eqI)

lemma get_set: "keys_distinct t \<Longrightarrow> (k, r) \<in> set t \<longleftrightarrow> map_of t k = Some r"
  by (simp add: keys_distinct_def map_of_eq_Some_iff)

lemma put_new: "map_of t k = None \<Longrightarrow> put k v t = t @ [(k, v)]"
  by (induction t) (auto split: if_splits)

lemma put_append_last:
  "keys_distinct (xs @ [(k, u)]) \<Longrightarrow> put k v (xs @ [(k, u)]) = xs @ [(k, v)]"
  by (induction xs) (auto simp: keys_distinct_def)

subsection \<open>The rows of one owner\<close>

lemma rows_put_other:
  assumes "\<not> p k v" "\<forall>r. map_of t k = Some r \<longrightarrow> \<not> p k r" "keys_distinct t"
  shows "rows_where p (put k v t) = rows_where p t"
  using assms by (induction t) (auto simp: rows_where_def keys_distinct_def split: if_splits)

lemma rows_put_owned:
  assumes "p k v" "map_of t k = Some r" "p k r" "keys_distinct t"
  shows "rows_where p (put k v t) = put k v (rows_where p t)"
  using assms by (induction t) (auto simp: rows_where_def keys_distinct_def split: if_splits)

lemma rows_put_new:
  assumes "map_of t k = None"
  shows "rows_where p (put k v t) = rows_where p t @ (if p k v then [(k, v)] else [])"
  using assms by (simp add: put_new rows_where_def)

lemma rows_delete: "rows_where p (delete_where q t) = rows_where (\<lambda>k r. p k r \<and> \<not> q k r) t"
  by (induction t) (auto simp: rows_where_def delete_where_def)

lemma rows_delete_other:
  "(\<And>k r. (k, r) \<in> set t \<Longrightarrow> p k r \<Longrightarrow> \<not> q k r) \<Longrightarrow> rows_where p (delete_where q t) = rows_where p t"
  by (induction t) (auto simp: rows_where_def delete_where_def)

lemma rows_where_set: "(k, r) \<in> set (rows_where p t) \<longleftrightarrow> (k, r) \<in> set t \<and> p k r"
  by (auto simp: rows_where_def)

subsection \<open>Counting\<close>

lemma count_rows_nonneg [simp]: "0 \<le> count_rows p t"
  by (simp add: count_rows_def)

lemma count_rows_Nil [simp]: "count_rows p [] = 0"
  by (simp add: count_rows_def rows_where_def)

lemma count_put_new:
  "map_of t k = None \<Longrightarrow> count_rows p (put k v t) = count_rows p t + of_bool (p k v)"
  by (simp add: count_rows_def rows_put_new)

lemma count_put:
  assumes "map_of t k = Some r" "keys_distinct t"
  shows "count_rows p (put k v t) = count_rows p t - of_bool (p k r) + of_bool (p k v)"
  using assms
  by (induction t) (auto simp: count_rows_def rows_where_def keys_distinct_def split: if_splits)

lemma count_pos: "map_of t k = Some r \<Longrightarrow> p k r \<Longrightarrow> 1 \<le> count_rows p t"
proof -
  assume "map_of t k = Some r" "p k r"
  then have "(k, r) \<in> set (rows_where p t)" by (auto simp: rows_where_set dest: map_of_SomeD)
  then show ?thesis by (cases "rows_where p t") (auto simp: count_rows_def)
qed

lemma count_delete:
  "count_rows p (delete_where q t) = count_rows p t - count_rows (\<lambda>k r. p k r \<and> q k r) t"
  by (induction t) (auto simp: count_rows_def rows_where_def delete_where_def)

lemma count_delete_key:
  assumes "keys_distinct t"
  shows "count_rows p (delete_where (\<lambda>k r. k = x) t) =
    count_rows p t - (case map_of t x of None \<Rightarrow> 0 | Some r \<Rightarrow> of_bool (p x r))"
  using assms
proof (induction t)
  case (Cons kr t)
  obtain k r where kr: "kr = (k, r)" by fastforce
  have rest: "map_of t k = None" "keys_distinct t"
    using Cons.prems by (auto simp: keys_distinct_def kr map_of_eq_None_iff image_iff)
  show ?case using Cons.IH [OF rest(2)] rest(1)
    by (auto simp: kr count_rows_def rows_where_def delete_where_def split: option.splits)
qed (simp add: delete_where_def)

lemma count_cong:
  "(\<And>k r. (k, r) \<in> set t \<Longrightarrow> p k r = q k r) \<Longrightarrow> count_rows p t = count_rows q t"
  unfolding count_rows_def rows_where_def by (metis (mono_tags, lifting) case_prodE case_prod_conv filter_cong)

subsection \<open>Reachable states and invariants\<close>

inductive reachable :: "('s \<Rightarrow> bool) \<Rightarrow> ('s \<Rightarrow> 's \<Rightarrow> bool) \<Rightarrow> 's \<Rightarrow> bool"
  for init step where
  start: "init s \<Longrightarrow> reachable init step s"
| more: "reachable init step s \<Longrightarrow> step s t \<Longrightarrow> reachable init step t"

locale invariant_system =
  fixes init :: "'s \<Rightarrow> bool"
    and step :: "'s \<Rightarrow> 's \<Rightarrow> bool"
    and inv :: "'s \<Rightarrow> bool"
  assumes initially: "init s \<Longrightarrow> inv s"
    and preserved: "inv s \<Longrightarrow> step s t \<Longrightarrow> inv t"
begin

lemma always: "reachable init step s \<Longrightarrow> inv s"
  by (induction rule: reachable.induct) (auto intro: initially preserved)

lemma always_step: "reachable init step s \<Longrightarrow> step s t \<Longrightarrow> inv s \<and> inv t"
  using always preserved by blast

end

end
