(* ===== verification/Lifecycle.thy ===== *)
theory Lifecycle
  imports Prelude
begin

section \<open>Interfaces of event-driven state machines\<close>

text \<open>
  Three state machines of the repository share a contract: the scan job, the
  scan attempt and the notification delivery.  A machine answers an event with
  the next state or refuses it; some of its states are final.  The job and the
  attempt also never return to a state they have left.
\<close>

fun run_events :: "('s \<Rightarrow> 'e \<Rightarrow> 's option) \<Rightarrow> 's \<Rightarrow> 'e list \<Rightarrow> 's" where
  "run_events step s [] = s"
| "run_events step s (e # es) =
     run_events step (case step s e of None \<Rightarrow> s | Some t \<Rightarrow> t) es"

fun applied_events :: "('s \<Rightarrow> 'e \<Rightarrow> 's option) \<Rightarrow> 's \<Rightarrow> 'e list \<Rightarrow> nat" where
  "applied_events step s [] = 0"
| "applied_events step s (e # es) =
     (case step s e of None \<Rightarrow> applied_events step s es
      | Some t \<Rightarrow> Suc (applied_events step t es))"

lemma run_events_append:
  "run_events step s (xs @ ys) = run_events step (run_events step s xs) ys"
  by (induction xs arbitrary: s) auto

locale absorbing =
  fixes step :: "'s \<Rightarrow> 'e \<Rightarrow> 's option"
    and final :: "'s \<Rightarrow> bool"
  assumes final_stuck: "final s \<Longrightarrow> step s e = None"
    and live: "\<not> final s \<Longrightarrow> \<exists>e t. step s e = Some t"
begin

lemma final_run: "final s \<Longrightarrow> run_events step s es = s"
  by (induction es) (auto simp: final_stuck)

lemma final_stays: "final (run_events step s xs) \<Longrightarrow>
    run_events step s (xs @ ys) = run_events step s xs"
  by (simp add: run_events_append final_run)

lemma stuck_iff_final: "(\<forall>e. step s e = None) \<longleftrightarrow> final s"
  using final_stuck live by fastforce

end

locale ranked = absorbing +
  fixes rank :: "'s \<Rightarrow> nat"
    and top_rank :: nat
  assumes rank_increases: "step s e = Some t \<Longrightarrow> rank s < rank t"
    and rank_bounded: "rank s \<le> top_rank"
begin

lemma rank_mono: "rank s \<le> rank (run_events step s es)"
proof (induction es arbitrary: s)
  case (Cons e es)
  show ?case
  proof (cases "step s e")
    case None
    with Cons show ?thesis by simp
  next
    case (Some t)
    with rank_increases have "rank s < rank t" by blast
    also have "rank t \<le> rank (run_events step t es)" by (rule Cons.IH)
    finally show ?thesis by (simp add: Some)
  qed
qed simp

lemma rank_applied: "rank s + applied_events step s es \<le> rank (run_events step s es)"
proof (induction es arbitrary: s)
  case (Cons e es)
  show ?case
  proof (cases "step s e")
    case None
    with Cons show ?thesis by simp
  next
    case (Some t)
    with rank_increases have "rank s < rank t" by blast
    moreover have "rank t + applied_events step t es \<le> rank (run_events step t es)"
      by (rule Cons.IH)
    ultimately show ?thesis by (simp add: Some)
  qed
qed simp

lemma applied_bounded: "applied_events step s es \<le> top_rank - rank s"
  using rank_applied [of s es] rank_bounded [of "run_events step s es"] by linarith

lemma never_returns: "step s e = Some t \<Longrightarrow> run_events step t es \<noteq> s"
  using rank_increases rank_mono by (metis leD)

end

end
