(* ===== verification/Scan_Protocol.thy ===== *)
theory Scan_Protocol
  imports Lifecycle
begin

section \<open>Scan execution protocol: job and attempt state machines, result commit\<close>

text \<open>
  Models \<^verbatim>\<open>apps/api/src/scan-protocol\<close>: the two transition tables of
  \<^verbatim>\<open>fsm.ts\<close>, the types of \<^verbatim>\<open>model.ts\<close> and the decision of
  \<^verbatim>\<open>result-commit.ts\<close>.  Integral numbers stand for the numeric fields; a
  fractional number fails the same test a non-positive one fails.
\<close>

subsection \<open>States and events\<close>

datatype job_state =
  J_QUEUED | J_RUNNING | J_SUCCEEDED | J_FAILED | J_CANCELLED | J_EXPIRED

datatype job_event =
    JE_ATTEMPT_STARTED
  | JE_CANCEL
  | JE_AUTHORIZATION_REVOKED
  | JE_DEADLINE_EXCEEDED
  | JE_PRIMARY_RESULT_COMMITTED
  | JE_RETRY_BUDGET_EXHAUSTED

datatype attempt_state =
    A_CREATED | A_LEASED | A_RUNNING | A_SUCCEEDED
  | A_FAILED | A_TIMED_OUT | A_CANCELLED | A_SUPERSEDED

datatype attempt_event =
    AE_LEASE_ACQUIRED
  | AE_JOB_CANCELLED_OR_EXPIRED
  | AE_SCANNER_STARTED
  | AE_LEASE_EXPIRED_OR_INVALIDATED
  | AE_PRIMARY_RESULT_COMMITTED
  | AE_SCANNER_OR_POLICY_FAILED
  | AE_HARD_DEADLINE_EXCEEDED
  | AE_JOB_CANCELLED
  | AE_NEWER_ATTEMPT_FENCE

subsection \<open>Transitions\<close>

text \<open>\<^verbatim>\<open>{ allowed: false, code: "INVALID_TRANSITION" }\<close> is \<open>None\<close>.\<close>

fun transition_job :: "job_state \<Rightarrow> job_event \<Rightarrow> job_state option" where
  "transition_job J_QUEUED JE_ATTEMPT_STARTED = Some J_RUNNING"
| "transition_job J_QUEUED JE_CANCEL = Some J_CANCELLED"
| "transition_job J_QUEUED JE_DEADLINE_EXCEEDED = Some J_EXPIRED"
| "transition_job J_RUNNING JE_PRIMARY_RESULT_COMMITTED = Some J_SUCCEEDED"
| "transition_job J_RUNNING JE_RETRY_BUDGET_EXHAUSTED = Some J_FAILED"
| "transition_job J_RUNNING JE_CANCEL = Some J_CANCELLED"
| "transition_job J_RUNNING JE_AUTHORIZATION_REVOKED = Some J_CANCELLED"
| "transition_job J_RUNNING JE_DEADLINE_EXCEEDED = Some J_EXPIRED"
| "transition_job _ _ = None"

fun transition_attempt :: "attempt_state \<Rightarrow> attempt_event \<Rightarrow> attempt_state option" where
  "transition_attempt A_CREATED AE_LEASE_ACQUIRED = Some A_LEASED"
| "transition_attempt A_CREATED AE_JOB_CANCELLED_OR_EXPIRED = Some A_CANCELLED"
| "transition_attempt A_LEASED AE_SCANNER_STARTED = Some A_RUNNING"
| "transition_attempt A_LEASED AE_LEASE_EXPIRED_OR_INVALIDATED = Some A_SUPERSEDED"
| "transition_attempt A_RUNNING AE_PRIMARY_RESULT_COMMITTED = Some A_SUCCEEDED"
| "transition_attempt A_RUNNING AE_SCANNER_OR_POLICY_FAILED = Some A_FAILED"
| "transition_attempt A_RUNNING AE_LEASE_EXPIRED_OR_INVALIDATED = Some A_SUPERSEDED"
| "transition_attempt A_RUNNING AE_HARD_DEADLINE_EXCEEDED = Some A_TIMED_OUT"
| "transition_attempt A_RUNNING AE_JOB_CANCELLED = Some A_CANCELLED"
| "transition_attempt A_RUNNING AE_NEWER_ATTEMPT_FENCE = Some A_SUPERSEDED"
| "transition_attempt _ _ = None"

definition job_final :: "job_state \<Rightarrow> bool" where
  "job_final s \<longleftrightarrow> s \<in> {J_SUCCEEDED, J_FAILED, J_CANCELLED, J_EXPIRED}"

definition attempt_final :: "attempt_state \<Rightarrow> bool" where
  "attempt_final s \<longleftrightarrow> s \<in> {A_SUCCEEDED, A_FAILED, A_TIMED_OUT, A_CANCELLED, A_SUPERSEDED}"

fun job_rank :: "job_state \<Rightarrow> nat" where
  "job_rank J_QUEUED = 0"
| "job_rank J_RUNNING = 1"
| "job_rank _ = 2"

fun attempt_rank :: "attempt_state \<Rightarrow> nat" where
  "attempt_rank A_CREATED = 0"
| "attempt_rank A_LEASED = 1"
| "attempt_rank A_RUNNING = 2"
| "attempt_rank _ = 3"

fun_cases transition_job_SomeE: "transition_job s e = Some t"
fun_cases transition_attempt_SomeE: "transition_attempt s e = Some t"

interpretation job: ranked transition_job job_final job_rank 2
proof unfold_locales
  fix s e
  show "job_final s \<Longrightarrow> transition_job s e = None" by (cases s) (auto simp: job_final_def)
next
  fix s
  assume "\<not> job_final s"
  then have "s = J_QUEUED \<or> s = J_RUNNING" by (cases s) (auto simp: job_final_def)
  then show "\<exists>e t. transition_job s e = Some t"
    by (metis transition_job.simps(2,6))
next
  fix s e t
  show "transition_job s e = Some t \<Longrightarrow> job_rank s < job_rank t"
    by (erule transition_job_SomeE) auto
next
  fix s
  show "job_rank s \<le> 2" by (cases s) auto
qed

interpretation attempt: ranked transition_attempt attempt_final attempt_rank 3
proof unfold_locales
  fix s e
  show "attempt_final s \<Longrightarrow> transition_attempt s e = None"
    by (cases s) (auto simp: attempt_final_def)
next
  fix s
  assume "\<not> attempt_final s"
  then have "s = A_CREATED \<or> s = A_LEASED \<or> s = A_RUNNING"
    by (cases s) (auto simp: attempt_final_def)
  then show "\<exists>e t. transition_attempt s e = Some t"
    by (metis transition_attempt.simps(1,3,5))
next
  fix s e t
  show "transition_attempt s e = Some t \<Longrightarrow> attempt_rank s < attempt_rank t"
    by (erule transition_attempt_SomeE) auto
next
  fix s
  show "attempt_rank s \<le> 3" by (cases s) auto
qed

subsection \<open>Result commit\<close>

record result_identity =
  ri_attempt_id :: string
  ri_fence :: int
  ri_payload_digest :: string

record result_commit_snapshot =
  rc_job_state :: job_state
  rc_current_attempt_id :: string
  rc_current_fence :: int
  rc_attempt_state :: attempt_state
  rc_lease_expires_at :: int
  rc_hard_deadline :: int
  rc_accepted_result :: "result_identity option"

datatype commit_deny_code =
    INVALID_STATE | JOB_NOT_RUNNING | ATTEMPT_NOT_RUNNING | STALE_ATTEMPT
  | LEASE_EXPIRED | ATTEMPT_DEADLINE_EXCEEDED | RESULT_DIGEST_CONFLICT

text \<open>A denial carries the flag \<^verbatim>\<open>emit_security_audit\<close>.\<close>

datatype commit_decision =
    PRIMARY_COMMIT (next_job_state: job_state) (next_attempt_state: attempt_state)
  | ALREADY_COMMITTED
  | COMMIT_DENIED commit_deny_code bool

definition has_valid_identity :: "result_identity \<Rightarrow> bool" where
  "has_valid_identity i \<longleftrightarrow>
     id_pattern (ri_attempt_id i) \<and> positive_safe (ri_fence i) \<and>
     sha256_pattern (ri_payload_digest i)"

definition has_valid_snapshot :: "result_commit_snapshot \<Rightarrow> bool" where
  "has_valid_snapshot s \<longleftrightarrow>
     id_pattern (rc_current_attempt_id s) \<and>
     positive_safe (rc_current_fence s) \<and>
     positive_safe (rc_lease_expires_at s) \<and>
     positive_safe (rc_hard_deadline s) \<and>
     (case rc_accepted_result s of None \<Rightarrow> True | Some i \<Rightarrow> has_valid_identity i)"

definition same_attempt_and_fence :: "result_identity \<Rightarrow> result_identity \<Rightarrow> bool" where
  "same_attempt_and_fence a b \<longleftrightarrow>
     ri_attempt_id a = ri_attempt_id b \<and> ri_fence a = ri_fence b"

definition decide_result_commit ::
  "result_commit_snapshot \<Rightarrow> result_identity \<Rightarrow> int \<Rightarrow> commit_decision" where
  "decide_result_commit s sub now =
     (if \<not> has_valid_snapshot s \<or> \<not> has_valid_identity sub \<or> \<not> positive_safe now
      then COMMIT_DENIED INVALID_STATE False
      else if rc_job_state s = J_SUCCEEDED then
        (case rc_accepted_result s of
           None \<Rightarrow> COMMIT_DENIED INVALID_STATE True
         | Some acc \<Rightarrow>
             if \<not> same_attempt_and_fence acc sub then COMMIT_DENIED STALE_ATTEMPT False
             else if ri_payload_digest acc \<noteq> ri_payload_digest sub
             then COMMIT_DENIED RESULT_DIGEST_CONFLICT True
             else ALREADY_COMMITTED)
      else if rc_job_state s \<noteq> J_RUNNING then COMMIT_DENIED JOB_NOT_RUNNING False
      else if rc_accepted_result s \<noteq> None then COMMIT_DENIED INVALID_STATE True
      else if ri_attempt_id sub \<noteq> rc_current_attempt_id s \<or> ri_fence sub \<noteq> rc_current_fence s
      then COMMIT_DENIED STALE_ATTEMPT False
      else if rc_attempt_state s \<noteq> A_RUNNING then COMMIT_DENIED ATTEMPT_NOT_RUNNING False
      else if now \<ge> rc_lease_expires_at s then COMMIT_DENIED LEASE_EXPIRED False
      else if now \<ge> rc_hard_deadline s then COMMIT_DENIED ATTEMPT_DEADLINE_EXCEEDED False
      else PRIMARY_COMMIT J_SUCCEEDED A_SUCCEEDED)"

text \<open>What the two statements a primary commit runs do to the snapshot.\<close>

definition after_primary_commit ::
  "result_commit_snapshot \<Rightarrow> result_identity \<Rightarrow> result_commit_snapshot" where
  "after_primary_commit s sub =
     s\<lparr>rc_job_state := J_SUCCEEDED, rc_attempt_state := A_SUCCEEDED,
       rc_accepted_result := Some sub\<rparr>"

lemma primary_commit_iff:
  "decide_result_commit s sub now = PRIMARY_COMMIT js as \<longleftrightarrow>
     js = J_SUCCEEDED \<and> as = A_SUCCEEDED \<and>
     has_valid_snapshot s \<and> has_valid_identity sub \<and> positive_safe now \<and>
     rc_job_state s = J_RUNNING \<and> rc_accepted_result s = None \<and>
     ri_attempt_id sub = rc_current_attempt_id s \<and> ri_fence sub = rc_current_fence s \<and>
     rc_attempt_state s = A_RUNNING \<and>
     now < rc_lease_expires_at s \<and> now < rc_hard_deadline s"
  by (auto simp: decide_result_commit_def split: option.splits)

lemma already_committed_iff:
  "decide_result_commit s sub now = ALREADY_COMMITTED \<longleftrightarrow>
     has_valid_snapshot s \<and> has_valid_identity sub \<and> positive_safe now \<and>
     rc_job_state s = J_SUCCEEDED \<and>
     (\<exists>acc. rc_accepted_result s = Some acc \<and> same_attempt_and_fence acc sub \<and>
        ri_payload_digest acc = ri_payload_digest sub)"
  by (auto simp: decide_result_commit_def split: option.splits)

lemma after_primary_valid:
  "decide_result_commit s sub now = PRIMARY_COMMIT js as \<Longrightarrow>
     has_valid_snapshot (after_primary_commit s sub)"
  by (auto simp: primary_commit_iff after_primary_commit_def has_valid_snapshot_def)

lemma after_primary_decision:
  assumes "decide_result_commit s sub now = PRIMARY_COMMIT js as"
    and "has_valid_identity sub'" "positive_safe now'"
  shows "decide_result_commit (after_primary_commit s sub) sub' now' =
    (if \<not> same_attempt_and_fence sub sub' then COMMIT_DENIED STALE_ATTEMPT False
     else if ri_payload_digest sub \<noteq> ri_payload_digest sub'
     then COMMIT_DENIED RESULT_DIGEST_CONFLICT True
     else ALREADY_COMMITTED)"
  using assms(2,3) after_primary_valid [OF assms(1)]
  by (simp add: decide_result_commit_def) (simp add: after_primary_commit_def)

definition sample_snapshot :: result_commit_snapshot where
  "sample_snapshot =
     \<lparr>rc_job_state = J_RUNNING, rc_current_attempt_id = ''a1'', rc_current_fence = 2,
      rc_attempt_state = A_RUNNING, rc_lease_expires_at = 20, rc_hard_deadline = 50,
      rc_accepted_result = None\<rparr>"

definition sample_submission :: "char \<Rightarrow> result_identity" where
  "sample_submission c =
     \<lparr>ri_attempt_id = ''a1'', ri_fence = 2, ri_payload_digest = uniform_digest c\<rparr>"

lemma sample_submission_valid: "is_lower_hex c \<Longrightarrow> has_valid_identity (sample_submission c)"
  by (simp add: has_valid_identity_def sample_submission_def uniform_digest_valid id_pattern_def
      is_alnum_def is_digit_def is_lower_def is_upper_def code_of_def positive_safe_def
      safe_int_def MAX_SAFE_INTEGER_def)

lemma sample_commit:
  "is_lower_hex c \<Longrightarrow> decide_result_commit sample_snapshot (sample_submission c) 10 =
     PRIMARY_COMMIT J_SUCCEEDED A_SUCCEEDED"
  using sample_submission_valid [of c]
  by (simp add: primary_commit_iff)
    (simp add: sample_snapshot_def sample_submission_def has_valid_snapshot_def id_pattern_def
      is_alnum_def is_digit_def is_lower_def is_upper_def code_of_def positive_safe_def
      safe_int_def MAX_SAFE_INTEGER_def)

subsection \<open>Properties\<close>

text \<open>C19: a scan job accepts one result.  After a primary commit every further well-formed submission
is answered without writing: the same attempt, fence and digest is acknowledged as already
committed, the same attempt with another digest is a conflict that is audited, and any other
attempt or fence is stale.\<close>
theorem result_committed_once:
  assumes "decide_result_commit s sub now = PRIMARY_COMMIT js as"
    and "has_valid_identity sub'" and "positive_safe now'"
  shows "decide_result_commit (after_primary_commit s sub) sub' now' =
    (if \<not> same_attempt_and_fence sub sub' then COMMIT_DENIED STALE_ATTEMPT False
     else if ri_payload_digest sub \<noteq> ri_payload_digest sub'
     then COMMIT_DENIED RESULT_DIGEST_CONFLICT True
     else ALREADY_COMMITTED)"
  using assms by (rule after_primary_decision)

theorem result_committed_once_witness:
  "decide_result_commit (after_primary_commit sample_snapshot (sample_submission (CHR ''a'')))
     (sample_submission (CHR ''b'')) 12 = COMMIT_DENIED RESULT_DIGEST_CONFLICT True"
proof -
  have now: "positive_safe 12"
    by (simp add: positive_safe_def safe_int_def MAX_SAFE_INTEGER_def)
  show ?thesis
    using result_committed_once [OF sample_commit [OF hex_samples(1)]
        sample_submission_valid [OF hex_samples(2)] now]
    by (simp add: same_attempt_and_fence_def sample_submission_def)
qed

text \<open>A primary commit is decided only for the current attempt and fence of a running job whose
attempt is running and has neither outlived its lease nor its deadline, and the two states it
installs are the ones the job and attempt transition tables give for a committed result.\<close>
lemma primary_commit_follows_tables:
  "decide_result_commit s sub now = PRIMARY_COMMIT js as \<Longrightarrow>
     ri_attempt_id sub = rc_current_attempt_id s \<and> ri_fence sub = rc_current_fence s \<and>
     now < min (rc_lease_expires_at s) (rc_hard_deadline s) \<and>
     transition_job (rc_job_state s) JE_PRIMARY_RESULT_COMMITTED = Some js \<and>
     transition_attempt (rc_attempt_state s) AE_PRIMARY_RESULT_COMMITTED = Some as"
  by (auto simp: primary_commit_iff)

text \<open>Jobs and attempts make progress and end: whatever events arrive, a job changes state at most
twice and an attempt at most three times, no state is ever entered twice, and a job or attempt
refuses every event exactly when it is in one of its final states.\<close>
lemma lifecycles_end:
  "applied_events transition_job j jes \<le> 2 \<and>
   applied_events transition_attempt a aes \<le> 3 \<and>
   (\<forall>e t. transition_job j e = Some t \<longrightarrow> run_events transition_job t jes \<noteq> j) \<and>
   (\<forall>e t. transition_attempt a e = Some t \<longrightarrow> run_events transition_attempt t aes \<noteq> a) \<and>
   ((\<forall>e. transition_job j e = None) \<longleftrightarrow> job_final j) \<and>
   ((\<forall>e. transition_attempt a e = None) \<longleftrightarrow> attempt_final a)"
proof (intro conjI)
  show "applied_events transition_job j jes \<le> 2"
    using job.applied_bounded [of j jes] by linarith
  show "applied_events transition_attempt a aes \<le> 3"
    using attempt.applied_bounded [of a aes] by linarith
  show "(\<forall>e. transition_job j e = None) \<longleftrightarrow> job_final j" by (rule job.stuck_iff_final)
  show "(\<forall>e. transition_attempt a e = None) \<longleftrightarrow> attempt_final a" by (rule attempt.stuck_iff_final)
qed (use job.never_returns attempt.never_returns in blast)+

end
