(* ===== verification/Guest_Abuse.thy ===== *)
theory Guest_Abuse
  imports Prelude
begin

section \<open>Guest abuse admission and retention decisions\<close>

text \<open>
  Models \<^verbatim>\<open>apps/api/src/guest-abuse\<close>: the policy of \<^verbatim>\<open>model.ts\<close>, the
  admission decision of \<^verbatim>\<open>decide.ts\<close> and the retention decision of
  \<^verbatim>\<open>retention.ts\<close>.
\<close>

subsection \<open>Policy\<close>

definition SESSION_BURST_WINDOW :: int where "SESSION_BURST_WINDOW = 600"
definition SESSION_BURST_LIMIT :: int where "SESSION_BURST_LIMIT = 3"
definition SESSION_DAILY_WINDOW :: int where "SESSION_DAILY_WINDOW = 86400"
definition SESSION_DAILY_LIMIT :: int where "SESSION_DAILY_LIMIT = 10"
definition NETWORK_BURST_WINDOW :: int where "NETWORK_BURST_WINDOW = 600"
definition NETWORK_BURST_LIMIT :: int where "NETWORK_BURST_LIMIT = 20"
definition NETWORK_DAILY_WINDOW :: int where "NETWORK_DAILY_WINDOW = 86400"
definition NETWORK_DAILY_LIMIT :: int where "NETWORK_DAILY_LIMIT = 100"
definition SESSION_CONCURRENCY_LIMIT :: int where "SESSION_CONCURRENCY_LIMIT = 1"
definition NETWORK_CONCURRENCY_LIMIT :: int where "NETWORK_CONCURRENCY_LIMIT = 4"
definition MAX_COUNTER_VALUE :: int where "MAX_COUNTER_VALUE = 1000000"
definition GUEST_IDEMPOTENCY_WINDOW_SECONDS :: int where "GUEST_IDEMPOTENCY_WINDOW_SECONDS = 1800"
definition GUEST_RETENTION_MAX_SECONDS :: int where "GUEST_RETENTION_MAX_SECONDS = 86400"

lemmas abuse_policy =
  SESSION_BURST_WINDOW_def SESSION_BURST_LIMIT_def SESSION_DAILY_WINDOW_def
  SESSION_DAILY_LIMIT_def NETWORK_BURST_WINDOW_def NETWORK_BURST_LIMIT_def
  NETWORK_DAILY_WINDOW_def NETWORK_DAILY_LIMIT_def SESSION_CONCURRENCY_LIMIT_def
  NETWORK_CONCURRENCY_LIMIT_def MAX_COUNTER_VALUE_def

datatype service_state = SERVICE_OPEN | SERVICE_PAUSED

record window_usage =
  wu_count :: int
  wu_reset_at :: int

record abuse_usage =
  us_session_burst :: window_usage
  us_session_daily :: window_usage
  us_network_burst :: window_usage
  us_network_daily :: window_usage
  us_session_active :: int
  us_network_active :: int

record abuse_request =
  aq_session_scope :: string
  aq_network_digest :: string
  aq_now :: int
  aq_service_state :: service_state
  aq_usage :: abuse_usage

datatype abuse_deny_code =
    GUEST_SCANNING_PAUSED
  | SESSION_CONCURRENCY_DENIED
  | SESSION_BURST_DENIED
  | SESSION_DAILY_DENIED
  | NETWORK_CONCURRENCY_DENIED
  | NETWORK_BURST_DENIED
  | NETWORK_DAILY_DENIED

text \<open>
  The reservation of an admission repeats the request's scope, digest and clock;
  a denial may carry \<^verbatim>\<open>retry_after_seconds\<close>.
\<close>

datatype abuse_decision =
    ALLOW_NEW_SCAN string string int
  | INVALID_ABUSE_CONTEXT
  | ABUSE_DENIED abuse_deny_code "int option"

subsection \<open>Reading the request\<close>

definition ABUSE_REQUEST_KEYS :: "string list" where
  "ABUSE_REQUEST_KEYS = [''guest_session_scope'', ''network_signal_digest'',
     ''now_unix_seconds'', ''service_state'', ''usage'']"

definition USAGE_KEYS :: "string list" where
  "USAGE_KEYS = [''session_burst'', ''session_daily'', ''network_burst'', ''network_daily'',
     ''session_active'', ''network_active'']"

definition WINDOW_KEYS :: "string list" where
  "WINDOW_KEYS = [''count'', ''reset_at_unix_seconds'']"

fun as_big :: "jsval \<Rightarrow> int option" where
  "as_big (JBig n) = Some n"
| "as_big _ = None"

definition as_counter :: "jsval \<Rightarrow> int option" where
  "as_counter v = as_bounded 0 MAX_COUNTER_VALUE v"

definition read_window_usage :: "jsval \<Rightarrow> int \<Rightarrow> int \<Rightarrow> window_usage option" where
  "read_window_usage v now maximum_window =
     do {
       require (exact_record v WINDOW_KEYS);
       count \<leftarrow> as_counter (get_prop v ''count'');
       reset \<leftarrow> as_big (get_prop v ''reset_at_unix_seconds'');
       require (\<not> reset \<le> now \<and> \<not> reset > UINT64_MAX \<and> \<not> reset > now + maximum_window);
       Some \<lparr>wu_count = count, wu_reset_at = reset\<rparr>
     }"

definition read_usage_snapshot :: "jsval \<Rightarrow> int \<Rightarrow> abuse_usage option" where
  "read_usage_snapshot v now =
     do {
       require (exact_record v USAGE_KEYS);
       sb \<leftarrow> read_window_usage (get_prop v ''session_burst'') now SESSION_BURST_WINDOW;
       sd \<leftarrow> read_window_usage (get_prop v ''session_daily'') now SESSION_DAILY_WINDOW;
       nb \<leftarrow> read_window_usage (get_prop v ''network_burst'') now NETWORK_BURST_WINDOW;
       nd \<leftarrow> read_window_usage (get_prop v ''network_daily'') now NETWORK_DAILY_WINDOW;
       sa \<leftarrow> as_counter (get_prop v ''session_active'');
       na \<leftarrow> as_counter (get_prop v ''network_active'');
       Some \<lparr>us_session_burst = sb, us_session_daily = sd, us_network_burst = nb,
         us_network_daily = nd, us_session_active = sa, us_network_active = na\<rparr>
     }"

definition read_service_state :: "jsval \<Rightarrow> service_state option" where
  "read_service_state v =
     (if v = JStr ''OPEN'' then Some SERVICE_OPEN
      else if v = JStr ''PAUSED'' then Some SERVICE_PAUSED else None)"

definition snapshot_abuse_request :: "jsval \<Rightarrow> abuse_request option" where
  "snapshot_abuse_request v =
     do {
       require (exact_record v ABUSE_REQUEST_KEYS);
       scope \<leftarrow> as_str_matching sha256_pattern (get_prop v ''guest_session_scope'');
       digest \<leftarrow> as_str_matching hmac_sha256_pattern (get_prop v ''network_signal_digest'');
       now \<leftarrow> as_u64 (get_prop v ''now_unix_seconds'');
       state \<leftarrow> read_service_state (get_prop v ''service_state'');
       usage \<leftarrow> read_usage_snapshot (get_prop v ''usage'') now;
       Some \<lparr>aq_session_scope = scope, aq_network_digest = digest, aq_now = now,
         aq_service_state = state, aq_usage = usage\<rparr>
     }"

subsection \<open>Admission\<close>

definition retry_after :: "int \<Rightarrow> int \<Rightarrow> int" where
  "retry_after now reset_at = reset_at - now"

text \<open>The tests of \<^verbatim>\<open>decideGuestAbuseAdmission\<close> after the request is read.\<close>

definition admit :: "abuse_request \<Rightarrow> abuse_decision" where
  "admit r =
     (let u = aq_usage r; wait = (\<lambda>w. Some (retry_after (aq_now r) (wu_reset_at w)))
      in if aq_service_state r = SERVICE_PAUSED then ABUSE_DENIED GUEST_SCANNING_PAUSED None
         else if us_session_active u \<ge> SESSION_CONCURRENCY_LIMIT
         then ABUSE_DENIED SESSION_CONCURRENCY_DENIED None
         else if wu_count (us_session_burst u) \<ge> SESSION_BURST_LIMIT
         then ABUSE_DENIED SESSION_BURST_DENIED (wait (us_session_burst u))
         else if wu_count (us_session_daily u) \<ge> SESSION_DAILY_LIMIT
         then ABUSE_DENIED SESSION_DAILY_DENIED (wait (us_session_daily u))
         else if us_network_active u \<ge> NETWORK_CONCURRENCY_LIMIT
         then ABUSE_DENIED NETWORK_CONCURRENCY_DENIED None
         else if wu_count (us_network_burst u) \<ge> NETWORK_BURST_LIMIT
         then ABUSE_DENIED NETWORK_BURST_DENIED (wait (us_network_burst u))
         else if wu_count (us_network_daily u) \<ge> NETWORK_DAILY_LIMIT
         then ABUSE_DENIED NETWORK_DAILY_DENIED (wait (us_network_daily u))
         else ALLOW_NEW_SCAN (aq_session_scope r) (aq_network_digest r) (aq_now r))"

definition decide_guest_abuse_admission :: "jsval \<Rightarrow> abuse_decision" where
  "decide_guest_abuse_admission v =
     (case snapshot_abuse_request v of None \<Rightarrow> INVALID_ABUSE_CONTEXT | Some r \<Rightarrow> admit r)"

subsection \<open>Retention\<close>

datatype retention_decision =
    RETENTION_KEEP int
  | RETENTION_DELETE_NOW
  | INVALID_RETENTION_CONTEXT

definition RETENTION_RECORD_KEYS :: "string list" where
  "RETENTION_RECORD_KEYS = [''guest_scan_id'', ''created_at_unix_seconds'',
     ''result_access_expires_at_unix_seconds'', ''deletion_deadline_unix_seconds'']"

definition decide_guest_retention :: "jsval \<Rightarrow> jsval \<Rightarrow> retention_decision" where
  "decide_guest_retention v now_value =
     (case do {
        require (exact_record v RETENTION_RECORD_KEYS);
        now \<leftarrow> as_u64 now_value;
        scan \<leftarrow> as_str_matching id_pattern (get_prop v ''guest_scan_id'');
        created \<leftarrow> as_u64 (get_prop v ''created_at_unix_seconds'');
        access \<leftarrow> as_u64 (get_prop v ''result_access_expires_at_unix_seconds'');
        deadline \<leftarrow> as_u64 (get_prop v ''deletion_deadline_unix_seconds'');
        require (\<not> created > now \<and>
          \<not> created > UINT64_MAX - GUEST_RETENTION_MAX_SECONDS \<and>
          deadline = created + GUEST_RETENTION_MAX_SECONDS \<and>
          access = created + GUEST_IDEMPOTENCY_WINDOW_SECONDS \<and>
          \<not> access > deadline);
        Some (now, deadline)
      } of
        None \<Rightarrow> INVALID_RETENTION_CONTEXT
      | Some (now, deadline) \<Rightarrow>
          if now \<ge> deadline then RETENTION_DELETE_NOW else RETENTION_KEEP (deadline - now))"

subsection \<open>Facts about the decisions\<close>

lemma as_big_Some: "as_big v = Some n \<longleftrightarrow> v = JBig n"
  by (cases v) auto

definition window_object :: "window_usage \<Rightarrow> jsval" where
  "window_object w =
     JObj [(''count'', JNum (wu_count w)), (''reset_at_unix_seconds'', JBig (wu_reset_at w))]"

definition valid_window :: "int \<Rightarrow> int \<Rightarrow> window_usage \<Rightarrow> bool" where
  "valid_window now maximum_window w \<longleftrightarrow>
     0 \<le> wu_count w \<and> wu_count w \<le> MAX_COUNTER_VALUE \<and> now < wu_reset_at w \<and>
     wu_reset_at w \<le> UINT64_MAX \<and> wu_reset_at w \<le> now + maximum_window"

lemma read_window_usage_Some:
  "read_window_usage v now m = Some w \<Longrightarrow> valid_window now m w"
  by (auto simp: read_window_usage_def valid_window_def as_counter_def guard_simps as_big_Some
      Option.bind_eq_Some_conv)

lemma read_window_object:
  "read_window_usage (window_object w) now m = (if valid_window now m w then Some w else None)"
  by (auto simp: read_window_usage_def window_object_def exact_record_def has_exact_keys_def
      WINDOW_KEYS_def as_counter_def as_bounded_def valid_window_def safe_int_def
      MAX_COUNTER_VALUE_def MAX_SAFE_INTEGER_def require_def)

definition usage_within_limits :: "abuse_usage \<Rightarrow> bool" where
  "usage_within_limits u \<longleftrightarrow>
     us_session_active u < SESSION_CONCURRENCY_LIMIT \<and>
     wu_count (us_session_burst u) < SESSION_BURST_LIMIT \<and>
     wu_count (us_session_daily u) < SESSION_DAILY_LIMIT \<and>
     us_network_active u < NETWORK_CONCURRENCY_LIMIT \<and>
     wu_count (us_network_burst u) < NETWORK_BURST_LIMIT \<and>
     wu_count (us_network_daily u) < NETWORK_DAILY_LIMIT"

lemma admit_allows_iff:
  "admit r = ALLOW_NEW_SCAN a b c \<longleftrightarrow>
     aq_service_state r = SERVICE_OPEN \<and> usage_within_limits (aq_usage r) \<and>
     a = aq_session_scope r \<and> b = aq_network_digest r \<and> c = aq_now r"
  by (cases "aq_service_state r") (auto simp: admit_def usage_within_limits_def Let_def)

lemma admit_not_invalid: "admit r \<noteq> INVALID_ABUSE_CONTEXT"
  by (auto simp: admit_def Let_def)

lemma snapshot_usage_windows:
  assumes "snapshot_abuse_request v = Some r"
  shows "valid_window (aq_now r) SESSION_BURST_WINDOW (us_session_burst (aq_usage r))"
    "valid_window (aq_now r) SESSION_DAILY_WINDOW (us_session_daily (aq_usage r))"
    "valid_window (aq_now r) NETWORK_BURST_WINDOW (us_network_burst (aq_usage r))"
    "valid_window (aq_now r) NETWORK_DAILY_WINDOW (us_network_daily (aq_usage r))"
  using assms
  by (auto simp: snapshot_abuse_request_def read_usage_snapshot_def Option.bind_eq_Some_conv
      dest: read_window_usage_Some)

subsection \<open>Properties\<close>

text \<open>C28: Admission lets a guest scan in exactly when the service is open and all six
  counters of the request are below their limits; a denial that tells the
  client when to retry names a moment strictly in the future and never later
  than one day.\<close>

theorem admission_iff_within_limits:
  assumes "snapshot_abuse_request v = Some r"
  shows "(decide_guest_abuse_admission v =
      ALLOW_NEW_SCAN (aq_session_scope r) (aq_network_digest r) (aq_now r) \<longleftrightarrow>
      aq_service_state r = SERVICE_OPEN \<and> usage_within_limits (aq_usage r)) \<and>
    (\<forall>code wait. decide_guest_abuse_admission v = ABUSE_DENIED code (Some wait) \<longrightarrow>
      0 < wait \<and> wait \<le> 86400)"
proof (intro conjI allI impI)
  show "(decide_guest_abuse_admission v =
      ALLOW_NEW_SCAN (aq_session_scope r) (aq_network_digest r) (aq_now r)) =
      (aq_service_state r = SERVICE_OPEN \<and> usage_within_limits (aq_usage r))"
    using assms by (simp add: decide_guest_abuse_admission_def admit_allows_iff)
next
  fix code wait
  assume "decide_guest_abuse_admission v = ABUSE_DENIED code (Some wait)"
  then show "0 < wait" "wait \<le> 86400"
    using assms snapshot_usage_windows [OF assms]
    by (auto simp: decide_guest_abuse_admission_def admit_def Let_def retry_after_def
        valid_window_def abuse_policy split: if_splits)
qed

definition sample_abuse_request :: "int \<Rightarrow> jsval" where
  "sample_abuse_request burst =
     JObj [(''guest_session_scope'', JStr (''sha256:'' @ replicate 64 (CHR ''a''))),
       (''network_signal_digest'', JStr (''hmac-sha256:'' @ replicate 64 (CHR ''b''))),
       (''now_unix_seconds'', JBig 100), (''service_state'', JStr ''OPEN''),
       (''usage'', JObj [
         (''session_burst'', window_object \<lparr>wu_count = burst, wu_reset_at = 150\<rparr>),
         (''session_daily'', window_object \<lparr>wu_count = 4, wu_reset_at = 9000\<rparr>),
         (''network_burst'', window_object \<lparr>wu_count = 5, wu_reset_at = 150\<rparr>),
         (''network_daily'', window_object \<lparr>wu_count = 6, wu_reset_at = 9000\<rparr>),
         (''session_active'', JNum 0), (''network_active'', JNum 1)])]"

lemma sample_abuse_request_snapshot:
  "snapshot_abuse_request (sample_abuse_request 3) =
     Some \<lparr>aq_session_scope = ''sha256:'' @ replicate 64 (CHR ''a''),
       aq_network_digest = ''hmac-sha256:'' @ replicate 64 (CHR ''b''), aq_now = 100,
       aq_service_state = SERVICE_OPEN,
       aq_usage = \<lparr>us_session_burst = \<lparr>wu_count = 3, wu_reset_at = 150\<rparr>,
         us_session_daily = \<lparr>wu_count = 4, wu_reset_at = 9000\<rparr>,
         us_network_burst = \<lparr>wu_count = 5, wu_reset_at = 150\<rparr>,
         us_network_daily = \<lparr>wu_count = 6, wu_reset_at = 9000\<rparr>,
         us_session_active = 0, us_network_active = 1\<rparr>\<rparr>"
  by code_simp

theorem admission_iff_within_limits_witness:
  "decide_guest_abuse_admission (sample_abuse_request 3) =
      ABUSE_DENIED SESSION_BURST_DENIED (Some 50) \<and> (0::int) < 50"
proof -
  have "decide_guest_abuse_admission (sample_abuse_request 3) =
      ABUSE_DENIED SESSION_BURST_DENIED (Some 50)"
    by (simp add: decide_guest_abuse_admission_def sample_abuse_request_snapshot admit_def Let_def
        abuse_policy retry_after_def)
  then show ?thesis
    using admission_iff_within_limits [OF sample_abuse_request_snapshot] by blast
qed

end
