(* ===== verification/Guest_Idempotency.thy ===== *)
theory Guest_Idempotency
  imports Guest_Token Guest_Abuse
begin

section \<open>Idempotent creation of guest scans: the decision\<close>

text \<open>
  Models \<^verbatim>\<open>apps/api/src/guest-idempotency\<close>: given the request and the record
  found under the same key, decide whether to create, replace an expired record,
  replay the earlier answer or refuse.
\<close>

definition GUEST_SCAN_ENDPOINT_OPERATION :: string where
  "GUEST_SCAN_ENDPOINT_OPERATION = ''POST:/v1/public/scans''"

record idempotency_request =
  iq_session_scope :: string
  iq_key :: string
  iq_request_hash :: string
  iq_now :: int

record idempotency_record =
  ir_principal_scope :: string
  ir_operation :: string
  ir_key :: string
  ir_request_hash :: string
  ir_created_at :: int
  ir_expires_at :: int
  ir_token_metadata :: token_metadata

record idempotency_lookup =
  il_principal_scope :: string
  il_operation :: string
  il_key :: string

datatype idempotency_fail =
    IDEM_INVALID_REQUEST
  | IDEM_INVALID_RECORD
  | IDEMPOTENCY_KEY_REUSED
  | RESULT_ACCESS_REVOKED
  | RESULT_TOKEN_UNAVAILABLE

datatype idempotency_result =
    IDEM_CREATE idempotency_lookup string int
  | IDEM_REPLACE_EXPIRED idempotency_lookup string int
  | IDEM_REPLAY string string int int
  | IDEM_REFUSED idempotency_fail

definition IDEMPOTENCY_REQUEST_KEYS :: "string list" where
  "IDEMPOTENCY_REQUEST_KEYS =
     [''guest_session_scope'', ''idempotency_key'', ''request_hash'', ''now_unix_seconds'']"

definition IDEMPOTENCY_RECORD_KEYS :: "string list" where
  "IDEMPOTENCY_RECORD_KEYS = [''principal_scope'', ''endpoint_operation'', ''idempotency_key'',
     ''request_hash'', ''created_at_unix_seconds'', ''idempotency_expires_at_unix_seconds'',
     ''token_metadata'']"

definition parse_idempotency_request :: "jsval \<Rightarrow> idempotency_request option" where
  "parse_idempotency_request v =
     do {
       require (exact_object v IDEMPOTENCY_REQUEST_KEYS);
       scope \<leftarrow> as_str_matching sha256_pattern (get_prop v ''guest_session_scope'');
       key \<leftarrow> as_str_matching idempotency_key_pattern (get_prop v ''idempotency_key'');
       hash \<leftarrow> as_str_matching sha256_pattern (get_prop v ''request_hash'');
       now \<leftarrow> as_u64 (get_prop v ''now_unix_seconds'');
       Some \<lparr>iq_session_scope = scope, iq_key = key, iq_request_hash = hash, iq_now = now\<rparr>
     }"

definition principal_scope_valid :: "string \<Rightarrow> bool" where
  "principal_scope_valid s \<longleftrightarrow>
     starts_with ''GUEST_SESSION:'' s \<and> sha256_pattern (drop (length ''GUEST_SESSION:'') s)"

definition parse_idempotency_record :: "jsval \<Rightarrow> idempotency_record option" where
  "parse_idempotency_record v =
     do {
       require (exact_object v IDEMPOTENCY_RECORD_KEYS);
       metadata \<leftarrow> snapshot_guest_result_token_metadata (get_prop v ''token_metadata'');
       scope \<leftarrow> as_str_matching principal_scope_valid (get_prop v ''principal_scope'');
       key \<leftarrow> as_str_matching idempotency_key_pattern (get_prop v ''idempotency_key'');
       hash \<leftarrow> as_str_matching sha256_pattern (get_prop v ''request_hash'');
       require (get_prop v ''endpoint_operation'' = JStr GUEST_SCAN_ENDPOINT_OPERATION);
       created \<leftarrow> as_u64 (get_prop v ''created_at_unix_seconds'');
       expires \<leftarrow> as_u64 (get_prop v ''idempotency_expires_at_unix_seconds'');
       require (\<not> created + GUEST_IDEMPOTENCY_WINDOW_SECONDS > UINT64_MAX \<and>
         created + GUEST_IDEMPOTENCY_WINDOW_SECONDS = expires \<and>
         created + GUEST_IDEMPOTENCY_WINDOW_SECONDS = tm_access_expires_at metadata);
       Some \<lparr>ir_principal_scope = scope, ir_operation = GUEST_SCAN_ENDPOINT_OPERATION,
         ir_key = key, ir_request_hash = hash, ir_created_at = created, ir_expires_at = expires,
         ir_token_metadata = metadata\<rparr>
     }"

definition lookup_for :: "idempotency_request \<Rightarrow> idempotency_lookup" where
  "lookup_for r =
     \<lparr>il_principal_scope = ''GUEST_SESSION:'' @ iq_session_scope r,
      il_operation = GUEST_SCAN_ENDPOINT_OPERATION, il_key = iq_key r\<rparr>"

definition create_decision ::
  "(idempotency_lookup \<Rightarrow> string \<Rightarrow> int \<Rightarrow> idempotency_result) \<Rightarrow> idempotency_request \<Rightarrow>
   idempotency_result" where
  "create_decision action r =
     (let expiry = iq_now r + GUEST_IDEMPOTENCY_WINDOW_SECONDS
      in if expiry > UINT64_MAX then IDEM_REFUSED IDEM_INVALID_REQUEST
         else action (lookup_for r) (iq_request_hash r) expiry)"

definition decide_guest_scan_idempotency ::
  "jsval \<Rightarrow> jsval \<Rightarrow> (int \<Rightarrow> bytes option) \<Rightarrow> idempotency_result" where
  "decide_guest_scan_idempotency request_value existing_value keyring =
     (case parse_idempotency_request request_value of
        None \<Rightarrow> IDEM_REFUSED IDEM_INVALID_REQUEST
      | Some r \<Rightarrow>
          let lookup = lookup_for r
          in if existing_value = JNull then create_decision IDEM_CREATE r
             else case parse_idempotency_record existing_value of
               None \<Rightarrow> IDEM_REFUSED IDEM_INVALID_RECORD
             | Some e \<Rightarrow>
                 if ir_principal_scope e \<noteq> il_principal_scope lookup \<or>
                    ir_operation e \<noteq> il_operation lookup \<or> ir_key e \<noteq> il_key lookup
                 then IDEM_REFUSED IDEM_INVALID_RECORD
                 else if iq_now r \<ge> ir_expires_at e then create_decision IDEM_REPLACE_EXPIRED r
                 else if ir_request_hash e \<noteq> iq_request_hash r
                 then IDEM_REFUSED IDEMPOTENCY_KEY_REUSED
                 else if tm_access_revoked_at (ir_token_metadata e) \<noteq> None
                 then IDEM_REFUSED RESULT_ACCESS_REVOKED
                 else (case keyring (tm_key_version (ir_token_metadata e)) of
                         None \<Rightarrow> IDEM_REFUSED RESULT_TOKEN_UNAVAILABLE
                       | Some key \<Rightarrow>
                           (case derive_guest_result_token (ir_token_metadata e) key of
                              None \<Rightarrow> IDEM_REFUSED RESULT_TOKEN_UNAVAILABLE
                            | Some token \<Rightarrow>
                                IDEM_REPLAY (tm_guest_scan_id (ir_token_metadata e)) token
                                  (tm_access_expires_at (ir_token_metadata e))
                                  (tm_access_expires_at (ir_token_metadata e) - iq_now r))))"

subsection \<open>Objects the callers build\<close>

definition request_object :: "idempotency_request \<Rightarrow> jsval" where
  "request_object r =
     JObj [(''guest_session_scope'', JStr (iq_session_scope r)),
       (''idempotency_key'', JStr (iq_key r)), (''request_hash'', JStr (iq_request_hash r)),
       (''now_unix_seconds'', JBig (iq_now r))]"

definition record_object :: "idempotency_record \<Rightarrow> jsval" where
  "record_object e =
     JObj [(''principal_scope'', JStr (ir_principal_scope e)),
       (''endpoint_operation'', JStr (ir_operation e)), (''idempotency_key'', JStr (ir_key e)),
       (''request_hash'', JStr (ir_request_hash e)),
       (''created_at_unix_seconds'', JBig (ir_created_at e)),
       (''idempotency_expires_at_unix_seconds'', JBig (ir_expires_at e)),
       (''token_metadata'', metadata_object (ir_token_metadata e))]"

definition valid_request :: "idempotency_request \<Rightarrow> bool" where
  "valid_request r \<longleftrightarrow>
     sha256_pattern (iq_session_scope r) \<and> idempotency_key_pattern (iq_key r) \<and>
     sha256_pattern (iq_request_hash r) \<and> is_u64 (iq_now r)"

definition valid_record :: "idempotency_record \<Rightarrow> bool" where
  "valid_record e \<longleftrightarrow>
     principal_scope_valid (ir_principal_scope e) \<and>
     ir_operation e = GUEST_SCAN_ENDPOINT_OPERATION \<and> idempotency_key_pattern (ir_key e) \<and>
     sha256_pattern (ir_request_hash e) \<and> is_u64 (ir_created_at e) \<and>
     is_u64 (ir_expires_at e) \<and>
     ir_expires_at e = ir_created_at e + GUEST_IDEMPOTENCY_WINDOW_SECONDS \<and>
     tm_access_expires_at (ir_token_metadata e) = ir_expires_at e \<and>
     valid_metadata (ir_token_metadata e)"

lemma parse_request_object:
  "valid_request r \<Longrightarrow> parse_idempotency_request (request_object r) = Some r"
  by (simp add: parse_idempotency_request_def request_object_def exact_object_def
      IDEMPOTENCY_REQUEST_KEYS_def as_str_matching_def valid_request_def is_u64_def)

lemma parse_request_valid: "parse_idempotency_request v = Some r \<Longrightarrow> valid_request r"
  by (auto simp: parse_idempotency_request_def valid_request_def is_u64_def guard_simps
      Option.bind_eq_Some_conv)

lemma parse_record_object:
  "valid_record e \<Longrightarrow> parse_idempotency_record (record_object e) = Some e"
  by (simp add: parse_idempotency_record_def record_object_def exact_object_def
      IDEMPOTENCY_RECORD_KEYS_def as_str_matching_def valid_record_def is_u64_def
      snapshot_metadata_object)

lemma parse_record_valid: "parse_idempotency_record v = Some e \<Longrightarrow> valid_record e"
  by (auto simp: parse_idempotency_record_def valid_record_def is_u64_def guard_simps
      Option.bind_eq_Some_conv dest: snapshot_metadata_valid)

lemma record_object_not_null: "record_object e \<noteq> JNull"
  by (simp add: record_object_def)

text \<open>The record found is the one stored for this session, operation and key.\<close>

definition matches_lookup :: "idempotency_record \<Rightarrow> idempotency_request \<Rightarrow> bool" where
  "matches_lookup e r \<longleftrightarrow>
     ir_principal_scope e = ''GUEST_SESSION:'' @ iq_session_scope r \<and> ir_key e = iq_key r"

lemma decide_existing:
  assumes "parse_idempotency_request v = Some r" "parse_idempotency_record w = Some e"
    and "matches_lookup e r"
  shows "decide_guest_scan_idempotency v w keyring =
    (if iq_now r \<ge> ir_expires_at e then create_decision IDEM_REPLACE_EXPIRED r
     else if ir_request_hash e \<noteq> iq_request_hash r then IDEM_REFUSED IDEMPOTENCY_KEY_REUSED
     else if tm_access_revoked_at (ir_token_metadata e) \<noteq> None
     then IDEM_REFUSED RESULT_ACCESS_REVOKED
     else (case keyring (tm_key_version (ir_token_metadata e)) of
             None \<Rightarrow> IDEM_REFUSED RESULT_TOKEN_UNAVAILABLE
           | Some key \<Rightarrow>
               (case derive_guest_result_token (ir_token_metadata e) key of
                  None \<Rightarrow> IDEM_REFUSED RESULT_TOKEN_UNAVAILABLE
                | Some token \<Rightarrow>
                    IDEM_REPLAY (tm_guest_scan_id (ir_token_metadata e)) token
                      (tm_access_expires_at (ir_token_metadata e))
                      (tm_access_expires_at (ir_token_metadata e) - iq_now r))))"
proof -
  have "w \<noteq> JNull" using assms(2)
    by (auto simp: parse_idempotency_record_def exact_object_def)
  moreover have "ir_operation e = GUEST_SCAN_ENDPOINT_OPERATION"
    using parse_record_valid [OF assms(2)] by (simp add: valid_record_def)
  ultimately show ?thesis
    using assms
    by (simp add: decide_guest_scan_idempotency_def lookup_for_def Let_def matches_lookup_def)
qed

end
