(* ===== verification/Guest_Schema.thy ===== *)
theory Guest_Schema
  imports Tables Scan_Protocol Guest_Idempotency
begin

section \<open>The guest database: rows, constraints and statements\<close>

text \<open>
  Models the tables of \<^verbatim>\<open>apps/api/db/migrations\<close> (0001 to 0004 and 0007): rows
  as records, \<^verbatim>\<open>CHECK\<close> constraints and triggers as predicates, and the kinds
  of statements the persistence code runs.  A statement that violates a
  constraint raises an error, which is \<open>None\<close>; so is an \<^verbatim>\<open>UPDATE\<close> that finds
  no row, because every caller throws when \<^verbatim>\<open>rowCount\<close> is not one.
  Timestamps are whole seconds.  The columns that a constraint fixes to one
  value (policy, profile, operation) are left out.  A comparison with \<^verbatim>\<open>NULL\<close> is
  unknown, and a \<^verbatim>\<open>CHECK\<close> lets an unknown pass.
\<close>

subsection \<open>Rows\<close>

record scan_row =
  gs_canonical_target :: string
  gs_session_scope :: bytes
  gs_idempotency_key :: string
  gs_request_hash :: bytes
  gs_created_at :: int
  gs_updated_at :: int
  gs_idempotency_expires_at :: int
  gs_deletion_deadline :: int
  gs_job_state :: job_state
  gs_token_version :: int
  gs_token_nonce :: bytes
  gs_token_key_version :: int
  gs_access_expires_at :: int
  gs_access_revoked_at :: "int option"
  gs_current_attempt_id :: "string option"
  gs_current_fence :: int
  gs_accepted_attempt_id :: "string option"
  gs_accepted_fence :: "int option"
  gs_accepted_digest :: "bytes option"

record attempt_row =
  at_scan_id :: string
  at_attempt_no :: int
  at_fence :: int
  at_lease_version :: int
  at_lease_expires_at :: "int option"
  at_hard_deadline :: int
  at_state :: attempt_state
  at_created_at :: int
  at_updated_at :: int
  at_started_at :: "int option"
  at_finished_at :: "int option"

record result_row =
  rr_attempt_id :: string
  rr_fence :: int
  rr_digest :: bytes
  rr_completed_at :: int
  rr_projection :: jsval

datatype release_reason =
  RR_TERMINAL_RESULT | RR_EXPIRED_REPLACEMENT | RR_CANCELLED | RR_FAILED | RR_EXPIRED | RR_DELETION

record reservation_row =
  rv_session_scope :: bytes
  rv_network_digest :: bytes
  rv_reserved_at :: int
  rv_deletion_deadline :: int
  rv_released_at :: "int option"
  rv_release_reason :: "release_reason option"

datatype window_dimension = SESSION_BURST | SESSION_DAILY | NETWORK_BURST | NETWORK_DAILY
datatype active_dimension = SESSION_ACTIVE | NETWORK_ACTIVE

record window_row =
  wr_usage_count :: int
  wr_reset_at :: int
  wr_updated_at :: int

record active_row =
  ac_count :: int
  ac_updated_at :: int

datatype rejection_code =
  REJ_SUBMISSION_REJECTED | REJ_COMMIT commit_deny_code | REJ_PERSISTENCE_UNAVAILABLE

record rejection_row =
  rj_security_relevant :: bool
  rj_occurred_at :: int

record revocation_row =
  rk_revoked_at :: int
  rk_expires_at :: int

record guest_db =
  db_scans :: "(string, scan_row) table"
  db_attempts :: "(string, attempt_row) table"
  db_results :: "(string, result_row) table"
  db_reservations :: "(string, reservation_row) table"
  db_windows :: "(window_dimension \<times> bytes, window_row) table"
  db_active :: "(active_dimension \<times> bytes, active_row) table"
  db_service_state :: service_state
  db_rejections :: "(string \<times> string \<times> int \<times> rejection_code, rejection_row) table"
  db_revocations :: "(bytes, revocation_row) table"

text \<open>The database right after the migrations.\<close>

definition migrated_db :: guest_db where
  "migrated_db =
     \<lparr>db_scans = [], db_attempts = [], db_results = [], db_reservations = [], db_windows = [],
      db_active = [], db_service_state = SERVICE_OPEN, db_rejections = [], db_revocations = []\<rparr>"

subsection \<open>Constraints of \<^verbatim>\<open>guest_scans\<close>\<close>

definition SCAN_ACCESS_SECONDS :: int where "SCAN_ACCESS_SECONDS = 1800"
definition SCAN_RETENTION_SECONDS :: int where "SCAN_RETENTION_SECONDS = 86400"

text \<open>\<^verbatim>\<open>guest_scans_accepted_shape\<close>, with the unknown comparisons.\<close>

definition accepted_shape :: "scan_row \<Rightarrow> bool" where
  "accepted_shape s \<longleftrightarrow>
     (gs_job_state s = J_SUCCEEDED \<and> gs_accepted_digest s \<noteq> None \<and>
      (gs_accepted_attempt_id s = None \<or> gs_current_attempt_id s = None \<or>
       gs_accepted_attempt_id s = gs_current_attempt_id s) \<and>
      (gs_accepted_fence s = None \<or> gs_accepted_fence s = Some (gs_current_fence s))) \<or>
     (gs_job_state s \<noteq> J_SUCCEEDED \<and> gs_accepted_attempt_id s = None \<and>
      gs_accepted_fence s = None \<and> gs_accepted_digest s = None)"

definition scan_time_contract :: "scan_row \<Rightarrow> bool" where
  "scan_time_contract s \<longleftrightarrow>
     gs_updated_at s \<ge> gs_created_at s \<and> gs_updated_at s \<le> gs_deletion_deadline s \<and>
     gs_idempotency_expires_at s = gs_created_at s + SCAN_ACCESS_SECONDS \<and>
     gs_access_expires_at s = gs_idempotency_expires_at s \<and>
     gs_deletion_deadline s = gs_created_at s + SCAN_RETENTION_SECONDS \<and>
     (case gs_access_revoked_at s of
        None \<Rightarrow> True | Some t \<Rightarrow> gs_created_at s \<le> t \<and> t \<le> gs_updated_at s)"

definition scan_shape :: "scan_row \<Rightarrow> bool" where
  "scan_shape s \<longleftrightarrow>
     ((gs_current_attempt_id s = None \<and> gs_current_fence s = 0) \<or>
      (gs_current_attempt_id s \<noteq> None \<and> gs_current_fence s > 0)) \<and>
     (gs_job_state s \<noteq> J_QUEUED \<or> gs_current_attempt_id s = None) \<and>
     (gs_job_state s \<noteq> J_RUNNING \<or> gs_current_attempt_id s \<noteq> None) \<and>
     accepted_shape s"

definition scan_columns :: "scan_row \<Rightarrow> bool" where
  "scan_columns s \<longleftrightarrow>
     length (gs_canonical_target s) \<le> 253 \<and>
     js_lower (gs_canonical_target s) = gs_canonical_target s \<and>
     \<not> (gs_canonical_target s \<noteq> [] \<and> last (gs_canonical_target s) = CHR ''.'') \<and>
     length (gs_session_scope s) = 32 \<and> idempotency_key_pattern (gs_idempotency_key s) \<and>
     length (gs_request_hash s) = 32 \<and> gs_token_version s \<ge> 0 \<and>
     length (gs_token_nonce s) = 32 \<and>
     0 \<le> gs_token_key_version s \<and> gs_token_key_version s \<le> UINT32_MAX \<and>
     0 \<le> gs_current_fence s \<and> gs_current_fence s \<le> MAX_SAFE_INTEGER \<and>
     (case gs_accepted_fence s of None \<Rightarrow> True | Some f \<Rightarrow> 1 \<le> f \<and> f \<le> MAX_SAFE_INTEGER) \<and>
     (case gs_accepted_digest s of None \<Rightarrow> True | Some d \<Rightarrow> length d = 32)"

definition scan_checks :: "scan_row \<Rightarrow> bool" where
  "scan_checks s \<longleftrightarrow> scan_columns s \<and> scan_time_contract s \<and> scan_shape s"

text \<open>The trigger \<^verbatim>\<open>guard_guest_scan_update\<close>: its \<^verbatim>\<open>INSERT\<close> and \<^verbatim>\<open>UPDATE\<close> parts.\<close>

definition guard_scan_insert :: "scan_row \<Rightarrow> bool" where
  "guard_scan_insert s \<longleftrightarrow>
     gs_job_state s = J_QUEUED \<and> gs_updated_at s = gs_created_at s \<and>
     gs_current_attempt_id s = None \<and> gs_current_fence s = 0 \<and>
     gs_accepted_attempt_id s = None \<and> gs_accepted_fence s = None \<and>
     gs_accepted_digest s = None \<and> gs_access_revoked_at s = None"

definition sql_job_transition :: "job_state \<Rightarrow> job_state \<Rightarrow> bool" where
  "sql_job_transition old new \<longleftrightarrow>
     (old = J_QUEUED \<and> new \<in> {J_RUNNING, J_CANCELLED, J_EXPIRED}) \<or>
     (old = J_RUNNING \<and> new \<in> {J_SUCCEEDED, J_FAILED, J_CANCELLED, J_EXPIRED})"

definition same_scan_identity :: "scan_row \<Rightarrow> scan_row \<Rightarrow> bool" where
  "same_scan_identity new old \<longleftrightarrow>
     gs_canonical_target new = gs_canonical_target old \<and>
     gs_session_scope new = gs_session_scope old \<and>
     gs_idempotency_key new = gs_idempotency_key old \<and>
     gs_request_hash new = gs_request_hash old \<and> gs_created_at new = gs_created_at old \<and>
     gs_idempotency_expires_at new = gs_idempotency_expires_at old \<and>
     gs_deletion_deadline new = gs_deletion_deadline old \<and>
     gs_token_version new = gs_token_version old \<and> gs_token_nonce new = gs_token_nonce old \<and>
     gs_token_key_version new = gs_token_key_version old \<and>
     gs_access_expires_at new = gs_access_expires_at old"

definition guard_scan_update :: "scan_row \<Rightarrow> scan_row \<Rightarrow> bool" where
  "guard_scan_update old new \<longleftrightarrow>
     same_scan_identity new old \<and>
     \<not> gs_updated_at new < gs_updated_at old \<and>
     \<not> (gs_access_revoked_at old \<noteq> None \<and>
         gs_access_revoked_at new \<noteq> gs_access_revoked_at old) \<and>
     \<not> (gs_current_attempt_id old \<noteq> None \<and>
         (gs_current_attempt_id new = None \<or> gs_current_fence new < gs_current_fence old \<or>
          (gs_current_attempt_id new = gs_current_attempt_id old \<and>
           gs_current_fence new \<noteq> gs_current_fence old) \<or>
          (gs_current_attempt_id new \<noteq> gs_current_attempt_id old \<and>
           gs_current_fence new \<le> gs_current_fence old))) \<and>
     \<not> (gs_accepted_attempt_id old \<noteq> None \<and>
         (gs_accepted_attempt_id new, gs_accepted_fence new, gs_accepted_digest new) \<noteq>
         (gs_accepted_attempt_id old, gs_accepted_fence old, gs_accepted_digest old)) \<and>
     (gs_job_state new = gs_job_state old \<or>
      sql_job_transition (gs_job_state old) (gs_job_state new))"

subsection \<open>Constraints of \<^verbatim>\<open>guest_scan_attempts\<close>\<close>

definition opt_all :: "('a \<Rightarrow> bool) \<Rightarrow> 'a option \<Rightarrow> bool" where
  "opt_all p v = (case v of None \<Rightarrow> True | Some x \<Rightarrow> p x)"

definition attempt_time_contract :: "attempt_row \<Rightarrow> bool" where
  "attempt_time_contract a \<longleftrightarrow>
     at_hard_deadline a > at_created_at a \<and> at_updated_at a \<ge> at_created_at a \<and>
     opt_all (\<lambda>t. t > at_created_at a \<and> t \<le> at_hard_deadline a) (at_lease_expires_at a) \<and>
     opt_all (\<lambda>t. at_created_at a \<le> t \<and> t \<le> at_updated_at a) (at_started_at a) \<and>
     opt_all (\<lambda>t. (case at_started_at a of None \<Rightarrow> at_created_at a | Some b \<Rightarrow> b) \<le> t \<and>
       t \<le> at_updated_at a) (at_finished_at a)"

definition attempt_shape :: "attempt_row \<Rightarrow> bool" where
  "attempt_shape a \<longleftrightarrow>
     ((at_state a = A_CREATED \<and> at_lease_version a = 0 \<and> at_lease_expires_at a = None) \<or>
      (at_state a \<in> {A_LEASED, A_RUNNING, A_SUCCEEDED, A_FAILED, A_TIMED_OUT, A_SUPERSEDED} \<and>
       at_lease_version a > 0 \<and> at_lease_expires_at a \<noteq> None) \<or>
      at_state a = A_CANCELLED) \<and>
     ((at_state a \<in> {A_CREATED, A_LEASED} \<and> at_started_at a = None) \<or>
      at_state a \<in> {A_CANCELLED, A_SUPERSEDED} \<or>
      (at_state a \<in> {A_RUNNING, A_SUCCEEDED, A_FAILED, A_TIMED_OUT} \<and> at_started_at a \<noteq> None)) \<and>
     (at_state a \<in> {A_SUCCEEDED, A_FAILED, A_TIMED_OUT, A_CANCELLED, A_SUPERSEDED} \<longleftrightarrow>
      at_finished_at a \<noteq> None) \<and>
     (at_state a \<noteq> A_SUCCEEDED \<or>
      opt_all (\<lambda>f. opt_all (\<lambda>l. f < l) (at_lease_expires_at a) \<and> f < at_hard_deadline a)
        (at_finished_at a))"

definition attempt_checks :: "attempt_row \<Rightarrow> bool" where
  "attempt_checks a \<longleftrightarrow>
     at_attempt_no a > 0 \<and> 1 \<le> at_fence a \<and> at_fence a \<le> MAX_SAFE_INTEGER \<and>
     0 \<le> at_lease_version a \<and> at_lease_version a \<le> MAX_SAFE_INTEGER \<and>
     attempt_time_contract a \<and> attempt_shape a"

definition guard_attempt_insert :: "attempt_row \<Rightarrow> bool" where
  "guard_attempt_insert a \<longleftrightarrow>
     at_state a = A_CREATED \<and> at_lease_version a = 0 \<and> at_lease_expires_at a = None \<and>
     at_started_at a = None \<and> at_finished_at a = None \<and> at_updated_at a = at_created_at a"

definition sql_attempt_transition :: "attempt_state \<Rightarrow> attempt_state \<Rightarrow> bool" where
  "sql_attempt_transition old new \<longleftrightarrow>
     (old = A_CREATED \<and> new \<in> {A_LEASED, A_CANCELLED}) \<or>
     (old = A_LEASED \<and> new \<in> {A_RUNNING, A_SUPERSEDED}) \<or>
     (old = A_RUNNING \<and> new \<in> {A_SUCCEEDED, A_FAILED, A_TIMED_OUT, A_CANCELLED, A_SUPERSEDED})"

definition guard_attempt_update :: "attempt_row \<Rightarrow> attempt_row \<Rightarrow> bool" where
  "guard_attempt_update old new \<longleftrightarrow>
     at_scan_id new = at_scan_id old \<and> at_attempt_no new = at_attempt_no old \<and>
     at_fence new = at_fence old \<and> at_created_at new = at_created_at old \<and>
     at_hard_deadline new = at_hard_deadline old \<and>
     \<not> at_updated_at new < at_updated_at old \<and> \<not> at_lease_version new < at_lease_version old \<and>
     \<not> (at_lease_expires_at new \<noteq> at_lease_expires_at old \<and>
         at_lease_version new \<le> at_lease_version old) \<and>
     \<not> (at_started_at old \<noteq> None \<and> at_started_at new \<noteq> at_started_at old) \<and>
     \<not> (at_finished_at old \<noteq> None \<and> at_finished_at new \<noteq> at_finished_at old) \<and>
     (at_state new = at_state old \<or> sql_attempt_transition (at_state old) (at_state new))"

subsection \<open>Constraints of the other tables\<close>

definition projection_shape :: "jsval \<Rightarrow> bool" where
  "projection_shape p \<longleftrightarrow>
     (case p of JObj _ \<Rightarrow> get_prop p ''schema_version'' \<in> {JNum 1, JStr ''1''} | _ \<Rightarrow> False)"

text \<open>The trigger \<^verbatim>\<open>guard_guest_result_write\<close>; updates of a result are refused.\<close>

definition guard_result_insert :: "string \<Rightarrow> result_row \<Rightarrow> guest_db \<Rightarrow> bool" where
  "guard_result_insert sid r db \<longleftrightarrow>
     (case (map_of (db_scans db) sid, map_of (db_attempts db) (rr_attempt_id r)) of
        (Some s, Some a) \<Rightarrow>
          at_scan_id a = sid \<and> at_fence a = rr_fence r \<and> gs_job_state s = J_SUCCEEDED \<and>
          gs_accepted_attempt_id s = Some (rr_attempt_id r) \<and>
          gs_accepted_fence s = Some (rr_fence r) \<and> gs_accepted_digest s = Some (rr_digest r) \<and>
          at_state a = A_SUCCEEDED \<and> at_finished_at a = Some (rr_completed_at r) \<and>
          gs_created_at s \<le> rr_completed_at r \<and> rr_completed_at r \<le> gs_updated_at s \<and>
          rr_completed_at r < gs_deletion_deadline s \<and>
          get_prop (rr_projection r) ''canonical_host'' = JStr (gs_canonical_target s)
      | _ \<Rightarrow> False)"

definition reservation_checks :: "reservation_row \<Rightarrow> bool" where
  "reservation_checks r \<longleftrightarrow>
     length (rv_session_scope r) = 32 \<and> length (rv_network_digest r) = 32 \<and>
     rv_deletion_deadline r = rv_reserved_at r + SCAN_RETENTION_SECONDS \<and>
     opt_all (\<lambda>t. rv_reserved_at r \<le> t \<and> t \<le> rv_deletion_deadline r) (rv_released_at r) \<and>
     (rv_released_at r = None \<longleftrightarrow> rv_release_reason r = None)"

definition is_burst :: "window_dimension \<Rightarrow> bool" where
  "is_burst d \<longleftrightarrow> d \<in> {SESSION_BURST, NETWORK_BURST}"

definition window_checks :: "window_dimension \<times> bytes \<Rightarrow> window_row \<Rightarrow> bool" where
  "window_checks k w \<longleftrightarrow>
     length (snd k) = 32 \<and> 0 \<le> wr_usage_count w \<and> wr_usage_count w \<le> MAX_COUNTER_VALUE \<and>
     wr_reset_at w > wr_updated_at w \<and>
     wr_reset_at w \<le> wr_updated_at w + (if is_burst (fst k) then 600 else 86400)"

definition active_checks :: "active_dimension \<times> bytes \<Rightarrow> active_row \<Rightarrow> bool" where
  "active_checks k r \<longleftrightarrow>
     length (snd k) = 32 \<and> 0 \<le> ac_count r \<and> ac_count r \<le> MAX_COUNTER_VALUE"

subsection \<open>Statements\<close>

definition insert_scan :: "string \<Rightarrow> scan_row \<Rightarrow> guest_db \<Rightarrow> guest_db option" where
  "insert_scan sid s db =
     (if id_pattern sid \<and> scan_checks s \<and> guard_scan_insert s \<and>
         map_of (db_scans db) sid = None \<and>
         list_all (\<lambda>(_, r). gs_session_scope r \<noteq> gs_session_scope s \<or>
           gs_idempotency_key r \<noteq> gs_idempotency_key s) (db_scans db)
      then Some (db\<lparr>db_scans := put sid s (db_scans db)\<rparr>) else None)"

text \<open>\<^verbatim>\<open>UPDATE\<close> of the row with this key if it satisfies the \<^verbatim>\<open>WHERE\<close> condition.\<close>

definition update_scan ::
  "string \<Rightarrow> (scan_row \<Rightarrow> bool) \<Rightarrow> (scan_row \<Rightarrow> scan_row) \<Rightarrow> guest_db \<Rightarrow> guest_db option" where
  "update_scan sid p f db =
     (case map_of (db_scans db) sid of
        None \<Rightarrow> None
      | Some s \<Rightarrow>
          if p s \<and> guard_scan_update s (f s) \<and> scan_checks (f s)
          then Some (db\<lparr>db_scans := put sid (f s) (db_scans db)\<rparr>) else None)"

definition insert_attempt :: "string \<Rightarrow> attempt_row \<Rightarrow> guest_db \<Rightarrow> guest_db option" where
  "insert_attempt aid a db =
     (if id_pattern aid \<and> attempt_checks a \<and> guard_attempt_insert a \<and>
         map_of (db_attempts db) aid = None \<and> map_of (db_scans db) (at_scan_id a) \<noteq> None \<and>
         list_all (\<lambda>(_, r). at_scan_id r \<noteq> at_scan_id a \<or>
           (at_attempt_no r \<noteq> at_attempt_no a \<and> at_fence r \<noteq> at_fence a)) (db_attempts db)
      then Some (db\<lparr>db_attempts := put aid a (db_attempts db)\<rparr>) else None)"

definition update_attempt ::
  "string \<Rightarrow> string \<Rightarrow> (attempt_row \<Rightarrow> bool) \<Rightarrow> (attempt_row \<Rightarrow> attempt_row) \<Rightarrow> guest_db \<Rightarrow>
   guest_db option" where
  "update_attempt sid aid p f db =
     (case map_of (db_attempts db) aid of
        None \<Rightarrow> None
      | Some a \<Rightarrow>
          if at_scan_id a = sid \<and> p a \<and> guard_attempt_update a (f a) \<and> attempt_checks (f a)
          then Some (db\<lparr>db_attempts := put aid (f a) (db_attempts db)\<rparr>) else None)"

definition insert_result :: "string \<Rightarrow> result_row \<Rightarrow> guest_db \<Rightarrow> guest_db option" where
  "insert_result sid r db =
     (if length (rr_digest r) = 32 \<and> projection_shape (rr_projection r) \<and>
         guard_result_insert sid r db \<and> map_of (db_results db) sid = None
      then Some (db\<lparr>db_results := put sid r (db_results db)\<rparr>) else None)"

definition insert_reservation ::
  "string \<Rightarrow> reservation_row \<Rightarrow> guest_db \<Rightarrow> guest_db option" where
  "insert_reservation sid r db =
     (if reservation_checks r \<and> map_of (db_reservations db) sid = None
      then Some (db\<lparr>db_reservations := put sid r (db_reservations db)\<rparr>) else None)"

text \<open>
  \<^verbatim>\<open>DELETE FROM guest_scans WHERE id = $1\<close>: attempts, result, reservation and
  rejection events go with the scan (\<^verbatim>\<open>ON DELETE CASCADE\<close>).
\<close>

definition delete_scan :: "string \<Rightarrow> guest_db \<Rightarrow> guest_db option" where
  "delete_scan sid db =
     (if map_of (db_scans db) sid = None then None
      else Some (db\<lparr>
        db_scans := delete_where (\<lambda>k _. k = sid) (db_scans db),
        db_attempts := delete_where (\<lambda>_ a. at_scan_id a = sid) (db_attempts db),
        db_results := delete_where (\<lambda>k _. k = sid) (db_results db),
        db_reservations := delete_where (\<lambda>k _. k = sid) (db_reservations db),
        db_rejections := delete_where (\<lambda>k _. fst k = sid) (db_rejections db)\<rparr>))"

text \<open>The foreign keys that are checked when the transaction commits, for the rows of one scan.\<close>

definition deferred_keys :: "string \<Rightarrow> guest_db \<Rightarrow> bool" where
  "deferred_keys sid db \<longleftrightarrow>
     (case map_of (db_scans db) sid of
        None \<Rightarrow> map_of (db_reservations db) sid = None \<and> map_of (db_results db) sid = None
      | Some s \<Rightarrow>
          (case gs_current_attempt_id s of
             None \<Rightarrow> True
           | Some aid \<Rightarrow>
               (case map_of (db_attempts db) aid of
                  None \<Rightarrow> False
                | Some a \<Rightarrow> at_scan_id a = sid \<and> at_fence a = gs_current_fence s)) \<and>
          (case (gs_accepted_attempt_id s, gs_accepted_fence s, gs_accepted_digest s) of
             (Some aid, Some f, Some d) \<Rightarrow>
               (case map_of (db_results db) sid of
                  None \<Rightarrow> False
                | Some r \<Rightarrow> rr_attempt_id r = aid \<and> rr_fence r = f \<and> rr_digest r = d)
           | _ \<Rightarrow> True) \<and>
          (case map_of (db_reservations db) sid of
             None \<Rightarrow> True
           | Some r \<Rightarrow>
               rv_session_scope r = gs_session_scope s \<and> rv_reserved_at r = gs_created_at s \<and>
               rv_deletion_deadline r = gs_deletion_deadline s))"

subsection \<open>Transactions\<close>

text \<open>
  What the pool and the server do with one try of a transaction: no
  connection, a serialization failure or deadlock (the retryable errors), or a
  run.  An operation is a function of the database; \<open>None\<close> is an exception that
  is not retried, after which the rollback leaves the database unchanged.
\<close>

datatype try_outcome = NO_CONNECTION | SERIALIZATION_FAILURE | RUNS

definition MAX_TRANSACTION_ATTEMPTS :: nat where "MAX_TRANSACTION_ATTEMPTS = 3"

fun transaction_loop ::
  "nat \<Rightarrow> try_outcome list \<Rightarrow> (guest_db \<Rightarrow> ('a \<times> guest_db) option) \<Rightarrow> guest_db \<Rightarrow>
   'a option \<times> guest_db" where
  "transaction_loop 0 tries operation db = (None, db)"
| "transaction_loop (Suc n) [] operation db = (None, db)"
| "transaction_loop (Suc n) (NO_CONNECTION # tries) operation db = (None, db)"
| "transaction_loop (Suc n) (SERIALIZATION_FAILURE # tries) operation db =
     transaction_loop n tries operation db"
| "transaction_loop (Suc n) (RUNS # tries) operation db =
     (case operation db of None \<Rightarrow> (None, db) | Some (x, db') \<Rightarrow> (Some x, db'))"

definition transaction ::
  "try_outcome list \<Rightarrow> (guest_db \<Rightarrow> ('a \<times> guest_db) option) \<Rightarrow> guest_db \<Rightarrow>
   'a option \<times> guest_db" where
  "transaction = transaction_loop MAX_TRANSACTION_ATTEMPTS"

lemma transaction_loop_cases:
  "transaction_loop n tries operation db = (x, db') \<Longrightarrow>
   (x = None \<and> db' = db) \<or> (\<exists>y. x = Some y \<and> operation db = Some (y, db'))"
  by (induction n tries operation db rule: transaction_loop.induct)
    (auto split: option.splits)

lemma transaction_cases:
  assumes "transaction tries operation db = (x, db')"
  obtains (rolled_back) "x = None" "db' = db"
  | (committed) y where "x = Some y" "operation db = Some (y, db')"
  using assms transaction_loop_cases unfolding transaction_def by blast

lemma transaction_runs: "transaction (RUNS # tries) operation db =
    (case operation db of None \<Rightarrow> (None, db) | Some (x, db') \<Rightarrow> (Some x, db'))"
  by (simp add: transaction_def MAX_TRANSACTION_ATTEMPTS_def eval_nat_numeral)

subsection \<open>The SQL guards and the transition tables agree\<close>

lemma sql_job_agrees: "sql_job_transition j j' \<longleftrightarrow> (\<exists>e. transition_job j e = Some j')"
proof
  show "sql_job_transition j j' \<Longrightarrow> \<exists>e. transition_job j e = Some j'"
    unfolding sql_job_transition_def
    by (auto intro: transition_job.simps(1-8))
  show "\<exists>e. transition_job j e = Some j' \<Longrightarrow> sql_job_transition j j'"
    by (auto simp: sql_job_transition_def elim!: transition_job_SomeE)
qed

lemma sql_attempt_agrees:
  "sql_attempt_transition a a' \<longleftrightarrow> (\<exists>e. transition_attempt a e = Some a')"
proof
  show "sql_attempt_transition a a' \<Longrightarrow> \<exists>e. transition_attempt a e = Some a'"
    unfolding sql_attempt_transition_def
    by (auto intro: transition_attempt.simps(1-10))
  show "\<exists>e. transition_attempt a e = Some a' \<Longrightarrow> sql_attempt_transition a a'"
    by (auto simp: sql_attempt_transition_def elim!: transition_attempt_SomeE)
qed

text \<open>C27: The database guards and the protocol code define the same state machines: the
  trigger on scans allows exactly the state changes some event makes in the
  job table, and the trigger on attempts exactly those some event makes in the
  attempt table.\<close>

theorem sql_guards_match_transition_tables:
  "(sql_job_transition j j' \<longleftrightarrow> (\<exists>e. transition_job j e = Some j')) \<and>
   (sql_attempt_transition a a' \<longleftrightarrow> (\<exists>e. transition_attempt a e = Some a'))"
  using sql_job_agrees sql_attempt_agrees by blast

end
