(* ===== verification/Guest_Counters.thy ===== *)
theory Guest_Counters
  imports Guest_Schema
begin

section \<open>Abuse counters and reservations in the database\<close>

text \<open>
  Models \<^verbatim>\<open>apps/api/src/guest-persistence/postgres-abuse-state.ts\<close> and
  \<^verbatim>\<open>postgres-abuse.ts\<close>.  The rows of a query are folded in table order; the
  \<^verbatim>\<open>ORDER BY\<close> of the queries does not change sums, maxima or whether a row is
  refused.  Throwing is \<open>None\<close>; \<^verbatim>\<open>release\<close> answers \<^verbatim>\<open>false\<close> where the code does.
\<close>

subsection \<open>Counter specifications\<close>

record window_spec =
  ws_dimension :: window_dimension
  ws_digest :: bytes
  ws_window_seconds :: int

record active_spec =
  as_dimension :: active_dimension
  as_digest :: bytes

definition is_session_window :: "window_dimension \<Rightarrow> bool" where
  "is_session_window d \<longleftrightarrow> d \<in> {SESSION_BURST, SESSION_DAILY}"

definition expected_window_seconds :: "window_dimension \<Rightarrow> int" where
  "expected_window_seconds d =
     (case d of SESSION_BURST \<Rightarrow> SESSION_BURST_WINDOW | SESSION_DAILY \<Rightarrow> SESSION_DAILY_WINDOW
      | NETWORK_BURST \<Rightarrow> NETWORK_BURST_WINDOW | NETWORK_DAILY \<Rightarrow> NETWORK_DAILY_WINDOW)"

definition window_specs :: "bytes \<Rightarrow> bytes \<Rightarrow> window_spec list" where
  "window_specs session network =
     [\<lparr>ws_dimension = NETWORK_BURST, ws_digest = network, ws_window_seconds = NETWORK_BURST_WINDOW\<rparr>,
      \<lparr>ws_dimension = NETWORK_DAILY, ws_digest = network, ws_window_seconds = NETWORK_DAILY_WINDOW\<rparr>,
      \<lparr>ws_dimension = SESSION_BURST, ws_digest = session, ws_window_seconds = SESSION_BURST_WINDOW\<rparr>,
      \<lparr>ws_dimension = SESSION_DAILY, ws_digest = session, ws_window_seconds = SESSION_DAILY_WINDOW\<rparr>]"

definition active_specs :: "bytes \<Rightarrow> bytes \<Rightarrow> active_spec list" where
  "active_specs session network =
     [\<lparr>as_dimension = NETWORK_ACTIVE, as_digest = network\<rparr>,
      \<lparr>as_dimension = SESSION_ACTIVE, as_digest = session\<rparr>]"

subsection \<open>Statements on the counter tables\<close>

text \<open>\<^verbatim>\<open>INSERT ... ON CONFLICT DO UPDATE ... WHERE reset_at <= EXCLUDED.updated_at\<close>\<close>

definition insert_window :: "window_spec \<Rightarrow> int \<Rightarrow> guest_db \<Rightarrow> guest_db option" where
  "insert_window spec now db =
     (let key = (ws_dimension spec, ws_digest spec);
          fresh = \<lparr>wr_usage_count = 0, wr_reset_at = now + ws_window_seconds spec, wr_updated_at = now\<rparr>
      in if \<not> window_checks key fresh then None
         else case map_of (db_windows db) key of
                None \<Rightarrow> Some (db\<lparr>db_windows := put key fresh (db_windows db)\<rparr>)
              | Some w \<Rightarrow>
                  if wr_reset_at w \<le> now
                  then Some (db\<lparr>db_windows := put key fresh (db_windows db)\<rparr>) else Some db)"

text \<open>\<^verbatim>\<open>INSERT ... ON CONFLICT DO NOTHING\<close>\<close>

definition insert_active :: "active_spec \<Rightarrow> int \<Rightarrow> guest_db \<Rightarrow> guest_db option" where
  "insert_active spec now db =
     (let key = (as_dimension spec, as_digest spec); fresh = \<lparr>ac_count = 0, ac_updated_at = now\<rparr>
      in if \<not> active_checks key fresh then None
         else if map_of (db_active db) key = None
         then Some (db\<lparr>db_active := put key fresh (db_active db)\<rparr>) else Some db)"

fun run_each :: "('a \<Rightarrow> guest_db \<Rightarrow> guest_db option) \<Rightarrow> 'a list \<Rightarrow> guest_db \<Rightarrow> guest_db option" where
  "run_each f [] db = Some db"
| "run_each f (x # xs) db = do { db' \<leftarrow> f x db; run_each f xs db' }"

definition insert_current_rows ::
  "window_spec list \<Rightarrow> active_spec list \<Rightarrow> int \<Rightarrow> guest_db \<Rightarrow> guest_db option" where
  "insert_current_rows windows active now db =
     do {
       db1 \<leftarrow> run_each (\<lambda>s. insert_window s now) windows db;
       run_each (\<lambda>s. insert_active s now) active db1
     }"

fun load_window_rows ::
  "int \<Rightarrow> (window_dimension \<rightharpoonup> window_usage) \<Rightarrow> ((window_dimension \<times> bytes) \<times> window_row) list \<Rightarrow>
   (window_dimension \<rightharpoonup> window_usage) option" where
  "load_window_rows now agg [] = Some agg"
| "load_window_rows now agg (((d, g), w) # rows) =
     (if wr_usage_count w < 0 \<or> wr_usage_count w > MAX_COUNTER_VALUE \<or> wr_reset_at w < 0 \<or>
         length g \<noteq> 32 \<or> wr_reset_at w > now + expected_window_seconds d then None
      else if wr_reset_at w \<le> now then load_window_rows now agg rows
      else load_window_rows now
        (agg(d \<mapsto> (case agg d of
           None \<Rightarrow> \<lparr>wu_count = wr_usage_count w, wu_reset_at = wr_reset_at w\<rparr>
         | Some u \<Rightarrow> \<lparr>wu_count = wu_count u + wr_usage_count w,
             wu_reset_at = (if wu_reset_at u > wr_reset_at w then wu_reset_at u else wr_reset_at w)\<rparr>)))
        rows)"

definition load_windows ::
  "bytes \<Rightarrow> bytes list \<Rightarrow> int \<Rightarrow> guest_db \<Rightarrow> (window_dimension \<rightharpoonup> window_usage) option" where
  "load_windows session networks now db =
     load_window_rows now Map.empty
       (rows_where (\<lambda>(d, g) _. if is_session_window d then g = session else g \<in> set networks)
         (db_windows db))"

fun load_active_rows ::
  "(active_dimension \<rightharpoonup> int) \<Rightarrow> ((active_dimension \<times> bytes) \<times> active_row) list \<Rightarrow>
   (active_dimension \<rightharpoonup> int) option" where
  "load_active_rows agg [] = Some agg"
| "load_active_rows agg (((d, g), r) # rows) =
     (if ac_count r < 0 \<or> ac_count r > MAX_COUNTER_VALUE \<or> length g \<noteq> 32 then None
      else load_active_rows
        (agg(d \<mapsto> (case agg d of None \<Rightarrow> 0 | Some n \<Rightarrow> n) + ac_count r)) rows)"

definition load_active ::
  "bytes \<Rightarrow> bytes list \<Rightarrow> guest_db \<Rightarrow> (active_dimension \<rightharpoonup> int) option" where
  "load_active session networks db =
     load_active_rows Map.empty
       (rows_where (\<lambda>(d, g) _. if d = SESSION_ACTIVE then g = session else g \<in> set networks)
         (db_active db))"

record abuse_counter_state =
  cs_active :: "active_dimension \<rightharpoonup> int"
  cs_increment_active :: "active_spec list"
  cs_increment_windows :: "window_spec list"
  cs_windows :: "window_dimension \<rightharpoonup> window_usage"

definition load_abuse_counter_state ::
  "bytes \<Rightarrow> bytes list \<Rightarrow> int \<Rightarrow> guest_db \<Rightarrow> (abuse_counter_state \<times> guest_db) option" where
  "load_abuse_counter_state session networks now db =
     (case networks of
        [] \<Rightarrow> None
      | network # _ \<Rightarrow>
          let ws = window_specs session network; acs = active_specs session network
          in do {
            db1 \<leftarrow> insert_current_rows ws acs now db;
            windows \<leftarrow> load_windows session networks now db1;
            active \<leftarrow> load_active session networks db1;
            require (list_all (\<lambda>s. windows (ws_dimension s) \<noteq> None) ws);
            require (list_all (\<lambda>s. active (as_dimension s) \<noteq> None) acs);
            Some (\<lparr>cs_active = active, cs_increment_active = acs, cs_increment_windows = ws,
              cs_windows = windows\<rparr>, db1)
          })"

subsection \<open>Reserving\<close>

definition increment_window :: "int \<Rightarrow> window_spec \<Rightarrow> guest_db \<Rightarrow> guest_db option" where
  "increment_window now spec db =
     (let key = (ws_dimension spec, ws_digest spec)
      in case map_of (db_windows db) key of
           None \<Rightarrow> None
         | Some w \<Rightarrow>
             let w' = w\<lparr>wr_usage_count := wr_usage_count w + 1, wr_updated_at := now\<rparr>
             in if window_checks key w'
                then Some (db\<lparr>db_windows := put key w' (db_windows db)\<rparr>) else None)"

definition increment_active :: "int \<Rightarrow> active_spec \<Rightarrow> guest_db \<Rightarrow> guest_db option" where
  "increment_active now spec db =
     (let key = (as_dimension spec, as_digest spec)
      in case map_of (db_active db) key of
           None \<Rightarrow> None
         | Some r \<Rightarrow>
             let r' = \<lparr>ac_count = ac_count r + 1, ac_updated_at = now\<rparr>
             in if active_checks key r'
                then Some (db\<lparr>db_active := put key r' (db_active db)\<rparr>) else None)"

definition service_state_text :: "service_state \<Rightarrow> string" where
  "service_state_text s = (case s of SERVICE_OPEN \<Rightarrow> ''OPEN'' | SERVICE_PAUSED \<Rightarrow> ''PAUSED'')"

definition usage_object :: "abuse_usage \<Rightarrow> jsval" where
  "usage_object u =
     JObj [(''session_burst'', window_object (us_session_burst u)),
       (''session_daily'', window_object (us_session_daily u)),
       (''network_burst'', window_object (us_network_burst u)),
       (''network_daily'', window_object (us_network_daily u)),
       (''session_active'', JNum (us_session_active u)),
       (''network_active'', JNum (us_network_active u))]"

definition admission_object :: "abuse_request \<Rightarrow> jsval" where
  "admission_object q =
     JObj [(''guest_session_scope'', JStr (aq_session_scope q)),
       (''network_signal_digest'', JStr (aq_network_digest q)),
       (''now_unix_seconds'', JBig (aq_now q)),
       (''service_state'', JStr (service_state_text (aq_service_state q))),
       (''usage'', usage_object (aq_usage q))]"

definition reserve_guest_abuse_counters ::
  "string \<Rightarrow> string \<Rightarrow> string list \<Rightarrow> int \<Rightarrow> guest_db \<Rightarrow> (abuse_decision \<times> guest_db) option" where
  "reserve_guest_abuse_counters sid scope digests now db =
     (let session = digest_bytes ''sha256:'' scope;
          networks = map (digest_bytes ''hmac-sha256:'') digests
      in case digests of
           [] \<Rightarrow> None
         | digest # _ \<Rightarrow>
             do {
               (state, db1) \<leftarrow> load_abuse_counter_state session networks now db;
               sb \<leftarrow> cs_windows state SESSION_BURST;
               sd \<leftarrow> cs_windows state SESSION_DAILY;
               nb \<leftarrow> cs_windows state NETWORK_BURST;
               nd \<leftarrow> cs_windows state NETWORK_DAILY;
               sa \<leftarrow> cs_active state SESSION_ACTIVE;
               na \<leftarrow> cs_active state NETWORK_ACTIVE;
               let decision = decide_guest_abuse_admission (admission_object
                 \<lparr>aq_session_scope = scope, aq_network_digest = digest, aq_now = now,
                  aq_service_state = db_service_state db1,
                  aq_usage = \<lparr>us_session_burst = sb, us_session_daily = sd,
                    us_network_burst = nb, us_network_daily = nd,
                    us_session_active = sa, us_network_active = na\<rparr>\<rparr>);
               (case decision of
                  ALLOW_NEW_SCAN _ _ _ \<Rightarrow>
                    do {
                      db2 \<leftarrow> run_each (increment_window now) (cs_increment_windows state) db1;
                      db3 \<leftarrow> run_each (increment_active now) (cs_increment_active state) db2;
                      db4 \<leftarrow> insert_reservation sid
                        \<lparr>rv_session_scope = session, rv_network_digest = hd networks,
                         rv_reserved_at = now, rv_deletion_deadline = now + SCAN_RETENTION_SECONDS,
                         rv_released_at = None, rv_release_reason = None\<rparr> db3;
                      Some (decision, db4)
                    }
                | _ \<Rightarrow> Some (decision, db1))
             })"

subsection \<open>Releasing\<close>

definition decrement_and_remove ::
  "int \<Rightarrow> active_spec \<Rightarrow> guest_db \<Rightarrow> bool \<times> guest_db" where
  "decrement_and_remove now spec db =
     (let key = (as_dimension spec, as_digest spec)
      in case map_of (db_active db) key of
           None \<Rightarrow> (False, db)
         | Some r \<Rightarrow>
             if \<not> ac_count r > 0 then (False, db)
             else let n = ac_count r - 1
                  in if n \<noteq> 0
                     then (True, db\<lparr>db_active := put key \<lparr>ac_count = n, ac_updated_at = now\<rparr> (db_active db)\<rparr>)
                     else (True, db\<lparr>db_active := delete_where (\<lambda>k _. k = key) (db_active db)\<rparr>))"

fun decrement_each :: "int \<Rightarrow> active_spec list \<Rightarrow> guest_db \<Rightarrow> bool \<times> guest_db" where
  "decrement_each now [] db = (True, db)"
| "decrement_each now (s # ss) db =
     (case decrement_and_remove now s db of
        (False, db') \<Rightarrow> (False, db')
      | (True, db') \<Rightarrow> decrement_each now ss db')"

definition release_guest_abuse_reservation ::
  "string \<Rightarrow> int \<Rightarrow> release_reason \<Rightarrow> guest_db \<Rightarrow> (bool \<times> guest_db) option" where
  "release_guest_abuse_reservation sid now reason db =
     (case map_of (db_reservations db) sid of
        None \<Rightarrow> Some (False, db)
      | Some r \<Rightarrow>
          if rv_released_at r \<noteq> None then Some (True, db)
          else if rv_reserved_at r < 0 \<or> rv_deletion_deadline r < 0 \<or>
                  now < rv_reserved_at r \<or> now > rv_deletion_deadline r
          then Some (False, db)
          else (case decrement_each now (active_specs (rv_session_scope r) (rv_network_digest r)) db of
                  (False, db') \<Rightarrow> Some (False, db')
                | (True, db') \<Rightarrow>
                    let r' = r\<lparr>rv_released_at := Some now, rv_release_reason := Some reason\<rparr>
                    in if reservation_checks r'
                       then Some (True, db'\<lparr>db_reservations := put sid r' (db_reservations db')\<rparr>)
                       else None))"

text \<open>Every caller throws when the release answers \<^verbatim>\<open>false\<close>.\<close>

definition release_or_throw ::
  "string \<Rightarrow> int \<Rightarrow> release_reason \<Rightarrow> guest_db \<Rightarrow> guest_db option" where
  "release_or_throw sid now reason db =
     (case release_guest_abuse_reservation sid now reason db of
        Some (True, db') \<Rightarrow> Some db'
      | _ \<Rightarrow> None)"

end
