(* ===== verification/Guest_Lease.thy ===== *)
theory Guest_Lease
  imports Guest_Counters
begin

section \<open>Leases: acquire, start, renew, terminate, cancel\<close>

text \<open>
  Models \<^verbatim>\<open>apps/api/src/guest-persistence/postgres-lease-support.ts\<close>,
  \<^verbatim>\<open>postgres-lease-mutations.ts\<close>, \<^verbatim>\<open>postgres-lease.ts\<close> and
  \<^verbatim>\<open>postgres-cancel.ts\<close>.  Each handler takes the request, the reading of the
  clock (\<open>None\<close> when it throws or is no safe non-negative integer) and what the
  pool does with the tries of its transaction.  Texts of integers from the
  driver are the integers themselves.
\<close>

definition GUEST_ATTEMPT_LEASE_SECONDS :: int where "GUEST_ATTEMPT_LEASE_SECONDS = 15"
definition GUEST_ATTEMPT_HARD_DEADLINE_SECONDS :: int where
  "GUEST_ATTEMPT_HARD_DEADLINE_SECONDS = 45"
definition GUEST_MAX_ATTEMPTS :: int where "GUEST_MAX_ATTEMPTS = 3"

subsection \<open>Requests and rows\<close>

record lease_command =
  lc_guest_scan_id :: string
  lc_attempt_id :: string
  lc_fence :: int
  lc_lease_version :: int

record attempt_lease =
  al_guest_scan_id :: string
  al_attempt_id :: string
  al_attempt_no :: int
  al_fence :: int
  al_lease_version :: int
  al_canonical_target :: string
  al_lease_expires_at :: int
  al_hard_deadline :: int

text \<open>\<^verbatim>\<open>integer(value, allowZero)\<close> on the text of an integer.\<close>

definition db_integer :: "bool \<Rightarrow> int \<Rightarrow> int option" where
  "db_integer allow_zero n =
     (if n < 0 \<or> n > MAX_SAFE_INTEGER \<or> (\<not> allow_zero \<and> n = 0) then None else Some n)"

definition now_value :: "jsval \<Rightarrow> int option" where
  "now_value v = as_bounded 0 MAX_SAFE_INTEGER v"

definition acquire_request :: "jsval \<Rightarrow> string option" where
  "acquire_request v =
     do {
       require (is_record v);
       sid \<leftarrow> as_str_matching id_pattern (get_prop v ''guest_scan_id'');
       require (own_keys v = [''guest_scan_id'']);
       Some sid
     }"

definition LEASE_COMMAND_KEYS :: "string list" where
  "LEASE_COMMAND_KEYS = [''guest_scan_id'', ''attempt_id'', ''monotonic_fence'', ''lease_version'']"

definition read_lease_command :: "jsval \<Rightarrow> lease_command option" where
  "read_lease_command v =
     do {
       require (exact_record v LEASE_COMMAND_KEYS);
       sid \<leftarrow> as_str_matching id_pattern (get_prop v ''guest_scan_id'');
       aid \<leftarrow> as_str_matching id_pattern (get_prop v ''attempt_id'');
       fence \<leftarrow> as_bounded 1 MAX_SAFE_INTEGER (get_prop v ''monotonic_fence'');
       version \<leftarrow> as_bounded 1 MAX_SAFE_INTEGER (get_prop v ''lease_version'');
       Some \<lparr>lc_guest_scan_id = sid, lc_attempt_id = aid, lc_fence = fence,
         lc_lease_version = version\<rparr>
     }"

definition valid_scan :: "string \<Rightarrow> scan_row \<Rightarrow> bool" where
  "valid_scan sid s \<longleftrightarrow>
     id_pattern sid \<and> db_integer True (gs_current_fence s) \<noteq> None \<and>
     db_integer False (gs_access_expires_at s) \<noteq> None \<and>
     db_integer False (gs_deletion_deadline s) \<noteq> None \<and>
     gs_access_expires_at s < gs_deletion_deadline s \<and>
     (case gs_current_attempt_id s of
        None \<Rightarrow> gs_current_fence s = 0
      | Some aid \<Rightarrow> id_pattern aid \<and> gs_current_fence s > 0)"

definition valid_attempt :: "string \<Rightarrow> attempt_row \<Rightarrow> bool" where
  "valid_attempt aid a \<longleftrightarrow>
     id_pattern aid \<and> safe_int (at_attempt_no a) \<and> at_attempt_no a > 0 \<and>
     db_integer False (at_fence a) \<noteq> None \<and> db_integer True (at_lease_version a) \<noteq> None \<and>
     db_integer False (at_hard_deadline a) \<noteq> None \<and>
     opt_all (\<lambda>t. db_integer False t \<noteq> None) (at_lease_expires_at a)"

text \<open>\<^verbatim>\<open>LOAD_ATTEMPT_SQL\<close> with the row count and \<^verbatim>\<open>validAttempt\<close> check.\<close>

definition load_attempt :: "string \<Rightarrow> string \<Rightarrow> guest_db \<Rightarrow> attempt_row option" where
  "load_attempt sid aid db =
     (case map_of (db_attempts db) aid of
        None \<Rightarrow> None
      | Some a \<Rightarrow> if at_scan_id a = sid \<and> valid_attempt aid a then Some a else None)"

datatype acquire_result =
    LEASE_ACQUIRED attempt_lease
  | JOB_TERMINATED job_state
  | ACQ_INVALID_REQUEST
  | NOT_ACQUIRABLE
  | LEASE_HELD int
  | ACQ_UNAVAILABLE

datatype start_result =
    STARTED | ALREADY_RUNNING | START_INVALID_REQUEST | START_STALE_LEASE
  | START_LEASE_EXPIRED | START_DEADLINE_EXCEEDED | START_UNAVAILABLE

datatype renew_result =
    LEASE_RENEWED int int | RENEW_INVALID_REQUEST | RENEW_STALE_LEASE | RENEW_LEASE_EXPIRED
  | RENEW_DEADLINE_EXCEEDED | LEASE_NOT_EXTENDED | RENEW_UNAVAILABLE

datatype cancel_result =
    CANCELLED | ALREADY_CANCELLED | CANCEL_INVALID_REQUEST | NOT_CANCELLABLE | CANCEL_UNAVAILABLE

subsection \<open>Mutations shared by the handlers\<close>

definition create_attempt ::
  "string \<Rightarrow> scan_row \<Rightarrow> string \<Rightarrow> int \<Rightarrow> int \<Rightarrow> int \<Rightarrow> guest_db \<Rightarrow> (attempt_lease \<times> guest_db) option"
where
  "create_attempt sid s aid attempt_no fence now db =
     (let access_expiry = gs_access_expires_at s;
          hard_deadline =
            (if now + GUEST_ATTEMPT_HARD_DEADLINE_SECONDS < access_expiry
             then now + GUEST_ATTEMPT_HARD_DEADLINE_SECONDS else access_expiry);
          lease_expiry =
            (if now + GUEST_ATTEMPT_LEASE_SECONDS < hard_deadline
             then now + GUEST_ATTEMPT_LEASE_SECONDS else hard_deadline)
      in if lease_expiry \<le> now \<or> hard_deadline \<le> now then None
         else do {
           db1 \<leftarrow> insert_attempt aid
             \<lparr>at_scan_id = sid, at_attempt_no = attempt_no, at_fence = fence,
              at_lease_version = 0, at_lease_expires_at = None,
              at_hard_deadline = hard_deadline, at_state = A_CREATED, at_created_at = now,
              at_updated_at = now, at_started_at = None, at_finished_at = None\<rparr> db;
           db2 \<leftarrow> update_attempt sid aid
             (\<lambda>a. at_state a = A_CREATED \<and> at_lease_version a = 0)
             (\<lambda>a. a\<lparr>at_state := A_LEASED, at_lease_version := 1,
                at_lease_expires_at := Some lease_expiry\<rparr>) db1;
           db3 \<leftarrow> update_scan sid
             (\<lambda>s. gs_job_state s \<in> {J_QUEUED, J_RUNNING})
             (\<lambda>s. s\<lparr>gs_job_state := J_RUNNING, gs_current_attempt_id := Some aid,
                gs_current_fence := fence, gs_updated_at := now\<rparr>) db2;
           Some (\<lparr>al_guest_scan_id = sid, al_attempt_id = aid, al_attempt_no = attempt_no,
              al_fence = fence, al_lease_version = 1,
              al_canonical_target = gs_canonical_target s,
              al_lease_expires_at = lease_expiry, al_hard_deadline = hard_deadline\<rparr>, db3)
         })"

definition finish_attempt ::
  "string \<Rightarrow> string \<Rightarrow> attempt_state set \<Rightarrow> attempt_state \<Rightarrow> int \<Rightarrow> guest_db \<Rightarrow> guest_db option" where
  "finish_attempt sid aid from next_state now db =
     update_attempt sid aid (\<lambda>a. at_state a \<in> from)
       (\<lambda>a. a\<lparr>at_state := next_state, at_finished_at := Some now, at_updated_at := now\<rparr>) db"

text \<open>The attempt part of \<^verbatim>\<open>terminateJob\<close>.\<close>

definition terminate_attempt :: "string \<Rightarrow> scan_row \<Rightarrow> int \<Rightarrow> guest_db \<Rightarrow> guest_db option" where
  "terminate_attempt sid s now db =
     (case gs_current_attempt_id s of
        None \<Rightarrow> Some db
      | Some aid \<Rightarrow>
          if gs_job_state s \<noteq> J_RUNNING then Some db
          else do {
            a \<leftarrow> load_attempt sid aid db;
            (if at_state a \<in> {A_LEASED, A_RUNNING} then
               finish_attempt sid aid {A_LEASED, A_RUNNING}
                 (if at_state a = A_LEASED then A_SUPERSEDED
                  else if now \<ge> at_hard_deadline a then A_TIMED_OUT else A_CANCELLED) now db
             else if at_state a \<notin> {A_FAILED, A_TIMED_OUT, A_CANCELLED, A_SUPERSEDED} then None
             else Some db)
          })"

definition terminate_job ::
  "string \<Rightarrow> scan_row \<Rightarrow> int \<Rightarrow> job_state \<Rightarrow> release_reason \<Rightarrow> guest_db \<Rightarrow>
   (acquire_result \<times> guest_db) option" where
  "terminate_job sid s now terminal_state reason db =
     do {
       db1 \<leftarrow> terminate_attempt sid s now db;
       db2 \<leftarrow> update_scan sid (\<lambda>s. gs_job_state s \<in> {J_QUEUED, J_RUNNING})
         (\<lambda>s. s\<lparr>gs_job_state := terminal_state, gs_updated_at := now\<rparr>) db1;
       db3 \<leftarrow> release_or_throw sid now reason db2;
       Some (JOB_TERMINATED terminal_state, db3)
     }"

subsection \<open>Acquire\<close>

text \<open>
  The end of an acquisition: the attempt is created with the fresh identifier
  (\<open>None\<close> when the generator throws).
\<close>

definition acquire_fresh ::
  "string \<Rightarrow> scan_row \<Rightarrow> string option \<Rightarrow> int \<Rightarrow> int \<Rightarrow> int \<Rightarrow> guest_db \<Rightarrow>
   (acquire_result \<times> guest_db) option" where
  "acquire_fresh sid s candidate attempt_no fence now db =
     do {
       aid \<leftarrow> candidate;
       require (id_pattern aid);
       (lease, db') \<leftarrow> create_attempt sid s aid attempt_no fence now db;
       Some (LEASE_ACQUIRED lease, db')
     }"

definition acquire_running ::
  "string \<Rightarrow> scan_row \<Rightarrow> string option \<Rightarrow> int \<Rightarrow> guest_db \<Rightarrow> (acquire_result \<times> guest_db) option" where
  "acquire_running sid s candidate now db =
     do {
       aid \<leftarrow> gs_current_attempt_id s;
       a \<leftarrow> load_attempt sid aid db;
       lease_expiry \<leftarrow> at_lease_expires_at a;
       require (at_state a \<in> {A_LEASED, A_RUNNING} \<and>
         db_integer False (at_fence a) = db_integer False (gs_current_fence s));
       (if now < lease_expiry \<and> now < at_hard_deadline a
        then Some (LEASE_HELD (min lease_expiry (at_hard_deadline a) - now), db)
        else do {
          db1 \<leftarrow> finish_attempt sid aid {A_LEASED, A_RUNNING}
            (if at_state a = A_RUNNING \<and> now \<ge> at_hard_deadline a then A_TIMED_OUT
             else A_SUPERSEDED) now db;
          (if at_attempt_no a \<ge> GUEST_MAX_ATTEMPTS
           then terminate_job sid s now J_FAILED RR_FAILED db1
           else acquire_fresh sid s candidate (at_attempt_no a + 1) (at_fence a + 1) now db1)
        })
     }"

definition acquire_tx ::
  "string \<Rightarrow> string option \<Rightarrow> int \<Rightarrow> guest_db \<Rightarrow> (acquire_result \<times> guest_db) option" where
  "acquire_tx sid candidate now db =
     do {
       (result, db') \<leftarrow>
         (case map_of (db_scans db) sid of
            None \<Rightarrow> Some (NOT_ACQUIRABLE, db)
          | Some s \<Rightarrow>
              if \<not> valid_scan sid s then Some (NOT_ACQUIRABLE, db)
              else if gs_job_state s \<notin> {J_QUEUED, J_RUNNING} then Some (NOT_ACQUIRABLE, db)
              else if now \<ge> gs_access_expires_at s
              then terminate_job sid s now J_EXPIRED RR_EXPIRED db
              else if gs_job_state s = J_RUNNING then acquire_running sid s candidate now db
              else acquire_fresh sid s candidate 1 1 now db);
       require (deferred_keys sid db');
       Some (result, db')
     }"

definition acquire ::
  "try_outcome list \<Rightarrow> jsval \<Rightarrow> int option \<Rightarrow> string option \<Rightarrow> guest_db \<Rightarrow> acquire_result \<times> guest_db"
where
  "acquire tries value clock candidate db =
     (case acquire_request value of
        None \<Rightarrow> (ACQ_INVALID_REQUEST, db)
      | Some sid \<Rightarrow>
          (case clock of
             None \<Rightarrow> (ACQ_UNAVAILABLE, db)
           | Some now \<Rightarrow>
               (case transaction tries (acquire_tx sid candidate now) db of
                  (None, db') \<Rightarrow> (ACQ_UNAVAILABLE, db')
                | (Some result, db') \<Rightarrow> (result, db'))))"

subsection \<open>Start and renew\<close>

text \<open>
  The row both handlers read: the attempt joined with its scan.  \<open>None\<close> when
  there is none or it is not valid.
\<close>

definition joined_attempt ::
  "lease_command \<Rightarrow> guest_db \<Rightarrow> (attempt_row \<times> scan_row) option" where
  "joined_attempt c db =
     do {
       a \<leftarrow> load_attempt (lc_guest_scan_id c) (lc_attempt_id c) db;
       s \<leftarrow> map_of (db_scans db) (lc_guest_scan_id c);
       Some (a, s)
     }"

definition holds_lease :: "lease_command \<Rightarrow> attempt_row \<Rightarrow> scan_row \<Rightarrow> bool" where
  "holds_lease c a s \<longleftrightarrow>
     gs_job_state s = J_RUNNING \<and> gs_current_attempt_id s = Some (lc_attempt_id c) \<and>
     db_integer False (gs_current_fence s) = Some (lc_fence c) \<and>
     db_integer False (at_fence a) = Some (lc_fence c) \<and>
     db_integer False (at_lease_version a) = Some (lc_lease_version c)"

definition start_tx ::
  "lease_command \<Rightarrow> int \<Rightarrow> guest_db \<Rightarrow> (start_result \<times> guest_db) option" where
  "start_tx c now db =
     (case joined_attempt c db of
        None \<Rightarrow> Some (START_STALE_LEASE, db)
      | Some (a, s) \<Rightarrow>
          if \<not> holds_lease c a s then Some (START_STALE_LEASE, db)
          else case at_lease_expires_at a of
            None \<Rightarrow> Some (START_STALE_LEASE, db)
          | Some lease_expiry \<Rightarrow>
              if now \<ge> at_hard_deadline a then Some (START_DEADLINE_EXCEEDED, db)
              else if now \<ge> lease_expiry then Some (START_LEASE_EXPIRED, db)
              else if at_state a = A_RUNNING then Some (ALREADY_RUNNING, db)
              else if at_state a \<noteq> A_LEASED then Some (START_STALE_LEASE, db)
              else do {
                db' \<leftarrow> update_attempt (lc_guest_scan_id c) (lc_attempt_id c)
                  (\<lambda>a. at_fence a = lc_fence c \<and> at_lease_version a = lc_lease_version c \<and>
                     at_state a = A_LEASED)
                  (\<lambda>a. a\<lparr>at_state := A_RUNNING, at_started_at := Some now, at_updated_at := now\<rparr>) db;
                Some (STARTED, db')
              })"

definition start_attempt ::
  "try_outcome list \<Rightarrow> jsval \<Rightarrow> int option \<Rightarrow> guest_db \<Rightarrow> start_result \<times> guest_db" where
  "start_attempt tries value clock db =
     (case read_lease_command value of
        None \<Rightarrow> (START_INVALID_REQUEST, db)
      | Some c \<Rightarrow>
          (case clock of
             None \<Rightarrow> (START_UNAVAILABLE, db)
           | Some now \<Rightarrow>
               (case transaction tries (start_tx c now) db of
                  (None, db') \<Rightarrow> (START_UNAVAILABLE, db')
                | (Some result, db') \<Rightarrow> (result, db'))))"

definition renew_tx ::
  "lease_command \<Rightarrow> int \<Rightarrow> guest_db \<Rightarrow> (renew_result \<times> guest_db) option" where
  "renew_tx c now db =
     (case joined_attempt c db of
        None \<Rightarrow> Some (RENEW_STALE_LEASE, db)
      | Some (a, s) \<Rightarrow>
          if at_state a \<noteq> A_RUNNING \<or> \<not> holds_lease c a s then Some (RENEW_STALE_LEASE, db)
          else case at_lease_expires_at a of
            None \<Rightarrow> Some (RENEW_STALE_LEASE, db)
          | Some lease_expiry \<Rightarrow>
              if now \<ge> at_hard_deadline a then Some (RENEW_DEADLINE_EXCEEDED, db)
              else if now \<ge> lease_expiry then Some (RENEW_LEASE_EXPIRED, db)
              else
                let candidate = now + GUEST_ATTEMPT_LEASE_SECONDS;
                    next_expiry =
                      (if candidate < at_hard_deadline a then candidate else at_hard_deadline a);
                    next_version = lc_lease_version c + 1
                in if next_expiry \<le> lease_expiry then Some (LEASE_NOT_EXTENDED, db)
                   else do {
                     db' \<leftarrow> update_attempt (lc_guest_scan_id c) (lc_attempt_id c)
                       (\<lambda>a. at_fence a = lc_fence c \<and> at_lease_version a = lc_lease_version c \<and>
                          at_state a = A_RUNNING)
                       (\<lambda>a. a\<lparr>at_lease_version := next_version,
                          at_lease_expires_at := Some next_expiry, at_updated_at := now\<rparr>) db;
                     Some (LEASE_RENEWED next_version next_expiry, db')
                   })"

definition renew_lease ::
  "try_outcome list \<Rightarrow> jsval \<Rightarrow> int option \<Rightarrow> guest_db \<Rightarrow> renew_result \<times> guest_db" where
  "renew_lease tries value clock db =
     (case read_lease_command value of
        None \<Rightarrow> (RENEW_INVALID_REQUEST, db)
      | Some c \<Rightarrow>
          (case clock of
             None \<Rightarrow> (RENEW_UNAVAILABLE, db)
           | Some now \<Rightarrow>
               (case transaction tries (renew_tx c now) db of
                  (None, db') \<Rightarrow> (RENEW_UNAVAILABLE, db')
                | (Some result, db') \<Rightarrow> (result, db'))))"

subsection \<open>Cancel\<close>

definition cancel_current_attempt :: "string \<Rightarrow> scan_row \<Rightarrow> int \<Rightarrow> guest_db \<Rightarrow> guest_db option" where
  "cancel_current_attempt sid s now db =
     (case gs_current_attempt_id s of
        None \<Rightarrow> Some db
      | Some aid \<Rightarrow>
          do {
            a \<leftarrow> load_attempt sid aid db;
            next_state \<leftarrow>
              (if at_state a = A_RUNNING then Some A_CANCELLED
               else if at_state a = A_LEASED then Some A_SUPERSEDED
               else if at_state a = A_CREATED then Some A_CANCELLED else None);
            finish_attempt sid aid {at_state a} next_state now db
          })"

definition cancel_tx :: "string \<Rightarrow> int \<Rightarrow> guest_db \<Rightarrow> (cancel_result \<times> guest_db) option" where
  "cancel_tx sid now db =
     (case map_of (db_scans db) sid of
        None \<Rightarrow> Some (NOT_CANCELLABLE, db)
      | Some s \<Rightarrow>
          if \<not> valid_scan sid s then Some (NOT_CANCELLABLE, db)
          else if gs_job_state s = J_CANCELLED then
            do {
              db' \<leftarrow> release_or_throw sid now RR_CANCELLED db;
              Some (ALREADY_CANCELLED, db')
            }
          else if gs_job_state s \<noteq> J_QUEUED \<and> gs_job_state s \<noteq> J_RUNNING
          then Some (NOT_CANCELLABLE, db)
          else do {
            db1 \<leftarrow> cancel_current_attempt sid s now db;
            db2 \<leftarrow> update_scan sid (\<lambda>s. gs_job_state s \<in> {J_QUEUED, J_RUNNING})
              (\<lambda>s. s\<lparr>gs_job_state := J_CANCELLED, gs_updated_at := now\<rparr>) db1;
            db3 \<leftarrow> release_or_throw sid now RR_CANCELLED db2;
            Some (CANCELLED, db3)
          })"

definition cancel ::
  "try_outcome list \<Rightarrow> jsval \<Rightarrow> int option \<Rightarrow> guest_db \<Rightarrow> cancel_result \<times> guest_db" where
  "cancel tries value clock db =
     (case acquire_request value of
        None \<Rightarrow> (CANCEL_INVALID_REQUEST, db)
      | Some sid \<Rightarrow>
          (case clock of
             None \<Rightarrow> (CANCEL_UNAVAILABLE, db)
           | Some now \<Rightarrow>
               (case transaction tries (cancel_tx sid now) db of
                  (None, db') \<Rightarrow> (CANCEL_UNAVAILABLE, db')
                | (Some result, db') \<Rightarrow> (result, db'))))"

end
