(* ===== verification/Guest_Store.thy ===== *)
theory Guest_Store
  imports Guest_Lease Guest_Idempotency Hostname
begin

section \<open>Creating or replaying a guest scan\<close>

text \<open>
  Models \<^verbatim>\<open>snapshot.ts\<close>, \<^verbatim>\<open>mapGuestIdempotencyRow\<close> of \<^verbatim>\<open>postgres-rows.ts\<close> and
  \<^verbatim>\<open>postgres-idempotency.ts\<close> of \<^verbatim>\<open>apps/api/src/guest-persistence\<close>.  The generators
  of identifiers and nonces are arguments (\<open>None\<close> when they throw or, for the
  nonce, when the value is no byte array), and so is the IDNA conversion.
\<close>

subsection \<open>Requests\<close>

record persist_request =
  pq_session_scope :: string
  pq_idempotency_key :: string
  pq_request_hash :: string
  pq_canonical_target :: string
  pq_network_digests :: "string list"
  pq_now :: int

definition PERSIST_REQUEST_KEYS :: "string list" where
  "PERSIST_REQUEST_KEYS = [''guest_session_scope'', ''idempotency_key'', ''request_hash'',
     ''canonical_target'', ''network_signal_digests'', ''trusted_now_unix_seconds'']"

definition MAX_POSTGRES_UNIX_SECONDS :: int where "MAX_POSTGRES_UNIX_SECONDS = 253402300799"

definition snapshot_persist_request ::
  "(string \<Rightarrow> string) \<Rightarrow> jsval \<Rightarrow> persist_request option" where
  "snapshot_persist_request to_ascii v =
     do {
       require (exact_object v PERSIST_REQUEST_KEYS);
       scope \<leftarrow> as_str_matching sha256_pattern (get_prop v ''guest_session_scope'');
       key \<leftarrow> as_str_matching idempotency_key_pattern (get_prop v ''idempotency_key'');
       hash \<leftarrow> as_str_matching sha256_pattern (get_prop v ''request_hash'');
       target \<leftarrow> as_str (get_prop v ''canonical_target'');
       values \<leftarrow> as_arr (get_prop v ''network_signal_digests'');
       require (length values \<noteq> 0 \<and> length values \<le> 3);
       digests \<leftarrow> all_some (as_str_matching (hex64_pattern ''hmac-sha256:'')) values;
       require (distinct digests);
       now \<leftarrow> as_big (get_prop v ''trusted_now_unix_seconds'');
       require (0 \<le> now \<and> now + SCAN_RETENTION_SECONDS \<le> MAX_POSTGRES_UNIX_SECONDS);
       (case canonicalize_hostname to_ascii (JStr target) of
          Inl _ \<Rightarrow> None
        | Inr host \<Rightarrow>
            if host = target
            then Some \<lparr>pq_session_scope = scope, pq_idempotency_key = key, pq_request_hash = hash,
              pq_canonical_target = host, pq_network_digests = digests, pq_now = now\<rparr>
            else None)
     }"

subsection \<open>Rows\<close>

text \<open>\<^verbatim>\<open>digest\<close> of the hexadecimal text of a byte column.\<close>

definition row_digest :: "bytes \<Rightarrow> string option" where
  "row_digest b = (if length b = 32 then Some (sha256_text b) else None)"

definition row_integer :: "int \<Rightarrow> int option" where
  "row_integer n = (if n < 0 then None else Some n)"

definition row_safe_number :: "int \<Rightarrow> int option" where
  "row_safe_number n = (if n < 0 \<or> n > MAX_SAFE_INTEGER then None else Some n)"

definition map_guest_idempotency_row :: "string \<Rightarrow> scan_row \<Rightarrow> idempotency_record option" where
  "map_guest_idempotency_row sid s =
     do {
       scope \<leftarrow> row_digest (gs_session_scope s);
       request_hash \<leftarrow> row_digest (gs_request_hash s);
       created \<leftarrow> row_integer (gs_created_at s);
       expires \<leftarrow> row_integer (gs_idempotency_expires_at s);
       token_version \<leftarrow> row_integer (gs_token_version s);
       require (length (gs_token_nonce s) = 32);
       key_version \<leftarrow> row_safe_number (gs_token_key_version s);
       require (opt_all (\<lambda>t. row_integer t \<noteq> None) (gs_access_revoked_at s));
       Some \<lparr>ir_principal_scope = ''GUEST_SESSION:'' @ scope,
         ir_operation = GUEST_SCAN_ENDPOINT_OPERATION, ir_key = gs_idempotency_key s,
         ir_request_hash = request_hash, ir_created_at = created, ir_expires_at = expires,
         ir_token_metadata =
           \<lparr>tm_guest_scan_id = sid, tm_token_version = token_version,
            tm_token_nonce = gs_token_nonce s, tm_key_version = key_version,
            tm_access_expires_at = expires, tm_access_revoked_at = gs_access_revoked_at s\<rparr>\<rparr>
     }"

subsection \<open>Token material\<close>

record persistence_context =
  pc_keyring :: "int \<Rightarrow> bytes option"
  pc_active_key_version :: int
  pc_guest_scan_id :: "string option"
  pc_token_nonce :: "bytes option"

definition new_token_metadata :: "persistence_context \<Rightarrow> string \<Rightarrow> bytes \<Rightarrow> int \<Rightarrow> token_metadata" where
  "new_token_metadata c sid nonce expires_at =
     \<lparr>tm_guest_scan_id = sid, tm_token_version = 1, tm_token_nonce = nonce,
      tm_key_version = pc_active_key_version c, tm_access_expires_at = expires_at,
      tm_access_revoked_at = None\<rparr>"

definition token_material ::
  "persistence_context \<Rightarrow> string \<Rightarrow> int \<Rightarrow> (string \<times> bytes) option" where
  "token_material c sid expires_at =
     do {
       nonce \<leftarrow> pc_token_nonce c;
       key \<leftarrow> pc_keyring c (pc_active_key_version c);
       require (id_pattern sid \<and> length nonce = 32);
       token \<leftarrow> derive_guest_result_token (new_token_metadata c sid nonce expires_at) key;
       Some (token, nonce)
     }"

subsection \<open>The transaction\<close>

datatype persist_action = PA_CREATE | PA_REPLACE_EXPIRED | PA_REPLAY

datatype persist_fail_code = PF_IDEMPOTENCY idempotency_fail | PF_PERSISTENCE_UNAVAILABLE

datatype persist_result =
    PERSISTED persist_action string string int int
  | PERSIST_FAILED persist_fail_code
  | ABUSE_LIMIT_EXCEEDED abuse_deny_code "int option"

definition lookup_scans :: "bytes \<Rightarrow> string \<Rightarrow> guest_db \<Rightarrow> (string \<times> scan_row) list" where
  "lookup_scans scope key db =
     rows_where (\<lambda>_ s. gs_session_scope s = scope \<and> gs_idempotency_key s = key) (db_scans db)"

definition existing_value :: "(string \<times> scan_row) list \<Rightarrow> jsval" where
  "existing_value rows =
     (case rows of
        [] \<Rightarrow> JNull
      | [(sid, s)] \<Rightarrow>
          (case map_guest_idempotency_row sid s of None \<Rightarrow> JUndef | Some e \<Rightarrow> record_object e)
      | _ \<Rightarrow> JUndef)"

definition new_scan_row :: "persistence_context \<Rightarrow> persist_request \<Rightarrow> bytes \<Rightarrow> scan_row" where
  "new_scan_row c q nonce =
     \<lparr>gs_canonical_target = pq_canonical_target q,
      gs_session_scope = digest_bytes ''sha256:'' (pq_session_scope q),
      gs_idempotency_key = pq_idempotency_key q,
      gs_request_hash = digest_bytes ''sha256:'' (pq_request_hash q),
      gs_created_at = pq_now q, gs_updated_at = pq_now q,
      gs_idempotency_expires_at = pq_now q + SCAN_ACCESS_SECONDS,
      gs_deletion_deadline = pq_now q + SCAN_RETENTION_SECONDS, gs_job_state = J_QUEUED,
      gs_token_version = 1, gs_token_nonce = nonce,
      gs_token_key_version = pc_active_key_version c,
      gs_access_expires_at = pq_now q + SCAN_ACCESS_SECONDS, gs_access_revoked_at = None,
      gs_current_attempt_id = None, gs_current_fence = 0, gs_accepted_attempt_id = None,
      gs_accepted_fence = None, gs_accepted_digest = None\<rparr>"

text \<open>The part of a replacement that frees the expired scan's slot and row.\<close>

definition replace_expired ::
  "(string \<times> scan_row) list \<Rightarrow> int \<Rightarrow> guest_db \<Rightarrow> guest_db option" where
  "replace_expired rows now db =
     (case rows of
        [(old, _)] \<Rightarrow>
          do {
            db1 \<leftarrow> release_or_throw old now RR_EXPIRED_REPLACEMENT db;
            delete_scan old db1
          }
      | _ \<Rightarrow> None)"

text \<open>The end of a creation; a denied admission rolls everything back.\<close>

definition insert_and_reserve ::
  "persistence_context \<Rightarrow> persist_request \<Rightarrow> persist_action \<Rightarrow> string \<Rightarrow> string \<times> bytes \<Rightarrow>
   guest_db \<Rightarrow> guest_db \<Rightarrow> (persist_result \<times> guest_db) option" where
  "insert_and_reserve c q action sid material db0 db =
     do {
       db1 \<leftarrow> insert_scan sid (new_scan_row c q (snd material)) db;
       (decision, db2) \<leftarrow> reserve_guest_abuse_counters sid (pq_session_scope q)
         (pq_network_digests q) (pq_now q) db1;
       (case decision of
          INVALID_ABUSE_CONTEXT \<Rightarrow> Some (PERSIST_FAILED PF_PERSISTENCE_UNAVAILABLE, db0)
        | ABUSE_DENIED code wait \<Rightarrow> Some (ABUSE_LIMIT_EXCEEDED code wait, db0)
        | ALLOW_NEW_SCAN _ _ _ \<Rightarrow>
            do {
              require (deferred_keys sid db2);
              Some (PERSISTED action sid (fst material)
                (pq_now q + GUEST_IDEMPOTENCY_WINDOW_SECONDS) GUEST_IDEMPOTENCY_WINDOW_SECONDS, db2)
            })
     }"

definition create_or_replace ::
  "persistence_context \<Rightarrow> persist_request \<Rightarrow> persist_action \<Rightarrow> (string \<times> scan_row) list \<Rightarrow>
   guest_db \<Rightarrow> (persist_result \<times> guest_db) option" where
  "create_or_replace c q action rows db =
     do {
       sid \<leftarrow> pc_guest_scan_id c;
       (case token_material c sid (pq_now q + GUEST_IDEMPOTENCY_WINDOW_SECONDS) of
          None \<Rightarrow> Some (PERSIST_FAILED (PF_IDEMPOTENCY RESULT_TOKEN_UNAVAILABLE), db)
        | Some material \<Rightarrow>
            do {
              db1 \<leftarrow> (if action = PA_REPLACE_EXPIRED then replace_expired rows (pq_now q) db
                      else Some db);
              insert_and_reserve c q action sid material db db1
            })
     }"

definition create_or_replay_tx ::
  "persistence_context \<Rightarrow> persist_request \<Rightarrow> guest_db \<Rightarrow> (persist_result \<times> guest_db) option" where
  "create_or_replay_tx c q db =
     (let rows = lookup_scans (digest_bytes ''sha256:'' (pq_session_scope q))
            (pq_idempotency_key q) db;
          request = \<lparr>iq_session_scope = pq_session_scope q, iq_key = pq_idempotency_key q,
            iq_request_hash = pq_request_hash q, iq_now = pq_now q\<rparr>
      in case decide_guest_scan_idempotency (request_object request) (existing_value rows)
                (pc_keyring c) of
           IDEM_REFUSED code \<Rightarrow> Some (PERSIST_FAILED (PF_IDEMPOTENCY code), db)
         | IDEM_REPLAY sid token expires_at ttl \<Rightarrow>
             Some (PERSISTED PA_REPLAY sid token expires_at ttl, db)
         | IDEM_CREATE _ _ _ \<Rightarrow> create_or_replace c q PA_CREATE rows db
         | IDEM_REPLACE_EXPIRED _ _ _ \<Rightarrow> create_or_replace c q PA_REPLACE_EXPIRED rows db)"

definition create_or_replay ::
  "(string \<Rightarrow> string) \<Rightarrow> try_outcome list \<Rightarrow> persistence_context \<Rightarrow> jsval \<Rightarrow> guest_db \<Rightarrow>
   persist_result \<times> guest_db" where
  "create_or_replay to_ascii tries c value db =
     (case snapshot_persist_request to_ascii value of
        None \<Rightarrow> (PERSIST_FAILED (PF_IDEMPOTENCY IDEM_INVALID_REQUEST), db)
      | Some q \<Rightarrow>
          (case transaction tries (create_or_replay_tx c q) db of
             (None, db') \<Rightarrow> (PERSIST_FAILED PF_PERSISTENCE_UNAVAILABLE, db')
           | (Some result, db') \<Rightarrow> (result, db')))"

end
