(* ===== verification/Guest_Records.thy ===== *)
theory Guest_Records
  imports Guest_Result_View Guest_Store
begin

section \<open>Stored records and the authorized read of a result\<close>

text \<open>
  Models \<^verbatim>\<open>apps/api/src/guest-scan/snapshot.ts\<close>, which checks the objects a store
  returns, the result row of \<^verbatim>\<open>guest-persistence/postgres-rows.ts\<close> and its store
  \<^verbatim>\<open>postgres-result-read.ts\<close>, and \<^verbatim>\<open>readAuthorizedGuestResult\<close> of
  \<^verbatim>\<open>guest-scan/result-read.ts\<close>.  Fields with one allowed value are left out of the
  records.
\<close>

subsection \<open>Records\<close>

record guest_scan_record =
  gr_guest_scan_id :: string
  gr_canonical_target :: string
  gr_principal_scope :: string
  gr_idempotency_key :: string
  gr_request_hash :: string
  gr_created_at :: int
  gr_updated_at :: int
  gr_idempotency_expires_at :: int
  gr_deletion_deadline :: int
  gr_job_state :: job_state
  gr_token_metadata :: token_metadata
  gr_current_attempt_id :: "string option"
  gr_current_fence :: int
  gr_accepted_result :: "result_identity option"

record guest_scan_attempt_record =
  ga_attempt_id :: string
  ga_guest_scan_id :: string
  ga_attempt_no :: int
  ga_fence :: int
  ga_lease_version :: int
  ga_lease_expires_at :: "int option"
  ga_hard_deadline :: int
  ga_state :: attempt_state
  ga_created_at :: int
  ga_updated_at :: int
  ga_started_at :: "int option"
  ga_finished_at :: "int option"

record guest_result_record =
  gt_guest_scan_id :: string
  gt_accepted_attempt_id :: string
  gt_accepted_fence :: int
  gt_payload_digest :: string
  gt_completed_at :: int
  gt_projection :: sanitized_projection

subsection \<open>Readers\<close>

definition GUEST_RESULT_ACCESS_SECONDS :: int where "GUEST_RESULT_ACCESS_SECONDS = 1800"
definition GUEST_RETENTION_SECONDS :: int where "GUEST_RETENTION_SECONDS = 86400"

definition SCAN_KEYS :: "string list" where
  "SCAN_KEYS = [''schema_version'', ''guest_scan_id'', ''canonical_target'', ''principal_scope'',
     ''endpoint_operation'', ''idempotency_key'', ''request_hash'', ''created_at_unix_seconds'',
     ''updated_at_unix_seconds'', ''idempotency_expires_at_unix_seconds'',
     ''deletion_deadline_unix_seconds'', ''job_state'', ''policy_id'', ''policy_version'', ''profile'',
     ''result_token_metadata'', ''current_attempt_id'', ''current_fence'', ''accepted_result'']"

definition ATTEMPT_KEYS :: "string list" where
  "ATTEMPT_KEYS = [''schema_version'', ''guest_scan_attempt_id'', ''guest_scan_id'', ''attempt_no'',
     ''monotonic_fence'', ''lease_version'', ''lease_expires_at_unix_seconds'',
     ''hard_deadline_unix_seconds'', ''attempt_state'', ''created_at_unix_seconds'',
     ''updated_at_unix_seconds'', ''started_at_unix_seconds'', ''finished_at_unix_seconds'']"

definition RESULT_KEYS :: "string list" where
  "RESULT_KEYS = [''schema_version'', ''guest_scan_id'', ''accepted_attempt_id'', ''accepted_fence'',
     ''payload_digest'', ''completed_at_unix_seconds'', ''projection'']"

definition JOB_STATES :: "(string \<times> job_state) list" where
  "JOB_STATES = [(''QUEUED'', J_QUEUED), (''RUNNING'', J_RUNNING), (''SUCCEEDED'', J_SUCCEEDED),
     (''FAILED'', J_FAILED), (''CANCELLED'', J_CANCELLED), (''EXPIRED'', J_EXPIRED)]"

definition ATTEMPT_STATES :: "(string \<times> attempt_state) list" where
  "ATTEMPT_STATES = [(''CREATED'', A_CREATED), (''LEASED'', A_LEASED), (''RUNNING'', A_RUNNING),
     (''SUCCEEDED'', A_SUCCEEDED), (''FAILED'', A_FAILED), (''TIMED_OUT'', A_TIMED_OUT),
     (''CANCELLED'', A_CANCELLED), (''SUPERSEDED'', A_SUPERSEDED)]"

definition as_state :: "(string \<times> 'a) list \<Rightarrow> jsval \<Rightarrow> 'a option" where
  "as_state states v = Option.bind (as_str v) (map_of states)"

text \<open>A value that may be \<^verbatim>\<open>null\<close>; the outer \<open>None\<close> is an invalid value.\<close>

definition nullable :: "(jsval \<Rightarrow> 'a option) \<Rightarrow> jsval \<Rightarrow> 'a option option" where
  "nullable read v = (if v = JNull then Some None else map_option Some (read v))"

abbreviation as_non_negative :: "jsval \<Rightarrow> int option" where
  "as_non_negative \<equiv> as_bounded 0 MAX_SAFE_INTEGER"

abbreviation as_positive :: "jsval \<Rightarrow> int option" where
  "as_positive \<equiv> as_bounded 1 MAX_SAFE_INTEGER"

definition read_accepted_result :: "jsval \<Rightarrow> result_identity option" where
  "read_accepted_result v =
     do {
       require (exact_object v [''attempt_id'', ''fence'', ''payload_digest'']);
       aid \<leftarrow> as_str_matching id_pattern (get_prop v ''attempt_id'');
       fence \<leftarrow> as_positive (get_prop v ''fence'');
       digest \<leftarrow> as_str_matching sha256_pattern (get_prop v ''payload_digest'');
       Some \<lparr>ri_attempt_id = aid, ri_fence = fence, ri_payload_digest = digest\<rparr>
     }"

definition accepted_result :: "jsval \<Rightarrow> result_identity option option" where
  "accepted_result = nullable read_accepted_result"

subsection \<open>Scans\<close>

definition read_guest_scan :: "(string \<Rightarrow> string) \<Rightarrow> jsval \<Rightarrow> guest_scan_record option" where
  "read_guest_scan to_ascii v =
     do {
       require (exact_object v SCAN_KEYS);
       require (get_prop v ''schema_version'' = JNum 1);
       sid \<leftarrow> as_str_matching id_pattern (get_prop v ''guest_scan_id'');
       target \<leftarrow> as_str (get_prop v ''canonical_target'');
       require (canonicalize_hostname to_ascii (JStr target) = Inr target);
       scope \<leftarrow> as_str_matching (hex64_pattern ''GUEST_SESSION:sha256:'') (get_prop v ''principal_scope'');
       require (get_prop v ''endpoint_operation'' = JStr GUEST_SCAN_ENDPOINT_OPERATION);
       key \<leftarrow> as_str_matching idempotency_key_pattern (get_prop v ''idempotency_key'');
       request_hash \<leftarrow> as_str_matching sha256_pattern (get_prop v ''request_hash'');
       created \<leftarrow> as_u64 (get_prop v ''created_at_unix_seconds'');
       updated \<leftarrow> as_u64 (get_prop v ''updated_at_unix_seconds'');
       expires \<leftarrow> as_u64 (get_prop v ''idempotency_expires_at_unix_seconds'');
       deletion \<leftarrow> as_u64 (get_prop v ''deletion_deadline_unix_seconds'');
       job \<leftarrow> as_state JOB_STATES (get_prop v ''job_state'');
       require (get_prop v ''policy_id'' = JStr ''outscan-v1'');
       require (get_prop v ''policy_version'' = JStr ''1.0.0'');
       require (get_prop v ''profile'' = JStr ''GUEST_SAFE'');
       token \<leftarrow> snapshot_guest_result_token_metadata (get_prop v ''result_token_metadata'');
       accepted \<leftarrow> accepted_result (get_prop v ''accepted_result'');
       fence \<leftarrow> as_non_negative (get_prop v ''current_fence'');
       attempt \<leftarrow> nullable (as_str_matching id_pattern) (get_prop v ''current_attempt_id'');
       Some \<lparr>gr_guest_scan_id = sid, gr_canonical_target = target, gr_principal_scope = scope,
         gr_idempotency_key = key, gr_request_hash = request_hash, gr_created_at = created,
         gr_updated_at = updated, gr_idempotency_expires_at = expires, gr_deletion_deadline = deletion,
         gr_job_state = job, gr_token_metadata = token, gr_current_attempt_id = attempt,
         gr_current_fence = fence, gr_accepted_result = accepted\<rparr>
     }"

definition scan_record_consistent :: "guest_scan_record \<Rightarrow> bool" where
  "scan_record_consistent r \<longleftrightarrow>
     (let access_expiry = gr_created_at r + GUEST_RESULT_ACCESS_SECONDS;
          deletion = gr_created_at r + GUEST_RETENTION_SECONDS;
          token = gr_token_metadata r
      in \<not> (access_expiry > UINT64_MAX \<or> deletion > UINT64_MAX \<or>
            gr_updated_at r < gr_created_at r \<or> gr_updated_at r > deletion \<or>
            gr_idempotency_expires_at r \<noteq> access_expiry \<or>
            tm_access_expires_at token \<noteq> access_expiry \<or> gr_deletion_deadline r \<noteq> deletion \<or>
            tm_guest_scan_id token \<noteq> gr_guest_scan_id r \<or>
            (case tm_access_revoked_at token of
               None \<Rightarrow> False | Some t \<Rightarrow> t < gr_created_at r \<or> t > gr_updated_at r) \<or>
            (gr_current_attempt_id r = None) \<noteq> (gr_current_fence r = 0) \<or>
            (gr_job_state r = J_QUEUED \<and> gr_current_attempt_id r \<noteq> None) \<or>
            (gr_job_state r = J_RUNNING \<and> gr_current_attempt_id r = None) \<or>
            (gr_job_state r = J_SUCCEEDED \<and> gr_accepted_result r = None) \<or>
            (gr_job_state r \<noteq> J_SUCCEEDED \<and> gr_accepted_result r \<noteq> None) \<or>
            (case gr_accepted_result r of
               None \<Rightarrow> False
             | Some i \<Rightarrow> Some (ri_attempt_id i) \<noteq> gr_current_attempt_id r \<or>
                 ri_fence i \<noteq> gr_current_fence r)))"

definition snapshot_guest_scan :: "(string \<Rightarrow> string) \<Rightarrow> jsval \<Rightarrow> guest_scan_record option" where
  "snapshot_guest_scan to_ascii v =
     (case read_guest_scan to_ascii v of
        None \<Rightarrow> None
      | Some r \<Rightarrow> if scan_record_consistent r then Some r else None)"

subsection \<open>Attempts\<close>

definition TERMINAL_ATTEMPTS :: "attempt_state list" where
  "TERMINAL_ATTEMPTS = [A_SUCCEEDED, A_FAILED, A_TIMED_OUT, A_CANCELLED, A_SUPERSEDED]"

definition LEASED_ATTEMPTS :: "attempt_state list" where
  "LEASED_ATTEMPTS = [A_LEASED, A_RUNNING, A_SUCCEEDED, A_FAILED, A_TIMED_OUT, A_SUPERSEDED]"

definition STARTED_ATTEMPTS :: "attempt_state list" where
  "STARTED_ATTEMPTS = [A_RUNNING, A_SUCCEEDED, A_FAILED, A_TIMED_OUT]"

definition read_guest_scan_attempt :: "jsval \<Rightarrow> guest_scan_attempt_record option" where
  "read_guest_scan_attempt v =
     do {
       require (exact_object v ATTEMPT_KEYS);
       require (get_prop v ''schema_version'' = JNum 1);
       aid \<leftarrow> as_str_matching id_pattern (get_prop v ''guest_scan_attempt_id'');
       sid \<leftarrow> as_str_matching id_pattern (get_prop v ''guest_scan_id'');
       no \<leftarrow> as_positive (get_prop v ''attempt_no'');
       fence \<leftarrow> as_positive (get_prop v ''monotonic_fence'');
       version \<leftarrow> as_non_negative (get_prop v ''lease_version'');
       deadline \<leftarrow> as_u64 (get_prop v ''hard_deadline_unix_seconds'');
       created \<leftarrow> as_u64 (get_prop v ''created_at_unix_seconds'');
       updated \<leftarrow> as_u64 (get_prop v ''updated_at_unix_seconds'');
       state \<leftarrow> as_state ATTEMPT_STATES (get_prop v ''attempt_state'');
       lease \<leftarrow> nullable as_u64 (get_prop v ''lease_expires_at_unix_seconds'');
       started \<leftarrow> nullable as_u64 (get_prop v ''started_at_unix_seconds'');
       finished \<leftarrow> nullable as_u64 (get_prop v ''finished_at_unix_seconds'');
       Some \<lparr>ga_attempt_id = aid, ga_guest_scan_id = sid, ga_attempt_no = no, ga_fence = fence,
         ga_lease_version = version, ga_lease_expires_at = lease, ga_hard_deadline = deadline,
         ga_state = state, ga_created_at = created, ga_updated_at = updated,
         ga_started_at = started, ga_finished_at = finished\<rparr>
     }"

definition attempt_record_consistent :: "guest_scan_attempt_record \<Rightarrow> bool" where
  "attempt_record_consistent r \<longleftrightarrow>
     (let st = ga_state r; created = ga_created_at r; updated = ga_updated_at r;
          deadline = ga_hard_deadline r
      in \<not> (updated < created \<or> deadline \<le> created \<or>
            (st = A_CREATED \<and> (ga_lease_version r \<noteq> 0 \<or> ga_lease_expires_at r \<noteq> None)) \<or>
            (st \<in> set LEASED_ATTEMPTS \<and> (ga_lease_version r = 0 \<or> ga_lease_expires_at r = None)) \<or>
            (case ga_lease_expires_at r of
               None \<Rightarrow> False | Some l \<Rightarrow> l \<le> created \<or> l > deadline) \<or>
            (st \<in> set STARTED_ATTEMPTS \<and> ga_started_at r = None) \<or>
            ((st = A_CREATED \<or> st = A_LEASED) \<and> ga_started_at r \<noteq> None) \<or>
            (case ga_started_at r of None \<Rightarrow> False | Some t \<Rightarrow> t < created \<or> t > updated) \<or>
            (st \<in> set TERMINAL_ATTEMPTS) \<noteq> (ga_finished_at r \<noteq> None) \<or>
            (case ga_finished_at r of
               None \<Rightarrow> False
             | Some t \<Rightarrow> t < (case ga_started_at r of None \<Rightarrow> created | Some b \<Rightarrow> b) \<or> t > updated) \<or>
            (st = A_SUCCEEDED \<and>
             (case (ga_finished_at r, ga_lease_expires_at r) of
                (Some f, Some l) \<Rightarrow> f \<ge> l \<or> f \<ge> deadline
              | _ \<Rightarrow> True))))"

definition snapshot_guest_scan_attempt :: "jsval \<Rightarrow> guest_scan_attempt_record option" where
  "snapshot_guest_scan_attempt v =
     (case read_guest_scan_attempt v of
        None \<Rightarrow> None
      | Some r \<Rightarrow> if attempt_record_consistent r then Some r else None)"

subsection \<open>Results\<close>

definition snapshot_result :: "(string \<Rightarrow> string) \<Rightarrow> jsval \<Rightarrow> guest_result_record option" where
  "snapshot_result to_ascii v =
     do {
       require (exact_object v RESULT_KEYS);
       projection \<leftarrow> snapshot_sanitized_guest_projection to_ascii (get_prop v ''projection'');
       require (get_prop v ''schema_version'' = JNum 1);
       sid \<leftarrow> as_str_matching id_pattern (get_prop v ''guest_scan_id'');
       aid \<leftarrow> as_str_matching id_pattern (get_prop v ''accepted_attempt_id'');
       fence \<leftarrow> as_positive (get_prop v ''accepted_fence'');
       digest \<leftarrow> as_str_matching sha256_pattern (get_prop v ''payload_digest'');
       completed \<leftarrow> as_u64 (get_prop v ''completed_at_unix_seconds'');
       Some \<lparr>gt_guest_scan_id = sid, gt_accepted_attempt_id = aid, gt_accepted_fence = fence,
         gt_payload_digest = digest, gt_completed_at = completed, gt_projection = projection\<rparr>
     }"

definition snapshot_guest_result_read_record ::
  "(string \<Rightarrow> string) \<Rightarrow> jsval \<Rightarrow> (guest_scan_record \<times> guest_result_record) option" where
  "snapshot_guest_result_read_record to_ascii v =
     do {
       require (exact_object v [''scan'', ''result'']);
       scan \<leftarrow> snapshot_guest_scan to_ascii (get_prop v ''scan'');
       result \<leftarrow> snapshot_result to_ascii (get_prop v ''result'');
       require (gr_job_state scan = J_SUCCEEDED);
       accepted \<leftarrow> gr_accepted_result scan;
       require (\<not> (gt_guest_scan_id result \<noteq> gr_guest_scan_id scan \<or>
         gt_accepted_attempt_id result \<noteq> ri_attempt_id accepted \<or>
         gt_accepted_fence result \<noteq> ri_fence accepted \<or>
         gt_payload_digest result \<noteq> ri_payload_digest accepted \<or>
         gt_completed_at result < gr_created_at scan \<or> gt_completed_at result > gr_updated_at scan \<or>
         gt_completed_at result \<ge> gr_deletion_deadline scan));
       Some (scan, result)
     }"

subsection \<open>Objects\<close>

definition null_or :: "('a \<Rightarrow> jsval) \<Rightarrow> 'a option \<Rightarrow> jsval" where
  "null_or f v = (case v of None \<Rightarrow> JNull | Some x \<Rightarrow> f x)"

definition state_text :: "(string \<times> 'a) list \<Rightarrow> 'a \<Rightarrow> string" where
  "state_text states st = (case find (\<lambda>(t, x). x = st) states of None \<Rightarrow> [] | Some (t, _) \<Rightarrow> t)"

definition accepted_object :: "result_identity \<Rightarrow> jsval" where
  "accepted_object i =
     JObj [(''attempt_id'', JStr (ri_attempt_id i)), (''fence'', JNum (ri_fence i)),
       (''payload_digest'', JStr (ri_payload_digest i))]"

definition scan_object :: "guest_scan_record \<Rightarrow> jsval" where
  "scan_object r = JObj
     [(''schema_version'', JNum 1), (''guest_scan_id'', JStr (gr_guest_scan_id r)),
      (''canonical_target'', JStr (gr_canonical_target r)),
      (''principal_scope'', JStr (gr_principal_scope r)),
      (''endpoint_operation'', JStr GUEST_SCAN_ENDPOINT_OPERATION),
      (''idempotency_key'', JStr (gr_idempotency_key r)), (''request_hash'', JStr (gr_request_hash r)),
      (''created_at_unix_seconds'', JBig (gr_created_at r)),
      (''updated_at_unix_seconds'', JBig (gr_updated_at r)),
      (''idempotency_expires_at_unix_seconds'', JBig (gr_idempotency_expires_at r)),
      (''deletion_deadline_unix_seconds'', JBig (gr_deletion_deadline r)),
      (''job_state'', JStr (state_text JOB_STATES (gr_job_state r))),
      (''policy_id'', JStr ''outscan-v1''), (''policy_version'', JStr ''1.0.0''),
      (''profile'', JStr ''GUEST_SAFE''),
      (''result_token_metadata'', metadata_object (gr_token_metadata r)),
      (''current_attempt_id'', null_or JStr (gr_current_attempt_id r)),
      (''current_fence'', JNum (gr_current_fence r)),
      (''accepted_result'', null_or accepted_object (gr_accepted_result r))]"

definition result_object :: "string \<Rightarrow> string \<Rightarrow> int \<Rightarrow> string \<Rightarrow> int \<Rightarrow> jsval \<Rightarrow> jsval" where
  "result_object sid aid fence digest completed projection = JObj
     [(''schema_version'', JNum 1), (''guest_scan_id'', JStr sid), (''accepted_attempt_id'', JStr aid),
      (''accepted_fence'', JNum fence), (''payload_digest'', JStr digest),
      (''completed_at_unix_seconds'', JBig completed), (''projection'', projection)]"

fun read_record_object :: "guest_scan_record \<times> guest_result_record \<Rightarrow> jsval" where
  "read_record_object (scan, r) = JObj
     [(''scan'', scan_object scan),
      (''result'', result_object (gt_guest_scan_id r) (gt_accepted_attempt_id r) (gt_accepted_fence r)
         (gt_payload_digest r) (gt_completed_at r) (projection_value (gt_projection r)))]"

subsection \<open>The row of a result\<close>

definition map_guest_result_read_row ::
  "(string \<Rightarrow> string) \<Rightarrow> string \<Rightarrow> scan_row \<Rightarrow> result_row \<Rightarrow>
   (guest_scan_record \<times> guest_result_record) option" where
  "map_guest_result_read_row to_ascii sid s r =
     do {
       scope \<leftarrow> row_digest (gs_session_scope s);
       request_hash \<leftarrow> row_digest (gs_request_hash s);
       require (length (gs_token_nonce s) = 32);
       accepted_digest \<leftarrow> Option.bind (gs_accepted_digest s) row_digest;
       result_digest \<leftarrow> row_digest (rr_digest r);
       created \<leftarrow> row_integer (gs_created_at s);
       updated \<leftarrow> row_integer (gs_updated_at s);
       expires \<leftarrow> row_integer (gs_idempotency_expires_at s);
       deletion \<leftarrow> row_integer (gs_deletion_deadline s);
       token_version \<leftarrow> row_integer (gs_token_version s);
       key_version \<leftarrow> row_safe_number (gs_token_key_version s);
       current_fence \<leftarrow> row_safe_number (gs_current_fence s);
       accepted_fence \<leftarrow> Option.bind (gs_accepted_fence s) row_safe_number;
       completed \<leftarrow> row_integer (rr_completed_at r);
       require (opt_all (\<lambda>t. row_integer t \<noteq> None) (gs_access_revoked_at s));
       current_attempt \<leftarrow> gs_current_attempt_id s;
       accepted_attempt \<leftarrow> gs_accepted_attempt_id s;
       snapshot_guest_result_read_record to_ascii (JObj
         [(''scan'', scan_object
             \<lparr>gr_guest_scan_id = sid, gr_canonical_target = gs_canonical_target s,
              gr_principal_scope = ''GUEST_SESSION:'' @ scope, gr_idempotency_key = gs_idempotency_key s,
              gr_request_hash = request_hash, gr_created_at = created, gr_updated_at = updated,
              gr_idempotency_expires_at = expires, gr_deletion_deadline = deletion,
              gr_job_state = gs_job_state s,
              gr_token_metadata =
                \<lparr>tm_guest_scan_id = sid, tm_token_version = token_version,
                 tm_token_nonce = gs_token_nonce s, tm_key_version = key_version,
                 tm_access_expires_at = expires, tm_access_revoked_at = gs_access_revoked_at s\<rparr>,
              gr_current_attempt_id = Some current_attempt, gr_current_fence = current_fence,
              gr_accepted_result = Some \<lparr>ri_attempt_id = accepted_attempt, ri_fence = accepted_fence,
                ri_payload_digest = accepted_digest\<rparr>\<rparr>),
          (''result'', result_object sid accepted_attempt accepted_fence result_digest completed
             (rr_projection r))])
     }"

definition load_by_guest_scan_id ::
  "(string \<Rightarrow> string) \<Rightarrow> guest_db \<Rightarrow> string \<Rightarrow> (guest_scan_record \<times> guest_result_record) option" where
  "load_by_guest_scan_id to_ascii db sid =
     do {
       require (id_pattern sid);
       s \<leftarrow> map_of (db_scans db) sid;
       r \<leftarrow> map_of (db_results db) sid;
       map_guest_result_read_row to_ascii sid s r
     }"

text \<open>The store as the service sees it; \<open>None\<close> is an exception of the query.\<close>

definition postgres_result_store :: "(string \<Rightarrow> string) \<Rightarrow> bool \<Rightarrow> guest_db \<Rightarrow> string \<Rightarrow> jsval option" where
  "postgres_result_store to_ascii query_ok db sid =
     (if id_pattern sid \<and> \<not> query_ok then None
      else Some (null_or read_record_object (load_by_guest_scan_id to_ascii db sid)))"

subsection \<open>The authorized read\<close>

definition request_snapshot :: "jsval \<Rightarrow> access_request option" where
  "request_snapshot v =
     do {
       require (exact_object v ACCESS_REQUEST_KEYS);
       route \<leftarrow> as_str_matching (\<lambda>s. \<not> (length (utf8 s) < 1 \<or> length (utf8 s) > 512))
         (get_prop v ''route_guest_scan_id'');
       require (empty_query (get_prop v ''query''));
       now \<leftarrow> as_u64 (get_prop v ''now_unix_seconds'');
       Some \<lparr>aq_authorization_header = get_prop v ''authorization_header'',
         aq_route_guest_scan_id = route, aq_now = now\<rparr>
     }"

definition read_authorized_guest_result ::
  "(string \<Rightarrow> string) \<Rightarrow> jsval \<Rightarrow> (string \<Rightarrow> jsval option) \<Rightarrow> (int \<Rightarrow> bytes option) \<Rightarrow> read_decision" where
  "read_authorized_guest_result to_ascii request_value store keyring =
     (case request_snapshot request_value of
        None \<Rightarrow> READ_FAILED INVALID_RESULT_REQUEST
      | Some q \<Rightarrow>
          (case Option.bind (as_str_matching (\<lambda>h. length h \<le> 128) (aq_authorization_header q)) bearer_token of
             None \<Rightarrow> READ_FAILED RESULT_ACCESS_DENIED
           | Some _ \<Rightarrow>
               (case Option.bind (store (aq_route_guest_scan_id q))
                       (snapshot_guest_result_read_record to_ascii) of
                  None \<Rightarrow> READ_FAILED RESULT_ACCESS_DENIED
                | Some (scan, r) \<Rightarrow>
                    if access_request.aq_now q \<ge> gr_deletion_deadline scan then READ_FAILED RESULT_ACCESS_DENIED
                    else (case authorize_guest_result_access (access_request_object q)
                                 (metadata_object (gr_token_metadata scan)) keyring of
                            Inl _ \<Rightarrow> READ_FAILED RESULT_ACCESS_DENIED
                          | Inr access \<Rightarrow>
                              (case create_guest_result_view to_ascii (JObj
                                      [(''access'', access_object access),
                                       (''completed_at_unix_seconds'', JBig (gt_completed_at r)),
                                       (''projection'', projection_value (gt_projection r))]) of
                                 None \<Rightarrow> READ_FAILED RESULT_ACCESS_DENIED
                               | Some w \<Rightarrow>
                                   if gv_canonical_host w \<noteq> gr_canonical_target scan
                                   then READ_FAILED RESULT_ACCESS_DENIED else READ_OK w)))))"

end
