(* ===== verification/Guest_Commit.thy ===== *)
theory Guest_Commit
  imports Guest_Lease
begin

section \<open>Storing an accepted scan result\<close>

text \<open>
  Models \<^verbatim>\<open>persistResult\<close> of
  \<^verbatim>\<open>apps/api/src/guest-persistence/postgres-result-commit.ts\<close> with the row mapping
  and the statements it runs.  The clock here is the timestamp the database
  gives the transaction.  The submission identity comes from the verified
  envelope (theory \<open>Result_Envelope\<close>) and the projection from the scanner output.
  A violation of \<^verbatim>\<open>guest_results_pkey\<close> is retried by the code; a retry sees the
  same rows and ends like the first try, so it is an ordinary failure here.
\<close>

datatype commit_result =
    RESULT_COMMITTED bool
  | COMMIT_REFUSED rejection_code bool

subsection \<open>The locked row\<close>

record locked_result_state =
  lk_snapshot :: result_commit_snapshot
  lk_canonical_target :: string
  lk_now :: int

definition safe_positive_integer :: "int \<Rightarrow> int option" where
  "safe_positive_integer n = (if n > 0 \<and> n \<le> MAX_SAFE_INTEGER then Some n else None)"

definition lock_current_result_state :: "string \<Rightarrow> guest_db \<Rightarrow> (scan_row \<times> attempt_row) option" where
  "lock_current_result_state sid db =
     do {
       s \<leftarrow> map_of (db_scans db) sid;
       aid \<leftarrow> gs_current_attempt_id s;
       a \<leftarrow> map_of (db_attempts db) aid;
       require (at_scan_id a = sid \<and> at_fence a = gs_current_fence s);
       Some (s, a)
     }"

text \<open>\<^verbatim>\<open>accepted_result\<close>: all three columns or none; \<open>None\<close> is an invalid row.\<close>

definition map_accepted :: "scan_row \<Rightarrow> result_identity option option" where
  "map_accepted s =
     (case (gs_accepted_attempt_id s, Option.bind (gs_accepted_fence s) safe_positive_integer,
            gs_accepted_digest s) of
        (None, None, None) \<Rightarrow> Some None
      | (Some aid, Some f, Some d) \<Rightarrow>
          if length d = 32
          then Some (Some \<lparr>ri_attempt_id = aid, ri_fence = f, ri_payload_digest = sha256_text d\<rparr>)
          else None
      | _ \<Rightarrow> None)"

definition map_locked_state :: "int \<Rightarrow> scan_row \<times> attempt_row \<Rightarrow> locked_result_state option" where
  "map_locked_state transaction_now = (\<lambda>(s, a).
     do {
       aid \<leftarrow> gs_current_attempt_id s;
       fence \<leftarrow> safe_positive_integer (gs_current_fence s);
       lease_expires \<leftarrow> Option.bind (at_lease_expires_at a) safe_positive_integer;
       deadline \<leftarrow> safe_positive_integer (at_hard_deadline a);
       now \<leftarrow> safe_positive_integer transaction_now;
       accepted \<leftarrow> map_accepted s;
       Some \<lparr>lk_snapshot =
           \<lparr>rc_job_state = gs_job_state s, rc_current_attempt_id = aid, rc_current_fence = fence,
            rc_attempt_state = at_state a, rc_lease_expires_at = lease_expires,
            rc_hard_deadline = deadline, rc_accepted_result = accepted\<rparr>,
         lk_canonical_target = gs_canonical_target s, lk_now = now\<rparr>
     })"

subsection \<open>Statements\<close>

definition succeed_attempt ::
  "string \<Rightarrow> result_identity \<Rightarrow> int \<Rightarrow> guest_db \<Rightarrow> guest_db option" where
  "succeed_attempt sid sub now db =
     update_attempt sid (ri_attempt_id sub)
       (\<lambda>a. at_fence a = ri_fence sub \<and> at_state a = A_RUNNING \<and>
          (case at_lease_expires_at a of None \<Rightarrow> False | Some l \<Rightarrow> l > now) \<and>
          at_hard_deadline a > now)
       (\<lambda>a. a\<lparr>at_state := A_SUCCEEDED, at_finished_at := Some now, at_updated_at := now\<rparr>) db"

definition succeed_scan ::
  "string \<Rightarrow> result_identity \<Rightarrow> bytes \<Rightarrow> int \<Rightarrow> guest_db \<Rightarrow> guest_db option" where
  "succeed_scan sid sub digest now db =
     update_scan sid
       (\<lambda>s. gs_job_state s = J_RUNNING \<and> gs_current_attempt_id s = Some (ri_attempt_id sub) \<and>
          gs_current_fence s = ri_fence sub \<and> gs_accepted_attempt_id s = None \<and>
          gs_accepted_fence s = None \<and> gs_accepted_digest s = None)
       (\<lambda>s. s\<lparr>gs_job_state := J_SUCCEEDED, gs_accepted_attempt_id := Some (ri_attempt_id sub),
          gs_accepted_fence := Some (ri_fence sub), gs_accepted_digest := Some digest,
          gs_updated_at := now\<rparr>) db"

subsection \<open>The transaction\<close>

definition store_result ::
  "string \<Rightarrow> result_identity \<Rightarrow> jsval \<Rightarrow> int \<Rightarrow> guest_db \<Rightarrow> guest_db option" where
  "store_result sid sub projection now db =
     (let digest = digest_bytes ''sha256:'' (ri_payload_digest sub)
      in do {
        db1 \<leftarrow> succeed_attempt sid sub now db;
        db2 \<leftarrow> succeed_scan sid sub digest now db1;
        db3 \<leftarrow> insert_result sid
          \<lparr>rr_attempt_id = ri_attempt_id sub, rr_fence = ri_fence sub, rr_digest = digest,
           rr_completed_at = now, rr_projection = projection\<rparr> db2;
        db4 \<leftarrow> release_or_throw sid now RR_TERMINAL_RESULT db3;
        require (deferred_keys sid db4);
        Some db4
      })"

definition persist_result_tx ::
  "string \<Rightarrow> result_identity \<Rightarrow> jsval \<Rightarrow> int \<Rightarrow> guest_db \<Rightarrow> (commit_result \<times> guest_db) option" where
  "persist_result_tx sid sub projection transaction_now db =
     (case Option.bind (lock_current_result_state sid db) (map_locked_state transaction_now) of
        None \<Rightarrow> Some (COMMIT_REFUSED (REJ_COMMIT INVALID_STATE) True, db)
      | Some state \<Rightarrow>
          (case decide_result_commit (lk_snapshot state) sub (lk_now state) of
             COMMIT_DENIED code audit \<Rightarrow> Some (COMMIT_REFUSED (REJ_COMMIT code) audit, db)
           | ALREADY_COMMITTED \<Rightarrow> Some (RESULT_COMMITTED False, db)
           | PRIMARY_COMMIT _ _ \<Rightarrow>
               if get_prop projection ''canonical_host'' \<noteq> JStr (lk_canonical_target state)
               then Some (COMMIT_REFUSED REJ_SUBMISSION_REJECTED True, db)
               else do {
                 db' \<leftarrow> store_result sid sub projection (lk_now state) db;
                 Some (RESULT_COMMITTED True, db')
               }))"

definition persist_result ::
  "try_outcome list \<Rightarrow> string \<Rightarrow> result_identity \<Rightarrow> jsval \<Rightarrow> int \<Rightarrow> guest_db \<Rightarrow>
   commit_result \<times> guest_db" where
  "persist_result tries sid sub projection transaction_now db =
     (case transaction tries (persist_result_tx sid sub projection transaction_now) db of
        (None, db') \<Rightarrow> (COMMIT_REFUSED REJ_PERSISTENCE_UNAVAILABLE False, db')
      | (Some result, db') \<Rightarrow> (result, db'))"

end
