(* ===== verification/Guest_Retention.thy ===== *)
theory Guest_Retention
  imports Guest_Lease "HOL-Library.Product_Lexorder"
begin

section \<open>Retention, rejection events and session revocations\<close>

text \<open>
  Models \<^verbatim>\<open>postgres-retention.ts\<close>, \<^verbatim>\<open>postgres-result-rejection.ts\<close> and
  \<^verbatim>\<open>postgres-session-revocation.ts\<close> of \<^verbatim>\<open>apps/api/src/guest-persistence\<close>.
  \<^verbatim>\<open>SKIP LOCKED\<close> skips rows that a concurrent transaction holds; the steps
  here run one after another, so no row is held.
\<close>

subsection \<open>The order of counter windows\<close>

fun dimension_text :: "window_dimension \<Rightarrow> string" where
  "dimension_text SESSION_BURST = ''SESSION_BURST''"
| "dimension_text SESSION_DAILY = ''SESSION_DAILY''"
| "dimension_text NETWORK_BURST = ''NETWORK_BURST''"
| "dimension_text NETWORK_DAILY = ''NETWORK_DAILY''"

lemma dimension_text_inj: "dimension_text a = dimension_text b \<longleftrightarrow> a = b"
  by (cases a; cases b) simp_all

text \<open>\<^verbatim>\<open>ORDER BY dimension\<close> compares the names.\<close>

instantiation window_dimension :: linorder
begin

definition less_eq_window_dimension :: "window_dimension \<Rightarrow> window_dimension \<Rightarrow> bool" where
  "less_eq_window_dimension a b \<longleftrightarrow> dimension_text a \<le> dimension_text b"

definition less_window_dimension :: "window_dimension \<Rightarrow> window_dimension \<Rightarrow> bool" where
  "less_window_dimension a b \<longleftrightarrow> dimension_text a < dimension_text b"

instance
  by standard
    (auto simp: less_eq_window_dimension_def less_window_dimension_def dimension_text_inj
      dest: antisym)

end

subsection \<open>Requests\<close>

definition MAX_BATCH_SIZE :: int where "MAX_BATCH_SIZE = 1000"

definition batch_request :: "jsval \<Rightarrow> int option" where
  "batch_request v =
     do {
       require (is_record v \<and> own_keys v = [''batch_size'']);
       as_bounded 1 MAX_BATCH_SIZE (get_prop v ''batch_size'')
     }"

subsection \<open>One due scan\<close>

definition retention_decrement ::
  "active_dimension \<Rightarrow> bytes \<Rightarrow> int \<Rightarrow> guest_db \<Rightarrow> bool \<times> guest_db" where
  "retention_decrement d g now db =
     (case map_of (db_active db) (d, g) of
        None \<Rightarrow> (False, db)
      | Some r \<Rightarrow>
          if \<not> ac_count r > 0 then (False, db)
          else if ac_count r - 1 = 0
          then (True, db\<lparr>db_active := delete_where (\<lambda>k _. k = (d, g)) (db_active db)\<rparr>)
          else (True, db\<lparr>db_active :=
            put (d, g) \<lparr>ac_count = ac_count r - 1, ac_updated_at = now\<rparr> (db_active db)\<rparr>))"

record due_release =
  dr_decrements :: int
  dr_inconsistencies :: int

definition count_outcome :: "bool \<Rightarrow> due_release \<Rightarrow> due_release" where
  "count_outcome ok r =
     (if ok then r\<lparr>dr_decrements := dr_decrements r + 1\<rparr>
      else r\<lparr>dr_inconsistencies := dr_inconsistencies r + 1\<rparr>)"

definition release_due_reservation :: "string \<Rightarrow> int \<Rightarrow> guest_db \<Rightarrow> due_release \<times> guest_db" where
  "release_due_reservation sid now db =
     (case map_of (db_reservations db) sid of
        None \<Rightarrow> (\<lparr>dr_decrements = 0, dr_inconsistencies = 1\<rparr>, db)
      | Some r \<Rightarrow>
          if rv_released_at r \<noteq> None then (\<lparr>dr_decrements = 0, dr_inconsistencies = 0\<rparr>, db)
          else if length (rv_session_scope r) \<noteq> 32 \<or> length (rv_network_digest r) \<noteq> 32
          then (\<lparr>dr_decrements = 0, dr_inconsistencies = 1\<rparr>, db)
          else let (s_ok, db1) = retention_decrement SESSION_ACTIVE (rv_session_scope r) now db;
                   (n_ok, db2) = retention_decrement NETWORK_ACTIVE (rv_network_digest r) now db1
               in (count_outcome n_ok (count_outcome s_ok
                     \<lparr>dr_decrements = 0, dr_inconsistencies = 0\<rparr>), db2))"

definition delete_due_scan :: "string \<Rightarrow> int \<Rightarrow> guest_db \<Rightarrow> guest_db option" where
  "delete_due_scan sid now db =
     (case map_of (db_scans db) sid of
        None \<Rightarrow> None
      | Some s \<Rightarrow> if gs_deletion_deadline s \<le> now then delete_scan sid db else None)"

subsection \<open>A batch\<close>

definition due_scans :: "int \<Rightarrow> int \<Rightarrow> guest_db \<Rightarrow> string list" where
  "due_scans now batch db =
     map fst (take (nat batch) (sort_key (\<lambda>(sid, s). (gs_deletion_deadline s, sid))
       (rows_where (\<lambda>_ s. gs_deletion_deadline s \<le> now) (db_scans db))))"

fun delete_each :: "int \<Rightarrow> string list \<Rightarrow> due_release \<Rightarrow> guest_db \<Rightarrow> (due_release \<times> guest_db) option" where
  "delete_each now [] acc db = Some (acc, db)"
| "delete_each now (sid # sids) acc db =
     (let (release, db1) = release_due_reservation sid now db
      in case delete_due_scan sid now db1 of
           None \<Rightarrow> None
         | Some db2 \<Rightarrow>
             delete_each now sids
               \<lparr>dr_decrements = dr_decrements acc + dr_decrements release,
                dr_inconsistencies = dr_inconsistencies acc + dr_inconsistencies release\<rparr> db2)"

definition stale_windows :: "int \<Rightarrow> int \<Rightarrow> guest_db \<Rightarrow> (window_dimension \<times> bytes) list" where
  "stale_windows now batch db =
     map fst (take (nat batch)
       (sort_key (\<lambda>((d, g), w). (wr_reset_at w, is_session_window d, map uint g, d))
         (rows_where (\<lambda>_ w. wr_reset_at w \<le> now) (db_windows db))))"

definition more_work :: "int \<Rightarrow> guest_db \<Rightarrow> bool" where
  "more_work now db \<longleftrightarrow>
     rows_where (\<lambda>_ s. gs_deletion_deadline s \<le> now) (db_scans db) \<noteq> [] \<or>
     rows_where (\<lambda>_ w. wr_reset_at w \<le> now) (db_windows db) \<noteq> []"

record retention_batch =
  rb_observed_at :: int
  rb_due_scans_selected :: int
  rb_scans_deleted :: int
  rb_active_counter_decrements :: int
  rb_stale_windows_deleted :: int
  rb_inconsistencies :: int
  rb_more_work :: bool
  rb_alert_required :: bool

datatype retention_result =
    RETENTION_BATCH retention_batch
  | RETENTION_INVALID_REQUEST
  | RETENTION_UNAVAILABLE

definition run_batch_tx :: "int \<Rightarrow> int \<Rightarrow> guest_db \<Rightarrow> (retention_batch \<times> guest_db) option" where
  "run_batch_tx batch now db =
     (let due = due_scans now batch db
      in case delete_each now due \<lparr>dr_decrements = 0, dr_inconsistencies = 0\<rparr> db of
           None \<Rightarrow> None
         | Some (acc, db1) \<Rightarrow>
             let stale = stale_windows now batch db1;
                 db2 = db1\<lparr>db_windows := delete_where (\<lambda>k _. k \<in> set stale) (db_windows db1)\<rparr>
             in Some (\<lparr>rb_observed_at = now, rb_due_scans_selected = int (length due),
                  rb_scans_deleted = int (length due),
                  rb_active_counter_decrements = dr_decrements acc,
                  rb_stale_windows_deleted = int (length stale),
                  rb_inconsistencies = dr_inconsistencies acc, rb_more_work = more_work now db2,
                  rb_alert_required = dr_inconsistencies acc > 0\<rparr>, db2))"

text \<open>One try, without retries: \<open>NO_CONNECTION\<close> and a failing query answer the same.\<close>

definition run_batch ::
  "try_outcome \<Rightarrow> jsval \<Rightarrow> int option \<Rightarrow> guest_db \<Rightarrow> retention_result \<times> guest_db" where
  "run_batch try_result value clock db =
     (case batch_request value of
        None \<Rightarrow> (RETENTION_INVALID_REQUEST, db)
      | Some batch \<Rightarrow>
          (case (clock, try_result) of
             (Some now, RUNS) \<Rightarrow>
               (case run_batch_tx batch now db of
                  None \<Rightarrow> (RETENTION_UNAVAILABLE, db)
                | Some (result, db') \<Rightarrow> (RETENTION_BATCH result, db'))
           | _ \<Rightarrow> (RETENTION_UNAVAILABLE, db)))"

subsection \<open>Rejection events\<close>

definition REJECTION_CODES :: "(string \<times> rejection_code) list" where
  "REJECTION_CODES =
     [(''RESULT_SUBMISSION_REJECTED'', REJ_SUBMISSION_REJECTED),
      (''INVALID_STATE'', REJ_COMMIT INVALID_STATE),
      (''JOB_NOT_RUNNING'', REJ_COMMIT JOB_NOT_RUNNING),
      (''ATTEMPT_NOT_RUNNING'', REJ_COMMIT ATTEMPT_NOT_RUNNING),
      (''STALE_ATTEMPT'', REJ_COMMIT STALE_ATTEMPT),
      (''LEASE_EXPIRED'', REJ_COMMIT LEASE_EXPIRED),
      (''ATTEMPT_DEADLINE_EXCEEDED'', REJ_COMMIT ATTEMPT_DEADLINE_EXCEEDED),
      (''RESULT_DIGEST_CONFLICT'', REJ_COMMIT RESULT_DIGEST_CONFLICT),
      (''GUEST_PERSISTENCE_UNAVAILABLE'', REJ_PERSISTENCE_UNAVAILABLE)]"

definition rejection_is_security_relevant :: "rejection_code \<Rightarrow> bool" where
  "rejection_is_security_relevant c \<longleftrightarrow>
     c \<in> {REJ_SUBMISSION_REJECTED, REJ_COMMIT INVALID_STATE, REJ_COMMIT RESULT_DIGEST_CONFLICT}"

definition REJECTION_KEYS :: "string list" where
  "REJECTION_KEYS = [''schema_version'', ''guest_scan_id'', ''attempt_id'', ''monotonic_fence'',
     ''rejection_code'']"

definition parse_rejection_request :: "jsval \<Rightarrow> (string \<times> string \<times> int \<times> rejection_code) option" where
  "parse_rejection_request v =
     do {
       require (exact_record v REJECTION_KEYS \<and> get_prop v ''schema_version'' = JNum 1);
       sid \<leftarrow> as_str_matching id_pattern (get_prop v ''guest_scan_id'');
       aid \<leftarrow> as_str_matching id_pattern (get_prop v ''attempt_id'');
       fence \<leftarrow> as_bounded 1 MAX_SAFE_INTEGER (get_prop v ''monotonic_fence'');
       text \<leftarrow> as_str (get_prop v ''rejection_code'');
       code \<leftarrow> map_of REJECTION_CODES text;
       Some (sid, aid, fence, code)
     }"

datatype rejection_result =
    REJECTION_RECORDED bool
  | REJECTION_ALREADY_RECORDED bool
  | REJECTION_INVALID_REQUEST
  | REJECTION_UNAVAILABLE

text \<open>\<^verbatim>\<open>guard_guest_result_rejection_event_insert\<close> and the foreign key of the event.\<close>

definition rejection_insertable :: "string \<times> string \<times> int \<times> rejection_code \<Rightarrow> int \<Rightarrow> guest_db \<Rightarrow> bool" where
  "rejection_insertable k occurred_at db \<longleftrightarrow>
     (case map_of (db_scans db) (fst k) of
        None \<Rightarrow> False
      | Some s \<Rightarrow> gs_created_at s \<le> occurred_at \<and> occurred_at < gs_deletion_deadline s)"

definition rejection_attempt_exists :: "string \<times> string \<times> int \<times> rejection_code \<Rightarrow> guest_db \<Rightarrow> bool" where
  "rejection_attempt_exists k db \<longleftrightarrow>
     (case map_of (db_attempts db) (fst (snd k)) of
        None \<Rightarrow> False
      | Some a \<Rightarrow> at_scan_id a = fst k \<and> at_fence a = fst (snd (snd k)))"

definition record_rejection_tx ::
  "string \<times> string \<times> int \<times> rejection_code \<Rightarrow> int \<Rightarrow> guest_db \<Rightarrow> (rejection_result \<times> guest_db) option" where
  "record_rejection_tx k transaction_now db =
     (let relevant = rejection_is_security_relevant (snd (snd (snd k)))
      in if \<not> rejection_insertable k transaction_now db then None
         else case map_of (db_rejections db) k of
           Some row \<Rightarrow>
             if rj_security_relevant row = relevant
             then Some (REJECTION_ALREADY_RECORDED relevant, db) else None
         | None \<Rightarrow>
             if rejection_attempt_exists k db
             then Some (REJECTION_RECORDED relevant,
               db\<lparr>db_rejections := put k
                 \<lparr>rj_security_relevant = relevant, rj_occurred_at = transaction_now\<rparr>
                 (db_rejections db)\<rparr>)
             else None)"

definition record_rejection ::
  "try_outcome list \<Rightarrow> jsval \<Rightarrow> int \<Rightarrow> guest_db \<Rightarrow> rejection_result \<times> guest_db" where
  "record_rejection tries value transaction_now db =
     (case parse_rejection_request value of
        None \<Rightarrow> (REJECTION_INVALID_REQUEST, db)
      | Some k \<Rightarrow>
          (case transaction tries (record_rejection_tx k transaction_now) db of
             (None, db') \<Rightarrow> (REJECTION_UNAVAILABLE, db')
           | (Some result, db') \<Rightarrow> (result, db')))"

subsection \<open>Session revocations\<close>

definition REVOCATION_SECONDS :: int where "REVOCATION_SECONDS = 86400"

definition scope_bytes :: "jsval \<Rightarrow> bytes option" where
  "scope_bytes v = map_option (digest_bytes ''sha256:'') (as_str_matching sha256_pattern v)"

definition exact_scope_request :: "jsval \<Rightarrow> bytes option" where
  "exact_scope_request v =
     do {
       require (is_record v \<and> own_keys v = [''guest_session_scope'']);
       scope_bytes (get_prop v ''guest_session_scope'')
     }"

datatype revoke_result =
    REVOCATION_RECORDED | ALREADY_REVOKED | REVOKE_INVALID_REQUEST | REVOCATION_UNAVAILABLE

definition is_revoked :: "bool \<Rightarrow> jsval \<Rightarrow> int \<Rightarrow> guest_db \<Rightarrow> bool option" where
  "is_revoked query_ok v transaction_now db =
     do {
       scope \<leftarrow> scope_bytes v;
       require query_ok;
       Some (case map_of (db_revocations db) scope of
               None \<Rightarrow> False | Some r \<Rightarrow> rk_expires_at r > transaction_now)
     }"

definition revoke_tx :: "bytes \<Rightarrow> int \<Rightarrow> guest_db \<Rightarrow> (revoke_result \<times> guest_db) option" where
  "revoke_tx scope transaction_now db =
     (let kept = delete_where (\<lambda>k r. k = scope \<and> rk_expires_at r \<le> transaction_now)
            (db_revocations db);
          inserted = map_of kept scope = None;
          rows = (if inserted
            then put scope \<lparr>rk_revoked_at = transaction_now,
              rk_expires_at = transaction_now + REVOCATION_SECONDS\<rparr> kept
            else kept)
      in case map_of rows scope of
           None \<Rightarrow> None
         | Some r \<Rightarrow>
             if rk_expires_at r > transaction_now
             then Some (if inserted then REVOCATION_RECORDED else ALREADY_REVOKED,
               db\<lparr>db_revocations := rows\<rparr>)
             else None)"

definition revoke :: "try_outcome list \<Rightarrow> jsval \<Rightarrow> int \<Rightarrow> guest_db \<Rightarrow> revoke_result \<times> guest_db" where
  "revoke tries value transaction_now db =
     (case exact_scope_request value of
        None \<Rightarrow> (REVOKE_INVALID_REQUEST, db)
      | Some scope \<Rightarrow>
          (case transaction tries (revoke_tx scope transaction_now) db of
             (None, db') \<Rightarrow> (REVOCATION_UNAVAILABLE, db')
           | (Some result, db') \<Rightarrow> (result, db')))"

datatype prune_result = PRUNED int bool | PRUNE_INVALID_REQUEST | PRUNE_UNAVAILABLE

definition expired_revocations :: "int \<Rightarrow> int \<Rightarrow> guest_db \<Rightarrow> bytes list" where
  "expired_revocations now batch db =
     map fst (take (nat batch) (sort_key (\<lambda>(g, r). (rk_expires_at r, map uint g))
       (rows_where (\<lambda>_ r. rk_expires_at r \<le> now) (db_revocations db))))"

text \<open>Two statements without a transaction, each with its own timestamp: the flags say
  whether each query succeeds.\<close>

definition prune_expired ::
  "bool \<Rightarrow> bool \<Rightarrow> jsval \<Rightarrow> int \<Rightarrow> int \<Rightarrow> guest_db \<Rightarrow> prune_result \<times> guest_db" where
  "prune_expired delete_ok count_ok value now later db =
     (case batch_request value of
        None \<Rightarrow> (PRUNE_INVALID_REQUEST, db)
      | Some batch \<Rightarrow>
          if \<not> delete_ok then (PRUNE_UNAVAILABLE, db)
          else let gone = expired_revocations now batch db;
                   db' = db\<lparr>db_revocations :=
                     delete_where (\<lambda>k _. k \<in> set gone) (db_revocations db)\<rparr>
               in if count_ok
                  then (PRUNED (int (length gone))
                    (rows_where (\<lambda>_ r. rk_expires_at r \<le> later) (db_revocations db') \<noteq> []), db')
                  else (PRUNE_UNAVAILABLE, db'))"

end
