(* ===== verification/Guest_View.thy ===== *)
theory Guest_View
  imports Guest_Commit Guest_Store Guest_Retention
begin

section \<open>One scan as the protocol sees it\<close>

text \<open>
  The abstraction that relates the database to the protocol: the view of a scan
  is its row, its attempts, its result and its reservation.  Every statement of
  a handler changes the view of one scan in one place; the lemmas of this
  theory state that change, and \<open>scan_effect\<close> composes them.  \<open>view_step\<close> is the
  specification: the steps one committed transaction may make on a view, and
  \<open>view_inv\<close> the invariant they keep.
\<close>

subsection \<open>Views\<close>

record scan_view =
  sv_scan :: "scan_row option"
  sv_attempts :: "string \<rightharpoonup> attempt_row"
  sv_result :: "result_row option"
  sv_reservation :: "reservation_row option"

definition attempts_of :: "string \<Rightarrow> (string, attempt_row) table \<Rightarrow> (string \<rightharpoonup> attempt_row)" where
  "attempts_of sid t aid =
     (case map_of t aid of None \<Rightarrow> None | Some a \<Rightarrow> if at_scan_id a = sid then Some a else None)"

definition view :: "string \<Rightarrow> guest_db \<Rightarrow> scan_view" where
  "view sid db =
     \<lparr>sv_scan = map_of (db_scans db) sid, sv_attempts = attempts_of sid (db_attempts db),
      sv_result = map_of (db_results db) sid, sv_reservation = map_of (db_reservations db) sid\<rparr>"

definition no_scan :: scan_view where
  "no_scan = \<lparr>sv_scan = None, sv_attempts = Map.empty, sv_result = None, sv_reservation = None\<rparr>"

definition tables_distinct :: "guest_db \<Rightarrow> bool" where
  "tables_distinct db \<longleftrightarrow>
     keys_distinct (db_scans db) \<and> keys_distinct (db_attempts db) \<and>
     keys_distinct (db_results db) \<and> keys_distinct (db_reservations db) \<and>
     keys_distinct (db_windows db) \<and> keys_distinct (db_active db)"

definition same_counters :: "guest_db \<Rightarrow> guest_db \<Rightarrow> bool" where
  "same_counters db db' \<longleftrightarrow>
     db_active db' = db_active db \<and> db_windows db' = db_windows db \<and>
     db_reservations db' = db_reservations db \<and> db_service_state db' = db_service_state db"

text \<open>A change of the view of one scan that leaves everything else alone.\<close>

definition scan_effect ::
  "string \<Rightarrow> (scan_view \<Rightarrow> scan_view) \<Rightarrow> guest_db \<Rightarrow> guest_db \<Rightarrow> bool" where
  "scan_effect sid f db db' \<longleftrightarrow>
     view sid db' = f (view sid db) \<and> (\<forall>k. k \<noteq> sid \<longrightarrow> view k db' = view k db) \<and>
     same_counters db db' \<and> (tables_distinct db \<longrightarrow> tables_distinct db')"

lemma scan_effect_refl: "scan_effect sid (\<lambda>v. v) db db"
  by (simp add: scan_effect_def same_counters_def)

lemma scan_effect_trans:
  "scan_effect sid f db db1 \<Longrightarrow> scan_effect sid g db1 db2 \<Longrightarrow>
   scan_effect sid (\<lambda>v. g (f v)) db db2"
  by (auto simp: scan_effect_def same_counters_def)

lemma view_scan: "sv_scan (view sid db) = map_of (db_scans db) sid"
  and view_attempt: "sv_attempts (view sid db) aid =
    (case map_of (db_attempts db) aid of None \<Rightarrow> None
     | Some a \<Rightarrow> if at_scan_id a = sid then Some a else None)"
  and view_result: "sv_result (view sid db) = map_of (db_results db) sid"
  and view_reservation: "sv_reservation (view sid db) = map_of (db_reservations db) sid"
  by (simp_all add: view_def attempts_of_def)

lemma attempts_of_put:
  assumes "case map_of t aid of None \<Rightarrow> True | Some a0 \<Rightarrow> at_scan_id a0 = at_scan_id a"
  shows "attempts_of k (put aid a t) =
    (if k = at_scan_id a then (attempts_of k t)(aid \<mapsto> a) else attempts_of k t)"
  using assms by (auto simp: attempts_of_def fun_eq_iff split: option.splits)

subsection \<open>Effects of the statements\<close>

lemma update_scan_effect:
  assumes "update_scan sid p f db = Some db'"
  obtains s where "sv_scan (view sid db) = Some s" "p s" "guard_scan_update s (f s)"
    "scan_checks (f s)" "scan_effect sid (\<lambda>v. v\<lparr>sv_scan := Some (f s)\<rparr>) db db'"
proof -
  from assms obtain s where s: "map_of (db_scans db) sid = Some s" "p s"
    "guard_scan_update s (f s)" "scan_checks (f s)"
    and db': "db' = db\<lparr>db_scans := put sid (f s) (db_scans db)\<rparr>"
    by (auto simp: update_scan_def split: option.splits if_splits)
  have "scan_effect sid (\<lambda>v. v\<lparr>sv_scan := Some (f s)\<rparr>) db db'"
    by (auto simp: scan_effect_def db' view_def same_counters_def tables_distinct_def)
  with s that show ?thesis by (simp add: view_scan)
qed

lemma update_attempt_effect:
  assumes "update_attempt sid aid p f db = Some db'"
  obtains a where "sv_attempts (view sid db) aid = Some a" "p a" "guard_attempt_update a (f a)"
    "attempt_checks (f a)"
    "scan_effect sid (\<lambda>v. v\<lparr>sv_attempts := (sv_attempts v)(aid \<mapsto> f a)\<rparr>) db db'"
proof -
  from assms obtain a where a: "map_of (db_attempts db) aid = Some a" "at_scan_id a = sid" "p a"
    "guard_attempt_update a (f a)" "attempt_checks (f a)"
    and db': "db' = db\<lparr>db_attempts := put aid (f a) (db_attempts db)\<rparr>"
    by (auto simp: update_attempt_def split: option.splits if_splits)
  have fa: "at_scan_id (f a) = sid" using a(2,4) by (simp add: guard_attempt_update_def)
  have "scan_effect sid (\<lambda>v. v\<lparr>sv_attempts := (sv_attempts v)(aid \<mapsto> f a)\<rparr>) db db'"
    using a(1,2) fa
    by (auto simp: scan_effect_def db' view_def same_counters_def tables_distinct_def
        attempts_of_put)
  with a that show ?thesis by (simp add: view_attempt)
qed

lemma insert_attempt_effect:
  assumes "insert_attempt aid a db = Some db'"
  shows "id_pattern aid" "attempt_checks a" "guard_attempt_insert a"
    "sv_attempts (view (at_scan_id a) db) aid = None"
    "map_of (db_attempts db) aid = None"
    "scan_effect (at_scan_id a) (\<lambda>v. v\<lparr>sv_attempts := (sv_attempts v)(aid \<mapsto> a)\<rparr>) db db'"
    "\<forall>aid' a'. sv_attempts (view (at_scan_id a) db) aid' = Some a' \<longrightarrow>
       at_attempt_no a' \<noteq> at_attempt_no a \<and> at_fence a' \<noteq> at_fence a"
proof -
  from assms have a: "id_pattern aid" "attempt_checks a" "guard_attempt_insert a"
    "map_of (db_attempts db) aid = None"
    and u: "list_all (\<lambda>(_, r). at_scan_id r \<noteq> at_scan_id a \<or>
      (at_attempt_no r \<noteq> at_attempt_no a \<and> at_fence r \<noteq> at_fence a)) (db_attempts db)"
    and db': "db' = db\<lparr>db_attempts := put aid a (db_attempts db)\<rparr>"
    by (simp_all add: insert_attempt_def split: if_splits)
  then show "id_pattern aid" "attempt_checks a" "guard_attempt_insert a"
    "map_of (db_attempts db) aid = None" "sv_attempts (view (at_scan_id a) db) aid = None"
    by (simp_all add: view_attempt)
  show "scan_effect (at_scan_id a) (\<lambda>v. v\<lparr>sv_attempts := (sv_attempts v)(aid \<mapsto> a)\<rparr>) db db'"
    using a(4)
    by (auto simp: scan_effect_def db' view_def same_counters_def tables_distinct_def
        attempts_of_put)
  show "\<forall>aid' a'. sv_attempts (view (at_scan_id a) db) aid' = Some a' \<longrightarrow>
       at_attempt_no a' \<noteq> at_attempt_no a \<and> at_fence a' \<noteq> at_fence a"
    using u by (auto simp: view_attempt list_all_iff dest!: map_of_SomeD
        split: option.splits if_splits)
qed

lemma insert_result_effect:
  assumes "insert_result sid r db = Some db'"
  shows "length (rr_digest r) = 32" "guard_result_insert sid r db"
    "sv_result (view sid db) = None"
    "scan_effect sid (\<lambda>v. v\<lparr>sv_result := Some r\<rparr>) db db'"
  using assms
  by (auto simp: insert_result_def scan_effect_def view_def same_counters_def
      tables_distinct_def split: if_splits)

lemma load_attempt_Some:
  "load_attempt sid aid db = Some a \<longleftrightarrow>
     sv_attempts (view sid db) aid = Some a \<and> valid_attempt aid a"
  by (auto simp: load_attempt_def view_attempt split: option.splits)

lemma insert_scan_effect:
  assumes "insert_scan sid s db = Some db'"
  shows "id_pattern sid" "scan_checks s" "guard_scan_insert s" "sv_scan (view sid db) = None"
    "\<forall>k r. sv_scan (view k db) = Some r \<longrightarrow>
       gs_session_scope r \<noteq> gs_session_scope s \<or> gs_idempotency_key r \<noteq> gs_idempotency_key s"
    "scan_effect sid (\<lambda>v. v\<lparr>sv_scan := Some s\<rparr>) db db'"
  using assms
  by (auto simp: insert_scan_def view_def same_counters_def tables_distinct_def scan_effect_def
      list_all_iff dest!: map_of_SomeD split: if_splits)

text \<open>Deleting a scan empties its view; the reservation goes without being released.\<close>

lemma delete_scan_effect:
  assumes "delete_scan sid db = Some db'" "tables_distinct db"
  shows "view sid db' = no_scan" "\<forall>k. k \<noteq> sid \<longrightarrow> view k db' = view k db"
    "db_active db' = db_active db" "db_windows db' = db_windows db"
    "db_service_state db' = db_service_state db" "tables_distinct db'"
    "db_reservations db' = delete_where (\<lambda>k _. k = sid) (db_reservations db)"
    "sv_scan (view sid db) \<noteq> None"
  using assms
  by (auto simp: delete_scan_def view_def no_scan_def tables_distinct_def attempts_of_def
      fun_eq_iff get_delete split: option.splits if_splits)

end
