(* ===== verification/Guest_Protocol.thy ===== *)
theory Guest_Protocol
  imports Guest_View
begin

section \<open>The protocol of one guest scan\<close>

text \<open>
  The specification of what may happen to a scan: \<open>view_step\<close> has one rule per
  kind of committed transaction, with the rows it writes, and no database.
  \<open>view_inv\<close> is its invariant.  The handlers are proved to make only these steps
  (theory \<open>Guest_Refinement\<close>).
\<close>

subsection \<open>Steps\<close>

definition opened_reservation :: "scan_row \<Rightarrow> reservation_row \<Rightarrow> bool" where
  "opened_reservation s r \<longleftrightarrow>
     rv_session_scope r = gs_session_scope s \<and> rv_reserved_at r = gs_created_at s \<and>
     rv_deletion_deadline r = gs_deletion_deadline s"

text \<open>The row of a newly leased attempt with number and fence \<open>n\<close>.\<close>

definition leased_attempt :: "string \<Rightarrow> scan_row \<Rightarrow> int \<Rightarrow> int \<Rightarrow> attempt_row" where
  "leased_attempt sid s n now =
     (let deadline = min (now + GUEST_ATTEMPT_HARD_DEADLINE_SECONDS) (gs_access_expires_at s)
      in \<lparr>at_scan_id = sid, at_attempt_no = n, at_fence = n, at_lease_version = 1,
          at_lease_expires_at = Some (min (now + GUEST_ATTEMPT_LEASE_SECONDS) deadline),
          at_hard_deadline = deadline, at_state = A_LEASED, at_created_at = now,
          at_updated_at = now, at_started_at = None, at_finished_at = None\<rparr>)"

definition leased_scan :: "scan_row \<Rightarrow> string \<Rightarrow> int \<Rightarrow> int \<Rightarrow> scan_row" where
  "leased_scan s aid n now =
     s\<lparr>gs_job_state := J_RUNNING, gs_current_attempt_id := Some aid, gs_current_fence := n,
       gs_updated_at := now\<rparr>"

definition finished :: "attempt_row \<Rightarrow> attempt_state \<Rightarrow> int \<Rightarrow> attempt_row" where
  "finished a st now = a\<lparr>at_state := st, at_finished_at := Some now, at_updated_at := now\<rparr>"

definition closed_scan :: "scan_row \<Rightarrow> job_state \<Rightarrow> int \<Rightarrow> scan_row" where
  "closed_scan s j now = s\<lparr>gs_job_state := j, gs_updated_at := now\<rparr>"

definition released :: "reservation_row \<Rightarrow> int \<Rightarrow> release_reason \<Rightarrow> reservation_row" where
  "released r now reason = r\<lparr>rv_released_at := Some now, rv_release_reason := Some reason\<rparr>"

definition succeeded_scan :: "scan_row \<Rightarrow> string \<Rightarrow> int \<Rightarrow> bytes \<Rightarrow> int \<Rightarrow> scan_row" where
  "succeeded_scan s aid fence digest now =
     s\<lparr>gs_job_state := J_SUCCEEDED, gs_accepted_attempt_id := Some aid,
       gs_accepted_fence := Some fence, gs_accepted_digest := Some digest, gs_updated_at := now\<rparr>"

text \<open>Row changes the database accepts.\<close>

definition scan_written :: "scan_row \<Rightarrow> scan_row \<Rightarrow> bool" where
  "scan_written old new \<longleftrightarrow> guard_scan_update old new \<and> scan_checks new"

definition attempt_written :: "attempt_row \<Rightarrow> attempt_row \<Rightarrow> bool" where
  "attempt_written old new \<longleftrightarrow> guard_attempt_update old new \<and> attempt_checks new"

inductive view_step :: "string \<Rightarrow> scan_view \<Rightarrow> scan_view \<Rightarrow> bool" for sid where
  scan_created:
    "id_pattern sid \<Longrightarrow> scan_checks s \<Longrightarrow> guard_scan_insert s \<Longrightarrow>
     opened_reservation s r \<Longrightarrow> reservation_checks r \<Longrightarrow> rv_released_at r = None \<Longrightarrow>
     view_step sid no_scan
       \<lparr>sv_scan = Some s, sv_attempts = Map.empty, sv_result = None, sv_reservation = Some r\<rparr>"
| first_lease:
    "sv_scan v = Some s \<Longrightarrow> gs_job_state s = J_QUEUED \<Longrightarrow> now < gs_access_expires_at s \<Longrightarrow>
     sv_attempts v aid = None \<Longrightarrow> id_pattern aid \<Longrightarrow>
     attempt_checks (leased_attempt sid s 1 now) \<Longrightarrow> scan_written s (leased_scan s aid 1 now) \<Longrightarrow>
     view_step sid v
       (v\<lparr>sv_scan := Some (leased_scan s aid 1 now),
          sv_attempts := (sv_attempts v)(aid \<mapsto> leased_attempt sid s 1 now)\<rparr>)"
| next_lease:
    "sv_scan v = Some s \<Longrightarrow> gs_job_state s = J_RUNNING \<Longrightarrow> now < gs_access_expires_at s \<Longrightarrow>
     gs_current_attempt_id s = Some old \<Longrightarrow> sv_attempts v old = Some a \<Longrightarrow>
     at_lease_expires_at a = Some l \<Longrightarrow> min l (at_hard_deadline a) \<le> now \<Longrightarrow>
     at_attempt_no a < GUEST_MAX_ATTEMPTS \<Longrightarrow> st \<in> {A_TIMED_OUT, A_SUPERSEDED} \<Longrightarrow>
     attempt_written a (finished a st now) \<Longrightarrow> aid \<noteq> old \<Longrightarrow> sv_attempts v aid = None \<Longrightarrow>
     id_pattern aid \<Longrightarrow> attempt_checks (leased_attempt sid s (at_attempt_no a + 1) now) \<Longrightarrow>
     scan_written s (leased_scan s aid (at_attempt_no a + 1) now) \<Longrightarrow>
     view_step sid v
       (v\<lparr>sv_scan := Some (leased_scan s aid (at_attempt_no a + 1) now),
          sv_attempts := (sv_attempts v)(old \<mapsto> finished a st now,
            aid \<mapsto> leased_attempt sid s (at_attempt_no a + 1) now)\<rparr>)"
| started:
    "sv_scan v = Some s \<Longrightarrow> gs_job_state s = J_RUNNING \<Longrightarrow> gs_current_attempt_id s = Some aid \<Longrightarrow>
     sv_attempts v aid = Some a \<Longrightarrow> at_state a = A_LEASED \<Longrightarrow>
     at_lease_expires_at a = Some l \<Longrightarrow> now < min l (at_hard_deadline a) \<Longrightarrow>
     a' = a\<lparr>at_state := A_RUNNING, at_started_at := Some now, at_updated_at := now\<rparr> \<Longrightarrow>
     attempt_written a a' \<Longrightarrow>
     view_step sid v (v\<lparr>sv_attempts := (sv_attempts v)(aid \<mapsto> a')\<rparr>)"
| renewed:
    "sv_scan v = Some s \<Longrightarrow> gs_job_state s = J_RUNNING \<Longrightarrow> gs_current_attempt_id s = Some aid \<Longrightarrow>
     sv_attempts v aid = Some a \<Longrightarrow> at_state a = A_RUNNING \<Longrightarrow>
     at_lease_expires_at a = Some l \<Longrightarrow> now < min l (at_hard_deadline a) \<Longrightarrow>
     l' = min (now + GUEST_ATTEMPT_LEASE_SECONDS) (at_hard_deadline a) \<Longrightarrow> l < l' \<Longrightarrow>
     a' = a\<lparr>at_lease_version := at_lease_version a + 1, at_lease_expires_at := Some l',
            at_updated_at := now\<rparr> \<Longrightarrow>
     attempt_written a a' \<Longrightarrow>
     view_step sid v (v\<lparr>sv_attempts := (sv_attempts v)(aid \<mapsto> a')\<rparr>)"
| result_stored:
    "sv_scan v = Some s \<Longrightarrow> gs_job_state s = J_RUNNING \<Longrightarrow> gs_current_attempt_id s = Some aid \<Longrightarrow>
     sv_attempts v aid = Some a \<Longrightarrow> at_state a = A_RUNNING \<Longrightarrow> at_fence a = gs_current_fence s \<Longrightarrow>
     at_lease_expires_at a = Some l \<Longrightarrow> now < min l (at_hard_deadline a) \<Longrightarrow>
     attempt_written a (finished a A_SUCCEEDED now) \<Longrightarrow>
     scan_written s (succeeded_scan s aid (at_fence a) digest now) \<Longrightarrow>
     res = \<lparr>rr_attempt_id = aid, rr_fence = at_fence a, rr_digest = digest,
       rr_completed_at = now, rr_projection = projection\<rparr> \<Longrightarrow>
     get_prop projection ''canonical_host'' = JStr (gs_canonical_target s) \<Longrightarrow>
     sv_result v = None \<Longrightarrow> sv_reservation v = Some r \<Longrightarrow> rv_released_at r = None \<Longrightarrow>
     reservation_checks (released r now RR_TERMINAL_RESULT) \<Longrightarrow>
     view_step sid v
       \<lparr>sv_scan = Some (succeeded_scan s aid (at_fence a) digest now),
        sv_attempts = (sv_attempts v)(aid \<mapsto> finished a A_SUCCEEDED now),
        sv_result = Some res, sv_reservation = Some (released r now RR_TERMINAL_RESULT)\<rparr>"
| queued_closed:
    "sv_scan v = Some s \<Longrightarrow> gs_job_state s = J_QUEUED \<Longrightarrow> j \<in> {J_CANCELLED, J_EXPIRED} \<Longrightarrow>
     scan_written s (closed_scan s j now) \<Longrightarrow> sv_reservation v = Some r \<Longrightarrow>
     rv_released_at r = None \<Longrightarrow> reservation_checks (released r now reason) \<Longrightarrow>
     view_step sid v
       (v\<lparr>sv_scan := Some (closed_scan s j now), sv_reservation := Some (released r now reason)\<rparr>)"
| running_closed:
    "sv_scan v = Some s \<Longrightarrow> gs_job_state s = J_RUNNING \<Longrightarrow>
     j \<in> {J_CANCELLED, J_EXPIRED, J_FAILED} \<Longrightarrow>
     (j = J_FAILED \<Longrightarrow> at_attempt_no a \<ge> GUEST_MAX_ATTEMPTS \<and>
        (\<exists>l. at_lease_expires_at a = Some l \<and> min l (at_hard_deadline a) \<le> now)) \<Longrightarrow>
     gs_current_attempt_id s = Some aid \<Longrightarrow> sv_attempts v aid = Some a \<Longrightarrow>
     st \<in> {A_TIMED_OUT, A_SUPERSEDED, A_CANCELLED} \<Longrightarrow> attempt_written a (finished a st now) \<Longrightarrow>
     scan_written s (closed_scan s j now) \<Longrightarrow> sv_reservation v = Some r \<Longrightarrow>
     rv_released_at r = None \<Longrightarrow> reservation_checks (released r now reason) \<Longrightarrow>
     view_step sid v
       (v\<lparr>sv_scan := Some (closed_scan s j now),
          sv_attempts := (sv_attempts v)(aid \<mapsto> finished a st now),
          sv_reservation := Some (released r now reason)\<rparr>)"
| scan_deleted:
    "sv_scan v = Some s \<Longrightarrow> view_step sid v no_scan"

subsection \<open>The invariant\<close>

definition attempt_inv :: "string \<Rightarrow> scan_row \<Rightarrow> string \<Rightarrow> attempt_row \<Rightarrow> bool" where
  "attempt_inv sid s aid a \<longleftrightarrow>
     id_pattern aid \<and> at_scan_id a = sid \<and> attempt_checks a \<and>
     at_attempt_no a = at_fence a \<and> at_fence a \<le> gs_current_fence s \<and>
     at_hard_deadline a \<le> gs_access_expires_at s \<and> gs_created_at s \<le> at_created_at a \<and>
     at_hard_deadline a \<le> at_created_at a + GUEST_ATTEMPT_HARD_DEADLINE_SECONDS \<and>
     (if gs_job_state s = J_RUNNING \<and> gs_current_attempt_id s = Some aid
      then at_state a \<in> {A_LEASED, A_RUNNING} else attempt_final (at_state a)) \<and>
     (at_state a = A_SUCCEEDED \<longleftrightarrow>
      gs_job_state s = J_SUCCEEDED \<and> gs_current_attempt_id s = Some aid)"

definition current_inv :: "scan_row \<Rightarrow> (string \<rightharpoonup> attempt_row) \<Rightarrow> bool" where
  "current_inv s atts \<longleftrightarrow>
     (case gs_current_attempt_id s of
        None \<Rightarrow> atts = Map.empty \<and> gs_current_fence s = 0
      | Some aid \<Rightarrow> (\<exists>a. atts aid = Some a \<and> at_fence a = gs_current_fence s)) \<and>
     (\<forall>i a j b. atts i = Some a \<longrightarrow> atts j = Some b \<longrightarrow> at_fence a = at_fence b \<longrightarrow> i = j) \<and>
     gs_current_fence s \<le> GUEST_MAX_ATTEMPTS"

definition result_inv :: "scan_row \<Rightarrow> (string \<rightharpoonup> attempt_row) \<Rightarrow> result_row option \<Rightarrow> bool" where
  "result_inv s atts res \<longleftrightarrow>
     (case res of
        None \<Rightarrow> gs_job_state s \<noteq> J_SUCCEEDED
      | Some r \<Rightarrow>
          gs_job_state s = J_SUCCEEDED \<and> gs_current_attempt_id s = Some (rr_attempt_id r) \<and>
          gs_accepted_attempt_id s = Some (rr_attempt_id r) \<and>
          gs_accepted_fence s = Some (rr_fence r) \<and> rr_fence r = gs_current_fence s \<and>
          gs_accepted_digest s = Some (rr_digest r) \<and>
          get_prop (rr_projection r) ''canonical_host'' = JStr (gs_canonical_target s) \<and>
          (\<exists>a. atts (rr_attempt_id r) = Some a \<and> at_fence a = rr_fence r \<and>
             at_finished_at a = Some (rr_completed_at r)))"

definition reservation_inv :: "scan_row \<Rightarrow> reservation_row option \<Rightarrow> bool" where
  "reservation_inv s rv \<longleftrightarrow>
     (\<exists>r. rv = Some r \<and> opened_reservation s r \<and> reservation_checks r \<and>
        (rv_released_at r \<noteq> None \<longleftrightarrow> job_final (gs_job_state s)))"

definition view_inv :: "string \<Rightarrow> scan_view \<Rightarrow> bool" where
  "view_inv sid v \<longleftrightarrow>
     (case sv_scan v of
        None \<Rightarrow> v = no_scan
      | Some s \<Rightarrow>
          id_pattern sid \<and> scan_checks s \<and>
          (\<forall>aid a. sv_attempts v aid = Some a \<longrightarrow> attempt_inv sid s aid a) \<and>
          current_inv s (sv_attempts v) \<and> result_inv s (sv_attempts v) (sv_result v) \<and>
          reservation_inv s (sv_reservation v))"

lemma no_scan_simps [simp]:
  "sv_scan no_scan = None" "sv_attempts no_scan = Map.empty" "sv_result no_scan = None"
  "sv_reservation no_scan = None"
  by (simp_all add: no_scan_def)

lemma view_inv_no_scan [simp]: "view_inv sid no_scan"
  by (simp add: view_inv_def)

lemma view_invD:
  assumes "view_inv sid v" "sv_scan v = Some s"
  shows "id_pattern sid" "scan_checks s"
    "sv_attempts v aid = Some a \<Longrightarrow> attempt_inv sid s aid a"
    "current_inv s (sv_attempts v)" "result_inv s (sv_attempts v) (sv_result v)"
    "reservation_inv s (sv_reservation v)"
  using assms by (auto simp: view_inv_def)

lemma view_invI:
  assumes "sv_scan v = Some s" "id_pattern sid" "scan_checks s"
    "\<And>aid a. sv_attempts v aid = Some a \<Longrightarrow> attempt_inv sid s aid a"
    "current_inv s (sv_attempts v)" "result_inv s (sv_attempts v) (sv_result v)"
    "reservation_inv s (sv_reservation v)"
  shows "view_inv sid v"
  using assms by (auto simp: view_inv_def)

lemmas row_writes =
  leased_scan_def closed_scan_def succeeded_scan_def finished_def released_def

subsection \<open>The steps keep the invariant\<close>

lemma scan_written_keeps:
  assumes "scan_written s s'"
  shows "scan_checks s'" "gs_created_at s' = gs_created_at s"
    "gs_access_expires_at s' = gs_access_expires_at s"
    "gs_deletion_deadline s' = gs_deletion_deadline s"
    "gs_session_scope s' = gs_session_scope s" "gs_idempotency_key s' = gs_idempotency_key s"
    "gs_canonical_target s' = gs_canonical_target s" "gs_updated_at s \<le> gs_updated_at s'"
  using assms by (auto simp: scan_written_def guard_scan_update_def same_scan_identity_def)

lemma attempt_written_keeps:
  assumes "attempt_written a a'"
  shows "attempt_checks a'" "at_scan_id a' = at_scan_id a" "at_attempt_no a' = at_attempt_no a"
    "at_fence a' = at_fence a" "at_created_at a' = at_created_at a"
    "at_hard_deadline a' = at_hard_deadline a"
  using assms by (auto simp: attempt_written_def guard_attempt_update_def)

text \<open>A written attempt keeps its invariant if its state fits the scan.\<close>

lemma attempt_inv_written:
  assumes "attempt_inv sid s aid a" "attempt_written a a'" "scan_written s s' \<or> s' = s"
    and "gs_current_fence s \<le> gs_current_fence s'"
    and "if gs_job_state s' = J_RUNNING \<and> gs_current_attempt_id s' = Some aid
      then at_state a' \<in> {A_LEASED, A_RUNNING} else attempt_final (at_state a')"
    and "at_state a' = A_SUCCEEDED \<longleftrightarrow>
      gs_job_state s' = J_SUCCEEDED \<and> gs_current_attempt_id s' = Some aid"
  shows "attempt_inv sid s' aid a'"
  using assms by (auto simp: attempt_inv_def attempt_written_keeps scan_written_keeps)

text \<open>The other attempts are final and stay as they are.\<close>

lemma attempt_inv_other:
  assumes "attempt_inv sid s aid a" "scan_written s s'"
    and "gs_current_fence s \<le> gs_current_fence s'"
    and "gs_job_state s \<in> {J_QUEUED, J_RUNNING}"
    and "gs_current_attempt_id s \<noteq> Some aid" "gs_current_attempt_id s' \<noteq> Some aid"
  shows "attempt_inv sid s' aid a"
  using assms by (auto simp: attempt_inv_def scan_written_keeps)

lemma leased_attempt_simps [simp]:
  "at_scan_id (leased_attempt sid s n now) = sid"
  "at_attempt_no (leased_attempt sid s n now) = n"
  "at_fence (leased_attempt sid s n now) = n"
  "at_state (leased_attempt sid s n now) = A_LEASED"
  "at_created_at (leased_attempt sid s n now) = now"
  "at_hard_deadline (leased_attempt sid s n now) =
     min (now + GUEST_ATTEMPT_HARD_DEADLINE_SECONDS) (gs_access_expires_at s)"
  by (simp_all add: leased_attempt_def Let_def)

lemma attempt_inv_leased:
  assumes "attempt_checks (leased_attempt sid s n now)" "id_pattern aid"
    and "scan_written s (leased_scan s aid n now)" "scan_checks s"
  shows "attempt_inv sid (leased_scan s aid n now) aid (leased_attempt sid s n now)"
proof -
  have "gs_created_at s \<le> now"
    using scan_written_keeps(8) [OF assms(3)] assms(4)
    by (simp add: leased_scan_def scan_checks_def scan_time_contract_def)
  with assms(1,2) show ?thesis by (simp add: attempt_inv_def leased_scan_def)
qed

lemma queued_view:
  assumes "view_inv sid v" "sv_scan v = Some s" "gs_job_state s = J_QUEUED"
  shows "gs_current_attempt_id s = None" "gs_current_fence s = 0" "sv_attempts v = Map.empty"
    "sv_result v = None"
  using view_invD [OF assms(1,2)] assms(3)
  by (auto simp: scan_checks_def scan_shape_def current_inv_def result_inv_def split: option.splits)

lemma running_view:
  assumes "view_inv sid v" "sv_scan v = Some s" "gs_job_state s = J_RUNNING"
  obtains aid a where "gs_current_attempt_id s = Some aid" "sv_attempts v aid = Some a"
    "at_fence a = gs_current_fence s" "at_state a \<in> {A_LEASED, A_RUNNING}" "sv_result v = None"
    "attempt_inv sid s aid a"
proof -
  note d = view_invD [OF assms(1,2)]
  obtain aid where aid: "gs_current_attempt_id s = Some aid"
    using d(2) assms(3) by (auto simp: scan_checks_def scan_shape_def)
  then obtain a where a: "sv_attempts v aid = Some a" "at_fence a = gs_current_fence s"
    using d(4) by (auto simp: current_inv_def)
  have "attempt_inv sid s aid a" by (rule d(3) [OF a(1)])
  moreover have "sv_result v = None"
    using d(5) assms(3) by (auto simp: result_inv_def split: option.splits)
  ultimately show ?thesis using that aid a assms(3) by (auto simp: attempt_inv_def)
qed

lemma reservation_inv_live:
  assumes "view_inv sid v" "sv_scan v = Some s" "gs_job_state s \<in> {J_QUEUED, J_RUNNING}"
  obtains r where "sv_reservation v = Some r" "rv_released_at r = None" "opened_reservation s r"
    "reservation_checks r"
  using view_invD(6) [OF assms(1,2)] assms(3) by (auto simp: reservation_inv_def job_final_def)

lemma reservation_inv_same:
  assumes "reservation_inv s rv" "scan_written s s'"
    and "job_final (gs_job_state s') \<longleftrightarrow> job_final (gs_job_state s)"
  shows "reservation_inv s' rv"
  using assms by (auto simp: reservation_inv_def opened_reservation_def scan_written_keeps)

lemma reservation_inv_released:
  assumes "opened_reservation s r" "scan_written s s'" "job_final (gs_job_state s')"
    and "reservation_checks (released r now reason)"
  shows "reservation_inv s' (Some (released r now reason))"
  using assms
  by (auto simp: reservation_inv_def opened_reservation_def scan_written_keeps released_def)

lemma view_inv_first_lease:
  assumes inv: "view_inv sid v" and s: "sv_scan v = Some s" "gs_job_state s = J_QUEUED"
    and w: "id_pattern aid" "attempt_checks (leased_attempt sid s 1 now)"
      "scan_written s (leased_scan s aid 1 now)"
  shows "view_inv sid (v\<lparr>sv_scan := Some (leased_scan s aid 1 now),
    sv_attempts := (sv_attempts v)(aid \<mapsto> leased_attempt sid s 1 now)\<rparr>)"
proof (rule view_invI [where s = "leased_scan s aid 1 now"], goal_cases)
  case 1 show ?case by simp
next
  case 2 show ?case by (rule view_invD(1) [OF inv s(1)])
next
  case 3 show ?case by (rule scan_written_keeps(1) [OF w(3)])
next
  case (4 i b)
  then show ?case
    using queued_view [OF inv s] attempt_inv_leased [OF w(2,1,3)] view_invD(2) [OF inv s(1)]
    by (auto split: if_splits)
next
  case 5 show ?case
    using queued_view [OF inv s]
    by (simp add: current_inv_def leased_scan_def GUEST_MAX_ATTEMPTS_def)
next
  case 6 show ?case using queued_view [OF inv s] by (simp add: result_inv_def leased_scan_def)
next
  case 7 show ?case
    using reservation_inv_same [OF view_invD(6) [OF inv s(1)] w(3)] s(2)
    by (simp add: job_final_def leased_scan_def)
qed

text \<open>A new attempt with a higher fence becomes the current one.\<close>

lemma current_inv_extend:
  assumes "current_inv s atts"
    and "\<And>i b. atts i = Some b \<Longrightarrow> at_fence b < gs_current_fence s'"
    and "\<And>i b. atts' i = Some b \<Longrightarrow> i \<noteq> aid \<Longrightarrow> \<exists>c. atts i = Some c \<and> at_fence c = at_fence b"
    and "gs_current_attempt_id s' = Some aid" "atts' aid = Some new"
    and "at_fence new = gs_current_fence s'" "gs_current_fence s' \<le> GUEST_MAX_ATTEMPTS"
  shows "current_inv s' atts'"
proof -
  have old: "i = aid \<and> at_fence b = gs_current_fence s' \<or>
    i \<noteq> aid \<and> at_fence b < gs_current_fence s' \<and> (\<exists>c. atts i = Some c \<and> at_fence c = at_fence b)"
    if "atts' i = Some b" for i b
    using assms(2,3) [of i] assms(5,6) that by (cases "i = aid") fastforce+
  have "i = j" if "atts' i = Some b" "atts' j = Some c" "at_fence b = at_fence c" for i j b c
    using old [OF that(1)] old [OF that(2)] that(3) assms(1)
    by (auto simp: current_inv_def)
  with assms(4-7) show ?thesis by (simp add: current_inv_def)
qed

lemma view_inv_next_lease:
  assumes inv: "view_inv sid v" and s: "sv_scan v = Some s" "gs_job_state s = J_RUNNING"
    and old: "gs_current_attempt_id s = Some old" "sv_attempts v old = Some a"
      "at_attempt_no a < GUEST_MAX_ATTEMPTS" "st \<in> {A_TIMED_OUT, A_SUPERSEDED}"
      "attempt_written a (finished a st now)" "aid \<noteq> old" "sv_attempts v aid = None"
    and w: "id_pattern aid" "attempt_checks (leased_attempt sid s (at_attempt_no a + 1) now)"
      "scan_written s (leased_scan s aid (at_attempt_no a + 1) now)"
  shows "view_inv sid (v\<lparr>sv_scan := Some (leased_scan s aid (at_attempt_no a + 1) now),
    sv_attempts := (sv_attempts v)(old \<mapsto> finished a st now,
      aid \<mapsto> leased_attempt sid s (at_attempt_no a + 1) now)\<rparr>)"
proof -
  define n where "n = at_attempt_no a + 1"
  define s' where "s' = leased_scan s aid n now"
  have s': "gs_job_state s' = J_RUNNING" "gs_current_attempt_id s' = Some aid"
    "gs_current_fence s' = n" by (simp_all add: s'_def leased_scan_def)
  have w': "scan_written s s'" using w(3) by (simp add: s'_def n_def)
  have a: "attempt_inv sid s old a" by (rule view_invD(3) [OF inv s(1) old(2)])
  have fence: "gs_current_fence s = at_fence a" "n = at_fence a + 1"
    using a view_invD(4) [OF inv s(1)] old(1,2)
    by (auto simp: current_inv_def attempt_inv_def n_def)
  have upper: "at_fence b \<le> at_fence a" if "sv_attempts v i = Some b" for i b
    using view_invD(3) [OF inv s(1) that] fence(1) by (simp add: attempt_inv_def)
  have "view_inv sid (v\<lparr>sv_scan := Some s',
    sv_attempts := (sv_attempts v)(old \<mapsto> finished a st now, aid \<mapsto> leased_attempt sid s n now)\<rparr>)"
  proof (rule view_invI [where s = s'], goal_cases)
    case 1 show ?case by simp
  next
    case 2 show ?case by (rule view_invD(1) [OF inv s(1)])
  next
    case 3 show ?case by (rule scan_written_keeps(1) [OF w'])
  next
    case (4 i b)
    consider (new) "i = aid" | (retired) "i = old" | (other) "i \<noteq> aid" "i \<noteq> old" by blast
    then show ?case
    proof cases
      case new
      with 4 attempt_inv_leased [OF w(2,1,3) view_invD(2) [OF inv s(1)]] show ?thesis
        by (simp add: s'_def n_def)
    next
      case retired
      with 4 old(6) have b: "b = finished a st now" by simp
      show ?thesis unfolding b retired
        by (rule attempt_inv_written [OF a old(5)])
          (use old(4,6) fence s' w' in \<open>auto simp: attempt_final_def finished_def\<close>)
    next
      case other
      with 4 have "sv_attempts v i = Some b" by simp
      from attempt_inv_other [OF view_invD(3) [OF inv s(1) this] w'] other old(1) s(2) fence s'
      show ?thesis by simp
    qed
  next
    case 5 show ?case
    proof (rule current_inv_extend [OF view_invD(4) [OF inv s(1)], where aid = aid], goal_cases)
      case (1 i b) then show ?case using upper [OF 1] fence s'(3) by simp
    next
      case (2 i b) then show ?case using old(2) by (auto simp: finished_def split: if_splits)
    qed (use s' fence old(3) in \<open>auto simp: n_def\<close>)
  next
    case 6
    have "sv_result v = None" by (rule running_view [OF inv s])
    then show ?case by (simp add: result_inv_def s')
  next
    case 7 show ?case
      using reservation_inv_same [OF view_invD(6) [OF inv s(1)] w'] s(2) s'
      by (simp add: job_final_def)
  qed
  then show ?thesis by (simp add: s'_def n_def)
qed

text \<open>A change of the current attempt alone.\<close>

lemma view_inv_attempt:
  assumes inv: "view_inv sid v" and s: "sv_scan v = Some s" "gs_job_state s = J_RUNNING"
    and a: "gs_current_attempt_id s = Some aid" "sv_attempts v aid = Some a"
    and w: "attempt_written a a'" "at_state a' \<in> {A_LEASED, A_RUNNING}"
  shows "view_inv sid (v\<lparr>sv_attempts := (sv_attempts v)(aid \<mapsto> a')\<rparr>)"
proof (rule view_invI [where s = s], goal_cases)
  case 1 show ?case using s(1) by simp
next
  case 2 show ?case by (rule view_invD(1) [OF inv s(1)])
next
  case 3 show ?case by (rule view_invD(2) [OF inv s(1)])
next
  case (4 i b)
  have "attempt_inv sid s aid a'"
    by (rule attempt_inv_written [OF view_invD(3) [OF inv s(1) a(2)] w(1)])
      (use a(1) s(2) w(2) in auto)
  with 4 view_invD(3) [OF inv s(1)] show ?case by (auto split: if_splits)
next
  case 5 show ?case
    using view_invD(4) [OF inv s(1)] a attempt_written_keeps(4) [OF w(1)]
    by (auto simp: current_inv_def split: if_splits)
next
  case 6
  have "sv_result v = None" by (rule running_view [OF inv s])
  then show ?case using s(2) by (simp add: result_inv_def)
next
  case 7 show ?case using view_invD(6) [OF inv s(1)] by simp
qed

lemma current_inv_update:
  assumes "current_inv s atts" "gs_current_attempt_id s' = gs_current_attempt_id s"
    and "gs_current_fence s' = gs_current_fence s"
    and "atts aid = Some a" "at_fence a' = at_fence a"
  shows "current_inv s' (atts(aid \<mapsto> a'))"
  using assms by (auto simp: current_inv_def split: option.splits if_splits)

lemma view_inv_queued_closed:
  assumes inv: "view_inv sid v" and s: "sv_scan v = Some s" "gs_job_state s = J_QUEUED"
    and w: "j \<in> {J_CANCELLED, J_EXPIRED}" "scan_written s (closed_scan s j now)"
      "sv_reservation v = Some r" "reservation_checks (released r now reason)"
  shows "view_inv sid (v\<lparr>sv_scan := Some (closed_scan s j now),
    sv_reservation := Some (released r now reason)\<rparr>)"
proof (rule view_invI [where s = "closed_scan s j now"], goal_cases)
  case 2 show ?case by (rule view_invD(1) [OF inv s(1)])
next
  case 3 show ?case by (rule scan_written_keeps(1) [OF w(2)])
next
  case 7
  have "opened_reservation s r"
    using view_invD(6) [OF inv s(1)] w(3) by (simp add: reservation_inv_def)
  from reservation_inv_released [OF this w(2) _ w(4)] w(1) show ?case
    by (auto simp: closed_scan_def job_final_def)
qed (use queued_view [OF inv s] w(1) in
  \<open>auto simp: current_inv_def result_inv_def closed_scan_def GUEST_MAX_ATTEMPTS_def\<close>)

lemma view_inv_running_closed:
  assumes inv: "view_inv sid v" and s: "sv_scan v = Some s" "gs_job_state s = J_RUNNING"
    and a: "gs_current_attempt_id s = Some aid" "sv_attempts v aid = Some a"
    and w: "j \<in> {J_CANCELLED, J_EXPIRED, J_FAILED}"
      "st \<in> {A_TIMED_OUT, A_SUPERSEDED, A_CANCELLED}" "attempt_written a (finished a st now)"
      "scan_written s (closed_scan s j now)"
      "sv_reservation v = Some r" "reservation_checks (released r now reason)"
  shows "view_inv sid (v\<lparr>sv_scan := Some (closed_scan s j now),
    sv_attempts := (sv_attempts v)(aid \<mapsto> finished a st now),
    sv_reservation := Some (released r now reason)\<rparr>)"
proof (rule view_invI [where s = "closed_scan s j now"], goal_cases)
  case 1 show ?case by simp
next
  case 2 show ?case by (rule view_invD(1) [OF inv s(1)])
next
  case 3 show ?case by (rule scan_written_keeps(1) [OF w(4)])
next
  case (4 i b)
  show ?case
  proof (cases "i = aid")
    case True
    with 4 have b: "b = finished a st now" by simp
    show ?thesis unfolding b True
      by (rule attempt_inv_written [OF view_invD(3) [OF inv s(1) a(2)] w(3)])
        (use w(1,2,4) in \<open>auto simp: attempt_final_def row_writes\<close>)
  next
    case False
    with 4 have b: "sv_attempts v i = Some b" by simp
    show ?thesis
      by (rule attempt_inv_other [OF view_invD(3) [OF inv s(1) b] w(4)])
        (use s(2) a(1) False in \<open>auto simp: closed_scan_def\<close>)
  qed
next
  case 5 show ?case
    using current_inv_update [OF view_invD(4) [OF inv s(1)] _ _ a(2),
        of "closed_scan s j now" "finished a st now"]
    by (simp add: row_writes)
next
  case 6
  have "sv_result v = None" by (rule running_view [OF inv s])
  then show ?case using w(1) by (auto simp: result_inv_def closed_scan_def)
next
  case 7
  have "opened_reservation s r"
    using view_invD(6) [OF inv s(1)] w(5) by (simp add: reservation_inv_def)
  from reservation_inv_released [OF this w(4) _ w(6)] w(1) show ?case
    by (auto simp: closed_scan_def job_final_def)
qed

lemma view_inv_result_stored:
  fixes s digest now
  defines "s' \<equiv> \<lambda>aid a. succeeded_scan s aid (at_fence a) digest now"
  assumes inv: "view_inv sid v" and s: "sv_scan v = Some s" "gs_job_state s = J_RUNNING"
    and a: "gs_current_attempt_id s = Some aid" "sv_attempts v aid = Some a"
      "at_fence a = gs_current_fence s"
    and w: "attempt_written a (finished a A_SUCCEEDED now)" "scan_written s (s' aid a)"
      "res = \<lparr>rr_attempt_id = aid, rr_fence = at_fence a, rr_digest = digest,
        rr_completed_at = now, rr_projection = projection\<rparr>"
      "get_prop projection ''canonical_host'' = JStr (gs_canonical_target s)"
      "sv_reservation v = Some r" "reservation_checks (released r now RR_TERMINAL_RESULT)"
  shows "view_inv sid \<lparr>sv_scan = Some (s' aid a),
    sv_attempts = (sv_attempts v)(aid \<mapsto> finished a A_SUCCEEDED now),
    sv_result = Some res, sv_reservation = Some (released r now RR_TERMINAL_RESULT)\<rparr>"
proof (rule view_invI [where s = "s' aid a"], goal_cases)
  case 1 show ?case by simp
next
  case 2 show ?case by (rule view_invD(1) [OF inv s(1)])
next
  case 3 show ?case by (rule scan_written_keeps(1) [OF w(2)])
next
  case (4 i b)
  show ?case
  proof (cases "i = aid")
    case True
    with 4 have b: "b = finished a A_SUCCEEDED now" by simp
    show ?thesis unfolding b True
      by (rule attempt_inv_written [OF view_invD(3) [OF inv s(1) a(2)] w(1)])
        (use w(2) a(1) in \<open>auto simp: attempt_final_def row_writes s'_def\<close>)
  next
    case False
    with 4 have b: "sv_attempts v i = Some b" by simp
    show ?thesis
      by (rule attempt_inv_other [OF view_invD(3) [OF inv s(1) b] w(2)])
        (use s(2) a(1) False in \<open>auto simp: succeeded_scan_def s'_def\<close>)
  qed
next
  case 5 show ?case
    using current_inv_update [OF view_invD(4) [OF inv s(1)] _ _ a(2),
        of "s' aid a" "finished a A_SUCCEEDED now"]
    by (simp add: row_writes s'_def)
next
  case 6 show ?case using w(3,4) a(1,3) by (simp add: result_inv_def row_writes s'_def)
next
  case 7
  have "opened_reservation s r"
    using view_invD(6) [OF inv s(1)] w(5) by (simp add: reservation_inv_def)
  from reservation_inv_released [OF this w(2) _ w(6)] show ?case
    by (auto simp: succeeded_scan_def job_final_def s'_def)
qed

lemma view_inv_created:
  assumes "id_pattern sid" "scan_checks s" "guard_scan_insert s" "opened_reservation s r"
    and "reservation_checks r" "rv_released_at r = None"
  shows "view_inv sid \<lparr>sv_scan = Some s, sv_attempts = Map.empty, sv_result = None,
    sv_reservation = Some r\<rparr>"
  using assms
  by (simp add: view_inv_def current_inv_def result_inv_def reservation_inv_def
      guard_scan_insert_def GUEST_MAX_ATTEMPTS_def job_final_def)

lemma view_step_inv:
  assumes "view_step sid v v'" "view_inv sid v"
  shows "view_inv sid v'"
  using assms(1)
proof cases
  case (scan_created s r)
  then show ?thesis using view_inv_created by blast
next
  case (first_lease s now aid)
  then show ?thesis using view_inv_first_lease [OF assms(2)] by blast
next
  case (next_lease s now old a l st aid)
  then show ?thesis using view_inv_next_lease [OF assms(2)] by blast
next
  case (started s aid a l now a')
  then show ?thesis using view_inv_attempt [OF assms(2), of s aid a a'] by simp
next
  case (renewed s aid a l now l' a')
  then show ?thesis using view_inv_attempt [OF assms(2), of s aid a a'] by simp
next
  case (result_stored s aid a l now digest res projection r)
  then show ?thesis
    using view_inv_result_stored [OF assms(2), of s aid a now digest res projection r] by simp
next
  case (queued_closed s j now r reason)
  then show ?thesis using view_inv_queued_closed [OF assms(2)] by blast
next
  case (running_closed s j a now aid st r reason)
  then show ?thesis using view_inv_running_closed [OF assms(2)] by blast
next
  case (scan_deleted s)
  then show ?thesis by simp
qed

text \<open>How a step moves the job: by the transition table, or not at all.\<close>

lemma view_step_job:
  assumes "view_step sid v v'" "view_inv sid v" "sv_scan v = Some s" "sv_scan v' = Some s'"
  shows "(gs_job_state s' = gs_job_state s \<or>
      (\<exists>e. transition_job (gs_job_state s) e = Some (gs_job_state s'))) \<and>
    gs_current_fence s \<le> gs_current_fence s' \<and> same_scan_identity s' s"
proof -
  have "scan_written s s' \<or> s' = s"
    using assms(1,3,4) by (cases rule: view_step.cases) auto
  moreover have "0 \<le> gs_current_fence s'" "gs_current_attempt_id s = None \<longrightarrow> gs_current_fence s = 0"
    using calculation view_invD(2,4) [OF assms(2,3)]
    by (auto simp: scan_written_def scan_checks_def scan_columns_def current_inv_def)
  ultimately show ?thesis
    by (auto simp: scan_written_def guard_scan_update_def same_scan_identity_def
        sql_job_agrees)
qed

end
