(* ===== verification/Guest_Quota.thy ===== *)
theory Guest_Quota
  imports Guest_Protocol
begin

section \<open>Quotas: counters count what they claim to count\<close>

text \<open>
  The invariant of the abuse tables.  \<open>quota_ok\<close>: for every session and every
  network digest the active counter is the number of reservations that are not
  released, and it is within its limit; every window counter is within its
  limit.  The lemmas say what reserving, releasing and deleting do to it.
\<close>

definition active_count ::
  "(active_dimension \<times> bytes, active_row) table \<Rightarrow> active_dimension \<times> bytes \<Rightarrow> int" where
  "active_count t k = (case map_of t k of None \<Rightarrow> 0 | Some r \<Rightarrow> ac_count r)"

definition reservation_key :: "active_dimension \<Rightarrow> reservation_row \<Rightarrow> bytes" where
  "reservation_key d r =
     (case d of SESSION_ACTIVE \<Rightarrow> rv_session_scope r | NETWORK_ACTIVE \<Rightarrow> rv_network_digest r)"

definition live_count ::
  "(string, reservation_row) table \<Rightarrow> active_dimension \<times> bytes \<Rightarrow> int" where
  "live_count t k =
     count_rows (\<lambda>_ r. rv_released_at r = None \<and> reservation_key (fst k) r = snd k) t"

definition active_limit :: "active_dimension \<Rightarrow> int" where
  "active_limit d =
     (case d of SESSION_ACTIVE \<Rightarrow> SESSION_CONCURRENCY_LIMIT
      | NETWORK_ACTIVE \<Rightarrow> NETWORK_CONCURRENCY_LIMIT)"

definition window_limit :: "window_dimension \<Rightarrow> int" where
  "window_limit d =
     (case d of SESSION_BURST \<Rightarrow> SESSION_BURST_LIMIT | SESSION_DAILY \<Rightarrow> SESSION_DAILY_LIMIT
      | NETWORK_BURST \<Rightarrow> NETWORK_BURST_LIMIT | NETWORK_DAILY \<Rightarrow> NETWORK_DAILY_LIMIT)"

definition active_ok :: "guest_db \<Rightarrow> bool" where
  "active_ok db \<longleftrightarrow>
     (\<forall>k. active_count (db_active db) k = live_count (db_reservations db) k \<and>
        live_count (db_reservations db) k \<le> active_limit (fst k))"

definition windows_ok :: "guest_db \<Rightarrow> bool" where
  "windows_ok db \<longleftrightarrow>
     (\<forall>k w. map_of (db_windows db) k = Some w \<longrightarrow>
        window_checks k w \<and> wr_usage_count w \<le> window_limit (fst k))"

lemma active_okD:
  assumes "active_ok db"
  shows "active_count (db_active db) k = live_count (db_reservations db) k"
    "live_count (db_reservations db) k \<le> active_limit (fst k)"
  using assms by (cases k; auto simp: active_ok_def)+

lemma active_okI:
  assumes "\<And>k. active_count (db_active db) k = live_count (db_reservations db) k"
    and "\<And>k. live_count (db_reservations db) k \<le> active_limit (fst k)"
  shows "active_ok db"
  unfolding active_ok_def using assms by blast

text \<open>The view lemmas in the form the counter operations need them.\<close>

definition views_same :: "guest_db \<Rightarrow> guest_db \<Rightarrow> bool" where
  "views_same db db' \<longleftrightarrow>
     (\<forall>k. view k db' = view k db) \<and> db_reservations db' = db_reservations db \<and>
     db_service_state db' = db_service_state db"

lemma views_same_refl: "views_same db db"
  by (simp add: views_same_def)

lemma views_same_trans: "views_same a b \<Longrightarrow> views_same b c \<Longrightarrow> views_same a c"
  by (simp add: views_same_def)

subsection \<open>Decrementing\<close>

lemma decrement_and_remove_True:
  assumes "decrement_and_remove now spec db = (True, db')" "tables_distinct db"
  defines "key \<equiv> (as_dimension spec, as_digest spec)"
  shows "views_same db db'" "tables_distinct db'" "db_windows db' = db_windows db"
    "active_count (db_active db') k = active_count (db_active db) k - of_bool (k = key)"
    "0 < active_count (db_active db) key"
  using assms
  by (auto simp: decrement_and_remove_def Let_def views_same_def tables_distinct_def view_def
      active_count_def get_delete split: option.splits if_splits)

lemma decrement_and_remove_enough:
  assumes "0 < active_count (db_active db) (as_dimension spec, as_digest spec)"
  shows "\<exists>db'. decrement_and_remove now spec db = (True, db')"
  using assms
  by (auto simp: decrement_and_remove_def Let_def active_count_def split: option.splits)

lemma active_specs_keys:
  "active_specs s n =
     [\<lparr>as_dimension = NETWORK_ACTIVE, as_digest = n\<rparr>, \<lparr>as_dimension = SESSION_ACTIVE, as_digest = s\<rparr>]"
  by (simp add: active_specs_def)

lemma decrement_specs_True:
  assumes "decrement_each now (active_specs s n) db = (True, db')" "tables_distinct db"
  shows "views_same db db'" "tables_distinct db'" "db_windows db' = db_windows db"
    "active_count (db_active db') k = active_count (db_active db) k
       - of_bool (k = (NETWORK_ACTIVE, n)) - of_bool (k = (SESSION_ACTIVE, s))"
proof -
  from assms(1) obtain db1 where
    1: "decrement_and_remove now \<lparr>as_dimension = NETWORK_ACTIVE, as_digest = n\<rparr> db = (True, db1)"
    and 2: "decrement_and_remove now \<lparr>as_dimension = SESSION_ACTIVE, as_digest = s\<rparr> db1 = (True, db')"
    by (auto simp: active_specs_keys split: prod.splits bool.splits)
  note d1 = decrement_and_remove_True [OF 1 assms(2)]
  note d2 = decrement_and_remove_True [OF 2 d1(2)]
  show "views_same db db'" by (rule views_same_trans [OF d1(1) d2(1)])
  show "tables_distinct db'" by (rule d2(2))
  show "db_windows db' = db_windows db" using d1(3) d2(3) by simp
  show "active_count (db_active db') k = active_count (db_active db) k
       - of_bool (k = (NETWORK_ACTIVE, n)) - of_bool (k = (SESSION_ACTIVE, s))"
    using d1(4) d2(4) by simp
qed

lemma decrement_specs_enough:
  assumes "0 < active_count (db_active db) (NETWORK_ACTIVE, n)"
    and "0 < active_count (db_active db) (SESSION_ACTIVE, s)" "tables_distinct db"
  shows "\<exists>db'. decrement_each now (active_specs s n) db = (True, db')"
proof -
  obtain db1 where
    1: "decrement_and_remove now \<lparr>as_dimension = NETWORK_ACTIVE, as_digest = n\<rparr> db = (True, db1)"
    using decrement_and_remove_enough [of db "\<lparr>as_dimension = NETWORK_ACTIVE, as_digest = n\<rparr>"]
      assms(1) by auto
  have "0 < active_count (db_active db1) (SESSION_ACTIVE, s)"
    using decrement_and_remove_True(4) [OF 1 assms(3)] assms(2) by simp
  then obtain db2 where
    "decrement_and_remove now \<lparr>as_dimension = SESSION_ACTIVE, as_digest = s\<rparr> db1 = (True, db2)"
    using decrement_and_remove_enough [of db1 "\<lparr>as_dimension = SESSION_ACTIVE, as_digest = s\<rparr>"]
    by auto
  with 1 show ?thesis by (simp add: active_specs_keys)
qed

subsection \<open>Releasing\<close>

lemma live_count_put:
  assumes "map_of t sid = Some r" "keys_distinct t" "rv_released_at r = None"
    and "rv_released_at r' \<noteq> None"
  shows "live_count (put sid r' t) k = live_count t k - of_bool (reservation_key (fst k) r = snd k)"
  using assms by (simp add: live_count_def count_put)

lemma reservation_key_of:
  "of_bool (reservation_key (fst k) r = snd k) =
     (of_bool (k = (NETWORK_ACTIVE, rv_network_digest r)) :: int)
     + of_bool (k = (SESSION_ACTIVE, rv_session_scope r))"
  by (cases k; cases "fst k") (auto simp: reservation_key_def)

lemma view_put_reservation:
  "view k (db\<lparr>db_reservations := put sid r (db_reservations db)\<rparr>) =
     (if k = sid then (view k db)\<lparr>sv_reservation := Some r\<rparr> else view k db)"
  by (simp add: view_def)

text \<open>A successful release of a live reservation.\<close>

lemma release_live:
  assumes rel: "release_or_throw sid now reason db = Some db'"
    and r: "sv_reservation (view sid db) = Some r" "rv_released_at r = None"
    and ok: "tables_distinct db" "active_ok db"
  shows "view sid db' = (view sid db)\<lparr>sv_reservation := Some (released r now reason)\<rparr>"
    "\<forall>k. k \<noteq> sid \<longrightarrow> view k db' = view k db" "reservation_checks (released r now reason)"
    "tables_distinct db'" "active_ok db'" "db_windows db' = db_windows db"
proof -
  have r': "map_of (db_reservations db) sid = Some r" using r(1) by (simp add: view_reservation)
  from rel obtain db1 where dec:
      "decrement_each now (active_specs (rv_session_scope r) (rv_network_digest r)) db = (True, db1)"
    and checks: "reservation_checks (released r now reason)"
    and db': "db' = db1\<lparr>db_reservations := put sid (released r now reason) (db_reservations db1)\<rparr>"
    unfolding release_or_throw_def release_guest_abuse_reservation_def r' released_def
    using r(2)
    by (auto simp: Let_def split: option.splits bool.splits prod.splits if_splits)
  note d = decrement_specs_True [OF dec ok(1)]
  have same: "db_reservations db1 = db_reservations db" "\<And>k. view k db1 = view k db"
    using d(1) by (simp_all add: views_same_def)
  show "reservation_checks (released r now reason)" by (rule checks)
  show "view sid db' = (view sid db)\<lparr>sv_reservation := Some (released r now reason)\<rparr>"
    "\<forall>k. k \<noteq> sid \<longrightarrow> view k db' = view k db"
    by (simp_all add: db' view_put_reservation same(2))
  show "tables_distinct db'" using d(2) by (simp add: db' tables_distinct_def)
  show "db_windows db' = db_windows db" using d(3) by (simp add: db')
  have live: "live_count (db_reservations db') k =
      live_count (db_reservations db) k - of_bool (reservation_key (fst k) r = snd k)" for k
    using live_count_put [OF r' _ r(2)] ok(1)
    by (simp add: db' same(1) tables_distinct_def released_def)
  have active: "active_count (db_active db') k = active_count (db_active db) k
      - of_bool (reservation_key (fst k) r = snd k)" for k
    using d(4) [of k] by (simp add: db' reservation_key_of)
  show "active_ok db'"
  proof (rule active_okI)
    fix k
    note ok' = active_okD [OF ok(2), of k]
    then show "active_count (db_active db') k = live_count (db_reservations db') k"
      "live_count (db_reservations db') k \<le> active_limit (fst k)"
      by (simp_all add: live active)
  qed
qed

text \<open>The counters of a live reservation are never missing, so a timely release succeeds.\<close>

lemma release_possible:
  assumes r: "sv_reservation (view sid db) = Some r" "rv_released_at r = None"
    and ok: "tables_distinct db" "active_ok db" "reservation_checks r"
    and now: "0 \<le> rv_reserved_at r" "rv_reserved_at r \<le> now" "now \<le> rv_deletion_deadline r"
  shows "\<exists>db'. release_or_throw sid now reason db = Some db'"
proof -
  have r': "map_of (db_reservations db) sid = Some r" using r(1) by (simp add: view_reservation)
  have pos: "0 < active_count (db_active db) (d, reservation_key d r)" for d
  proof -
    have "1 \<le> live_count (db_reservations db) (d, reservation_key d r)"
      unfolding live_count_def by (rule count_pos [OF r']) (simp add: r(2))
    then show ?thesis using active_okD(1) [OF ok(2)] by simp
  qed
  obtain db1 where
    "decrement_each now (active_specs (rv_session_scope r) (rv_network_digest r)) db = (True, db1)"
    using decrement_specs_enough [OF _ _ ok(1), of "rv_network_digest r" "rv_session_scope r" now]
      pos [of NETWORK_ACTIVE] pos [of SESSION_ACTIVE]
    by (auto simp: reservation_key_def)
  then show ?thesis
    using now ok(3) r(2)
    by (auto simp: release_or_throw_def release_guest_abuse_reservation_def r' Let_def
        reservation_checks_def opt_all_def)
qed

lemma release_again:
  assumes "sv_reservation (view sid db) = Some r" "rv_released_at r \<noteq> None"
  shows "release_or_throw sid now reason db = Some db"
  using assms
  by (simp add: release_or_throw_def release_guest_abuse_reservation_def view_reservation)

end
