(* ===== verification/Guest_Reserve.thy ===== *)
theory Guest_Reserve
  imports Guest_Quota
begin

section \<open>Reserving keeps the quotas\<close>

text \<open>
  \<open>reserve_guest_abuse_counters\<close> inserts missing counter rows, adds up the rows
  of the session and of up to three network digests, asks the admission decision
  and, when it allows the scan, increments the rows of the first digest.  The
  sum is at least the row that is incremented, so an admitted scan stays within
  every limit.
\<close>

lemma map_of_windows_cong: "db_windows db' = db_windows db \<Longrightarrow> windows_ok db' = windows_ok db"
  by (simp add: windows_ok_def)

subsection \<open>Inserting missing rows\<close>

definition current_window :: "int \<Rightarrow> guest_db \<Rightarrow> window_dimension \<times> bytes \<Rightarrow> bool" where
  "current_window now db k \<longleftrightarrow> (\<exists>w. map_of (db_windows db) k = Some w \<and> now < wr_reset_at w)"

lemma window_limit_nonneg: "0 \<le> window_limit d"
  by (cases d) (simp_all add: window_limit_def SESSION_BURST_LIMIT_def SESSION_DAILY_LIMIT_def
      NETWORK_BURST_LIMIT_def NETWORK_DAILY_LIMIT_def)

lemma insert_window_cases:
  assumes "insert_window spec now db = Some db'"
  defines "key \<equiv> (ws_dimension spec, ws_digest spec)"
  obtains (kept) w where "db' = db" "map_of (db_windows db) key = Some w" "now < wr_reset_at w"
  | (fresh) w where "db' = db\<lparr>db_windows := put key w (db_windows db)\<rparr>" "window_checks key w"
      "wr_usage_count w = 0" "now < wr_reset_at w"
      "w = \<lparr>wr_usage_count = 0, wr_reset_at = now + ws_window_seconds spec, wr_updated_at = now\<rparr>"
proof -
  let ?w = "\<lparr>wr_usage_count = 0, wr_reset_at = now + ws_window_seconds spec, wr_updated_at = now\<rparr>"
  have checks: "window_checks key ?w"
    using assms by (simp add: insert_window_def Let_def split: if_splits)
  then have now: "now < wr_reset_at ?w" by (simp add: window_checks_def)
  have "db' = db\<lparr>db_windows := put key ?w (db_windows db)\<rparr> \<or>
    db' = db \<and> (\<exists>w. map_of (db_windows db) key = Some w \<and> now < wr_reset_at w)"
    using assms by (auto simp: insert_window_def Let_def split: option.splits if_splits)
  then show ?thesis using kept fresh [OF _ checks _ now] by fastforce
qed

lemma put_window_effect:
  assumes "tables_distinct db" "windows_ok db" "window_checks key w"
    and "wr_usage_count w \<le> window_limit (fst key)"
  defines "db' \<equiv> db\<lparr>db_windows := put key w (db_windows db)\<rparr>"
  shows "views_same db db'" "tables_distinct db'" "windows_ok db'" "db_active db' = db_active db"
  using assms(1-4)
  by (auto simp: db'_def views_same_def tables_distinct_def view_def windows_ok_def)

lemma insert_window_effect:
  assumes "insert_window spec now db = Some db'" "tables_distinct db" "windows_ok db"
  shows "views_same db db'" "tables_distinct db'" "windows_ok db'" "db_active db' = db_active db"
    "current_window now db k \<Longrightarrow> current_window now db' k"
    "current_window now db' (ws_dimension spec, ws_digest spec)"
proof -
  have "views_same db db' \<and> tables_distinct db' \<and> windows_ok db' \<and> db_active db' = db_active db \<and>
    (current_window now db k \<longrightarrow> current_window now db' k) \<and>
    current_window now db' (ws_dimension spec, ws_digest spec)"
    using assms(1)
  proof (cases rule: insert_window_cases)
    case (kept w)
    then show ?thesis using assms(2,3) by (simp add: views_same_refl current_window_def)
  next
    case (fresh w)
    have "wr_usage_count w \<le> window_limit (fst (ws_dimension spec, ws_digest spec))"
      using fresh(3) by (simp add: window_limit_nonneg)
    from put_window_effect [OF assms(2,3) fresh(2) this] fresh(1,4) show ?thesis
      by (simp add: current_window_def)
  qed
  then show "views_same db db'" "tables_distinct db'" "windows_ok db'"
    "db_active db' = db_active db" "current_window now db k \<Longrightarrow> current_window now db' k"
    "current_window now db' (ws_dimension spec, ws_digest spec)" by simp_all
qed

lemma insert_active_effect:
  assumes "insert_active spec now db = Some db'" "tables_distinct db"
  shows "views_same db db'" "tables_distinct db'" "db_windows db' = db_windows db"
    "active_count (db_active db') k = active_count (db_active db) k"
  using assms
  by (auto simp: insert_active_def Let_def views_same_def tables_distinct_def view_def
      active_count_def split: option.splits if_splits)

lemma insert_windows_effect:
  assumes "run_each (\<lambda>s. insert_window s now) specs db = Some db'" "tables_distinct db"
    and "windows_ok db"
  shows "views_same db db'" "tables_distinct db'" "windows_ok db'" "db_active db' = db_active db"
    "current_window now db k \<Longrightarrow> current_window now db' k"
    "\<forall>s \<in> set specs. current_window now db' (ws_dimension s, ws_digest s)"
proof -
  have "views_same db db' \<and> tables_distinct db' \<and> windows_ok db' \<and> db_active db' = db_active db \<and>
    (\<forall>k. current_window now db k \<longrightarrow> current_window now db' k) \<and>
    (\<forall>s \<in> set specs. current_window now db' (ws_dimension s, ws_digest s))"
    using assms
  proof (induction specs arbitrary: db)
    case Nil
    then show ?case by (simp add: views_same_refl)
  next
    case (Cons s specs)
    from Cons.prems(1) obtain db1 where 1: "insert_window s now db = Some db1"
      and 2: "run_each (\<lambda>s. insert_window s now) specs db1 = Some db'"
      by (auto simp: Option.bind_eq_Some_conv)
    note e = insert_window_effect [OF 1 Cons.prems(2,3)]
    note ih = Cons.IH [OF 2 e(2,3)]
    show ?case
      using ih e views_same_trans [OF e(1)] by simp
  qed
  then show "views_same db db'" "tables_distinct db'" "windows_ok db'"
    "db_active db' = db_active db"
    "current_window now db k \<Longrightarrow> current_window now db' k"
    "\<forall>s \<in> set specs. current_window now db' (ws_dimension s, ws_digest s)"
    by blast+
qed

lemma insert_actives_effect:
  assumes "run_each (\<lambda>s. insert_active s now) specs db = Some db'" "tables_distinct db"
  shows "views_same db db'" "tables_distinct db'" "db_windows db' = db_windows db"
    "active_count (db_active db') k = active_count (db_active db) k"
proof -
  have "views_same db db' \<and> tables_distinct db' \<and> db_windows db' = db_windows db \<and>
    (\<forall>k. active_count (db_active db') k = active_count (db_active db) k)"
    using assms
  proof (induction specs arbitrary: db)
    case Nil
    then show ?case by (simp add: views_same_refl)
  next
    case (Cons s specs)
    from Cons.prems(1) obtain db1 where 1: "insert_active s now db = Some db1"
      and 2: "run_each (\<lambda>s. insert_active s now) specs db1 = Some db'"
      by (auto simp: Option.bind_eq_Some_conv)
    note e = insert_active_effect [OF 1 Cons.prems(2)]
    show ?case
      using Cons.IH [OF 2 e(2)] e views_same_trans [OF e(1)] by simp
  qed
  then show "views_same db db'" "tables_distinct db'" "db_windows db' = db_windows db"
    "active_count (db_active db') k = active_count (db_active db) k" by blast+
qed

subsection \<open>Sums are at least each of their rows\<close>

definition base_count :: "int option \<Rightarrow> int" where
  "base_count n = (case n of None \<Rightarrow> 0 | Some n \<Rightarrow> n)"

lemma load_active_rows_grows:
  assumes "load_active_rows agg rows = Some agg'"
  shows "base_count (agg d) \<le> base_count (agg' d)"
  using assms
  by (induction agg rows rule: load_active_rows.induct)
    (auto simp: base_count_def split: if_splits option.splits)

lemma load_active_rows_member:
  assumes "load_active_rows agg rows = Some agg'" "((d, g), r) \<in> set rows"
    and "0 \<le> base_count (agg d)"
  shows "ac_count r \<le> base_count (agg' d)"
  using assms
proof (induction agg rows rule: load_active_rows.induct)
  case (2 agg d' g' r' rows)
  let ?agg = "agg(d' \<mapsto> (case agg d' of None \<Rightarrow> 0 | Some n \<Rightarrow> n) + ac_count r')"
  have load: "load_active_rows ?agg rows = Some agg'" and r': "0 \<le> ac_count r'"
    and guard: "\<not> (ac_count r' < 0 \<or> ac_count r' > MAX_COUNTER_VALUE \<or> length g' \<noteq> 32)"
    using "2.prems"(1) by (auto split: if_splits)
  show ?case
  proof (cases "((d, g), r) = ((d', g'), r')")
    case True
    then have "ac_count r \<le> base_count (?agg d)"
      using "2.prems"(3) by (auto simp: base_count_def)
    then show ?thesis using load_active_rows_grows [OF load, of d] by linarith
  next
    case False
    then have "((d, g), r) \<in> set rows" using "2.prems"(2) by auto
    moreover have "0 \<le> base_count (?agg d)"
      using "2.prems"(3) r' by (auto simp: base_count_def)
    ultimately show ?thesis using "2.IH" [OF guard load] by blast
  qed
qed simp

definition window_count :: "window_usage option \<Rightarrow> int" where
  "window_count u = (case u of None \<Rightarrow> 0 | Some u \<Rightarrow> wu_count u)"

lemma load_window_rows_grows:
  assumes "load_window_rows now agg rows = Some agg'"
  shows "window_count (agg d) \<le> window_count (agg' d)"
  using assms
  by (induction now agg rows rule: load_window_rows.induct)
    (fastforce simp: window_count_def split: if_splits option.splits)+

lemma load_window_rows_member:
  assumes "load_window_rows now agg rows = Some agg'" "((d, g), w) \<in> set rows"
    and "0 \<le> window_count (agg d)" "now < wr_reset_at w"
  shows "wr_usage_count w \<le> window_count (agg' d)"
  using assms
proof (induction now agg rows rule: load_window_rows.induct)
  case (2 now agg d' g' w' rows)
  let ?agg = "agg(d' \<mapsto> (case agg d' of
           None \<Rightarrow> \<lparr>wu_count = wr_usage_count w', wu_reset_at = wr_reset_at w'\<rparr>
         | Some u \<Rightarrow> \<lparr>wu_count = wu_count u + wr_usage_count w',
             wu_reset_at = (if wu_reset_at u > wr_reset_at w' then wu_reset_at u else wr_reset_at w')\<rparr>))"
  have guard: "\<not> (wr_usage_count w' < 0 \<or> wr_usage_count w' > MAX_COUNTER_VALUE \<or>
      wr_reset_at w' < 0 \<or> length g' \<noteq> 32 \<or> wr_reset_at w' > now + expected_window_seconds d')"
    using "2.prems"(1) by (auto split: if_splits)
  show ?case
  proof (cases "wr_reset_at w' \<le> now")
    case True
    with "2.prems"(1) guard have "load_window_rows now agg rows = Some agg'" by simp
    moreover have "((d, g), w) \<in> set rows" using "2.prems"(2,4) True by auto
    ultimately show ?thesis using "2.IH"(1) [OF guard True] "2.prems"(3,4) by blast
  next
    case False
    with "2.prems"(1) guard have load: "load_window_rows now ?agg rows = Some agg'" by simp
    show ?thesis
    proof (cases "((d, g), w) = ((d', g'), w')")
      case True
      then have "wr_usage_count w \<le> window_count (?agg d)"
        using "2.prems"(3) by (auto simp: window_count_def split: option.splits)
      then show ?thesis using load_window_rows_grows [OF load, of d] by linarith
    next
      case other: False
      then have "((d, g), w) \<in> set rows" using "2.prems"(2) by auto
      moreover have "0 \<le> window_count (?agg d)"
        using "2.prems"(3) guard by (auto simp: window_count_def split: option.splits)
      ultimately show ?thesis using "2.IH"(2) [OF guard False load] "2.prems"(4) by blast
    qed
  qed
qed simp

subsection \<open>Incrementing\<close>

definition window_key :: "window_spec \<Rightarrow> window_dimension \<times> bytes" where
  "window_key s = (ws_dimension s, ws_digest s)"

definition active_key :: "active_spec \<Rightarrow> active_dimension \<times> bytes" where
  "active_key s = (as_dimension s, as_digest s)"

lemma increment_window_effect:
  assumes "increment_window now spec db = Some db'" "tables_distinct db" "windows_ok db"
    and room: "\<And>w. map_of (db_windows db) (window_key spec) = Some w \<Longrightarrow>
      wr_usage_count w < window_limit (ws_dimension spec)"
  shows "views_same db db'" "tables_distinct db'" "windows_ok db'" "db_active db' = db_active db"
    "k \<noteq> window_key spec \<Longrightarrow> map_of (db_windows db') k = map_of (db_windows db) k"
proof -
  from assms(1) obtain w where w: "map_of (db_windows db) (window_key spec) = Some w"
    and checks: "window_checks (window_key spec)
      (w\<lparr>wr_usage_count := wr_usage_count w + 1, wr_updated_at := now\<rparr>)"
    and db': "db' = db\<lparr>db_windows := put (window_key spec)
      (w\<lparr>wr_usage_count := wr_usage_count w + 1, wr_updated_at := now\<rparr>) (db_windows db)\<rparr>"
    by (auto simp: increment_window_def Let_def window_key_def split: option.splits if_splits)
  have "wr_usage_count (w\<lparr>wr_usage_count := wr_usage_count w + 1, wr_updated_at := now\<rparr>)
      \<le> window_limit (fst (window_key spec))"
    using room [OF w] by (simp add: window_key_def)
  from put_window_effect [OF assms(2,3) checks this] db'
  show "views_same db db'" "tables_distinct db'" "windows_ok db'" "db_active db' = db_active db"
    by simp_all
  show "k \<noteq> window_key spec \<Longrightarrow> map_of (db_windows db') k = map_of (db_windows db) k"
    by (simp add: db')
qed

lemma increment_windows_effect:
  assumes "run_each (increment_window now) specs db = Some db'" "tables_distinct db"
    and "windows_ok db" "distinct (map window_key specs)"
    and "\<And>s w. s \<in> set specs \<Longrightarrow> map_of (db_windows db) (window_key s) = Some w \<Longrightarrow>
      wr_usage_count w < window_limit (ws_dimension s)"
  shows "views_same db db' \<and> tables_distinct db' \<and> windows_ok db' \<and> db_active db' = db_active db"
  using assms
proof (induction specs arbitrary: db)
  case Nil
  then show ?case by (simp add: views_same_refl)
next
  case (Cons s specs)
  from Cons.prems(1) obtain db1 where 1: "increment_window now s db = Some db1"
    and 2: "run_each (increment_window now) specs db1 = Some db'"
    by (auto simp: Option.bind_eq_Some_conv)
  note e = increment_window_effect [OF 1 Cons.prems(2,3) Cons.prems(5) [of s]]
  have "wr_usage_count w < window_limit (ws_dimension t)"
    if "t \<in> set specs" "map_of (db_windows db1) (window_key t) = Some w" for t w
  proof -
    have "window_key t \<in> window_key ` set specs" using that(1) by simp
    then have "window_key t \<noteq> window_key s" using Cons.prems(4) by auto
    then show ?thesis using e(5) that Cons.prems(5) [of t w] by simp
  qed
  then have "views_same db1 db' \<and> tables_distinct db' \<and> windows_ok db' \<and> db_active db' = db_active db1"
    using Cons.IH [OF 2] e(2,3) Cons.prems(4) by simp
  then show ?case using e(1,4) views_same_trans [OF e(1)] by simp
qed

lemma increment_active_effect:
  assumes "increment_active now spec db = Some db'" "tables_distinct db"
  shows "views_same db db'" "tables_distinct db'" "db_windows db' = db_windows db"
    "active_count (db_active db') k = active_count (db_active db) k + of_bool (k = active_key spec)"
  using assms
  by (auto simp: increment_active_def Let_def views_same_def tables_distinct_def view_def
      active_count_def active_key_def split: option.splits if_splits)

lemma increment_actives_effect:
  assumes "run_each (increment_active now) (active_specs s n) db = Some db'" "tables_distinct db"
  shows "views_same db db'" "tables_distinct db'" "db_windows db' = db_windows db"
    "active_count (db_active db') k = active_count (db_active db) k
       + of_bool (k = (NETWORK_ACTIVE, n)) + of_bool (k = (SESSION_ACTIVE, s))"
proof -
  from assms(1) obtain db1 where
    1: "increment_active now \<lparr>as_dimension = NETWORK_ACTIVE, as_digest = n\<rparr> db = Some db1"
    and 2: "increment_active now \<lparr>as_dimension = SESSION_ACTIVE, as_digest = s\<rparr> db1 = Some db'"
    by (auto simp: active_specs_keys Option.bind_eq_Some_conv)
  note d1 = increment_active_effect [OF 1 assms(2)]
  note d2 = increment_active_effect [OF 2 d1(2)]
  show "views_same db db'" by (rule views_same_trans [OF d1(1) d2(1)])
  show "tables_distinct db'" by (rule d2(2))
  show "db_windows db' = db_windows db" using d1(3) d2(3) by simp
  show "active_count (db_active db') k = active_count (db_active db) k
       + of_bool (k = (NETWORK_ACTIVE, n)) + of_bool (k = (SESSION_ACTIVE, s))"
    using d1(4) [of k] d2(4) [of k] by (simp add: active_key_def)
qed

subsection \<open>The admission decision sees the sums\<close>

lemma admission_allows:
  assumes "decide_guest_abuse_admission (admission_object q) = ALLOW_NEW_SCAN a b c"
  shows "usage_within_limits (aq_usage q)" "aq_service_state q = SERVICE_OPEN"
    "sha256_pattern (aq_session_scope q)" "hmac_sha256_pattern (aq_network_digest q)"
    "is_u64 (aq_now q)"
proof -
  from assms obtain r where r: "snapshot_abuse_request (admission_object q) = Some r"
    and allow: "admit r = ALLOW_NEW_SCAN a b c"
    by (auto simp: decide_guest_abuse_admission_def split: option.splits)
  have "r = q \<and> sha256_pattern (aq_session_scope q) \<and> hmac_sha256_pattern (aq_network_digest q)
      \<and> is_u64 (aq_now q)"
    using r
    by (auto simp: snapshot_abuse_request_def admission_object_def usage_object_def
        read_usage_snapshot_def read_window_object Option.bind_eq_Some_conv guard_simps
        as_counter_def read_service_state_def service_state_text_def is_u64_def
        split: if_splits service_state.splits)
  with allow show "usage_within_limits (aq_usage q)" "aq_service_state q = SERVICE_OPEN"
    "sha256_pattern (aq_session_scope q)" "hmac_sha256_pattern (aq_network_digest q)"
    "is_u64 (aq_now q)"
    by (auto simp: admit_allows_iff)
qed

text \<open>What loading returns: room in the sums is room in the rows of the first digest.\<close>

lemma load_counter_state:
  assumes "load_abuse_counter_state session networks now db = Some (state, db1)"
    and "tables_distinct db" "windows_ok db"
  obtains network rest where "networks = network # rest"
    "cs_increment_windows state = window_specs session network"
    "cs_increment_active state = active_specs session network"
    "views_same db db1" "tables_distinct db1" "windows_ok db1"
    "\<And>k. active_count (db_active db1) k = active_count (db_active db) k"
    "\<And>s w. s \<in> set (window_specs session network) \<Longrightarrow>
      map_of (db_windows db1) (window_key s) = Some w \<Longrightarrow>
      wr_usage_count w \<le> window_count (cs_windows state (ws_dimension s))"
    "\<And>s. s \<in> set (active_specs session network) \<Longrightarrow>
      active_count (db_active db1) (active_key s) \<le> base_count (cs_active state (as_dimension s))"
proof -
  from assms(1) obtain network rest dbw windows active where
    n: "networks = network # rest"
    and w: "run_each (\<lambda>s. insert_window s now) (window_specs session network) db = Some dbw"
    and a: "run_each (\<lambda>s. insert_active s now) (active_specs session network) dbw = Some db1"
    and lw: "load_windows session networks now db1 = Some windows"
    and la: "load_active session networks db1 = Some active"
    and state: "state = \<lparr>cs_active = active, cs_increment_active = active_specs session network,
      cs_increment_windows = window_specs session network, cs_windows = windows\<rparr>"
    by (auto simp: load_abuse_counter_state_def insert_current_rows_def Let_def
        Option.bind_eq_Some_conv split: list.splits)
  note ew = insert_windows_effect [OF w assms(2,3)]
  note ea = insert_actives_effect [OF a ew(2)]
  have windows_same: "db_windows db1 = db_windows dbw" by (rule ea(3))
  have cur: "\<exists>v. map_of (db_windows db1) (window_key s) = Some v \<and> now < wr_reset_at v"
    if "s \<in> set (window_specs session network)" for s
    using ew(6) that windows_same by (auto simp: current_window_def window_key_def)
  have 1: "wr_usage_count v \<le> window_count (cs_windows state (ws_dimension s))"
    if s: "s \<in> set (window_specs session network)"
      and v: "map_of (db_windows db1) (window_key s) = Some v" for s v
  proof -
    have "now < wr_reset_at v" using cur [OF s] v by simp
    moreover have "((ws_dimension s, ws_digest s), v) \<in> set (rows_where
        (\<lambda>(d, g) _. if is_session_window d then g = session else g \<in> set networks) (db_windows db1))"
      using v s by (auto simp: rows_where_set window_key_def window_specs_def n
          is_session_window_def dest!: map_of_SomeD)
    ultimately show ?thesis
      using load_window_rows_member [OF lw [unfolded load_windows_def]]
      by (simp add: state window_count_def)
  qed
  have 2: "active_count (db_active db1) (active_key s) \<le> base_count (cs_active state (as_dimension s))"
    if s: "s \<in> set (active_specs session network)" for s
  proof (cases "map_of (db_active db1) (active_key s)")
    case None
    then show ?thesis
      using load_active_rows_grows [OF la [unfolded load_active_def], of "as_dimension s"]
      by (simp add: active_count_def base_count_def state)
  next
    case (Some r)
    have "((as_dimension s, as_digest s), r) \<in> set (rows_where
        (\<lambda>(d, g) _. if d = SESSION_ACTIVE then g = session else g \<in> set networks) (db_active db1))"
      using Some s by (auto simp: rows_where_set active_key_def active_specs_def n
          dest!: map_of_SomeD)
    then show ?thesis
      using load_active_rows_member [OF la [unfolded load_active_def]] Some
      by (simp add: state base_count_def active_count_def)
  qed
  show ?thesis
    using that [OF n _ _ views_same_trans [OF ew(1) ea(1)] ea(2) _ _ 1 2]
      ew(3,4) ea(4) windows_same map_of_windows_cong [of db1 dbw]
    by (simp add: state)
qed

lemma reserve_allowedE:
  assumes "reserve_guest_abuse_counters sid scope digests now db = Some (ALLOW_NEW_SCAN a b c, db')"
  obtains digest rest state db1 db2 db3 sb sd nb nd sa na service where
    "digests = digest # rest"
    "load_abuse_counter_state (digest_bytes ''sha256:'' scope)
       (map (digest_bytes ''hmac-sha256:'') digests) now db = Some (state, db1)"
    "service = db_service_state db1"
    "cs_windows state SESSION_BURST = Some sb" "cs_windows state SESSION_DAILY = Some sd"
    "cs_windows state NETWORK_BURST = Some nb" "cs_windows state NETWORK_DAILY = Some nd"
    "cs_active state SESSION_ACTIVE = Some sa" "cs_active state NETWORK_ACTIVE = Some na"
    "decide_guest_abuse_admission (admission_object
       \<lparr>aq_session_scope = scope, aq_network_digest = digest, aq_now = now,
        aq_service_state = service,
        aq_usage = \<lparr>us_session_burst = sb, us_session_daily = sd, us_network_burst = nb,
          us_network_daily = nd, us_session_active = sa, us_network_active = na\<rparr>\<rparr>) =
       ALLOW_NEW_SCAN a b c"
    "run_each (increment_window now) (cs_increment_windows state) db1 = Some db2"
    "run_each (increment_active now) (cs_increment_active state) db2 = Some db3"
    "insert_reservation sid
       \<lparr>rv_session_scope = digest_bytes ''sha256:'' scope,
        rv_network_digest = digest_bytes ''hmac-sha256:'' digest, rv_reserved_at = now,
        rv_deletion_deadline = now + SCAN_RETENTION_SECONDS, rv_released_at = None,
        rv_release_reason = None\<rparr> db3 = Some db'"
proof (cases digests)
  case Nil
  then show ?thesis using assms by (simp add: reserve_guest_abuse_counters_def Let_def)
next
  case (Cons digest rest)
  obtain state db1 sb sd nb nd sa na where
    load: "load_abuse_counter_state (digest_bytes ''sha256:'' scope)
       (map (digest_bytes ''hmac-sha256:'') digests) now db = Some (state, db1)"
    and u: "cs_windows state SESSION_BURST = Some sb" "cs_windows state SESSION_DAILY = Some sd"
    "cs_windows state NETWORK_BURST = Some nb" "cs_windows state NETWORK_DAILY = Some nd"
    "cs_active state SESSION_ACTIVE = Some sa" "cs_active state NETWORK_ACTIVE = Some na"
    using assms
    by (auto simp: reserve_guest_abuse_counters_def Let_def Option.bind_eq_Some_conv Cons)
  let ?decision = "decide_guest_abuse_admission (admission_object
       \<lparr>aq_session_scope = scope, aq_network_digest = digest, aq_now = now,
        aq_service_state = db_service_state db1,
        aq_usage = \<lparr>us_session_burst = sb, us_session_daily = sd, us_network_burst = nb,
          us_network_daily = nd, us_session_active = sa, us_network_active = na\<rparr>\<rparr>)"
  note run = assms [unfolded reserve_guest_abuse_counters_def Let_def, simplified Cons list.case,
      folded Cons, unfolded load, simplified u Option.bind.simps prod.case]
  show ?thesis
  proof (cases ?decision)
    case (ALLOW_NEW_SCAN x y z)
    with run that [OF Cons load refl u] show ?thesis
      by (auto simp: Option.bind_eq_Some_conv Cons)
  qed (use run in simp_all)
qed

text \<open>An admitted reservation keeps every quota.\<close>

lemma reserve_allowed:
  assumes res: "reserve_guest_abuse_counters sid scope digests now db =
      Some (ALLOW_NEW_SCAN a b c, db')"
    and ok: "tables_distinct db" "active_ok db" "windows_ok db"
  obtains r where "view sid db' = (view sid db)\<lparr>sv_reservation := Some r\<rparr>"
    "\<forall>k. k \<noteq> sid \<longrightarrow> view k db' = view k db"
    "rv_session_scope r = digest_bytes ''sha256:'' scope" "rv_reserved_at r = now"
    "rv_deletion_deadline r = now + SCAN_RETENTION_SECONDS" "rv_released_at r = None"
    "reservation_checks r" "tables_distinct db'" "active_ok db'" "windows_ok db'"
  using res
proof (rule reserve_allowedE, goal_cases)
  case (1 digest rest state db1 db2 db3 sb sd nb nd sa na service)
  note load = 1(3) and u = 1(5-10) and decision = 1(11) and run = 1(12-14)
  define session where "session = digest_bytes ''sha256:'' scope"
  define network where "network = digest_bytes ''hmac-sha256:'' digest"
  note lim = admission_allows(1) [OF decision, unfolded usage_within_limits_def, simplified]
  obtain network' rest' where n: "map (digest_bytes ''hmac-sha256:'') digests = network' # rest'"
    and specs: "cs_increment_windows state = window_specs session network'"
      "cs_increment_active state = active_specs session network'"
    and e: "views_same db db1" "tables_distinct db1" "windows_ok db1"
    and same: "\<And>k. active_count (db_active db1) k = active_count (db_active db) k"
    and room: "\<And>s w. s \<in> set (window_specs session network') \<Longrightarrow>
      map_of (db_windows db1) (window_key s) = Some w \<Longrightarrow>
      wr_usage_count w \<le> window_count (cs_windows state (ws_dimension s))"
      "\<And>s. s \<in> set (active_specs session network') \<Longrightarrow>
      active_count (db_active db1) (active_key s) \<le> base_count (cs_active state (as_dimension s))"
    using load_counter_state [OF load ok(1,3)] unfolding session_def by metis
  have network: "network' = network" using n 1(2) by (simp add: network_def)
  have "wr_usage_count w < window_limit (ws_dimension s)"
    if "s \<in> set (window_specs session network)"
      "map_of (db_windows db1) (window_key s) = Some w" for s w
    using room(1) [unfolded network, OF that] that(1) lim u
    by (auto simp: window_specs_def window_count_def window_limit_def)
  moreover have "distinct (map window_key (window_specs session network))"
    by (simp add: window_specs_def window_key_def)
  ultimately have w: "views_same db1 db2" "tables_distinct db2" "windows_ok db2"
    "db_active db2 = db_active db1"
    using increment_windows_effect [OF run(1) e(2,3)] by (simp_all add: specs network)
  note a = increment_actives_effect [OF run(2) [unfolded specs network] w(2)]
  define r where "r = \<lparr>rv_session_scope = session, rv_network_digest = network,
    rv_reserved_at = now, rv_deletion_deadline = now + SCAN_RETENTION_SECONDS,
    rv_released_at = None, rv_release_reason = None\<rparr>"
  have ins: "reservation_checks r" "map_of (db_reservations db3) sid = None"
    "db' = db3\<lparr>db_reservations := put sid r (db_reservations db3)\<rparr>"
    using run(3) by (auto simp: insert_reservation_def r_def session_def network_def split: if_splits)
  have vs: "views_same db db3"
    by (rule views_same_trans [OF e(1) views_same_trans [OF w(1) a(1)]])
  have live: "live_count (db_reservations db') k =
      live_count (db_reservations db) k + of_bool (reservation_key (fst k) r = snd k)" for k
    using ins(2) vs by (simp add: ins(3) live_count_def count_put_new views_same_def r_def)
  have active: "active_count (db_active db') k =
      active_count (db_active db) k + of_bool (reservation_key (fst k) r = snd k)" for k
    using a(4) [of k] by (simp add: ins(3) w(4) same reservation_key_of r_def)
  have "live_count (db_reservations db) k + of_bool (reservation_key (fst k) r = snd k)
      \<le> active_limit (fst k)" for k
  proof (cases "reservation_key (fst k) r = snd k")
    case True
    then have k: "k = (NETWORK_ACTIVE, network) \<or> k = (SESSION_ACTIVE, session)"
      by (cases k; cases "fst k") (auto simp: reservation_key_def r_def)
    have "active_count (db_active db1) k < active_limit (fst k)"
      using k room(2) [unfolded network] lim u
      by (fastforce simp: active_specs_def active_key_def base_count_def active_limit_def)
    then show ?thesis using True same [of k] active_okD(1) [OF ok(2), of k] by simp
  next
    case False
    then show ?thesis using active_okD(2) [OF ok(2), of k] by simp
  qed
  then have "active_ok db'"
    by (intro active_okI) (simp_all add: live active active_okD(1) [OF ok(2)])
  moreover have "windows_ok db'" using w(3) a(3) by (simp add: windows_ok_def ins(3))
  moreover have "tables_distinct db'" using a(2) by (simp add: ins(3) tables_distinct_def)
  ultimately show ?case
    using 1(1) [of r] vs ins(1,3)
    by (simp add: view_put_reservation views_same_def r_def session_def)
qed

end
