(* ===== verification/Guest_Refinement.thy ===== *)
theory Guest_Refinement
  imports Guest_Reserve
begin

section \<open>The handlers refine the protocol\<close>

text \<open>
  The invariant of the guest database, and for every handler the lemma that a
  committed transaction is one step of the protocol on one scan, with the
  quotas kept.
\<close>

definition keys_unique :: "guest_db \<Rightarrow> bool" where
  "keys_unique db \<longleftrightarrow>
     (\<forall>i j s t. sv_scan (view i db) = Some s \<longrightarrow> sv_scan (view j db) = Some t \<longrightarrow>
        gs_session_scope s = gs_session_scope t \<longrightarrow> gs_idempotency_key s = gs_idempotency_key t \<longrightarrow>
        i = j)"

definition guest_inv :: "guest_db \<Rightarrow> bool" where
  "guest_inv db \<longleftrightarrow>
     tables_distinct db \<and> (\<forall>sid. view_inv sid (view sid db)) \<and> active_ok db \<and> windows_ok db \<and>
     keys_unique db"

lemma guest_invD:
  assumes "guest_inv db"
  shows "tables_distinct db" "view_inv sid (view sid db)" "active_ok db" "windows_ok db"
    "keys_unique db"
  using assms by (simp_all add: guest_inv_def)

text \<open>A step of the protocol on one scan; the other scans do not change.\<close>

definition scan_move :: "string \<Rightarrow> guest_db \<Rightarrow> guest_db \<Rightarrow> bool" where
  "scan_move sid db db' \<longleftrightarrow>
     view_step sid (view sid db) (view sid db') \<and> (\<forall>k. k \<noteq> sid \<longrightarrow> view k db' = view k db) \<and>
     tables_distinct db' \<and> active_ok db' \<and> windows_ok db'"

lemma scan_move_keys:
  assumes inv: "guest_inv db" and move: "scan_move sid db db'"
    and s: "sv_scan (view sid db) = Some s"
  shows "keys_unique db'"
proof -
  have old: "\<exists>s0. sv_scan (view i db) = Some s0 \<and> gs_session_scope s0 = gs_session_scope t \<and>
      gs_idempotency_key s0 = gs_idempotency_key t" if t: "sv_scan (view i db') = Some t" for i t
  proof (cases "i = sid")
    case True
    with t s view_step_job [of sid "view sid db" "view sid db'" s t] move guest_invD(2) [OF inv]
    show ?thesis by (simp add: scan_move_def same_scan_identity_def)
  next
    case False
    with t move show ?thesis by (simp add: scan_move_def)
  qed
  show ?thesis
    unfolding keys_unique_def
  proof (intro allI impI)
    fix i j t u
    assume "sv_scan (view i db') = Some t" "sv_scan (view j db') = Some u"
      "gs_session_scope t = gs_session_scope u" "gs_idempotency_key t = gs_idempotency_key u"
    with old [of i t] old [of j u] guest_invD(5) [OF inv] show "i = j"
      unfolding keys_unique_def by metis
  qed
qed

lemma scan_move_inv:
  assumes inv: "guest_inv db" and move: "scan_move sid db db'" and keys: "keys_unique db'"
  shows "guest_inv db'"
proof -
  have "view_inv k (view k db')" for k
    using move guest_invD(2) [OF inv] view_step_inv [of sid "view sid db" "view sid db'"]
    by (cases "k = sid") (auto simp: scan_move_def)
  with move keys show ?thesis by (simp add: guest_inv_def scan_move_def)
qed

lemma scan_move_keeps:
  assumes "guest_inv db" "scan_move sid db db'" "sv_scan (view sid db) = Some s"
  shows "guest_inv db'"
  by (rule scan_move_inv [OF assms(1,2) scan_move_keys [OF assms]])

subsection \<open>Writing attempts and scans\<close>

lemma view_update_order [simp]:
  "v\<lparr>sv_attempts := b, sv_scan := a\<rparr> = v\<lparr>sv_scan := a, sv_attempts := b\<rparr>"
  by simp

lemma scan_effect_quota:
  assumes "scan_effect sid f db db'"
  shows "active_ok db \<Longrightarrow> active_ok db'" "windows_ok db \<Longrightarrow> windows_ok db'"
    "tables_distinct db \<Longrightarrow> tables_distinct db'"
    "view sid db' = f (view sid db)" "k \<noteq> sid \<Longrightarrow> view k db' = view k db"
  using assms by (auto simp: scan_effect_def same_counters_def active_ok_def windows_ok_def)

lemma finish_attempt_effect:
  assumes "finish_attempt sid aid from st now db = Some db'"
  obtains a where "sv_attempts (view sid db) aid = Some a" "at_state a \<in> from"
    "attempt_written a (finished a st now)"
    "scan_effect sid (\<lambda>v. v\<lparr>sv_attempts := (sv_attempts v)(aid \<mapsto> finished a st now)\<rparr>) db db'"
  using assms unfolding finish_attempt_def
  by (auto simp: attempt_written_def finished_def elim!: update_attempt_effect)

lemma create_attempt_effect:
  assumes create: "create_attempt sid s aid n n now db = Some (lease, db')"
    and s: "sv_scan (view sid db) = Some s"
  shows "scan_effect sid (\<lambda>v. v\<lparr>sv_scan := Some (leased_scan s aid n now),
      sv_attempts := (sv_attempts v)(aid \<mapsto> leased_attempt sid s n now)\<rparr>) db db'"
    "id_pattern aid" "attempt_checks (leased_attempt sid s n now)"
    "scan_written s (leased_scan s aid n now)" "sv_attempts (view sid db) aid = None"
    "now < gs_access_expires_at s"
    "lease = \<lparr>al_guest_scan_id = sid, al_attempt_id = aid, al_attempt_no = n, al_fence = n,
      al_lease_version = 1, al_canonical_target = gs_canonical_target s,
      al_lease_expires_at = min (now + GUEST_ATTEMPT_LEASE_SECONDS)
        (min (now + GUEST_ATTEMPT_HARD_DEADLINE_SECONDS) (gs_access_expires_at s)),
      al_hard_deadline = min (now + GUEST_ATTEMPT_HARD_DEADLINE_SECONDS) (gs_access_expires_at s)\<rparr>"
proof -
  define deadline where
    "deadline = min (now + GUEST_ATTEMPT_HARD_DEADLINE_SECONDS) (gs_access_expires_at s)"
  define lease_end where "lease_end = min (now + GUEST_ATTEMPT_LEASE_SECONDS) deadline"
  define a where "a = \<lparr>at_scan_id = sid, at_attempt_no = n, at_fence = n, at_lease_version = 0,
    at_lease_expires_at = None, at_hard_deadline = deadline, at_state = A_CREATED,
    at_created_at = now, at_updated_at = now, at_started_at = None, at_finished_at = None\<rparr>"
  have ifs: "(if now + GUEST_ATTEMPT_HARD_DEADLINE_SECONDS < gs_access_expires_at s
      then now + GUEST_ATTEMPT_HARD_DEADLINE_SECONDS else gs_access_expires_at s) = deadline"
    "(if now + GUEST_ATTEMPT_LEASE_SECONDS < deadline
      then now + GUEST_ATTEMPT_LEASE_SECONDS else deadline) = lease_end"
    by (auto simp: deadline_def lease_end_def)
  from create obtain db1 db2 where
    time: "\<not> lease_end \<le> now" "\<not> deadline \<le> now"
    and 1: "insert_attempt aid a db = Some db1"
    and 2: "update_attempt sid aid (\<lambda>a. at_state a = A_CREATED \<and> at_lease_version a = 0)
      (\<lambda>a. a\<lparr>at_state := A_LEASED, at_lease_version := 1, at_lease_expires_at := Some lease_end\<rparr>) db1
      = Some db2"
    and 3: "update_scan sid (\<lambda>s. gs_job_state s \<in> {J_QUEUED, J_RUNNING})
      (\<lambda>s. s\<lparr>gs_job_state := J_RUNNING, gs_current_attempt_id := Some aid,
        gs_current_fence := n, gs_updated_at := now\<rparr>) db2 = Some db'"
    and lease: "lease = \<lparr>al_guest_scan_id = sid, al_attempt_id = aid, al_attempt_no = n,
      al_fence = n, al_lease_version = 1, al_canonical_target = gs_canonical_target s,
      al_lease_expires_at = lease_end, al_hard_deadline = deadline\<rparr>"
    unfolding create_attempt_def Let_def ifs a_def
    by (auto simp: Option.bind_eq_Some_conv split: if_splits)
  have sid: "at_scan_id a = sid" by (simp add: a_def)
  note i = insert_attempt_effect [OF 1, unfolded sid]
  have new: "sv_attempts (view sid db1) aid = Some a"
    using scan_effect_quota(4) [OF i(6)] by simp
  from 2 obtain b where b: "sv_attempts (view sid db1) aid = Some b"
    "attempt_checks (b\<lparr>at_state := A_LEASED, at_lease_version := 1,
      at_lease_expires_at := Some lease_end\<rparr>)"
    "scan_effect sid (\<lambda>v. v\<lparr>sv_attempts := (sv_attempts v)(aid \<mapsto>
      b\<lparr>at_state := A_LEASED, at_lease_version := 1, at_lease_expires_at := Some lease_end\<rparr>)\<rparr>) db1 db2"
    by (rule update_attempt_effect)
  have leased: "b\<lparr>at_state := A_LEASED, at_lease_version := 1, at_lease_expires_at := Some lease_end\<rparr>
      = leased_attempt sid s n now"
  proof -
    have "b = a" using b(1) new by simp
    then show ?thesis by (simp add: a_def leased_attempt_def Let_def deadline_def lease_end_def)
  qed
  from 3 obtain s0 where s0: "sv_scan (view sid db2) = Some s0"
    "guard_scan_update s0 (s0\<lparr>gs_job_state := J_RUNNING, gs_current_attempt_id := Some aid,
        gs_current_fence := n, gs_updated_at := now\<rparr>)"
    "scan_checks (s0\<lparr>gs_job_state := J_RUNNING, gs_current_attempt_id := Some aid,
        gs_current_fence := n, gs_updated_at := now\<rparr>)"
    "scan_effect sid (\<lambda>v. v\<lparr>sv_scan := Some (s0\<lparr>gs_job_state := J_RUNNING,
      gs_current_attempt_id := Some aid, gs_current_fence := n, gs_updated_at := now\<rparr>)\<rparr>) db2 db'"
    by (rule update_scan_effect)
  have s0_eq: "s0 = s"
    using s0(1) s scan_effect_quota(4) [OF b(3)] scan_effect_quota(4) [OF i(6)] by simp
  note eff = scan_effect_trans [OF scan_effect_trans [OF i(6) b(3)] s0(4)]
  show "scan_effect sid (\<lambda>v. v\<lparr>sv_scan := Some (leased_scan s aid n now),
      sv_attempts := (sv_attempts v)(aid \<mapsto> leased_attempt sid s n now)\<rparr>) db db'"
    using eff unfolding leased s0_eq leased_scan_def by simp
  show "id_pattern aid" by (rule i(1))
  show "attempt_checks (leased_attempt sid s n now)" using b(2) by (simp add: leased)
  show "scan_written s (leased_scan s aid n now)"
    using s0(2,3) by (simp add: scan_written_def leased_scan_def s0_eq)
  show "sv_attempts (view sid db) aid = None" by (rule i(4))
  show "now < gs_access_expires_at s" using time(2) by (simp add: deadline_def)
  show "lease = \<lparr>al_guest_scan_id = sid, al_attempt_id = aid, al_attempt_no = n, al_fence = n,
      al_lease_version = 1, al_canonical_target = gs_canonical_target s,
      al_lease_expires_at = min (now + GUEST_ATTEMPT_LEASE_SECONDS)
        (min (now + GUEST_ATTEMPT_HARD_DEADLINE_SECONDS) (gs_access_expires_at s)),
      al_hard_deadline = min (now + GUEST_ATTEMPT_HARD_DEADLINE_SECONDS) (gs_access_expires_at s)\<rparr>"
    by (simp add: lease lease_end_def deadline_def)
qed

subsection \<open>Closing a scan\<close>

lemma close_scan_effect:
  assumes upd: "update_scan sid p (\<lambda>s. s\<lparr>gs_job_state := j, gs_updated_at := now\<rparr>) db = Some db1"
    and rel: "release_or_throw sid now reason db1 = Some db2"
    and s: "sv_scan (view sid db) = Some s"
    and r: "sv_reservation (view sid db) = Some r" "rv_released_at r = None"
    and ok: "tables_distinct db" "active_ok db" "windows_ok db"
  shows "view sid db2 = (view sid db)\<lparr>sv_scan := Some (closed_scan s j now),
      sv_reservation := Some (released r now reason)\<rparr>"
    "\<forall>k. k \<noteq> sid \<longrightarrow> view k db2 = view k db"
    "scan_written s (closed_scan s j now)" "reservation_checks (released r now reason)"
    "tables_distinct db2" "active_ok db2" "windows_ok db2"
proof -
  from upd obtain s0 where s0: "sv_scan (view sid db) = Some s0"
    "guard_scan_update s0 (s0\<lparr>gs_job_state := j, gs_updated_at := now\<rparr>)"
    "scan_checks (s0\<lparr>gs_job_state := j, gs_updated_at := now\<rparr>)"
    "scan_effect sid (\<lambda>v. v\<lparr>sv_scan := Some (s0\<lparr>gs_job_state := j, gs_updated_at := now\<rparr>)\<rparr>) db db1"
    by (rule update_scan_effect)
  have s0_eq: "s0 = s" using s0(1) s by simp
  note e = scan_effect_quota [OF s0(4)]
  have r1: "sv_reservation (view sid db1) = Some r" using e(4) r(1) by simp
  note l = release_live [OF rel r1 r(2) e(3) [OF ok(1)] e(1) [OF ok(2)]]
  show "view sid db2 = (view sid db)\<lparr>sv_scan := Some (closed_scan s j now),
      sv_reservation := Some (released r now reason)\<rparr>"
    using l(1) e(4) by (simp add: s0_eq closed_scan_def)
  show "\<forall>k. k \<noteq> sid \<longrightarrow> view k db2 = view k db" using l(2) e(5) by simp
  show "scan_written s (closed_scan s j now)"
    using s0(2,3) by (simp add: scan_written_def closed_scan_def s0_eq)
  show "reservation_checks (released r now reason)" by (rule l(3))
  show "tables_distinct db2" "active_ok db2" by (rule l(4), rule l(5))
  show "windows_ok db2" using e(2) [OF ok(3)] l(6) by (simp add: windows_ok_def)
qed

lemma close_queued:
  assumes inv: "guest_inv db" and s: "sv_scan (view sid db) = Some s" "gs_job_state s = J_QUEUED"
    and j: "j \<in> {J_CANCELLED, J_EXPIRED}"
    and upd: "update_scan sid p (\<lambda>s. s\<lparr>gs_job_state := j, gs_updated_at := now\<rparr>) db = Some db1"
    and rel: "release_or_throw sid now reason db1 = Some db2"
  shows "scan_move sid db db2"
proof -
  obtain r where r: "sv_reservation (view sid db) = Some r" "rv_released_at r = None"
    using reservation_inv_live [OF guest_invD(2) [OF inv] s(1)] s(2) by auto
  note c = close_scan_effect [OF upd rel s(1) r guest_invD(1,3,4) [OF inv]]
  show ?thesis
    unfolding scan_move_def c(1)
    using queued_closed [OF s j c(3) r c(4)] c(2,5-7) by simp
qed

text \<open>The current attempt is finished first.\<close>

lemma close_running:
  assumes inv: "guest_inv db" and s: "sv_scan (view sid db) = Some s" "gs_job_state s = J_RUNNING"
    and a: "gs_current_attempt_id s = Some aid" "sv_attempts (view sid db) aid = Some a"
    and j: "j \<in> {J_CANCELLED, J_EXPIRED, J_FAILED}"
      "j = J_FAILED \<Longrightarrow> at_attempt_no a \<ge> GUEST_MAX_ATTEMPTS \<and>
        (\<exists>l. at_lease_expires_at a = Some l \<and> min l (at_hard_deadline a) \<le> now)"
    and st: "st \<in> {A_TIMED_OUT, A_SUPERSEDED, A_CANCELLED}"
    and fin: "finish_attempt sid aid from st now db = Some db1"
    and upd: "update_scan sid p (\<lambda>s. s\<lparr>gs_job_state := j, gs_updated_at := now\<rparr>) db1 = Some db2"
    and rel: "release_or_throw sid now reason db2 = Some db3"
  shows "scan_move sid db db3"
proof -
  obtain r where r: "sv_reservation (view sid db) = Some r" "rv_released_at r = None"
    using reservation_inv_live [OF guest_invD(2) [OF inv] s(1)] s(2) by auto
  obtain b where b: "sv_attempts (view sid db) aid = Some b" "attempt_written b (finished b st now)"
    "scan_effect sid (\<lambda>v. v\<lparr>sv_attempts := (sv_attempts v)(aid \<mapsto> finished b st now)\<rparr>) db db1"
    using fin by (rule finish_attempt_effect)
  have b_eq: "b = a" using a(2) b(1) by simp
  note e = scan_effect_quota [OF b(3)]
  have s1: "sv_scan (view sid db1) = Some s" "sv_reservation (view sid db1) = Some r"
    using e(4) s(1) r(1) by simp_all
  note c = close_scan_effect [OF upd rel s1 r(2) e(3) [OF guest_invD(1) [OF inv]]
      e(1) [OF guest_invD(3) [OF inv]] e(2) [OF guest_invD(4) [OF inv]]]
  have v: "view sid db3 = (view sid db)\<lparr>sv_scan := Some (closed_scan s j now),
      sv_attempts := (sv_attempts (view sid db))(aid \<mapsto> finished a st now),
      sv_reservation := Some (released r now reason)\<rparr>"
    using c(1) e(4) by (simp add: b_eq)
  show ?thesis
    unfolding scan_move_def v
    using running_closed [OF s j a st b(2) [unfolded b_eq] c(3) r c(4)] c(2,5-7) e(5) by simp
qed

subsection \<open>Acquire\<close>

lemma current_attempt:
  assumes inv: "guest_inv db" and s: "sv_scan (view sid db) = Some s" "gs_job_state s = J_RUNNING"
    and aid: "gs_current_attempt_id s = Some aid" and load: "load_attempt sid aid db = Some a"
  shows "sv_attempts (view sid db) aid = Some a" "at_attempt_no a = at_fence a"
    "at_fence a = gs_current_fence s" "at_state a \<in> {A_LEASED, A_RUNNING}"
proof -
  show a: "sv_attempts (view sid db) aid = Some a" using load by (simp add: load_attempt_Some)
  obtain aid' a' where "gs_current_attempt_id s = Some aid'"
    "sv_attempts (view sid db) aid' = Some a'" "at_fence a' = gs_current_fence s"
    "at_state a' \<in> {A_LEASED, A_RUNNING}" "attempt_inv sid s aid' a'"
    by (rule running_view [OF guest_invD(2) [OF inv] s])
  then show "at_attempt_no a = at_fence a" "at_fence a = gs_current_fence s"
    "at_state a \<in> {A_LEASED, A_RUNNING}"
    using aid a by (auto simp: attempt_inv_def)
qed

lemma terminate_expired_moves:
  assumes inv: "guest_inv db" and s: "sv_scan (view sid db) = Some s"
      "gs_job_state s \<in> {J_QUEUED, J_RUNNING}"
    and t: "terminate_job sid s now J_EXPIRED reason db = Some (res, db')"
  shows "scan_move sid db db'"
proof -
  from t obtain db1 db2 where ta: "terminate_attempt sid s now db = Some db1"
    and upd: "update_scan sid (\<lambda>s. gs_job_state s \<in> {J_QUEUED, J_RUNNING})
      (\<lambda>s. s\<lparr>gs_job_state := J_EXPIRED, gs_updated_at := now\<rparr>) db1 = Some db2"
    and rel: "release_or_throw sid now reason db2 = Some db'"
    by (auto simp: terminate_job_def Option.bind_eq_Some_conv)
  show ?thesis
  proof (cases "gs_job_state s = J_QUEUED")
    case True
    then have "gs_current_attempt_id s = None"
      using queued_view [OF guest_invD(2) [OF inv] s(1)] by simp
    then have "db1 = db" using ta by (simp add: terminate_attempt_def)
    then show ?thesis using close_queued [OF inv s(1) True _ upd [unfolded \<open>db1 = db\<close>] rel] by simp
  next
    case False
    then have run: "gs_job_state s = J_RUNNING" using s(2) by simp
    obtain aid where aid: "gs_current_attempt_id s = Some aid"
      by (rule running_view [OF guest_invD(2) [OF inv] s(1) run])
    with ta run obtain a where load: "load_attempt sid aid db = Some a"
      by (auto simp: terminate_attempt_def Option.bind_eq_Some_conv)
    note a = current_attempt [OF inv s(1) run aid load]
    obtain st where "finish_attempt sid aid {A_LEASED, A_RUNNING} st now db = Some db1"
      "st \<in> {A_TIMED_OUT, A_SUPERSEDED, A_CANCELLED}"
      using ta a(4) by (auto simp: terminate_attempt_def aid run load split: if_splits)
    with close_running [OF inv s(1) run aid a(1) _ _ _ _ upd rel] show ?thesis by simp
  qed
qed

lemma acquire_fresh_queued:
  assumes inv: "guest_inv db" and s: "sv_scan (view sid db) = Some s" "gs_job_state s = J_QUEUED"
    and acq: "acquire_fresh sid s candidate 1 1 now db = Some (res, db')"
  shows "scan_move sid db db'"
proof -
  from acq obtain aid lease where c: "create_attempt sid s aid 1 1 now db = Some (lease, db')"
    by (auto simp: acquire_fresh_def Option.bind_eq_Some_conv)
  note e = create_attempt_effect [OF c s(1)]
  note q = scan_effect_quota [OF e(1)]
  have "view_step sid (view sid db) (view sid db')"
    unfolding q(4) by (rule first_lease [OF s e(6,5,2,3,4)])
  with q(1-3,5) guest_invD [OF inv] show ?thesis by (simp add: scan_move_def)
qed

lemma acquire_running_moves:
  assumes inv: "guest_inv db" and s: "sv_scan (view sid db) = Some s" "gs_job_state s = J_RUNNING"
    and time: "now < gs_access_expires_at s"
    and acq: "acquire_running sid s candidate now db = Some (res, db')"
  shows "db' = db \<or> scan_move sid db db'"
proof -
  from acq obtain old a l where old: "gs_current_attempt_id s = Some old"
    and load: "load_attempt sid old db = Some a" and l: "at_lease_expires_at a = Some l"
    by (auto simp: acquire_running_def Option.bind_eq_Some_conv)
  note a = current_attempt [OF inv s old load]
  show ?thesis
  proof (cases "now < l \<and> now < at_hard_deadline a")
    case True
    with acq show ?thesis
      by (auto simp: acquire_running_def Option.bind_eq_Some_conv old load l)
  next
    case False
    define st where "st = (if at_state a = A_RUNNING \<and> now \<ge> at_hard_deadline a
      then A_TIMED_OUT else A_SUPERSEDED)"
    have st: "st \<in> {A_TIMED_OUT, A_SUPERSEDED}" by (simp add: st_def)
    have expired: "min l (at_hard_deadline a) \<le> now" using False by auto
    from acq False obtain db1 where
      fin: "finish_attempt sid old {A_LEASED, A_RUNNING} st now db = Some db1"
      and rest: "(if at_attempt_no a \<ge> GUEST_MAX_ATTEMPTS
           then terminate_job sid s now J_FAILED RR_FAILED db1
           else acquire_fresh sid s candidate (at_attempt_no a + 1) (at_fence a + 1) now db1)
         = Some (res, db')"
      by (auto simp: acquire_running_def Option.bind_eq_Some_conv old load l st_def)
    obtain b where b: "sv_attempts (view sid db) old = Some b"
      "attempt_written b (finished b st now)"
      "scan_effect sid (\<lambda>v. v\<lparr>sv_attempts := (sv_attempts v)(old \<mapsto> finished b st now)\<rparr>) db db1"
      using fin by (rule finish_attempt_effect)
    have b_eq: "b = a" using a(1) b(1) by simp
    note e = scan_effect_quota [OF b(3)]
    have s1: "sv_scan (view sid db1) = Some s" using e(4) s(1) by simp
    show ?thesis
    proof (cases "at_attempt_no a \<ge> GUEST_MAX_ATTEMPTS")
      case True
      with rest obtain db2 db3 where ta: "terminate_attempt sid s now db1 = Some db2"
        and upd: "update_scan sid (\<lambda>s. gs_job_state s \<in> {J_QUEUED, J_RUNNING})
          (\<lambda>s. s\<lparr>gs_job_state := J_FAILED, gs_updated_at := now\<rparr>) db2 = Some db3"
        and rel: "release_or_throw sid now RR_FAILED db3 = Some db'"
        by (auto simp: terminate_job_def Option.bind_eq_Some_conv)
      have "db2 = db1"
        using ta st e(4)
        by (auto simp: terminate_attempt_def old s(2) Option.bind_eq_Some_conv load_attempt_Some
            finished_def split: if_splits)
      with close_running [OF inv s old a(1) _ _ _ fin _ rel] upd st True expired l
      show ?thesis by auto
    next
      case False
      with rest obtain aid lease where
        c: "create_attempt sid s aid (at_attempt_no a + 1) (at_attempt_no a + 1) now db1
          = Some (lease, db')"
        by (auto simp: acquire_fresh_def Option.bind_eq_Some_conv a(2))
      note f = create_attempt_effect [OF c s1]
      note q = scan_effect_quota [OF f(1)]
      have fresh: "aid \<noteq> old" "sv_attempts (view sid db) aid = None"
        using f(5) e(4) by (auto split: if_splits)
      have v: "view sid db' = (view sid db)\<lparr>
          sv_scan := Some (leased_scan s aid (at_attempt_no a + 1) now),
          sv_attempts := (sv_attempts (view sid db))(old \<mapsto> finished a st now,
            aid \<mapsto> leased_attempt sid s (at_attempt_no a + 1) now)\<rparr>"
        using q(4) e(4) by (simp add: b_eq)
      have "view_step sid (view sid db) (view sid db')"
        unfolding v
        by (rule next_lease [OF s time old a(1) l expired _ st b(2) [unfolded b_eq] fresh f(2,3,4)])
          (use False in simp)
      moreover have "\<forall>k. k \<noteq> sid \<longrightarrow> view k db' = view k db" using q(5) e(5) by simp
      ultimately show ?thesis
        using q(1-3) e(1-3) guest_invD [OF inv] by (simp add: scan_move_def)
    qed
  qed
qed

lemma acquire_moves:
  assumes inv: "guest_inv db" and acq: "acquire_tx sid candidate now db = Some (res, db')"
  shows "db' = db \<or> scan_move sid db db'"
proof (cases "map_of (db_scans db) sid")
  case None
  with acq show ?thesis by (auto simp: acquire_tx_def Option.bind_eq_Some_conv)
next
  case (Some s)
  then have s: "sv_scan (view sid db) = Some s" by (simp add: view_scan)
  from acq Some consider (same) "db' = db"
    | (expired) "gs_job_state s \<in> {J_QUEUED, J_RUNNING}"
        "terminate_job sid s now J_EXPIRED RR_EXPIRED db = Some (res, db')"
    | (running) "gs_job_state s = J_RUNNING" "now < gs_access_expires_at s"
        "acquire_running sid s candidate now db = Some (res, db')"
    | (queued) "gs_job_state s = J_QUEUED" "acquire_fresh sid s candidate 1 1 now db = Some (res, db')"
    by (auto simp: acquire_tx_def Option.bind_eq_Some_conv not_le split: if_splits)
  then show ?thesis
  proof cases
    case expired
    then show ?thesis using terminate_expired_moves [OF inv s] by blast
  next
    case running
    then show ?thesis using acquire_running_moves [OF inv s] by blast
  next
    case queued
    then show ?thesis using acquire_fresh_queued [OF inv s] by blast
  qed simp
qed

subsection \<open>Start and renew\<close>

lemma attempt_step_moves:
  assumes inv: "guest_inv db" and upd: "update_attempt sid aid p f db = Some db'"
    and a: "sv_attempts (view sid db) aid = Some a"
    and step: "attempt_written a (f a) \<Longrightarrow> view_step sid (view sid db)
      ((view sid db)\<lparr>sv_attempts := (sv_attempts (view sid db))(aid \<mapsto> f a)\<rparr>)"
  shows "scan_move sid db db'"
proof -
  obtain b where b: "sv_attempts (view sid db) aid = Some b" "guard_attempt_update b (f b)"
    "attempt_checks (f b)"
    "scan_effect sid (\<lambda>v. v\<lparr>sv_attempts := (sv_attempts v)(aid \<mapsto> f b)\<rparr>) db db'"
    using upd by (rule update_attempt_effect)
  have "b = a" using a b(1) by simp
  with b step scan_effect_quota [OF b(4)] guest_invD [OF inv] show ?thesis
    by (simp add: scan_move_def attempt_written_def)
qed

lemma joined_Some:
  "joined_attempt c db = Some (a, s) \<longleftrightarrow>
     sv_attempts (view (lc_guest_scan_id c) db) (lc_attempt_id c) = Some a \<and>
     valid_attempt (lc_attempt_id c) a \<and> sv_scan (view (lc_guest_scan_id c) db) = Some s"
  by (auto simp: joined_attempt_def load_attempt_Some view_scan Option.bind_eq_Some_conv)

lemma db_integer_Some: "db_integer z n = Some m \<Longrightarrow> m = n"
  by (auto simp: db_integer_def split: if_splits)

lemma start_moves:
  assumes inv: "guest_inv db" and st: "start_tx c now db = Some (res, db')"
  shows "db' = db \<or> scan_move (lc_guest_scan_id c) db db'"
proof (cases "db' = db")
  case False
  with st obtain a s l where j: "joined_attempt c db = Some (a, s)" "holds_lease c a s"
    and l: "at_lease_expires_at a = Some l" and t: "now < at_hard_deadline a" "now < l"
    and leased: "at_state a = A_LEASED"
    and upd: "update_attempt (lc_guest_scan_id c) (lc_attempt_id c)
      (\<lambda>a. at_fence a = lc_fence c \<and> at_lease_version a = lc_lease_version c \<and> at_state a = A_LEASED)
      (\<lambda>a. a\<lparr>at_state := A_RUNNING, at_started_at := Some now, at_updated_at := now\<rparr>) db = Some db'"
    by (auto simp: start_tx_def Option.bind_eq_Some_conv not_le
        split: option.splits if_splits)
  note v = j(1) [unfolded joined_Some] j(2) [unfolded holds_lease_def]
  have "scan_move (lc_guest_scan_id c) db db'"
    by (rule attempt_step_moves [OF inv upd], use v in blast)
      (rule started [where l = l and s = s and a = a], use v leased l t in simp_all)
  then show ?thesis ..
qed simp

lemma renew_moves:
  assumes inv: "guest_inv db" and rn: "renew_tx c now db = Some (res, db')"
  shows "db' = db \<or> scan_move (lc_guest_scan_id c) db db'"
proof (cases "db' = db")
  case False
  define next_expiry where "next_expiry = (\<lambda>a :: attempt_row. if now + GUEST_ATTEMPT_LEASE_SECONDS < at_hard_deadline a
    then now + GUEST_ATTEMPT_LEASE_SECONDS else at_hard_deadline a)"
  from False rn obtain a s l where j: "joined_attempt c db = Some (a, s)" "holds_lease c a s"
    and l: "at_lease_expires_at a = Some l" and t: "now < at_hard_deadline a" "now < l"
    and running: "at_state a = A_RUNNING" and longer: "l < next_expiry a"
    and upd: "update_attempt (lc_guest_scan_id c) (lc_attempt_id c)
      (\<lambda>a. at_fence a = lc_fence c \<and> at_lease_version a = lc_lease_version c \<and> at_state a = A_RUNNING)
      (\<lambda>b. b\<lparr>at_lease_version := lc_lease_version c + 1, at_lease_expires_at := Some (next_expiry a),
        at_updated_at := now\<rparr>) db = Some db'"
    unfolding next_expiry_def
    by (auto simp: renew_tx_def Let_def Option.bind_eq_Some_conv not_le
        split: option.splits if_splits)
  note v = j(1) [unfolded joined_Some] j(2) [unfolded holds_lease_def]
  have version: "at_lease_version a = lc_lease_version c" using v(2) db_integer_Some by metis
  have next_expiry: "next_expiry a = min (now + GUEST_ATTEMPT_LEASE_SECONDS) (at_hard_deadline a)"
    by (simp add: next_expiry_def)
  have "scan_move (lc_guest_scan_id c) db db'"
    by (rule attempt_step_moves [OF inv upd], use v in blast)
      (rule renewed [where l = l and s = s and a = a], use v running l t longer version next_expiry in simp_all)
  then show ?thesis ..
qed simp

subsection \<open>Cancel\<close>

lemma cancel_moves:
  assumes inv: "guest_inv db" and c: "cancel_tx sid now db = Some (res, db')"
  shows "db' = db \<or> scan_move sid db db'"
proof (cases "map_of (db_scans db) sid")
  case None
  with c show ?thesis by (simp add: cancel_tx_def)
next
  case (Some s)
  then have s: "sv_scan (view sid db) = Some s" by (simp add: view_scan)
  from c Some consider (same) "db' = db"
    | (again) "gs_job_state s = J_CANCELLED" "release_or_throw sid now RR_CANCELLED db = Some db'"
    | (live) db1 db2 where "gs_job_state s \<in> {J_QUEUED, J_RUNNING}"
        "cancel_current_attempt sid s now db = Some db1"
        "update_scan sid (\<lambda>s. gs_job_state s \<in> {J_QUEUED, J_RUNNING})
          (\<lambda>s. s\<lparr>gs_job_state := J_CANCELLED, gs_updated_at := now\<rparr>) db1 = Some db2"
        "release_or_throw sid now RR_CANCELLED db2 = Some db'"
    by (auto simp: cancel_tx_def Option.bind_eq_Some_conv split: if_splits)
  then show ?thesis
  proof cases
    case again
    obtain r where "sv_reservation (view sid db) = Some r" "rv_released_at r \<noteq> None"
      using view_invD(6) [OF guest_invD(2) [OF inv] s] again(1)
      by (auto simp: reservation_inv_def job_final_def)
    with again(2) show ?thesis by (simp add: release_again)
  next
    case live
    show ?thesis
    proof (cases "gs_job_state s = J_QUEUED")
      case True
      then have "gs_current_attempt_id s = None"
        using queued_view [OF guest_invD(2) [OF inv] s] by simp
      then have "db1 = db" using live(2) by (simp add: cancel_current_attempt_def)
      then show ?thesis
        using close_queued [OF inv s True _ live(3) [unfolded \<open>db1 = db\<close>] live(4)] by simp
    next
      case False
      then have run: "gs_job_state s = J_RUNNING" using live(1) by simp
      obtain aid where aid: "gs_current_attempt_id s = Some aid"
        by (rule running_view [OF guest_invD(2) [OF inv] s run])
      with live(2) obtain a where load: "load_attempt sid aid db = Some a"
        by (auto simp: cancel_current_attempt_def Option.bind_eq_Some_conv)
      note a = current_attempt [OF inv s run aid load]
      obtain st where "finish_attempt sid aid {at_state a} st now db = Some db1"
        "st \<in> {A_TIMED_OUT, A_SUPERSEDED, A_CANCELLED}"
        using live(2) a(4) by (auto simp: cancel_current_attempt_def aid load split: if_splits)
      with close_running [OF inv s run aid a(1) _ _ _ _ live(3,4)] show ?thesis by simp
    qed
  qed simp
qed

subsection \<open>Result commit\<close>

lemma locked_Some:
  "lock_current_result_state sid db = Some (s, a) \<longleftrightarrow>
     sv_scan (view sid db) = Some s \<and>
     (\<exists>aid. gs_current_attempt_id s = Some aid \<and> sv_attempts (view sid db) aid = Some a) \<and>
     at_fence a = gs_current_fence s"
  by (auto simp: lock_current_result_state_def view_scan view_attempt Option.bind_eq_Some_conv
      guard_simps split: option.splits if_splits)

lemma map_locked_Some:
  assumes "map_locked_state t (s, a) = Some st"
  shows "rc_job_state (lk_snapshot st) = gs_job_state s"
    "gs_current_attempt_id s = Some (rc_current_attempt_id (lk_snapshot st))"
    "rc_current_fence (lk_snapshot st) = gs_current_fence s"
    "rc_attempt_state (lk_snapshot st) = at_state a"
    "at_lease_expires_at a = Some (rc_lease_expires_at (lk_snapshot st))"
    "rc_hard_deadline (lk_snapshot st) = at_hard_deadline a"
    "lk_canonical_target st = gs_canonical_target s" "lk_now st = t" "0 < t"
    "map_accepted s = Some (rc_accepted_result (lk_snapshot st))"
  using assms
  by (auto simp: map_locked_state_def safe_positive_integer_def Option.bind_eq_Some_conv
      split: if_splits)

lemma store_result_moves:
  assumes inv: "guest_inv db" and s: "sv_scan (view sid db) = Some s" "gs_job_state s = J_RUNNING"
    and a: "gs_current_attempt_id s = Some (ri_attempt_id sub)"
      "sv_attempts (view sid db) (ri_attempt_id sub) = Some a" "at_state a = A_RUNNING"
      "at_fence a = gs_current_fence s" "ri_fence sub = gs_current_fence s"
    and host: "get_prop projection ''canonical_host'' = JStr (gs_canonical_target s)"
    and st: "store_result sid sub projection now db = Some db'"
  shows "scan_move sid db db'"
proof -
  define aid where "aid = ri_attempt_id sub"
  define digest where "digest = digest_bytes ''sha256:'' (ri_payload_digest sub)"
  from st obtain db1 db2 db3 where 1: "succeed_attempt sid sub now db = Some db1"
    and 2: "succeed_scan sid sub digest now db1 = Some db2"
    and 3: "insert_result sid \<lparr>rr_attempt_id = aid, rr_fence = ri_fence sub, rr_digest = digest,
      rr_completed_at = now, rr_projection = projection\<rparr> db2 = Some db3"
    and 4: "release_or_throw sid now RR_TERMINAL_RESULT db3 = Some db'"
    by (auto simp: store_result_def Let_def digest_def aid_def Option.bind_eq_Some_conv)
  obtain b where b: "sv_attempts (view sid db) aid = Some b"
    "at_fence b = ri_fence sub \<and> at_state b = A_RUNNING \<and>
       (case at_lease_expires_at b of None \<Rightarrow> False | Some l \<Rightarrow> l > now) \<and> at_hard_deadline b > now"
    "guard_attempt_update b (finished b A_SUCCEEDED now)"
    "attempt_checks (finished b A_SUCCEEDED now)"
    "scan_effect sid (\<lambda>v. v\<lparr>sv_attempts := (sv_attempts v)(aid \<mapsto> finished b A_SUCCEEDED now)\<rparr>)
      db db1"
    using 1 unfolding succeed_attempt_def aid_def finished_def by (rule update_attempt_effect)
  have b_eq: "b = a" using a(2) b(1) by (simp add: aid_def)
  from b(2) obtain l where l: "at_lease_expires_at a = Some l" "now < min l (at_hard_deadline a)"
    by (auto simp: b_eq split: option.splits)
  note e1 = scan_effect_quota [OF b(5)]
  obtain s0 where s0: "sv_scan (view sid db1) = Some s0"
    "guard_scan_update s0 (succeeded_scan s0 aid (ri_fence sub) digest now)"
    "scan_checks (succeeded_scan s0 aid (ri_fence sub) digest now)"
    "scan_effect sid (\<lambda>v. v\<lparr>sv_scan := Some (succeeded_scan s0 aid (ri_fence sub) digest now)\<rparr>) db1 db2"
    using 2 unfolding succeed_scan_def aid_def succeeded_scan_def by (rule update_scan_effect)
  have s0_eq: "s0 = s" using s0(1) s(1) e1(4) by simp
  note e2 = scan_effect_quota [OF s0(4)]
  note i3 = insert_result_effect [OF 3]
  note e3 = scan_effect_quota [OF i3(4)]
  obtain r where r: "sv_reservation (view sid db) = Some r" "rv_released_at r = None"
    using reservation_inv_live [OF guest_invD(2) [OF inv] s(1)] s(2) by auto
  have r3: "sv_reservation (view sid db3) = Some r" using r(1) e1(4) e2(4) e3(4) by simp
  note l4 = release_live [OF 4 r3 r(2) e3(3) [OF e2(3) [OF e1(3) [OF guest_invD(1) [OF inv]]]]
      e3(1) [OF e2(1) [OF e1(1) [OF guest_invD(3) [OF inv]]]]]
  have fence: "ri_fence sub = at_fence a" using a(4,5) by simp
  have v: "view sid db' = \<lparr>sv_scan = Some (succeeded_scan s aid (at_fence a) digest now),
      sv_attempts = (sv_attempts (view sid db))(aid \<mapsto> finished a A_SUCCEEDED now),
      sv_result = Some \<lparr>rr_attempt_id = aid, rr_fence = at_fence a, rr_digest = digest,
        rr_completed_at = now, rr_projection = projection\<rparr>,
      sv_reservation = Some (released r now RR_TERMINAL_RESULT)\<rparr>"
    using l4(1) e3(4) e2(4) e1(4) by (simp add: s0_eq b_eq fence)
  have "sv_result (view sid db) = None" by (rule running_view [OF guest_invD(2) [OF inv] s])
  then have "view_step sid (view sid db) (view sid db')"
    unfolding v
    using result_stored [OF s, of aid a l now digest _ projection r] a b(3,4) l r s0(2,3) l4(3) host
    by (simp add: aid_def b_eq s0_eq fence attempt_written_def scan_written_def)
  moreover have "\<forall>k. k \<noteq> sid \<longrightarrow> view k db' = view k db" using l4(2) e3(5) e2(5) e1(5) by simp
  moreover have "windows_ok db'"
    using e3(2) [OF e2(2) [OF e1(2) [OF guest_invD(4) [OF inv]]]] l4(6) by (simp add: windows_ok_def)
  ultimately show ?thesis using l4(4,5) by (simp add: scan_move_def)
qed

lemma persist_result_moves:
  assumes inv: "guest_inv db" and p: "persist_result_tx sid sub projection t db = Some (res, db')"
  shows "db' = db \<or> scan_move sid db db'"
proof (cases "db' = db")
  case False
  from p False obtain s a st where lock: "lock_current_result_state sid db = Some (s, a)"
    and map: "map_locked_state t (s, a) = Some st"
    and decide: "decide_result_commit (lk_snapshot st) sub (lk_now st) = PRIMARY_COMMIT J_SUCCEEDED A_SUCCEEDED"
    and host: "get_prop projection ''canonical_host'' = JStr (lk_canonical_target st)"
    and store: "store_result sid sub projection (lk_now st) db = Some db'"
    by (auto simp: persist_result_tx_def Option.bind_eq_Some_conv primary_commit_iff
        split: option.splits commit_decision.splits if_splits)
  note m = map_locked_Some [OF map] and k = lock [unfolded locked_Some]
  from decide [unfolded primary_commit_iff] m k
  have "scan_move sid db db'"
    by (intro store_result_moves [OF inv _ _ _ _ _ _ _ _ store]) (auto simp: host)
  then show ?thesis ..
qed simp

end
