(* ===== verification/Guest_Safety.thy ===== *)
theory Guest_Safety
  imports Guest_Refinement
begin

section \<open>Every handler keeps the invariant of the guest database\<close>

text \<open>
  The remaining handlers (creation, retention, rejection events, revocations and
  the service state) as moves of the protocol, the step relation of the whole
  service \<open>guest_step\<close>, and the interpretation of the locale of safety
  arguments on it.  The facts that hold in every reachable database follow.
\<close>

subsection \<open>Sequences of moves\<close>

text \<open>Changes no scan sees: counter windows, events, revocations, the service state.\<close>

definition quiet :: "guest_db \<Rightarrow> guest_db \<Rightarrow> bool" where
  "quiet db db' \<longleftrightarrow>
     (\<forall>k. view k db' = view k db) \<and> (tables_distinct db \<longrightarrow> tables_distinct db') \<and>
     (active_ok db \<longrightarrow> active_ok db') \<and> (windows_ok db \<longrightarrow> windows_ok db')"

inductive moves :: "guest_db \<Rightarrow> guest_db \<Rightarrow> bool" where
  none: "moves db db"
| moved: "moves db db1 \<Longrightarrow> scan_move sid db1 db2 \<Longrightarrow> keys_unique db2 \<Longrightarrow> moves db db2"
| unseen: "moves db db1 \<Longrightarrow> quiet db1 db2 \<Longrightarrow> moves db db2"

lemma quiet_inv: "guest_inv db \<Longrightarrow> quiet db db' \<Longrightarrow> guest_inv db'"
  by (simp add: guest_inv_def quiet_def keys_unique_def)

lemma moves_inv: "moves db db' \<Longrightarrow> guest_inv db \<Longrightarrow> guest_inv db'"
  by (induction rule: moves.induct) (auto intro: scan_move_inv quiet_inv)

lemma moves_trans: "moves a b \<Longrightarrow> moves b c \<Longrightarrow> moves a c"
  by (rotate_tac, induction rule: moves.induct) (auto intro: moves.intros)

lemma moves_one: "scan_move sid db db' \<Longrightarrow> keys_unique db' \<Longrightarrow> moves db db'"
  by (rule moved [OF none])

lemma moves_existing:
  "guest_inv db \<Longrightarrow> scan_move sid db db' \<Longrightarrow> sv_scan (view sid db) \<noteq> None \<Longrightarrow> moves db db'"
  by (auto intro: moves_one scan_move_keys)

lemma moves_quiet: "quiet db db' \<Longrightarrow> moves db db'"
  by (rule unseen [OF none])

text \<open>Handlers on an existing scan move only when the scan exists.\<close>

lemma moves_handler:
  assumes "guest_inv db" "db' = db \<or> scan_move sid db db'"
    and "db' \<noteq> db \<Longrightarrow> sv_scan (view sid db) \<noteq> None"
  shows "moves db db'"
  using assms moves_existing none by metis

subsection \<open>Creating a scan\<close>

lemma keys_unique_insert:
  assumes keys: "keys_unique db" and new: "sv_scan (view sid db') = Some s"
    and other: "\<forall>k. k \<noteq> sid \<longrightarrow> view k db' = view k db"
    and fresh: "\<forall>k r. sv_scan (view k db) = Some r \<longrightarrow>
       gs_session_scope r \<noteq> gs_session_scope s \<or> gs_idempotency_key r \<noteq> gs_idempotency_key s"
  shows "keys_unique db'"
  unfolding keys_unique_def
proof (intro allI impI)
  fix i j t u
  assume t: "sv_scan (view i db') = Some t" and u: "sv_scan (view j db') = Some u"
    and eq: "gs_session_scope t = gs_session_scope u" "gs_idempotency_key t = gs_idempotency_key u"
  consider "i = sid" "j = sid" | "i = sid" "j \<noteq> sid" | "i \<noteq> sid" "j = sid" | "i \<noteq> sid" "j \<noteq> sid"
    by blast
  then show "i = j"
  proof cases
    case 2
    with t u eq new other fresh show ?thesis by fastforce
  next
    case 3
    with t u eq new other fresh show ?thesis by fastforce
  next
    case 4
    with t u eq other keys show ?thesis unfolding keys_unique_def by metis
  qed simp
qed

lemma insert_and_reserve_cases:
  assumes "insert_and_reserve c q action sid material db0 db = Some (res, db')"
  obtains (denied) "db' = db0" "\<And>act i token expires ttl. res \<noteq> PERSISTED act i token expires ttl"
  | (admitted) db1 x y z where
      "res = PERSISTED action sid (fst material) (pq_now q + GUEST_IDEMPOTENCY_WINDOW_SECONDS)
         GUEST_IDEMPOTENCY_WINDOW_SECONDS"
      "insert_scan sid (new_scan_row c q (snd material)) db = Some db1"
      "reserve_guest_abuse_counters sid (pq_session_scope q) (pq_network_digests q) (pq_now q) db1
         = Some (ALLOW_NEW_SCAN x y z, db')"
proof -
  from assms obtain db1 decision db2 where
    ins: "insert_scan sid (new_scan_row c q (snd material)) db = Some db1"
    and res: "reserve_guest_abuse_counters sid (pq_session_scope q) (pq_network_digests q) (pq_now q) db1
      = Some (decision, db2)"
    and rest: "(case decision of
        INVALID_ABUSE_CONTEXT \<Rightarrow> Some (PERSIST_FAILED PF_PERSISTENCE_UNAVAILABLE, db0)
      | ABUSE_DENIED code wait \<Rightarrow> Some (ABUSE_LIMIT_EXCEEDED code wait, db0)
      | ALLOW_NEW_SCAN _ _ _ \<Rightarrow>
          do {
            require (deferred_keys sid db2);
            Some (PERSISTED action sid (fst material)
              (pq_now q + GUEST_IDEMPOTENCY_WINDOW_SECONDS) GUEST_IDEMPOTENCY_WINDOW_SECONDS, db2)
          }) = Some (res, db')"
    by (auto simp: insert_and_reserve_def Option.bind_eq_Some_conv)
  show ?thesis
  proof (cases decision)
    case (ALLOW_NEW_SCAN x y z)
    with rest have "db' = db2"
      "res = PERSISTED action sid (fst material) (pq_now q + GUEST_IDEMPOTENCY_WINDOW_SECONDS)
         GUEST_IDEMPOTENCY_WINDOW_SECONDS"
      by (auto simp: Option.bind_eq_Some_conv)
    with admitted [OF _ ins] res ALLOW_NEW_SCAN show ?thesis by simp
  qed (use rest denied in auto)
qed

lemma insert_and_reserve_moves:
  assumes inv: "guest_inv db"
    and run: "insert_and_reserve c q action sid material db0 db =
      Some (PERSISTED act i token expires ttl, db')"
  shows "scan_move sid db db'" "keys_unique db'" "i = sid" "act = action" "token = fst material"
    "sv_scan (view sid db') = Some (new_scan_row c q (snd material))"
    "sv_scan (view sid db) = None"
    "expires = pq_now q + GUEST_IDEMPOTENCY_WINDOW_SECONDS" "ttl = GUEST_IDEMPOTENCY_WINDOW_SECONDS"
proof -
  define s where "s = new_scan_row c q (snd material)"
  from run have "act = action \<and> i = sid \<and> token = fst material \<and>
      expires = pq_now q + GUEST_IDEMPOTENCY_WINDOW_SECONDS \<and> ttl = GUEST_IDEMPOTENCY_WINDOW_SECONDS \<and>
      (\<exists>db1 x y z. insert_scan sid s db = Some db1 \<and>
        reserve_guest_abuse_counters sid (pq_session_scope q) (pq_network_digests q) (pq_now q) db1
          = Some (ALLOW_NEW_SCAN x y z, db'))"
    unfolding s_def by (rule insert_and_reserve_cases) blast+
  then obtain db1 x y z where ins: "insert_scan sid s db = Some db1"
    and res: "reserve_guest_abuse_counters sid (pq_session_scope q) (pq_network_digests q) (pq_now q) db1
      = Some (ALLOW_NEW_SCAN x y z, db')"
    and rest: "i = sid" "act = action" "token = fst material"
      "expires = pq_now q + GUEST_IDEMPOTENCY_WINDOW_SECONDS" "ttl = GUEST_IDEMPOTENCY_WINDOW_SECONDS"
    by blast
  note e = insert_scan_effect [OF ins]
  note q = scan_effect_quota [OF e(6)]
  have none: "view sid db = no_scan"
    using guest_invD(2) [OF inv, of sid] e(4) by (simp add: view_inv_def)
  obtain r where r: "view sid db' = (view sid db1)\<lparr>sv_reservation := Some r\<rparr>"
    "\<forall>k. k \<noteq> sid \<longrightarrow> view k db' = view k db1"
    "rv_session_scope r = digest_bytes ''sha256:'' (pq_session_scope q)" "rv_reserved_at r = pq_now q"
    "rv_deletion_deadline r = pq_now q + SCAN_RETENTION_SECONDS" "rv_released_at r = None"
    "reservation_checks r" "tables_distinct db'" "active_ok db'" "windows_ok db'"
    by (rule reserve_allowed [OF res q(3) [OF guest_invD(1) [OF inv]]
        q(1) [OF guest_invD(3) [OF inv]] q(2) [OF guest_invD(4) [OF inv]]])
  have opened: "opened_reservation s r"
    by (simp add: opened_reservation_def s_def new_scan_row_def r(3-5))
  have v: "view sid db' = \<lparr>sv_scan = Some s, sv_attempts = Map.empty, sv_result = None,
      sv_reservation = Some r\<rparr>"
    by (simp add: r(1) q(4) none no_scan_def)
  have others: "\<forall>k. k \<noteq> sid \<longrightarrow> view k db' = view k db" using r(2) q(5) by simp
  have "view_step sid (view sid db) (view sid db')"
    unfolding v none by (rule scan_created [OF e(1-3) opened r(7,6)])
  then show "scan_move sid db db'" by (simp add: scan_move_def others r(8-10))
  show "keys_unique db'"
    by (rule keys_unique_insert [OF guest_invD(5) [OF inv] _ others e(5)]) (simp add: v)
  show "sv_scan (view sid db') = Some (new_scan_row c q (snd material))" by (simp add: v s_def)
  show "sv_scan (view sid db) = None" by (rule e(4))
  show "i = sid" "act = action" "token = fst material"
    "expires = pq_now q + GUEST_IDEMPOTENCY_WINDOW_SECONDS" "ttl = GUEST_IDEMPOTENCY_WINDOW_SECONDS"
    by (rule rest)+
qed

text \<open>Without an admitted scan nothing is written.\<close>

lemma insert_and_reserve_rollback:
  assumes "insert_and_reserve c q action sid material db0 db = Some (res, db')"
    and "\<And>act i token expires ttl. res \<noteq> PERSISTED act i token expires ttl"
  shows "db' = db0"
  using assms(1) by (rule insert_and_reserve_cases) (use assms(2) in blast)+

lemma replace_expired_moves:
  assumes inv: "guest_inv db"
    and rows: "rows = lookup_scans scope key db"
    and run: "replace_expired rows now db = Some db1"
  obtains old s where "rows = [(old, s)]" "sv_scan (view old db) = Some s"
    "scan_move old db db1" "keys_unique db1" "view old db1 = no_scan"
proof -
  from run obtain old s dbr where r: "rows = [(old, s)]"
    and rel: "release_or_throw old now RR_EXPIRED_REPLACEMENT db = Some dbr"
    and del: "delete_scan old dbr = Some db1"
    by (auto simp: replace_expired_def Option.bind_eq_Some_conv split: list.splits)
  have "(old, s) \<in> set (lookup_scans scope key db)"
    unfolding rows [symmetric] r by simp
  then have "(old, s) \<in> set (db_scans db)" by (auto simp: lookup_scans_def rows_where_set)
  then have s: "sv_scan (view old db) = Some s"
    using guest_invD(1) [OF inv] by (simp add: view_scan tables_distinct_def get_set)
  have gone: "scan_move old db db1 \<and> view old db1 = no_scan"
    if "tables_distinct dbr" "active_ok dbr" "windows_ok dbr"
      "\<forall>k. k \<noteq> old \<longrightarrow> view k dbr = view k db"
      "\<exists>r. sv_reservation (view old dbr) = Some r \<and> rv_released_at r \<noteq> None"
  proof -
    note d = delete_scan_effect [OF del that(1)] and rv = that(5)
    obtain r where r: "map_of (db_reservations dbr) old = Some r" "rv_released_at r \<noteq> None"
      using rv by (auto simp: view_reservation)
    have "live_count (db_reservations db1) k = live_count (db_reservations dbr) k" for k
      using that(1) r by (simp add: live_count_def d(7) count_delete_key tables_distinct_def)
    then have "active_ok db1" using that(2) d(3) by (simp add: active_ok_def)
    moreover have "windows_ok db1" using that(3) d(4) by (simp add: windows_ok_def)
    ultimately show ?thesis
      using d(1,2,6) that(4) scan_deleted [OF s] by (simp add: scan_move_def)
  qed
  obtain r where rv: "sv_reservation (view old db) = Some r"
    using view_invD(6) [OF guest_invD(2) [OF inv] s] by (auto simp: reservation_inv_def)
  have move: "scan_move old db db1 \<and> view old db1 = no_scan"
  proof (cases "rv_released_at r = None")
    case True
    note l = release_live [OF rel rv True guest_invD(1,3) [OF inv]]
    show ?thesis
      by (rule gone [OF l(4,5) _ l(2)])
        (use l(6) guest_invD(4) [OF inv] in \<open>simp_all add: windows_ok_def l(1) released_def\<close>)
  next
    case False
    then have "dbr = db" using rel release_again [OF rv False] by simp
    then show ?thesis using gone guest_invD [OF inv] rv False by simp
  qed
  then show ?thesis
    using that [OF r s] scan_move_keys [OF inv _ s] move by blast
qed

subsection \<open>Retention\<close>

text \<open>Under the invariant no counter of a live reservation is missing.\<close>

lemma retention_decrement_enough:
  assumes "0 < active_count (db_active db) (d, g)" "tables_distinct db"
  obtains db' where "retention_decrement d g now db = (True, db')" "views_same db db'"
    "tables_distinct db'" "db_windows db' = db_windows db"
    "\<And>k. active_count (db_active db') k = active_count (db_active db) k - of_bool (k = (d, g))"
proof -
  obtain db' where run: "retention_decrement d g now db = (True, db')"
    using assms(1)
    by (cases "ac_count (the (map_of (db_active db) (d, g))) = 1")
      (auto simp: retention_decrement_def active_count_def split: option.splits)
  show ?thesis
    by (rule that [OF run])
      (use run assms(2) in \<open>auto simp: retention_decrement_def views_same_def tables_distinct_def
        view_def active_count_def get_delete split: option.splits if_splits\<close>)
qed

lemma release_due_effect:
  assumes ok: "tables_distinct db" "active_ok db"
    and r: "sv_reservation (view sid db) = Some r" "reservation_checks r"
  obtains db' where
    "release_due_reservation sid now db =
      (\<lparr>dr_decrements = (if rv_released_at r = None then 2 else 0), dr_inconsistencies = 0\<rparr>, db')"
    "views_same db db'" "tables_distinct db'" "db_windows db' = db_windows db"
    "\<And>k. active_count (db_active db') k = active_count (db_active db) k
       - of_bool (rv_released_at r = None \<and> reservation_key (fst k) r = snd k)"
proof (cases "rv_released_at r = None")
  case False
  then show ?thesis
    using r(1) ok
    by (intro that [of db]) (auto simp: release_due_reservation_def view_reservation views_same_refl)
next
  case True
  have r': "map_of (db_reservations db) sid = Some r" using r(1) by (simp add: view_reservation)
  have pos: "0 < active_count (db_active db) (d, reservation_key d r)" for d
  proof -
    have "1 \<le> live_count (db_reservations db) (d, reservation_key d r)"
      unfolding live_count_def by (rule count_pos [OF r']) (simp add: True)
    then show ?thesis using active_okD(1) [OF ok(2)] by simp
  qed
  obtain db1 where 1: "retention_decrement SESSION_ACTIVE (rv_session_scope r) now db = (True, db1)"
    "views_same db db1" "tables_distinct db1" "db_windows db1 = db_windows db"
    "\<And>k. active_count (db_active db1) k
      = active_count (db_active db) k - of_bool (k = (SESSION_ACTIVE, rv_session_scope r))"
    by (rule retention_decrement_enough [of db SESSION_ACTIVE "rv_session_scope r" now])
      (use pos [of SESSION_ACTIVE] ok(1) in \<open>simp_all add: reservation_key_def\<close>)
  obtain db2 where 2: "retention_decrement NETWORK_ACTIVE (rv_network_digest r) now db1 = (True, db2)"
    "views_same db1 db2" "tables_distinct db2" "db_windows db2 = db_windows db1"
    "\<And>k. active_count (db_active db2) k
      = active_count (db_active db1) k - of_bool (k = (NETWORK_ACTIVE, rv_network_digest r))"
    by (rule retention_decrement_enough [of db1 NETWORK_ACTIVE "rv_network_digest r" now])
      (use pos [of NETWORK_ACTIVE] 1(3,5) in \<open>simp_all add: reservation_key_def\<close>)
  show ?thesis
  proof (rule that [of db2])
    show "release_due_reservation sid now db =
      (\<lparr>dr_decrements = (if rv_released_at r = None then 2 else 0), dr_inconsistencies = 0\<rparr>, db2)"
      using r(2) by (simp add: release_due_reservation_def r' True Let_def 1(1) 2(1)
          count_outcome_def reservation_checks_def)
    show "active_count (db_active db2) k = active_count (db_active db) k
       - of_bool (rv_released_at r = None \<and> reservation_key (fst k) r = snd k)" for k
      using 2(5) 1(5) reservation_key_of [of k r] True by simp
  qed (use 1(4) 2(3,4) views_same_trans [OF 1(2) 2(2)] in simp_all)
qed

text \<open>One due scan: its counters are released and all its rows go.\<close>

lemma delete_one_moves:
  assumes inv: "guest_inv db" and s: "sv_scan (view sid db) = Some s"
    and due: "gs_deletion_deadline s \<le> now"
  obtains rel db1 db2 where "release_due_reservation sid now db = (rel, db1)"
    "delete_due_scan sid now db1 = Some db2" "dr_inconsistencies rel = 0"
    "scan_move sid db db2" "view sid db2 = no_scan" "keys_unique db2"
    "dr_decrements rel = (if job_final (gs_job_state s) then 0 else 2)"
proof -
  obtain r where r: "sv_reservation (view sid db) = Some r" "reservation_checks r"
    "rv_released_at r \<noteq> None \<longleftrightarrow> job_final (gs_job_state s)"
    using view_invD(6) [OF guest_invD(2) [OF inv] s] by (auto simp: reservation_inv_def)
  obtain db1 where 1: "release_due_reservation sid now db =
      (\<lparr>dr_decrements = (if rv_released_at r = None then 2 else 0), dr_inconsistencies = 0\<rparr>, db1)"
    "views_same db db1" "tables_distinct db1" "db_windows db1 = db_windows db"
    "\<And>k. active_count (db_active db1) k = active_count (db_active db) k
       - of_bool (rv_released_at r = None \<and> reservation_key (fst k) r = snd k)"
    using release_due_effect [OF guest_invD(1,3) [OF inv] r(1,2)] by blast
  have s1: "map_of (db_scans db1) sid = Some s" and r1: "map_of (db_reservations db1) sid = Some r"
    and same: "view k db1 = view k db" "db_reservations db1 = db_reservations db" for k
    using s r(1) 1(2) by (simp_all add: views_same_def view_scan [symmetric] view_reservation [symmetric])
  obtain db2 where del: "delete_scan sid db1 = Some db2"
    using s1 by (simp add: delete_scan_def)
  then have due': "delete_due_scan sid now db1 = Some db2"
    using s1 due by (simp add: delete_due_scan_def)
  note d = delete_scan_effect [OF del 1(3)]
  have live: "live_count (db_reservations db2) k = live_count (db_reservations db) k
      - of_bool (rv_released_at r = None \<and> reservation_key (fst k) r = snd k)" for k
    using 1(3) r1 by (simp add: live_count_def d(7) count_delete_key tables_distinct_def same(2))
  have "active_ok db2"
    using active_okD [OF guest_invD(3) [OF inv]]
    by (intro active_okI) (simp_all add: live d(3) 1(5) order_trans [OF _ active_okD(2) [OF guest_invD(3) [OF inv]]])
  moreover have "windows_ok db2"
    using guest_invD(4) [OF inv] by (simp add: windows_ok_def d(4) 1(4))
  ultimately have move: "scan_move sid db db2"
    using d(1,2,6) same scan_deleted [OF s] by (simp add: scan_move_def)
  show ?thesis
    by (rule that [OF 1(1) due' _ move d(1) scan_move_keys [OF inv move s]]) (use r(3) in auto)
qed

text \<open>The whole batch of due scans.\<close>

lemma delete_each_moves:
  assumes "guest_inv db" "distinct sids"
    and "\<And>sid. sid \<in> set sids \<Longrightarrow>
      \<exists>s. sv_scan (view sid db) = Some s \<and> gs_deletion_deadline s \<le> now"
  shows "\<exists>acc' db'. delete_each now sids acc db = Some (acc', db') \<and> moves db db' \<and>
    dr_inconsistencies acc' = dr_inconsistencies acc \<and>
    (\<forall>k. view k db' = (if k \<in> set sids then no_scan else view k db))"
  using assms
proof (induction sids arbitrary: acc db)
  case (Cons sid sids)
  obtain s where s: "sv_scan (view sid db) = Some s" "gs_deletion_deadline s \<le> now"
    using Cons.prems(3) by auto
  obtain rel db1 db2 where d: "release_due_reservation sid now db = (rel, db1)"
    "delete_due_scan sid now db1 = Some db2" "dr_inconsistencies rel = 0"
    "scan_move sid db db2" "view sid db2 = no_scan" "keys_unique db2"
    using delete_one_moves [OF Cons.prems(1) s] by blast
  have inv: "guest_inv db2" by (rule scan_move_inv [OF Cons.prems(1) d(4,6)])
  have other: "\<And>k. k \<noteq> sid \<Longrightarrow> view k db2 = view k db" using d(4) by (simp add: scan_move_def)
  have "\<exists>s. sv_scan (view k db2) = Some s \<and> gs_deletion_deadline s \<le> now" if "k \<in> set sids" for k
    using Cons.prems(2,3) that other [of k] by (cases "k = sid") auto
  with Cons.IH [OF inv, of "\<lparr>dr_decrements = dr_decrements acc + dr_decrements rel,
      dr_inconsistencies = dr_inconsistencies acc + dr_inconsistencies rel\<rparr>"] Cons.prems(2)
  obtain acc' db' where rest: "delete_each now sids
      \<lparr>dr_decrements = dr_decrements acc + dr_decrements rel,
       dr_inconsistencies = dr_inconsistencies acc + dr_inconsistencies rel\<rparr> db2 = Some (acc', db')"
    "moves db2 db'" "dr_inconsistencies acc' = dr_inconsistencies acc"
    "\<And>k. view k db' = (if k \<in> set sids then no_scan else view k db2)"
    using d(3) by auto
  have "moves db db'" by (rule moves_trans [OF moves_one [OF d(4,6)] rest(2)])
  moreover have "view k db' = (if k \<in> set (sid # sids) then no_scan else view k db)" for k
    using rest(4) [of k] other [of k] d(5) by auto
  ultimately show ?case using rest(1,3) by (simp add: d(1,2) Let_def)
qed (simp add: none)

lemma due_scans_due:
  assumes "guest_inv db"
  shows "distinct (due_scans now n db)"
    "sid \<in> set (due_scans now n db) \<Longrightarrow>
     \<exists>s. sv_scan (view sid db) = Some s \<and> gs_deletion_deadline s \<le> now"
proof -
  let ?due = "rows_where (\<lambda>_ s. gs_deletion_deadline s \<le> now) (db_scans db)"
  let ?key = "\<lambda>(sid, s). (gs_deletion_deadline s, sid)"
  have keys: "keys_distinct (db_scans db)"
    using guest_invD(1) [OF assms] by (simp add: tables_distinct_def)
  have "distinct (map fst (sort_key ?key ?due))"
    using keys_distinct_rows [OF keys, of "\<lambda>_ s. gs_deletion_deadline s \<le> now"]
    by (simp add: keys_distinct_def distinct_map)
  then show "distinct (due_scans now n db)"
    by (simp add: due_scans_def flip: take_map)
  show "\<exists>s. sv_scan (view sid db) = Some s \<and> gs_deletion_deadline s \<le> now"
    if "sid \<in> set (due_scans now n db)"
  proof -
    have "sid \<in> fst ` set ?due" using that by (auto simp: due_scans_def dest!: in_set_takeD)
    then show ?thesis using keys by (auto simp: rows_where_set view_scan get_set)
  qed
qed

lemma quiet_windows:
  assumes "tables_distinct db"
  shows "quiet db (db\<lparr>db_windows := delete_where p (db_windows db)\<rparr>)"
  using assms
  by (auto simp: quiet_def view_def tables_distinct_def active_ok_def windows_ok_def get_delete
      split: option.splits if_splits)

lemma run_batch_moves:
  assumes inv: "guest_inv db"
  obtains result db' where "run_batch_tx n now db = Some (result, db')" "moves db db'"
    "rb_inconsistencies result = 0" "\<not> rb_alert_required result"
    "rb_scans_deleted result = int (length (due_scans now n db))"
    "\<And>k. view k db' = (if k \<in> set (due_scans now n db) then no_scan else view k db)"
proof -
  obtain acc db1 where each:
    "delete_each now (due_scans now n db) \<lparr>dr_decrements = 0, dr_inconsistencies = 0\<rparr> db = Some (acc, db1)"
    "moves db db1" "dr_inconsistencies acc = 0"
    "\<And>k. view k db1 = (if k \<in> set (due_scans now n db) then no_scan else view k db)"
    using delete_each_moves [OF inv due_scans_due(1) [OF inv, of now n]
        due_scans_due(2) [OF inv, of _ now n], where acc = "\<lparr>dr_decrements = 0, dr_inconsistencies = 0\<rparr>"] by auto
  have "quiet db1 (db1\<lparr>db_windows := delete_where (\<lambda>k _. k \<in> set (stale_windows now n db1)) (db_windows db1)\<rparr>)"
    by (rule quiet_windows [OF guest_invD(1) [OF moves_inv [OF each(2) inv]]])
  then have "moves db (db1\<lparr>db_windows := delete_where (\<lambda>k _. k \<in> set (stale_windows now n db1)) (db_windows db1)\<rparr>)"
    by (rule unseen [OF each(2)])
  then show ?thesis
    using that each(3,4) by (simp add: run_batch_tx_def Let_def each(1) view_def)
qed

subsection \<open>Handlers no scan sees\<close>

lemma record_rejection_quiet:
  "record_rejection_tx k now db = Some (res, db') \<Longrightarrow> quiet db db'"
  by (auto simp: record_rejection_tx_def Let_def quiet_def view_def tables_distinct_def
      active_ok_def windows_ok_def split: option.splits if_splits)

lemma revoke_quiet: "revoke_tx scope now db = Some (res, db') \<Longrightarrow> quiet db db'"
  by (auto simp: revoke_tx_def Let_def quiet_def view_def tables_distinct_def
      active_ok_def windows_ok_def split: option.splits if_splits)

lemma prune_quiet: "prune_expired d_ok c_ok v now later db = (res, db') \<Longrightarrow> quiet db db'"
  by (auto simp: prune_expired_def Let_def quiet_def view_def tables_distinct_def
      active_ok_def windows_ok_def split: option.splits if_splits)

subsection \<open>The service\<close>

text \<open>
  One rule per handler, each with arbitrary requests, clocks, generated
  identifiers and outcomes of the connection pool.  Transactions are
  serializable, so their commits are one after another.  The service state is
  a row that only an operator changes.
\<close>

inductive guest_step :: "guest_db \<Rightarrow> guest_db \<Rightarrow> bool" where
  acquiring: "acquire tries v clock candidate db = (ra, db') \<Longrightarrow> guest_step db db'"
| starting: "start_attempt tries v clock db = (rs, db') \<Longrightarrow> guest_step db db'"
| renewing: "renew_lease tries v clock db = (rr, db') \<Longrightarrow> guest_step db db'"
| cancelling: "cancel tries v clock db = (rc, db') \<Longrightarrow> guest_step db db'"
| committing: "persist_result tries sid sub projection now db = (rp, db') \<Longrightarrow> guest_step db db'"
| creating: "create_or_replay to_ascii tries c v db = (ri, db') \<Longrightarrow> guest_step db db'"
| retaining: "run_batch one_try v clock db = (rt, db') \<Longrightarrow> guest_step db db'"
| rejecting: "record_rejection tries v now db = (rj, db') \<Longrightarrow> guest_step db db'"
| revoking: "revoke tries v now db = (rv, db') \<Longrightarrow> guest_step db db'"
| pruning: "prune_expired d_ok c_ok v now later db = (rn, db') \<Longrightarrow> guest_step db db'"
| controlling: "guest_step db (db\<lparr>db_service_state := st\<rparr>)"

text \<open>What a step may do to one scan.\<close>

definition scan_change :: "string \<Rightarrow> scan_view \<Rightarrow> scan_view \<Rightarrow> bool" where
  "scan_change sid v v' \<longleftrightarrow>
     v' = v \<or> view_step sid v v' \<or> (view_step sid v no_scan \<and> view_step sid no_scan v')"

definition guest_change :: "guest_db \<Rightarrow> guest_db \<Rightarrow> bool" where
  "guest_change db db' \<longleftrightarrow>
     guest_inv db' \<and> (\<forall>sid. scan_change sid (view sid db) (view sid db'))"

lemma guest_change_refl: "guest_inv db \<Longrightarrow> guest_change db db"
  by (simp add: guest_change_def scan_change_def)

lemma scan_move_change:
  "scan_move sid db db' \<Longrightarrow> scan_change k (view k db) (view k db')"
  by (cases "k = sid") (simp_all add: scan_move_def scan_change_def)

lemma move_change:
  assumes "guest_inv db" "db' = db \<or> scan_move sid db db'" "sv_scan (view sid db) \<noteq> None"
  shows "guest_change db db'"
proof -
  obtain s where s: "sv_scan (view sid db) = Some s" using assms(3) by blast
  from assms(2) show ?thesis
  proof
    assume "scan_move sid db db'"
    then show ?thesis
      using scan_move_keeps [OF assms(1) _ s] scan_move_change by (simp add: guest_change_def)
  qed (simp add: guest_change_refl assms(1))
qed

lemma quiet_change: "guest_inv db \<Longrightarrow> quiet db db' \<Longrightarrow> guest_change db db'"
  using quiet_inv by (simp add: guest_change_def scan_change_def quiet_def)

text \<open>A transaction that does not commit changes nothing.\<close>

lemma transaction_change:
  assumes "guest_inv db" "transaction tries tx db = (x, db')"
    and "\<And>y. tx db = Some (y, db') \<Longrightarrow> guest_change db db'"
  shows "guest_change db db'"
  using assms(2) by (rule transaction_cases) (use assms(1,3) guest_change_refl in blast)+

text \<open>Without a scan row the handlers of a scan change nothing.\<close>

lemma no_row_no_change:
  assumes "sv_scan (view sid db) = None"
  shows "acquire_tx sid candidate now db = Some (ra, db') \<Longrightarrow> db' = db"
    "lc_guest_scan_id c = sid \<Longrightarrow> start_tx c now db = Some (rs, db') \<Longrightarrow> db' = db"
    "lc_guest_scan_id c = sid \<Longrightarrow> renew_tx c now db = Some (rr, db') \<Longrightarrow> db' = db"
    "cancel_tx sid now db = Some (rc, db') \<Longrightarrow> db' = db"
    "persist_result_tx sid sub projection now db = Some (rp, db') \<Longrightarrow> db' = db"
  using assms
  by (auto simp: acquire_tx_def start_tx_def renew_tx_def cancel_tx_def persist_result_tx_def
      joined_attempt_def lock_current_result_state_def view_scan Option.bind_eq_Some_conv
      split: option.splits bind_splits)

lemma handler_change:
  assumes "guest_inv db" "db' = db \<or> scan_move sid db db'"
    and "sv_scan (view sid db) = None \<Longrightarrow> db' = db"
  shows "guest_change db db'"
  using assms move_change guest_change_refl by blast

text \<open>A creation is a move of the new scan, after one that deletes the scan it replaces.\<close>

lemma create_or_replace_change:
  assumes inv: "guest_inv db"
    and rows: "rows = lookup_scans scope key db"
    and run: "create_or_replace c q action rows db = Some (res, db')"
  shows "guest_change db db'"
proof (cases "\<exists>act i token expires ttl. res = PERSISTED act i token expires ttl")
  case True
  then obtain act i token expires ttl where res: "res = PERSISTED act i token expires ttl" by blast
  with run obtain sid material db1 where
    free: "(if action = PA_REPLACE_EXPIRED then replace_expired rows (pq_now q) db else Some db)
      = Some db1"
    and ins: "insert_and_reserve c q action sid material db db1 = Some (res, db')"
    by (auto simp: create_or_replace_def Option.bind_eq_Some_conv split: option.splits)
  show ?thesis
  proof (cases "action = PA_REPLACE_EXPIRED")
    case True
    then have "replace_expired rows (pq_now q) db = Some db1" using free by simp
    then obtain old s where old: "sv_scan (view old db) = Some s" "scan_move old db db1"
      "keys_unique db1" "view old db1 = no_scan"
      by (rule replace_expired_moves [OF inv rows])
    have inv1: "guest_inv db1" by (rule scan_move_inv [OF inv old(2,3)])
    note i = insert_and_reserve_moves [OF inv1 ins [unfolded res]]
    have "scan_change k (view k db) (view k db')" for k
    proof (cases "k = sid")
      case True
      then show ?thesis
        using i(1) old(2,4) by (cases "k = old") (auto simp: scan_change_def scan_move_def)
    next
      case False
      then have "view k db' = view k db1" using i(1) by (simp add: scan_move_def)
      then show ?thesis using scan_move_change [OF old(2)] by simp
    qed
    then show ?thesis using scan_move_inv [OF inv1 i(1,2)] by (simp add: guest_change_def)
  next
    case False
    then have "db1 = db" using free by simp
    with ins res have ins': "insert_and_reserve c q action sid material db db =
        Some (PERSISTED act i token expires ttl, db')" by simp
    note i = insert_and_reserve_moves [OF inv ins']
    show ?thesis
      using scan_move_inv [OF inv i(1,2)] scan_move_change [OF i(1)] by (simp add: guest_change_def)
  qed
next
  case False
  from run have "res = PERSIST_FAILED (PF_IDEMPOTENCY RESULT_TOKEN_UNAVAILABLE) \<and> db' = db \<or>
      (\<exists>sid material db1. insert_and_reserve c q action sid material db db1 = Some (res, db'))"
    by (auto simp: create_or_replace_def Option.bind_eq_Some_conv simp del: split_paired_Ex
        split: option.splits)
  then have "db' = db" using False insert_and_reserve_rollback by blast
  then show ?thesis by (simp add: guest_change_refl inv)
qed

lemma create_or_replay_change:
  assumes "guest_inv db" "create_or_replay_tx c q db = Some (res, db')"
  shows "guest_change db db'"
  using assms create_or_replace_change [OF assms(1) refl] guest_change_refl
  by (auto simp: create_or_replay_tx_def Let_def split: idempotency_result.splits)

text \<open>A batch deletes due scans only.\<close>

lemma run_batch_change:
  assumes inv: "guest_inv db" and run: "run_batch_tx n now db = Some (res, db')"
  shows "guest_change db db'"
proof -
  obtain result db'' where r: "run_batch_tx n now db = Some (result, db'')" "moves db db''"
    "\<And>k. view k db'' = (if k \<in> set (due_scans now n db) then no_scan else view k db)"
    using run_batch_moves [OF inv] by metis
  have "scan_change k (view k db) (view k db'')" for k
    using r(3) [of k] due_scans_due(2) [OF inv, of k now n] scan_deleted
    by (auto simp: scan_change_def)
  then show ?thesis using r(1) run moves_inv [OF r(2) inv] by (simp add: guest_change_def)
qed

lemma controlling_quiet: "quiet db (db\<lparr>db_service_state := st\<rparr>)"
  by (simp add: quiet_def view_def tables_distinct_def active_ok_def windows_ok_def)

lemma handler_changes:
  assumes inv: "guest_inv db"
  shows acquire_change: "acquire_tx sid candidate now db = Some (ra, db') \<Longrightarrow> guest_change db db'"
    and start_change: "start_tx c now db = Some (rs, db') \<Longrightarrow> guest_change db db'"
    and renew_change: "renew_tx c now db = Some (rr, db') \<Longrightarrow> guest_change db db'"
    and cancel_change: "cancel_tx sid now db = Some (rc, db') \<Longrightarrow> guest_change db db'"
    and persist_change:
      "persist_result_tx sid sub projection now db = Some (rp, db') \<Longrightarrow> guest_change db db'"
    and rejection_change: "record_rejection_tx k now db = Some (rj, db') \<Longrightarrow> guest_change db db'"
    and revoke_change: "revoke_tx scope now db = Some (rv, db') \<Longrightarrow> guest_change db db'"
proof -
  show "guest_change db db'" if "acquire_tx sid candidate now db = Some (ra, db')"
    by (rule handler_change [OF inv acquire_moves [OF inv that] no_row_no_change(1) [OF _ that]])
  show "guest_change db db'" if "start_tx c now db = Some (rs, db')"
    by (rule handler_change [OF inv start_moves [OF inv that] no_row_no_change(2) [OF _ refl that]])
  show "guest_change db db'" if "renew_tx c now db = Some (rr, db')"
    by (rule handler_change [OF inv renew_moves [OF inv that] no_row_no_change(3) [OF _ refl that]])
  show "guest_change db db'" if "cancel_tx sid now db = Some (rc, db')"
    by (rule handler_change [OF inv cancel_moves [OF inv that] no_row_no_change(4) [OF _ that]])
  show "guest_change db db'" if "persist_result_tx sid sub projection now db = Some (rp, db')"
    by (rule handler_change [OF inv persist_result_moves [OF inv that] no_row_no_change(5) [OF _ that]])
qed (auto intro: quiet_change [OF inv] record_rejection_quiet revoke_quiet)

lemmas all_changes = handler_changes create_or_replay_change run_batch_change

subsection \<open>Every step refines the protocol\<close>

lemma guest_step_change:
  assumes "guest_step db db'" "guest_inv db"
  shows "guest_change db db'"
  using assms(1)
proof cases
  case (acquiring tries v clock candidate ra)
  then show ?thesis
    using assms(2) guest_change_refl
    by (auto simp: acquire_def split: option.splits prod.splits
        elim!: transaction_change [rotated] intro: all_changes)
next
  case (starting tries v clock rs)
  then show ?thesis
    using assms(2) guest_change_refl
    by (auto simp: start_attempt_def split: option.splits prod.splits
        elim!: transaction_change [rotated] intro: all_changes)
next
  case (renewing tries v clock rr)
  then show ?thesis
    using assms(2) guest_change_refl
    by (auto simp: renew_lease_def split: option.splits prod.splits
        elim!: transaction_change [rotated] intro: all_changes)
next
  case (cancelling tries v clock rc)
  then show ?thesis
    using assms(2) guest_change_refl
    by (auto simp: cancel_def split: option.splits prod.splits
        elim!: transaction_change [rotated] intro: all_changes)
next
  case (committing tries sid sub projection now rp)
  then show ?thesis
    using assms(2) guest_change_refl
    by (auto simp: persist_result_def split: option.splits prod.splits
        elim!: transaction_change [rotated] intro: all_changes)
next
  case (creating to_ascii tries c v ri)
  then show ?thesis
    using assms(2) guest_change_refl
    by (auto simp: create_or_replay_def split: option.splits prod.splits
        elim!: transaction_change [rotated] intro: all_changes)
next
  case (retaining one_try v clock rt)
  then show ?thesis
    using assms(2) guest_change_refl run_batch_change
    by (auto simp: run_batch_def split: option.splits prod.splits try_outcome.splits)
next
  case (rejecting tries v now rj)
  then show ?thesis
    using assms(2) guest_change_refl
    by (auto simp: record_rejection_def split: option.splits prod.splits
        elim!: transaction_change [rotated] intro: all_changes)
next
  case (revoking tries v now rv)
  then show ?thesis
    using assms(2) guest_change_refl
    by (auto simp: revoke_def split: option.splits prod.splits
        elim!: transaction_change [rotated] intro: all_changes)
next
  case (pruning d_ok c_ok v now later rn)
  then show ?thesis using assms(2) by (blast intro: quiet_change prune_quiet)
next
  case (controlling st)
  then show ?thesis using assms(2) controlling_quiet quiet_change by blast
qed

lemma migrated_inv: "guest_inv migrated_db"
proof -
  have "active_ok migrated_db"
    by (intro active_okI) (simp_all add: migrated_db_def active_count_def live_count_def
        active_limit_def SESSION_CONCURRENCY_LIMIT_def NETWORK_CONCURRENCY_LIMIT_def
        split: active_dimension.splits)
  moreover have "view k migrated_db = no_scan" for k
    by (simp add: migrated_db_def view_def no_scan_def attempts_of_def fun_eq_iff)
  ultimately show ?thesis
    by (simp add: guest_inv_def keys_unique_def windows_ok_def tables_distinct_def migrated_db_def)
qed

interpretation guest: invariant_system "\<lambda>db. db = migrated_db" guest_step guest_inv
  by unfold_locales (use migrated_inv guest_step_change in \<open>auto simp: guest_change_def\<close>)

definition guest_reachable :: "guest_db \<Rightarrow> bool" where
  "guest_reachable = reachable (\<lambda>db. db = migrated_db) guest_step"

lemma reachable_inv: "guest_reachable db \<Longrightarrow> guest_inv db"
  unfolding guest_reachable_def by (rule guest.always)

end
