(* ===== verification/Guest_Run.thy ===== *)
theory Guest_Run
  imports Guest_Safety
begin

section \<open>A run of the service\<close>

text \<open>
  A concrete run from the migrated database: a scan is created, leased and
  started.  The databases are computed from the handlers, and each is reachable;
  the witnesses of the safety properties use them.
\<close>

definition run_context :: persistence_context where
  "run_context =
     \<lparr>pc_keyring = (\<lambda>v. if v = 1 then Some (replicate 32 7) else None), pc_active_key_version = 1,
      pc_guest_scan_id = Some ''scan-1'', pc_token_nonce = Some (replicate 32 9)\<rparr>"

definition run_network :: string where "run_network = ''hmac-sha256:'' @ replicate 64 (CHR ''c'')"

definition run_request :: "int \<Rightarrow> persist_request" where
  "run_request now =
     \<lparr>pq_session_scope = uniform_digest (CHR ''a''), pq_idempotency_key = ''key-1'',
      pq_request_hash = uniform_digest (CHR ''b''), pq_canonical_target = ''example.com'',
      pq_network_digests = [run_network], pq_now = now\<rparr>"

definition run_object :: "int \<Rightarrow> jsval" where
  "run_object now =
     JObj [(''guest_session_scope'', JStr (uniform_digest (CHR ''a''))),
       (''idempotency_key'', JStr ''key-1''),
       (''request_hash'', JStr (uniform_digest (CHR ''b''))),
       (''canonical_target'', JStr ''example.com''),
       (''network_signal_digests'', JArr [JStr run_network]),
       (''trusted_now_unix_seconds'', JBig now)]"

lemma run_snapshot: "snapshot_persist_request (\<lambda>s. s) (run_object 1000) = Some (run_request 1000)"
  by code_simp

definition created_db :: guest_db where
  "created_db =
     migrated_db\<lparr>
       db_scans := [(''scan-1'', new_scan_row run_context (run_request 1000) (replicate 32 9))],
       db_reservations := [(''scan-1'',
         \<lparr>rv_session_scope = replicate 32 170, rv_network_digest = replicate 32 204,
          rv_reserved_at = 1000, rv_deletion_deadline = 87400, rv_released_at = None,
          rv_release_reason = None\<rparr>)],
       db_windows :=
         [((NETWORK_BURST, replicate 32 204), \<lparr>wr_usage_count = 1, wr_reset_at = 1600, wr_updated_at = 1000\<rparr>),
          ((NETWORK_DAILY, replicate 32 204), \<lparr>wr_usage_count = 1, wr_reset_at = 87400, wr_updated_at = 1000\<rparr>),
          ((SESSION_BURST, replicate 32 170), \<lparr>wr_usage_count = 1, wr_reset_at = 1600, wr_updated_at = 1000\<rparr>),
          ((SESSION_DAILY, replicate 32 170), \<lparr>wr_usage_count = 1, wr_reset_at = 87400, wr_updated_at = 1000\<rparr>)],
       db_active :=
         [((NETWORK_ACTIVE, replicate 32 204), \<lparr>ac_count = 1, ac_updated_at = 1000\<rparr>),
          ((SESSION_ACTIVE, replicate 32 170), \<lparr>ac_count = 1, ac_updated_at = 1000\<rparr>)]\<rparr>"

lemma run_reserve:
  "insert_and_reserve run_context (run_request 1000) PA_CREATE ''scan-1'' (token, replicate 32 9)
     migrated_db migrated_db =
   Some (PERSISTED PA_CREATE ''scan-1'' token 2800 1800, created_db)"
  by code_simp

text \<open>The token is the only value that is not computed; it is not stored.\<close>

lemma run_token:
  obtains token where
    "token_material run_context ''scan-1'' 2800 = Some (token, replicate 32 9)"
proof -
  let ?m = "new_token_metadata run_context ''scan-1'' (replicate 32 9) 2800"
  have "valid_metadata ?m" "is_valid_key (replicate 32 7)" by code_simp+
  then obtain token where "derive_guest_result_token ?m (replicate 32 7) = Some token"
    by (simp add: derive_token_eq)
  moreover have "id_pattern ''scan-1''" by code_simp
  ultimately have "token_material run_context ''scan-1'' 2800 = Some (token, replicate 32 9)"
    by (simp add: token_material_def run_context_def)
  then show ?thesis by (rule that)
qed

lemma run_decides:
  "\<exists>l h e. decide_guest_scan_idempotency
     (request_object \<lparr>iq_session_scope = pq_session_scope (run_request 1000),
        iq_key = pq_idempotency_key (run_request 1000),
        iq_request_hash = pq_request_hash (run_request 1000), iq_now = pq_now (run_request 1000)\<rparr>)
     JNull (pc_keyring run_context) = IDEM_CREATE l h e"
proof -
  let ?r = "\<lparr>iq_session_scope = pq_session_scope (run_request 1000),
        iq_key = pq_idempotency_key (run_request 1000),
        iq_request_hash = pq_request_hash (run_request 1000), iq_now = pq_now (run_request 1000)\<rparr>"
  have "parse_idempotency_request (request_object ?r) = Some ?r" by code_simp
  moreover have "iq_now ?r + GUEST_IDEMPOTENCY_WINDOW_SECONDS \<le> UINT64_MAX" by code_simp
  ultimately show ?thesis
    by (simp add: decide_guest_scan_idempotency_def create_decision_def Let_def)
qed

lemma run_create:
  "\<exists>token. create_or_replay (\<lambda>s. s) [RUNS] run_context (run_object 1000) migrated_db =
     (PERSISTED PA_CREATE ''scan-1'' token 2800 1800, created_db)"
proof -
  obtain token where token: "token_material run_context ''scan-1'' 2800 = Some (token, replicate 32 9)"
    by (rule run_token)
  obtain l h e where d: "decide_guest_scan_idempotency
     (request_object \<lparr>iq_session_scope = pq_session_scope (run_request 1000),
        iq_key = pq_idempotency_key (run_request 1000),
        iq_request_hash = pq_request_hash (run_request 1000), iq_now = pq_now (run_request 1000)\<rparr>)
     JNull (pc_keyring run_context) = IDEM_CREATE l h e"
    using run_decides by blast
  have rows: "lookup_scans (digest_bytes ''sha256:'' (pq_session_scope (run_request 1000)))
      (pq_idempotency_key (run_request 1000)) migrated_db = []" by code_simp
  have now: "pq_now (run_request 1000) + GUEST_IDEMPOTENCY_WINDOW_SECONDS = 2800" by code_simp
  have sid: "pc_guest_scan_id run_context = Some ''scan-1''" by code_simp
  have "create_or_replay_tx run_context (run_request 1000) migrated_db =
      Some (PERSISTED PA_CREATE ''scan-1'' token 2800 1800, created_db)"
    unfolding create_or_replay_tx_def Let_def rows existing_value_def list.case d
    by (simp add: create_or_replace_def sid now token run_reserve)
  then show ?thesis
    by (auto simp: create_or_replay_def run_snapshot transaction_runs)
qed

lemma created_reachable: "guest_reachable created_db"
proof -
  have "guest_step migrated_db created_db" using run_create guest_step.creating by blast
  then show ?thesis
    unfolding guest_reachable_def by (intro reachable.more [OF reachable.start]) simp_all
qed

subsection \<open>The attempt\<close>

definition lease_object :: jsval where
  "lease_object = JObj [(''guest_scan_id'', JStr ''scan-1''), (''attempt_id'', JStr ''attempt-1''),
     (''monotonic_fence'', JNum 1), (''lease_version'', JNum 1)]"

definition running_scan :: scan_row where
  "running_scan =
     (new_scan_row run_context (run_request 1000) (replicate 32 9))
       \<lparr>gs_job_state := J_RUNNING, gs_current_attempt_id := Some ''attempt-1'',
        gs_current_fence := 1, gs_updated_at := 1010\<rparr>"

definition leased_row :: attempt_row where
  "leased_row =
     \<lparr>at_scan_id = ''scan-1'', at_attempt_no = 1, at_fence = 1, at_lease_version = 1,
      at_lease_expires_at = Some 1025, at_hard_deadline = 1055, at_state = A_LEASED,
      at_created_at = 1010, at_updated_at = 1010, at_started_at = None, at_finished_at = None\<rparr>"

definition leased_db :: guest_db where
  "leased_db =
     created_db\<lparr>db_scans := [(''scan-1'', running_scan)],
       db_attempts := [(''attempt-1'', leased_row)]\<rparr>"

definition running_attempt :: attempt_row where
  "running_attempt = leased_row\<lparr>at_state := A_RUNNING, at_started_at := Some 1011, at_updated_at := 1011\<rparr>"

definition running_db :: guest_db where
  "running_db = leased_db\<lparr>db_attempts := [(''attempt-1'', running_attempt)]\<rparr>"

definition run_projection :: jsval where
  "run_projection =
     JObj [(''schema_version'', JNum 1), (''canonical_host'', JStr ''example.com'')]"

definition run_submission :: result_identity where
  "run_submission =
     \<lparr>ri_attempt_id = ''attempt-1'', ri_fence = 1, ri_payload_digest = uniform_digest (CHR ''d'')\<rparr>"

definition succeeded_result :: result_row where
  "succeeded_result =
     \<lparr>rr_attempt_id = ''attempt-1'', rr_fence = 1, rr_digest = replicate 32 221,
      rr_completed_at = 1012, rr_projection = run_projection\<rparr>"

definition succeeded_db :: guest_db where
  "succeeded_db =
     running_db\<lparr>
       db_scans := [(''scan-1'', succeeded_scan running_scan ''attempt-1'' 1 (replicate 32 221) 1012)],
       db_attempts := [(''attempt-1'', finished running_attempt A_SUCCEEDED 1012)],
       db_results := [(''scan-1'', succeeded_result)],
       db_reservations := [(''scan-1'',
         \<lparr>rv_session_scope = replicate 32 170, rv_network_digest = replicate 32 204,
          rv_reserved_at = 1000, rv_deletion_deadline = 87400, rv_released_at = Some 1012,
          rv_release_reason = Some RR_TERMINAL_RESULT\<rparr>)],
       db_active := []\<rparr>"

lemma run_acquire:
  "acquire [RUNS] (JObj [(''guest_scan_id'', JStr ''scan-1'')]) (Some 1010) (Some ''attempt-1'')
     created_db =
   (LEASE_ACQUIRED \<lparr>al_guest_scan_id = ''scan-1'', al_attempt_id = ''attempt-1'', al_attempt_no = 1,
     al_fence = 1, al_lease_version = 1, al_canonical_target = ''example.com'',
     al_lease_expires_at = 1025, al_hard_deadline = 1055\<rparr>, leased_db)"
  by code_simp

lemma run_start: "start_attempt [RUNS] lease_object (Some 1011) leased_db = (STARTED, running_db)"
  by code_simp

lemma run_commit:
  "persist_result [RUNS] ''scan-1'' run_submission run_projection 1012 running_db =
   (RESULT_COMMITTED True, succeeded_db)"
  by code_simp

lemma run_reachable:
  "guest_reachable leased_db" "guest_reachable running_db" "guest_reachable succeeded_db"
proof -
  have more: "guest_reachable d'" if "guest_reachable d" "guest_step d d'" for d d'
    using that unfolding guest_reachable_def by (rule reachable.more)
  show 1: "guest_reachable leased_db"
    by (rule more [OF created_reachable], rule guest_step.acquiring, rule run_acquire)
  show 2: "guest_reachable running_db"
    by (rule more [OF 1], rule guest_step.starting, rule run_start)
  show "guest_reachable succeeded_db"
    by (rule more [OF 2], rule guest_step.committing, rule run_commit)
qed

text \<open>The rows of these databases.\<close>

lemma run_tables:
  "db_scans leased_db = [(''scan-1'', running_scan)]"
  "db_scans running_db = [(''scan-1'', running_scan)]"
  "db_attempts running_db = [(''attempt-1'', running_attempt)]"
  "db_results running_db = []" "db_active running_db = db_active created_db"
  "db_scans succeeded_db =
    [(''scan-1'', succeeded_scan running_scan ''attempt-1'' 1 (replicate 32 221) 1012)]"
  "db_results succeeded_db = [(''scan-1'', succeeded_result)]" "db_active succeeded_db = []"
  by (simp_all add: leased_db_def running_db_def succeeded_db_def created_db_def migrated_db_def)

lemma running_rows [simp]:
  "gs_job_state running_scan = J_RUNNING" "gs_current_fence running_scan = 1"
  "gs_current_attempt_id running_scan = Some ''attempt-1''" "gs_created_at running_scan = 1000"
  "at_scan_id running_attempt = ''scan-1''" "at_state running_attempt = A_RUNNING"
  "at_created_at running_attempt = 1010" "rr_fence succeeded_result = 1"
  by (simp_all add: running_scan_def running_attempt_def leased_row_def succeeded_result_def
      new_scan_row_def run_request_def)

end
