(* ===== verification/Guest_Properties.thy ===== *)
theory Guest_Properties
  imports Guest_Run
begin

section \<open>What holds in every database the service can reach\<close>

text \<open>
  The safety properties of the guest aggregates, over the tables of the
  database.  They rest on the interpretation \<open>guest\<close> of the locale of
  safety arguments and on the refinement of the protocol.
\<close>

subsection \<open>Attempts\<close>

definition attempts_table :: "string \<Rightarrow> guest_db \<Rightarrow> (string \<times> attempt_row) list" where
  "attempts_table sid db = rows_where (\<lambda>_ a. at_scan_id a = sid) (db_attempts db)"

lemma reachable_view: "guest_reachable db \<Longrightarrow> view_inv sid (view sid db)"
  by (rule guest_invD(2) [OF reachable_inv])

lemma reachable_distinct:
  assumes "guest_reachable db"
  shows "keys_distinct (db_scans db)" "keys_distinct (db_attempts db)" "keys_distinct (db_results db)"
    "keys_distinct (db_reservations db)"
  using guest_invD(1) [OF reachable_inv [OF assms]] by (simp_all add: tables_distinct_def)

lemma attempts_table_view:
  assumes "guest_reachable db"
  shows "(aid, a) \<in> set (attempts_table sid db) \<longleftrightarrow> sv_attempts (view sid db) aid = Some a"
  using reachable_distinct(2) [OF assms]
  by (auto simp: attempts_table_def rows_where_set view_attempt get_set split: option.splits)

lemma attempt_in_view:
  assumes "guest_reachable db" "map_of (db_scans db) sid = Some s"
    and "(aid, a) \<in> set (attempts_table sid db)"
  shows "attempt_inv sid s aid a"
  using assms view_invD(3) [OF reachable_view [OF assms(1)]]
  by (simp add: attempts_table_view view_scan)

text \<open>Distinct fences between 1 and the limit bound the number of attempts.\<close>

lemma attempts_bounded:
  assumes "guest_reachable db" "map_of (db_scans db) sid = Some s"
  shows "int (length (attempts_table sid db)) \<le> GUEST_MAX_ATTEMPTS"
proof -
  have cur: "current_inv s (sv_attempts (view sid db))"
    using view_invD(4) [OF reachable_view [OF assms(1)]] assms(2) by (simp add: view_scan)
  have fences: "at_fence a \<in> {1..GUEST_MAX_ATTEMPTS}" if "(aid, a) \<in> set (attempts_table sid db)" for aid a
    using attempt_in_view [OF assms that] cur
    by (auto simp: attempt_inv_def attempt_checks_def current_inv_def)
  have inj: "inj_on (\<lambda>(aid, a). at_fence a) (set (attempts_table sid db))"
  proof (rule inj_onI, clarify)
    fix i a j b
    assume "(i, a) \<in> set (attempts_table sid db)" "(j, b) \<in> set (attempts_table sid db)"
      "at_fence a = at_fence b"
    then have v: "sv_attempts (view sid db) i = Some a" "sv_attempts (view sid db) j = Some b"
      "at_fence a = at_fence b" by (simp_all add: attempts_table_view [OF assms(1)])
    with cur have "i = j" unfolding current_inv_def by blast
    with v show "i = j \<and> a = b" by simp
  qed
  have "distinct (attempts_table sid db)"
    using keys_distinct_rows [OF reachable_distinct(2) [OF assms(1)]]
    by (simp add: attempts_table_def keys_distinct_def distinct_map)
  then have "length (attempts_table sid db) = card ((\<lambda>(aid, a). at_fence a) ` set (attempts_table sid db))"
    by (simp add: card_image inj distinct_card)
  also have "\<dots> \<le> card {1..GUEST_MAX_ATTEMPTS}"
    by (rule card_mono) (use fences in auto)
  finally show ?thesis by (simp add: GUEST_MAX_ATTEMPTS_def)
qed

lemma result_row:
  assumes "guest_reachable db" "map_of (db_scans db) sid = Some s"
  shows "result_inv s (sv_attempts (view sid db)) (map_of (db_results db) sid)"
    "reservation_inv s (map_of (db_reservations db) sid)"
    "current_inv s (sv_attempts (view sid db))" "scan_checks s"
  using view_invD(2,4,5,6) [OF reachable_view [OF assms(1)]] assms(2)
  by (simp_all add: view_scan view_result view_reservation)

text \<open>C1: at any time at most one attempt of a scan is live: in every reachable database a scan
  has a leased or running attempt if and only if its job is running; that attempt is the
  one the scan row names as current, and its fence is the scan's fence, which no
  other attempt of the scan has or exceeds.\<close>

theorem one_live_attempt:
  assumes "guest_reachable db" "map_of (db_scans db) sid = Some s"
  shows "(gs_job_state s = J_RUNNING \<longleftrightarrow>
      (\<exists>aid a. (aid, a) \<in> set (attempts_table sid db) \<and> at_state a \<in> {A_LEASED, A_RUNNING})) \<and>
    (\<forall>aid a. (aid, a) \<in> set (attempts_table sid db) \<and> \<not> attempt_final (at_state a) \<longrightarrow>
      gs_current_attempt_id s = Some aid \<and> at_fence a = gs_current_fence s \<and>
      (\<forall>aid' a'. (aid', a') \<in> set (attempts_table sid db) \<and> aid' \<noteq> aid \<longrightarrow> at_fence a' < at_fence a))"
proof -
  note cur = result_row(3) [OF assms, unfolded current_inv_def]
  have live: "gs_job_state s = J_RUNNING \<and> gs_current_attempt_id s = Some aid"
    if "(aid, a) \<in> set (attempts_table sid db)" "\<not> attempt_final (at_state a)" for aid a
    using attempt_in_view [OF assms that(1)] that(2) by (auto simp: attempt_inv_def split: if_splits)
  have fence: "at_fence a = gs_current_fence s"
    if "(aid, a) \<in> set (attempts_table sid db)" "gs_current_attempt_id s = Some aid" for aid a
    using cur that by (auto simp: attempts_table_view [OF assms(1)])
  have other: "at_fence a' < at_fence a"
    if "(aid, a) \<in> set (attempts_table sid db)" "gs_current_attempt_id s = Some aid"
      "(aid', a') \<in> set (attempts_table sid db)" "aid' \<noteq> aid" for aid a aid' a'
  proof -
    have "at_fence a' \<le> at_fence a"
      using attempt_in_view [OF assms that(3)] fence [OF that(1,2)] by (simp add: attempt_inv_def)
    moreover have "at_fence a' \<noteq> at_fence a"
      using cur that(1,3,4) unfolding attempts_table_view [OF assms(1)] by blast
    ultimately show ?thesis by simp
  qed
  have 1: "\<exists>aid a. (aid, a) \<in> set (attempts_table sid db) \<and> at_state a \<in> {A_LEASED, A_RUNNING}"
    if run: "gs_job_state s = J_RUNNING"
  proof -
    obtain aid a where "sv_attempts (view sid db) aid = Some a" "at_state a \<in> {A_LEASED, A_RUNNING}"
      by (rule running_view [OF reachable_view [OF assms(1)], of sid s])
        (use assms(2) run in \<open>auto simp: view_scan\<close>)
    then show ?thesis by (auto simp: attempts_table_view [OF assms(1)])
  qed
  have 2: "gs_job_state s = J_RUNNING"
    if "(aid, a) \<in> set (attempts_table sid db)" "at_state a \<in> {A_LEASED, A_RUNNING}" for aid a
    using live [OF that(1)] that(2) by (auto simp: attempt_final_def)
  have 3: "gs_current_attempt_id s = Some aid \<and> at_fence a = gs_current_fence s \<and>
      (\<forall>aid' a'. (aid', a') \<in> set (attempts_table sid db) \<and> aid' \<noteq> aid \<longrightarrow> at_fence a' < at_fence a)"
    if a: "(aid, a) \<in> set (attempts_table sid db) \<and> \<not> attempt_final (at_state a)" for aid a
  proof -
    have aid: "gs_current_attempt_id s = Some aid" using live [of aid a] a by simp
    show ?thesis using aid fence [OF conjunct1 [OF a] aid] other [OF conjunct1 [OF a] aid] by blast
  qed
  have "gs_job_state s = J_RUNNING \<longleftrightarrow>
      (\<exists>aid a. (aid, a) \<in> set (attempts_table sid db) \<and> at_state a \<in> {A_LEASED, A_RUNNING})"
    using 1 2 by metis
  moreover have "\<forall>aid a. (aid, a) \<in> set (attempts_table sid db) \<and> \<not> attempt_final (at_state a) \<longrightarrow>
      gs_current_attempt_id s = Some aid \<and> at_fence a = gs_current_fence s \<and>
      (\<forall>aid' a'. (aid', a') \<in> set (attempts_table sid db) \<and> aid' \<noteq> aid \<longrightarrow> at_fence a' < at_fence a)"
    by (intro allI impI) (rule 3)
  ultimately show ?thesis by (rule conjI)
qed

theorem one_live_attempt_witness:
  "\<exists>aid a. (aid, a) \<in> set (attempts_table ''scan-1'' running_db) \<and>
     at_state a \<in> {A_LEASED, A_RUNNING}"
proof -
  have "map_of (db_scans running_db) ''scan-1'' = Some running_scan" by (simp add: run_tables)
  from one_live_attempt [OF run_reachable(2) this] show ?thesis by simp
qed

text \<open>C24: no attempt outlives its scan's access window: in every reachable database a scan has at
  most three attempts, numbered by their fences, every attempt's deadline is at most
  45 seconds after its creation and at most 30 minutes after the creation of the scan, and a
  lease never ends after the deadline.\<close>

theorem attempts_bounded_in_time:
  assumes "guest_reachable db" "map_of (db_scans db) sid = Some s"
  shows "int (length (attempts_table sid db)) \<le> GUEST_MAX_ATTEMPTS \<and>
    (\<forall>(aid, a) \<in> set (attempts_table sid db).
      1 \<le> at_fence a \<and> at_fence a \<le> GUEST_MAX_ATTEMPTS \<and> at_attempt_no a = at_fence a \<and>
      gs_created_at s \<le> at_created_at a \<and>
      at_hard_deadline a \<le> at_created_at a + GUEST_ATTEMPT_HARD_DEADLINE_SECONDS \<and>
      at_hard_deadline a \<le> gs_created_at s + SCAN_ACCESS_SECONDS \<and>
      (\<forall>l. at_lease_expires_at a = Some l \<longrightarrow> l \<le> at_hard_deadline a))"
proof (intro conjI ballI, goal_cases)
  case 1
  show ?case by (rule attempts_bounded [OF assms])
next
  case (2 p)
  obtain aid a where p: "p = (aid, a)" by (cases p)
  have a: "attempt_inv sid s aid a" using attempt_in_view [OF assms] 2 p by simp
  have "gs_access_expires_at s = gs_created_at s + SCAN_ACCESS_SECONDS"
    using result_row(4) [OF assms] by (simp add: scan_checks_def scan_time_contract_def)
  moreover have "gs_current_fence s \<le> GUEST_MAX_ATTEMPTS"
    using result_row(3) [OF assms] by (simp add: current_inv_def)
  moreover have "\<forall>l. at_lease_expires_at a = Some l \<longrightarrow> l \<le> at_hard_deadline a" "1 \<le> at_fence a"
    using a by (simp_all add: attempt_inv_def attempt_checks_def attempt_time_contract_def opt_all_def
        split: option.splits)
  ultimately show ?case using a by (auto simp: p attempt_inv_def)
qed


theorem attempts_bounded_in_time_witness:
  "int (length (attempts_table ''scan-1'' running_db)) \<le> 3 \<and> at_hard_deadline running_attempt \<le> 1055"
proof -
  have s: "map_of (db_scans running_db) ''scan-1'' = Some running_scan" by (simp add: run_tables)
  have a: "(''attempt-1'', running_attempt) \<in> set (attempts_table ''scan-1'' running_db)"
    by (simp add: attempts_table_def run_tables rows_where_def)
  show ?thesis
    using attempts_bounded_in_time [OF run_reachable(2) s] a
    by (fastforce simp: GUEST_ATTEMPT_HARD_DEADLINE_SECONDS_def GUEST_MAX_ATTEMPTS_def)
qed

subsection \<open>Results\<close>

text \<open>C2: a scan has a stored result exactly when its job has succeeded, and the two agree: the
  result names the current attempt, its fence and the accepted digest, that attempt has
  succeeded at the time the result was completed, and the projection is about the host
  the scan was created for.\<close>

theorem result_iff_succeeded:
  assumes "guest_reachable db" "map_of (db_scans db) sid = Some s"
  shows "(gs_job_state s = J_SUCCEEDED \<longleftrightarrow> map_of (db_results db) sid \<noteq> None) \<and>
    (\<forall>r. map_of (db_results db) sid = Some r \<longrightarrow>
      gs_current_attempt_id s = Some (rr_attempt_id r) \<and> gs_current_fence s = rr_fence r \<and>
      gs_accepted_attempt_id s = Some (rr_attempt_id r) \<and> gs_accepted_fence s = Some (rr_fence r) \<and>
      gs_accepted_digest s = Some (rr_digest r) \<and>
      get_prop (rr_projection r) ''canonical_host'' = JStr (gs_canonical_target s) \<and>
      (\<exists>a. (rr_attempt_id r, a) \<in> set (attempts_table sid db) \<and> at_state a = A_SUCCEEDED \<and>
        at_fence a = rr_fence r \<and> at_finished_at a = Some (rr_completed_at r)))"
proof (intro conjI allI impI, goal_cases)
  case 1
  show ?case using result_row(1) [OF assms] by (auto simp: result_inv_def split: option.splits)
next
  case (8 r)
  then obtain a where a: "sv_attempts (view sid db) (rr_attempt_id r) = Some a"
    "at_fence a = rr_fence r" "at_finished_at a = Some (rr_completed_at r)"
    "gs_job_state s = J_SUCCEEDED" "gs_current_attempt_id s = Some (rr_attempt_id r)"
    using result_row(1) [OF assms] by (auto simp: result_inv_def)
  have "at_state a = A_SUCCEEDED"
    using view_invD(3) [OF reachable_view [OF assms(1)]] assms(2) a
    by (auto simp: view_scan attempt_inv_def)
  with a show ?case by (auto simp: attempts_table_view [OF assms(1)])
qed (use result_row(1) [OF assms] in \<open>auto simp: result_inv_def\<close>)

theorem result_iff_succeeded_witness:
  "map_of (db_results running_db) ''scan-1'' = None \<and>
   gs_current_fence (succeeded_scan running_scan ''attempt-1'' 1 (replicate 32 221) 1012) = 1"
proof -
  have "map_of (db_scans running_db) ''scan-1'' = Some running_scan"
    "map_of (db_scans succeeded_db) ''scan-1'' =
      Some (succeeded_scan running_scan ''attempt-1'' 1 (replicate 32 221) 1012)"
    by (simp_all add: run_tables)
  from result_iff_succeeded [OF run_reachable(2) this(1)] result_iff_succeeded [OF run_reachable(3) this(2)]
  show ?thesis by (auto simp: run_tables)
qed

lemma view_step_final:
  assumes "view_step sid v v'" "sv_scan v = Some s" "job_final (gs_job_state s)"
  shows "v' = no_scan"
  using assms by (cases rule: view_step.cases) (auto simp: job_final_def)

lemma view_step_created:
  assumes "view_step sid no_scan v'"
  shows "sv_result v' = None \<and> (\<exists>s. sv_scan v' = Some s \<and> gs_job_state s = J_QUEUED)"
  using assms by (cases rule: view_step.cases) (auto simp: guard_scan_insert_def)

lemma scan_change_final:
  assumes "scan_change sid v v'" "sv_scan v = Some s" "job_final (gs_job_state s)"
  shows "v' = v \<or> v' = no_scan \<or>
    (sv_result v' = None \<and> (\<exists>s. sv_scan v' = Some s \<and> gs_job_state s = J_QUEUED))"
  using assms view_step_final view_step_created unfolding scan_change_def by blast

text \<open>C23: what has ended stays as it ended: from a reachable database no step of any handler changes
  the row, the attempts, the accepted result or the reservation of a scan whose job is
  final; such a scan can only be deleted, together with its result, after which a new
  scan may take its identifier.\<close>

theorem ended_scans_are_frozen:
  assumes "guest_reachable db" "guest_step db db'"
    and "map_of (db_scans db) sid = Some s" "job_final (gs_job_state s)"
  shows "(map_of (db_scans db') sid = Some s \<and>
      map_of (db_results db') sid = map_of (db_results db) sid \<and>
      map_of (db_reservations db') sid = map_of (db_reservations db) sid \<and>
      set (attempts_table sid db') = set (attempts_table sid db)) \<or>
    (map_of (db_results db') sid = None \<and>
      (\<forall>s'. map_of (db_scans db') sid = Some s' \<longrightarrow> gs_job_state s' = J_QUEUED))"
proof -
  have reach: "guest_reachable db'"
    using assms(1,2) unfolding guest_reachable_def by (rule reachable.more)
  have "scan_change sid (view sid db) (view sid db')"
    using guest_step_change [OF assms(2) reachable_inv [OF assms(1)]] by (simp add: guest_change_def)
  then consider "view sid db' = view sid db" | "view sid db' = no_scan"
    | "sv_result (view sid db') = None"
      "\<exists>s. sv_scan (view sid db') = Some s \<and> gs_job_state s = J_QUEUED"
    using scan_change_final [of sid "view sid db" "view sid db'" s] assms(3,4)
    by (auto simp: view_scan)
  then show ?thesis
  proof cases
    case 1
    then have "(aid, a) \<in> set (attempts_table sid db') \<longleftrightarrow> (aid, a) \<in> set (attempts_table sid db)" for aid a
      by (simp add: attempts_table_view [OF reach] attempts_table_view [OF assms(1)])
    then have "set (attempts_table sid db') = set (attempts_table sid db)" by auto
    with 1 assms(3) show ?thesis
      by (simp add: view_scan [symmetric] view_result [symmetric] view_reservation [symmetric])
  next
    case 2
    then show ?thesis
      by (simp add: view_scan [symmetric] view_result [symmetric])
  next
    case 3
    then show ?thesis by (auto simp: view_scan view_result)
  qed
qed

theorem ended_scans_are_frozen_witness:
  "map_of (db_scans (snd (cancel [RUNS] (JObj [(''guest_scan_id'', JStr ''scan-1'')]) (Some 1013) succeeded_db))) ''scan-1'' =
     map_of (db_scans succeeded_db) ''scan-1'' \<or>
   map_of (db_results (snd (cancel [RUNS] (JObj [(''guest_scan_id'', JStr ''scan-1'')]) (Some 1013) succeeded_db))) ''scan-1'' = None"
proof -
  have step: "guest_step succeeded_db (snd (cancel [RUNS] (JObj [(''guest_scan_id'', JStr ''scan-1'')]) (Some 1013) succeeded_db))"
    by (rule guest_step.cancelling, rule surjective_pairing)
  have "map_of (db_scans succeeded_db) ''scan-1'' =
      Some (succeeded_scan running_scan ''attempt-1'' 1 (replicate 32 221) 1012)"
    "job_final (gs_job_state (succeeded_scan running_scan ''attempt-1'' 1 (replicate 32 221) 1012))"
    by (simp_all add: run_tables succeeded_scan_def job_final_def)
  from ended_scans_are_frozen [OF run_reachable(3) step this] this(1) show ?thesis by auto
qed

end
