(* ===== verification/Guest_Behaviour.thy ===== *)
theory Guest_Behaviour
  imports Guest_Properties
begin

section \<open>Quotas, stale workers, replays, retention and errors\<close>

text \<open>
  The properties of the guest service that span its tables or two handlers.
\<close>

subsection \<open>Quotas\<close>

lemma count_card:
  assumes "keys_distinct t"
  shows "count_rows p t = int (card {k. \<exists>r. map_of t k = Some r \<and> p k r})"
proof -
  have d: "distinct (map fst (rows_where p t))"
    using keys_distinct_rows [OF assms] by (simp add: keys_distinct_def)
  have "fst ` set (rows_where p t) = {k. \<exists>r. map_of t k = Some r \<and> p k r}"
  proof (intro set_eqI iffI)
    fix k
    assume "k \<in> {k. \<exists>r. map_of t k = Some r \<and> p k r}"
    then obtain r where "(k, r) \<in> set (rows_where p t)" using assms by (auto simp: rows_where_set get_set)
    then show "k \<in> fst ` set (rows_where p t)" by (rule rev_image_eqI) simp
  qed (use assms in \<open>auto simp: rows_where_set get_set\<close>)
  then show ?thesis
    using distinct_card [OF d] by (simp add: count_rows_def)
qed

lemma reservation_of_scan:
  assumes "guest_reachable db"
  shows "(\<exists>s. map_of (db_scans db) sid = Some s \<and> gs_session_scope s = g \<and> \<not> job_final (gs_job_state s)) \<longleftrightarrow>
    (\<exists>r. map_of (db_reservations db) sid = Some r \<and> rv_session_scope r = g \<and> rv_released_at r = None)"
proof (cases "map_of (db_scans db) sid")
  case None
  then have "view sid db = no_scan"
    using reachable_view [OF assms, of sid] by (simp add: view_inv_def view_scan)
  then have "sv_reservation (view sid db) = None" by simp
  with None show ?thesis by (simp add: view_reservation)
next
  case (Some s)
  then show ?thesis
    using result_row(2) [OF assms Some] by (auto simp: reservation_inv_def opened_reservation_def)
qed

text \<open>C3: the quotas hold in every reachable database: the number of unfinished scans of a session
  is exactly its active counter and at most one, the number of unfinished reservations
  of a network digest is exactly its active counter and at most four, and no usage window
  counts more scans than its limit.\<close>

theorem quotas_hold:
  assumes "guest_reachable db"
  shows "count_rows (\<lambda>_ s. gs_session_scope s = g \<and> \<not> job_final (gs_job_state s)) (db_scans db)
      = active_count (db_active db) (SESSION_ACTIVE, g) \<and>
    active_count (db_active db) (SESSION_ACTIVE, g) \<le> SESSION_CONCURRENCY_LIMIT \<and>
    count_rows (\<lambda>_ r. rv_network_digest r = n \<and> rv_released_at r = None) (db_reservations db)
      = active_count (db_active db) (NETWORK_ACTIVE, n) \<and>
    active_count (db_active db) (NETWORK_ACTIVE, n) \<le> NETWORK_CONCURRENCY_LIMIT \<and>
    (\<forall>d k w. map_of (db_windows db) (d, k) = Some w \<longrightarrow> wr_usage_count w \<le> window_limit d)"
proof -
  note ok = guest_invD [OF reachable_inv [OF assms]]
  have "count_rows (\<lambda>_ s. gs_session_scope s = g \<and> \<not> job_final (gs_job_state s)) (db_scans db)
      = live_count (db_reservations db) (SESSION_ACTIVE, g)"
    unfolding live_count_def count_card [OF reachable_distinct(1) [OF assms]]
      count_card [OF reachable_distinct(4) [OF assms]]
    using reservation_of_scan [OF assms] by (simp add: reservation_key_def conj_commute)
  moreover have "count_rows (\<lambda>_ r. rv_network_digest r = n \<and> rv_released_at r = None) (db_reservations db)
      = live_count (db_reservations db) (NETWORK_ACTIVE, n)"
    unfolding live_count_def by (rule count_cong) (auto simp: reservation_key_def)
  moreover have "wr_usage_count w \<le> window_limit d"
    if "map_of (db_windows db) (d, k) = Some w" for d k w
    using ok(4) that unfolding windows_ok_def by fastforce
  ultimately show ?thesis
    using active_okD [OF ok(3), of "(SESSION_ACTIVE, g)"] active_okD [OF ok(3), of "(NETWORK_ACTIVE, n)"]
    by (simp add: active_limit_def)
qed

theorem quotas_hold_witness:
  "count_rows (\<lambda>_ s. gs_session_scope s = replicate 32 170 \<and> \<not> job_final (gs_job_state s))
     (db_scans running_db) = 1 \<and>
   active_count (db_active running_db) (SESSION_ACTIVE, replicate 32 170) = 1 \<and>
   active_count (db_active succeeded_db) (SESSION_ACTIVE, replicate 32 170) \<le> 1"
proof -
  have "active_count (db_active running_db) (SESSION_ACTIVE, replicate 32 170) = 1"
    by (simp add: run_tables created_db_def active_count_def)
  then show ?thesis
    using quotas_hold [OF run_reachable(2), of "replicate 32 170" "[]"]
      quotas_hold [OF run_reachable(3), of "replicate 32 170" "[]"]
    by (simp add: SESSION_CONCURRENCY_LIMIT_def)
qed

subsection \<open>The protocol\<close>

lemma scan_change_job:
  assumes "scan_change sid v v'" "view_inv sid v" "sv_scan v = Some s" "sv_scan v' = Some s'"
  shows "gs_job_state s' = gs_job_state s \<and> same_scan_identity s' s \<or>
    (\<exists>e. transition_job (gs_job_state s) e = Some (gs_job_state s')) \<and> same_scan_identity s' s \<or>
    gs_job_state s' = J_QUEUED"
  using assms(1) unfolding scan_change_def
proof (elim disjE conjE)
  assume "v' = v"
  with assms(3,4) show ?thesis by (simp add: same_scan_identity_def)
next
  assume "view_step sid v v'"
  then show ?thesis using view_step_job assms(2-4) by blast
next
  assume "view_step sid no_scan v'"
  then show ?thesis using view_step_created assms(4) by fastforce
qed

text \<open>C4: every handler refines the scan protocol: from a reachable database a step changes each scan
  not at all, by one step of the protocol (creation, lease, start, renewal, result,
  closing, deletion), or by a deletion followed by the creation of a new scan; and
  whenever the scan row stays, its job moves as the job transition table allows and its
  identity columns do not change.\<close>

theorem handlers_refine_protocol:
  assumes "guest_reachable db" "guest_step db db'"
  shows "scan_change sid (view sid db) (view sid db') \<and>
    (\<forall>s s'. map_of (db_scans db) sid = Some s \<and> map_of (db_scans db') sid = Some s' \<longrightarrow>
      gs_job_state s' = gs_job_state s \<and> same_scan_identity s' s \<or>
      (\<exists>e. transition_job (gs_job_state s) e = Some (gs_job_state s')) \<and> same_scan_identity s' s \<or>
      gs_job_state s' = J_QUEUED)"
proof -
  have "scan_change sid (view sid db) (view sid db')"
    using guest_step_change [OF assms(2) reachable_inv [OF assms(1)]] by (simp add: guest_change_def)
  then show ?thesis
    using scan_change_job [OF _ reachable_view [OF assms(1)]] by (simp add: view_scan)
qed

theorem handlers_refine_protocol_witness:
  "scan_change ''scan-1'' (view ''scan-1'' created_db) (view ''scan-1'' leased_db) \<and>
   gs_job_state (the (map_of (db_scans leased_db) ''scan-1'')) = J_RUNNING"
proof -
  have step: "guest_step created_db leased_db"
    by (rule guest_step.acquiring, rule run_acquire)
  show ?thesis using handlers_refine_protocol [OF created_reachable step] by (simp add: run_tables)
qed

subsection \<open>Stale workers\<close>

lemma not_holding:
  assumes "map_of (db_scans db) (lc_guest_scan_id c) = Some s"
    and "gs_current_attempt_id s \<noteq> Some (lc_attempt_id c) \<or> gs_current_fence s \<noteq> lc_fence c"
    and "joined_attempt c db = Some (a, s')"
  shows "\<not> holds_lease c a s'"
  using assms by (auto simp: joined_Some view_scan holds_lease_def dest: db_integer_Some)

lemma persist_stale:
  assumes "guest_inv db" "map_of (db_scans db) sid = Some s"
    and "gs_current_attempt_id s \<noteq> Some (ri_attempt_id sub) \<or> gs_current_fence s \<noteq> ri_fence sub"
    and "persist_result_tx sid sub projection t db = Some (res, db')"
  shows "db' = db \<and> (\<forall>x. res \<noteq> RESULT_COMMITTED x)"
proof (cases "Option.bind (lock_current_result_state sid db) (map_locked_state t)")
  case (Some st)
  then obtain s' a where lock: "lock_current_result_state sid db = Some (s', a)"
    and map: "map_locked_state t (s', a) = Some st"
    by (auto simp: Option.bind_eq_Some_conv)
  note m = map_locked_Some [OF map] and k = lock [unfolded locked_Some]
  have s': "s' = s" using k assms(2) by (simp add: view_scan)
  have stale: "ri_attempt_id sub \<noteq> rc_current_attempt_id (lk_snapshot st) \<or>
      ri_fence sub \<noteq> rc_current_fence (lk_snapshot st)"
    using m(2,3) assms(3) by (auto simp: s')
  have acc: "ri_attempt_id acc = rc_current_attempt_id (lk_snapshot st) \<and>
      ri_fence acc = rc_current_fence (lk_snapshot st)"
    if "rc_accepted_result (lk_snapshot st) = Some acc" "rc_job_state (lk_snapshot st) = J_SUCCEEDED" for acc
  proof -
    have res: "result_inv s (sv_attempts (view sid db)) (sv_result (view sid db))"
      by (rule view_invD(5) [OF guest_invD(2) [OF assms(1)]]) (simp add: view_scan assms(2))
    have "gs_job_state s = J_SUCCEEDED" using that(2) m(1) by (simp add: s')
    with res obtain r where r: "sv_result (view sid db) = Some r" by (auto simp: result_inv_def split: option.splits)
    with res have "gs_accepted_attempt_id s = Some (rr_attempt_id r)"
      "gs_accepted_fence s = Some (rr_fence r)" "rr_fence r = gs_current_fence s"
      "gs_current_attempt_id s = Some (rr_attempt_id r)"
      by (simp_all add: result_inv_def)
    then show ?thesis
      using that(1) m(2,3,10)
      by (auto simp: s' map_accepted_def safe_positive_integer_def Option.bind_eq_Some_conv
          split: option.splits if_splits)
  qed
  have "decide_result_commit (lk_snapshot st) sub (lk_now st) \<noteq> PRIMARY_COMMIT j x"
    "decide_result_commit (lk_snapshot st) sub (lk_now st) \<noteq> ALREADY_COMMITTED" for j x
    using stale acc by (auto simp: primary_commit_iff already_committed_iff same_attempt_and_fence_def)
  then show ?thesis
    using assms(4) Some by (cases "decide_result_commit (lk_snapshot st) sub (lk_now st)")
      (auto simp: persist_result_tx_def)
qed (use assms(4) in \<open>auto simp: persist_result_tx_def\<close>)




subsection \<open>Retention\<close>

lemma due_scans_oldest:
  assumes "sid \<in> set (due_scans now n db)" "sid' \<notin> set (due_scans now n db)"
    and "keys_distinct (db_scans db)"
    and "map_of (db_scans db) sid = Some s" "map_of (db_scans db) sid' = Some s'"
    and "gs_deletion_deadline s' \<le> now"
  shows "gs_deletion_deadline s \<le> gs_deletion_deadline s'"
proof -
  define key where "key = (\<lambda>(sid :: string, s :: scan_row). (gs_deletion_deadline s, sid))"
  define xs where "xs = sort_key key (rows_where (\<lambda>_ s. gs_deletion_deadline s \<le> now) (db_scans db))"
  have due: "due_scans now n db = map fst (take (nat n) xs)"
    by (simp add: due_scans_def xs_def key_def)
  have xs: "(k, r) \<in> set xs \<longleftrightarrow> map_of (db_scans db) k = Some r \<and> gs_deletion_deadline r \<le> now" for k r
    using assms(3) by (auto simp: xs_def rows_where_set get_set)
  have "(sid', s') \<in> set (take (nat n) xs) \<union> set (drop (nat n) xs)"
    unfolding set_append [symmetric] append_take_drop_id using assms(5,6) by (simp add: xs)
  moreover have "(sid', s') \<notin> set (take (nat n) xs)"
    using assms(2) unfolding due by (metis fst_conv image_eqI set_map)
  ultimately have d: "(sid', s') \<in> set (drop (nat n) xs)" by simp
  obtain r where "(sid, r) \<in> set (take (nat n) xs)" using assms(1) by (auto simp: due)
  moreover from this have "r = s" using assms(4) xs by (auto dest: in_set_takeD)
  ultimately have t: "(sid, s) \<in> set (take (nat n) xs)" by simp
  have "sorted (map key (take (nat n) xs) @ map key (drop (nat n) xs))"
    unfolding map_append [symmetric] append_take_drop_id by (simp add: xs_def)
  then have "key (sid, s) \<le> key (sid', s')"
    using t d by (auto simp: sorted_append)
  then show ?thesis by (auto simp: key_def less_eq_prod_def)
qed



end
