(* ===== verification/Guest_Progress.thy ===== *)
theory Guest_Progress
  imports Guest_Behaviour
begin

section \<open>Retries, errors and progress\<close>

text \<open>
  A retried creation replays the first answer, a handler that reports a failure
  has changed nothing, and an expired lease never blocks a scan.
\<close>

subsection \<open>Replays\<close>

lemma sha256_text_digest:
  assumes "sha256_pattern s"
  shows "sha256_text (digest_bytes ''sha256:'' s) = s"
proof -
  have "length (digest_bytes ''sha256:'' s) = 32"
    using assms by (simp add: digest_bytes_def length_hex_bytes hex64_pattern_def)
  then have "sha256_pattern (sha256_text (digest_bytes ''sha256:'' s))" by (rule sha256_text_valid)
  then show ?thesis
    using digest.injective [OF _ assms] digest_bytes_sha256_text by blast
qed

lemma length_sha256_digest: "sha256_pattern s \<Longrightarrow> length (digest_bytes ''sha256:'' s) = 32"
  by (simp add: digest_bytes_def length_hex_bytes hex64_pattern_def)

text \<open>A scan is the only one of its session and key, so a lookup finds it alone.\<close>

lemma lookup_unique:
  assumes "guest_inv db" "map_of (db_scans db) sid = Some s"
  shows "lookup_scans (gs_session_scope s) (gs_idempotency_key s) db = [(sid, s)]"
proof -
  let ?rows = "lookup_scans (gs_session_scope s) (gs_idempotency_key s) db"
  have keys: "keys_distinct (db_scans db)"
    using guest_invD(1) [OF assms(1)] by (simp add: tables_distinct_def)
  have mem: "(k, r) \<in> set ?rows \<longleftrightarrow> map_of (db_scans db) k = Some r \<and>
      gs_session_scope r = gs_session_scope s \<and> gs_idempotency_key r = gs_idempotency_key s" for k r
    by (simp add: lookup_scans_def rows_where_set get_set [OF keys])
  have only: "p = (sid, s)" if "p \<in> set ?rows" for p
  proof -
    obtain k r where p: "p = (k, r)" by (cases p)
    with that mem have r: "map_of (db_scans db) k = Some r" "gs_session_scope r = gs_session_scope s"
      "gs_idempotency_key r = gs_idempotency_key s" by simp_all
    then have "k = sid"
      using guest_invD(5) [OF assms(1)] assms(2) unfolding keys_unique_def view_scan by blast
    with r(1) assms(2) show ?thesis by (simp add: p)
  qed
  have "distinct ?rows"
    using keys_distinct_rows [OF keys] by (simp add: lookup_scans_def keys_distinct_def distinct_map)
  moreover have set: "set ?rows = {(sid, s)}"
    using only mem [of sid s] assms(2) by blast
  ultimately have "length ?rows = 1" using distinct_card [of ?rows] by simp
  then obtain p where "?rows = [p]" by (cases ?rows) auto
  with set show ?thesis by simp
qed

lemma snapshot_persist_valid:
  assumes "snapshot_persist_request to_ascii v = Some q"
  shows "sha256_pattern (pq_session_scope q)" "idempotency_key_pattern (pq_idempotency_key q)"
    "sha256_pattern (pq_request_hash q)" "0 \<le> pq_now q"
    "pq_now q + SCAN_RETENTION_SECONDS \<le> MAX_POSTGRES_UNIX_SECONDS"
proof -
  from assms obtain scope key hash target digests now where r:
    "sha256_pattern scope" "idempotency_key_pattern key" "sha256_pattern hash" "0 \<le> now"
    "now + SCAN_RETENTION_SECONDS \<le> MAX_POSTGRES_UNIX_SECONDS"
    and q: "(case canonicalize_hostname to_ascii (JStr target) of
          Inl _ \<Rightarrow> None
        | Inr host \<Rightarrow>
            if host = target
            then Some \<lparr>pq_session_scope = scope, pq_idempotency_key = key, pq_request_hash = hash,
              pq_canonical_target = host, pq_network_digests = digests, pq_now = now\<rparr>
            else None) = Some q"
    by (auto simp: snapshot_persist_request_def guard_simps Option.bind_eq_Some_conv)
  from q have "pq_session_scope q = scope \<and> pq_idempotency_key q = key \<and> pq_request_hash q = hash \<and>
      pq_now q = now"
    by (cases "canonicalize_hostname to_ascii (JStr target)") (auto split: if_splits)
  with r show "sha256_pattern (pq_session_scope q)" "idempotency_key_pattern (pq_idempotency_key q)"
    "sha256_pattern (pq_request_hash q)" "0 \<le> pq_now q"
    "pq_now q + SCAN_RETENTION_SECONDS \<le> MAX_POSTGRES_UNIX_SECONDS" by simp_all
qed

definition stored_record :: "persistence_context \<Rightarrow> persist_request \<Rightarrow> string \<Rightarrow> bytes \<Rightarrow> idempotency_record" where
  "stored_record c q sid nonce =
     \<lparr>ir_principal_scope = ''GUEST_SESSION:'' @ pq_session_scope q,
      ir_operation = GUEST_SCAN_ENDPOINT_OPERATION, ir_key = pq_idempotency_key q,
      ir_request_hash = pq_request_hash q, ir_created_at = pq_now q,
      ir_expires_at = pq_now q + SCAN_ACCESS_SECONDS,
      ir_token_metadata = new_token_metadata c sid nonce (pq_now q + SCAN_ACCESS_SECONDS)\<rparr>"

lemma map_new_row:
  assumes "sha256_pattern (pq_session_scope q)" "sha256_pattern (pq_request_hash q)" "0 \<le> pq_now q"
    and "length nonce = 32" "fits_u32 (pc_active_key_version c)"
  shows "map_guest_idempotency_row sid (new_scan_row c q nonce) = Some (stored_record c q sid nonce)"
  using assms
  by (simp add: map_guest_idempotency_row_def new_scan_row_def row_digest_def row_integer_def
      row_safe_number_def sha256_text_digest length_sha256_digest stored_record_def new_token_metadata_def
      opt_all_def fits_u32_def UINT32_MAX_def MAX_SAFE_INTEGER_def SCAN_ACCESS_SECONDS_def)

lemma stored_record_valid:
  assumes "sha256_pattern (pq_session_scope q)" "idempotency_key_pattern (pq_idempotency_key q)"
    "sha256_pattern (pq_request_hash q)" "0 \<le> pq_now q"
    "pq_now q + SCAN_RETENTION_SECONDS \<le> MAX_POSTGRES_UNIX_SECONDS"
    and "valid_metadata (new_token_metadata c sid nonce (pq_now q + SCAN_ACCESS_SECONDS))"
  shows "valid_record (stored_record c q sid nonce)"
  using assms
  by (simp add: valid_record_def stored_record_def principal_scope_valid_def starts_with_def
      new_token_metadata_def is_u64_def UINT64_MAX_def SCAN_ACCESS_SECONDS_def
      SCAN_RETENTION_SECONDS_def MAX_POSTGRES_UNIX_SECONDS_def GUEST_IDEMPOTENCY_WINDOW_SECONDS_def)

lemma retry_decision:
  assumes v: "snapshot_persist_request to_ascii v = Some q"
    and v': "snapshot_persist_request to_ascii v' = Some (q\<lparr>pq_now := now'\<rparr>)"
    and now: "now' < pq_now q + SCAN_ACCESS_SECONDS"
    and token: "derive_guest_result_token
      (new_token_metadata c sid nonce (pq_now q + SCAN_ACCESS_SECONDS)) key = Some token"
    and key: "keyring (pc_active_key_version c) = Some key"
  shows "decide_guest_scan_idempotency
      (request_object \<lparr>iq_session_scope = pq_session_scope q, iq_key = pq_idempotency_key q,
         iq_request_hash = pq_request_hash q, iq_now = now'\<rparr>)
      (record_object (stored_record c q sid nonce)) keyring =
    IDEM_REPLAY sid token (pq_now q + SCAN_ACCESS_SECONDS) (pq_now q + SCAN_ACCESS_SECONDS - now')"
proof -
  note q = snapshot_persist_valid [OF v] and q' = snapshot_persist_valid [OF v']
  have meta: "valid_metadata (new_token_metadata c sid nonce (pq_now q + SCAN_ACCESS_SECONDS))"
    using token by (simp add: derive_token_eq split: if_splits)
  have "is_u64 now'"
    using q'(4,5) by (simp add: is_u64_def UINT64_MAX_def SCAN_RETENTION_SECONDS_def
        MAX_POSTGRES_UNIX_SECONDS_def)
  then have request: "parse_idempotency_request (request_object \<lparr>iq_session_scope = pq_session_scope q,
      iq_key = pq_idempotency_key q, iq_request_hash = pq_request_hash q, iq_now = now'\<rparr>) =
      Some \<lparr>iq_session_scope = pq_session_scope q, iq_key = pq_idempotency_key q,
        iq_request_hash = pq_request_hash q, iq_now = now'\<rparr>"
    using q(1-3) by (intro parse_request_object) (simp add: valid_request_def)
  have stored: "parse_idempotency_record (record_object (stored_record c q sid nonce)) =
      Some (stored_record c q sid nonce)"
    by (rule parse_record_object [OF stored_record_valid [OF q meta]])
  show ?thesis
    using now token key
    by (subst decide_existing [OF request stored])
      (simp_all add: matches_lookup_def stored_record_def new_token_metadata_def)
qed

lemma created_by:
  assumes inv: "guest_inv db"
    and tx: "create_or_replay_tx c q db = Some (PERSISTED act sid token expires ttl, db')"
    and act: "act \<noteq> PA_REPLAY"
  obtains material db1 action where "guest_inv db1"
    "token_material c sid (pq_now q + GUEST_IDEMPOTENCY_WINDOW_SECONDS) = Some material"
    "insert_and_reserve c q action sid material db db1 = Some (PERSISTED act sid token expires ttl, db')"
proof -
  define rows where "rows = lookup_scans (digest_bytes ''sha256:'' (pq_session_scope q)) (pq_idempotency_key q) db"
  obtain action where "create_or_replace c q action rows db = Some (PERSISTED act sid token expires ttl, db')"
    using tx act by (auto simp: create_or_replay_tx_def rows_def Let_def split: idempotency_result.splits)
  then obtain sid' material db1 where
    m: "token_material c sid' (pq_now q + GUEST_IDEMPOTENCY_WINDOW_SECONDS) = Some material"
    and free: "(if action = PA_REPLACE_EXPIRED then replace_expired rows (pq_now q) db else Some db) = Some db1"
    and ins: "insert_and_reserve c q action sid' material db db1 =
      Some (PERSISTED act sid token expires ttl, db')"
    by (auto simp: create_or_replace_def Option.bind_eq_Some_conv split: option.splits)
  have "guest_inv db1"
  proof (cases "action = PA_REPLACE_EXPIRED")
    case True
    then have "replace_expired rows (pq_now q) db = Some db1" using free by simp
    then obtain old where "scan_move old db db1" "keys_unique db1"
      by (rule replace_expired_moves [OF inv rows_def])
    then show ?thesis by (rule scan_move_inv [OF inv])
  qed (use free inv in simp)
  moreover have "sid' = sid" using insert_and_reserve_moves(3) [OF calculation ins] by simp
  ultimately show ?thesis using that m ins by blast
qed

lemma retry_replays:
  assumes "guest_reachable db"
    and "snapshot_persist_request to_ascii v = Some q"
    and "create_or_replay to_ascii tries c v db = (PERSISTED act sid token expires ttl, db')"
    and "act \<noteq> PA_REPLAY"
    and "snapshot_persist_request to_ascii v' = Some (q\<lparr>pq_now := now'\<rparr>)" "now' < expires"
    and "pc_keyring c' = pc_keyring c"
  shows "create_or_replay to_ascii (RUNS # tries') c' v' db' =
    (PERSISTED PA_REPLAY sid token expires (expires - now'), db')"
proof -
  note inv = reachable_inv [OF assms(1)]
  have tx: "create_or_replay_tx c q db = Some (PERSISTED act sid token expires ttl, db')"
    using assms(3) unfolding create_or_replay_def assms(2) option.case
    by (cases "transaction tries (create_or_replay_tx c q) db")
      (auto elim: transaction_cases split: option.splits)
  obtain material db1 action where free: "guest_inv db1"
    and material: "token_material c sid (pq_now q + GUEST_IDEMPOTENCY_WINDOW_SECONDS) = Some material"
    and ins: "insert_and_reserve c q action sid material db db1 =
      Some (PERSISTED act sid token expires ttl, db')"
    using created_by [OF inv tx assms(4)] by blast
  note i = insert_and_reserve_moves [OF free ins]
  have inv': "guest_inv db'" by (rule scan_move_inv [OF free i(1,2)])
  define nonce where "nonce = snd material"
  have row: "map_of (db_scans db') sid = Some (new_scan_row c q nonce)"
    using i(6) by (simp add: view_scan nonce_def)
  obtain key where key: "pc_keyring c (pc_active_key_version c) = Some key" "length nonce = 32"
    and token: "derive_guest_result_token (new_token_metadata c sid nonce (pq_now q + SCAN_ACCESS_SECONDS)) key
      = Some token"
    using material i(5)
    by (auto simp: token_material_def nonce_def Option.bind_eq_Some_conv
        GUEST_IDEMPOTENCY_WINDOW_SECONDS_def SCAN_ACCESS_SECONDS_def)
  have expires: "expires = pq_now q + SCAN_ACCESS_SECONDS"
    using i(8) by (simp add: GUEST_IDEMPOTENCY_WINDOW_SECONDS_def SCAN_ACCESS_SECONDS_def)
  have version: "fits_u32 (pc_active_key_version c)"
    using token by (auto simp: derive_token_eq valid_metadata_def new_token_metadata_def split: if_splits)
  note q = snapshot_persist_valid [OF assms(2)]
  have rows: "lookup_scans (digest_bytes ''sha256:'' (pq_session_scope q)) (pq_idempotency_key q) db' =
      [(sid, new_scan_row c q nonce)]"
    using lookup_unique [OF inv' row] by (simp add: new_scan_row_def)
  have existing: "existing_value [(sid, new_scan_row c q nonce)] = record_object (stored_record c q sid nonce)"
    using map_new_row [OF q(1,3,4) key(2) version] by (simp add: existing_value_def)
  have "create_or_replay_tx c' (q\<lparr>pq_now := now'\<rparr>) db' =
      Some (PERSISTED PA_REPLAY sid token expires (expires - now'), db')"
    using retry_decision [OF assms(2,5) _ token, of "pc_keyring c'"] key(1) assms(6,7) expires
    by (simp add: create_or_replay_tx_def rows existing)
  then show ?thesis by (simp add: create_or_replay_def assms(5) transaction_runs)
qed



subsection \<open>Errors\<close>

lemma transaction_effect:
  assumes "transaction tries tx db = (x, db1)"
    and "\<And>y d. tx db = Some (y, d) \<Longrightarrow> d = db \<or> P y"
  shows "db1 = db \<or> (\<exists>y. x = Some y \<and> P y)"
  using assms(1) by (rule transaction_cases) (use assms(2) in blast)+

lemma acquire_tx_changes:
  "acquire_tx sid candidate now db = Some (res, db') \<Longrightarrow>
   db' = db \<or> (\<exists>l. res = LEASE_ACQUIRED l) \<or> (\<exists>j. res = JOB_TERMINATED j)"
  by (auto simp: acquire_tx_def acquire_running_def acquire_fresh_def terminate_job_def
      Option.bind_eq_Some_conv split: option.splits if_splits)

lemma start_tx_changes: "start_tx c now db = Some (res, db') \<Longrightarrow> db' = db \<or> res = STARTED"
  by (auto simp: start_tx_def Option.bind_eq_Some_conv split: option.splits if_splits)

lemma renew_tx_changes: "renew_tx c now db = Some (res, db') \<Longrightarrow> db' = db \<or> (\<exists>v l. res = LEASE_RENEWED v l)"
  by (auto simp: renew_tx_def Let_def Option.bind_eq_Some_conv split: option.splits if_splits)

lemma cancel_tx_changes:
  "cancel_tx sid now db = Some (res, db') \<Longrightarrow> db' = db \<or> res \<in> {CANCELLED, ALREADY_CANCELLED}"
  by (auto simp: cancel_tx_def Option.bind_eq_Some_conv split: option.splits if_splits)

lemma persist_tx_changes:
  "persist_result_tx sid sub projection t db = Some (res, db') \<Longrightarrow> db' = db \<or> res = RESULT_COMMITTED True"
  by (auto simp: persist_result_tx_def Option.bind_eq_Some_conv
      split: option.splits if_splits commit_decision.splits)

lemma create_tx_changes:
  assumes "create_or_replay_tx c q db = Some (res, db')"
  shows "db' = db \<or> (\<exists>act sid token e ttl. res = PERSISTED act sid token e ttl)"
proof -
  have "db' = db \<or> (\<exists>act sid token e ttl. res = PERSISTED act sid token e ttl)"
    if "create_or_replace c q action rows db = Some (res, db')" for action rows
  proof -
    from that have "res = PERSIST_FAILED (PF_IDEMPOTENCY RESULT_TOKEN_UNAVAILABLE) \<and> db' = db \<or>
      (\<exists>sid material db1. insert_and_reserve c q action sid material db db1 = Some (res, db'))"
      by (auto simp: create_or_replace_def Option.bind_eq_Some_conv simp del: split_paired_Ex
          split: option.splits)
    then show ?thesis using insert_and_reserve_rollback by blast
  qed
  then show ?thesis
    using assms by (auto simp: create_or_replay_tx_def Let_def split: idempotency_result.splits)
qed

lemma acquire_changes:
  "acquire tries v clock candidate db = (res, db') \<Longrightarrow>
   db' = db \<or> (\<exists>l. res = LEASE_ACQUIRED l) \<or> (\<exists>j. res = JOB_TERMINATED j)"
  by (auto simp: acquire_def split: option.splits prod.splits
      dest!: transaction_effect [OF _ acquire_tx_changes])

lemma start_changes: "start_attempt tries v clock db = (res, db') \<Longrightarrow> db' = db \<or> res = STARTED"
  by (auto simp: start_attempt_def split: option.splits prod.splits
      dest!: transaction_effect [OF _ start_tx_changes])

lemma renew_changes:
  "renew_lease tries v clock db = (res, db') \<Longrightarrow> db' = db \<or> (\<exists>n l. res = LEASE_RENEWED n l)"
  by (auto simp: renew_lease_def split: option.splits prod.splits
      dest!: transaction_effect [OF _ renew_tx_changes])

lemma cancel_changes:
  "cancel tries v clock db = (res, db') \<Longrightarrow> db' = db \<or> res \<in> {CANCELLED, ALREADY_CANCELLED}"
  by (auto simp: cancel_def split: option.splits prod.splits
      dest!: transaction_effect [OF _ cancel_tx_changes])

lemma persist_changes:
  "persist_result tries sid sub projection now db = (res, db') \<Longrightarrow> db' = db \<or> res = RESULT_COMMITTED True"
  by (auto simp: persist_result_def split: option.splits prod.splits
      dest!: transaction_effect [OF _ persist_tx_changes])

lemma create_changes:
  "create_or_replay to_ascii tries c v db = (res, db') \<Longrightarrow>
   db' = db \<or> (\<exists>act sid token e ttl. res = PERSISTED act sid token e ttl)"
  by (auto simp: create_or_replay_def split: option.splits prod.splits
      dest!: transaction_effect [OF _ create_tx_changes])


end
