(* ===== verification/View_Properties.thy ===== *)
theory View_Properties
  imports Guest_Result_View
begin

section \<open>What a guest result view shows\<close>

text \<open>
  A view shows every observation of the stored projection once and every coverage
  group once, and the route that sends it passes it on unchanged and lets nothing
  else through.
\<close>

subsection \<open>Sanitized projections\<close>

definition valid_projection :: "(string \<Rightarrow> string) \<Rightarrow> sanitized_projection \<Rightarrow> bool" where
  "valid_projection to_ascii p \<longleftrightarrow>
     canonicalize_hostname to_ascii (JStr (sp_canonical_host p)) = Inr (sp_canonical_host p) \<and>
     length (sp_posture p) \<le> length GUEST_POSTURE_CHECKS \<and> list_all valid_observation (sp_posture p) \<and>
     distinct (map ob_check_id (sp_posture p)) \<and>
     1 \<le> length (sp_coverage p) \<and> length (sp_coverage p) \<le> length GUEST_COVERAGE_GROUPS \<and>
     list_all valid_coverage (sp_coverage p) \<and> distinct (map cv_detector_group (sp_coverage p)) \<and>
     0 \<le> sp_potential_risk_count p \<and> sp_potential_risk_count p \<le> 256 \<and>
     0 \<le> sp_warning_count p \<and> sp_warning_count p \<le> 32 \<and>
     0 \<le> sp_duration_ms p \<and> sp_duration_ms p \<le> 30000 \<and>
     0 \<le> sp_request_count p \<and> sp_request_count p \<le> 40"

lemma as_among_Some [guard_simps]: "as_among allowed v = Some s \<longleftrightarrow> v = JStr s \<and> s \<in> set allowed"
  by (simp add: as_among_def as_str_matching_Some)

lemma snapshot_items_valid:
  "snapshot_observation v = Some b \<Longrightarrow> valid_observation b"
  "snapshot_coverage v = Some c \<Longrightarrow> valid_coverage c"
  by (auto simp: snapshot_observation_def snapshot_coverage_def valid_items guard_simps
      Option.bind_eq_Some_conv)

lemma snapshot_items_back:
  "valid_observation b \<Longrightarrow> snapshot_observation (observation_value b) = Some b"
  "valid_coverage c \<Longrightarrow> snapshot_coverage (coverage_value c) = Some c"
  by (simp_all add: snapshot_observation_def snapshot_coverage_def valid_items observation_value_def
      coverage_value_def exact_object_def as_among_def as_str_matching_def)

lemma all_some_valid:
  assumes "all_some f xs = Some ys" "\<And>v y. f v = Some y \<Longrightarrow> ok y"
  shows "list_all ok ys"
  using all_some_set [OF assms(1)] assms(2) by (auto simp: list_all_iff)

lemma snapshot_projection_valid:
  assumes "snapshot_sanitized_guest_projection to_ascii v = Some p"
  shows "valid_projection to_ascii p"
  using assms
  by (auto simp: snapshot_sanitized_guest_projection_def valid_projection_def Let_def guard_simps
      Option.bind_eq_Some_conv simp flip: all_some_length
      dest: all_some_valid [OF _ snapshot_items_valid(1)] all_some_valid [OF _ snapshot_items_valid(2)])

lemma snapshot_projection_parts:
  assumes v: "exact_object v PROJECTION_KEYS" "get_prop v ''schema_version'' = JNum 1"
    "get_prop v ''canonical_host'' = JStr (sp_canonical_host p)"
    "get_prop v ''posture'' = JArr (map observation_value (sp_posture p))"
    "get_prop v ''potential_risk_count'' = JNum (sp_potential_risk_count p)"
    "get_prop v ''coverage'' = JArr (map coverage_value (sp_coverage p))"
    "get_prop v ''warning_count'' = JNum (sp_warning_count p)"
    "get_prop v ''execution'' = JObj [(''policy_version'', JStr ''1.0.0''),
       (''duration_ms'', JNum (sp_duration_ms p)), (''request_count'', JNum (sp_request_count p))]"
    and p: "valid_projection to_ascii p"
  shows "snapshot_sanitized_guest_projection to_ascii v = Some p"
proof -
  have items: "all_some snapshot_observation (map observation_value (sp_posture p)) = Some (sp_posture p)"
    "all_some snapshot_coverage (map coverage_value (sp_coverage p)) = Some (sp_coverage p)"
    using p all_some_map [of "sp_posture p" snapshot_observation observation_value "\<lambda>b. b"]
      all_some_map [of "sp_coverage p" snapshot_coverage coverage_value "\<lambda>c. c"]
    by (simp_all add: valid_projection_def list_all_iff snapshot_items_back)
  have bounded: "as_bounded 0 hi (JNum n) = Some n" if "0 \<le> n" "n \<le> hi" "hi \<le> 30000" for n hi
    using that by (simp add: as_bounded_def safe_int_def MAX_SAFE_INTEGER_def)
  show ?thesis
    using p v(1)
    by (simp add: snapshot_sanitized_guest_projection_def v(2-) items bounded valid_projection_def
        Let_def exact_object_def [of "JObj _"])
qed

subsection \<open>Lookups\<close>

lemma option_ext: "(\<And>x. a = Some x \<longleftrightarrow> b = Some x) \<Longrightarrow> a = b"
  by (metis not_Some_eq)

lemma lookup_iff:
  assumes "distinct (map f xs)"
  shows "map_of (rev (map (\<lambda>x. (f x, x)) xs)) k = Some x \<longleftrightarrow> x \<in> set xs \<and> f x = k"
proof -
  have "map fst (rev (map (\<lambda>x. (f x, x)) xs)) = rev (map f xs)" by (simp add: rev_map)
  then have "distinct (map fst (rev (map (\<lambda>x. (f x, x)) xs)))" using assms by simp
  then show ?thesis by (auto simp: map_of_eq_Some_iff)
qed

lemma lookup_None:
  "map_of (rev (map (\<lambda>x. (f x, x)) xs)) k = None \<longleftrightarrow> k \<notin> f ` set xs"
  by (simp add: map_of_eq_None_iff image_image)

lemma lookup_same:
  assumes "distinct (map f xs)" "distinct (map f ys)" "set xs = set ys"
  shows "map_of (rev (map (\<lambda>x. (f x, x)) xs)) = map_of (rev (map (\<lambda>x. (f x, x)) ys))"
  by (rule ext, rule option_ext) (simp only: lookup_iff [OF assms(1)] lookup_iff [OF assms(2)] assms(3))

subsection \<open>Sections\<close>

lemma section_checks_all:
  "distinct (concat (map snd SECTION_CHECKS))" "set (concat (map snd SECTION_CHECKS)) = set GUEST_POSTURE_CHECKS"
  by code_simp+

lemma section_observations_concat:
  "concat (map (\<lambda>(sid, checks). section_observations p checks) ss) =
   section_observations p (concat (map snd ss))"
  by (induction ss) (auto simp: section_observations_def)

lemma section_observations_set:
  assumes "distinct (map ob_check_id (sp_posture p))"
  shows "set (section_observations p checks) = {b \<in> set (sp_posture p). ob_check_id b \<in> set checks}"
proof -
  have found: "Some b = map_of (rev (map (\<lambda>b. (ob_check_id b, b)) (sp_posture p))) k \<longleftrightarrow>
      b \<in> set (sp_posture p) \<and> ob_check_id b = k" for b k
    using lookup_iff [OF assms, of k b] by (simp add: eq_commute)
  show ?thesis
    by (auto simp: section_observations_def found split: option.splits)
qed

lemma section_observations_distinct:
  assumes "distinct (map ob_check_id (sp_posture p))" "distinct checks"
  shows "distinct (map ob_check_id (section_observations p checks))"
  using assms(2)
proof (induction checks)
  case (Cons c checks)
  have set: "ob_check_id ` set (section_observations p checks) \<subseteq> set checks"
    using section_observations_set [OF assms(1)] by auto
  show ?case
  proof (cases "map_of (rev (map (\<lambda>b. (ob_check_id b, b)) (sp_posture p))) c")
    case (Some b)
    then have "ob_check_id b = c" using lookup_iff [OF assms(1)] by blast
    with Some Cons set show ?thesis by (auto simp: section_observations_def)
  qed (use Cons in \<open>simp add: section_observations_def\<close>)
qed (simp add: section_observations_def)

definition all_observations :: "result_view \<Rightarrow> guest_observation list" where
  "all_observations w = concat (map snd (gv_posture_sections w))"

lemma all_observations_build:
  "all_observations (build_view a completed p) =
   section_observations p (concat (map snd SECTION_CHECKS))"
  by (simp add: all_observations_def build_view_def Let_def comp_def case_prod_unfold
      flip: section_observations_concat)

lemma observations_shown:
  assumes "valid_projection to_ascii p"
  shows "set (all_observations (build_view a completed p)) = set (sp_posture p)"
    "distinct (map ob_check_id (all_observations (build_view a completed p)))"
proof -
  have p: "distinct (map ob_check_id (sp_posture p))"
    "\<forall>b \<in> set (sp_posture p). ob_check_id b \<in> set GUEST_POSTURE_CHECKS"
    using assms by (simp_all add: valid_projection_def list_all_iff valid_items)
  show "set (all_observations (build_view a completed p)) = set (sp_posture p)"
    using p(2) unfolding all_observations_build section_observations_set [OF p(1)] section_checks_all(2)
    by blast
  show "distinct (map ob_check_id (all_observations (build_view a completed p)))"
    unfolding all_observations_build
    by (rule section_observations_distinct [OF p(1) section_checks_all(1)])
qed

subsection \<open>Coverage groups\<close>

lemma all_filtered: "length (filter P xs) = length xs \<longleftrightarrow> (\<forall>x \<in> set xs. P x)"
proof (induction xs)
  case (Cons x xs)
  show ?case
  proof (cases "P x")
    case False
    then have "length (filter P (x # xs)) < length (x # xs)" by (simp add: less_Suc_eq_le)
    with False show ?thesis by auto
  qed (use Cons in simp)
qed simp

lemma groups_distinct: "distinct GUEST_COVERAGE_GROUPS"
  by code_simp

lemma group_state_eq:
  assumes "valid_projection to_ascii p"
  shows "c \<in> set (sp_coverage p) \<Longrightarrow>
      group_state p (cv_detector_group c) = public_coverage_state (cv_execution_status c) (cv_completeness c)"
    "g \<notin> cv_detector_group ` set (sp_coverage p) \<Longrightarrow> group_state p g = ''MISSING''"
proof -
  have p: "distinct (map cv_detector_group (sp_coverage p))" using assms by (simp add: valid_projection_def)
  show "group_state p (cv_detector_group c) = public_coverage_state (cv_execution_status c) (cv_completeness c)"
    if "c \<in> set (sp_coverage p)"
    using lookup_iff [OF p, of "cv_detector_group c" c] that by (simp add: group_state_def)
  show "group_state p g = ''MISSING''" if "g \<notin> cv_detector_group ` set (sp_coverage p)"
    using that unfolding group_state_def by (simp flip: lookup_None)
qed

lemma public_state_cases:
  assumes "valid_coverage c"
  shows "public_coverage_state (cv_execution_status c) (cv_completeness c) \<in> set PUBLIC_COVERAGE_STATES"
  using assms
  by (auto simp: valid_items public_coverage_state_def PUBLIC_COVERAGE_STATES_def COMPLETENESS_def)

text \<open>The coverage item the route rebuilds from a group, which has the same public state.\<close>

definition public_coverage :: "string \<Rightarrow> string \<Rightarrow> guest_coverage" where
  "public_coverage g s =
     \<lparr>cv_detector_group = g,
      cv_execution_status = (if s = ''UNAVAILABLE'' then ''FAILED'' else ''SUCCESS''),
      cv_completeness = (if s = ''UNAVAILABLE'' then ''UNKNOWN'' else s)\<rparr>"

definition public_coverages :: "(string \<times> string) list \<Rightarrow> guest_coverage list" where
  "public_coverages groups =
     map (\<lambda>(g, s). public_coverage g s) (filter (\<lambda>(g, s). s \<noteq> ''MISSING'') groups)"

lemma public_coverage_valid:
  assumes "g \<in> set GUEST_COVERAGE_GROUPS" "s \<in> set PUBLIC_COVERAGE_STATES"
  shows "valid_coverage (public_coverage g s)"
    "public_coverage_state (cv_execution_status (public_coverage g s)) (cv_completeness (public_coverage g s)) = s"
  using assms
  by (auto simp: public_coverage_def valid_items public_coverage_state_def PUBLIC_COVERAGE_STATES_def
      COMPLETENESS_def EXECUTION_STATUSES_def)

lemma group_state_known:
  assumes "valid_projection to_ascii p"
  shows "group_state p g \<noteq> ''MISSING'' \<longleftrightarrow> g \<in> cv_detector_group ` set (sp_coverage p)"
    "group_state p g \<noteq> ''MISSING'' \<Longrightarrow> group_state p g \<in> set PUBLIC_COVERAGE_STATES"
proof -
  have valid: "valid_coverage c" if "c \<in> set (sp_coverage p)" for c
    using assms that by (simp add: valid_projection_def list_all_iff)
  have known: "group_state p (cv_detector_group c) \<in> set PUBLIC_COVERAGE_STATES" if "c \<in> set (sp_coverage p)" for c
    using public_state_cases [OF valid [OF that]] by (simp add: group_state_eq(1) [OF assms that])
  moreover have "''MISSING'' \<notin> set PUBLIC_COVERAGE_STATES" by (simp add: PUBLIC_COVERAGE_STATES_def)
  ultimately show "group_state p g \<noteq> ''MISSING'' \<longleftrightarrow> g \<in> cv_detector_group ` set (sp_coverage p)"
    using group_state_eq(2) [OF assms, of g] by (metis imageE)
  then show "group_state p g \<noteq> ''MISSING'' \<Longrightarrow> group_state p g \<in> set PUBLIC_COVERAGE_STATES"
    using known by auto
qed

definition group_states :: "sanitized_projection \<Rightarrow> (string \<times> string) list" where
  "group_states p = map (\<lambda>g. (g, group_state p g)) GUEST_COVERAGE_GROUPS"

lemma public_coverages_states:
  "public_coverages (group_states p) =
   map (\<lambda>g. public_coverage g (group_state p g)) (filter (\<lambda>g. group_state p g \<noteq> ''MISSING'') GUEST_COVERAGE_GROUPS)"
  by (simp add: public_coverages_def group_states_def filter_map comp_def)

text \<open>The projection the route rebuilds from a view; it has the same view.\<close>

definition public_projection :: "sanitized_projection \<Rightarrow> guest_observation list \<Rightarrow> sanitized_projection" where
  "public_projection p posture =
     p\<lparr>sp_posture := posture, sp_coverage := public_coverages (group_states p), sp_duration_ms := 0,
       sp_request_count := 0\<rparr>"

lemma public_projection_view:
  assumes p: "valid_projection to_ascii p"
    and posture: "distinct (map ob_check_id posture)" "set posture = set (sp_posture p)"
  shows "valid_projection to_ascii (public_projection p posture)"
    "build_view a completed (public_projection p posture) = build_view a completed p"
proof -
  let ?q = "public_projection p posture"
  let ?groups = "filter (\<lambda>g. group_state p g \<noteq> ''MISSING'') GUEST_COVERAGE_GROUPS"
  have ids: "map cv_detector_group (sp_coverage ?q) = ?groups"
    by (simp add: public_projection_def public_coverages_states comp_def public_coverage_def)
  have "length posture = length (sp_posture p)"
    using posture p distinct_card [of posture] distinct_card [of "sp_posture p"]
    by (simp add: valid_projection_def distinct_map)
  moreover have "list_all valid_coverage (sp_coverage ?q)"
    using public_coverage_valid(1) group_state_known(2) [OF p]
    by (auto simp: public_projection_def public_coverages_states list_all_iff)
  moreover have "?groups \<noteq> []"
  proof -
    obtain c where c: "c \<in> set (sp_coverage p)"
      using p by (cases "sp_coverage p") (auto simp: valid_projection_def)
    then have "cv_detector_group c \<in> set ?groups"
      using p group_state_known(1) [OF p] by (auto simp: valid_projection_def list_all_iff valid_items)
    then show ?thesis by (metis list.distinct(1) list.set_cases)
  qed
  moreover have "length ?groups \<le> length GUEST_COVERAGE_GROUPS" by (rule length_filter_le)
  moreover have len: "length (sp_coverage ?q) = length ?groups" using arg_cong [OF ids, of length] by simp
  moreover have "distinct ?groups" using groups_distinct by simp
  ultimately show q: "valid_projection to_ascii ?q"
    using p posture unfolding valid_projection_def ids
    by (simp add: public_projection_def list_all_iff Suc_le_eq)
  have "section_observations ?q = section_observations p"
    using lookup_same [of ob_check_id posture "sp_posture p"] posture p
    by (simp add: fun_eq_iff section_observations_def public_projection_def valid_projection_def)
  moreover have "group_state ?q g = group_state p g" if "g \<in> set GUEST_COVERAGE_GROUPS" for g
  proof (cases "group_state p g = ''MISSING''")
    case True
    then have "g \<notin> cv_detector_group ` set (sp_coverage ?q)"
      by (auto simp: public_projection_def public_coverages_states public_coverage_def)
    then show ?thesis using group_state_eq(2) [OF q] True by simp
  next
    case False
    then have mem: "public_coverage g (group_state p g) \<in> set (sp_coverage ?q)"
      using that by (auto simp: public_projection_def public_coverages_states)
    show ?thesis
      using group_state_eq(1) [OF q mem] public_coverage_valid(2) [OF that group_state_known(2) [OF p False]]
      by (simp add: public_coverage_def)
  qed
  ultimately show "build_view a completed ?q = build_view a completed p"
    by (simp add: build_view_def public_projection_def cong: map_cong)
qed

subsection \<open>The route that sends a view\<close>

text \<open>Values without opaque parts and without repeated keys equal themselves.\<close>

fun plain :: "jsval \<Rightarrow> bool" where
  "plain (JArr xs) \<longleftrightarrow> list_all plain xs"
| "plain (JObj kvs) \<longleftrightarrow> distinct (map fst kvs) \<and> list_all (\<lambda>(k, v). plain v) kvs"
| "plain v \<longleftrightarrow> v \<noteq> JOpaque \<and> v \<noteq> JFrac"

lemma deep_equal_refl: "plain v \<Longrightarrow> deep_equal v v"
proof (induction v rule: plain.induct)
  case (1 xs)
  then show ?case by (auto simp: list_all_iff zip_same)
next
  case (2 kvs)
  then show ?case by (force simp: list_all_iff)
qed simp_all

lemma view_object_plain: "plain (decision_object (READ_OK w))"
  by (auto simp: view_object_def observation_value_def list_all_iff GUEST_RESULT_SECURITY_HEADERS_def)

lemma date_seconds_iso:
  assumes "0 \<le> n" "n \<le> MAX_UNIX_SECONDS_FOR_ISO"
  shows "date_seconds (JStr (iso_date n)) = Some n"
  using assms parse_iso_date [OF assms]
  by (simp add: date_seconds_def safe_int_def MAX_SAFE_INTEGER_def MAX_UNIX_SECONDS_FOR_ISO_def)

definition valid_access :: "result_access \<Rightarrow> bool" where
  "valid_access a \<longleftrightarrow>
     id_pattern (ra_guest_scan_id a) \<and> 1 \<le> ra_access_expires_at a \<and>
     ra_access_expires_at a \<le> MAX_UNIX_SECONDS_FOR_ISO \<and> 1 \<le> ra_token_expires_in a \<and>
     ra_token_expires_in a \<le> MAX_RESULT_WINDOW_SECONDS"

lemma as_iso_seconds_Some [guard_simps]:
  "as_iso_seconds lo v = Some n \<longleftrightarrow> v = JBig n \<and> lo \<le> n \<and> n \<le> MAX_UNIX_SECONDS_FOR_ISO"
  by (cases v) auto

lemma snapshot_access_valid: "snapshot_access v = Some a \<Longrightarrow> valid_access a"
  by (auto simp: snapshot_access_def valid_access_def Let_def guard_simps Option.bind_eq_Some_conv)

lemma snapshot_access_object: "valid_access a \<Longrightarrow> snapshot_access (access_object a) = Some a"
  by (simp add: snapshot_access_def access_object_def valid_access_def Let_def exact_object_def ACCESS_KEYS_def
      as_str_matching_def as_bounded_def safe_int_def MAX_SAFE_INTEGER_def GUEST_RESULT_SECURITY_HEADERS_def
      MAX_RESULT_WINDOW_SECONDS_def)

lemma created_from:
  assumes "create_guest_result_view to_ascii v = Some w"
  obtains a p completed where "snapshot_access (get_prop v ''access'') = Some a" "valid_access a"
    "snapshot_sanitized_guest_projection to_ascii (get_prop v ''projection'') = Some p"
    "valid_projection to_ascii p" "get_prop v ''completed_at_unix_seconds'' = JBig completed"
    "0 \<le> completed" "completed \<le> ra_access_expires_at a - ra_token_expires_in a"
    "w = build_view a completed p"
  using assms snapshot_access_valid snapshot_projection_valid
  by (auto simp: create_guest_result_view_def guard_simps Option.bind_eq_Some_conv)

definition view_input :: "result_access \<Rightarrow> int \<Rightarrow> jsval \<Rightarrow> jsval" where
  "view_input a completed projection =
     JObj [(''access'', access_object a), (''completed_at_unix_seconds'', JBig completed),
       (''projection'', projection)]"

lemma create_view:
  assumes "valid_access a" "0 \<le> completed" "completed \<le> ra_access_expires_at a - ra_token_expires_in a"
    and "snapshot_sanitized_guest_projection to_ascii projection = Some p"
  shows "create_guest_result_view to_ascii (view_input a completed projection) = Some (build_view a completed p)"
proof -
  have "completed \<le> MAX_UNIX_SECONDS_FOR_ISO" using assms(1,3) by (simp add: valid_access_def)
  then show ?thesis
    using assms(2-)
    by (simp add: create_guest_result_view_def view_input_def exact_object_def VIEW_INPUT_KEYS_def
        snapshot_access_object [OF assms(1)])
qed

lemma rebuild_view:
  assumes a: "valid_access a" and p: "valid_projection to_ascii p"
    and completed: "0 \<le> completed" "completed \<le> ra_access_expires_at a - ra_token_expires_in a"
  shows "rebuild_decision to_ascii (view_object (build_view a completed p)) (ra_guest_scan_id a)
      (ra_access_expires_at a - ra_token_expires_in a) = Some (build_view a completed p)"
proof -
  let ?w = "build_view a completed p"
  let ?posture = "all_observations ?w"
  let ?q = "public_projection p ?posture"
  note shown = observations_shown [OF p, of a completed]
  note q = public_projection_view [OF p shown(2,1)]
  have dates: "date_seconds (JStr (gv_completed_at ?w)) = Some completed"
    "date_seconds (JStr (gv_access_expires_at ?w)) = Some (ra_access_expires_at a)"
    using a completed by (simp_all add: build_view_def Let_def valid_access_def date_seconds_iso)
  have short: "length bs \<le> length GUEST_POSTURE_CHECKS" if "(sid, bs) \<in> set (gv_posture_sections ?w)" for sid bs
  proof -
    have "ob_check_id ` set ?posture \<subseteq> set GUEST_POSTURE_CHECKS"
      using p shown(1) by (auto simp: valid_projection_def list_all_iff valid_items)
    then have "length ?posture \<le> length GUEST_POSTURE_CHECKS"
      using card_mono [of "set GUEST_POSTURE_CHECKS" "ob_check_id ` set ?posture"]
        card_length [of GUEST_POSTURE_CHECKS] distinct_card [OF shown(2)] by simp
    moreover have "length bs \<le> length ?posture"
      using member_le_sum_list [of "length bs" "map length (map snd (gv_posture_sections ?w))"] that
      by (force simp: all_observations_def length_concat)
    ultimately show ?thesis by simp
  qed
  have sections: "all_some section_items (map (\<lambda>(sid, bs). JObj [(''section_id'', JStr sid),
      (''checks'', JArr (map observation_value bs))]) (gv_posture_sections ?w)) =
      Some (map (\<lambda>(sid, bs). map observation_value bs) (gv_posture_sections ?w))"
    by (rule all_some_map) (use short in \<open>auto simp: section_items_def\<close>)
  have posture: "concat (map (\<lambda>(sid, bs). map observation_value bs) (gv_posture_sections ?w)) =
      map observation_value ?posture"
    by (simp add: all_observations_def map_concat comp_def case_prod_unfold)
  have groups: "gv_groups ?w = group_states p" by (simp add: build_view_def group_states_def Let_def)
  have "all_some group_items (map (\<lambda>(g, s). JObj [(''detector_group'', JStr g), (''state'', JStr s)]) (group_states p)) =
      Some (map (\<lambda>(g, s). if s = ''MISSING'' then [] else [coverage_value (public_coverage g s)]) (group_states p))"
    by (rule all_some_map)
      (use group_state_known(2) [OF p] in \<open>auto simp: group_items_def group_states_def coverage_value_def
        public_coverage_def as_among_def as_str_matching_def\<close>)
  moreover have "concat (map (\<lambda>(g, s). if s = ''MISSING'' then [] else [coverage_value (public_coverage g s)]) gs) =
      map coverage_value (public_coverages gs)" for gs
    by (induction gs) (auto simp: public_coverages_def)
  ultimately have coverage: "map_option concat (all_some group_items (map (\<lambda>(g, s).
      JObj [(''detector_group'', JStr g), (''state'', JStr s)]) (group_states p))) =
      Some (map coverage_value (sp_coverage ?q))"
    by (simp add: public_projection_def)
  have "snapshot_sanitized_guest_projection to_ascii (JObj [(''schema_version'', JNum 1),
      (''canonical_host'', JStr (sp_canonical_host p)), (''posture'', JArr (map observation_value ?posture)),
      (''potential_risk_count'', JNum (sp_potential_risk_count p)), (''warning_count'', JNum (sp_warning_count p)),
      (''coverage'', JArr (map coverage_value (sp_coverage ?q))),
      (''execution'', JObj [(''policy_version'', JStr ''1.0.0''), (''duration_ms'', JNum 0),
         (''request_count'', JNum 0)])]) = Some ?q"
    by (rule snapshot_projection_parts [OF _ _ _ _ _ _ _ _ q(1)])
      (simp_all add: exact_object_def PROJECTION_KEYS_def public_projection_def)
  from create_view [OF a completed this]
  have made: "create_guest_result_view to_ascii (view_input a completed (JObj [(''schema_version'', JNum 1),
      (''canonical_host'', JStr (sp_canonical_host p)), (''posture'', JArr (map observation_value ?posture)),
      (''potential_risk_count'', JNum (sp_potential_risk_count p)), (''warning_count'', JNum (sp_warning_count p)),
      (''coverage'', JArr (map coverage_value (sp_coverage ?q))),
      (''execution'', JObj [(''policy_version'', JStr ''1.0.0''), (''duration_ms'', JNum 0),
         (''request_count'', JNum 0)])])) = Some ?w"
    by (simp add: q(2))
  have counts: "gv_canonical_host ?w = sp_canonical_host p"
    "gv_potential_risk_count ?w = sp_potential_risk_count p" "gv_warning_count ?w = sp_warning_count p"
    "length (gv_posture_sections ?w) = 5" "length (group_states p) = length GUEST_COVERAGE_GROUPS"
    by (simp_all add: build_view_def Let_def SECTION_CHECKS_def group_states_def)
  have access: "\<lparr>ra_guest_scan_id = ra_guest_scan_id a, ra_access_expires_at = ra_access_expires_at a,
      ra_token_expires_in = ra_token_expires_in a\<rparr> = a" by simp
  show ?thesis
    using a completed made
    by (simp add: access rebuild_decision_def view_object_def dates sections posture groups coverage counts
        view_input_def valid_access_def MAX_RESULT_WINDOW_SECONDS_def)
qed

lemma rebuilt_from:
  assumes "rebuild_decision to_ascii body sid now = Some w"
  obtains a p completed where "valid_access a" "valid_projection to_ascii p" "0 \<le> completed"
    "completed \<le> now" "ra_guest_scan_id a = sid" "ra_access_expires_at a = now + ra_token_expires_in a"
    "w = build_view a completed p"
proof -
  obtain expires completed projection where made: "create_guest_result_view to_ascii
      (JObj [(''access'', access_object \<lparr>ra_guest_scan_id = sid, ra_access_expires_at = expires,
         ra_token_expires_in = expires - now\<rparr>),
        (''completed_at_unix_seconds'', JBig completed), (''projection'', projection)]) = Some w"
    using assms by (auto simp: rebuild_decision_def guard_simps Option.bind_eq_Some_conv)
  obtain a p where a: "snapshot_access (access_object \<lparr>ra_guest_scan_id = sid,
      ra_access_expires_at = expires, ra_token_expires_in = expires - now\<rparr>) = Some a" "valid_access a"
    "valid_projection to_ascii p" "0 \<le> completed" "completed \<le> ra_access_expires_at a - ra_token_expires_in a"
    "w = build_view a completed p"
    using made by (rule created_from) simp
  have "a = \<lparr>ra_guest_scan_id = sid, ra_access_expires_at = expires, ra_token_expires_in = expires - now\<rparr>"
    using a(1)
    by (auto simp: snapshot_access_def access_object_def Let_def guard_simps Option.bind_eq_Some_conv
        split: if_splits)
  then show ?thesis using that a(2-) by auto
qed

text \<open>A view for the witnesses.\<close>

definition sample_access :: result_access where
  "sample_access = \<lparr>ra_guest_scan_id = ''scan-1'', ra_access_expires_at = 2800, ra_token_expires_in = 1500\<rparr>"

definition sample_projection :: jsval where
  "sample_projection = JObj
     [(''schema_version'', JNum 1), (''canonical_host'', JStr ''example.com''),
      (''posture'', JArr [observation_value \<lparr>ob_check_id = ''DNS_CAA'', ob_outcome = ''ATTENTION''\<rparr>,
         observation_value \<lparr>ob_check_id = ''MAIL_SPF'', ob_outcome = ''PASS''\<rparr>]),
      (''potential_risk_count'', JNum 1),
      (''coverage'', JArr [coverage_value \<lparr>cv_detector_group = ''DNS_DOMAIN_POSTURE'',
         cv_execution_status = ''SUCCESS'', cv_completeness = ''COMPLETE''\<rparr>]),
      (''warning_count'', JNum 0),
      (''execution'', JObj [(''policy_version'', JStr ''1.0.0''), (''duration_ms'', JNum 900),
         (''request_count'', JNum 7)])]"

definition sample_sanitized :: sanitized_projection where
  "sample_sanitized =
     \<lparr>sp_canonical_host = ''example.com'',
      sp_posture = [\<lparr>ob_check_id = ''DNS_CAA'', ob_outcome = ''ATTENTION''\<rparr>,
        \<lparr>ob_check_id = ''MAIL_SPF'', ob_outcome = ''PASS''\<rparr>],
      sp_potential_risk_count = 1,
      sp_coverage = [\<lparr>cv_detector_group = ''DNS_DOMAIN_POSTURE'', cv_execution_status = ''SUCCESS'',
        cv_completeness = ''COMPLETE''\<rparr>],
      sp_warning_count = 0, sp_duration_ms = 900, sp_request_count = 7\<rparr>"

lemma sample_snapshot: "snapshot_sanitized_guest_projection (\<lambda>s. s) sample_projection = Some sample_sanitized"
  by code_simp

lemma sample_access_valid: "valid_access sample_access"
  by code_simp

lemma sample_view:
  "create_guest_result_view (\<lambda>s. s) (view_input sample_access 1200 sample_projection) =
   Some (build_view sample_access 1200 sample_sanitized)"
  by (rule create_view [OF sample_access_valid _ _ sample_snapshot]) (simp_all add: sample_access_def)

subsection \<open>Properties\<close>

text \<open>C35: a view shows all of a projection and nothing else: every observation appears in exactly one
  section, once; every coverage group appears once, and it is marked complete or not applicable
  exactly when the scan completed it or found it not to apply.  The coverage as a whole is called
  complete only when that holds for all groups.\<close>

theorem view_shows_projection:
  assumes "create_guest_result_view to_ascii v = Some w"
    and "snapshot_sanitized_guest_projection to_ascii (get_prop v ''projection'') = Some p"
  shows "mset (concat (map snd (gv_posture_sections w))) = mset (sp_posture p) \<and>
    map fst (gv_posture_sections w) = map fst SECTION_CHECKS \<and>
    map fst (gv_groups w) = GUEST_COVERAGE_GROUPS \<and>
    (\<forall>(g, s) \<in> set (gv_groups w). s \<in> {''COMPLETE'', ''NOT_APPLICABLE''} \<longleftrightarrow>
       (\<exists>c \<in> set (sp_coverage p). cv_detector_group c = g \<and>
          (cv_completeness c = ''NOT_APPLICABLE'' \<or>
           (cv_execution_status c = ''SUCCESS'' \<and> cv_completeness c = ''COMPLETE'')))) \<and>
    (gv_coverage_state w = ''COMPLETE'' \<longleftrightarrow>
       (\<forall>(g, s) \<in> set (gv_groups w). s \<in> {''COMPLETE'', ''NOT_APPLICABLE''}))"
proof -
  obtain a completed where p: "valid_projection to_ascii p" and w: "w = build_view a completed p"
    by (rule created_from [OF assms(1)]) (use assms(2) in simp)
  note shown = observations_shown [OF p, of a completed]
  have groups: "gv_groups w = group_states p" by (simp add: w build_view_def group_states_def Let_def)
  have "distinct (sp_posture p)" using p by (simp add: valid_projection_def distinct_map)
  then have "mset (all_observations w) = mset (sp_posture p)"
    using shown by (simp add: w set_eq_iff_mset_eq_distinct [symmetric] distinct_map)
  moreover have "group_state p g \<in> {''COMPLETE'', ''NOT_APPLICABLE''} \<longleftrightarrow>
      (\<exists>c \<in> set (sp_coverage p). cv_detector_group c = g \<and>
         (cv_completeness c = ''NOT_APPLICABLE'' \<or>
          (cv_execution_status c = ''SUCCESS'' \<and> cv_completeness c = ''COMPLETE'')))" for g
  proof (cases "g \<in> cv_detector_group ` set (sp_coverage p)")
    case True
    then obtain c where c: "c \<in> set (sp_coverage p)" "g = cv_detector_group c" by blast
    have "c' = c" if "c' \<in> set (sp_coverage p)" "cv_detector_group c' = g" for c'
      using p that c by (auto simp: valid_projection_def distinct_map inj_on_def)
    then show ?thesis
      using c group_state_eq(1) [OF p c(1)] by (auto simp: public_coverage_state_def)
  next
    case False
    then show ?thesis using group_state_eq(2) [OF p False] by auto
  qed
  moreover have "gv_coverage_state w = ''COMPLETE'' \<longleftrightarrow>
      (\<forall>s \<in> set (map snd (group_states p)). s \<in> {''COMPLETE'', ''NOT_APPLICABLE''})"
    by (simp add: w build_view_def Let_def overall_coverage_def group_states_def comp_def all_filtered)
  ultimately show ?thesis
    by (auto simp: groups group_states_def all_observations_def w build_view_def Let_def comp_def)
qed

theorem view_shows_projection_witness:
  "\<exists>w. create_guest_result_view (\<lambda>s. s) (view_input sample_access 1200 sample_projection) = Some w \<and>
     mset (concat (map snd (gv_posture_sections w))) = mset (sp_posture sample_sanitized)"
proof -
  have "get_prop (view_input sample_access 1200 sample_projection) ''projection'' = sample_projection"
    by (simp add: view_input_def)
  then show ?thesis using view_shows_projection [OF sample_view] sample_view sample_snapshot by auto
qed

text \<open>The route does not change a genuine decision: a view the service created for this scan and this
  time passes \<^verbatim>\<open>projectGuestResultDecision\<close> unchanged, although the route rebuilds it from its public
  contents alone.\<close>

lemma genuine_view_passes:
  assumes "create_guest_result_view to_ascii v = Some w"
    and "snapshot_access (get_prop v ''access'') = Some a"
    and "sid = ra_guest_scan_id a" "now = ra_access_expires_at a - ra_token_expires_in a"
  shows "project_guest_result_decision to_ascii (decision_object (READ_OK w)) sid now = Some (READ_OK w)"
proof -
  obtain p completed where "valid_access a" "valid_projection to_ascii p" "0 \<le> completed"
    "completed \<le> ra_access_expires_at a - ra_token_expires_in a" "w = build_view a completed p"
    by (rule created_from [OF assms(1)]) (use assms(2) in auto)
  then have "rebuild_decision to_ascii (view_object w) sid now = Some w"
    using rebuild_view assms(3,4) by blast
  then show ?thesis
    using deep_equal_refl [OF view_object_plain, of w]
    by (simp add: project_guest_result_decision_def view_object_def [of w])
qed

text \<open>The route sends genuine decisions only: what leaves it as a result is deeply equal to what the
  service returned, names the scan of the route, was completed by now, can still be accessed, for
  at most half an hour, and is the view of a sanitized projection.\<close>

lemma projected_decision_genuine:
  assumes "project_guest_result_decision to_ascii v sid now = Some (READ_OK w)"
  shows "deep_equal v (decision_object (READ_OK w)) \<and> gv_guest_scan_id w = sid \<and>
    (\<exists>expires completed. gv_access_expires_at w = iso_date expires \<and> now < expires \<and>
       expires \<le> now + MAX_RESULT_WINDOW_SECONDS \<and>
       gv_completed_at w = iso_date completed \<and> 0 \<le> completed \<and> completed \<le> now) \<and>
    (\<exists>p input. snapshot_sanitized_guest_projection to_ascii input = Some p \<and>
       gv_canonical_host w = sp_canonical_host p \<and>
       mset (concat (map snd (gv_posture_sections w))) = mset (sp_posture p))"
proof -
  have eq: "deep_equal v (decision_object (READ_OK w))"
    and "rebuild_decision to_ascii (get_prop v ''body'') sid now = Some w"
    using assms by (auto simp: project_guest_result_decision_def find_Some_iff split: if_splits option.splits)
  then obtain a p completed where a: "valid_access a" "valid_projection to_ascii p" "0 \<le> completed"
    "completed \<le> now" "ra_guest_scan_id a = sid" "ra_access_expires_at a = now + ra_token_expires_in a"
    "w = build_view a completed p" by (blast elim: rebuilt_from)
  have "distinct (sp_posture p)" using a(2) by (simp add: valid_projection_def distinct_map)
  then have shown: "mset (concat (map snd (gv_posture_sections w))) = mset (sp_posture p)"
    using observations_shown [OF a(2), of a completed]
    by (simp add: a(7) set_eq_iff_mset_eq_distinct [symmetric] distinct_map all_observations_def)
  have "snapshot_sanitized_guest_projection to_ascii (JObj [(''schema_version'', JNum 1),
      (''canonical_host'', JStr (sp_canonical_host p)), (''posture'', JArr (map observation_value (sp_posture p))),
      (''potential_risk_count'', JNum (sp_potential_risk_count p)),
      (''coverage'', JArr (map coverage_value (sp_coverage p))), (''warning_count'', JNum (sp_warning_count p)),
      (''execution'', JObj [(''policy_version'', JStr ''1.0.0''), (''duration_ms'', JNum (sp_duration_ms p)),
         (''request_count'', JNum (sp_request_count p))])]) = Some p"
    by (rule snapshot_projection_parts [OF _ _ _ _ _ _ _ _ a(2)]) (simp_all add: exact_object_def PROJECTION_KEYS_def)
  then have "\<exists>input. snapshot_sanitized_guest_projection to_ascii input = Some p" by blast
  moreover have "gv_access_expires_at w = iso_date (ra_access_expires_at a)" "gv_completed_at w = iso_date completed"
    "gv_guest_scan_id w = sid" "gv_canonical_host w = sp_canonical_host p"
    using a(5) by (simp_all add: a(7) build_view_def Let_def)
  ultimately show ?thesis
    using eq shown a(1,3,4,6) unfolding valid_access_def by (intro conjI) auto
qed

end
