(* ===== verification/Result_Envelope.thy ===== *)
theory Result_Envelope
  imports Digests
begin

section \<open>Authenticated result envelopes\<close>

text \<open>
  Models \<^verbatim>\<open>apps/api/src/result-envelope\<close>: the scanner signs the header of a
  result with HMAC-SHA-256 over the message of \<^verbatim>\<open>codec.ts\<close>, the ingress
  verifies it (\<^verbatim>\<open>verify.ts\<close>) before the result reaches the database.  The
  key ring is a partial function; one whose \<^verbatim>\<open>get\<close> throws answers like one
  without the key.  The message is a sequence of prefix codes, so the header
  can be read back from it (\<open>message_injective\<close>).
\<close>

subsection \<open>Data\<close>

definition RESULT_ENVELOPE_MAX_LIFETIME_SECONDS :: int where
  "RESULT_ENVELOPE_MAX_LIFETIME_SECONDS = 300"

definition RESULT_ENVELOPE_MAX_CLOCK_SKEW_SECONDS :: int where
  "RESULT_ENVELOPE_MAX_CLOCK_SKEW_SECONDS = 30"

definition RESULT_ENVELOPE_MAX_PAYLOAD_BYTES :: int where
  "RESULT_ENVELOPE_MAX_PAYLOAD_BYTES = 33554432"

record result_header =
  rh_schema_version :: int
  rh_job_id :: string
  rh_attempt_id :: string
  rh_fence :: int
  rh_workload_identity :: string
  rh_audience :: string
  rh_issued_at :: int
  rh_expires_at :: int
  rh_payload_digest :: string
  rh_payload_size :: int

record result_authentication =
  ra_key_version :: int
  ra_mac :: string

record signed_result =
  sr_header :: result_header
  sr_authentication :: result_authentication
  sr_payload :: bytes

record signing_input =
  sg_job_id :: string
  sg_attempt_id :: string
  sg_fence :: int
  sg_payload :: bytes

record signing_context =
  sc_now :: int
  sc_lifetime :: int
  sc_workload_identity :: string
  sc_audience :: string
  sc_max_payload_bytes :: int
  sc_key_version :: int
  sc_key :: bytes

record verification_context =
  vc_now :: int
  vc_workload_identity :: string
  vc_audience :: string
  vc_max_payload_bytes :: int
  vc_keyring :: "int \<Rightarrow> bytes option"

record verified_result =
  vr_header :: result_header
  vr_identity :: "string \<times> int \<times> string"
  vr_payload :: bytes

datatype signing_fail =
    INVALID_SIGNING_CONTEXT
  | INVALID_RESULT_INPUT
  | SIGN_RESULT_PAYLOAD_TOO_LARGE
  | RESULT_SIGNING_FAILED

datatype verification_fail =
    INVALID_VERIFICATION_CONTEXT
  | INVALID_RESULT_ENVELOPE
  | RESULT_PAYLOAD_TOO_LARGE
  | RESULT_AUTHENTICATION_FAILED
  | RESULT_PAYLOAD_MISMATCH

subsection \<open>The authenticated message\<close>

definition AUTHENTICATION_DOMAIN :: bytes where
  "AUTHENTICATION_DOMAIN = ascii_bytes ''OUTSCAN:RESULT_ENVELOPE:v1'' @ [0]"

definition encode_authentication_message :: "result_header \<Rightarrow> int \<Rightarrow> bytes option" where
  "encode_authentication_message h key_version =
     do {
       schema \<leftarrow> u32be (rh_schema_version h);
       version \<leftarrow> u32be key_version;
       job \<leftarrow> length_prefix (utf8 (rh_job_id h));
       attempt \<leftarrow> length_prefix (utf8 (rh_attempt_id h));
       fence \<leftarrow> u64be (rh_fence h);
       workload \<leftarrow> length_prefix (utf8 (rh_workload_identity h));
       audience \<leftarrow> length_prefix (utf8 (rh_audience h));
       issued \<leftarrow> u64be (rh_issued_at h);
       expires \<leftarrow> u64be (rh_expires_at h);
       payload_size \<leftarrow> u64be (rh_payload_size h);
       Some (AUTHENTICATION_DOMAIN @ schema @ version @ job @ attempt @ fence @ workload @
         audience @ issued @ expires @ digest_bytes ''sha256:'' (rh_payload_digest h) @
         payload_size)
     }"

subsection \<open>Signing\<close>

definition SIGN_INPUT_KEYS :: "string list" where
  "SIGN_INPUT_KEYS = [''job_id'', ''attempt_id'', ''fence'', ''payload'']"

definition SIGN_CONTEXT_KEYS :: "string list" where
  "SIGN_CONTEXT_KEYS = [''now_unix_seconds'', ''lifetime_seconds'', ''workload_identity'',
     ''audience'', ''max_payload_bytes'', ''key_version'', ''key'']"

definition snapshot_signing_input :: "jsval \<Rightarrow> signing_input option" where
  "snapshot_signing_input v =
     do {
       require (exact_record v SIGN_INPUT_KEYS);
       job \<leftarrow> as_str_matching id_pattern (get_prop v ''job_id'');
       attempt \<leftarrow> as_str_matching id_pattern (get_prop v ''attempt_id'');
       fence \<leftarrow> as_bounded 1 MAX_SAFE_INTEGER (get_prop v ''fence'');
       payload \<leftarrow> as_bytes (get_prop v ''payload'');
       Some \<lparr>sg_job_id = job, sg_attempt_id = attempt, sg_fence = fence, sg_payload = payload\<rparr>
     }"

definition snapshot_signing_context :: "jsval \<Rightarrow> signing_context option" where
  "snapshot_signing_context v =
     do {
       require (exact_record v SIGN_CONTEXT_KEYS);
       now \<leftarrow> as_bounded 1 MAX_SAFE_INTEGER (get_prop v ''now_unix_seconds'');
       lifetime \<leftarrow> as_bounded 1 RESULT_ENVELOPE_MAX_LIFETIME_SECONDS
         (get_prop v ''lifetime_seconds'');
       workload \<leftarrow> as_str_matching principal_pattern (get_prop v ''workload_identity'');
       audience \<leftarrow> as_str_matching principal_pattern (get_prop v ''audience'');
       maximum \<leftarrow> as_bounded 1 RESULT_ENVELOPE_MAX_PAYLOAD_BYTES
         (get_prop v ''max_payload_bytes'');
       key_version \<leftarrow> as_bounded 0 UINT32_MAX (get_prop v ''key_version'');
       key \<leftarrow> as_bytes (get_prop v ''key'');
       require (32 \<le> length key \<and> length key \<le> 64);
       require (\<not> now > MAX_SAFE_INTEGER - lifetime);
       Some \<lparr>sc_now = now, sc_lifetime = lifetime, sc_workload_identity = workload,
         sc_audience = audience, sc_max_payload_bytes = maximum,
         sc_key_version = key_version, sc_key = key\<rparr>
     }"

definition signed_header :: "signing_input \<Rightarrow> signing_context \<Rightarrow> result_header" where
  "signed_header i c =
     \<lparr>rh_schema_version = 1, rh_job_id = sg_job_id i, rh_attempt_id = sg_attempt_id i,
      rh_fence = sg_fence i, rh_workload_identity = sc_workload_identity c,
      rh_audience = sc_audience c, rh_issued_at = sc_now c,
      rh_expires_at = sc_now c + sc_lifetime c,
      rh_payload_digest = payload_digest (sg_payload i),
      rh_payload_size = int (length (sg_payload i))\<rparr>"

definition sign_result_envelope :: "jsval \<Rightarrow> jsval \<Rightarrow> signing_fail + signed_result" where
  "sign_result_envelope raw_input raw_context =
     (case snapshot_signing_input raw_input of
        None \<Rightarrow> Inl INVALID_RESULT_INPUT
      | Some i \<Rightarrow>
          (case snapshot_signing_context raw_context of
             None \<Rightarrow> Inl INVALID_SIGNING_CONTEXT
           | Some c \<Rightarrow>
               if int (length (sg_payload i)) > sc_max_payload_bytes c
               then Inl SIGN_RESULT_PAYLOAD_TOO_LARGE
               else (let header = signed_header i c
                     in case encode_authentication_message header (sc_key_version c) of
                          None \<Rightarrow> Inl RESULT_SIGNING_FAILED
                        | Some message \<Rightarrow>
                            Inr \<lparr>sr_header = header,
                                 sr_authentication =
                                   \<lparr>ra_key_version = sc_key_version c,
                                    ra_mac = encode_base64url (hmac_sha256 (sc_key c) message)\<rparr>,
                                 sr_payload = sg_payload i\<rparr>)))"

text \<open>\<^verbatim>\<open>read_submission\<close>: the object the scanner puts on the wire.\<close>

definition read_submission :: "signed_result \<Rightarrow> jsval" where
  "read_submission s =
     (let h = sr_header s; a = sr_authentication s
      in JObj [
        (''envelope'', JObj [
          (''schema_version'', JNum (rh_schema_version h)),
          (''job_id'', JStr (rh_job_id h)),
          (''attempt_id'', JStr (rh_attempt_id h)),
          (''fence'', JNum (rh_fence h)),
          (''workload_identity'', JStr (rh_workload_identity h)),
          (''audience'', JStr (rh_audience h)),
          (''issued_at'', JNum (rh_issued_at h)),
          (''expires_at'', JNum (rh_expires_at h)),
          (''payload_digest'', JStr (rh_payload_digest h)),
          (''payload_size'', JNum (rh_payload_size h)),
          (''payload'', JBytes (sr_payload s))]),
        (''authentication'', JObj [
          (''scheme'', JStr ''HMAC-SHA-256''),
          (''key_version'', JNum (ra_key_version a)),
          (''mac'', JStr (ra_mac a))])])"

subsection \<open>Verification\<close>

definition SUBMISSION_KEYS :: "string list" where
  "SUBMISSION_KEYS = [''envelope'', ''authentication'']"

definition RESULT_ENVELOPE_KEYS :: "string list" where
  "RESULT_ENVELOPE_KEYS = [''schema_version'', ''job_id'', ''attempt_id'', ''fence'',
     ''workload_identity'', ''audience'', ''issued_at'', ''expires_at'', ''payload_digest'',
     ''payload_size'', ''payload'']"

definition AUTHENTICATION_KEYS :: "string list" where
  "AUTHENTICATION_KEYS = [''scheme'', ''key_version'', ''mac'']"

text \<open>\<^verbatim>\<open>snapshotSubmission\<close> with \<^verbatim>\<open>validHeader\<close>: every failure has the same code.\<close>

definition read_result_header :: "jsval \<Rightarrow> (result_header \<times> bytes) option" where
  "read_result_header v =
     do {
       require (exact_record v RESULT_ENVELOPE_KEYS);
       schema \<leftarrow> as_bounded 1 1 (get_prop v ''schema_version'');
       job \<leftarrow> as_str_matching id_pattern (get_prop v ''job_id'');
       attempt \<leftarrow> as_str_matching id_pattern (get_prop v ''attempt_id'');
       fence \<leftarrow> as_bounded 1 MAX_SAFE_INTEGER (get_prop v ''fence'');
       workload \<leftarrow> as_str_matching principal_pattern (get_prop v ''workload_identity'');
       audience \<leftarrow> as_str_matching principal_pattern (get_prop v ''audience'');
       issued \<leftarrow> as_bounded 1 MAX_SAFE_INTEGER (get_prop v ''issued_at'');
       expires \<leftarrow> as_bounded 1 MAX_SAFE_INTEGER (get_prop v ''expires_at'');
       digest \<leftarrow> as_str_matching sha256_pattern (get_prop v ''payload_digest'');
       payload_size \<leftarrow> as_bounded 0 MAX_SAFE_INTEGER (get_prop v ''payload_size'');
       payload \<leftarrow> as_bytes (get_prop v ''payload'');
       Some (\<lparr>rh_schema_version = schema, rh_job_id = job, rh_attempt_id = attempt,
         rh_fence = fence, rh_workload_identity = workload, rh_audience = audience,
         rh_issued_at = issued, rh_expires_at = expires, rh_payload_digest = digest,
         rh_payload_size = payload_size\<rparr>, payload)
     }"

text \<open>\<^verbatim>\<open>validAuthentication\<close>\<close>

definition read_result_authentication :: "jsval \<Rightarrow> result_authentication option" where
  "read_result_authentication v =
     do {
       require (exact_record v AUTHENTICATION_KEYS);
       require (get_prop v ''scheme'' = JStr ''HMAC-SHA-256'');
       key_version \<leftarrow> as_bounded 0 UINT32_MAX (get_prop v ''key_version'');
       mac \<leftarrow> as_str_matching (\<lambda>s. length s = 43) (get_prop v ''mac'');
       Some \<lparr>ra_key_version = key_version, ra_mac = mac\<rparr>
     }"

definition snapshot_submission ::
  "jsval \<Rightarrow> (result_header \<times> bytes \<times> result_authentication) option" where
  "snapshot_submission v =
     do {
       require (exact_record v SUBMISSION_KEYS);
       (header, payload) \<leftarrow> read_result_header (get_prop v ''envelope'');
       authentication \<leftarrow> read_result_authentication (get_prop v ''authentication'');
       Some (header, payload, authentication)
     }"

definition valid_verification_context :: "verification_context \<Rightarrow> bool" where
  "valid_verification_context c \<longleftrightarrow>
     positive_safe (vc_now c) \<and> principal_pattern (vc_workload_identity c) \<and>
     principal_pattern (vc_audience c) \<and> positive_safe (vc_max_payload_bytes c) \<and>
     vc_max_payload_bytes c \<le> RESULT_ENVELOPE_MAX_PAYLOAD_BYTES"

definition envelope_binding_fails :: "verification_context \<Rightarrow> result_header \<Rightarrow> bool" where
  "envelope_binding_fails c h \<longleftrightarrow>
     rh_workload_identity h \<noteq> vc_workload_identity c \<or>
     rh_audience h \<noteq> vc_audience c \<or>
     rh_expires_at h \<le> rh_issued_at h \<or>
     rh_expires_at h - rh_issued_at h > RESULT_ENVELOPE_MAX_LIFETIME_SECONDS \<or>
     rh_issued_at h > vc_now c + RESULT_ENVELOPE_MAX_CLOCK_SKEW_SECONDS \<or>
     vc_now c \<ge> rh_expires_at h"

definition authenticates ::
  "verification_context \<Rightarrow> result_header \<Rightarrow> result_authentication \<Rightarrow> bool" where
  "authenticates c h a =
     (case (decode_canonical_base64url (ra_mac a), vc_keyring c (ra_key_version a)) of
        (Some supplied, Some key) \<Rightarrow>
          length supplied = 32 \<and> 32 \<le> length key \<and>
          (case encode_authentication_message h (ra_key_version a) of
             None \<Rightarrow> False
           | Some message \<Rightarrow> supplied = hmac_sha256 key message)
      | _ \<Rightarrow> False)"

definition verify_result_envelope ::
  "jsval \<Rightarrow> verification_context \<Rightarrow> verification_fail + verified_result" where
  "verify_result_envelope input c =
     (if \<not> valid_verification_context c then Inl INVALID_VERIFICATION_CONTEXT
      else case snapshot_submission input of
             None \<Rightarrow> Inl INVALID_RESULT_ENVELOPE
           | Some (h, payload, a) \<Rightarrow>
               if rh_payload_size h > vc_max_payload_bytes c \<or>
                  int (length payload) > vc_max_payload_bytes c
               then Inl RESULT_PAYLOAD_TOO_LARGE
               else if envelope_binding_fails c h then Inl RESULT_AUTHENTICATION_FAILED
               else if \<not> authenticates c h a then Inl RESULT_AUTHENTICATION_FAILED
               else if int (length payload) \<noteq> rh_payload_size h \<or>
                       payload_digest payload \<noteq> rh_payload_digest h
               then Inl RESULT_PAYLOAD_MISMATCH
               else Inr \<lparr>vr_header = h,
                         vr_identity = (rh_attempt_id h, rh_fence h, rh_payload_digest h),
                         vr_payload = payload\<rparr>)"

subsection \<open>The message determines the header\<close>

definition well_formed_header :: "result_header \<Rightarrow> bool" where
  "well_formed_header h \<longleftrightarrow>
     rh_schema_version h = 1 \<and> id_pattern (rh_job_id h) \<and> id_pattern (rh_attempt_id h) \<and>
     positive_safe (rh_fence h) \<and> principal_pattern (rh_workload_identity h) \<and>
     principal_pattern (rh_audience h) \<and> positive_safe (rh_issued_at h) \<and>
     positive_safe (rh_expires_at h) \<and> sha256_pattern (rh_payload_digest h) \<and>
     0 \<le> rh_payload_size h \<and> safe_int (rh_payload_size h)"

definition message_of :: "result_header \<Rightarrow> int \<Rightarrow> bytes" where
  "message_of h key_version =
     AUTHENTICATION_DOMAIN @ be_bytes 4 (rh_schema_version h) @ be_bytes 4 key_version @
     prefixed (utf8 (rh_job_id h)) @ prefixed (utf8 (rh_attempt_id h)) @
     be_bytes 8 (rh_fence h) @ prefixed (utf8 (rh_workload_identity h)) @
     prefixed (utf8 (rh_audience h)) @ be_bytes 8 (rh_issued_at h) @
     be_bytes 8 (rh_expires_at h) @ digest_bytes ''sha256:'' (rh_payload_digest h) @
     be_bytes 8 (rh_payload_size h)"

lemma prefixable_short: "length s \<le> 128 \<Longrightarrow> prefixable (utf8 s)"
  using length_utf8 [of s] by (simp add: prefixable_def UINT32_MAX_def)

lemma fits_u64_safe: "0 \<le> n \<Longrightarrow> safe_int n \<Longrightarrow> fits_u64 n"
  by (simp add: fits_u64_def safe_int_def MAX_SAFE_INTEGER_def UINT64_MAX_def)

lemma well_formed_fits:
  assumes "well_formed_header h"
  shows "fits_u32 (rh_schema_version h)" "prefixable (utf8 (rh_job_id h))"
    "prefixable (utf8 (rh_attempt_id h))" "fits_u64 (rh_fence h)"
    "prefixable (utf8 (rh_workload_identity h))" "prefixable (utf8 (rh_audience h))"
    "fits_u64 (rh_issued_at h)" "fits_u64 (rh_expires_at h)" "fits_u64 (rh_payload_size h)"
    "sha256_pattern (rh_payload_digest h)"
  using assms id_pattern_length principal_pattern_length
  by (auto simp: well_formed_header_def positive_safe_def fits_u32_def UINT32_MAX_def
      intro!: prefixable_short fits_u64_safe)

lemma encode_message_well_formed:
  "well_formed_header h \<Longrightarrow> fits_u32 kv \<Longrightarrow>
   encode_authentication_message h kv = Some (message_of h kv)"
  using well_formed_fits [of h]
  by (simp add: encode_authentication_message_def message_of_def u32be_Some u64be_Some
      length_prefix_Some [THEN iffD2] u32be_Some [THEN iffD2] u64be_Some [THEN iffD2])

lemma message_injective:
  assumes "well_formed_header h" "well_formed_header g" "fits_u32 kv" "fits_u32 kw"
    and "message_of h kv = message_of g kw"
  shows "h = g \<and> kv = kw"
  using assms(5) well_formed_fits [OF assms(1)] well_formed_fits [OF assms(2)] assms(3,4)
  by (simp add: message_of_def u32.append_eq u64.append_eq length_prefixed.append_eq
      digest.append_eq u64.injective u32.injective digest.injective utf8_inj)

subsection \<open>What the readers return\<close>

lemma read_result_header_Some:
  "read_result_header v = Some (h, p) \<Longrightarrow> well_formed_header h"
  by (auto simp: read_result_header_def well_formed_header_def positive_safe_def guard_simps
      Option.bind_eq_Some_conv)

lemma read_result_authentication_Some:
  "read_result_authentication v = Some a \<Longrightarrow> fits_u32 (ra_key_version a)"
  by (auto simp: read_result_authentication_def fits_u32_def guard_simps
      Option.bind_eq_Some_conv)

lemma snapshot_submission_Some:
  "snapshot_submission v = Some (h, p, a) \<Longrightarrow> well_formed_header h \<and> fits_u32 (ra_key_version a)"
  by (auto simp: snapshot_submission_def Option.bind_eq_Some_conv
      dest: read_result_header_Some read_result_authentication_Some)

lemma authenticates_iff:
  assumes "well_formed_header h" "fits_u32 (ra_key_version a)"
  shows "authenticates c h a \<longleftrightarrow>
    (\<exists>key. vc_keyring c (ra_key_version a) = Some key \<and> 32 \<le> length key \<and>
       ra_mac a = encode_base64url (hmac_sha256 key (message_of h (ra_key_version a))))"
proof -
  have nonempty: "hmac_sha256 key m \<noteq> []" for key m
    using hmac_sha256_length [of key m] by (metis list.size(3) zero_neq_numeral)
  let ?mac = "\<lambda>key. hmac_sha256 key (message_of h (ra_key_version a))"
  show ?thesis
  proof (cases "vc_keyring c (ra_key_version a)")
    case None
    then show ?thesis by (simp add: authenticates_def split: option.splits)
  next
    case (Some key)
    have "(case decode_canonical_base64url (ra_mac a) of None \<Rightarrow> False
        | Some b \<Rightarrow> length b = 32 \<and> b = ?mac key) \<longleftrightarrow> ra_mac a = encode_base64url (?mac key)"
    proof (cases "decode_canonical_base64url (ra_mac a)")
      case None
      then show ?thesis using nonempty by auto
    next
      case (Some b)
      then show ?thesis using hmac_sha256_length by (auto simp: decode_canonical_Some)
    qed
    then show ?thesis
      using Some
      by (auto simp: authenticates_def encode_message_well_formed [OF assms] split: option.splits)
  qed
qed

lemma verify_Inr_iff:
  "verify_result_envelope input c = Inr v \<longleftrightarrow>
     valid_verification_context c \<and>
     (\<exists>h p a. snapshot_submission input = Some (h, p, a) \<and>
        rh_payload_size h \<le> vc_max_payload_bytes c \<and>
        int (length p) \<le> vc_max_payload_bytes c \<and>
        \<not> envelope_binding_fails c h \<and> authenticates c h a \<and>
        int (length p) = rh_payload_size h \<and> payload_digest p = rh_payload_digest h \<and>
        v = \<lparr>vr_header = h, vr_identity = (rh_attempt_id h, rh_fence h, rh_payload_digest h),
             vr_payload = p\<rparr>)"
  by (auto simp: verify_result_envelope_def split: option.splits)

text \<open>C20: A result envelope that the ingress verifies carries the payload its header
  describes (size and SHA-256), is bound to the expected workload and audience,
  is fresh (lifetime at most 300 s, issued at most 30 s in the future, not yet
  expired), and its MAC is HMAC-SHA-256 of exactly this header under a key of
  at least 32 bytes that the key ring holds for the envelope's key version.\<close>

theorem verified_envelope_sound:
  assumes "verify_result_envelope input c = Inr v"
  shows "rh_payload_size (vr_header v) = int (length (vr_payload v)) \<and>
    rh_payload_digest (vr_header v) = payload_digest (vr_payload v) \<and>
    rh_workload_identity (vr_header v) = vc_workload_identity c \<and>
    rh_audience (vr_header v) = vc_audience c \<and>
    rh_issued_at (vr_header v) < rh_expires_at (vr_header v) \<and>
    rh_expires_at (vr_header v) \<le> rh_issued_at (vr_header v) + 300 \<and>
    rh_issued_at (vr_header v) \<le> vc_now c + 30 \<and>
    vc_now c < rh_expires_at (vr_header v) \<and>
    int (length (vr_payload v)) \<le> vc_max_payload_bytes c \<and>
    vr_identity v =
      (rh_attempt_id (vr_header v), rh_fence (vr_header v), rh_payload_digest (vr_header v)) \<and>
    (\<exists>a key message. snapshot_submission input = Some (vr_header v, vr_payload v, a) \<and>
       vc_keyring c (ra_key_version a) = Some key \<and> 32 \<le> length key \<and>
       encode_authentication_message (vr_header v) (ra_key_version a) = Some message \<and>
       ra_mac a = encode_base64url (hmac_sha256 key message))"
proof -
  obtain h p a where sub: "snapshot_submission input = Some (h, p, a)"
    and v: "v = \<lparr>vr_header = h, vr_identity = (rh_attempt_id h, rh_fence h, rh_payload_digest h),
      vr_payload = p\<rparr>"
    and bind: "\<not> envelope_binding_fails c h" and auth: "authenticates c h a"
    and rest: "int (length p) \<le> vc_max_payload_bytes c" "int (length p) = rh_payload_size h"
      "payload_digest p = rh_payload_digest h"
    using assms by (auto simp: verify_Inr_iff)
  have wf: "well_formed_header h" "fits_u32 (ra_key_version a)"
    using snapshot_submission_Some [OF sub] by auto
  obtain key where "vc_keyring c (ra_key_version a) = Some key" "32 \<le> length key"
    "ra_mac a = encode_base64url (hmac_sha256 key (message_of h (ra_key_version a)))"
    using auth by (auto simp: authenticates_iff [OF wf])
  with sub v bind rest encode_message_well_formed [OF wf] show ?thesis
    by (auto simp: envelope_binding_fails_def RESULT_ENVELOPE_MAX_LIFETIME_SECONDS_def
        RESULT_ENVELOPE_MAX_CLOCK_SKEW_SECONDS_def)
qed

subsection \<open>Round trip\<close>

lemma exact_keys_literal:
  "exact_record (JObj kvs) ks \<longleftrightarrow> length kvs = length ks \<and> list_all (\<lambda>k. k \<in> set ks) (map fst kvs)"
  by (simp add: exact_record_def has_exact_keys_def)

lemma snapshot_read_submission:
  assumes "well_formed_header (sr_header s)" "fits_u32 (ra_key_version (sr_authentication s))"
    "length (ra_mac (sr_authentication s)) = 43"
  shows "snapshot_submission (read_submission s) =
    Some (sr_header s, sr_payload s, sr_authentication s)"
proof -
  let ?h = "sr_header s" and ?a = "sr_authentication s"
  have "read_result_header (get_prop (read_submission s) ''envelope'') = Some (?h, sr_payload s)"
    using assms(1)
    by (simp add: read_submission_def read_result_header_def Let_def exact_keys_literal
        RESULT_ENVELOPE_KEYS_def as_bounded_def as_str_matching_def well_formed_header_def
        positive_safe_def safe_int_def MAX_SAFE_INTEGER_def)
  moreover have "read_result_authentication (get_prop (read_submission s) ''authentication'') =
      Some ?a"
    using assms(2,3)
    by (simp add: read_submission_def read_result_authentication_def Let_def exact_keys_literal
        AUTHENTICATION_KEYS_def as_bounded_def as_str_matching_def fits_u32_def safe_int_def
        UINT32_MAX_def MAX_SAFE_INTEGER_def)
  moreover have "exact_record (read_submission s) SUBMISSION_KEYS"
    by (simp add: read_submission_def Let_def exact_keys_literal SUBMISSION_KEYS_def)
  ultimately show ?thesis by (simp add: snapshot_submission_def)
qed

lemma signing_snapshots:
  assumes "snapshot_signing_input ri = Some i" "snapshot_signing_context rc = Some c"
    "int (length (sg_payload i)) \<le> sc_max_payload_bytes c"
  shows "well_formed_header (signed_header i c)" "fits_u32 (sc_key_version c)"
    "32 \<le> length (sc_key c)" "1 \<le> sc_lifetime c" "sc_lifetime c \<le> 300"
  using assms
  by (auto simp: snapshot_signing_input_def snapshot_signing_context_def guard_simps
      Option.bind_eq_Some_conv well_formed_header_def signed_header_def positive_safe_def
      fits_u32_def safe_int_def MAX_SAFE_INTEGER_def RESULT_ENVELOPE_MAX_PAYLOAD_BYTES_def
      RESULT_ENVELOPE_MAX_LIFETIME_SECONDS_def)

lemma sign_Inr:
  assumes "sign_result_envelope ri rc = Inr s" "snapshot_signing_context rc = Some c"
  obtains i where "snapshot_signing_input ri = Some i"
    "int (length (sg_payload i)) \<le> sc_max_payload_bytes c"
    "s = \<lparr>sr_header = signed_header i c,
          sr_authentication = \<lparr>ra_key_version = sc_key_version c,
            ra_mac = encode_base64url
              (hmac_sha256 (sc_key c) (message_of (signed_header i c) (sc_key_version c)))\<rparr>,
          sr_payload = sg_payload i\<rparr>"
proof -
  obtain i where i: "snapshot_signing_input ri = Some i"
    and len: "int (length (sg_payload i)) \<le> sc_max_payload_bytes c"
    using assms by (auto simp: sign_result_envelope_def split: option.splits if_splits)
  with assms that [OF i len] signing_snapshots [OF i assms(2) len] show ?thesis
    by (auto simp: sign_result_envelope_def Let_def encode_message_well_formed)
qed

lemma verify_signed:
  assumes sign: "sign_result_envelope ri rc = Inr s" and c: "snapshot_signing_context rc = Some c"
    and vc: "valid_verification_context vc"
    and same: "vc_workload_identity vc = sc_workload_identity c" "vc_audience vc = sc_audience c"
    and room: "int (length (sr_payload s)) \<le> vc_max_payload_bytes vc"
    and time: "sc_now c \<le> vc_now vc + 30" "vc_now vc < sc_now c + sc_lifetime c"
    and key: "vc_keyring vc (sc_key_version c) = Some (sc_key c)"
  shows "verify_result_envelope (read_submission s) vc =
    Inr \<lparr>vr_header = sr_header s,
         vr_identity = (rh_attempt_id (sr_header s), rh_fence (sr_header s),
           rh_payload_digest (sr_header s)),
         vr_payload = sr_payload s\<rparr>"
proof -
  obtain i where i: "snapshot_signing_input ri = Some i"
    and len: "int (length (sg_payload i)) \<le> sc_max_payload_bytes c"
    and s: "s = \<lparr>sr_header = signed_header i c,
          sr_authentication = \<lparr>ra_key_version = sc_key_version c,
            ra_mac = encode_base64url
              (hmac_sha256 (sc_key c) (message_of (signed_header i c) (sc_key_version c)))\<rparr>,
          sr_payload = sg_payload i\<rparr>"
    using sign_Inr [OF sign c] by metis
  note snap = signing_snapshots [OF i c len]
  have sub: "snapshot_submission (read_submission s) =
      Some (sr_header s, sr_payload s, sr_authentication s)"
    using snap by (intro snapshot_read_submission) (simp_all add: s length_encode_base64url)
  have "authenticates vc (sr_header s) (sr_authentication s)"
    using snap key by (simp add: s authenticates_iff)
  moreover have "\<not> envelope_binding_fails vc (sr_header s)"
    using snap same time
    by (simp add: s envelope_binding_fails_def signed_header_def
        RESULT_ENVELOPE_MAX_LIFETIME_SECONDS_def RESULT_ENVELOPE_MAX_CLOCK_SKEW_SECONDS_def)
  ultimately show ?thesis
    using vc room unfolding verify_Inr_iff sub
    by (simp add: s signed_header_def)
qed

subsection \<open>A concrete submission\<close>

definition sample_signing_input :: jsval where
  "sample_signing_input =
     JObj [(''job_id'', JStr ''job-1''), (''attempt_id'', JStr ''attempt-1''), (''fence'', JNum 7),
       (''payload'', JBytes [1, 2, 3])]"

definition sample_signing_context :: jsval where
  "sample_signing_context =
     JObj [(''now_unix_seconds'', JNum 1000), (''lifetime_seconds'', JNum 60),
       (''workload_identity'', JStr ''scanner/a''), (''audience'', JStr ''outscan-result-ingress:v1''),
       (''max_payload_bytes'', JNum 64), (''key_version'', JNum 2),
       (''key'', JBytes (replicate 32 9))]"

definition sample_verification_context :: verification_context where
  "sample_verification_context =
     \<lparr>vc_now = 1010, vc_workload_identity = ''scanner/a'',
      vc_audience = ''outscan-result-ingress:v1'', vc_max_payload_bytes = 64,
      vc_keyring = (\<lambda>v. if v = 2 then Some (replicate 32 9) else None)\<rparr>"

lemma sample_signing_snapshots:
  "snapshot_signing_input sample_signing_input =
     Some \<lparr>sg_job_id = ''job-1'', sg_attempt_id = ''attempt-1'', sg_fence = 7, sg_payload = [1, 2, 3]\<rparr>"
  "snapshot_signing_context sample_signing_context =
     Some \<lparr>sc_now = 1000, sc_lifetime = 60, sc_workload_identity = ''scanner/a'',
       sc_audience = ''outscan-result-ingress:v1'', sc_max_payload_bytes = 64,
       sc_key_version = 2, sc_key = replicate 32 9\<rparr>"
  by code_simp+

lemma sample_context_valid: "valid_verification_context sample_verification_context"
  by code_simp

definition sample_signed_result :: signed_result where
  "sample_signed_result =
     (case sign_result_envelope sample_signing_input sample_signing_context of
        Inr s \<Rightarrow> s)"

lemma sample_signs:
  "sign_result_envelope sample_signing_input sample_signing_context = Inr sample_signed_result"
  "sr_payload sample_signed_result = [1, 2, 3]"
proof -
  note snap = signing_snapshots [OF sample_signing_snapshots]
  have "\<exists>s. sign_result_envelope sample_signing_input sample_signing_context = Inr s \<and>
      sr_payload s = [1, 2, 3]"
    using snap(1,2)
    by (simp add: sign_result_envelope_def sample_signing_snapshots Let_def
        encode_message_well_formed)
  then show "sign_result_envelope sample_signing_input sample_signing_context =
      Inr sample_signed_result" "sr_payload sample_signed_result = [1, 2, 3]"
    by (auto simp: sample_signed_result_def)
qed

lemma sample_verifies:
  "\<exists>v. verify_result_envelope (read_submission sample_signed_result)
     sample_verification_context = Inr v"
  by (intro exI, rule verify_signed [OF sample_signs(1) sample_signing_snapshots(2)
        sample_context_valid])
    (simp_all add: sample_verification_context_def sample_signs(2))

subsection \<open>Properties\<close>

text \<open>C29: Every result that the scanner signs verifies at the ingress: with the same
  key in the ring under the signed key version, the same workload and audience, a
  large enough payload limit and a clock inside the validity window, the
  submission is accepted and yields the signed header and the signed payload.\<close>

theorem signed_result_verifies:
  assumes "sign_result_envelope raw_input raw_context = Inr s"
    and "snapshot_signing_context raw_context = Some c"
    and "valid_verification_context vc"
    and "vc_workload_identity vc = sc_workload_identity c" "vc_audience vc = sc_audience c"
    and "int (length (sr_payload s)) \<le> vc_max_payload_bytes vc"
    and "sc_now c \<le> vc_now vc + 30" "vc_now vc < sc_now c + sc_lifetime c"
    and "vc_keyring vc (sc_key_version c) = Some (sc_key c)"
  shows "verify_result_envelope (read_submission s) vc =
    Inr \<lparr>vr_header = sr_header s,
         vr_identity = (rh_attempt_id (sr_header s), rh_fence (sr_header s),
           rh_payload_digest (sr_header s)),
         vr_payload = sr_payload s\<rparr>"
  using assms by (rule verify_signed)

theorem signed_result_verifies_witness:
  "verify_result_envelope (read_submission sample_signed_result) sample_verification_context =
    Inr \<lparr>vr_header = sr_header sample_signed_result,
         vr_identity = (rh_attempt_id (sr_header sample_signed_result),
           rh_fence (sr_header sample_signed_result),
           rh_payload_digest (sr_header sample_signed_result)),
         vr_payload = sr_payload sample_signed_result\<rparr>"
  by (rule signed_result_verifies [OF sample_signs(1) sample_signing_snapshots(2)
        sample_context_valid])
    (simp_all add: sample_verification_context_def sample_signs(2))

theorem verified_envelope_sound_witness:
  "\<exists>v. verify_result_envelope (read_submission sample_signed_result)
      sample_verification_context = Inr v \<and>
    rh_payload_digest (vr_header v) = payload_digest (vr_payload v)"
  using sample_verifies verified_envelope_sound by blast

text \<open>A MAC authenticates one result: two verified submissions with the same MAC and
  the same key yield the same header and the same payload, unless the two
  authenticated messages collide under HMAC-SHA-256 or the two payloads
  collide under SHA-256.\<close>

lemma mac_binds_result:
  assumes "verify_result_envelope input1 c1 = Inr v1" "verify_result_envelope input2 c2 = Inr v2"
    and "snapshot_submission input1 = Some (h1, p1, a1)"
    and "snapshot_submission input2 = Some (h2, p2, a2)"
    and "ra_mac a1 = ra_mac a2"
    and "vc_keyring c1 (ra_key_version a1) = Some key"
    and "vc_keyring c2 (ra_key_version a2) = Some key"
  shows "v1 = v2 \<or>
    (vr_payload v1 \<noteq> vr_payload v2 \<and> sha256 (vr_payload v1) = sha256 (vr_payload v2)) \<or>
    (message_of h1 (ra_key_version a1) \<noteq> message_of h2 (ra_key_version a2) \<and>
     hmac_sha256 key (message_of h1 (ra_key_version a1)) =
     hmac_sha256 key (message_of h2 (ra_key_version a2)))"
proof -
  note wf = snapshot_submission_Some [OF assms(3)] snapshot_submission_Some [OF assms(4)]
  have v1: "authenticates c1 h1 a1" "payload_digest p1 = rh_payload_digest h1"
    "v1 = \<lparr>vr_header = h1, vr_identity = (rh_attempt_id h1, rh_fence h1, rh_payload_digest h1),
      vr_payload = p1\<rparr>"
    using assms(1,3) by (auto simp: verify_Inr_iff)
  have v2: "authenticates c2 h2 a2" "payload_digest p2 = rh_payload_digest h2"
    "v2 = \<lparr>vr_header = h2, vr_identity = (rh_attempt_id h2, rh_fence h2, rh_payload_digest h2),
      vr_payload = p2\<rparr>"
    using assms(2,4) by (auto simp: verify_Inr_iff)
  have mac: "hmac_sha256 key (message_of h1 (ra_key_version a1)) =
      hmac_sha256 key (message_of h2 (ra_key_version a2))"
    using v1(1) v2(1) wf assms(5-7) by (simp add: authenticates_iff)
  show ?thesis
  proof (cases "message_of h1 (ra_key_version a1) = message_of h2 (ra_key_version a2)")
    case True
    then have "h1 = h2" using message_injective wf by blast
    then have "sha256 p1 = sha256 p2" using v1(2) v2(2) payload_digest_eq by metis
    with \<open>h1 = h2\<close> v1(3) v2(3) show ?thesis by auto
  next
    case False
    with mac show ?thesis by simp
  qed
qed

end
