(* ===== verification/Guest_Submission.thy ===== *)
theory Guest_Submission
  imports Guest_Progress View_Properties Result_Envelope
begin

section \<open>Committing a signed result\<close>

text \<open>
  Models \<^verbatim>\<open>createPostgresGuestResultCommitter\<close> of
  \<^verbatim>\<open>apps/api/src/guest-persistence/postgres-result-commit.ts\<close>: a signed envelope is
  verified, its payload is rewritten in canonical form, the digest and the size of the
  canonical form are compared with the signed ones, and the projection is stored
  (theory \<open>Guest_Commit\<close>).  The verification clock is an argument, \<open>None\<close> when it throws.
\<close>

record commit_dependencies =
  cd_result_keyring :: "int \<Rightarrow> bytes option"
  cd_workload_identity :: string
  cd_audience :: string
  cd_max_payload_bytes :: int

text \<open>\<^verbatim>\<open>validDependencies\<close>; the factory throws otherwise.\<close>

definition valid_commit_dependencies :: "commit_dependencies \<Rightarrow> bool" where
  "valid_commit_dependencies d \<longleftrightarrow>
     principal_pattern (cd_workload_identity d) \<and> principal_pattern (cd_audience d) \<and>
     safe_int (cd_max_payload_bytes d) \<and> cd_max_payload_bytes d > 0 \<and>
     cd_max_payload_bytes d \<le> RESULT_ENVELOPE_MAX_PAYLOAD_BYTES"

text \<open>
  The object \<^verbatim>\<open>SanitizedGuestProjection\<close>.  It is stored as \<^verbatim>\<open>jsonb\<close>, which may reorder members;
  nobody depends on their order.
\<close>

definition verification_of :: "commit_dependencies \<Rightarrow> int \<Rightarrow> verification_context" where
  "verification_of d now =
     \<lparr>vc_now = now, vc_workload_identity = cd_workload_identity d, vc_audience = cd_audience d,
      vc_max_payload_bytes = cd_max_payload_bytes d, vc_keyring = cd_result_keyring d\<rparr>"

definition submitted_identity :: "verified_result \<Rightarrow> result_identity" where
  "submitted_identity v =
     (case vr_identity v of (aid, fence, digest) \<Rightarrow>
        \<lparr>ri_attempt_id = aid, ri_fence = fence, ri_payload_digest = digest\<rparr>)"

definition commit_submission ::
  "(string \<Rightarrow> string) \<Rightarrow> commit_dependencies \<Rightarrow> int option \<Rightarrow> try_outcome list \<Rightarrow> jsval \<Rightarrow> int \<Rightarrow>
   guest_db \<Rightarrow> commit_result \<times> guest_db" where
  "commit_submission to_ascii d clock tries submission transaction_now db =
     (case clock of
        None \<Rightarrow> (COMMIT_REFUSED REJ_SUBMISSION_REJECTED True, db)
      | Some verification_now \<Rightarrow>
          (case verify_result_envelope submission (verification_of d verification_now) of
             Inl _ \<Rightarrow> (COMMIT_REFUSED REJ_SUBMISSION_REJECTED True, db)
           | Inr verified \<Rightarrow>
               (case produce_canonical_guest_scanner_result to_ascii (JBytes (vr_payload verified))
                       (JNum (cd_max_payload_bytes d)) of
                  Inl _ \<Rightarrow> (COMMIT_REFUSED REJ_SUBMISSION_REJECTED True, db)
                | Inr canonical \<Rightarrow>
                    if cr_payload_digest canonical \<noteq> rh_payload_digest (vr_header verified) \<or>
                       cr_payload_size canonical \<noteq> rh_payload_size (vr_header verified)
                    then (COMMIT_REFUSED REJ_SUBMISSION_REJECTED True, db)
                    else Guest_Commit.persist_result tries (rh_job_id (vr_header verified))
                      (submitted_identity verified) (projection_value (cr_projection canonical))
                      transaction_now db)))"

subsection \<open>The row a commit writes\<close>

lemma decrement_rows:
  "decrement_and_remove now spec db = (ok, db') \<Longrightarrow>
   db_results db' = db_results db \<and> db_scans db' = db_scans db \<and> db_attempts db' = db_attempts db"
  by (auto simp: decrement_and_remove_def Let_def split: option.splits if_splits)

lemma decrement_each_rows:
  "decrement_each now ss db = (ok, db') \<Longrightarrow>
   db_results db' = db_results db \<and> db_scans db' = db_scans db \<and> db_attempts db' = db_attempts db"
proof (induction ss arbitrary: db)
  case (Cons s ss)
  obtain b d where d: "decrement_and_remove now s db = (b, d)" by fastforce
  show ?case using Cons.prems Cons.IH [of d] decrement_rows [OF d] by (cases b) (simp_all add: d)
qed simp

lemma release_rows:
  assumes "release_or_throw sid now reason db = Some db'"
  shows "db_results db' = db_results db \<and> db_scans db' = db_scans db \<and> db_attempts db' = db_attempts db"
  using assms
  by (auto simp: release_or_throw_def release_guest_abuse_reservation_def Let_def
      split: option.splits if_splits prod.splits bool.splits dest: decrement_each_rows)

lemma store_result_parts:
  assumes "store_result sid sub projection now db = Some db'"
  obtains db1 db2 db3 where "succeed_attempt sid sub now db = Some db1"
    "succeed_scan sid sub (digest_bytes ''sha256:'' (ri_payload_digest sub)) now db1 = Some db2"
    "insert_result sid \<lparr>rr_attempt_id = ri_attempt_id sub, rr_fence = ri_fence sub,
       rr_digest = digest_bytes ''sha256:'' (ri_payload_digest sub), rr_completed_at = now,
       rr_projection = projection\<rparr> db2 = Some db3"
    "release_or_throw sid now RR_TERMINAL_RESULT db3 = Some db'"
  using assms by (auto simp: store_result_def Let_def Option.bind_eq_Some_conv)

lemma store_result_rows:
  assumes "store_result sid sub projection now db = Some db'"
  shows "map_of (db_results db') sid = Some
      \<lparr>rr_attempt_id = ri_attempt_id sub, rr_fence = ri_fence sub,
       rr_digest = digest_bytes ''sha256:'' (ri_payload_digest sub), rr_completed_at = now,
       rr_projection = projection\<rparr>"
    "\<exists>s. map_of (db_scans db) sid = Some s \<and>
       map_of (db_scans db') sid = Some (succeeded_scan s (ri_attempt_id sub) (ri_fence sub)
         (digest_bytes ''sha256:'' (ri_payload_digest sub)) now)"
proof -
  obtain db1 db2 db3 where 1: "succeed_attempt sid sub now db = Some db1"
    and 2: "succeed_scan sid sub (digest_bytes ''sha256:'' (ri_payload_digest sub)) now db1 = Some db2"
    and 3: "insert_result sid \<lparr>rr_attempt_id = ri_attempt_id sub, rr_fence = ri_fence sub,
       rr_digest = digest_bytes ''sha256:'' (ri_payload_digest sub), rr_completed_at = now,
       rr_projection = projection\<rparr> db2 = Some db3"
    and 4: "release_or_throw sid now RR_TERMINAL_RESULT db3 = Some db'"
    using assms by (rule store_result_parts)
  have scans1: "db_scans db1 = db_scans db"
    using 1 by (auto simp: succeed_attempt_def update_attempt_def split: option.splits if_splits)
  obtain s where s: "map_of (db_scans db1) sid = Some s"
    "map_of (db_scans db2) sid = Some (succeeded_scan s (ri_attempt_id sub) (ri_fence sub)
       (digest_bytes ''sha256:'' (ri_payload_digest sub)) now)"
    using 2 by (auto simp: succeed_scan_def update_scan_def succeeded_scan_def split: option.splits if_splits)
  note rows = release_rows [OF 4]
  show "map_of (db_results db') sid = Some
      \<lparr>rr_attempt_id = ri_attempt_id sub, rr_fence = ri_fence sub,
       rr_digest = digest_bytes ''sha256:'' (ri_payload_digest sub), rr_completed_at = now,
       rr_projection = projection\<rparr>"
    using 3 rows by (auto simp: insert_result_def split: if_splits)
  have "db_scans db3 = db_scans db2" using 3 by (auto simp: insert_result_def split: if_splits)
  then show "\<exists>s. map_of (db_scans db) sid = Some s \<and>
       map_of (db_scans db') sid = Some (succeeded_scan s (ri_attempt_id sub) (ri_fence sub)
         (digest_bytes ''sha256:'' (ri_payload_digest sub)) now)"
    using s scans1 rows by simp
qed

lemma persist_commits:
  assumes "Guest_Commit.persist_result tries sid sub projection now db = (RESULT_COMMITTED True, db')"
  obtains s where "map_of (db_scans db) sid = Some s"
    "get_prop projection ''canonical_host'' = JStr (gs_canonical_target s)"
    "store_result sid sub projection now db = Some db'"
proof -
  have "persist_result_tx sid sub projection now db = Some (RESULT_COMMITTED True, db')"
    using assms by (auto simp: Guest_Commit.persist_result_def elim!: transaction_cases split: prod.splits option.splits)
  then show ?thesis using that
    by (auto simp: persist_result_tx_def lock_current_result_state_def map_locked_state_def
        safe_positive_integer_def Option.bind_eq_Some_conv
        split: option.splits if_splits commit_decision.splits)
qed

lemma verified_result_parts:
  assumes "verify_result_envelope v c = Inr verified"
  shows "vr_identity verified = (rh_attempt_id (vr_header verified), rh_fence (vr_header verified),
      rh_payload_digest (vr_header verified))"
    "rh_payload_digest (vr_header verified) = payload_digest (vr_payload verified)"
    "rh_payload_size (vr_header verified) = int (length (vr_payload verified))"
    "well_formed_header (vr_header verified)"
  using assms
  by (auto simp: verify_result_envelope_def dest!: snapshot_submission_Some
      split: if_splits option.splits)

lemma payload_digest_bytes: "digest_bytes ''sha256:'' (payload_digest b) = sha256 b"
  by (simp add: payload_digest_def digest_bytes_sha256_text)

subsection \<open>A live worker can always commit\<close>

lemma succeeded_attempt_written:
  assumes "attempt_checks a" "at_state a = A_RUNNING" "at_lease_expires_at a = Some l"
    and "now < l" "now < at_hard_deadline a" "at_updated_at a \<le> now"
  shows "attempt_written a (finished a A_SUCCEEDED now)"
  using assms
  by (auto simp: attempt_written_def finished_def guard_attempt_update_def attempt_checks_def
      attempt_time_contract_def attempt_shape_def opt_all_def sql_attempt_transition_def
      split: option.splits)

lemma succeeded_scan_written:
  assumes "scan_checks s" "gs_job_state s = J_RUNNING" "gs_current_attempt_id s = Some aid"
    and "fence = gs_current_fence s" "length digest = 32" "gs_updated_at s \<le> now"
    and "now \<le> gs_deletion_deadline s" "1 \<le> gs_current_fence s"
  shows "scan_written s (succeeded_scan s aid fence digest now)"
  using assms
  by (auto simp: scan_written_def succeeded_scan_def guard_scan_update_def same_scan_identity_def
      sql_job_transition_def scan_checks_def scan_columns_def scan_time_contract_def scan_shape_def
      accepted_shape_def split: option.splits)

text \<open>What a worker must hold to commit now.\<close>

definition may_commit :: "string \<Rightarrow> result_identity \<Rightarrow> int \<Rightarrow> scan_row \<Rightarrow> attempt_row \<Rightarrow> bool" where
  "may_commit sid sub now s a \<longleftrightarrow>
     gs_job_state s = J_RUNNING \<and> gs_current_attempt_id s = Some (ri_attempt_id sub) \<and>
     gs_current_fence s = ri_fence sub \<and> at_scan_id a = sid \<and> at_state a = A_RUNNING \<and>
     (\<exists>l. at_lease_expires_at a = Some l \<and> now < l) \<and> now < at_hard_deadline a \<and>
     gs_updated_at s \<le> now \<and> at_updated_at a \<le> now \<and> 0 \<le> gs_created_at s \<and> 0 < now \<and>
     at_hard_deadline a \<le> MAX_SAFE_INTEGER"

lemma store_result_possible:
  assumes inv: "guest_inv db"
    and s: "map_of (db_scans db) sid = Some s" and a: "map_of (db_attempts db) (ri_attempt_id sub) = Some a"
    and may: "may_commit sid sub now s a"
    and digest: "length (digest_bytes ''sha256:'' (ri_payload_digest sub)) = 32"
    and host: "get_prop projection ''canonical_host'' = JStr (gs_canonical_target s)"
    and shape: "projection_shape projection"
  shows "\<exists>db'. store_result sid sub projection now db = Some db'"
proof -
  define aid where "aid = ri_attempt_id sub"
  define digest where "digest = digest_bytes ''sha256:'' (ri_payload_digest sub)"
  note m = may [unfolded may_commit_def]
  obtain l where l: "at_lease_expires_at a = Some l" "now < l" using m by blast
  have sv: "sv_scan (view sid db) = Some s" using s by (simp add: view_scan)
  have av: "sv_attempts (view sid db) aid = Some a" using a m by (simp add: view_attempt aid_def)
  note v = view_invD [OF guest_invD(2) [OF inv] sv]
  have ai: "attempt_inv sid s aid a" by (rule v(3) [OF av])
  then have fence: "at_fence a = gs_current_fence s"
    using v(4) av m by (auto simp: current_inv_def aid_def)
  have checks: "attempt_checks a" using ai by (simp add: attempt_inv_def)
  have within: "now \<le> gs_deletion_deadline s"
    using ai m v(2) by (simp add: attempt_inv_def scan_checks_def scan_time_contract_def
        SCAN_ACCESS_SECONDS_def SCAN_RETENTION_SECONDS_def)
  have aw: "attempt_written a (finished a A_SUCCEEDED now)"
    by (rule succeeded_attempt_written [OF checks _ l]) (use m in auto)
  have sw: "scan_written s (succeeded_scan s aid (ri_fence sub) digest now)"
    by (rule succeeded_scan_written [OF v(2)])
      (use m digest within checks fence in \<open>auto simp: aid_def digest_def attempt_checks_def\<close>)
  let ?a' = "finished a A_SUCCEEDED now" and ?s' = "succeeded_scan s aid (ri_fence sub) digest now"
  let ?r = "\<lparr>rr_attempt_id = aid, rr_fence = ri_fence sub, rr_digest = digest, rr_completed_at = now,
      rr_projection = projection\<rparr>"
  define db1 where "db1 = db\<lparr>db_attempts := put aid ?a' (db_attempts db)\<rparr>"
  define db2 where "db2 = db1\<lparr>db_scans := put sid ?s' (db_scans db1)\<rparr>"
  define db3 where "db3 = db2\<lparr>db_results := put sid ?r (db_results db2)\<rparr>"
  have 1: "succeed_attempt sid sub now db = Some db1"
    using a m l aw fence
    by (simp add: succeed_attempt_def update_attempt_def attempt_written_def finished_def db1_def aid_def)
  have "gs_accepted_attempt_id s = None \<and> gs_accepted_fence s = None \<and> gs_accepted_digest s = None"
    using v(2) m by (auto simp: scan_checks_def scan_shape_def accepted_shape_def)
  then have 2: "succeed_scan sid sub digest now db1 = Some db2"
    using s m sw
    by (simp add: succeed_scan_def update_scan_def scan_written_def succeeded_scan_def db1_def db2_def aid_def)
  have "sv_result (view sid db) = None" by (rule running_view [OF guest_invD(2) [OF inv] sv]) (use m in auto)
  then have res: "map_of (db_results db) sid = None" by (simp add: view_result)
  have guard: "guard_result_insert sid ?r db2"
    using m host within sw fence
    by (simp add: guard_result_insert_def db2_def db1_def succeeded_scan_def finished_def aid_def
        scan_written_def scan_checks_def scan_time_contract_def)
      (use ai m v(2) in \<open>auto simp: attempt_inv_def scan_checks_def scan_time_contract_def
        SCAN_ACCESS_SECONDS_def SCAN_RETENTION_SECONDS_def\<close>)
  have 3: "insert_result sid ?r db2 = Some db3"
    using digest shape guard res by (simp add: insert_result_def db3_def db2_def db1_def digest_def)
  obtain b where "scan_effect sid (\<lambda>v. v\<lparr>sv_attempts := (sv_attempts v)(aid \<mapsto> finished b A_SUCCEEDED now)\<rparr>) db db1"
    using 1 unfolding succeed_attempt_def finished_def aid_def by (rule update_attempt_effect)
  note e1 = scan_effect_quota [OF this]
  obtain s0 where "scan_effect sid (\<lambda>v. v\<lparr>sv_scan := Some (succeeded_scan s0 aid (ri_fence sub) digest now)\<rparr>) db1 db2"
    using 2 unfolding succeed_scan_def succeeded_scan_def aid_def by (rule update_scan_effect)
  note e2 = scan_effect_quota [OF this]
  note e3 = scan_effect_quota [OF insert_result_effect(4) [OF 3]]
  obtain r where r: "sv_reservation (view sid db) = Some r" "rv_released_at r = None"
    "opened_reservation s r" "reservation_checks r"
    by (rule reservation_inv_live [OF guest_invD(2) [OF inv] sv]) (use m in auto)
  have "\<exists>db4. release_or_throw sid now RR_TERMINAL_RESULT db3 = Some db4"
  proof (rule release_possible [OF _ r(2)])
    show "sv_reservation (view sid db3) = Some r" using r(1) by (simp add: e3(4) e2(4) e1(4))
    show "tables_distinct db3" "active_ok db3"
      using e1 e2 e3 guest_invD(1,3) [OF inv] by blast+
    show "0 \<le> rv_reserved_at r" "rv_reserved_at r \<le> now" "now \<le> rv_deletion_deadline r"
      using r(3) m within v(2)
      by (auto simp: opened_reservation_def scan_checks_def scan_time_contract_def)
  qed (rule r(4))
  then obtain db4 where 4: "release_or_throw sid now RR_TERMINAL_RESULT db3 = Some db4" ..
  have "tables_distinct db3" "active_ok db3" "sv_reservation (view sid db3) = Some r"
    using e1 e2 e3 guest_invD(1,3) [OF inv] r(1) by simp_all
  note l4 = release_live [OF 4 this(3) r(2) this(1,2)]
  note rows = release_rows [OF 4]
  have "map_of (db_reservations db4) sid = Some (released r now RR_TERMINAL_RESULT)"
    using l4(1) by (simp flip: view_reservation)
  then have "deferred_keys sid db4"
    using rows m fence r(3)
    by (simp add: deferred_keys_def db3_def db2_def db1_def succeeded_scan_def finished_def aid_def
        released_def opened_reservation_def)
  then show ?thesis
    using 1 2 3 4 by (simp add: store_result_def Let_def digest_def [symmetric] aid_def [symmetric])
qed

lemma live_persist_commits:
  assumes "guest_inv db" "map_of (db_scans db) sid = Some s"
    and "map_of (db_attempts db) (ri_attempt_id sub) = Some a" "may_commit sid sub now s a"
    and "has_valid_identity sub"
    and "get_prop projection ''canonical_host'' = JStr (gs_canonical_target s)" "projection_shape projection"
  shows "\<exists>db'. Guest_Commit.persist_result (RUNS # tries) sid sub projection now db = (RESULT_COMMITTED True, db')"
proof -
  note m = assms(4) [unfolded may_commit_def]
  have sub: "sha256_pattern (ri_payload_digest sub)" "id_pattern (ri_attempt_id sub)" "positive_safe (ri_fence sub)"
    using assms(5) by (simp_all add: has_valid_identity_def)
  obtain db' where st: "store_result sid sub projection now db = Some db'"
    using store_result_possible [OF assms(1-4) length_sha256_digest [OF sub(1)] assms(6,7)] by blast
  have sv: "sv_scan (view sid db) = Some s" using assms(2) by (simp add: view_scan)
  have av: "sv_attempts (view sid db) (ri_attempt_id sub) = Some a" using assms(3) m by (simp add: view_attempt)
  note v = view_invD [OF guest_invD(2) [OF assms(1)] sv]
  have fence: "at_fence a = gs_current_fence s" using v(4) av m by (auto simp: current_inv_def)
  have checks: "attempt_checks a" using v(3) [OF av] by (simp add: attempt_inv_def)
  obtain l where l: "at_lease_expires_at a = Some l" "now < l" "l \<le> at_hard_deadline a"
    using m checks by (auto simp: attempt_checks_def attempt_time_contract_def opt_all_def)
  have accepted: "map_accepted s = Some None"
    using v(2) m by (auto simp: map_accepted_def scan_checks_def scan_shape_def accepted_shape_def)
  have "Option.bind (lock_current_result_state sid db) (map_locked_state now) = Some
      \<lparr>lk_snapshot = \<lparr>rc_job_state = J_RUNNING, rc_current_attempt_id = ri_attempt_id sub,
         rc_current_fence = ri_fence sub, rc_attempt_state = A_RUNNING, rc_lease_expires_at = l,
         rc_hard_deadline = at_hard_deadline a, rc_accepted_result = None\<rparr>,
       lk_canonical_target = gs_canonical_target s, lk_now = now\<rparr>"
    using assms(2,3) m l fence sub(3)
    by (auto simp: lock_current_result_state_def map_locked_state_def safe_positive_integer_def
        accepted positive_safe_def safe_int_def)
  moreover have "decide_result_commit \<lparr>rc_job_state = J_RUNNING, rc_current_attempt_id = ri_attempt_id sub,
         rc_current_fence = ri_fence sub, rc_attempt_state = A_RUNNING, rc_lease_expires_at = l,
         rc_hard_deadline = at_hard_deadline a, rc_accepted_result = None\<rparr> sub now =
      PRIMARY_COMMIT J_SUCCEEDED A_SUCCEEDED"
    unfolding primary_commit_iff has_valid_snapshot_def
    using assms(5) sub l m by (auto simp: positive_safe_def safe_int_def)
  ultimately show ?thesis
    using st assms(6) by (simp add: Guest_Commit.persist_result_def transaction_runs persist_result_tx_def)
qed

lemma submission_persists:
  assumes "verify_result_envelope submission (verification_of d vnow) = Inr verified"
    and "produce_canonical_guest_scanner_result to_ascii (JBytes (vr_payload verified))
      (JNum (cd_max_payload_bytes d)) = Inr r"
    and "cr_payload_digest r = rh_payload_digest (vr_header verified)"
    "cr_payload_size r = rh_payload_size (vr_header verified)"
  shows "commit_submission to_ascii d (Some vnow) tries submission now db =
    Guest_Commit.persist_result tries (rh_job_id (vr_header verified)) (submitted_identity verified)
      (projection_value (cr_projection r)) now db"
  using assms by (simp add: commit_submission_def)

lemma submitted_identity_valid:
  assumes "verify_result_envelope v c = Inr verified"
  shows "has_valid_identity (submitted_identity verified)"
  using verified_result_parts [OF assms]
  by (simp add: submitted_identity_def has_valid_identity_def well_formed_header_def)

lemma projection_value_props:
  "get_prop (projection_value p) ''canonical_host'' = JStr (sp_canonical_host p)"
  "projection_shape (projection_value p)"
  by (simp_all add: projection_value_def projection_shape_def)

subsection \<open>A submission for the witnesses\<close>

definition run_dependencies :: commit_dependencies where
  "run_dependencies =
     \<lparr>cd_result_keyring = (\<lambda>v. if v = 2 then Some (replicate 32 9) else None),
      cd_workload_identity = ''scanner/a'', cd_audience = ''outscan-result-ingress:v1'',
      cd_max_payload_bytes = 65536\<rparr>"

definition run_payload :: bytes where
  "run_payload = cr_canonical_payload sample_result"

definition run_signing_input :: jsval where
  "run_signing_input =
     JObj [(''job_id'', JStr ''scan-1''), (''attempt_id'', JStr ''attempt-1''), (''fence'', JNum 1),
       (''payload'', JBytes run_payload)]"

definition run_signing_context :: jsval where
  "run_signing_context =
     JObj [(''now_unix_seconds'', JNum 1005), (''lifetime_seconds'', JNum 60),
       (''workload_identity'', JStr ''scanner/a''), (''audience'', JStr ''outscan-result-ingress:v1''),
       (''max_payload_bytes'', JNum 65536), (''key_version'', JNum 2),
       (''key'', JBytes (replicate 32 9))]"

lemma run_signing_snapshots:
  "snapshot_signing_input run_signing_input =
     Some \<lparr>sg_job_id = ''scan-1'', sg_attempt_id = ''attempt-1'', sg_fence = 1, sg_payload = run_payload\<rparr>"
  "snapshot_signing_context run_signing_context =
     Some \<lparr>sc_now = 1005, sc_lifetime = 60, sc_workload_identity = ''scanner/a'',
       sc_audience = ''outscan-result-ingress:v1'', sc_max_payload_bytes = 65536,
       sc_key_version = 2, sc_key = replicate 32 9\<rparr>"
proof -
  have "id_pattern ''scan-1''" "id_pattern ''attempt-1''" by code_simp+
  then show "snapshot_signing_input run_signing_input =
     Some \<lparr>sg_job_id = ''scan-1'', sg_attempt_id = ''attempt-1'', sg_fence = 1, sg_payload = run_payload\<rparr>"
    by (simp add: snapshot_signing_input_def run_signing_input_def exact_record_def has_exact_keys_def
        SIGN_INPUT_KEYS_def as_str_matching_def as_bounded_def safe_int_def MAX_SAFE_INTEGER_def)
  show "snapshot_signing_context run_signing_context =
     Some \<lparr>sc_now = 1005, sc_lifetime = 60, sc_workload_identity = ''scanner/a'',
       sc_audience = ''outscan-result-ingress:v1'', sc_max_payload_bytes = 65536,
       sc_key_version = 2, sc_key = replicate 32 9\<rparr>" by code_simp
qed

lemma run_payload_eq: "run_payload = canonical_bytes (sort_envelope sample_contents)"
  by (simp add: run_payload_def sample_result_def)

lemma run_produced:
  "produce_canonical_guest_scanner_result (\<lambda>s. s) (JBytes run_payload) (JNum 65536) = Inr sample_result"
  unfolding run_payload_eq sample_result_def
  by (rule produce_canonical [OF sample_valid sample_bounded sample_size(2)])

definition run_header :: result_header where
  "run_header =
     \<lparr>rh_schema_version = 1, rh_job_id = ''scan-1'', rh_attempt_id = ''attempt-1'', rh_fence = 1,
      rh_workload_identity = ''scanner/a'', rh_audience = ''outscan-result-ingress:v1'',
      rh_issued_at = 1005, rh_expires_at = 1065, rh_payload_digest = payload_digest run_payload,
      rh_payload_size = int (length run_payload)\<rparr>"

definition run_verified :: verified_result where
  "run_verified =
     \<lparr>vr_header = run_header, vr_identity = (''attempt-1'', 1, payload_digest run_payload),
      vr_payload = run_payload\<rparr>"

lemma run_verifies:
  obtains submission where
    "verify_result_envelope submission (verification_of run_dependencies 1010) = Inr run_verified"
proof -
  have small: "int (length run_payload) \<le> 65536" using sample_size(2) by (simp add: run_payload_eq)
  note snap = signing_snapshots [OF run_signing_snapshots]
  obtain s where s: "sign_result_envelope run_signing_input run_signing_context = Inr s"
    using snap small
    by (simp add: sign_result_envelope_def run_signing_snapshots Let_def encode_message_well_formed)
  obtain i where i: "snapshot_signing_input run_signing_input = Some i" "sr_payload s = sg_payload i"
    "sr_header s = signed_header i \<lparr>sc_now = 1005, sc_lifetime = 60, sc_workload_identity = ''scanner/a'',
       sc_audience = ''outscan-result-ingress:v1'', sc_max_payload_bytes = 65536,
       sc_key_version = 2, sc_key = replicate 32 9\<rparr>"
    by (rule sign_Inr [OF s run_signing_snapshots(2)]) simp
  then have parts: "sr_payload s = run_payload" "sr_header s = run_header"
    by (auto simp: run_signing_snapshots(1) signed_header_def run_header_def)
  have ctx: "valid_verification_context (verification_of run_dependencies 1010)" by code_simp
  have "verify_result_envelope (read_submission s) (verification_of run_dependencies 1010) = Inr run_verified"
    unfolding run_verified_def
    using verify_signed [OF s run_signing_snapshots(2) ctx] small
    by (simp add: parts verification_of_def run_dependencies_def) (simp add: run_header_def)
  then show ?thesis by (rule that)
qed

lemma run_may_commit:
  "may_commit ''scan-1'' (submitted_identity run_verified) 1012 running_scan running_attempt"
  "map_of (db_scans running_db) ''scan-1'' = Some running_scan"
  "map_of (db_attempts running_db) (ri_attempt_id (submitted_identity run_verified)) = Some running_attempt"
  by (simp_all add: may_commit_def submitted_identity_def run_verified_def run_tables)
    (simp_all add: running_scan_def running_attempt_def leased_row_def MAX_SAFE_INTEGER_def)

lemma run_host: "gs_canonical_target running_scan = sp_canonical_host (cr_projection sample_result)"
  by (simp add: running_scan_def new_scan_row_def run_request_def sample_result_def projection_of_def
      sample_contents_def)

lemma run_digest:
  "cr_payload_digest sample_result = rh_payload_digest (vr_header run_verified)"
  "cr_payload_size sample_result = rh_payload_size (vr_header run_verified)"
  by (simp_all add: sample_result_def run_verified_def run_header_def run_payload_eq)

lemma run_canonical:
  "produce_canonical_guest_scanner_result (\<lambda>s. s) (JBytes (vr_payload run_verified))
     (JNum (cd_max_payload_bytes run_dependencies)) = Inr sample_result"
  using run_produced by (simp add: run_verified_def run_dependencies_def)

lemma run_commits:
  obtains submission db' where
    "verify_result_envelope submission (verification_of run_dependencies 1010) = Inr run_verified"
    "commit_submission (\<lambda>s. s) run_dependencies (Some 1010) [RUNS] submission 1012 running_db =
       (RESULT_COMMITTED True, db')"
proof -
  obtain submission where v: "verify_result_envelope submission (verification_of run_dependencies 1010) = Inr run_verified"
    by (rule run_verifies)
  have job: "rh_job_id (vr_header run_verified) = ''scan-1''" by (simp add: run_verified_def run_header_def)
  obtain db' where "Guest_Commit.persist_result [RUNS] ''scan-1'' (submitted_identity run_verified)
      (projection_value (cr_projection sample_result)) 1012 running_db = (RESULT_COMMITTED True, db')"
    using live_persist_commits [OF reachable_inv [OF run_reachable(2)] run_may_commit(2,3,1)
        submitted_identity_valid [OF v] _ projection_value_props(2)]
    by (auto simp: projection_value_props(1) run_host)
  then have "commit_submission (\<lambda>s. s) run_dependencies (Some 1010) [RUNS] submission 1012 running_db =
      (RESULT_COMMITTED True, db')"
    using submission_persists [OF v run_canonical run_digest] by (simp only: job)
  with v show ?thesis by (rule that)
qed

subsection \<open>Properties\<close>

text \<open>C7: what a commit stores is what was signed: a newly committed result comes from an envelope
  that verified, the payload's canonical form has the signed digest and size, and the row of the
  signed scan holds the signed attempt and fence, the SHA-256 of the canonical payload, the time of the
  transaction and the sanitized projection, whose host is the target of the scan.\<close>

theorem commit_stores_verified_result:
  assumes "commit_submission to_ascii d clock tries submission now db = (RESULT_COMMITTED True, db')"
  shows "\<exists>vnow verified r s. clock = Some vnow \<and>
    verify_result_envelope submission (verification_of d vnow) = Inr verified \<and>
    produce_canonical_guest_scanner_result to_ascii (JBytes (vr_payload verified))
      (JNum (cd_max_payload_bytes d)) = Inr r \<and>
    sha256 (vr_payload verified) = sha256 (cr_canonical_payload r) \<and>
    length (vr_payload verified) = length (cr_canonical_payload r) \<and>
    map_of (db_scans db) (rh_job_id (vr_header verified)) = Some s \<and>
    gs_canonical_target s = sp_canonical_host (cr_projection r) \<and>
    map_of (db_scans db') (rh_job_id (vr_header verified)) =
      Some (succeeded_scan s (rh_attempt_id (vr_header verified)) (rh_fence (vr_header verified))
        (sha256 (cr_canonical_payload r)) now) \<and>
    map_of (db_results db') (rh_job_id (vr_header verified)) = Some
      \<lparr>rr_attempt_id = rh_attempt_id (vr_header verified), rr_fence = rh_fence (vr_header verified),
       rr_digest = sha256 (cr_canonical_payload r), rr_completed_at = now,
       rr_projection = projection_value (cr_projection r)\<rparr>"
proof -
  from assms obtain vnow verified r where v: "clock = Some vnow"
    "verify_result_envelope submission (verification_of d vnow) = Inr verified"
    and r: "produce_canonical_guest_scanner_result to_ascii (JBytes (vr_payload verified))
      (JNum (cd_max_payload_bytes d)) = Inr r"
    "cr_payload_digest r = rh_payload_digest (vr_header verified)"
    "cr_payload_size r = rh_payload_size (vr_header verified)"
    and p: "Guest_Commit.persist_result tries (rh_job_id (vr_header verified)) (submitted_identity verified)
      (projection_value (cr_projection r)) now db = (RESULT_COMMITTED True, db')"
    by (auto simp: commit_submission_def split: option.splits sum.splits if_splits)
  note parts = verified_result_parts [OF v(2)]
  have payload: "cr_payload_digest r = payload_digest (cr_canonical_payload r)"
    "cr_payload_size r = int (length (cr_canonical_payload r))"
    by (rule produced_from [OF r(1)], simp)+
  have same: "sha256 (vr_payload verified) = sha256 (cr_canonical_payload r)"
    "length (vr_payload verified) = length (cr_canonical_payload r)"
    using r(2,3) parts(2,3) payload by (simp_all add: payload_digest_eq)
  obtain s where s: "map_of (db_scans db) (rh_job_id (vr_header verified)) = Some s"
    "get_prop (projection_value (cr_projection r)) ''canonical_host'' = JStr (gs_canonical_target s)"
    "store_result (rh_job_id (vr_header verified)) (submitted_identity verified)
       (projection_value (cr_projection r)) now db = Some db'"
    by (rule persist_commits [OF p])
  have id: "ri_attempt_id (submitted_identity verified) = rh_attempt_id (vr_header verified)"
    "ri_fence (submitted_identity verified) = rh_fence (vr_header verified)"
    "digest_bytes ''sha256:'' (ri_payload_digest (submitted_identity verified)) = sha256 (cr_canonical_payload r)"
    using parts(1,2) same(1) by (simp_all add: submitted_identity_def payload_digest_bytes)
  show ?thesis
    using v r(1) same s(1,2) store_result_rows [OF s(3)]
    by (intro exI [of _ vnow] exI [of _ verified] exI [of _ r] exI [of _ s])
      (simp add: id projection_value_props(1))
qed

theorem commit_stores_verified_result_witness:
  "\<exists>d clock submission db' (r :: canonical_result). commit_submission (\<lambda>s. s) d clock [RUNS] submission 1012 running_db =
      (RESULT_COMMITTED True, db') \<and> db_results running_db = [] \<and>
     (\<exists>sid row. map_of (db_results db') sid = Some row \<and> rr_digest row = sha256 (cr_canonical_payload r))"
proof -
  obtain submission db' where c: "commit_submission (\<lambda>s. s) run_dependencies (Some 1010) [RUNS] submission 1012
      running_db = (RESULT_COMMITTED True, db')" by (rule run_commits)
  from commit_stores_verified_result [OF c] obtain verified :: verified_result and r :: canonical_result where
    "map_of (db_results db') (rh_job_id (vr_header verified)) = Some
      \<lparr>rr_attempt_id = rh_attempt_id (vr_header verified), rr_fence = rh_fence (vr_header verified),
       rr_digest = sha256 (cr_canonical_payload r), rr_completed_at = 1012,
       rr_projection = projection_value (cr_projection r)\<rparr>"
    by blast
  then have "\<exists>sid row. map_of (db_results db') sid = Some row \<and> rr_digest row = sha256 (cr_canonical_payload r)"
    by (intro exI conjI) (assumption, simp)
  with c run_tables(4) show ?thesis by blast
qed



end
