(* ===== verification/Read_Properties.thy ===== *)
theory Read_Properties
  imports Guest_Records Guest_Submission
begin

section \<open>Who can read a result\<close>

text \<open>
  The snapshots accept what they return, so the second check of a stored record changes nothing;
  what the database holds passes them; and a read succeeds exactly for a bearer of the token of a
  committed result while its access lasts.
\<close>

subsection \<open>Snapshots of snapshots\<close>

definition valid_scan_record :: "(string \<Rightarrow> string) \<Rightarrow> guest_scan_record \<Rightarrow> bool" where
  "valid_scan_record to_ascii r \<longleftrightarrow>
     id_pattern (gr_guest_scan_id r) \<and>
     canonicalize_hostname to_ascii (JStr (gr_canonical_target r)) = Inr (gr_canonical_target r) \<and>
     hex64_pattern ''GUEST_SESSION:sha256:'' (gr_principal_scope r) \<and>
     idempotency_key_pattern (gr_idempotency_key r) \<and> sha256_pattern (gr_request_hash r) \<and>
     is_u64 (gr_created_at r) \<and> is_u64 (gr_updated_at r) \<and> is_u64 (gr_idempotency_expires_at r) \<and>
     is_u64 (gr_deletion_deadline r) \<and> valid_metadata (gr_token_metadata r) \<and>
     opt_all id_pattern (gr_current_attempt_id r) \<and>
     0 \<le> gr_current_fence r \<and> gr_current_fence r \<le> MAX_SAFE_INTEGER \<and>
     opt_all has_valid_identity (gr_accepted_result r) \<and> scan_record_consistent r"

definition valid_result_record :: "(string \<Rightarrow> string) \<Rightarrow> guest_result_record \<Rightarrow> bool" where
  "valid_result_record to_ascii r \<longleftrightarrow>
     id_pattern (gt_guest_scan_id r) \<and> id_pattern (gt_accepted_attempt_id r) \<and>
     positive_safe (gt_accepted_fence r) \<and> sha256_pattern (gt_payload_digest r) \<and>
     is_u64 (gt_completed_at r) \<and> valid_projection to_ascii (gt_projection r)"

lemma nullable_Some:
  "nullable f v = Some x \<longleftrightarrow> (v = JNull \<and> x = None) \<or> (v \<noteq> JNull \<and> (\<exists>y. f v = Some y \<and> x = Some y))"
  by (auto simp: nullable_def)

lemma nullable_back:
  assumes "opt_all (\<lambda>y. f (g y) = Some y \<and> g y \<noteq> JNull) x"
  shows "nullable f (null_or g x) = Some x"
  using assms by (cases x) (auto simp: nullable_def null_or_def opt_all_def)

lemma job_states_back: "as_state JOB_STATES (JStr (state_text JOB_STATES j)) = Some j"
  by (cases j) (simp_all add: as_state_def state_text_def JOB_STATES_def)

lemma accepted_valid: "accepted_result v = Some x \<Longrightarrow> opt_all has_valid_identity x"
  by (auto simp: accepted_result_def nullable_Some read_accepted_result_def opt_all_def guard_simps
      Option.bind_eq_Some_conv has_valid_identity_def positive_safe_def)

lemma accepted_back:
  assumes "opt_all has_valid_identity x"
  shows "accepted_result (null_or accepted_object x) = Some x"
  unfolding accepted_result_def
proof (rule nullable_back, cases x)
  case (Some i)
  then show "opt_all (\<lambda>y. read_accepted_result (accepted_object y) = Some y \<and> accepted_object y \<noteq> JNull) x"
    using assms
    by (simp add: opt_all_def read_accepted_result_def accepted_object_def exact_object_def
        as_str_matching_def as_bounded_def has_valid_identity_def positive_safe_def safe_int_def)
qed (simp add: opt_all_def)

lemma snapshot_scan_valid:
  assumes "snapshot_guest_scan to_ascii v = Some r"
  shows "valid_scan_record to_ascii r"
proof -
  have r: "read_guest_scan to_ascii v = Some r" "scan_record_consistent r"
    using assms by (auto simp: snapshot_guest_scan_def split: option.splits if_splits)
  from r(1) show ?thesis
    using r(2)
    by (auto simp: read_guest_scan_def valid_scan_record_def guard_simps Option.bind_eq_Some_conv is_u64_def
        nullable_Some opt_all_def dest: snapshot_metadata_valid dest!: accepted_valid)
qed

lemma snapshot_scan_object:
  assumes "valid_scan_record to_ascii r"
  shows "snapshot_guest_scan to_ascii (scan_object r) = Some r"
proof -
  have attempt: "nullable (as_str_matching id_pattern) (null_or JStr (gr_current_attempt_id r)) =
      Some (gr_current_attempt_id r)"
    by (rule nullable_back)
      (use assms in \<open>auto simp: valid_scan_record_def opt_all_def as_str_matching_def split: option.splits\<close>)
  have fence: "as_non_negative (JNum (gr_current_fence r)) = Some (gr_current_fence r)"
    using assms by (simp add: valid_scan_record_def as_bounded_def safe_int_def)
  have token: "snapshot_guest_result_token_metadata (metadata_object (gr_token_metadata r)) =
      Some (gr_token_metadata r)"
    using assms by (simp add: valid_scan_record_def snapshot_metadata_object)
  have accepted: "accepted_result (null_or accepted_object (gr_accepted_result r)) = Some (gr_accepted_result r)"
    using assms by (simp add: valid_scan_record_def accepted_back)
  have "exact_object (scan_object r) SCAN_KEYS"
    by (simp add: exact_object_def scan_object_def SCAN_KEYS_def)
  then have "read_guest_scan to_ascii (scan_object r) = Some r"
    using assms
    by (simp add: read_guest_scan_def scan_object_def as_str_matching_def attempt fence token accepted
        job_states_back valid_scan_record_def is_u64_def)
  then show ?thesis using assms by (simp add: snapshot_guest_scan_def valid_scan_record_def)
qed

lemma snapshot_result_valid:
  assumes "snapshot_result to_ascii v = Some r"
  shows "valid_result_record to_ascii r"
  using assms
  by (auto simp: snapshot_result_def valid_result_record_def guard_simps Option.bind_eq_Some_conv
      positive_safe_def is_u64_def dest: snapshot_projection_valid)

lemma snapshot_projection_value:
  "valid_projection to_ascii p \<Longrightarrow>
   snapshot_sanitized_guest_projection to_ascii (projection_value p) = Some p"
  by (rule snapshot_projection_parts) (simp_all add: projection_value_def exact_object_def PROJECTION_KEYS_def)

lemma snapshot_result_object:
  assumes "id_pattern sid" "id_pattern aid" "positive_safe fence" "sha256_pattern digest" "is_u64 completed"
  shows "snapshot_result to_ascii (result_object sid aid fence digest completed projection) =
    map_option (\<lambda>p. \<lparr>gt_guest_scan_id = sid, gt_accepted_attempt_id = aid, gt_accepted_fence = fence,
      gt_payload_digest = digest, gt_completed_at = completed, gt_projection = p\<rparr>)
      (snapshot_sanitized_guest_projection to_ascii projection)"
  using assms
  by (cases "snapshot_sanitized_guest_projection to_ascii projection")
    (simp_all add: snapshot_result_def result_object_def exact_object_def RESULT_KEYS_def
      as_str_matching_def as_bounded_def positive_safe_def safe_int_def is_u64_def)

definition records_match :: "guest_scan_record \<Rightarrow> guest_result_record \<Rightarrow> bool" where
  "records_match scan r \<longleftrightarrow>
     gr_job_state scan = J_SUCCEEDED \<and>
     gr_accepted_result scan = Some \<lparr>ri_attempt_id = gt_accepted_attempt_id r, ri_fence = gt_accepted_fence r,
       ri_payload_digest = gt_payload_digest r\<rparr> \<and>
     gt_guest_scan_id r = gr_guest_scan_id scan \<and> gr_created_at scan \<le> gt_completed_at r \<and>
     gt_completed_at r \<le> gr_updated_at scan \<and> gt_completed_at r < gr_deletion_deadline scan"

lemma read_record_Some:
  "snapshot_guest_result_read_record to_ascii v = Some (scan, r) \<longleftrightarrow>
     exact_object v [''scan'', ''result''] \<and> snapshot_guest_scan to_ascii (get_prop v ''scan'') = Some scan \<and>
     snapshot_result to_ascii (get_prop v ''result'') = Some r \<and> records_match scan r"
  by (auto simp: snapshot_guest_result_read_record_def records_match_def Option.bind_eq_Some_conv)

lemma read_record_again:
  assumes "snapshot_guest_result_read_record to_ascii v = Some (scan, r)"
  shows "snapshot_guest_result_read_record to_ascii (read_record_object (scan, r)) = Some (scan, r)"
proof -
  have v: "snapshot_guest_scan to_ascii (get_prop v ''scan'') = Some scan"
    "snapshot_result to_ascii (get_prop v ''result'') = Some r" "records_match scan r"
    using assms by (simp_all add: read_record_Some)
  have "valid_result_record to_ascii r" by (rule snapshot_result_valid [OF v(2)])
  then have "snapshot_result to_ascii (result_object (gt_guest_scan_id r) (gt_accepted_attempt_id r)
      (gt_accepted_fence r) (gt_payload_digest r) (gt_completed_at r) (projection_value (gt_projection r))) = Some r"
    by (simp add: valid_result_record_def snapshot_result_object snapshot_projection_value)
  then show ?thesis
    using snapshot_scan_object [OF snapshot_scan_valid [OF v(1)]] v(3)
    by (simp add: read_record_Some exact_object_def)
qed

lemma store_read:
  "Option.bind (postgres_result_store to_ascii True db sid) (snapshot_guest_result_read_record to_ascii) =
   load_by_guest_scan_id to_ascii db sid"
proof (cases "load_by_guest_scan_id to_ascii db sid")
  case None
  have "snapshot_guest_result_read_record to_ascii JNull = None"
    by (simp add: snapshot_guest_result_read_record_def exact_object_def)
  with None show ?thesis by (simp add: postgres_result_store_def null_or_def)
next
  case (Some p)
  obtain scan r where p: "p = (scan, r)" by (cases p)
  from Some obtain v where "snapshot_guest_result_read_record to_ascii v = Some (scan, r)"
    by (auto simp: load_by_guest_scan_id_def map_guest_result_read_row_def p Option.bind_eq_Some_conv)
  from read_record_again [OF this] Some show ?thesis
    by (simp add: postgres_result_store_def null_or_def p)
qed

subsection \<open>The stored result\<close>

text \<open>A result is stored when its scan row is last written.\<close>

definition completed_in_time :: "scan_view \<Rightarrow> bool" where
  "completed_in_time v \<longleftrightarrow>
     (\<forall>s r. sv_scan v = Some s \<longrightarrow> sv_result v = Some r \<longrightarrow> rr_completed_at r \<le> gs_updated_at s)"

lemma scan_written_later: "scan_written s s' \<Longrightarrow> gs_updated_at s \<le> gs_updated_at s'"
  by (simp add: scan_written_def guard_scan_update_def)

lemma completed_in_time_step:
  assumes "view_step sid v v'" "completed_in_time v"
  shows "completed_in_time v'"
  using assms
proof (cases rule: view_step.cases)
  case (result_stored s aid a l now digest res projection r)
  then show ?thesis by (simp add: completed_in_time_def succeeded_scan_def)
qed (use assms(2) scan_written_later in \<open>force simp: completed_in_time_def\<close>)+

lemma completed_in_time_no_scan: "completed_in_time no_scan"
  by (simp add: completed_in_time_def)

interpretation timed: invariant_system "\<lambda>db. db = migrated_db" guest_step
  "\<lambda>db. guest_inv db \<and> (\<forall>sid. completed_in_time (view sid db))"
proof
  fix db
  assume "db = migrated_db"
  moreover from this have "guest_inv db" by (rule guest.initially)
  ultimately show "guest_inv db \<and> (\<forall>sid. completed_in_time (view sid db))"
    by (simp add: completed_in_time_def view_scan migrated_db_def)
next
  fix db db'
  assume db: "guest_inv db \<and> (\<forall>sid. completed_in_time (view sid db))" and step: "guest_step db db'"
  have change: "guest_inv db'" "scan_change sid (view sid db) (view sid db')" for sid
    using guest_step_change [OF step] db by (simp_all add: guest_change_def)
  have "completed_in_time (view sid db')" for sid
    using change(2) [of sid] db completed_in_time_step completed_in_time_no_scan unfolding scan_change_def
    by metis
  with change(1) show "guest_inv db' \<and> (\<forall>sid. completed_in_time (view sid db'))" by blast
qed

definition stored_metadata :: "string \<Rightarrow> scan_row \<Rightarrow> token_metadata" where
  "stored_metadata sid s =
     \<lparr>tm_guest_scan_id = sid, tm_token_version = gs_token_version s, tm_token_nonce = gs_token_nonce s,
      tm_key_version = gs_token_key_version s, tm_access_expires_at = gs_access_expires_at s,
      tm_access_revoked_at = gs_access_revoked_at s\<rparr>"

definition stored_scan :: "string \<Rightarrow> scan_row \<Rightarrow> result_row \<Rightarrow> guest_scan_record" where
  "stored_scan sid s r =
     \<lparr>gr_guest_scan_id = sid, gr_canonical_target = gs_canonical_target s,
      gr_principal_scope = ''GUEST_SESSION:'' @ sha256_text (gs_session_scope s),
      gr_idempotency_key = gs_idempotency_key s, gr_request_hash = sha256_text (gs_request_hash s),
      gr_created_at = gs_created_at s, gr_updated_at = gs_updated_at s,
      gr_idempotency_expires_at = gs_access_expires_at s, gr_deletion_deadline = gs_deletion_deadline s,
      gr_job_state = J_SUCCEEDED, gr_token_metadata = stored_metadata sid s,
      gr_current_attempt_id = Some (rr_attempt_id r), gr_current_fence = rr_fence r,
      gr_accepted_result = Some \<lparr>ri_attempt_id = rr_attempt_id r, ri_fence = rr_fence r,
        ri_payload_digest = sha256_text (rr_digest r)\<rparr>\<rparr>"

definition stored_result :: "string \<Rightarrow> result_row \<Rightarrow> sanitized_projection \<Rightarrow> guest_result_record" where
  "stored_result sid r p =
     \<lparr>gt_guest_scan_id = sid, gt_accepted_attempt_id = rr_attempt_id r, gt_accepted_fence = rr_fence r,
      gt_payload_digest = sha256_text (rr_digest r), gt_completed_at = rr_completed_at r, gt_projection = p\<rparr>"

lemma stored_facts:
  assumes "guest_reachable db" "map_of (db_scans db) sid = Some s" "map_of (db_results db) sid = Some r"
  shows "id_pattern sid" "gs_job_state s = J_SUCCEEDED" "gs_current_attempt_id s = Some (rr_attempt_id r)"
    "gs_accepted_attempt_id s = Some (rr_attempt_id r)" "gs_accepted_fence s = Some (rr_fence r)"
    "gs_current_fence s = rr_fence r" "gs_accepted_digest s = Some (rr_digest r)"
    "get_prop (rr_projection r) ''canonical_host'' = JStr (gs_canonical_target s)"
    "length (rr_digest r) = 32" "1 \<le> rr_fence r" "rr_fence r \<le> MAX_SAFE_INTEGER" "id_pattern (rr_attempt_id r)"
    "gs_created_at s \<le> rr_completed_at r" "rr_completed_at r < gs_access_expires_at s"
    "rr_completed_at r \<le> gs_updated_at s" "scan_checks s"
proof -
  let ?v = "view sid db"
  have v: "view_inv sid ?v" "sv_scan ?v = Some s" "sv_result ?v = Some r"
    using reachable_view [OF assms(1)] assms(2,3) by (simp_all add: view_scan view_result)
  note d = view_invD [OF v(1,2)]
  show "id_pattern sid" "scan_checks s" by (rule d(1), rule d(2))
  have res: "result_inv s (sv_attempts ?v) (Some r)" using d(5) v(3) by simp
  then show f: "gs_job_state s = J_SUCCEEDED" "gs_current_attempt_id s = Some (rr_attempt_id r)"
    "gs_accepted_attempt_id s = Some (rr_attempt_id r)" "gs_accepted_fence s = Some (rr_fence r)"
    "gs_current_fence s = rr_fence r" "gs_accepted_digest s = Some (rr_digest r)"
    "get_prop (rr_projection r) ''canonical_host'' = JStr (gs_canonical_target s)"
    by (simp_all add: result_inv_def)
  from res obtain a where a: "sv_attempts ?v (rr_attempt_id r) = Some a" "at_fence a = rr_fence r"
    "at_finished_at a = Some (rr_completed_at r)" by (auto simp: result_inv_def)
  have inv: "attempt_inv sid s (rr_attempt_id r) a" by (rule d(3) [OF a(1)])
  then show "id_pattern (rr_attempt_id r)" "1 \<le> rr_fence r" "rr_fence r \<le> MAX_SAFE_INTEGER"
    using a(2) by (simp_all add: attempt_inv_def attempt_checks_def)
  have state: "at_state a = A_SUCCEEDED" using inv f(1,2) by (simp add: attempt_inv_def)
  then have "rr_completed_at r < at_hard_deadline a"
    using inv a(3) by (simp add: attempt_inv_def attempt_checks_def attempt_shape_def opt_all_def)
  then show "rr_completed_at r < gs_access_expires_at s" using inv by (simp add: attempt_inv_def)
  have "at_created_at a \<le> rr_completed_at r"
    using inv a(3) unfolding attempt_inv_def attempt_checks_def attempt_time_contract_def opt_all_def
    by (auto split: option.splits)
  then show "gs_created_at s \<le> rr_completed_at r" using inv by (simp add: attempt_inv_def)
  show "length (rr_digest r) = 32" using d(2) f(6) by (simp add: scan_checks_def scan_columns_def)
  have "completed_in_time ?v"
    using timed.always assms(1) unfolding guest_reachable_def by blast
  then show "rr_completed_at r \<le> gs_updated_at s" using v by (simp add: completed_in_time_def)
qed

lemma utf8_length_ge: "length s \<le> length (utf8 s)"
  by (induction s) (auto simp: utf8_def utf8_char_def)

lemma stored_metadata_valid:
  assumes "id_pattern sid" "scan_checks s" "0 \<le> gs_created_at s" "gs_deletion_deadline s \<le> UINT64_MAX"
  shows "valid_metadata (stored_metadata sid s) \<longleftrightarrow> gs_token_version s \<le> UINT64_MAX"
proof -
  have ascii: "length (utf8 sid) \<le> 512" "1 \<le> length (utf8 sid)"
    using id_pattern_length [OF assms(1)] length_utf8 [of sid] utf8_length_ge [of sid] by linarith+
  have time: "is_u64 (gs_access_expires_at s)" "opt_all is_u64 (gs_access_revoked_at s)"
    using assms(2-4)
    by (auto simp: scan_checks_def scan_time_contract_def is_u64_def opt_all_def SCAN_ACCESS_SECONDS_def
        SCAN_RETENTION_SECONDS_def split: option.splits)
  then show ?thesis
    using ascii assms(2)
    by (auto simp: valid_metadata_def stored_metadata_def scan_checks_def scan_columns_def is_u64_def fits_u32_def
        opt_all_def split: option.splits)
qed

lemma session_scope_pattern:
  "length d = 32 \<Longrightarrow> hex64_pattern ''GUEST_SESSION:sha256:'' (''GUEST_SESSION:'' @ sha256_text d)"
  using sha256_text_valid [of d] by (simp add: hex64_pattern_def starts_with_def sha256_text_def)

lemma stored_scan_valid:
  assumes "guest_reachable db" "map_of (db_scans db) sid = Some s" "map_of (db_results db) sid = Some r"
    and "0 \<le> gs_created_at s" "gs_deletion_deadline s \<le> UINT64_MAX" "gs_token_version s \<le> UINT64_MAX"
    and "canonicalize_hostname to_ascii (JStr (gs_canonical_target s)) = Inr (gs_canonical_target s)"
  shows "valid_scan_record to_ascii (stored_scan sid s r)"
proof -
  note f = stored_facts [OF assms(1-3)]
  have c: "length (gs_session_scope s) = 32" "idempotency_key_pattern (gs_idempotency_key s)"
    "length (gs_request_hash s) = 32"
    using f(16) by (simp_all add: scan_checks_def scan_columns_def)
  have t: "gs_created_at s \<le> gs_updated_at s" "gs_updated_at s \<le> gs_deletion_deadline s"
    "gs_access_expires_at s = gs_created_at s + 1800" "gs_deletion_deadline s = gs_created_at s + 86400"
    "opt_all (\<lambda>t. gs_created_at s \<le> t \<and> t \<le> gs_updated_at s) (gs_access_revoked_at s)"
    using f(16) by (simp_all add: scan_checks_def scan_time_contract_def SCAN_ACCESS_SECONDS_def
        SCAN_RETENTION_SECONDS_def opt_all_def)
  have m: "valid_metadata (stored_metadata sid s)"
    using stored_metadata_valid [OF f(1,16) assms(4,5)] assms(6) by blast
  have consistent: "scan_record_consistent (stored_scan sid s r)"
    using t f(10) assms(5)
    by (auto simp: scan_record_consistent_def stored_scan_def stored_metadata_def GUEST_RESULT_ACCESS_SECONDS_def
        GUEST_RETENTION_SECONDS_def Let_def opt_all_def split: option.splits)
  have identity: "has_valid_identity \<lparr>ri_attempt_id = rr_attempt_id r, ri_fence = rr_fence r,
      ri_payload_digest = sha256_text (rr_digest r)\<rparr>"
    using f(9-12) sha256_text_valid [of "rr_digest r"] by (simp add: has_valid_identity_def positive_safe_def safe_int_def)
  show ?thesis
    using f(1,9-12) c t assms(4,5,7) m consistent identity session_scope_pattern [OF c(1)]
    by (simp add: valid_scan_record_def stored_scan_def sha256_text_valid is_u64_def opt_all_def)
qed

lemma snapshot_projection_host:
  "snapshot_sanitized_guest_projection to_ascii v = Some p \<Longrightarrow>
   get_prop v ''canonical_host'' = JStr (sp_canonical_host p)"
  by (auto simp: snapshot_sanitized_guest_projection_def as_str_Some Let_def Option.bind_eq_Some_conv)

lemma load_stored:
  assumes "guest_reachable db" "map_of (db_scans db) sid = Some s" "map_of (db_results db) sid = Some r"
    and "0 \<le> gs_created_at s" "gs_deletion_deadline s \<le> UINT64_MAX" "gs_token_version s \<le> UINT64_MAX"
    and "snapshot_sanitized_guest_projection to_ascii (rr_projection r) = Some p"
  shows "load_by_guest_scan_id to_ascii db sid = Some (stored_scan sid s r, stored_result sid r p)"
proof -
  note f = stored_facts [OF assms(1-3)]
  have c: "length (gs_session_scope s) = 32" "length (gs_request_hash s) = 32" "length (gs_token_nonce s) = 32"
    "0 \<le> gs_token_version s" "0 \<le> gs_token_key_version s" "gs_token_key_version s \<le> UINT32_MAX"
    using f(16) by (simp_all add: scan_checks_def scan_columns_def)
  have t: "gs_created_at s \<le> gs_updated_at s" "gs_access_expires_at s = gs_created_at s + 1800"
    "gs_idempotency_expires_at s = gs_access_expires_at s" "gs_deletion_deadline s = gs_created_at s + 86400"
    "opt_all (\<lambda>t. gs_created_at s \<le> t \<and> t \<le> gs_updated_at s) (gs_access_revoked_at s)"
    using f(16) by (simp_all add: scan_checks_def scan_time_contract_def SCAN_ACCESS_SECONDS_def
        SCAN_RETENTION_SECONDS_def opt_all_def)
  have revoked: "opt_all (\<lambda>t. row_integer t \<noteq> None) (gs_access_revoked_at s)"
    using t(5) assms(4) by (auto simp: opt_all_def row_integer_def split: option.splits)
  have host: "sp_canonical_host p = gs_canonical_target s"
    "canonicalize_hostname to_ascii (JStr (gs_canonical_target s)) = Inr (gs_canonical_target s)"
    using snapshot_projection_host [OF assms(7)] snapshot_projection_valid [OF assms(7)] f(8)
    by (simp_all add: valid_projection_def)
  note scan = snapshot_scan_object [OF stored_scan_valid [OF assms(1-6) host(2)]]
  have result: "snapshot_result to_ascii (result_object sid (rr_attempt_id r) (rr_fence r)
      (sha256_text (rr_digest r)) (rr_completed_at r) (rr_projection r)) = Some (stored_result sid r p)"
    using f(1,9-14) t assms(4,5,7)
    by (subst snapshot_result_object)
      (simp_all add: stored_result_def positive_safe_def safe_int_def is_u64_def sha256_text_valid)
  have numbers: "row_integer (gs_created_at s) = Some (gs_created_at s)"
    "row_integer (gs_updated_at s) = Some (gs_updated_at s)"
    "row_integer (gs_idempotency_expires_at s) = Some (gs_access_expires_at s)"
    "row_integer (gs_deletion_deadline s) = Some (gs_deletion_deadline s)"
    "row_integer (gs_token_version s) = Some (gs_token_version s)"
    "row_safe_number (gs_token_key_version s) = Some (gs_token_key_version s)"
    "row_safe_number (rr_fence r) = Some (rr_fence r)"
    "row_integer (rr_completed_at r) = Some (rr_completed_at r)"
    using assms(4) t c f(10,11,13)
    by (simp_all add: row_integer_def row_safe_number_def UINT32_MAX_def MAX_SAFE_INTEGER_def)
  have match: "records_match (stored_scan sid s r) (stored_result sid r p)"
    using f(13,14,15) t by (simp add: records_match_def stored_scan_def stored_result_def)
  have whole: "snapshot_guest_result_read_record to_ascii
      (JObj [(''scan'', scan_object (stored_scan sid s r)),
        (''result'', result_object sid (rr_attempt_id r) (rr_fence r) (sha256_text (rr_digest r))
           (rr_completed_at r) (rr_projection r))]) = Some (stored_scan sid s r, stored_result sid r p)"
    using scan result match by (simp add: read_record_Some exact_object_def)
  show ?thesis
    using f(1) whole revoked
    by (simp add: load_by_guest_scan_id_def assms(2,3) map_guest_result_read_row_def row_digest_def c numbers
        f(2-7,9) stored_scan_def stored_metadata_def)
qed

lemma load_needs:
  assumes "load_by_guest_scan_id to_ascii db sid = Some (scan, r')" "map_of (db_scans db) sid = Some s"
  obtains r p where "map_of (db_results db) sid = Some r"
    "snapshot_sanitized_guest_projection to_ascii (rr_projection r) = Some p" "gs_token_version s \<le> UINT64_MAX"
proof -
  obtain r where r: "map_of (db_results db) sid = Some r" "map_guest_result_read_row to_ascii sid s r = Some (scan, r')"
    using assms by (auto simp: load_by_guest_scan_id_def Option.bind_eq_Some_conv)
  obtain sr sid' aid fence digest completed where v: "snapshot_guest_scan to_ascii (scan_object sr) = Some scan"
    "tm_token_version (gr_token_metadata sr) = gs_token_version s"
    "snapshot_result to_ascii (result_object sid' aid fence digest completed (rr_projection r)) = Some r'"
    using r(2)
    by (auto simp: map_guest_result_read_row_def Option.bind_eq_Some_conv read_record_Some row_integer_def
        split: if_splits)
  have "valid_metadata (gr_token_metadata sr)"
    using v(1) by (auto simp: snapshot_guest_scan_def read_guest_scan_def scan_object_def Option.bind_eq_Some_conv
        snapshot_metadata_object split: option.splits if_splits)
  then have "gs_token_version s \<le> UINT64_MAX" by (simp add: valid_metadata_def is_u64_def v(2) [symmetric])
  moreover obtain p where "snapshot_sanitized_guest_projection to_ascii (rr_projection r) = Some p"
    using v(3) by (auto simp: snapshot_result_def result_object_def Option.bind_eq_Some_conv)
  ultimately show ?thesis using r(1) that by blast
qed

subsection \<open>The read\<close>

definition request_of :: "string \<Rightarrow> string \<Rightarrow> int \<Rightarrow> access_request" where
  "request_of header sid now =
     \<lparr>aq_authorization_header = JStr header, aq_route_guest_scan_id = sid, aq_now = now\<rparr>"

definition stored_access :: "string \<Rightarrow> scan_row \<Rightarrow> int \<Rightarrow> result_access" where
  "stored_access sid s now =
     \<lparr>ra_guest_scan_id = sid, ra_access_expires_at = gs_access_expires_at s,
      ra_token_expires_in = gs_access_expires_at s - now\<rparr>"

lemma request_parses:
  assumes "id_pattern sid" "is_u64 now"
  shows "request_snapshot (access_request_object (request_of header sid now)) = Some (request_of header sid now)"
    "parse_access_request (access_request_object (request_of header sid now)) = Some (request_of header sid now)"
proof -
  have "1 \<le> length (utf8 sid) \<and> length (utf8 sid) \<le> 512"
    using id_pattern_length [OF assms(1)] length_utf8 [of sid] utf8_length_ge [of sid] by linarith
  then show "request_snapshot (access_request_object (request_of header sid now)) = Some (request_of header sid now)"
    "parse_access_request (access_request_object (request_of header sid now)) = Some (request_of header sid now)"
    using assms(2)
    by (auto simp: request_snapshot_def parse_access_request_def access_request_object_def request_of_def
        exact_object_def ACCESS_REQUEST_KEYS_def as_str_matching_def empty_query_def is_u64_def)
qed

lemma bearer_token_length: "bearer_token header = Some token \<Longrightarrow> length header = 50"
  by (auto simp: bearer_token_def split: if_splits)

lemma access_iff:
  assumes "id_pattern sid" "is_u64 now" "valid_metadata (stored_metadata sid s)"
  shows "authorize_guest_result_access (access_request_object (request_of header sid now))
      (metadata_object (stored_metadata sid s)) keyring = Inr a \<longleftrightarrow>
    a = stored_access sid s now \<and> now < gs_access_expires_at s \<and> gs_access_revoked_at s = None \<and>
    gs_access_expires_at s - now \<le> MAX_RESULT_WINDOW_SECONDS \<and>
    (\<exists>key token. keyring (gs_token_key_version s) = Some key \<and> bearer_token header = Some token \<and>
       derive_guest_result_token (stored_metadata sid s) key = Some token)"
proof -
  have m: "snapshot_guest_result_token_metadata (metadata_object (stored_metadata sid s)) = Some (stored_metadata sid s)"
    using assms(3) by (simp add: snapshot_metadata_object)
  have fields: "tm_guest_scan_id (stored_metadata sid s) = sid"
    "tm_access_expires_at (stored_metadata sid s) = gs_access_expires_at s"
    "tm_access_revoked_at (stored_metadata sid s) = gs_access_revoked_at s"
    "tm_key_version (stored_metadata sid s) = gs_token_key_version s"
    by (simp_all add: stored_metadata_def)
  have header: "Option.bind (as_str_matching (\<lambda>h. length h \<le> 128) (aq_authorization_header (request_of header sid now)))
      bearer_token = bearer_token header"
    using bearer_token_length [of header]
    by (cases "bearer_token header") (auto simp: request_of_def as_str_matching_def)
  have parts: "aq_route_guest_scan_id (request_of header sid now) = sid"
    "access_request.aq_now (request_of header sid now) = now"
    by (simp_all add: request_of_def)
  show ?thesis
    unfolding authorize_guest_result_access_def request_parses(2) [OF assms(1,2)] option.case header m parts fields
    by (cases "bearer_token header")
      (auto simp: verify_token_iff m fields assms(2) stored_access_def)
qed

lemma view_of_stored:
  assumes "id_pattern sid" "valid_projection to_ascii p" "0 \<le> completed" "now < gs_access_expires_at s"
    and "gs_access_expires_at s - now \<le> MAX_RESULT_WINDOW_SECONDS" "0 \<le> now"
    and "gs_access_expires_at s \<le> MAX_UNIX_SECONDS_FOR_ISO"
  shows "create_guest_result_view to_ascii (view_input (stored_access sid s now) completed (projection_value p)) =
    (if completed \<le> now then Some (build_view (stored_access sid s now) completed p) else None)"
proof -
  have a: "valid_access (stored_access sid s now)"
    using assms(1,4-7) by (simp add: valid_access_def stored_access_def)
  have now: "ra_access_expires_at (stored_access sid s now) - ra_token_expires_in (stored_access sid s now) = now"
    by (simp add: stored_access_def)
  show ?thesis
  proof (cases "completed \<le> now")
    case True
    then show ?thesis
      using create_view [OF a assms(3) _ snapshot_projection_value [OF assms(2)]] by (simp add: now)
  next
    case False
    have "create_guest_result_view to_ascii (view_input (stored_access sid s now) completed (projection_value p)) \<noteq> Some w"
      for w
    proof
      assume "create_guest_result_view to_ascii (view_input (stored_access sid s now) completed (projection_value p)) = Some w"
      then obtain b completed' where "snapshot_access (access_object (stored_access sid s now)) = Some b"
        "completed' = completed" "completed' \<le> ra_access_expires_at b - ra_token_expires_in b"
        by (rule created_from) (simp add: view_input_def)
      then show False using False snapshot_access_object [OF a] now by simp
    qed
    with False show ?thesis by auto
  qed
qed

lemma read_stored:
  assumes "guest_reachable db" "map_of (db_scans db) sid = Some s" "map_of (db_results db) sid = Some r"
    and "is_u64 now" "0 \<le> gs_created_at s" "gs_deletion_deadline s \<le> MAX_UNIX_SECONDS_FOR_ISO"
    and "gs_token_version s \<le> UINT64_MAX"
    and "snapshot_sanitized_guest_projection to_ascii (rr_projection r) = Some p"
  shows "read_authorized_guest_result to_ascii (access_request_object (request_of header sid now))
      (postgres_result_store to_ascii True db) keyring = READ_OK w \<longleftrightarrow>
    (\<exists>key token. keyring (gs_token_key_version s) = Some key \<and> bearer_token header = Some token \<and>
       derive_guest_result_token (stored_metadata sid s) key = Some token) \<and>
    gs_access_revoked_at s = None \<and> rr_completed_at r \<le> now \<and> now < gs_access_expires_at s \<and>
    w = build_view (stored_access sid s now) (rr_completed_at r) p"
proof -
  note f = stored_facts [OF assms(1-3)]
  have t: "gs_access_expires_at s = gs_created_at s + 1800" "gs_deletion_deadline s = gs_created_at s + 86400"
    using f(16) by (simp_all add: scan_checks_def scan_time_contract_def SCAN_ACCESS_SECONDS_def
        SCAN_RETENTION_SECONDS_def)
  have iso: "MAX_UNIX_SECONDS_FOR_ISO \<le> UINT64_MAX"
    by (simp add: MAX_UNIX_SECONDS_FOR_ISO_def UINT64_MAX_def)
  note deadline = order_trans [OF assms(6) iso]
  note load = load_stored [OF assms(1-3,5) deadline assms(7,8)]
  have p: "valid_projection to_ascii p" by (rule snapshot_projection_valid [OF assms(8)])
  have host: "sp_canonical_host p = gs_canonical_target s"
    using snapshot_projection_host [OF assms(8)] f(8) by simp
  have m: "valid_metadata (stored_metadata sid s)"
    using stored_metadata_valid [OF f(1,16) assms(5) deadline] assms(7) by blast
  note access = access_iff [OF f(1) assms(4) m, of header keyring]
  have header: "Option.bind (as_str_matching (\<lambda>h. length h \<le> 128) (aq_authorization_header (request_of header sid now)))
      bearer_token = bearer_token header"
    using bearer_token_length [of header]
    by (cases "bearer_token header") (auto simp: request_of_def as_str_matching_def)
  have parts: "aq_route_guest_scan_id (request_of header sid now) = sid"
    "access_request.aq_now (request_of header sid now) = now"
    by (simp_all add: request_of_def)
  have fields: "gr_deletion_deadline (stored_scan sid s r) = gs_deletion_deadline s"
    "gr_token_metadata (stored_scan sid s r) = stored_metadata sid s"
    "gr_canonical_target (stored_scan sid s r) = gs_canonical_target s"
    "gt_completed_at (stored_result sid r p) = rr_completed_at r" "gt_projection (stored_result sid r p) = p"
    by (simp_all add: stored_scan_def stored_result_def)
  have view: "create_guest_result_view to_ascii (JObj [(''access'', access_object (stored_access sid s now)),
        (''completed_at_unix_seconds'', JBig (rr_completed_at r)), (''projection'', projection_value p)]) =
      (if rr_completed_at r \<le> now then Some (build_view (stored_access sid s now) (rr_completed_at r) p) else None)"
    if "now < gs_access_expires_at s" "gs_access_expires_at s - now \<le> MAX_RESULT_WINDOW_SECONDS"
    using view_of_stored [OF f(1) p _ that] f(13) assms(4-6) t by (simp add: view_input_def is_u64_def)
  have canonical: "gv_canonical_host (build_view (stored_access sid s now) (rr_completed_at r) p) = gs_canonical_target s"
    by (simp add: build_view_def host Let_def)
  have window: "gs_access_expires_at s - now \<le> MAX_RESULT_WINDOW_SECONDS" if "rr_completed_at r \<le> now"
    using that f(13) t by (simp add: MAX_RESULT_WINDOW_SECONDS_def)
  have open_now: "\<not> gs_deletion_deadline s \<le> now" if "now < gs_access_expires_at s" using that t by linarith
  show ?thesis
  proof (cases "authorize_guest_result_access (access_request_object (request_of header sid now))
      (metadata_object (stored_metadata sid s)) keyring")
    case (Inl e)
    then show ?thesis
      using access window
      by (auto simp: read_authorized_guest_result_def request_parses(1) [OF f(1) assms(4)] parts store_read load fields
          split: option.splits)
  next
    case (Inr a)
    note a = access [of a, THEN iffD1, OF Inr]
    then show ?thesis
      using Inr view open_now canonical
      unfolding read_authorized_guest_result_def request_parses(1) [OF f(1) assms(4)] option.case header
      by (auto simp: parts store_read load fields split: if_splits)
  qed
qed

lemma read_needs:
  assumes "id_pattern sid" "is_u64 now" "map_of (db_scans db) sid = Some s"
    and "read_authorized_guest_result to_ascii (access_request_object (request_of header sid now))
      (postgres_result_store to_ascii True db) keyring = READ_OK w"
  obtains r p where "map_of (db_results db) sid = Some r"
    "snapshot_sanitized_guest_projection to_ascii (rr_projection r) = Some p" "gs_token_version s \<le> UINT64_MAX"
proof -
  have "aq_route_guest_scan_id (request_of header sid now) = sid" by (simp add: request_of_def)
  then obtain scan r' where "load_by_guest_scan_id to_ascii db sid = Some (scan, r')"
    using assms(4)
    by (auto simp: read_authorized_guest_result_def request_parses(1) [OF assms(1,2)] store_read
        split: option.splits)
  from load_needs [OF this assms(3)] that show ?thesis by blast
qed

lemma derived_version: "derive_guest_result_token (stored_metadata sid s) key = Some token \<Longrightarrow>
    gs_token_version s \<le> UINT64_MAX"
  by (auto simp: derive_token_eq valid_metadata_def stored_metadata_def is_u64_def split: if_splits)

lemma derived_bearer:
  assumes "derive_guest_result_token m key = Some token"
  shows "bearer_token (''Bearer '' @ token) = Some token"
proof -
  obtain bs where token: "token = encode_base64url bs" "length bs = 32"
    using assms by (auto simp: derive_token_eq split: if_splits)
  have "js_lower ''Bearer '' = ''bearer ''" by code_simp
  then show ?thesis
    using encode_base64url_alphabet(1) [of bs] token
    by (simp add: bearer_token_def length_encode_base64url)
qed

subsection \<open>A stored result for the witness\<close>

definition read_scan :: scan_row where
  "read_scan = succeeded_scan running_scan ''attempt-1'' 1 (replicate 32 221) 1012"

definition read_result :: result_row where
  "read_result =
     \<lparr>rr_attempt_id = ''attempt-1'', rr_fence = 1, rr_digest = replicate 32 221, rr_completed_at = 1012,
      rr_projection = projection_value sample_sanitized\<rparr>"

lemma read_run:
  obtains db' where "guest_reachable db'" "map_of (db_scans db') ''scan-1'' = Some read_scan"
    "map_of (db_results db') ''scan-1'' = Some read_result"
proof -
  have ids: "ri_attempt_id run_submission = ''attempt-1''" "ri_fence run_submission = 1"
    "digest_bytes ''sha256:'' (ri_payload_digest run_submission) = replicate 32 221"
    by (simp_all add: run_submission_def) code_simp
  have scan: "map_of (db_scans running_db) ''scan-1'' = Some running_scan" by (rule run_may_commit(2))
  have attempt: "map_of (db_attempts running_db) (ri_attempt_id run_submission) = Some running_attempt"
    using run_may_commit(3) by (simp add: ids submitted_identity_def run_verified_def)
  have may: "may_commit ''scan-1'' run_submission 1012 running_scan running_attempt"
    using run_may_commit(1) by (simp add: ids may_commit_def submitted_identity_def run_verified_def)
  have valid: "has_valid_identity run_submission" by code_simp
  have host: "get_prop (projection_value sample_sanitized) ''canonical_host'' = JStr (gs_canonical_target running_scan)"
    by (simp add: projection_value_props(1) sample_sanitized_def running_scan_def new_scan_row_def run_request_def)
  obtain db' where c: "Guest_Commit.persist_result [RUNS] ''scan-1'' run_submission (projection_value sample_sanitized)
      1012 running_db = (RESULT_COMMITTED True, db')"
    using live_persist_commits [OF reachable_inv [OF run_reachable(2)] scan attempt may valid host
        projection_value_props(2)] by blast
  have "guest_reachable db'"
    using run_reachable(2) guest_step.committing [OF c] unfolding guest_reachable_def by (rule reachable.more)
  moreover have "store_result ''scan-1'' run_submission (projection_value sample_sanitized) 1012 running_db = Some db'"
    by (rule persist_commits [OF c])
  note rows = store_result_rows [OF this]
  ultimately show ?thesis
    using that rows scan by (simp add: ids read_scan_def read_result_def)
qed

lemma read_scan_metadata: "valid_metadata (stored_metadata ''scan-1'' read_scan)"
  by code_simp

subsection \<open>Properties\<close>

text \<open>C9: who can read a result: in every reachable database, a request for a scan
  is answered with a result exactly when a result of the scan is committed and its stored projection is
  well formed, the header bears the token that the server derives from the metadata of the scan
  row under the key it names, access is not revoked, and the time lies between the completion of
  the scan and the end of its access window; and what is answered is the view
  of that projection for that access.  (The times of the row are those of the
  years 1970 to 9999.)\<close>

theorem result_readable_iff:
  assumes "guest_reachable db" "map_of (db_scans db) sid = Some s" "is_u64 now"
    and "0 \<le> gs_created_at s" "gs_deletion_deadline s \<le> MAX_UNIX_SECONDS_FOR_ISO"
  shows "read_authorized_guest_result to_ascii (access_request_object (request_of header sid now))
      (postgres_result_store to_ascii True db) keyring = READ_OK w \<longleftrightarrow>
    (\<exists>r p key token. map_of (db_results db) sid = Some r \<and>
       snapshot_sanitized_guest_projection to_ascii (rr_projection r) = Some p \<and>
       keyring (gs_token_key_version s) = Some key \<and> bearer_token header = Some token \<and>
       derive_guest_result_token (stored_metadata sid s) key = Some token \<and>
       gs_access_revoked_at s = None \<and> rr_completed_at r \<le> now \<and> now < gs_access_expires_at s \<and>
       w = build_view (stored_access sid s now) (rr_completed_at r) p)"
    (is "?l \<longleftrightarrow> ?r")
proof
  have sid: "id_pattern sid" using view_invD(1) [OF reachable_view [OF assms(1)]] assms(2) by (simp add: view_scan)
  assume ?l
  then obtain r p where rp: "map_of (db_results db) sid = Some r"
    "snapshot_sanitized_guest_projection to_ascii (rr_projection r) = Some p" "gs_token_version s \<le> UINT64_MAX"
    by (rule read_needs [OF sid assms(3,2)])
  from read_stored [OF assms(1,2) rp(1) assms(3-5) rp(3,2), THEN iffD1, OF \<open>?l\<close>] rp(1,2)
  show ?r by blast
next
  assume ?r
  then obtain r p key token where r: "map_of (db_results db) sid = Some r"
    "snapshot_sanitized_guest_projection to_ascii (rr_projection r) = Some p"
    "keyring (gs_token_key_version s) = Some key" "bearer_token header = Some token"
    "derive_guest_result_token (stored_metadata sid s) key = Some token"
    "gs_access_revoked_at s = None" "rr_completed_at r \<le> now" "now < gs_access_expires_at s"
    "w = build_view (stored_access sid s now) (rr_completed_at r) p" by blast
  with read_stored [OF assms(1,2) r(1) assms(3-5) derived_version [OF r(5)] r(2), THEN iffD2]
  show ?l by blast
qed

theorem result_readable_iff_witness:
  "\<exists>db token (w :: result_view). map_of (db_results db) ''scan-1'' \<noteq> None \<and>
     read_authorized_guest_result (\<lambda>s. s) (access_request_object (request_of (''Bearer '' @ token) ''scan-1'' 1020))
       (postgres_result_store (\<lambda>s. s) True db) (\<lambda>v. Some (replicate 32 1)) = READ_OK w"
proof -
  obtain db' where reach: "guest_reachable db'"
    and rows: "map_of (db_scans db') ''scan-1'' = Some read_scan"
    "map_of (db_results db') ''scan-1'' = Some read_result"
    by (rule read_run)
  have p: "snapshot_sanitized_guest_projection (\<lambda>s. s) (rr_projection read_result) = Some sample_sanitized"
    using snapshot_projection_value [OF snapshot_projection_valid [OF sample_snapshot]]
    by (simp add: read_result_def)
  obtain token where token: "derive_guest_result_token (stored_metadata ''scan-1'' read_scan) (replicate 32 1) = Some token"
    using read_scan_metadata by (simp add: derive_token_eq is_valid_key_def)
  note bearer = derived_bearer [OF token]
  have times: "gs_created_at read_scan = 1000" "gs_access_expires_at read_scan = 2800"
    "gs_deletion_deadline read_scan = 87400" "gs_access_revoked_at read_scan = None"
    "rr_completed_at read_result = 1012"
    by (simp_all add: read_scan_def read_result_def succeeded_scan_def running_scan_def new_scan_row_def
        run_request_def SCAN_ACCESS_SECONDS_def SCAN_RETENTION_SECONDS_def)
  let ?w = "build_view (stored_access ''scan-1'' read_scan 1020) 1012 sample_sanitized"
  have "is_u64 1020" by (simp add: is_u64_def UINT64_MAX_def)
  from result_readable_iff [where to_ascii = "\<lambda>s. s" and header = "''Bearer '' @ token" and
      keyring = "\<lambda>v. Some (replicate 32 1)" and w = ?w, OF reach rows(1) this, THEN iffD2]
  have "read_authorized_guest_result (\<lambda>s. s) (access_request_object (request_of (''Bearer '' @ token) ''scan-1'' 1020))
      (postgres_result_store (\<lambda>s. s) True db') (\<lambda>v. Some (replicate 32 1)) = READ_OK ?w"
    using rows(2) p token bearer times by (simp add: MAX_UNIX_SECONDS_FOR_ISO_def)
  with rows(2) show ?thesis by blast
qed

end
