(* ===== verification/Guest_Session.thy ===== *)
theory Guest_Session
  imports Guest_Token Decimal
begin

section \<open>Guest sessions\<close>

text \<open>
  Models \<^verbatim>\<open>apps/api/src/guest-crypto/guest-session.ts\<close>, the signed cookie of an anonymous
  session, and \<^verbatim>\<open>guest-session-http.ts\<close>, which finds it in a \<^verbatim>\<open>Cookie\<close> header and writes the
  \<^verbatim>\<open>Set-Cookie\<close> header.  The random session identifier is an argument.  \<open>None\<close> is a thrown
  \<^verbatim>\<open>RangeError\<close>.
\<close>

subsection \<open>The cookie\<close>

definition COOKIE_DOMAIN :: bytes where
  "COOKIE_DOMAIN = ascii_bytes ''OUTSCAN:GUEST_SESSION_COOKIE:v1'' @ [0]"

definition SCOPE_DOMAIN :: bytes where
  "SCOPE_DOMAIN = ascii_bytes ''OUTSCAN:GUEST_SESSION_SCOPE:v1'' @ [0]"

record session_principal =
  gp_key_version :: int
  gp_session_id :: bytes
  gp_session_scope :: string

definition encode_guest_session_message :: "int \<Rightarrow> bytes \<Rightarrow> bytes option" where
  "encode_guest_session_message key_version session_id =
     (if length session_id \<noteq> 32 then None
      else map_option (\<lambda>v. COOKIE_DOMAIN @ v @ session_id) (u32be key_version))"

definition derive_guest_session_scope :: "bytes \<Rightarrow> string option" where
  "derive_guest_session_scope session_id =
     (if length session_id \<noteq> 32 then None
      else Some (sha256_text (sha256 (SCOPE_DOMAIN @ session_id))))"

definition create_guest_session_cookie :: "int \<Rightarrow> bytes \<Rightarrow> bytes \<Rightarrow> string option" where
  "create_guest_session_cookie key_version key session_id =
     (if \<not> is_valid_key key then None
      else map_option (\<lambda>message. join_with ''.''
             [''v1'', to_digits 10 key_version, encode_base64url session_id,
              encode_base64url (hmac_sha256 key message)])
           (encode_guest_session_message key_version session_id))"

text \<open>\<^verbatim>\<open>/^(0|[1-9][0-9]*)$/u\<close>\<close>

definition decimal_pattern :: "string \<Rightarrow> bool" where
  "decimal_pattern s \<longleftrightarrow> s \<noteq> [] \<and> list_all is_digit s \<and> (s = ''0'' \<or> hd s \<noteq> CHR ''0'')"

definition verify_guest_session_cookie :: "string \<Rightarrow> (int \<Rightarrow> bytes option) \<Rightarrow> session_principal option" where
  "verify_guest_session_cookie cookie keyring =
     (if length cookie > 256 then None
      else case split_on (CHR ''.'') cookie of
             [version, key_version_text, id_text, mac_text] \<Rightarrow>
               if version \<noteq> ''v1'' \<or> \<not> decimal_pattern key_version_text then None
               else (let key_version = digits_value 10 key_version_text
                     in if key_version > UINT32_MAX then None
                        else case (decode_canonical_base64url id_text,
                                decode_canonical_base64url mac_text, keyring key_version) of
                               (Some session_id, Some supplied, Some key) \<Rightarrow>
                                 if length session_id \<noteq> 32 \<or> length supplied \<noteq> 32 \<or> \<not> is_valid_key key
                                 then None
                                 else do {
                                   message \<leftarrow> encode_guest_session_message key_version session_id;
                                   require (supplied = hmac_sha256 key message);
                                   scope \<leftarrow> derive_guest_session_scope session_id;
                                   Some \<lparr>gp_key_version = key_version, gp_session_id = session_id,
                                     gp_session_scope = scope\<rparr>
                                 }
                             | _ \<Rightarrow> None)
           | _ \<Rightarrow> None)"

subsection \<open>The headers\<close>

definition GUEST_SESSION_COOKIE_NAME :: string where
  "GUEST_SESSION_COOKIE_NAME = ''__Host-outscan_guest_session''"

definition GUEST_SESSION_SET_COOKIE_ATTRIBUTES :: "string list" where
  "GUEST_SESSION_SET_COOKIE_ATTRIBUTES =
     [''Max-Age=86400'', ''Path=/'', ''Secure'', ''HttpOnly'', ''SameSite=Lax'']"

definition MAX_COOKIE_HEADER_BYTES :: nat where "MAX_COOKIE_HEADER_BYTES = 8192"
definition MAX_COOKIE_PAIRS :: nat where "MAX_COOKIE_PAIRS = 64"

definition cookie_name :: "string \<Rightarrow> bool" where
  "cookie_name s \<longleftrightarrow> s \<noteq> [] \<and> list_all (\<lambda>c. is_alnum c \<or>
     code_of c \<in> {33, 35, 36, 37, 38, 39, 42, 43, 45, 46, 94, 95, 96, 124, 126}) s"

definition cookie_value :: "string \<Rightarrow> bool" where
  "cookie_value s \<longleftrightarrow> list_all (\<lambda>c. code_of c = 33 \<or> (35 \<le> code_of c \<and> code_of c \<le> 43) \<or>
     (45 \<le> code_of c \<and> code_of c \<le> 58) \<or> (60 \<le> code_of c \<and> code_of c \<le> 91) \<or>
     (93 \<le> code_of c \<and> code_of c \<le> 126)) s"

definition breaks_header :: "string \<Rightarrow> bool" where
  "breaks_header s \<longleftrightarrow> list_ex (\<lambda>c. code_of c \<in> {0, 10, 13}) s"

definition is_blank :: "char \<Rightarrow> bool" where
  "is_blank c \<longleftrightarrow> code_of c = 9 \<or> code_of c = 32"

definition trim_blanks :: "string \<Rightarrow> string" where
  "trim_blanks s = rev (dropWhile is_blank (rev (dropWhile is_blank s)))"

datatype parsed_cookie =
    COOKIE_FOUND string
  | COOKIE_MISSING
  | COOKIE_INVALID
  | COOKIE_AMBIGUOUS

fun scan_cookie_pairs :: "string list \<Rightarrow> string option \<Rightarrow> parsed_cookie" where
  "scan_cookie_pairs [] found =
     (case found of None \<Rightarrow> COOKIE_MISSING | Some v \<Rightarrow> COOKIE_FOUND v)"
| "scan_cookie_pairs (raw # rest) found =
     (let pair = trim_blanks raw;
          name = takeWhile (\<lambda>c. c \<noteq> CHR ''='') pair
      in if CHR ''='' \<notin> set pair \<or> name = [] then COOKIE_INVALID
         else let v = drop (Suc (length name)) pair
              in if \<not> cookie_name name \<or> \<not> cookie_value v then COOKIE_INVALID
                 else if name \<noteq> GUEST_SESSION_COOKIE_NAME then scan_cookie_pairs rest found
                 else if found \<noteq> None then COOKIE_AMBIGUOUS
                 else scan_cookie_pairs rest (Some v))"

definition parse_guest_cookie :: "jsval \<Rightarrow> parsed_cookie" where
  "parse_guest_cookie header =
     (if header = JUndef then COOKIE_MISSING
      else case as_str header of
             None \<Rightarrow> COOKIE_INVALID
           | Some h \<Rightarrow>
               if length h = 0 \<or> length (utf8 h) > MAX_COOKIE_HEADER_BYTES \<or> breaks_header h
               then COOKIE_INVALID
               else let pairs = split_on (CHR '';'') h
                    in if length pairs > MAX_COOKIE_PAIRS then COOKIE_INVALID
                       else scan_cookie_pairs pairs None)"

definition issue_guest_session_cookie_header :: "int \<Rightarrow> bytes \<Rightarrow> bytes \<Rightarrow> string option" where
  "issue_guest_session_cookie_header key_version key session_id =
     map_option (\<lambda>cookie. join_with ''; ''
         ((GUEST_SESSION_COOKIE_NAME @ ''='' @ cookie) # GUEST_SESSION_SET_COOKIE_ATTRIBUTES))
       (create_guest_session_cookie key_version key session_id)"

text \<open>\<^verbatim>\<open>value.split("; ")\<close>\<close>

fun split_on_blank :: "string \<Rightarrow> string list" where
  "split_on_blank [] = [[]]"
| "split_on_blank [c] = [[c]]"
| "split_on_blank (c # d # s) =
     (if c = CHR '';'' \<and> d = CHR '' '' then [] # split_on_blank s
      else (case split_on_blank (d # s) of [] \<Rightarrow> [[c]] | p # ps \<Rightarrow> (c # p) # ps))"

definition token_text :: "string \<Rightarrow> bool" where
  "token_text s \<longleftrightarrow> length s = 43 \<and> list_all is_base64url s"

definition is_guest_session_set_cookie_header :: "jsval \<Rightarrow> bool" where
  "is_guest_session_set_cookie_header v =
     (case as_str v of
        None \<Rightarrow> False
      | Some s \<Rightarrow>
          \<not> breaks_header s \<and>
          (case split_on_blank s of
             [] \<Rightarrow> False
           | pair # attributes \<Rightarrow>
               attributes = GUEST_SESSION_SET_COOKIE_ATTRIBUTES \<and>
               starts_with (GUEST_SESSION_COOKIE_NAME @ ''='') pair \<and>
               (case split_on (CHR ''.'') (drop (length GUEST_SESSION_COOKIE_NAME + 1) pair) of
                  [version, key_version_text, id_text, mac_text] \<Rightarrow>
                    version = ''v1'' \<and>
                    decimal_pattern key_version_text \<and> length key_version_text \<le> 10 \<and>
                    token_text id_text \<and> token_text mac_text \<and>
                    digits_value 10 key_version_text \<le> UINT32_MAX \<and>
                    (case (decode_canonical_base64url id_text, decode_canonical_base64url mac_text) of
                       (Some session_id, Some mac) \<Rightarrow> length session_id = 32 \<and> length mac = 32
                     | _ \<Rightarrow> False)
                | _ \<Rightarrow> False)))"

datatype session_fail =
    MISSING_GUEST_SESSION
  | INVALID_COOKIE_HEADER
  | AMBIGUOUS_GUEST_SESSION
  | INVALID_GUEST_SESSION
  | REVOKED_GUEST_SESSION

text \<open>The revocation check answers, or throws (\<open>None\<close>).\<close>

definition authenticate_guest_session_cookie_header ::
  "jsval \<Rightarrow> (int \<Rightarrow> bytes option) \<Rightarrow> (string \<Rightarrow> bool option) \<Rightarrow> session_fail + int \<times> string" where
  "authenticate_guest_session_cookie_header header keyring is_revoked =
     (case parse_guest_cookie header of
        COOKIE_MISSING \<Rightarrow> Inl MISSING_GUEST_SESSION
      | COOKIE_INVALID \<Rightarrow> Inl INVALID_COOKIE_HEADER
      | COOKIE_AMBIGUOUS \<Rightarrow> Inl AMBIGUOUS_GUEST_SESSION
      | COOKIE_FOUND cookie \<Rightarrow>
          (case verify_guest_session_cookie cookie keyring of
             None \<Rightarrow> Inl INVALID_GUEST_SESSION
           | Some p \<Rightarrow>
               (case is_revoked (gp_session_scope p) of
                  None \<Rightarrow> Inl INVALID_GUEST_SESSION
                | Some True \<Rightarrow> Inl REVOKED_GUEST_SESSION
                | Some False \<Rightarrow> Inr (gp_key_version p, gp_session_scope p))))"

subsection \<open>Cookies and their texts\<close>

lemma canonical_decimal:
  assumes "decimal_pattern s"
  shows "to_digits 10 (digits_value 10 s) = s" "0 \<le> digits_value 10 s" "s \<noteq> ''0'' \<Longrightarrow> 0 < digits_value 10 s"
proof -
  have digit: "hex_digit (hex_value c) = c \<and> hex_value c < 10 \<and> (c \<noteq> CHR ''0'' \<longrightarrow> 0 < hex_value c)"
    if "is_digit c" for c
  proof -
    have 1: "48 \<le> code_of c" "code_of c < 58" using that by (auto simp: is_digit_def)
    have 2: "char_of (code_of c) = c" by (simp add: code_of_def)
    have 3: "hex_value c = code_of c - 48" using that by (simp add: hex_value_def)
    have 0: "char_of (48 :: nat) = CHR ''0''" by code_simp
    have 4: "c = CHR ''0''" if "code_of c = 48" using arg_cong [OF that, of char_of] unfolding 2 0 .
    have "0 < hex_value c" if "c \<noteq> CHR ''0''" using 1 3 4 that by (cases "code_of c = 48") auto
    moreover have "code_of c - 48 < 10" using 1 by linarith
    ultimately show ?thesis using 1 2 3 by (simp add: hex_digit_def)
  qed
  have "to_digits 10 (digits_value 10 s) = s \<and> 0 \<le> digits_value 10 s \<and> (s \<noteq> ''0'' \<longrightarrow> 0 < digits_value 10 s)"
    using assms
  proof (induction s rule: rev_induct)
    case (snoc c s)
    have c: "is_digit c" using snoc.prems by (simp add: decimal_pattern_def)
    note d = digit [OF c]
    show ?case
    proof (cases "s = []")
      case True
      then have "digits_value 10 (s @ [c]) = int (hex_value c)" by (simp add: digits_value_def)
      then show ?thesis using d True by (subst to_digits.simps) auto
    next
      case False
      then have "decimal_pattern s" "s \<noteq> ''0''"
        using snoc.prems by (auto simp: decimal_pattern_def)
      with snoc.IH have s: "to_digits 10 (digits_value 10 s) = s" "0 < digits_value 10 s" by simp_all
      have v: "digits_value 10 (s @ [c]) = digits_value 10 s * 10 + int (hex_value c)"
        by (rule digits_value_snoc)
      have parts: "(digits_value 10 s * 10 + int (hex_value c)) div 10 = digits_value 10 s"
        "(digits_value 10 s * 10 + int (hex_value c)) mod 10 = int (hex_value c)"
        using d by auto
      have "\<not> digits_value 10 s * 10 + int (hex_value c) < 10" using s(2) by linarith
      then show ?thesis
        using s d unfolding v by (subst to_digits.simps) (simp add: parts)
    qed
  qed (simp add: decimal_pattern_def)
  then show "to_digits 10 (digits_value 10 s) = s" "0 \<le> digits_value 10 s"
    "s \<noteq> ''0'' \<Longrightarrow> 0 < digits_value 10 s" by blast+
qed

lemma decimal_text:
  assumes "0 \<le> n"
  shows "decimal_pattern (to_digits 10 n)" "digits_value 10 (to_digits 10 n) = n"
proof -
  have chars: "list_all is_digit (to_digits 10 n)"
    using to_digits_chars [of 10 n] assms hex_digit_chars(3) by (force simp: list_all_iff)
  have ne: "to_digits 10 n \<noteq> []" by (subst to_digits.simps) auto
  have zero: "to_digits 10 0 = ''0''" by (subst to_digits.simps) (code_simp)
  show "decimal_pattern (to_digits 10 n)"
    using chars ne zero to_digits_hd [of 10 n] assms by (cases "n = 0") (auto simp: decimal_pattern_def)
  show "digits_value 10 (to_digits 10 n) = n" using to_digits_value [of 10 n] assms by simp
qed

lemma u32be_eq: "u32be v = (if fits_u32 v then Some (be_bytes 4 v) else None)"
  using u32be_Some [of v] by (cases "u32be v") auto

lemma create_cookie_eq:
  "create_guest_session_cookie v key sid =
     (if is_valid_key key \<and> length sid = 32 \<and> fits_u32 v
      then Some (join_with ''.'' [''v1'', to_digits 10 v, encode_base64url sid,
             encode_base64url (hmac_sha256 key (COOKIE_DOMAIN @ be_bytes 4 v @ sid))])
      else None)"
  by (simp add: create_guest_session_cookie_def encode_guest_session_message_def u32be_eq
      del: join_with.simps)

lemma dot_free:
  "0 \<le> n \<Longrightarrow> CHR ''.'' \<notin> set (to_digits 10 n)" "CHR ''.'' \<notin> set (encode_base64url bs)"
proof -
  show "0 \<le> n \<Longrightarrow> CHR ''.'' \<notin> set (to_digits 10 n)"
    using decimal_text(1) [of n] by (auto simp: decimal_pattern_def list_all_iff is_digit_def code_of_def)
  show "CHR ''.'' \<notin> set (encode_base64url bs)"
    using encode_base64url_alphabet(1) [of bs]
    by (auto simp: list_all_iff is_base64url_def is_alnum_def is_digit_def is_lower_def is_upper_def code_of_def)
qed

lemma split_cookie:
  assumes "0 \<le> n"
  shows "split_on (CHR ''.'') (join_with ''.'' [''v1'', to_digits 10 n, encode_base64url a, encode_base64url b]) =
    [''v1'', to_digits 10 n, encode_base64url a, encode_base64url b]"
  using dot_free(1) [OF assms] dot_free(2) by (simp add: split_on_append_sep split_on_no_sep)

lemma cookie_of_parts:
  assumes "split_on (CHR ''.'') c = [a, b, d, e]" shows "c = join_with ''.'' [a, b, d, e]"
  using join_split [of "CHR ''.''" c] unfolding assms by simp

lemma decimal_length: "fits_u32 n \<Longrightarrow> length (to_digits 10 n) \<le> 10"
  using to_digits_length [of 10 n 9] by (simp add: fits_u32_def UINT32_MAX_def)

lemma verify_cookie_iff:
  "verify_guest_session_cookie c ring = Some p \<longleftrightarrow>
     (\<exists>key. ring (gp_key_version p) = Some key \<and>
        create_guest_session_cookie (gp_key_version p) key (gp_session_id p) = Some c \<and>
        derive_guest_session_scope (gp_session_id p) = Some (gp_session_scope p))"
  (is "?l = ?r")
proof
  assume ?l
  then obtain n i m where parts: "split_on (CHR ''.'') c = [''v1'', n, i, m]"
    by (auto simp: verify_guest_session_cookie_def split: if_splits list.splits)
  from \<open>?l\<close> parts obtain sid mac key where d: "decimal_pattern n" "digits_value 10 n \<le> UINT32_MAX"
      "decode_canonical_base64url i = Some sid" "decode_canonical_base64url m = Some mac"
      "ring (digits_value 10 n) = Some key" "length sid = 32" "is_valid_key key"
      "gp_key_version p = digits_value 10 n" "gp_session_id p = sid"
      "derive_guest_session_scope sid = Some (gp_session_scope p)"
      "Some mac = map_option (hmac_sha256 key) (encode_guest_session_message (digits_value 10 n) sid)"
    by (auto simp: verify_guest_session_cookie_def Let_def Option.bind_eq_Some_conv
        split: if_splits option.splits)
  note n = canonical_decimal [OF d(1)]
  have u32: "fits_u32 (digits_value 10 n)" using n d(2) by (simp add: fits_u32_def)
  have "i = encode_base64url sid" "m = encode_base64url mac" using d(3,4) by (simp_all add: decode_canonical_Some)
  moreover have "mac = hmac_sha256 key (COOKIE_DOMAIN @ be_bytes 4 (digits_value 10 n) @ sid)"
    using d(6,11) u32 by (simp add: encode_guest_session_message_def u32be_eq)
  ultimately show ?r
    using d u32 n cookie_of_parts [OF parts] by (simp add: create_cookie_eq)
next
  assume ?r
  then obtain key where r: "ring (gp_key_version p) = Some key"
    "create_guest_session_cookie (gp_key_version p) key (gp_session_id p) = Some c"
    "derive_guest_session_scope (gp_session_id p) = Some (gp_session_scope p)" by blast
  let ?mac = "hmac_sha256 key (COOKIE_DOMAIN @ be_bytes 4 (gp_key_version p) @ gp_session_id p)"
  have ok: "is_valid_key key" "length (gp_session_id p) = 32" "fits_u32 (gp_key_version p)"
    "c = join_with ''.'' [''v1'', to_digits 10 (gp_key_version p), encode_base64url (gp_session_id p),
       encode_base64url ?mac]"
    using r(2) by (simp_all add: create_cookie_eq split: if_splits)
  have n: "0 \<le> gp_key_version p" "gp_key_version p \<le> UINT32_MAX" using ok(3) by (simp_all add: fits_u32_def)
  have "length c \<le> 256"
    using decimal_length [OF ok(3)] ok(2) by (simp add: ok(4) length_encode_base64url)
  moreover have "gp_session_id p \<noteq> []" using ok(2) by auto
  ultimately show ?l
    using ok(1-3) r n split_cookie [OF n(1)] decimal_text [OF n(1)]
    by (simp add: verify_guest_session_cookie_def ok(4) u32be_eq encode_guest_session_message_def
        del: join_with.simps)
qed

subsection \<open>Headers and their pairs\<close>

text \<open>A cookie pair the scanner passes over: well-formed, and of another name.\<close>

definition other_cookie :: "string \<Rightarrow> bool" where
  "other_cookie pair \<longleftrightarrow>
     (\<exists>name v. pair = name @ CHR ''='' # v \<and> cookie_name name \<and> cookie_value v \<and>
        name \<noteq> GUEST_SESSION_COOKIE_NAME)"

text \<open>How a browser writes the header.\<close>

definition cookie_header :: "string list \<Rightarrow> string" where
  "cookie_header pairs = join_with ''; '' pairs"

lemma char_code_ne: "code_of c \<noteq> code_of d \<Longrightarrow> c \<noteq> d"
  by auto

lemma cookie_name_chars:
  assumes "cookie_name s" "c \<in> set s"
  shows "33 \<le> code_of c" "code_of c \<noteq> 59" "code_of c \<noteq> 61"
proof -
  have "is_alnum c \<or> code_of c \<in> {33, 35, 36, 37, 38, 39, 42, 43, 45, 46, 94, 95, 96, 124, 126}"
    using assms by (auto simp: cookie_name_def list_all_iff)
  then have "33 \<le> code_of c \<and> code_of c \<noteq> 59 \<and> code_of c \<noteq> 61"
    by (auto simp: is_alnum_def is_digit_def is_lower_def is_upper_def)
  then show "33 \<le> code_of c" "code_of c \<noteq> 59" "code_of c \<noteq> 61" by blast+
qed

lemma cookie_value_chars:
  assumes "cookie_value s" "c \<in> set s"
  shows "33 \<le> code_of c" "code_of c \<noteq> 59"
  using assms by (auto simp: cookie_value_def list_all_iff)

lemma punctuation: "code_of CHR '';'' = 59" "code_of CHR ''='' = 61" "code_of CHR '' '' = 32" "code_of CHR ''.'' = 46"
  by (simp_all add: code_of_def)

lemma pair_chars:
  assumes "cookie_name name" "cookie_value v" "c \<in> set (name @ CHR ''='' # v)"
  shows "33 \<le> code_of c" "code_of c \<noteq> 59"
  using assms cookie_name_chars cookie_value_chars by (auto simp: punctuation)

lemma trim_solid:
  assumes "\<forall>c \<in> set p. 33 \<le> code_of c"
  shows "trim_blanks p = p" "trim_blanks (CHR '' '' # p) = p"
proof -
  have solid: "dropWhile is_blank q = q" if "\<forall>c \<in> set q. 33 \<le> code_of c" for q
    using that by (cases q) (auto simp: is_blank_def)
  show "trim_blanks p = p" "trim_blanks (CHR '' '' # p) = p"
    using solid [of p] solid [of "rev p"] assms by (simp_all add: trim_blanks_def is_blank_def punctuation)
qed

lemma scan_pair:
  assumes "cookie_name name" "cookie_value v" "raw = name @ CHR ''='' # v \<or> raw = CHR '' '' # name @ CHR ''='' # v"
  shows "scan_cookie_pairs (raw # rest) found =
    (if name \<noteq> GUEST_SESSION_COOKIE_NAME then scan_cookie_pairs rest found
     else if found \<noteq> None then COOKIE_AMBIGUOUS else scan_cookie_pairs rest (Some v))"
proof -
  let ?p = "name @ CHR ''='' # v"
  have t: "trim_blanks raw = ?p"
    using assms(3) trim_solid [of ?p] pair_chars(1) [OF assms(1,2)] by auto
  have "\<forall>c \<in> set name. c \<noteq> CHR ''=''" using cookie_name_chars(3) [OF assms(1)] punctuation(2) by metis
  then have n: "takeWhile (\<lambda>c. c \<noteq> CHR ''='') ?p = name" by simp
  have "name \<noteq> []" using assms(1) by (simp add: cookie_name_def)
  then show ?thesis using assms(1,2) by (simp add: t n Let_def)
qed

lemma scan_others:
  assumes "\<forall>p \<in> set ps. other_cookie p" "list_all2 (\<lambda>raw p. raw = p \<or> raw = CHR '' '' # p) raws ps"
  shows "scan_cookie_pairs (raws @ rest) found = scan_cookie_pairs rest found"
  using assms(2,1)
proof (induction raws ps rule: list_all2_induct)
  case (Cons raw raws p ps)
  then obtain name v where "p = name @ CHR ''='' # v" "cookie_name name" "cookie_value v"
    "name \<noteq> GUEST_SESSION_COOKIE_NAME" by (auto simp: other_cookie_def)
  with Cons scan_pair [of name v raw "raws @ rest" found] show ?case by auto
qed simp

lemma split_header:
  assumes "\<forall>p \<in> set (p # ps). CHR '';'' \<notin> set p"
  shows "split_on (CHR '';'') (cookie_header (p # ps)) = p # map ((#) (CHR '' '')) ps"
  using assms unfolding cookie_header_def
proof (induction ps arbitrary: p)
  case (Cons q ps)
  have "split_on (CHR '';'') (join_with ''; '' (q # ps)) = q # map ((#) (CHR '' '')) ps"
    using Cons by auto
  then show ?case using Cons.prems by (simp add: split_on_append_sep)
qed (simp add: split_on_no_sep)

lemma join_with_chars: "set (join_with sep ps) \<subseteq> set sep \<union> \<Union> (set ` set ps)"
  by (induction sep ps rule: join_with.induct) auto

lemma header_solid:
  assumes "\<forall>p \<in> set ps. \<forall>x \<in> set p. 33 \<le> code_of x" shows "\<not> breaks_header (join_with ''; '' ps)"
proof -
  have "13 < code_of x" if "x \<in> set (join_with ''; '' ps)" for x
  proof -
    have "x \<in> set ''; '' \<or> (\<exists>p \<in> set ps. x \<in> set p)"
      using that join_with_chars [of "''; ''" ps] by blast
    then show ?thesis
    proof
      assume "\<exists>p \<in> set ps. x \<in> set p"
      then have "33 \<le> code_of x" using assms by blast
      then show ?thesis by linarith
    qed (auto simp: punctuation)
  qed
  then show ?thesis by (force simp: breaks_header_def list_ex_iff)
qed

lemma session_cookie_pair:
  assumes "create_guest_session_cookie v key sid = Some c"
  shows "cookie_name GUEST_SESSION_COOKIE_NAME" "cookie_value c"
proof -
  show "cookie_name GUEST_SESSION_COOKIE_NAME" by code_simp
  obtain b where u32: "fits_u32 v" and c: "c = join_with ''.'' [''v1'', to_digits 10 v, encode_base64url sid, encode_base64url b]"
    using assms by (auto simp: create_cookie_eq simp del: join_with.simps split: if_splits)
  have chars: "\<forall>x \<in> set (encode_base64url bs). is_base64url x" for bs
    using encode_base64url_alphabet(1) [of bs] by (simp add: list_all_iff)
  have digits: "\<forall>x \<in> set (to_digits 10 v). is_base64url x"
    using decimal_text(1) [of v] u32
    by (auto simp: list_all_iff decimal_pattern_def fits_u32_def is_base64url_def is_alnum_def)
  have v1: "\<forall>x \<in> set ''v1''. is_base64url x" by code_simp
  have "is_base64url x \<or> x = CHR ''.''" if "x \<in> set c" for x
  proof -
    have "x \<in> set ''.'' \<union> (set ''v1'' \<union> set (to_digits 10 v) \<union> set (encode_base64url sid) \<union> set (encode_base64url b))"
      using that join_with_chars [of "''.''" "[''v1'', to_digits 10 v, encode_base64url sid, encode_base64url b]"]
      unfolding c by auto
    then show ?thesis using chars digits v1 by auto
  qed
  then show "cookie_value c"
    by (force simp: cookie_value_def list_all_iff is_base64url_def is_alnum_def is_lower_def is_upper_def is_digit_def
        code_of_def)
qed

lemma parse_session_header:
  assumes "create_guest_session_cookie v key sid = Some c"
    and "\<forall>p \<in> set before \<union> set after. other_cookie p"
    and "length before + length after < MAX_COOKIE_PAIRS"
    and "length (utf8 (cookie_header (before @ (GUEST_SESSION_COOKIE_NAME @ ''='' @ c) # after))) \<le> MAX_COOKIE_HEADER_BYTES"
  shows "parse_guest_cookie (JStr (cookie_header (before @ (GUEST_SESSION_COOKIE_NAME @ ''='' @ c) # after))) =
    COOKIE_FOUND c"
proof -
  let ?mine = "GUEST_SESSION_COOKIE_NAME @ ''='' @ c"
  let ?ps = "before @ ?mine # after"
  let ?h = "cookie_header ?ps"
  note own = session_cookie_pair [OF assms(1)]
  have chars: "33 \<le> code_of x \<and> code_of x \<noteq> 59" if "p \<in> set ?ps" "x \<in> set p" for p x
  proof (cases "p = ?mine")
    case True
    then show ?thesis using pair_chars [OF own] that(2) by simp
  next
    case False
    then have "other_cookie p" using assms(2) that(1) by auto
    then show ?thesis using pair_chars that(2) unfolding other_cookie_def by blast
  qed
  obtain q qs where ps: "?ps = q # qs" by (cases ?ps) auto
  have "\<forall>p \<in> set (q # qs). CHR '';'' \<notin> set p"
    unfolding ps [symmetric] using chars punctuation(1) by metis
  then have split: "split_on (CHR '';'') ?h = q # map ((#) (CHR '' '')) qs"
    unfolding ps by (rule split_header)
  define raws where "raws = q # map ((#) (CHR '' '')) qs"
  have all2: "list_all2 (\<lambda>raw p. raw = p \<or> raw = CHR '' '' # p) raws ?ps"
    unfolding ps raws_def by (simp add: list_all2_map1 list.rel_refl)
  then obtain r1 r2 where r: "raws = r1 @ r2" "list_all2 (\<lambda>raw p. raw = p \<or> raw = CHR '' '' # p) r1 before"
    "list_all2 (\<lambda>raw p. raw = p \<or> raw = CHR '' '' # p) r2 (?mine # after)"
    by (auto simp: list_all2_append2)
  then obtain m r3 where r2: "r2 = m # r3" "m = ?mine \<or> m = CHR '' '' # ?mine"
    "list_all2 (\<lambda>raw p. raw = p \<or> raw = CHR '' '' # p) r3 after"
    by (auto simp: list_all2_Cons2)
  have found: "scan_cookie_pairs raws None = COOKIE_FOUND c"
    using scan_others [OF _ r(2), of r2 None] scan_pair [OF own, of m r3 None] r2(2)
      scan_others [OF _ r2(3), of "[]" "Some c"] assms(2) by (simp add: r(1) r2(1))
  have "length raws \<le> MAX_COOKIE_PAIRS"
    using list_all2_lengthD [OF all2] assms(3) by simp
  moreover have "?h \<noteq> []"
  proof
    assume "?h = []"
    then have "?ps = [[]]" using split unfolding ps by simp
    then have "?mine = []" by (auto simp: append_eq_Cons_conv)
    then show False by simp
  qed
  moreover have "\<not> breaks_header ?h"
    unfolding cookie_header_def by (rule header_solid) (use chars in blast)
  ultimately show ?thesis
    using found assms(4) split [folded raws_def] by (simp add: parse_guest_cookie_def Let_def)
qed

lemma split_on_blank_solid: "CHR '';'' \<notin> set p \<Longrightarrow> split_on_blank p = [p]"
  by (induction p rule: split_on_blank.induct) auto

lemma split_on_blank_append:
  "CHR '';'' \<notin> set p \<Longrightarrow> split_on_blank (p @ ''; '' @ s) = p # split_on_blank s"
proof (induction p)
  case (Cons c p)
  then show ?case by (cases p) auto
qed simp

lemma split_on_blank_join:
  "\<forall>p \<in> set (p # ps). CHR '';'' \<notin> set p \<Longrightarrow> split_on_blank (join_with ''; '' (p # ps)) = p # ps"
proof (induction ps arbitrary: p)
  case (Cons q ps)
  then show ?case using split_on_blank_append [of p "join_with ''; '' (q # ps)"] by simp
qed (simp add: split_on_blank_solid)

lemma issued_header:
  assumes "issue_guest_session_cookie_header v key sid = Some h"
  obtains c where "create_guest_session_cookie v key sid = Some c"
    "h = join_with ''; '' ((GUEST_SESSION_COOKIE_NAME @ ''='' @ c) # GUEST_SESSION_SET_COOKIE_ATTRIBUTES)"
  using assms by (auto simp: issue_guest_session_cookie_header_def simp del: join_with.simps)

lemma attribute_chars:
  "\<forall>p \<in> set GUEST_SESSION_SET_COOKIE_ATTRIBUTES. \<forall>x \<in> set p. 33 \<le> code_of x \<and> code_of x \<noteq> 59"
  by code_simp

lemma issued_header_split:
  assumes "issue_guest_session_cookie_header v key sid = Some h"
  obtains c where "create_guest_session_cookie v key sid = Some c"
    "split_on_blank h = (GUEST_SESSION_COOKIE_NAME @ ''='' @ c) # GUEST_SESSION_SET_COOKIE_ATTRIBUTES"
    "\<not> breaks_header h"
proof -
  obtain c where c: "create_guest_session_cookie v key sid = Some c"
    and h: "h = join_with ''; '' ((GUEST_SESSION_COOKIE_NAME @ ''='' @ c) # GUEST_SESSION_SET_COOKIE_ATTRIBUTES)"
    using assms by (rule issued_header)
  let ?mine = "GUEST_SESSION_COOKIE_NAME @ ''='' @ c"
  have "\<forall>x \<in> set ?mine. 33 \<le> code_of x \<and> code_of x \<noteq> 59"
    using pair_chars [OF session_cookie_pair [OF c]] by simp
  then have chars: "\<forall>p \<in> set (?mine # GUEST_SESSION_SET_COOKIE_ATTRIBUTES). \<forall>x \<in> set p. 33 \<le> code_of x \<and> code_of x \<noteq> 59"
    using attribute_chars by (metis set_ConsD)
  then have "\<forall>p \<in> set (?mine # GUEST_SESSION_SET_COOKIE_ATTRIBUTES). CHR '';'' \<notin> set p"
    using punctuation(1) by metis
  then have "split_on_blank h = ?mine # GUEST_SESSION_SET_COOKIE_ATTRIBUTES"
    unfolding h by (rule split_on_blank_join)
  moreover have "\<not> breaks_header h"
    unfolding h by (rule header_solid) (use chars in blast)
  ultimately show ?thesis using c that by blast
qed

lemma issued_header_pair:
  assumes "issue_guest_session_cookie_header v key sid = Some h"
  obtains c where "create_guest_session_cookie v key sid = Some c"
    "hd (split_on_blank h) = GUEST_SESSION_COOKIE_NAME @ ''='' @ c"
  using assms by (rule issued_header_split) simp

lemma issued_header_recognized:
  assumes "issue_guest_session_cookie_header v key sid = Some h"
  shows "is_guest_session_set_cookie_header (JStr h)"
proof -
  obtain c where c: "create_guest_session_cookie v key sid = Some c"
    and split: "split_on_blank h = (GUEST_SESSION_COOKIE_NAME @ ''='' @ c) # GUEST_SESSION_SET_COOKIE_ATTRIBUTES"
    and solid: "\<not> breaks_header h"
    using assms by (rule issued_header_split)
  let ?mac = "hmac_sha256 key (COOKIE_DOMAIN @ be_bytes 4 v @ sid)"
  have ok: "length sid = 32" "fits_u32 v"
    "c = join_with ''.'' [''v1'', to_digits 10 v, encode_base64url sid, encode_base64url ?mac]"
    using c by (simp_all add: create_cookie_eq split: if_splits)
  have n: "0 \<le> v" "v \<le> UINT32_MAX" using ok(2) by (simp_all add: fits_u32_def)
  have "sid \<noteq> []" using ok(1) by auto
  then show ?thesis
    using split_cookie [OF n(1), of sid ?mac] decimal_text [OF n(1)] decimal_length [OF ok(2)] ok(1)
      encode_base64url_alphabet(1) n solid
    by (simp add: is_guest_session_set_cookie_header_def split starts_with_def ok(3) token_text_def
        length_encode_base64url del: join_with.simps)
qed

lemma cookie_length:
  assumes "create_guest_session_cookie v key sid = Some c" shows "length c \<le> 101"
  using assms decimal_length [of v]
  by (auto simp: create_cookie_eq length_encode_base64url split: if_splits)

subsection \<open>Properties\<close>

text \<open>C30: A session cookie is accepted exactly when the server issued it: a text verifies
  as a principal if and only if the key ring holds a valid key under the
  version the principal names, the text is the cookie that
  \<^verbatim>\<open>createGuestSessionCookie\<close> writes for that version, key and session identifier,
  and the scope is the one derived from the identifier.  No other text, however
  close in its encoding, is accepted for the session.\<close>

theorem session_cookie_verifies_iff:
  "verify_guest_session_cookie c ring = Some p \<longleftrightarrow>
     (\<exists>key. ring (gp_key_version p) = Some key \<and>
        create_guest_session_cookie (gp_key_version p) key (gp_session_id p) = Some c \<and>
        derive_guest_session_scope (gp_session_id p) = Some (gp_session_scope p))"
  by (rule verify_cookie_iff)

text \<open>The cookie round trip: the \<^verbatim>\<open>Set-Cookie\<close> header the server issues passes the
  check the response writer applies, and when the browser sends its pair back
  among at most 63 other well-formed cookies of other names, wherever it
  stands, the session is authenticated with its key version and scope,
  unless that scope is revoked.\<close>

lemma issued_cookie_authenticates:
  assumes "issue_guest_session_cookie_header v key sid = Some h" and "ring v = Some key"
    and "\<forall>p \<in> set before \<union> set after. other_cookie p"
    and "length before + length after < MAX_COOKIE_PAIRS"
    and "length (utf8 (cookie_header (before @ hd (split_on_blank h) # after))) \<le> MAX_COOKIE_HEADER_BYTES"
  shows "is_guest_session_set_cookie_header (JStr h) \<and>
    (\<exists>scope. derive_guest_session_scope sid = Some scope \<and>
       authenticate_guest_session_cookie_header
         (JStr (cookie_header (before @ hd (split_on_blank h) # after))) ring is_revoked =
       (case is_revoked scope of None \<Rightarrow> Inl INVALID_GUEST_SESSION
        | Some True \<Rightarrow> Inl REVOKED_GUEST_SESSION
        | Some False \<Rightarrow> Inr (v, scope)))"
proof -
  obtain c where c: "create_guest_session_cookie v key sid = Some c"
    and hd: "hd (split_on_blank h) = GUEST_SESSION_COOKIE_NAME @ ''='' @ c"
    by (rule issued_header_pair [OF assms(1)])
  obtain scope where scope: "derive_guest_session_scope sid = Some scope"
    using c by (auto simp: create_cookie_eq derive_guest_session_scope_def split: if_splits)
  let ?p = "\<lparr>gp_key_version = v, gp_session_id = sid, gp_session_scope = scope\<rparr>"
  have "verify_guest_session_cookie c ring = Some ?p"
    using c scope assms(2) by (simp add: verify_cookie_iff)
  moreover have "parse_guest_cookie (JStr (cookie_header (before @ hd (split_on_blank h) # after))) = COOKIE_FOUND c"
    using parse_session_header [OF c assms(3,4)] assms(5) unfolding hd by blast
  ultimately show ?thesis
    using issued_header_recognized [OF assms(1)] scope
    by (auto simp: authenticate_guest_session_cookie_header_def split: option.splits bool.splits)
qed

end
