(* ===== verification/Ip_Text.thy ===== *)
theory Ip_Text
  imports Ip_Policy
begin

section \<open>IP addresses as text, and what the policy lets through\<close>

text \<open>
  The canonical text of an address is what the connection is made to, so it has
  to denote the address the policy checked.  This theory shows that formatting
  and parsing agree (\<open>parse_ip_canonical\<close>) and states the two properties of
  \<^verbatim>\<open>apps/api/src/target/ip-policy.ts\<close>.
\<close>

declare best_zero_run.simps [simp del]

subsection \<open>IPv4\<close>

lemma v4_segment_text:
  assumes "0 \<le> n" "n \<le> 255"
  shows "v4_segment (to_digits 10 n)"
proof -
  have len: "1 \<le> length (to_digits 10 n) \<and> length (to_digits 10 n) \<le> 3"
    using to_digits_length [of 10 n 2] assms by simp
  have dig: "list_all is_digit (to_digits 10 n)"
    using to_digits_chars [of 10 n] assms hex_digit_chars(3) by (fastforce simp: list_all_iff)
  have zero: "length (to_digits 10 n) = 1 \<or> hd (to_digits 10 n) \<noteq> CHR ''0''"
  proof (cases "n = 0")
    case True
    then show ?thesis by (subst to_digits.simps) simp
  next
    case False
    then show ?thesis using to_digits_hd [of 10 n] assms by simp
  qed
  show ?thesis using len dig zero assms
    unfolding v4_segment_def by (simp add: to_digits_value)
qed

lemma split_join:
  "list_all (\<lambda>p. c \<notin> set p) ps \<Longrightarrow> ps \<noteq> [] \<Longrightarrow> split_on c (join_with [c] ps) = ps"
  by (induction "[c]" ps rule: join_with.induct) (auto simp: split_on_no_sep split_on_append_sep)

definition v4_text :: "int list \<Rightarrow> string" where
  "v4_text octets = join_with ''.'' (map (to_digits 10) octets)"

lemma v4_text_split:
  assumes "list_all (\<lambda>n. 0 \<le> n \<and> n \<le> 255) octets" "octets \<noteq> []"
  shows "split_on (CHR ''.'') (v4_text octets) = map (to_digits 10) octets"
  unfolding v4_text_def
proof (rule split_join)
  show "list_all (\<lambda>p. CHR ''.'' \<notin> set p) (map (to_digits 10) octets)"
    using assms(1) to_digits_no_char [of 10] by (simp add: list_all_iff)
qed (use assms in auto)

lemma v4_text_ipv4:
  assumes "list_all (\<lambda>n. 0 \<le> n \<and> n \<le> 255) octets" "length octets = 4"
  shows "is_ipv4 (v4_text octets)"
proof -
  have "octets \<noteq> []" using assms(2) by auto
  then show ?thesis using assms v4_segment_text
    by (auto simp: is_ipv4_def Let_def v4_text_split list_all_iff)
qed

lemma v4_text_length:
  assumes "list_all (\<lambda>n. 0 \<le> n \<and> n \<le> 255) octets" "length octets = 4"
  shows "0 < length (v4_text octets) \<and> length (v4_text octets) \<le> 64"
proof -
  have len: "length (to_digits 10 n) \<le> 3 \<and> 1 \<le> length (to_digits 10 n)" if "n \<in> set octets" for n
    using to_digits_length [of 10 n 2] assms that by (auto simp: list_all_iff)
  obtain a b c d where o: "octets = [a, b, c, d]"
    using assms(2) by (auto simp: length_Suc_conv eval_nat_numeral)
  show ?thesis using len [of a] len [of b] len [of c] len [of d]
    unfolding v4_text_def o by simp
qed

lemma digits_value_nonneg: "0 \<le> b \<Longrightarrow> 0 \<le> digits_value b s"
proof -
  assume b: "0 \<le> b"
  have "0 \<le> acc \<Longrightarrow> 0 \<le> foldl (\<lambda>acc c. acc * b + int (hex_value c)) acc s" for acc
    by (induction s arbitrary: acc) (auto simp: b)
  then show ?thesis by (simp add: digits_value_def)
qed

lemma parse_ipv4_canonical:
  assumes "parse_ipv4 s = Some a"
  shows "parse_ip (pi_address a) = Some a"
proof -
  define octets where "octets = map (digits_value 10) (split_on (CHR ''.'') s)"
  have v4: "is_ipv4 s" using assms by (auto simp: parse_ipv4_def is_ip_def split: if_splits)
  then have o: "list_all (\<lambda>n. 0 \<le> n \<and> n \<le> 255) octets" "length octets = 4"
    by (auto simp: is_ipv4_def octets_def Let_def list_all_iff v4_segment_def digits_value_nonneg)
  have a: "a = \<lparr>pi_address = v4_text octets, pi_family = IPv4,
      pi_value = foldl (\<lambda>current octet. current * 2 ^ 8 + octet) 0 octets\<rparr>"
    using assms by (auto simp: parse_ipv4_def Let_def octets_def v4_text_def split: if_splits)
  have ne: "octets \<noteq> []" using o(2) by auto
  have "map (digits_value 10) (map (to_digits 10) octets) = octets"
    using o(1) by (auto simp: list_all_iff to_digits_value intro: map_idI)
  then have "parse_ipv4 (v4_text octets) = Some a"
    using v4_text_ipv4 [OF o] v4_text_split [OF o(1) ne] a
    by (simp add: parse_ipv4_def is_ip_def v4_text_def)
  then show ?thesis using v4_text_length [OF o] a by (simp add: parse_ip_def)
qed


subsubsection \<open>IPv6\<close>

definition v6_groups_ok :: "int list \<Rightarrow> bool" where
  "v6_groups_ok gs \<longleftrightarrow> list_all (\<lambda>g. 0 \<le> g \<and> g < 65536) gs"

definition plain_segments :: "string list \<Rightarrow> bool" where
  "plain_segments segs \<longleftrightarrow> list_all (\<lambda>p. p \<noteq> [] \<and> CHR '':'' \<notin> set p) segs"

lemma split_dc_nonempty [simp]: "split_double_colon s \<noteq> []"
  by (induction s rule: split_double_colon.induct) (auto split: list.splits)

lemma split_dc_char:
  "c \<noteq> CHR '':'' \<Longrightarrow>
   split_double_colon (c # s) = (c # hd (split_double_colon s)) # tl (split_double_colon s)"
  by (cases s; cases "split_double_colon s") auto

lemma split_dc_prefix:
  "CHR '':'' \<notin> set p \<Longrightarrow>
   split_double_colon (p @ s) = (p @ hd (split_double_colon s)) # tl (split_double_colon s)"
proof (induction p)
  case (Cons c p)
  then have "c \<noteq> CHR '':''" by auto
  from split_dc_char [OF this, of "p @ s"] Cons show ?case by simp
qed simp

lemma split_dc_colon:
  "d \<noteq> CHR '':'' \<Longrightarrow>
   split_double_colon (CHR '':'' # d # s) =
     (CHR '':'' # hd (split_double_colon (d # s))) # tl (split_double_colon (d # s))"
  by (simp split: list.splits)

lemma split_dc_join:
  assumes "plain_segments segs" "hd (split_double_colon s) = []" "split_double_colon s \<noteq> []"
  shows "split_double_colon (join_with '':'' segs @ s) =
    join_with '':'' segs # tl (split_double_colon s)"
  using assms
proof (induction "'':''" segs rule: join_with.induct)
  case 1
  then show ?case by (cases "split_double_colon s") auto
next
  case (2 p)
  then show ?case by (simp add: plain_segments_def split_dc_prefix)
next
  case (3 p q ps)
  have plain: "CHR '':'' \<notin> set p" "plain_segments (q # ps)" "q \<noteq> []" "hd q \<noteq> CHR '':''"
    using 3(2) by (auto simp: plain_segments_def) (metis list.set_sel(1))
  have IH: "split_double_colon (join_with '':'' (q # ps) @ s) =
      join_with '':'' (q # ps) # tl (split_double_colon s)"
    using plain(2) 3 by blast
  obtain t where t: "join_with '':'' (q # ps) @ s = hd q # t"
    using plain(3) by (cases q; cases ps) auto
  have "split_double_colon (CHR '':'' # (join_with '':'' (q # ps) @ s)) =
      (CHR '':'' # join_with '':'' (q # ps)) # tl (split_double_colon s)"
    using IH unfolding t split_dc_colon [OF plain(4)] by simp
  then show ?case using split_dc_prefix [OF plain(1)] by simp
qed

lemma v6_segments_join:
  assumes "plain_segments segs"
  shows "v6_segments (join_with '':'' segs) = segs"
proof (cases segs)
  case (Cons p ps)
  then have "join_with '':'' segs \<noteq> []" using assms by (cases ps) (auto simp: plain_segments_def)
  moreover have "split_on (CHR '':'') (join_with '':'' segs) = segs"
    using assms Cons by (intro split_join) (auto simp: plain_segments_def list_all_iff)
  ultimately show ?thesis by (simp add: v6_segments_def)
qed (simp add: v6_segments_def)

lemma group_segment:
  assumes "0 \<le> g" "g < 65536"
  shows "v6_segment (to_digits 16 g)" "CHR '':'' \<notin> set (to_digits 16 g)" "to_digits 16 g \<noteq> []"
proof -
  have len: "1 \<le> length (to_digits 16 g) \<and> length (to_digits 16 g) \<le> 4"
    using to_digits_length [of 16 g 3] assms by simp
  have "list_all is_hex_digit (to_digits 16 g)"
    using to_digits_chars [of 16 g] assms hex_digit_chars(2) by (fastforce simp: list_all_iff)
  with len show "v6_segment (to_digits 16 g)" by (simp add: v6_segment_def)
  show "CHR '':'' \<notin> set (to_digits 16 g)" using to_digits_no_char [of 16 g] assms by simp
  show "to_digits 16 g \<noteq> []" using len by auto
qed

lemma groups_plain: "v6_groups_ok gs \<Longrightarrow> plain_segments (map (to_digits 16) gs)"
  using group_segment by (auto simp: v6_groups_ok_def plain_segments_def list_all_iff)

lemma groups_width: "v6_groups_ok gs \<Longrightarrow> v6_width (map (to_digits 16) gs) = Some (length gs)"
  using group_segment by (auto simp: v6_groups_ok_def v6_width_def list_all_iff)

lemma groups_values: "v6_groups_ok gs \<Longrightarrow> map (digits_value 16) (map (to_digits 16) gs) = gs"
  by (auto simp: v6_groups_ok_def list_all_iff to_digits_value intro: map_idI)

lemma zero_run_zero: "i < zero_run gs \<Longrightarrow> i < length gs \<and> gs ! i = 0"
  unfolding zero_run_def
  by (metis (mono_tags, lifting) length_takeWhile_le nth_mem order_less_le_trans set_takeWhileD
      takeWhile_nth)

lemma best_zero_run_zeros:
  "(\<forall>i < snd best. fst best + i < length gs \<and> gs ! (fst best + i) = 0) \<Longrightarrow>
   best_zero_run gs index best = (start, len) \<Longrightarrow>
   \<forall>i < len. start + i < length gs \<and> gs ! (start + i) = 0"
proof (induction gs index best rule: best_zero_run.induct)
  case (1 gs index best)
  let ?run = "zero_run (drop index gs)"
  have run: "\<forall>i < ?run. index + i < length gs \<and> gs ! (index + i) = 0"
  proof (intro allI impI)
    fix i
    assume "i < ?run"
    from zero_run_zero [OF this] show "index + i < length gs \<and> gs ! (index + i) = 0" by auto
  qed
  show ?case
  proof (cases "index \<ge> length gs")
    case True
    then show ?thesis using "1.prems" by (subst (asm) best_zero_run.simps) auto
  next
    case in_range: False
    show ?thesis
    proof (cases "gs ! index \<noteq> 0")
      case True
      then show ?thesis
        using in_range "1.prems"(2) "1.IH"(1) [OF in_range True "1.prems"(1)]
        by (subst (asm) best_zero_run.simps [of gs index]) simp
    next
      case False
      have "best_zero_run gs (index + max 1 ?run) (if ?run > snd best then (index, ?run) else best) =
          (start, len)"
        using in_range False "1.prems"(2) by (subst (asm) best_zero_run.simps) (simp add: Let_def)
      then show ?thesis
        using "1.IH"(2) [OF in_range False refl] "1.prems"(1) run by (auto split: if_splits)
    qed
  qed
qed


lemma groups_split:
  assumes "\<forall>i < len. start + i < length gs \<and> gs ! (start + i) = 0"
  shows "take start gs @ replicate len 0 @ drop (start + len) gs = gs"
proof -
  have "start + len \<le> length gs" if "0 < len"
    using assms [rule_format, of "len - 1"] that by auto
  then have "take len (drop start gs) = replicate len 0"
    using assms by (cases "len = 0") (auto intro!: nth_equalityI)
  moreover have "drop (start + len) gs = drop len (drop start gs)" by (simp add: add.commute)
  ultimately show ?thesis by (metis append_take_drop_id)
qed

definition canonical_char :: "char \<Rightarrow> bool" where
  "canonical_char c \<longleftrightarrow> c = CHR '':'' \<or> (\<exists>k < 16. c = hex_digit k)"

lemma canonical_char_props:
  assumes "list_all canonical_char s"
  shows "js_lower s = s" "CHR ''%'' \<notin> set s" "CHR ''.'' \<notin> set s" "CHR ''/'' \<notin> set s"
proof -
  have "js_lower_char (CHR '':'') = CHR '':''"
    by (simp add: js_lower_char_def is_upper_def code_of_def)
  then have "js_lower_char c = c" if "canonical_char c" for c
    using that hex_digit_chars(1) unfolding canonical_char_def by metis
  then show "js_lower s = s"
    using assms unfolding js_lower_def list_all_iff by (intro map_idI) blast
  have special: "\<not> canonical_char c" if "c \<in> {CHR ''%'', CHR ''.'', CHR ''/''}" for c
  proof
    assume "canonical_char c"
    then consider "c = CHR '':''" | k where "k < 16" "c = hex_digit k"
      by (auto simp: canonical_char_def)
    then show False
      by cases (use that hex_digit_chars(5,6,8) in auto)
  qed
  show "CHR ''%'' \<notin> set s" "CHR ''.'' \<notin> set s" "CHR ''/'' \<notin> set s"
    using assms special by (auto simp: list_all_iff)
qed

lemma join_all: "list_all P sep \<Longrightarrow> list_all (list_all P) ps \<Longrightarrow> list_all P (join_with sep ps)"
  by (induction sep ps rule: join_with.induct) auto

lemma group_text_canonical: "v6_groups_ok gs \<Longrightarrow> list_all canonical_char (group_text gs)"
  unfolding group_text_def
proof (rule join_all)
  assume ok: "v6_groups_ok gs"
  have "list_all canonical_char (to_digits 16 g)" if "g \<in> set gs" for g
    using to_digits_chars [of 16 g] ok that
    by (auto simp: v6_groups_ok_def list_all_iff canonical_char_def)
  then show "list_all (list_all canonical_char) (map (to_digits 16) gs)" by (simp add: list_all_iff)
qed (simp add: canonical_char_def)

lemma join_length:
  "list_all (\<lambda>p. length p \<le> k) ps \<Longrightarrow> length (join_with [c] ps) \<le> (k + 1) * length ps"
  by (induction "[c]" ps rule: join_with.induct) auto

lemma group_text_length: "v6_groups_ok gs \<Longrightarrow> length (group_text gs) \<le> 5 * length gs"
  using join_length [of 4 "map (to_digits 16) gs" "CHR '':''"] group_segment(1)
  by (auto simp: group_text_def v6_groups_ok_def list_all_iff v6_segment_def)

lemma ok_take_drop: "v6_groups_ok gs \<Longrightarrow> v6_groups_ok (take n gs) \<and> v6_groups_ok (drop n gs)"
  by (auto simp: v6_groups_ok_def list_all_iff dest: in_set_takeD in_set_dropD)

text \<open>What the readers see in a formatted address.\<close>

lemma formatted_cases:
  assumes "v6_groups_ok gs" "length gs = 8"
  obtains (plain) "format_ipv6 gs = group_text gs" "split_double_colon (format_ipv6 gs) = [group_text gs]"
  | (compressed) left right len where "gs = left @ replicate len 0 @ right" "2 \<le> len"
    "format_ipv6 gs = group_text left @ ''::'' @ group_text right"
    "split_double_colon (format_ipv6 gs) = [group_text left, group_text right]"
    "v6_groups_ok left" "v6_groups_ok right"
proof -
  obtain start len where best: "best_zero_run gs 0 (0, 0) = (start, len)" by fastforce
  note plain_split = split_dc_join [OF groups_plain, of _ "[]", simplified, folded group_text_def]
  show ?thesis
  proof (cases "len < 2")
    case True
    then have "format_ipv6 gs = group_text gs" using best by (simp add: format_ipv6_def)
    then show ?thesis using that(1) plain_split assms by simp
  next
    case False
    let ?l = "take start gs" and ?r = "drop (start + len) gs"
    have split: "gs = ?l @ replicate len 0 @ ?r"
      using groups_split [OF best_zero_run_zeros [OF _ best]] by simp
    have ok: "v6_groups_ok ?l" "v6_groups_ok ?r" using ok_take_drop assms(1) by blast+
    have fmt: "format_ipv6 gs = group_text ?l @ ''::'' @ group_text ?r"
      using best False by (simp add: format_ipv6_def)
    have "split_double_colon (group_text ?l @ ''::'' @ group_text ?r) = [group_text ?l, group_text ?r]"
      using split_dc_join [OF groups_plain [OF ok(1)], of "''::'' @ group_text ?r"] plain_split [OF ok(2)]
      by (simp add: group_text_def)
    then show ?thesis using that(2) [OF split _ fmt _ ok] False fmt by simp
  qed
qed

lemma format_properties:
  assumes "v6_groups_ok gs" "length gs = 8"
  shows "list_all canonical_char (format_ipv6 gs)" "is_ipv6_body (format_ipv6 gs)"
    "v6_groups (format_ipv6 gs) = Some gs" "0 < length (format_ipv6 gs)" "length (format_ipv6 gs) \<le> 64"
proof -
  note segs = v6_segments_join [OF groups_plain, folded group_text_def]
  have "list_all canonical_char (format_ipv6 gs) \<and> is_ipv6_body (format_ipv6 gs) \<and>
    v6_groups (format_ipv6 gs) = Some gs \<and> 0 < length (format_ipv6 gs) \<and> length (format_ipv6 gs) \<le> 64"
    using assms
  proof (cases rule: formatted_cases)
    case plain
    have "group_text gs \<noteq> []" using segs [OF assms(1)] assms(2) by (auto simp: v6_segments_def)
    then show ?thesis
      using plain segs [OF assms(1)] assms groups_width groups_values group_text_canonical
        group_text_length [OF assms(1)]
      by (simp add: is_ipv6_body_def v6_groups_def Let_def)
  next
    case (compressed left right len)
    have len: "length left + length right + len = 8" using compressed(1) assms(2) by auto
    have zero: "digits_value 16 ''0'' = 0"
      by (simp add: digits_value_def hex_value_def is_digit_def code_of_def)
    have "list_all v6_segment (map (to_digits 16) left)"
      using group_segment(1) compressed(5) by (auto simp: v6_groups_ok_def list_all_iff)
    then have "is_ipv6_body (format_ipv6 gs)"
      using compressed(2,4) segs compressed(5,6) groups_width len by (simp add: is_ipv6_body_def)
    moreover have "v6_groups (format_ipv6 gs) = Some gs"
      using compressed segs groups_values len zero
      by (auto simp: v6_groups_def Let_def nat_diff_distrib)
    moreover have "list_all canonical_char (format_ipv6 gs)"
      using group_text_canonical compressed(3,5,6) by (simp add: canonical_char_def)
    ultimately show ?thesis
      using compressed(3) group_text_length [OF compressed(5)] group_text_length [OF compressed(6)] len
      by simp
  qed
  then show "list_all canonical_char (format_ipv6 gs)" "is_ipv6_body (format_ipv6 gs)"
    "v6_groups (format_ipv6 gs) = Some gs" "0 < length (format_ipv6 gs)" "length (format_ipv6 gs) \<le> 64"
    by blast+
qed


subsubsection \<open>The groups of an accepted text\<close>

lemma split_on_map:
  assumes "\<And>x. f x = c \<longleftrightarrow> x = c"
  shows "split_on c (map f xs) = map (map f) (split_on c xs)"
  by (induction xs) (auto simp: assms split: list.splits)

lemma join_split_dc: "join_with ''::'' (split_double_colon s) = s"
proof (induction s rule: split_double_colon.induct)
  case (3 c d cs)
  show ?case
  proof (cases "c = CHR '':'' \<and> d = CHR '':''")
    case True
    then show ?thesis using 3(1) by (cases "split_double_colon cs") auto
  next
    case False
    then show ?thesis
      using 3(2) by (cases "split_double_colon (d # cs)"; cases "tl (split_double_colon (d # cs))") auto
  qed
qed auto

definition short_piece :: "string \<Rightarrow> bool" where
  "short_piece p \<longleftrightarrow> length p \<le> 4 \<and> list_all is_lower_hex p"

lemma short_piece_value:
  assumes "short_piece p"
  shows "0 \<le> digits_value 16 p \<and> digits_value 16 p < 65536"
proof -
  have bound: "digits_value 16 p < 16 ^ length p" if "list_all is_lower_hex p" for p
    using that
  proof (induction p rule: rev_induct)
    case Nil
    then show ?case by (simp add: digits_value_def)
  next
    case (snoc c p)
    then show ?case using hex_value_less [of c] by (simp add: digits_value_snoc)
  qed
  have "digits_value 16 p < 16 ^ length p" using assms bound by (simp add: short_piece_def)
  also have "(16::int) ^ length p \<le> 16 ^ 4" using assms
    by (intro power_increasing) (auto simp: short_piece_def)
  finally show ?thesis by (simp add: digits_value_nonneg)
qed

lemma halves_pieces:
  assumes "length (split_double_colon s) \<le> 2" "h \<in> set (split_double_colon s)"
    "p \<in> set (v6_segments h)"
  shows "p \<in> set (split_on (CHR '':'') s)"
proof -
  have p: "p \<in> set (split_on (CHR '':'') h)"
    using assms(3) by (auto simp: v6_segments_def split: if_splits)
  have pieces: "split_on (CHR '':'') (l @ ''::'' @ r) =
      split_on (CHR '':'') l @ [] # split_on (CHR '':'') r" for l r
    by (simp add: split_on_append)
  consider w where "split_double_colon s = [w]"
    | l r where "split_double_colon s = [l, r]"
    using assms(1) split_dc_nonempty [of s]
    by (cases "split_double_colon s"; cases "tl (split_double_colon s)";
        cases "tl (tl (split_double_colon s))") auto
  then show ?thesis
  proof cases
    case 1
    then show ?thesis using join_split_dc [of s] assms(2) p by simp
  next
    case 2
    then have "s = l @ ''::'' @ r" using join_split_dc [of s] by simp
    then show ?thesis using 2 assms(2) p pieces [of l r] by auto
  qed
qed

lemma v6_groups_from_pieces:
  assumes "\<forall>p \<in> set (split_on (CHR '':'') s). short_piece p" "v6_groups s = Some gs"
  shows "v6_groups_ok gs"
proof -
  let ?halves = "split_double_colon s"
  define right where "right = (case ?halves of _ # r # _ \<Rightarrow> v6_segments r | _ \<Rightarrow> [])"
  have len: "length ?halves \<le> 2"
    and gs: "\<exists>n. gs = map (digits_value 16) (v6_segments (hd ?halves) @ replicate n ''0'' @ right)"
    using assms(2) by (auto simp: v6_groups_def Let_def right_def split: if_splits)
  have "short_piece p" if "p \<in> set (v6_segments (hd ?halves)) \<union> set right" for p
    using that assms(1) halves_pieces [OF len, of _ p] split_dc_nonempty [of s]
    by (cases ?halves; cases "tl ?halves") (auto simp: right_def)
  moreover have "short_piece ''0''"
    by (simp add: short_piece_def is_lower_hex_def is_digit_def code_of_def)
  ultimately show ?thesis
    using gs short_piece_value by (auto simp: v6_groups_ok_def list_all_iff)
qed

lemma segment_lower: "v6_segment p \<Longrightarrow> short_piece (js_lower p)"
  by (auto simp: v6_segment_def short_piece_def js_lower_def is_hex_digit_def list_all_iff)

lemma width_pieces:
  assumes "v6_width segs = Some n" "segs \<noteq> []"
  shows "list_all v6_segment (butlast segs) \<and> (v6_segment (last segs) \<or> is_ipv4 (last segs))"
  using assms by (cases segs rule: rev_cases) (auto simp: v6_width_def list_all_iff split: if_splits)

text \<open>The colon-separated pieces of an IPv6 text: segments or empty, the last may be dotted.\<close>

lemma body_pieces:
  assumes "is_ipv6_body s"
  shows "list_all (\<lambda>p. p = [] \<or> v6_segment p) (butlast (split_on (CHR '':'') s)) \<and>
    (let t = last (split_on (CHR '':'') s) in t = [] \<or> v6_segment t \<or> is_ipv4 t)"
proof -
  consider w where "split_double_colon s = [w]" "v6_width (v6_segments w) = Some 8"
    | l r n where "split_double_colon s = [l, r]" "list_all v6_segment (v6_segments l)"
      "v6_width (v6_segments r) = Some n"
    using assms by (auto simp: is_ipv6_body_def split: list.splits option.splits)
  then show ?thesis
  proof cases
    case 1
    then have w: "v6_width (v6_segments s) = Some 8" using join_split_dc [of s] by simp
    then have "s \<noteq> []" by (auto simp: v6_segments_def v6_width_def)
    then have "v6_segments s = split_on (CHR '':'') s" by (simp add: v6_segments_def)
    then show ?thesis
      using width_pieces [of "split_on (CHR '':'') s" 8] w by (simp add: Let_def list_all_iff)
  next
    case 2
    then have "s = l @ ''::'' @ r" using join_split_dc [of s] by simp
    then have s: "split_on (CHR '':'') s = split_on (CHR '':'') l @ [] # split_on (CHR '':'') r"
      by (simp add: split_on_append)
    have l: "list_all (\<lambda>p. p = [] \<or> v6_segment p) (split_on (CHR '':'') l)"
      using 2(2) by (auto simp: v6_segments_def list_all_iff split: if_splits)
    have r: "list_all (\<lambda>p. p = [] \<or> v6_segment p) (butlast (split_on (CHR '':'') r)) \<and>
        (let t = last (split_on (CHR '':'') r) in t = [] \<or> v6_segment t \<or> is_ipv4 t)"
      using width_pieces [of "v6_segments r"] 2(3)
      by (cases "r = []") (auto simp: v6_segments_def Let_def list_all_iff)
    show ?thesis using s l r by (simp add: butlast_append Let_def)
  qed
qed


lemma js_lower_char_colon: "js_lower_char c = CHR '':'' \<longleftrightarrow> c = CHR '':''"
proof -
  have "\<not> is_upper (CHR '':'')" by (simp add: is_upper_def code_of_def)
  moreover have "js_lower_char c \<noteq> CHR '':''" if "is_upper c \<or> 192 \<le> code_of c \<and> code_of c \<le> 222"
  proof
    assume "js_lower_char c = CHR '':''"
    then have "code_of (js_lower_char c) = 58" by (simp add: code_of_def)
    then show False using that code_of_less [of c]
      by (auto simp: js_lower_char_def is_upper_def code_of_def split: if_splits)
  qed
  ultimately show ?thesis by (auto simp: js_lower_char_def code_of_def)
qed

lemma split_lower: "split_on (CHR '':'') (js_lower s) = map js_lower (split_on (CHR '':'') s)"
  unfolding js_lower_def by (rule split_on_map) (rule js_lower_char_colon)

lemma last_colon_split:
  assumes "last_colon_split s = (front, tail)" "CHR '':'' \<in> set s"
  shows "s = front @ CHR '':'' # tail \<and> CHR '':'' \<notin> set tail"
proof -
  let ?t = "takeWhile (\<lambda>c. c \<noteq> CHR '':'') (rev s)" and ?d = "dropWhile (\<lambda>c. c \<noteq> CHR '':'') (rev s)"
  have "?d \<noteq> []" using assms(2) by (auto simp: dropWhile_eq_Nil_conv)
  then obtain d where d: "?d = CHR '':'' # d"
    using hd_dropWhile [of "\<lambda>c. c \<noteq> CHR '':''" "rev s"] by (cases ?d) auto
  have "rev s = ?t @ CHR '':'' # d" using takeWhile_dropWhile_id [of "\<lambda>c. c \<noteq> CHR '':''" "rev s"] d by simp
  then have s: "s = rev d @ CHR '':'' # rev ?t" by (metis append.assoc append_Cons append_Nil rev.simps(2) rev_append rev_rev_ident)
  have "front = take (length s - length (rev ?t) - 1) s" "tail = rev ?t"
    using assms(1) by (auto simp: last_colon_split_def Let_def)
  moreover have "take (length s - length (rev ?t) - 1) s = rev d" by (subst (2) s, subst s) simp
  moreover have "CHR '':'' \<notin> set (rev ?t)" using set_takeWhileD by fastforce
  ultimately show ?thesis using s by simp
qed

lemma last_colon_none:
  "CHR '':'' \<notin> set s \<Longrightarrow> last_colon_split s = ([], s)"
proof -
  assume "CHR '':'' \<notin> set s"
  then have all: "takeWhile (\<lambda>c. c \<noteq> CHR '':'') (rev s) = rev s" by (auto simp: takeWhile_eq_all_conv)
  show ?thesis unfolding last_colon_split_def Let_def all by simp
qed

lemma is_ipv4_dot: "is_ipv4 t \<Longrightarrow> CHR ''.'' \<in> set t"
  by (rule ccontr) (simp add: is_ipv4_def split_on_no_sep)

lemma split_on_chars: "p \<in> set (split_on c s) \<Longrightarrow> set p \<subseteq> set s"
  by (induction s arbitrary: p) (fastforce split: if_splits list.splits)+

lemma is_ipv4_lower: "is_ipv4 t \<Longrightarrow> js_lower t = t"
proof -
  assume "is_ipv4 t"
  then have "list_all (list_all is_digit) (split_on (CHR ''.'') t)"
    by (auto simp: is_ipv4_def Let_def v4_segment_def list_all_iff)
  then have "list_all (\<lambda>c. is_digit c \<or> c = CHR ''.'') (join_with ''.'' (split_on (CHR ''.'') t))"
    by (intro join_all) (auto simp: list_all_iff)
  then have "list_all (\<lambda>c. is_digit c \<or> c = CHR ''.'') t" by simp
  moreover have "js_lower_char c = c" if "is_digit c \<or> c = CHR ''.''" for c
    using that by (auto simp: js_lower_char_def is_digit_def is_upper_def code_of_def)
  ultimately show ?thesis unfolding js_lower_def list_all_iff by (intro map_idI) blast
qed

lemma group_short: "0 \<le> g \<Longrightarrow> g < 65536 \<Longrightarrow> short_piece (to_digits 16 g)"
proof -
  assume g: "0 \<le> g" "g < 65536"
  have "is_lower_hex (hex_digit k)" if "k < 16" for k using that by (rule hex_digit_props(1))
  then have "list_all is_lower_hex (to_digits 16 g)"
    using to_digits_chars [of 16 g] g by (auto simp: list_all_iff)
  then show ?thesis using group_segment(1) [OF g] by (simp add: short_piece_def v6_segment_def)
qed

lemma all_butlast_last:
  "xs \<noteq> [] \<Longrightarrow> (\<forall>x \<in> set xs. P x) \<longleftrightarrow> (\<forall>x \<in> set (butlast xs). P x) \<and> P (last xs)"
  by (cases xs rule: rev_cases) auto

lemma expanded_pieces:
  assumes "is_ipv6_body s" "expand_dotted (js_lower s) = Some e"
  shows "\<forall>p \<in> set (split_on (CHR '':'') e). short_piece p"
proof -
  let ?low = "js_lower s" and ?ps = "split_on (CHR '':'') (js_lower s)"
  have empty: "short_piece []" "js_lower [] = []" by (simp_all add: short_piece_def js_lower_def)
  have front: "\<forall>p \<in> set (butlast ?ps). short_piece p"
    using body_pieces [OF assms(1)] segment_lower empty
    by (auto simp: split_lower list_all_iff map_butlast [symmetric])
  have end_piece: "short_piece (last ?ps) \<or> is_ipv4 (last ?ps)"
    using body_pieces [OF assms(1)] segment_lower empty is_ipv4_lower
    by (auto simp: split_lower last_map Let_def)
  show ?thesis
  proof (cases "CHR ''.'' \<in> set ?low")
    case False
    then have "e = ?low" using assms(2) by (simp add: expand_dotted_def)
    moreover have "last ?ps \<in> set ?ps" by simp
    then have "set (last ?ps) \<subseteq> set ?low" by (rule split_on_chars)
    then have "CHR ''.'' \<notin> set (last ?ps)" using False by auto
    then have "short_piece (last ?ps)" using end_piece is_ipv4_dot by auto
    ultimately show ?thesis using front all_butlast_last [of ?ps] by simp
  next
    case True
    obtain front' tail where lc: "last_colon_split ?low = (front', tail)" by fastforce
    obtain v4 where "parse_ipv4 tail = Some v4" and e: "e = front' @ '':'' @ to_digits 16 (pi_value v4 div 2 ^ 16 mod 2 ^ 16) @ '':'' @
        to_digits 16 (pi_value v4 mod 2 ^ 16)"
      using assms(2) True lc by (auto simp: expand_dotted_def split: option.splits)
    let ?hi = "to_digits 16 (pi_value v4 div 2 ^ 16 mod 2 ^ 16)" and ?lo = "to_digits 16 (pi_value v4 mod 2 ^ 16)"
    have short: "short_piece ?hi" "short_piece ?lo" by (intro group_short; simp)+
    have "CHR '':'' \<notin> set ?hi" "CHR '':'' \<notin> set ?lo" using to_digits_no_char [of 16] by simp_all
    then have "split_on (CHR '':'') e = split_on (CHR '':'') front' @ [?hi, ?lo]"
      by (simp add: e split_on_append split_on_no_sep split_on_append_sep)
    moreover have "\<forall>p \<in> set (split_on (CHR '':'') front'). short_piece p"
    proof (cases "CHR '':'' \<in> set ?low")
      case True
      then have "?low = front' @ CHR '':'' # tail" "CHR '':'' \<notin> set tail"
        using last_colon_split [OF lc] by auto
      then have "?ps = split_on (CHR '':'') front' @ [tail]"
        by (simp add: split_on_append split_on_no_sep)
      then show ?thesis using front by simp
    next
      case False
      then have "front' = []" using last_colon_none [of ?low] lc by simp
      then show ?thesis using empty by simp
    qed
    ultimately show ?thesis using short by simp
  qed
qed

lemma parse_ipv6_canonical:
  assumes "parse_ipv6 s = Some a"
  shows "parse_ip (pi_address a) = Some a"
proof -
  obtain e gs where pct: "CHR ''%'' \<notin> set s" and ip: "is_ip s = 6"
    and e: "expand_dotted (js_lower s) = Some e"
    and gs: "v6_groups e = Some gs" "length gs = 8"
    and a: "a = \<lparr>pi_address = format_ipv6 gs, pi_family = IPv6,
      pi_value = foldl (\<lambda>current g. current * 2 ^ 16 + g) 0 gs\<rparr>"
    using assms by (auto simp: parse_ipv6_def split: option.splits if_splits)
  have no_zone: "takeWhile (\<lambda>c. c \<noteq> CHR ''%'') t = t" "dropWhile (\<lambda>c. c \<noteq> CHR ''%'') t = []"
    if "CHR ''%'' \<notin> set t" for t
    using that by (auto simp: takeWhile_eq_all_conv)
  have "is_ipv6 s" using ip by (auto simp: is_ip_def split: if_splits)
  then have "is_ipv6_body s" unfolding is_ipv6_def Let_def no_zone [OF pct] by simp
  then have ok: "v6_groups_ok gs" using v6_groups_from_pieces expanded_pieces e gs(1) by blast
  note fmt = format_properties [OF ok gs(2)]
  note chars = canonical_char_props [OF fmt(1)]
  have "\<not> is_ipv4 (format_ipv6 gs)" using is_ipv4_dot chars(3) by blast
  moreover have "is_ipv6 (format_ipv6 gs)"
    unfolding is_ipv6_def Let_def no_zone [OF chars(2)] using fmt(2) by simp
  ultimately have "is_ip (format_ipv6 gs) = 6" by (simp add: is_ip_def)
  then show ?thesis
    using fmt chars gs(2) by (simp add: a parse_ip_def parse_ipv4_def parse_ipv6_def expand_dotted_def)
qed

lemma parse_ip_canonical: "parse_ip s = Some a \<Longrightarrow> parse_ip (pi_address a) = Some a"
proof -
  assume "parse_ip s = Some a"
  then have "parse_ipv4 s = Some a \<or> parse_ipv6 s = Some a"
    by (auto simp: parse_ip_def split: if_splits option.splits)
  then show ?thesis using parse_ipv4_canonical parse_ipv6_canonical by blast
qed


subsection \<open>Properties\<close>


lemma sample_addresses_parse:
  "parse_ip ''8.8.8.8'' =
     Some \<lparr>pi_address = ''8.8.8.8'', pi_family = IPv4, pi_value = 134744072\<rparr>"
  "parse_ip ''2606:4700::1111'' =
     Some \<lparr>pi_address = ''2606:4700::1111'', pi_family = IPv6,
       pi_value = 50543257672059871404715951523469725969\<rparr>"
  by code_simp+

lemma sample_addresses_public:
  "public_address [] \<lparr>pi_address = ''8.8.8.8'', pi_family = IPv4, pi_value = 134744072\<rparr>"
  "public_address [] \<lparr>pi_address = ''2606:4700::1111'', pi_family = IPv6,
     pi_value = 50543257672059871404715951523469725969\<rparr>"
  by (simp_all add: public_address_def BUILT_IN_TABLE_def range_interval_def ip_bits_def)

lemma sample_classified:
  "classify_resolved_address_set (JArr [JStr ''8.8.8.8'', JStr ''2606:4700::1111'']) (JArr []) =
     Inr [(''8.8.8.8'', IPv4), (''2606:4700::1111'', IPv6)]"
  using sample_addresses_public block_reason_None [of "[]"]
  by (simp add: classify_Inr snapshot_configured_internal_cidrs_def MAX_RESOLVED_ADDRESSES_def
      MAX_CONFIGURED_INTERNAL_RANGES_def parse_address_value_def sample_addresses_parse dedupe_def)


text \<open>The text the policy returns denotes the address it checked: the canonical text of
  an accepted IPv4 or IPv6 literal, compressed or dotted forms included, parses
  again to the same family and the same numeric value, and is its own canonical
  text.\<close>

lemma canonical_address_roundtrip:
  assumes "parse_ip s = Some a"
  shows "parse_ip (pi_address a) = Some a"
  using assms by (rule parse_ip_canonical)

end
