(* ===== verification/Guest_Network.thy ===== *)
theory Guest_Network
  imports Ip_Text Digests "HOL-Library.Multiset"
begin

section \<open>The network a request comes from\<close>

text \<open>
  Models \<^verbatim>\<open>network-address.ts\<close>, \<^verbatim>\<open>trusted-ingress.ts\<close> and
  \<^verbatim>\<open>network-signal.ts\<close> of \<^verbatim>\<open>apps/api/src/guest-abuse\<close>: the address behind trusted proxies
  and the digests of its network under which the abuse counters are kept.
  \<^verbatim>\<open>formatIpv6\<close> and the rewriting of a dotted tail are the code of
  \<^verbatim>\<open>target/ip-policy.ts\<close> once more, so their definitions are those of \<open>Ip_Policy\<close>.
\<close>

subsection \<open>Addresses\<close>

record network_address =
  na_canonical :: string
  na_family :: ip_family
  na_bytes :: bytes
  na_value :: int

definition parse_network_ipv4 :: "string \<Rightarrow> network_address option" where
  "parse_network_ipv4 address =
     (if is_ip address \<noteq> 4 then None
      else let octets = map (digits_value 10) (split_on (CHR ''.'') address)
           in if length octets \<noteq> 4 then None
              else Some \<lparr>na_canonical = join_with ''.'' (map (to_digits 10) octets), na_family = IPv4,
                     na_bytes = map of_int octets,
                     na_value = foldl (\<lambda>current octet. current * 2 ^ 8 + octet) 0 octets\<rparr>)"

definition text_groups :: "string \<Rightarrow> string list option" where
  "text_groups s =
     (let halves = split_double_colon s;
          left = v6_segments (hd halves);
          right = (case halves of _ # r # _ \<Rightarrow> v6_segments r | _ \<Rightarrow> []);
          missing = 8 - int (length left) - int (length right)
      in if length halves > 2 then None
         else if (if length halves = 1 then missing \<noteq> 0 else missing < 1) then None
         else Some (left @ replicate (nat missing) ''0'' @ right))"

text \<open>\<^verbatim>\<open>/^[0-9a-f]{1,4}$/u\<close>\<close>

definition group_pattern :: "string \<Rightarrow> bool" where
  "group_pattern s \<longleftrightarrow> 1 \<le> length s \<and> length s \<le> 4 \<and> list_all is_lower_hex s"

definition mapped_prefix :: bytes where
  "mapped_prefix = [0, 0, 0, 0, 0, 0, 0, 0, 0, 0, 255, 255]"

definition parse_network_ipv6 :: "string \<Rightarrow> network_address option" where
  "parse_network_ipv6 address =
     (if CHR ''%'' \<in> set address \<or> is_ip address \<noteq> 6 then None
      else case expand_dotted (js_lower address) of
             None \<Rightarrow> None
           | Some input \<Rightarrow>
               (case text_groups input of
                  None \<Rightarrow> None
                | Some texts \<Rightarrow>
                    if length texts \<noteq> 8 \<or> \<not> list_all group_pattern texts then None
                    else let groups = map (digits_value 16) texts;
                             bs = concat (map (be_bytes 2) groups)
                         in if take 12 bs = mapped_prefix
                            then parse_network_ipv4 (join_with ''.'' (map (to_digits 10 \<circ> uint) (drop 12 bs)))
                            else Some \<lparr>na_canonical = format_ipv6 groups, na_family = IPv6, na_bytes = bs,
                                   na_value = foldl (\<lambda>current g. current * 2 ^ 16 + g) 0 groups\<rparr>))"

definition parse_network_address :: "jsval \<Rightarrow> network_address option" where
  "parse_network_address v =
     (case as_str v of
        None \<Rightarrow> None
      | Some s \<Rightarrow>
          if length s = 0 \<or> length s > 64 then None
          else (case parse_network_ipv4 s of Some a \<Rightarrow> Some a | None \<Rightarrow> parse_network_ipv6 s))"

definition parse_network_cidr :: "jsval \<Rightarrow> cidr_range option" where
  "parse_network_cidr v =
     (case as_str v of
        None \<Rightarrow> None
      | Some s \<Rightarrow>
          if length s > 80 then None
          else (case split_on (CHR ''/'') s of
                  [address_text, prefix_text] \<Rightarrow>
                    (case parse_network_address (JStr address_text) of
                       None \<Rightarrow> None
                     | Some address \<Rightarrow>
                         if \<not> prefix_pattern prefix_text then None
                         else let prefix = nat (digits_value 10 prefix_text); bits = ip_bits (na_family address)
                              in if prefix > bits then None
                                 else Some \<lparr>cr_family = na_family address,
                                        cr_network = (if bits - prefix = bits then 0
                                          else clear_host_bits (bits - prefix) (na_value address)),
                                        cr_prefix = prefix\<rparr>)
                | _ \<Rightarrow> None))"

definition network_cidr_contains :: "cidr_range \<Rightarrow> network_address \<Rightarrow> bool" where
  "network_cidr_contains r a =
     (if cr_family r \<noteq> na_family a then False
      else clear_host_bits (ip_bits (na_family a) - cr_prefix r) (na_value a) = cr_network r)"

subsection \<open>Trusted proxies\<close>

definition INGRESS_KEYS :: "string list" where
  "INGRESS_KEYS = [''socket_remote_address'', ''x_forwarded_for'', ''trusted_proxy_cidrs'']"

definition MAX_FORWARDED_HOPS :: nat where "MAX_FORWARDED_HOPS = 8"
definition MAX_FORWARDED_LENGTH :: nat where "MAX_FORWARDED_LENGTH = 512"
definition MAX_TRUSTED_PROXY_CIDRS :: nat where "MAX_TRUSTED_PROXY_CIDRS = 64"

definition parse_forwarded_for :: "jsval \<Rightarrow> network_address list option" where
  "parse_forwarded_for v =
     (case as_str v of
        None \<Rightarrow> None
      | Some s \<Rightarrow>
          if length s = 0 \<or> length s > MAX_FORWARDED_LENGTH then None
          else let parts = split_on (CHR '','') s
               in if length parts = 0 \<or> length parts > MAX_FORWARDED_HOPS then None
                  else all_some (\<lambda>part. parse_network_address (JStr (js_trim part))) parts)"

datatype ingress_source = DIRECT_SOCKET | TRUSTED_PROXY_CHAIN

text \<open>The loop from the end of the chain: on from an address while it is a trusted proxy.\<close>

fun walk_back :: "('a \<Rightarrow> bool) \<Rightarrow> 'a \<Rightarrow> 'a list \<Rightarrow> 'a" where
  "walk_back trusted selected [] = selected"
| "walk_back trusted selected (candidate # rest) =
     (if trusted selected then walk_back trusted candidate rest else selected)"

text \<open>\<open>None\<close> is \<^verbatim>\<open>INVALID_INGRESS_CONTEXT\<close>.\<close>

definition resolve_trusted_ingress_address :: "jsval \<Rightarrow> (string \<times> ingress_source) option" where
  "resolve_trusted_ingress_address v =
     do {
       require (exact_object v INGRESS_KEYS);
       peer \<leftarrow> parse_network_address (get_prop v ''socket_remote_address'');
       cidr_values \<leftarrow> as_arr (get_prop v ''trusted_proxy_cidrs'');
       require (length cidr_values \<le> MAX_TRUSTED_PROXY_CIDRS);
       cidrs \<leftarrow> all_some parse_network_cidr cidr_values;
       let trusted = (\<lambda>a. list_ex (\<lambda>r. network_cidr_contains r a) cidrs);
       if \<not> trusted peer then Some (na_canonical peer, DIRECT_SOCKET)
       else do {
         chain \<leftarrow> parse_forwarded_for (get_prop v ''x_forwarded_for'');
         let selected = walk_back trusted peer (rev chain);
         if trusted selected then None else Some (na_canonical selected, TRUSTED_PROXY_CHAIN)
       }
     }"

subsection \<open>Network signals\<close>

definition SIGNAL_DOMAIN :: bytes where
  "SIGNAL_DOMAIN = ascii_bytes ''OUTSCAN:GUEST_ABUSE_NETWORK_SIGNAL:v1'' @ [0]"

definition MAX_NETWORK_SIGNAL_KEYS :: nat where "MAX_NETWORK_SIGNAL_KEYS = 3"

definition bucket_address :: "string \<Rightarrow> (ip_family \<times> bytes) option" where
  "bucket_address address =
     (case parse_network_address (JStr address) of
        None \<Rightarrow> None
      | Some parsed \<Rightarrow>
          (case na_family parsed of
             IPv4 \<Rightarrow> Some (IPv4, na_bytes parsed)
           | IPv6 \<Rightarrow> Some (IPv6, take 8 (na_bytes parsed) @ replicate 8 0)))"

fun signal_header :: "ip_family \<Rightarrow> bytes" where
  "signal_header IPv4 = [4, 32]"
| "signal_header IPv6 = [6, 64]"

definition signal_message :: "ip_family \<times> bytes \<Rightarrow> bytes" where
  "signal_message bucket = SIGNAL_DOMAIN @ signal_header (fst bucket) @ snd bucket"

definition derive_digest :: "string \<Rightarrow> bytes \<Rightarrow> string option" where
  "derive_digest address key =
     (case bucket_address address of
        None \<Rightarrow> None
      | Some bucket \<Rightarrow>
          if length key \<noteq> 32 then None
          else Some (''hmac-sha256:'' @ to_hex (hmac_sha256 key (signal_message bucket))))"

definition derive_guest_network_signal :: "jsval \<Rightarrow> string option" where
  "derive_guest_network_signal v =
     do {
       require (exact_object v [''trusted_ingress_address'', ''hmac_key'']);
       address \<leftarrow> as_str_matching (\<lambda>s. s \<noteq> [] \<and> length s \<le> 64) (get_prop v ''trusted_ingress_address'');
       key \<leftarrow> as_bytes (get_prop v ''hmac_key'');
       derive_digest address key
     }"

text \<open>
  The \<^verbatim>\<open>Map\<close> of keys is the list of its entries, in its order.  The comparator of the sort puts the
  active version first and the others in descending order.
\<close>

definition signal_order :: "int \<Rightarrow> (int \<times> bytes) list \<Rightarrow> (int \<times> bytes) list" where
  "signal_order active entries =
     sort_key (\<lambda>(version, key). if version = active then - UINT32_MAX - 1 else - version) entries"

definition derive_guest_network_signal_keyring ::
  "jsval \<Rightarrow> (int \<times> bytes) list \<Rightarrow> int \<Rightarrow> string list option" where
  "derive_guest_network_signal_keyring address_value entries active =
     do {
       address \<leftarrow> as_str address_value;
       require (fits_u32 active);
       require (\<not> (length entries = 0 \<or> length entries > MAX_NETWORK_SIGNAL_KEYS));
       require (list_all (\<lambda>(version, key). fits_u32 version \<and> length key = 32) entries);
       require (active \<in> set (map fst entries));
       digests \<leftarrow> all_some (\<lambda>(version, key). derive_digest address key) (signal_order active entries);
       require (distinct digests);
       Some digests
     }"

subsection \<open>The chain\<close>

definition ingress_request :: "jsval \<Rightarrow> jsval \<Rightarrow> jsval \<Rightarrow> jsval" where
  "ingress_request peer header cidrs =
     JObj [(''socket_remote_address'', peer), (''x_forwarded_for'', header), (''trusted_proxy_cidrs'', cidrs)]"

lemma walk_back_find:
  "walk_back trusted x ys = (case find (\<lambda>a. \<not> trusted a) (x # ys) of Some a \<Rightarrow> a | None \<Rightarrow> last (x # ys))"
  by (induction ys arbitrary: x) (auto split: option.splits)

lemma walk_back_append:
  "\<not> trusted (walk_back trusted x ys) \<Longrightarrow> walk_back trusted x (ys @ zs) = walk_back trusted x ys"
proof (induction ys arbitrary: x)
  case Nil
  then show ?case by (cases zs) simp_all
qed auto

lemma all_some_append_eq:
  "all_some f (xs @ ys) = Option.bind (all_some f xs) (\<lambda>as. map_option (\<lambda>bs. as @ bs) (all_some f ys))"
proof (induction xs)
  case Nil
  then show ?case by (cases "all_some f ys") simp_all
next
  case (Cons x xs)
  then show ?case by (cases "f x"; cases "all_some f xs"; cases "all_some f ys") simp_all
qed

lemma forwarded_append:
  assumes "parse_forwarded_for (JStr (forged @ '','' @ h)) = Some chain"
    "parse_forwarded_for (JStr h) = Some own"
  obtains front where "chain = front @ own"
  using assms
  by (auto simp: parse_forwarded_for_def Let_def split_on_append all_some_append_eq Option.bind_eq_Some_conv
      split: if_splits)

lemma resolve_ingress_eq:
  "resolve_trusted_ingress_address (ingress_request peer header cidrs) =
     do {
       p \<leftarrow> parse_network_address peer;
       cidr_values \<leftarrow> as_arr cidrs;
       require (length cidr_values \<le> MAX_TRUSTED_PROXY_CIDRS);
       ranges \<leftarrow> all_some parse_network_cidr cidr_values;
       let trusted = (\<lambda>a. list_ex (\<lambda>r. network_cidr_contains r a) ranges);
       if \<not> trusted p then Some (na_canonical p, DIRECT_SOCKET)
       else do {
         chain \<leftarrow> parse_forwarded_for header;
         let selected = walk_back trusted p (rev chain);
         if trusted selected then None else Some (na_canonical selected, TRUSTED_PROXY_CHAIN)
       }
     }"
proof -
  have "exact_object (ingress_request peer header cidrs) INGRESS_KEYS"
    by (simp add: exact_object_def ingress_request_def INGRESS_KEYS_def)
  moreover have props: "get_prop (ingress_request peer header cidrs) ''socket_remote_address'' = peer"
    "get_prop (ingress_request peer header cidrs) ''x_forwarded_for'' = header"
    "get_prop (ingress_request peer header cidrs) ''trusted_proxy_cidrs'' = cidrs"
    by (simp_all add: ingress_request_def)
  ultimately show ?thesis unfolding resolve_trusted_ingress_address_def props by simp
qed

lemma prefix_harmless:
  assumes "resolve_trusted_ingress_address (ingress_request peer (JStr h) cidrs) = Some r"
  shows "resolve_trusted_ingress_address (ingress_request peer (JStr (forged @ '','' @ h)) cidrs) \<in> {None, Some r}"
proof -
  obtain p vs ranges where parts: "parse_network_address peer = Some p" "as_arr cidrs = Some vs"
    "length vs \<le> MAX_TRUSTED_PROXY_CIDRS" "all_some parse_network_cidr vs = Some ranges"
    using assms by (auto simp: resolve_ingress_eq Option.bind_eq_Some_conv)
  define trusted where "trusted = (\<lambda>a. list_ex (\<lambda>r. network_cidr_contains r a) ranges)"
  have result: "resolve_trusted_ingress_address (ingress_request peer x cidrs) =
      (if \<not> trusted p then Some (na_canonical p, DIRECT_SOCKET)
       else do {
         chain \<leftarrow> parse_forwarded_for x;
         let selected = walk_back trusted p (rev chain);
         if trusted selected then None else Some (na_canonical selected, TRUSTED_PROXY_CHAIN)
       })" for x
    by (simp add: resolve_ingress_eq parts trusted_def Let_def)
  show ?thesis
  proof (cases "trusted p")
    case True
    then obtain own where own: "parse_forwarded_for (JStr h) = Some own"
      "\<not> trusted (walk_back trusted p (rev own))" "r = (na_canonical (walk_back trusted p (rev own)), TRUSTED_PROXY_CHAIN)"
      using assms by (auto simp: result Option.bind_eq_Some_conv Let_def split: if_splits)
    show ?thesis
    proof (cases "parse_forwarded_for (JStr (forged @ '','' @ h))")
      case (Some chain)
      then obtain front where "chain = front @ own" by (rule forwarded_append [OF _ own(1)])
      then show ?thesis using True Some own(2,3) walk_back_append [where trusted = trusted and zs = "rev front", OF own(2)] by (simp add: result Let_def)
    qed (simp add: result True)
  qed (use assms in \<open>simp add: result\<close>)
qed

subsection \<open>Signals\<close>

lemma signal_message_inj: "signal_message b = signal_message c \<longleftrightarrow> b = c"
  by (cases b; cases c; cases "fst b"; cases "fst c") (auto simp: signal_message_def)

lemma to_hex_inj: "to_hex a = to_hex b \<Longrightarrow> a = b"
  using hex_bytes_to_hex by metis

lemma derive_digest_eq:
  "derive_digest a key = Some d \<longleftrightarrow>
     (\<exists>b. bucket_address a = Some b \<and> length key = 32 \<and>
        d = ''hmac-sha256:'' @ to_hex (hmac_sha256 key (signal_message b)))"
  by (auto simp: derive_digest_def split: option.splits)

lemma keyring_parts:
  assumes "derive_guest_network_signal_keyring (JStr a) entries active = Some ds"
  shows "all_some (\<lambda>(version, key). derive_digest a key) (signal_order active entries) = Some ds"
    "list_all (\<lambda>(version, key). fits_u32 version \<and> length key = 32) entries" "active \<in> set (map fst entries)"
    "distinct ds" "entries \<noteq> []"
  using assms by (auto simp: derive_guest_network_signal_keyring_def Option.bind_eq_Some_conv)

lemma signal_order_set [simp]: "set (signal_order active entries) = set entries"
  "length (signal_order active entries) = length entries"
  by (simp_all add: signal_order_def)

lemma all_some_eq_map: "all_some f xs = Some ys \<longleftrightarrow> map f xs = map Some ys"
proof (induction xs arbitrary: ys)
  case (Cons x xs)
  show ?case
  proof (cases ys)
    case (Cons y zs)
    then show ?thesis using Cons.IH [of zs] by (auto split: option.splits)
  qed (auto split: option.splits)
qed auto

lemma keyring_digests:
  assumes "derive_guest_network_signal_keyring (JStr a) entries active = Some ds"
  shows "bucket_address a \<noteq> None"
    "length ds = length entries"
    "i < length ds \<Longrightarrow> derive_digest a (snd (signal_order active entries ! i)) = Some (ds ! i)"
proof -
  note k = keyring_parts [OF assms]
  have m: "map (\<lambda>(version, key). derive_digest a key) (signal_order active entries) = map Some ds"
    using k(1) by (simp add: all_some_eq_map)
  show len: "length ds = length entries" using arg_cong [OF m, of length] by simp
  show i: "derive_digest a (snd (signal_order active entries ! i)) = Some (ds ! i)" if "i < length ds" for i
    using arg_cong [OF m, of "\<lambda>l. l ! i"] that len by (simp add: case_prod_beta)
  have "0 < length ds" using len k(5) by (cases entries) auto
  from i [OF this] show "bucket_address a \<noteq> None" by (auto simp: derive_digest_eq)
qed

text \<open>Counting under the digests of a network is counting under the network.\<close>

lemma same_bucket_same_signal:
  assumes "bucket_address a = bucket_address b"
  shows "derive_guest_network_signal_keyring (JStr a) entries active =
    derive_guest_network_signal_keyring (JStr b) entries active"
proof -
  have "derive_digest a = derive_digest b" by (rule ext) (simp add: derive_digest_def assms)
  then show ?thesis by (simp add: derive_guest_network_signal_keyring_def)
qed

lemma same_signal_same_bucket:
  assumes "derive_guest_network_signal_keyring (JStr a) entries active = Some ds"
    and "derive_guest_network_signal_keyring (JStr b) entries active = Some es"
    and "i < length ds" "ds ! i = es ! i"
  obtains "bucket_address a = bucket_address b"
  | key v ba bb where "(v, key) \<in> set entries" "bucket_address a = Some ba" "bucket_address b = Some bb"
    "signal_message ba \<noteq> signal_message bb"
    "hmac_sha256 key (signal_message ba) = hmac_sha256 key (signal_message bb)"
proof -
  note da = keyring_digests [OF assms(1)] and db = keyring_digests [OF assms(2)]
  let ?e = "signal_order active entries ! i"
  have i: "i < length es" using assms(3) da(2) db(2) by simp
  obtain ba bb where b: "bucket_address a = Some ba" "bucket_address b = Some bb"
    and d: "ds ! i = ''hmac-sha256:'' @ to_hex (hmac_sha256 (snd ?e) (signal_message ba))"
    "es ! i = ''hmac-sha256:'' @ to_hex (hmac_sha256 (snd ?e) (signal_message bb))"
    using da(3) [OF assms(3)] db(3) [OF i] by (auto simp: derive_digest_eq)
  have mac: "hmac_sha256 (snd ?e) (signal_message ba) = hmac_sha256 (snd ?e) (signal_message bb)"
    using assms(4) d to_hex_inj by simp
  have e: "(fst ?e, snd ?e) \<in> set entries"
    using nth_mem [of i "signal_order active entries"] assms(3) da(2) by simp
  show ?thesis
  proof (cases "ba = bb")
    case False
    then have "signal_message ba \<noteq> signal_message bb" by (simp add: signal_message_inj)
    with mac e b show ?thesis by (intro that(2))
  qed (use b that(1) in simp)
qed

lemma signal_order_perm:
  assumes "mset entries = mset entries'" "distinct (map fst entries)"
    and "list_all (\<lambda>(version, key). fits_u32 version) entries"
  shows "signal_order active entries = signal_order active entries'"
proof -
  let ?f = "\<lambda>(version, key :: bytes). if version = active then - UINT32_MAX - 1 else - version"
  have inj: "inj_on ?f (set entries)"
  proof (rule inj_onI)
    fix x y assume xy: "x \<in> set entries" "y \<in> set entries" "?f x = ?f y"
    have "fits_u32 (fst x)" "fits_u32 (fst y)"
      using xy assms(3) by (auto simp: list_all_iff case_prod_beta)
    then have "fst x = fst y" using xy(3) by (auto simp: fits_u32_def case_prod_beta split: if_splits)
    then show "x = y" using assms(2) xy(1,2) by (cases x; cases y) (auto dest: eq_key_imp_eq_value)
  qed
  have "sort_key ?f entries = sort_key ?f entries'"
    by (rule sort_key_inj_key_eq) (simp_all add: assms(1) inj)
  then show ?thesis by (simp add: signal_order_def)
qed

subsection \<open>Properties\<close>

text \<open>C13: a client cannot choose the address it is counted under: whatever it writes before the part of
  \<^verbatim>\<open>X-Forwarded-For\<close> that the trusted proxies append, the request is rejected or counted under
  the same address as without it.\<close>

theorem forwarded_prefix_cannot_spoof:
  assumes "resolve_trusted_ingress_address (ingress_request peer (JStr h) cidrs) = Some r"
  shows "resolve_trusted_ingress_address (ingress_request peer (JStr (forged @ '','' @ h)) cidrs) \<in> {None, Some r}"
  using assms by (rule prefix_harmless)

theorem forwarded_prefix_cannot_spoof_witness:
  "resolve_trusted_ingress_address
     (ingress_request (JStr ''10.0.0.2'') (JStr ''198.51.100.7, 10.0.0.9'') (JArr [JStr ''10.0.0.0/8''])) =
     Some (''198.51.100.7'', TRUSTED_PROXY_CHAIN) \<and>
   resolve_trusted_ingress_address
     (ingress_request (JStr ''10.0.0.2'') (JStr (''8.8.8.8'' @ '','' @ ''198.51.100.7, 10.0.0.9'')) (JArr [JStr ''10.0.0.0/8'']))
     \<in> {None, Some (''198.51.100.7'', TRUSTED_PROXY_CHAIN)}"
proof -
  have "resolve_trusted_ingress_address
     (ingress_request (JStr ''10.0.0.2'') (JStr ''198.51.100.7, 10.0.0.9'') (JArr [JStr ''10.0.0.0/8''])) =
     Some (''198.51.100.7'', TRUSTED_PROXY_CHAIN)" by code_simp
  from forwarded_prefix_cannot_spoof [OF this, of "''8.8.8.8''"] this show ?thesis by blast
qed

text \<open>Counting under the digests of the signal is counting under the network: two addresses get the
  same digests, in the same order, whenever they are the same IPv4 address or in the
  same IPv6 network of 64 bits, however they are written; and if they agree in any one digest, they
  are, unless their messages are a collision of HMAC-SHA-256.  The order in which the keys
  were added to the ring does not matter.\<close>

lemma network_signal_is_bucket:
  assumes "derive_guest_network_signal_keyring (JStr a) entries active = Some ds"
    and "derive_guest_network_signal_keyring (JStr b) entries' active = Some es"
    and "mset entries = mset entries'" "distinct (map fst entries)"
  shows "(bucket_address a = bucket_address b \<longrightarrow> ds = es) \<and>
    (\<forall>i < length ds. ds ! i = es ! i \<longrightarrow> bucket_address a = bucket_address b \<or>
       (\<exists>key m n. key \<in> snd ` set entries \<and> m \<noteq> n \<and> hmac_sha256 key m = hmac_sha256 key n))"
proof -
  have "list_all (\<lambda>(version, key). fits_u32 version) entries"
    using keyring_parts(2) [OF assms(1)] by (auto simp: list_all_iff)
  with assms(3,4) have "signal_order active entries = signal_order active entries'" by (intro signal_order_perm)
  moreover have "set entries = set entries'" "length entries = length entries'"
    using assms(3) by (auto dest: mset_eq_setD mset_eq_length)
  ultimately have es: "derive_guest_network_signal_keyring (JStr b) entries active = Some es"
    using assms(2) by (auto simp: derive_guest_network_signal_keyring_def list_all_iff)
  have "bucket_address a = bucket_address b \<or>
      (\<exists>key m n. key \<in> snd ` set entries \<and> m \<noteq> n \<and> hmac_sha256 key m = hmac_sha256 key n)"
    if "i < length ds" "ds ! i = es ! i" for i
    using same_signal_same_bucket [OF assms(1) es that] by (metis image_eqI snd_conv)
  with same_bucket_same_signal [of a b entries active] assms(1) es show ?thesis by auto
qed

end
