(* ===== verification/Guest_Creation.thy ===== *)
theory Guest_Creation
  imports Guest_Session Guest_Network Guest_Store Iso_Date
begin

section \<open>The creation service\<close>

text \<open>
  Models \<^verbatim>\<open>apps/api/src/guest-scan/create.ts\<close> and \<^verbatim>\<open>request-hash.ts\<close>, and the key ring check and
  the bootstrap of \<^verbatim>\<open>guest-session/bootstrap.ts\<close>.  What the key provider, the revocation
  check, the clock and the queue answer are arguments, \<open>None\<close> when they throw; the persistence is a
  function on a state, and \<open>postgres_persistence\<close> is the one of the database.
\<close>

subsection \<open>Session keys\<close>

text \<open>
  The answer of the key provider: the active version and the entries of the \<^verbatim>\<open>Map\<close>.  An answer
  that is not such an object is \<open>None\<close> where it is used.
\<close>

record raw_key_state =
  rk_active :: jsval
  rk_keys :: "(jsval \<times> jsval) list"

definition snapshot_guest_session_key_state :: "raw_key_state \<Rightarrow> (int \<times> (int \<times> bytes) list) option" where
  "snapshot_guest_session_key_state raw =
     do {
       active \<leftarrow> as_bounded 0 UINT32_MAX (rk_active raw);
       require (1 \<le> length (rk_keys raw) \<and> length (rk_keys raw) \<le> 3);
       keys \<leftarrow> all_some (\<lambda>(version_value, key_value).
           do {
             version \<leftarrow> as_bounded 0 UINT32_MAX version_value;
             key \<leftarrow> as_bytes key_value;
             require (length key = 32);
             Some (version, key)
           }) (rk_keys raw);
       require (distinct (map fst keys));
       require (active \<in> set (map fst keys));
       Some (active, keys)
     }"

datatype bootstrap_decision =
    SESSION_REUSED
  | SESSION_ISSUED string
  | SESSION_UNAVAILABLE

definition bootstrap_guest_session ::
  "jsval \<Rightarrow> raw_key_state option \<Rightarrow> (string \<Rightarrow> jsval option) \<Rightarrow> bytes \<Rightarrow> bootstrap_decision" where
  "bootstrap_guest_session request keys is_revoked session_id =
     (if \<not> exact_object request [''cookie_header''] then SESSION_UNAVAILABLE
      else let cookie = get_prop request ''cookie_header''
           in if cookie \<noteq> JUndef \<and> as_str cookie = None then SESSION_UNAVAILABLE
              else case Option.bind keys snapshot_guest_session_key_state of
                None \<Rightarrow> SESSION_UNAVAILABLE
              | Some (active, ring) \<Rightarrow>
                  let issue =
                    (case map_of ring active of
                       None \<Rightarrow> SESSION_UNAVAILABLE
                     | Some key \<Rightarrow>
                         (case issue_guest_session_cookie_header active key session_id of
                            None \<Rightarrow> SESSION_UNAVAILABLE | Some h \<Rightarrow> SESSION_ISSUED h))
                  in (case authenticate_guest_session_cookie_header cookie (map_of ring) (\<lambda>_. Some False) of
                        Inl _ \<Rightarrow> issue
                      | Inr (_, scope) \<Rightarrow>
                          (case is_revoked scope of
                             Some (JBool revoked) \<Rightarrow> if revoked then issue else SESSION_REUSED
                           | _ \<Rightarrow> SESSION_UNAVAILABLE)))"

subsection \<open>Requests\<close>

definition CREATION_REQUEST_KEYS :: "string list" where
  "CREATION_REQUEST_KEYS = [''body'', ''cookie_header'', ''idempotency_key_header'',
     ''socket_remote_address'', ''x_forwarded_for'']"

record creation_request =
  cq_domain :: jsval
  cq_cookie_header :: jsval
  cq_idempotency_key :: string
  cq_socket_remote_address :: jsval
  cq_x_forwarded_for :: jsval

definition read_creation_request :: "jsval \<Rightarrow> creation_request option" where
  "read_creation_request v =
     do {
       require (exact_object v CREATION_REQUEST_KEYS);
       require (exact_object (get_prop v ''body'') [''domain'']);
       key \<leftarrow> as_str_matching idempotency_key_pattern (get_prop v ''idempotency_key_header'');
       Some \<lparr>cq_domain = get_prop (get_prop v ''body'') ''domain'',
         cq_cookie_header = get_prop v ''cookie_header'', cq_idempotency_key = key,
         cq_socket_remote_address = get_prop v ''socket_remote_address'',
         cq_x_forwarded_for = get_prop v ''x_forwarded_for''\<rparr>
     }"

definition REQUEST_HASH_DOMAIN :: bytes where
  "REQUEST_HASH_DOMAIN = ascii_bytes ''OUTSCAN:GUEST_SCAN_REQUEST:v1'' @ [0]"

definition derive_guest_scan_request_hash :: "(string \<Rightarrow> string) \<Rightarrow> jsval \<Rightarrow> string option" where
  "derive_guest_scan_request_hash to_ascii v =
     (case canonicalize_hostname to_ascii v of
        Inl _ \<Rightarrow> None
      | Inr host \<Rightarrow>
          if v \<noteq> JStr host then None
          else map_option (\<lambda>encoded. sha256_text (sha256 (REQUEST_HASH_DOMAIN @ encoded)))
                 (length_prefix (ascii_bytes host)))"

subsection \<open>Dependencies\<close>

record creation_dependencies =
  nd_trusted_proxy_cidrs :: "jsval list"
  nd_network_keyring :: "(int \<times> bytes) list"
  nd_active_network_key_version :: int

text \<open>The factory throws otherwise.\<close>

definition valid_creation_dependencies :: "creation_dependencies \<Rightarrow> bool" where
  "valid_creation_dependencies d \<longleftrightarrow>
     length (nd_trusted_proxy_cidrs d) \<le> 64 \<and>
     1 \<le> length (nd_network_keyring d) \<and> length (nd_network_keyring d) \<le> 3 \<and>
     fits_u32 (nd_active_network_key_version d) \<and>
     list_all (\<lambda>(version, key). fits_u32 version \<and> length key = 32) (nd_network_keyring d) \<and>
     nd_active_network_key_version d \<in> set (map fst (nd_network_keyring d))"

record creation_answers =
  na_session_keys :: "raw_key_state option"
  na_revoked :: "string \<Rightarrow> jsval option"
  na_now :: "jsval option"
  na_queued :: "string \<Rightarrow> jsval option"

subsection \<open>Answers\<close>

datatype creation_error =
    INVALID_SCAN_REQUEST
  | GUEST_SESSION_REQUIRED
  | GUEST_SESSION_INVALID
  | KEY_REUSED
  | GUEST_SCAN_LIMIT_EXCEEDED
  | GUEST_SCANNING_UNAVAILABLE
  | GUEST_SCAN_UNAVAILABLE

text \<open>
  The status code, the error and \<^verbatim>\<open>retry-after\<close>; or the fields of the success.  The headers
  \<^verbatim>\<open>BASE_HEADERS\<close> and the member \<^verbatim>\<open>status\<close> of the body are constants and left out.
\<close>

datatype creation_result =
    CREATION_FAILED int creation_error "int option"
  | SCAN_CREATED int string string string int

abbreviation unavailable :: creation_result where
  "unavailable \<equiv> CREATION_FAILED 503 GUEST_SCAN_UNAVAILABLE None"

abbreviation invalid_request :: creation_result where
  "invalid_request \<equiv> CREATION_FAILED 400 INVALID_SCAN_REQUEST None"

definition MAX_RETRY_AFTER_SECONDS :: int where "MAX_RETRY_AFTER_SECONDS = 86400"

definition PUBLIC_LIMIT_CODES :: "string list" where
  "PUBLIC_LIMIT_CODES = [''SESSION_CONCURRENCY_LIMIT'', ''SESSION_BURST_LIMIT'', ''SESSION_DAILY_LIMIT'',
     ''NETWORK_CONCURRENCY_LIMIT'', ''NETWORK_BURST_LIMIT'', ''NETWORK_DAILY_LIMIT'']"

definition SUCCESS_KEYS :: "string list" where
  "SUCCESS_KEYS = [''ok'', ''action'', ''guest_scan_id'', ''result_token'',
     ''result_access_expires_at_unix_seconds'', ''result_token_expires_in_seconds'']"

record persisted =
  ps_action :: string
  ps_guest_scan_id :: string
  ps_result_token :: string
  ps_expires_at :: int
  ps_expires_in :: int

definition persisted_success :: "jsval \<Rightarrow> int \<Rightarrow> persisted option" where
  "persisted_success v now =
     do {
       require (exact_object v SUCCESS_KEYS);
       require (get_prop v ''ok'' = JBool True);
       action \<leftarrow> as_str_matching (\<lambda>s. s \<in> {''CREATE'', ''REPLACE_EXPIRED'', ''REPLAY''}) (get_prop v ''action'');
       sid \<leftarrow> as_str_matching id_pattern (get_prop v ''guest_scan_id'');
       token \<leftarrow> as_str_matching token_text (get_prop v ''result_token'');
       expires_at \<leftarrow> as_big (get_prop v ''result_access_expires_at_unix_seconds'');
       require (\<not> (expires_at \<le> now \<or> expires_at > MAX_POSTGRES_UNIX_SECONDS));
       expires_in \<leftarrow> as_bounded 1 1800 (get_prop v ''result_token_expires_in_seconds'');
       require (expires_at - now = expires_in);
       Some \<lparr>ps_action = action, ps_guest_scan_id = sid, ps_result_token = token,
         ps_expires_at = expires_at, ps_expires_in = expires_in\<rparr>
     }"

fun own_members :: "jsval \<Rightarrow> string list" where
  "own_members (JObj kvs) = map fst kvs"
| "own_members _ = []"

definition map_persistence_failure :: "jsval \<Rightarrow> creation_result" where
  "map_persistence_failure v =
     (let members = own_members v; code = get_prop v ''code''; abuse_code = get_prop v ''abuse_code''
      in if get_prop v ''ok'' \<noteq> JBool False \<or> ''ok'' \<notin> set members \<or> ''code'' \<notin> set members
         then unavailable
         else if code = JStr ''IDEMPOTENCY_KEY_REUSED'' \<and> length members = 2
         then CREATION_FAILED 409 KEY_REUSED None
         else if code \<noteq> JStr ''ABUSE_LIMIT_EXCEEDED'' then unavailable
         else if ''abuse_code'' \<notin> set members \<or> length members < 3 \<or> length members > 4 \<or>
           (length members = 4 \<and> ''retry_after_seconds'' \<notin> set members)
         then unavailable
         else if abuse_code = JStr ''GUEST_SCANNING_PAUSED''
         then CREATION_FAILED 503 GUEST_SCANNING_UNAVAILABLE None
         else if abuse_code \<notin> JStr ` set PUBLIC_LIMIT_CODES then unavailable
         else CREATION_FAILED 429 GUEST_SCAN_LIMIT_EXCEEDED
           (as_bounded 1 MAX_RETRY_AFTER_SECONDS (get_prop v ''retry_after_seconds'')))"

definition matches_queued_scan :: "jsval \<Rightarrow> string \<Rightarrow> bool" where
  "matches_queued_scan v sid \<longleftrightarrow>
     exact_object v [''schema_version'', ''guest_scan_id''] \<and>
     get_prop v ''schema_version'' = JNum 1 \<and> get_prop v ''guest_scan_id'' = JStr sid"

subsection \<open>The service\<close>

definition persistence_request ::
  "string \<Rightarrow> string \<Rightarrow> string \<Rightarrow> string \<Rightarrow> string list \<Rightarrow> int \<Rightarrow> jsval" where
  "persistence_request scope key request_hash host digests now = JObj
     [(''guest_session_scope'', JStr scope), (''idempotency_key'', JStr key),
      (''request_hash'', JStr request_hash), (''canonical_target'', JStr host),
      (''network_signal_digests'', JArr (map JStr digests)), (''trusted_now_unix_seconds'', JBig now)]"

text \<open>All that happens before the persistence is called: a failure, or the time and the request.\<close>

definition prepare_creation ::
  "(string \<Rightarrow> string) \<Rightarrow> creation_dependencies \<Rightarrow> creation_answers \<Rightarrow> jsval \<Rightarrow>
   creation_result + int \<times> jsval" where
  "prepare_creation to_ascii d a v =
     (case read_creation_request v of
        None \<Rightarrow> Inl invalid_request
      | Some q \<Rightarrow>
          (case canonicalize_hostname to_ascii (cq_domain q) of
             Inl _ \<Rightarrow> Inl invalid_request
           | Inr host \<Rightarrow>
               (case Option.bind (na_session_keys a) snapshot_guest_session_key_state of
                  None \<Rightarrow> Inl unavailable
                | Some (_, keys) \<Rightarrow>
                    (case authenticate_guest_session_cookie_header (cq_cookie_header q) (map_of keys)
                            (\<lambda>_. Some False) of
                       Inl code \<Rightarrow> Inl (CREATION_FAILED 401
                         (if code = MISSING_GUEST_SESSION then GUEST_SESSION_REQUIRED
                          else GUEST_SESSION_INVALID) None)
                     | Inr (_, scope) \<Rightarrow>
                         (case Option.bind (na_revoked a scope) as_bool of
                            None \<Rightarrow> Inl unavailable
                          | Some True \<Rightarrow> Inl (CREATION_FAILED 401 GUEST_SESSION_INVALID None)
                          | Some False \<Rightarrow>
                              (case resolve_trusted_ingress_address (ingress_request
                                      (cq_socket_remote_address q) (cq_x_forwarded_for q)
                                      (JArr (nd_trusted_proxy_cidrs d))) of
                                 None \<Rightarrow> Inl invalid_request
                               | Some (address, _) \<Rightarrow>
                                   (case (derive_guest_network_signal_keyring (JStr address)
                                            (nd_network_keyring d) (nd_active_network_key_version d),
                                          derive_guest_scan_request_hash to_ascii (JStr host),
                                          Option.bind (na_now a)
                                            (as_bounded 0 (MAX_POSTGRES_UNIX_SECONDS - 86400))) of
                                      (Some digests, Some request_hash, Some now) \<Rightarrow>
                                        Inr (now, persistence_request scope (cq_idempotency_key q) request_hash
                                          host digests now)
                                    | _ \<Rightarrow> Inl unavailable)))))))"

definition finish_creation :: "creation_answers \<Rightarrow> int \<Rightarrow> jsval \<Rightarrow> creation_result" where
  "finish_creation a now stored =
     (case persisted_success stored now of
        None \<Rightarrow> map_persistence_failure stored
      | Some p \<Rightarrow>
          (case na_queued a (ps_guest_scan_id p) of
             None \<Rightarrow> unavailable
           | Some queued \<Rightarrow>
               if \<not> matches_queued_scan queued (ps_guest_scan_id p) then unavailable
               else SCAN_CREATED (if ps_action p = ''REPLAY'' then 200 else 202)
                 (ps_guest_scan_id p) (ps_result_token p) (iso_date (ps_expires_at p)) (ps_expires_in p)))"

definition create_guest_scan ::
  "(string \<Rightarrow> string) \<Rightarrow> creation_dependencies \<Rightarrow> creation_answers \<Rightarrow>
   (jsval \<Rightarrow> 'db \<Rightarrow> jsval option \<times> 'db) \<Rightarrow> jsval \<Rightarrow> 'db \<Rightarrow> creation_result \<times> 'db" where
  "create_guest_scan to_ascii d a persist v db =
     (case prepare_creation to_ascii d a v of
        Inl failure \<Rightarrow> (failure, db)
      | Inr (now, request) \<Rightarrow>
          (case persist request db of
             (None, db') \<Rightarrow> (unavailable, db')
           | (Some stored, db') \<Rightarrow> (finish_creation a now stored, db')))"

subsection \<open>The persistence of the database\<close>

fun action_text :: "persist_action \<Rightarrow> string" where
  "action_text PA_CREATE = ''CREATE''"
| "action_text PA_REPLACE_EXPIRED = ''REPLACE_EXPIRED''"
| "action_text PA_REPLAY = ''REPLAY''"

fun failure_text :: "persist_fail_code \<Rightarrow> string" where
  "failure_text (PF_IDEMPOTENCY IDEM_INVALID_REQUEST) = ''INVALID_REQUEST''"
| "failure_text (PF_IDEMPOTENCY IDEM_INVALID_RECORD) = ''INVALID_RECORD''"
| "failure_text (PF_IDEMPOTENCY IDEMPOTENCY_KEY_REUSED) = ''IDEMPOTENCY_KEY_REUSED''"
| "failure_text (PF_IDEMPOTENCY RESULT_ACCESS_REVOKED) = ''RESULT_ACCESS_REVOKED''"
| "failure_text (PF_IDEMPOTENCY RESULT_TOKEN_UNAVAILABLE) = ''RESULT_TOKEN_UNAVAILABLE''"
| "failure_text PF_PERSISTENCE_UNAVAILABLE = ''GUEST_PERSISTENCE_UNAVAILABLE''"

fun abuse_text :: "abuse_deny_code \<Rightarrow> string" where
  "abuse_text GUEST_SCANNING_PAUSED = ''GUEST_SCANNING_PAUSED''"
| "abuse_text SESSION_CONCURRENCY_DENIED = ''SESSION_CONCURRENCY_LIMIT''"
| "abuse_text SESSION_BURST_DENIED = ''SESSION_BURST_LIMIT''"
| "abuse_text SESSION_DAILY_DENIED = ''SESSION_DAILY_LIMIT''"
| "abuse_text NETWORK_CONCURRENCY_DENIED = ''NETWORK_CONCURRENCY_LIMIT''"
| "abuse_text NETWORK_BURST_DENIED = ''NETWORK_BURST_LIMIT''"
| "abuse_text NETWORK_DAILY_DENIED = ''NETWORK_DAILY_LIMIT''"

fun persist_value :: "persist_result \<Rightarrow> jsval" where
  "persist_value (PERSISTED action sid token expires_at expires_in) = JObj
     [(''ok'', JBool True), (''action'', JStr (action_text action)), (''guest_scan_id'', JStr sid),
      (''result_token'', JStr token), (''result_access_expires_at_unix_seconds'', JBig expires_at),
      (''result_token_expires_in_seconds'', JNum expires_in)]"
| "persist_value (PERSIST_FAILED code) = JObj [(''ok'', JBool False), (''code'', JStr (failure_text code))]"
| "persist_value (ABUSE_LIMIT_EXCEEDED code wait) = JObj
     ([(''ok'', JBool False), (''code'', JStr ''ABUSE_LIMIT_EXCEEDED''), (''abuse_code'', JStr (abuse_text code))] @
      (case wait of None \<Rightarrow> [] | Some n \<Rightarrow> [(''retry_after_seconds'', JNum n)]))"

definition postgres_persistence ::
  "(string \<Rightarrow> string) \<Rightarrow> try_outcome list \<Rightarrow> persistence_context \<Rightarrow> jsval \<Rightarrow> guest_db \<Rightarrow>
   jsval option \<times> guest_db" where
  "postgres_persistence to_ascii tries c v db =
     (case create_or_replay to_ascii tries c v db of (result, db') \<Rightarrow> (Some (persist_value result), db'))"

end
