(* ===== verification/First_Creation.thy ===== *)
theory First_Creation
  imports Guest_Creation Guest_Progress
begin

section \<open>A first creation\<close>

text \<open>
  The first creation in the migrated database, for every session, request and network digest: the
  witnesses of the creation service run on it.
\<close>

lemma derived_token_text: "derive_guest_result_token m key = Some token \<Longrightarrow> token_text token"
  using encode_base64url_alphabet(1)
  by (auto simp: derive_token_eq token_text_def length_encode_base64url split: if_splits)

lemma first_counters:
  assumes "length S = 32" "length N = 32" "db_windows db = []" "db_active db = []"
  obtains db' where "load_abuse_counter_state S [N] 1000 db = Some (\<lparr>
      cs_active = [NETWORK_ACTIVE \<mapsto> 0, SESSION_ACTIVE \<mapsto> 0], cs_increment_active = active_specs S N,
      cs_increment_windows = window_specs S N,
      cs_windows = [NETWORK_BURST \<mapsto> \<lparr>wu_count = 0, wu_reset_at = 1600\<rparr>,
        NETWORK_DAILY \<mapsto> \<lparr>wu_count = 0, wu_reset_at = 87400\<rparr>,
        SESSION_BURST \<mapsto> \<lparr>wu_count = 0, wu_reset_at = 1600\<rparr>,
        SESSION_DAILY \<mapsto> \<lparr>wu_count = 0, wu_reset_at = 87400\<rparr>]\<rparr>, db')"
    "db' = db\<lparr>db_windows :=
       [((NETWORK_BURST, N), \<lparr>wr_usage_count = 0, wr_reset_at = 1600, wr_updated_at = 1000\<rparr>),
        ((NETWORK_DAILY, N), \<lparr>wr_usage_count = 0, wr_reset_at = 87400, wr_updated_at = 1000\<rparr>),
        ((SESSION_BURST, S), \<lparr>wr_usage_count = 0, wr_reset_at = 1600, wr_updated_at = 1000\<rparr>),
        ((SESSION_DAILY, S), \<lparr>wr_usage_count = 0, wr_reset_at = 87400, wr_updated_at = 1000\<rparr>)],
      db_active := [((NETWORK_ACTIVE, N), \<lparr>ac_count = 0, ac_updated_at = 1000\<rparr>),
        ((SESSION_ACTIVE, S), \<lparr>ac_count = 0, ac_updated_at = 1000\<rparr>)]\<rparr>"
  using assms
  by (simp add: load_abuse_counter_state_def Let_def window_specs_def active_specs_def insert_current_rows_def
      insert_window_def insert_active_def window_checks_def active_checks_def is_burst_def abuse_policy
      load_windows_def load_active_def rows_where_def is_session_window_def expected_window_seconds_def
      require_def)


lemma first_decision:
  assumes "sha256_pattern scope" "hmac_sha256_pattern d"
  shows "decide_guest_abuse_admission (admission_object \<lparr>aq_session_scope = scope, aq_network_digest = d,
      aq_now = 1000, aq_service_state = SERVICE_OPEN,
      aq_usage = \<lparr>us_session_burst = \<lparr>wu_count = 0, wu_reset_at = 1600\<rparr>,
        us_session_daily = \<lparr>wu_count = 0, wu_reset_at = 87400\<rparr>,
        us_network_burst = \<lparr>wu_count = 0, wu_reset_at = 1600\<rparr>,
        us_network_daily = \<lparr>wu_count = 0, wu_reset_at = 87400\<rparr>,
        us_session_active = 0, us_network_active = 0\<rparr>\<rparr>) = ALLOW_NEW_SCAN scope d 1000"
  using assms
  by (simp add: decide_guest_abuse_admission_def snapshot_abuse_request_def admission_object_def
      exact_record_def has_exact_keys_def ABUSE_REQUEST_KEYS_def USAGE_KEYS_def usage_object_def
      read_usage_snapshot_def read_service_state_def service_state_text_def read_window_object
      valid_window_def as_counter_def as_bounded_def safe_int_def MAX_SAFE_INTEGER_def as_str_matching_def
      UINT64_MAX_def require_def admit_def Let_def abuse_policy)

lemma first_reservation:
  assumes "sha256_pattern scope" "hmac_sha256_pattern d"
    and "db_windows db = []" "db_active db = []" "db_reservations db = []" "db_service_state db = SERVICE_OPEN"
  obtains db' where "reserve_guest_abuse_counters sid scope [d] 1000 db = Some (ALLOW_NEW_SCAN scope d 1000, db')"
    "db_scans db' = db_scans db" "db_attempts db' = db_attempts db" "db_results db' = db_results db"
    "map_of (db_reservations db') sid = Some \<lparr>rv_session_scope = digest_bytes ''sha256:'' scope,
      rv_network_digest = digest_bytes ''hmac-sha256:'' d, rv_reserved_at = 1000,
      rv_deletion_deadline = 1000 + SCAN_RETENTION_SECONDS, rv_released_at = None, rv_release_reason = None\<rparr>"
proof -
  have len: "length (digest_bytes ''sha256:'' scope) = 32" "length (digest_bytes ''hmac-sha256:'' d) = 32"
    using assms(1,2) by (simp_all add: digest_bytes_def length_hex_bytes hex64_pattern_def)
  obtain db1 where load: "load_abuse_counter_state (digest_bytes ''sha256:'' scope) [digest_bytes ''hmac-sha256:'' d]
      1000 db = Some (\<lparr>
      cs_active = [NETWORK_ACTIVE \<mapsto> 0, SESSION_ACTIVE \<mapsto> 0],
      cs_increment_active = active_specs (digest_bytes ''sha256:'' scope) (digest_bytes ''hmac-sha256:'' d),
      cs_increment_windows = window_specs (digest_bytes ''sha256:'' scope) (digest_bytes ''hmac-sha256:'' d),
      cs_windows = [NETWORK_BURST \<mapsto> \<lparr>wu_count = 0, wu_reset_at = 1600\<rparr>,
        NETWORK_DAILY \<mapsto> \<lparr>wu_count = 0, wu_reset_at = 87400\<rparr>,
        SESSION_BURST \<mapsto> \<lparr>wu_count = 0, wu_reset_at = 1600\<rparr>,
        SESSION_DAILY \<mapsto> \<lparr>wu_count = 0, wu_reset_at = 87400\<rparr>]\<rparr>, db1)"
    and db1: "db1 = db\<lparr>db_windows :=
       [((NETWORK_BURST, digest_bytes ''hmac-sha256:'' d), \<lparr>wr_usage_count = 0, wr_reset_at = 1600, wr_updated_at = 1000\<rparr>),
        ((NETWORK_DAILY, digest_bytes ''hmac-sha256:'' d), \<lparr>wr_usage_count = 0, wr_reset_at = 87400, wr_updated_at = 1000\<rparr>),
        ((SESSION_BURST, digest_bytes ''sha256:'' scope), \<lparr>wr_usage_count = 0, wr_reset_at = 1600, wr_updated_at = 1000\<rparr>),
        ((SESSION_DAILY, digest_bytes ''sha256:'' scope), \<lparr>wr_usage_count = 0, wr_reset_at = 87400, wr_updated_at = 1000\<rparr>)],
      db_active := [((NETWORK_ACTIVE, digest_bytes ''hmac-sha256:'' d), \<lparr>ac_count = 0, ac_updated_at = 1000\<rparr>),
        ((SESSION_ACTIVE, digest_bytes ''sha256:'' scope), \<lparr>ac_count = 0, ac_updated_at = 1000\<rparr>)]\<rparr>"
    using first_counters [OF len assms(3,4)] by metis
  have state: "db_service_state db1 = SERVICE_OPEN" using assms(6) by (simp add: db1)
  obtain db2 where inc: "run_each (increment_window 1000)
      (window_specs (digest_bytes ''sha256:'' scope) (digest_bytes ''hmac-sha256:'' d)) db1 = Some db2"
    and db2: "db_active db2 = db_active db1" "db_reservations db2 = []" "db_scans db2 = db_scans db"
      "db_attempts db2 = db_attempts db" "db_results db2 = db_results db"
    using len assms(5)
    by (simp add: db1 window_specs_def increment_window_def Let_def window_checks_def is_burst_def abuse_policy)
  obtain db3 where act: "run_each (increment_active 1000)
      (active_specs (digest_bytes ''sha256:'' scope) (digest_bytes ''hmac-sha256:'' d)) db2 = Some db3"
    and db3: "db_reservations db3 = []" "db_scans db3 = db_scans db"
      "db_attempts db3 = db_attempts db" "db_results db3 = db_results db"
    using len db2
    by (simp add: db1 active_specs_def increment_active_def Let_def active_checks_def abuse_policy)
  show ?thesis
    by (rule that [of "db3\<lparr>db_reservations := [(sid, \<lparr>rv_session_scope = digest_bytes ''sha256:'' scope,
        rv_network_digest = digest_bytes ''hmac-sha256:'' d, rv_reserved_at = 1000,
        rv_deletion_deadline = 1000 + SCAN_RETENTION_SECONDS, rv_released_at = None,
        rv_release_reason = None\<rparr>)]\<rparr>"])
      (simp_all add: opt_all_def reserve_guest_abuse_counters_def Let_def load state first_decision [OF assms(1,2)] inc act
        insert_reservation_def reservation_checks_def len db3)
qed


lemma first_persist:
  assumes "snapshot_persist_request (\<lambda>s. s) req = Some q"
    and q: "q = \<lparr>pq_session_scope = scope, pq_idempotency_key = ''key-1'', pq_request_hash = hash,
      pq_canonical_target = ''example.com'', pq_network_digests = [d], pq_now = 1000\<rparr>"
    and "sha256_pattern scope" "sha256_pattern hash" "hmac_sha256_pattern d"
  obtains token db' where "create_or_replay (\<lambda>s. s) [RUNS] run_context req migrated_db =
      (PERSISTED PA_CREATE ''scan-1'' token 2800 1800, db')"
    "map_of (db_scans db') ''scan-1'' \<noteq> None" "token_text token"
proof -
  obtain token where token: "token_material run_context ''scan-1'' 2800 = Some (token, replicate 32 9)"
    by (rule run_token)
  let ?r = "\<lparr>iq_session_scope = scope, iq_key = ''key-1'', iq_request_hash = hash, iq_now = 1000\<rparr>"
  have key: "idempotency_key_pattern ''key-1''" by code_simp
  have "parse_idempotency_request (request_object ?r) = Some ?r"
    by (rule parse_request_object) (use assms(3,4) key in \<open>simp add: valid_request_def is_u64_def UINT64_MAX_def\<close>)
  then obtain l h e where d: "decide_guest_scan_idempotency (request_object ?r) JNull (pc_keyring run_context) =
      IDEM_CREATE l h e"
    by (simp add: decide_guest_scan_idempotency_def create_decision_def Let_def UINT64_MAX_def
        GUEST_IDEMPOTENCY_WINDOW_SECONDS_def)
  let ?s = "new_scan_row run_context q (replicate 32 9)"
  have len: "length (digest_bytes ''sha256:'' scope) = 32" "length (digest_bytes ''sha256:'' hash) = 32"
    using assms(3,4) by (simp_all add: length_sha256_digest)
  have host: "js_lower ''example.com'' = ''example.com''" "id_pattern ''scan-1''" by code_simp+
  have ins: "insert_scan ''scan-1'' ?s migrated_db = Some (migrated_db\<lparr>db_scans := [(''scan-1'', ?s)]\<rparr>)"
    using len host key
    by (simp add: insert_scan_def scan_checks_def scan_columns_def scan_time_contract_def scan_shape_def
        accepted_shape_def guard_scan_insert_def new_scan_row_def q run_context_def migrated_db_def
        UINT32_MAX_def MAX_SAFE_INTEGER_def SCAN_ACCESS_SECONDS_def SCAN_RETENTION_SECONDS_def)
  obtain db' where res: "reserve_guest_abuse_counters ''scan-1'' scope [d] 1000
      (migrated_db\<lparr>db_scans := [(''scan-1'', ?s)]\<rparr>) = Some (ALLOW_NEW_SCAN scope d 1000, db')"
    and db': "db_scans db' = [(''scan-1'', ?s)]" "map_of (db_reservations db') ''scan-1'' = Some \<lparr>rv_session_scope = digest_bytes ''sha256:'' scope,
      rv_network_digest = digest_bytes ''hmac-sha256:'' d, rv_reserved_at = 1000,
      rv_deletion_deadline = 1000 + SCAN_RETENTION_SECONDS, rv_released_at = None, rv_release_reason = None\<rparr>"
    by (rule first_reservation [OF assms(3,5), of "migrated_db\<lparr>db_scans := [(''scan-1'', ?s)]\<rparr>" "''scan-1''"])
      (simp_all add: migrated_db_def)
  have keys: "deferred_keys ''scan-1'' db'"
    using db' by (simp add: deferred_keys_def opened_reservation_def new_scan_row_def q)
  have "insert_and_reserve run_context q PA_CREATE ''scan-1'' (token, replicate 32 9) migrated_db migrated_db =
      Some (PERSISTED PA_CREATE ''scan-1'' token 2800 1800, db')"
    using res keys by (simp add: insert_and_reserve_def ins [unfolded q] q GUEST_IDEMPOTENCY_WINDOW_SECONDS_def)
  then have "create_or_replay_tx run_context q migrated_db = Some (PERSISTED PA_CREATE ''scan-1'' token 2800 1800, db')"
    using d token
    by (simp add: create_or_replay_tx_def Let_def q lookup_scans_def rows_where_def migrated_db_def existing_value_def
        create_or_replace_def run_context_def GUEST_IDEMPOTENCY_WINDOW_SECONDS_def)
  then have "create_or_replay (\<lambda>s. s) [RUNS] run_context req migrated_db =
      (PERSISTED PA_CREATE ''scan-1'' token 2800 1800, db')"
    by (simp add: create_or_replay_def assms(1) transaction_runs)
  moreover have "token_text token"
    using token by (auto simp: token_material_def Option.bind_eq_Some_conv intro: derived_token_text)
  ultimately show ?thesis using that db'(1) by simp
qed

end
