(* ===== verification/Creation_Properties.thy ===== *)
theory Creation_Properties
  imports First_Creation Read_Properties
begin

section \<open>What a creation answers\<close>

text \<open>
  The creation service over the database: its failures have no effect, its answers are true of the
  rows it leaves, and the token it hands out opens the result.
\<close>

subsection \<open>Rows behind an answer of the persistence\<close>

lemma parsed_record_object: "parse_idempotency_record (record_object e) = Some e' \<Longrightarrow> e' = e"
  by (auto simp: parse_idempotency_record_def record_object_def guard_simps Option.bind_eq_Some_conv
      snapshot_metadata_object split: if_splits)

lemma looked_up:
  assumes "guest_inv db" "(sid, s) \<in> set (lookup_scans scope key db)"
  shows "map_of (db_scans db) sid = Some s" "gs_session_scope s = scope" "gs_idempotency_key s = key"
proof -
  have keys: "keys_distinct (db_scans db)"
    using guest_invD(1) [OF assms(1)] by (simp add: tables_distinct_def)
  show "map_of (db_scans db) sid = Some s" "gs_session_scope s = scope" "gs_idempotency_key s = key"
    using assms(2) by (simp_all add: lookup_scans_def rows_where_set get_set [OF keys])
qed

lemma replayed_record:
  assumes "decide_guest_scan_idempotency v (existing_value rows) keyring = IDEM_REPLAY sid token expires ttl"
  obtains r s e key where "parse_idempotency_request v = Some r" "rows = [(sid, s)]"
    "map_guest_idempotency_row sid s = Some e" "keyring (tm_key_version (ir_token_metadata e)) = Some key"
    "derive_guest_result_token (ir_token_metadata e) key = Some token"
    "tm_access_revoked_at (ir_token_metadata e) = None" "iq_now r < ir_expires_at e"
    "ir_request_hash e = iq_request_hash r" "expires = tm_access_expires_at (ir_token_metadata e)"
    "ttl = expires - iq_now r"
proof -
  obtain r where r: "parse_idempotency_request v = Some r"
    using assms by (auto simp: decide_guest_scan_idempotency_def split: option.splits)
  have ne: "existing_value rows \<noteq> JNull"
    using assms by (auto simp: decide_guest_scan_idempotency_def r create_decision_def Let_def split: if_splits)
  obtain e where e: "parse_idempotency_record (existing_value rows) = Some e"
    using assms ne by (auto simp: decide_guest_scan_idempotency_def r Let_def split: option.splits if_splits)
  obtain sid' s where rows: "rows = [(sid', s)]" "map_guest_idempotency_row sid' s = Some e"
    using e ne parsed_record_object
    by (auto simp: existing_value_def parse_idempotency_record_def exact_object_def
        split: list.splits option.splits prod.splits)
  have m: "matches_lookup e r"
    using assms ne by (auto simp: decide_guest_scan_idempotency_def r e Let_def matches_lookup_def lookup_for_def
        split: if_splits)
  show ?thesis
    using assms unfolding decide_existing [OF r e m]
    using that [OF r] rows
    by (auto simp: create_decision_def Let_def map_guest_idempotency_row_def Option.bind_eq_Some_conv
        split: if_splits option.splits)
qed

lemma stored_record_row:
  assumes "map_guest_idempotency_row sid s = Some e" "scan_checks s"
  shows "ir_token_metadata e = stored_metadata sid s" "ir_expires_at e = gs_access_expires_at s"
    "ir_request_hash e = sha256_text (gs_request_hash s)"
  using assms
  by (auto simp: map_guest_idempotency_row_def Option.bind_eq_Some_conv stored_metadata_def row_integer_def
      row_safe_number_def row_digest_def scan_checks_def scan_time_contract_def split: if_splits)

lemma sha256_text_inj: "sha256_text a = sha256_text b \<Longrightarrow> a = b"
  using digest_bytes_sha256_text by metis

lemma persisted_row:
  assumes reach: "guest_reachable db" and q: "snapshot_persist_request to_ascii v = Some q"
    and run: "create_or_replay to_ascii tries c v db = (PERSISTED act sid token expires ttl, db')"
  obtains s key where "map_of (db_scans db') sid = Some s" "id_pattern sid"
    "pc_keyring c (gs_token_key_version s) = Some key"
    "derive_guest_result_token (stored_metadata sid s) key = Some token"
    "gs_access_expires_at s = expires" "ttl = expires - pq_now q" "gs_access_revoked_at s = None"
    "gs_session_scope s = digest_bytes ''sha256:'' (pq_session_scope q)"
    "gs_idempotency_key s = pq_idempotency_key q"
    "gs_request_hash s = digest_bytes ''sha256:'' (pq_request_hash q)"
    "act = PA_REPLAY \<longrightarrow> db' = db \<and> pq_now q < expires"
    "act \<noteq> PA_REPLAY \<longrightarrow> gs_canonical_target s = pq_canonical_target q \<and> gs_job_state s = J_QUEUED \<and>
       gs_created_at s = pq_now q"
proof -
  note inv = reachable_inv [OF reach]
  have tx: "create_or_replay_tx c q db = Some (PERSISTED act sid token expires ttl, db')"
    using run unfolding create_or_replay_def q option.case
    by (cases "transaction tries (create_or_replay_tx c q) db")
      (auto elim: transaction_cases split: option.splits)
  show ?thesis
  proof (cases "act = PA_REPLAY")
    case False
    obtain material db1 action where free: "guest_inv db1"
      and material: "token_material c sid (pq_now q + GUEST_IDEMPOTENCY_WINDOW_SECONDS) = Some material"
      and ins: "insert_and_reserve c q action sid material db db1 =
        Some (PERSISTED act sid token expires ttl, db')"
      using created_by [OF inv tx False] by blast
    note i = insert_and_reserve_moves [OF free ins]
    let ?s = "new_scan_row c q (snd material)"
    have row: "map_of (db_scans db') sid = Some ?s" using i(6) by (simp add: view_scan)
    have meta: "stored_metadata sid ?s =
        new_token_metadata c sid (snd material) (pq_now q + GUEST_IDEMPOTENCY_WINDOW_SECONDS)"
      by (simp add: stored_metadata_def new_scan_row_def new_token_metadata_def SCAN_ACCESS_SECONDS_def
          GUEST_IDEMPOTENCY_WINDOW_SECONDS_def)
    obtain key where key: "pc_keyring c (pc_active_key_version c) = Some key"
      "derive_guest_result_token (stored_metadata sid ?s) key = Some token" "id_pattern sid"
      using material i(5) unfolding meta by (auto simp: token_material_def Option.bind_eq_Some_conv)
    show ?thesis
      by (rule that [OF row key(3) _ key(2)])
        (use key(1) i(8,9) False in \<open>simp_all add: new_scan_row_def SCAN_ACCESS_SECONDS_def
           GUEST_IDEMPOTENCY_WINDOW_SECONDS_def\<close>)
  next
    case True
    define rows where "rows = lookup_scans (digest_bytes ''sha256:'' (pq_session_scope q)) (pq_idempotency_key q) db"
    let ?r = "\<lparr>iq_session_scope = pq_session_scope q, iq_key = pq_idempotency_key q,
      iq_request_hash = pq_request_hash q, iq_now = pq_now q\<rparr>"
    have no_new: "create_or_replace c q action rows db \<noteq> Some (PERSISTED PA_REPLAY sid token expires ttl, db')"
      if "action \<noteq> PA_REPLAY" for action
      using that by (auto simp: create_or_replace_def Option.bind_eq_Some_conv insert_and_reserve_def
          split: option.splits if_splits abuse_decision.splits)
    have decided: "decide_guest_scan_idempotency (request_object ?r) (existing_value rows) (pc_keyring c) =
        IDEM_REPLAY sid token expires ttl" and same: "db' = db"
      using tx True no_new by (auto simp: create_or_replay_tx_def rows_def Let_def split: idempotency_result.splits)
    obtain r s e key where r: "parse_idempotency_request (request_object ?r) = Some r" and rows: "rows = [(sid, s)]"
      and e: "map_guest_idempotency_row sid s = Some e"
      and key: "pc_keyring c (tm_key_version (ir_token_metadata e)) = Some key"
        "derive_guest_result_token (ir_token_metadata e) key = Some token"
        "tm_access_revoked_at (ir_token_metadata e) = None"
      and time: "iq_now r < ir_expires_at e" "ir_request_hash e = iq_request_hash r"
        "expires = tm_access_expires_at (ir_token_metadata e)" "ttl = expires - iq_now r"
      by (rule replayed_record [OF decided])
    have req: "r = ?r"
      using r by (auto simp: parse_idempotency_request_def request_object_def guard_simps Option.bind_eq_Some_conv
          split: if_splits)
    have mem: "(sid, s) \<in> set (lookup_scans (digest_bytes ''sha256:'' (pq_session_scope q)) (pq_idempotency_key q) db)"
      using rows rows_def by simp
    note row = looked_up [OF inv mem]
    have v: "view_inv sid (view sid db)" "sv_scan (view sid db) = Some s"
      using guest_invD(2) [OF inv] row(1) by (simp_all add: view_scan)
    note d = view_invD(1,2) [OF v]
    note m = stored_record_row [OF e d(2)]
    have fields: "tm_key_version (stored_metadata sid s) = gs_token_key_version s"
      "tm_access_expires_at (stored_metadata sid s) = gs_access_expires_at s"
      "tm_access_revoked_at (stored_metadata sid s) = gs_access_revoked_at s"
      by (simp_all add: stored_metadata_def)
    have hash: "gs_request_hash s = digest_bytes ''sha256:'' (pq_request_hash q)"
      using time(2) m(3) digest_bytes_sha256_text [of "gs_request_hash s"] by (simp add: req)
    show ?thesis
      by (rule that [of s key])
        (use True row same d key time m hash in \<open>simp_all add: fields req\<close>)
  qed
qed

subsection \<open>The stages of the service\<close>

lemma prepare_Inr:
  "prepare_creation to_ascii d a v = Inr (now, req) \<longleftrightarrow>
     (\<exists>q host active keys kv scope address src digests hash.
        read_creation_request v = Some q \<and> canonicalize_hostname to_ascii (cq_domain q) = Inr host \<and>
        Option.bind (na_session_keys a) snapshot_guest_session_key_state = Some (active, keys) \<and>
        authenticate_guest_session_cookie_header (cq_cookie_header q) (map_of keys) (\<lambda>_. Some False) =
          Inr (kv, scope) \<and>
        Option.bind (na_revoked a scope) as_bool = Some False \<and>
        resolve_trusted_ingress_address (ingress_request (cq_socket_remote_address q)
          (cq_x_forwarded_for q) (JArr (nd_trusted_proxy_cidrs d))) = Some (address, src) \<and>
        derive_guest_network_signal_keyring (JStr address) (nd_network_keyring d)
          (nd_active_network_key_version d) = Some digests \<and>
        derive_guest_scan_request_hash to_ascii (JStr host) = Some hash \<and>
        Option.bind (na_now a) (as_bounded 0 (MAX_POSTGRES_UNIX_SECONDS - 86400)) = Some now \<and>
        req = persistence_request scope (cq_idempotency_key q) hash host digests now)"
  by (auto simp: prepare_creation_def split: option.splits sum.splits bool.splits prod.splits)

lemma all_strings:
  "all_some (as_str_matching p) (map JStr xs) = (if list_all p xs then Some xs else None)"
  by (induction xs) (auto simp: as_str_matching_def)

lemma snapshot_request:
  "snapshot_persist_request to_ascii (persistence_request scope key hash host digests now) =
     (if sha256_pattern scope \<and> idempotency_key_pattern key \<and> sha256_pattern hash \<and>
         digests \<noteq> [] \<and> length digests \<le> 3 \<and> list_all (hex64_pattern ''hmac-sha256:'') digests \<and>
         distinct digests \<and> 0 \<le> now \<and> now + SCAN_RETENTION_SECONDS \<le> MAX_POSTGRES_UNIX_SECONDS \<and>
         canonicalize_hostname to_ascii (JStr host) = Inr host
      then Some \<lparr>pq_session_scope = scope, pq_idempotency_key = key, pq_request_hash = hash,
        pq_canonical_target = host, pq_network_digests = digests, pq_now = now\<rparr>
      else None)"
proof -
  have "exact_object (persistence_request scope key hash host digests now) PERSIST_REQUEST_KEYS"
    by (simp add: exact_object_def persistence_request_def PERSIST_REQUEST_KEYS_def)
  moreover have props:
    "get_prop (persistence_request scope key hash host digests now) ''guest_session_scope'' = JStr scope"
    "get_prop (persistence_request scope key hash host digests now) ''idempotency_key'' = JStr key"
    "get_prop (persistence_request scope key hash host digests now) ''request_hash'' = JStr hash"
    "get_prop (persistence_request scope key hash host digests now) ''canonical_target'' = JStr host"
    "get_prop (persistence_request scope key hash host digests now) ''network_signal_digests'' = JArr (map JStr digests)"
    "get_prop (persistence_request scope key hash host digests now) ''trusted_now_unix_seconds'' = JBig now"
    by (simp_all add: persistence_request_def)
  ultimately show ?thesis
    unfolding snapshot_persist_request_def props
    by (cases "canonicalize_hostname to_ascii (JStr host)")
      (auto simp: as_str_matching_def all_strings guard_simps)
qed

lemma action_texts:
  "action_text act = ''REPLAY'' \<longleftrightarrow> act = PA_REPLAY"
  "action_text act \<in> {''CREATE'', ''REPLACE_EXPIRED'', ''REPLAY''}"
  by (cases act; simp)+

lemma persisted_success_value:
  "persisted_success (persist_value res) now = Some p \<longleftrightarrow>
     (\<exists>act sid token expires ttl. res = PERSISTED act sid token expires ttl \<and>
        p = \<lparr>ps_action = action_text act, ps_guest_scan_id = sid, ps_result_token = token,
          ps_expires_at = expires, ps_expires_in = ttl\<rparr> \<and>
        id_pattern sid \<and> token_text token \<and> now < expires \<and> expires \<le> MAX_POSTGRES_UNIX_SECONDS \<and>
        1 \<le> ttl \<and> ttl \<le> 1800 \<and> expires - now = ttl)"
proof (cases res)
  case (PERSISTED act sid token expires ttl)
  have "exact_object (persist_value res) SUCCESS_KEYS"
    by (simp add: PERSISTED exact_object_def SUCCESS_KEYS_def)
  then show ?thesis
    using action_texts(2) [of act]
    by (auto simp: PERSISTED persisted_success_def guard_simps Option.bind_eq_Some_conv safe_int_def
        MAX_SAFE_INTEGER_def)
next
  case (ABUSE_LIMIT_EXCEEDED code wait)
  then show ?thesis
    by (cases wait) (simp_all add: persisted_success_def exact_object_def SUCCESS_KEYS_def)
qed (simp add: persisted_success_def exact_object_def SUCCESS_KEYS_def)

lemma map_failure_shape: "map_persistence_failure v \<noteq> SCAN_CREATED st sid token t ttl"
  by (auto simp: map_persistence_failure_def Let_def)

lemma map_failure_persisted: "map_persistence_failure (persist_value (PERSISTED act sid token expires ttl)) = unavailable"
  by (simp add: map_persistence_failure_def)

lemma service_persists:
  assumes "prepare_creation to_ascii d a v = Inr (now, req)"
    and "create_or_replay to_ascii tries c req db = (res, db')"
  shows "create_guest_scan to_ascii d a (postgres_persistence to_ascii tries c) v db =
    (finish_creation a now (persist_value res), db')"
  using assms by (simp add: create_guest_scan_def postgres_persistence_def)

lemma scan_created_parts:
  assumes "create_guest_scan to_ascii d a (postgres_persistence to_ascii tries c) v db =
    (SCAN_CREATED st sid token t ttl, db')"
  obtains now req act expires where "prepare_creation to_ascii d a v = Inr (now, req)"
    "create_or_replay to_ascii tries c req db = (PERSISTED act sid token expires ttl, db')"
    "st = (if act = PA_REPLAY then 200 else 202)" "t = iso_date expires" "ttl = expires - now"
    "\<exists>queued. na_queued a sid = Some queued \<and> matches_queued_scan queued sid" "1 \<le> ttl" "ttl \<le> 1800"
proof (cases "prepare_creation to_ascii d a v")
  case (Inl f)
  then have "f = SCAN_CREATED st sid token t ttl" using assms by (simp add: create_guest_scan_def)
  then show ?thesis using Inl
    by (auto simp: prepare_creation_def split: option.splits sum.splits bool.splits prod.splits)
next
  case (Inr p)
  obtain now req where p: "p = (now, req)" by (cases p)
  obtain res where res: "create_or_replay to_ascii tries c req db = (res, db')"
    and fin: "finish_creation a now (persist_value res) = SCAN_CREATED st sid token t ttl"
    using assms service_persists [OF Inr [unfolded p], of tries c db]
    by (cases "create_or_replay to_ascii tries c req db") auto
  obtain ps where ps: "persisted_success (persist_value res) now = Some ps"
    using fin map_failure_shape by (auto simp: finish_creation_def split: option.splits)
  then obtain act sid' token' expires ttl' where shape: "res = PERSISTED act sid' token' expires ttl'"
    "ps = \<lparr>ps_action = action_text act, ps_guest_scan_id = sid', ps_result_token = token',
      ps_expires_at = expires, ps_expires_in = ttl'\<rparr>" "expires - now = ttl'" "1 \<le> ttl'" "ttl' \<le> 1800"
    by (auto simp: persisted_success_value)
  have "sid' = sid \<and> token' = token \<and> ttl' = ttl \<and> t = iso_date expires \<and>
      st = (if act = PA_REPLAY then 200 else 202) \<and>
      (\<exists>queued. na_queued a sid = Some queued \<and> matches_queued_scan queued sid)"
    using fin unfolding finish_creation_def ps option.case
    by (auto simp: shape(2) action_texts(1) split: option.splits if_splits)
  with that Inr p res shape show ?thesis by blast
qed

subsection \<open>A service for the witnesses\<close>

definition sample_dependencies :: creation_dependencies where
  "sample_dependencies =
     \<lparr>nd_trusted_proxy_cidrs = [], nd_network_keyring = [(1, replicate 32 7)],
      nd_active_network_key_version = 1\<rparr>"

definition sample_answers :: "(string \<Rightarrow> jsval option) \<Rightarrow> creation_answers" where
  "sample_answers queue =
     \<lparr>na_session_keys = Some \<lparr>rk_active = JNum 7, rk_keys = [(JNum 7, JBytes (replicate 32 1))]\<rparr>,
      na_revoked = (\<lambda>_. Some (JBool False)), na_now = Some (JNum 1000), na_queued = queue\<rparr>"

definition accepting_queue :: "string \<Rightarrow> jsval option" where
  "accepting_queue sid = Some (JObj [(''schema_version'', JNum 1), (''guest_scan_id'', JStr sid)])"

definition sample_creation :: "string \<Rightarrow> jsval" where
  "sample_creation cookie = JObj [(''body'', JObj [(''domain'', JStr ''example.com'')]),
     (''cookie_header'', JStr cookie), (''idempotency_key_header'', JStr ''key-1''),
     (''socket_remote_address'', JStr ''203.0.113.9''), (''x_forwarded_for'', JUndef)]"

lemma sample_session:
  obtains cookie scope where "authenticate_guest_session_cookie_header (JStr cookie) (map_of [(7, replicate 32 1)])
      (\<lambda>_. Some False) = Inr (7, scope)" "sha256_pattern scope"
proof -
  obtain c where c: "create_guest_session_cookie 7 (replicate 32 1) (replicate 32 2) = Some c"
    by (simp add: create_cookie_eq is_valid_key_def fits_u32_def UINT32_MAX_def)
  obtain scope where scope: "derive_guest_session_scope (replicate 32 2) = Some scope"
    by (simp add: derive_guest_session_scope_def)
  have pattern: "sha256_pattern scope"
    using scope by (auto simp: derive_guest_session_scope_def intro: sha256_text_valid split: if_splits)
  have "verify_guest_session_cookie c (map_of [(7, replicate 32 1)]) =
      Some \<lparr>gp_key_version = 7, gp_session_id = replicate 32 2, gp_session_scope = scope\<rparr>"
    using c scope by (simp add: verify_cookie_iff)
  moreover have "parse_guest_cookie (JStr (cookie_header ([] @ (GUEST_SESSION_COOKIE_NAME @ ''='' @ c) # []))) = COOKIE_FOUND c"
    using length_utf8 [of "cookie_header [GUEST_SESSION_COOKIE_NAME @ ''='' @ c]"] cookie_length [OF c]
    by (intro parse_session_header [OF c])
      (simp_all add: cookie_header_def GUEST_SESSION_COOKIE_NAME_def MAX_COOKIE_HEADER_BYTES_def MAX_COOKIE_PAIRS_def)
  ultimately have "authenticate_guest_session_cookie_header
      (JStr (cookie_header ([] @ (GUEST_SESSION_COOKIE_NAME @ ''='' @ c) # []))) (map_of [(7, replicate 32 1)])
      (\<lambda>_. Some False) = Inr (7, scope)"
    by (simp add: authenticate_guest_session_cookie_header_def)
  then show ?thesis using pattern by (rule that)
qed

lemma sample_prepared:
  obtains cookie scope hash d where "\<forall>queue. prepare_creation (\<lambda>s. s) sample_dependencies (sample_answers queue)
      (sample_creation cookie) =
      Inr (1000, persistence_request scope ''key-1'' hash ''example.com'' [d] 1000)"
    "sha256_pattern scope" "sha256_pattern hash" "hmac_sha256_pattern d"
proof -
  obtain cookie scope where session: "authenticate_guest_session_cookie_header (JStr cookie)
      (map_of [(7, replicate 32 1)]) (\<lambda>_. Some False) = Inr (7, scope)" "sha256_pattern scope"
    by (rule sample_session)
  have host: "canonicalize_hostname (\<lambda>s. s) (JStr ''example.com'') = Inr ''example.com''" by code_simp
  have key: "idempotency_key_pattern ''key-1''" by code_simp
  have read: "read_creation_request (sample_creation cookie) = Some \<lparr>cq_domain = JStr ''example.com'',
      cq_cookie_header = JStr cookie, cq_idempotency_key = ''key-1'',
      cq_socket_remote_address = JStr ''203.0.113.9'', cq_x_forwarded_for = JUndef\<rparr>"
    using key by (simp add: read_creation_request_def sample_creation_def exact_object_def
        CREATION_REQUEST_KEYS_def as_str_matching_def)
  have keys: "snapshot_guest_session_key_state \<lparr>rk_active = JNum 7, rk_keys = [(JNum 7, JBytes (replicate 32 1))]\<rparr> =
      Some (7, [(7, replicate 32 1)])"
    by (simp add: snapshot_guest_session_key_state_def as_bounded_def safe_int_def UINT32_MAX_def MAX_SAFE_INTEGER_def)
  have ingress: "resolve_trusted_ingress_address (ingress_request (JStr ''203.0.113.9'') JUndef (JArr [])) =
      Some (''203.0.113.9'', DIRECT_SOCKET)" by code_simp
  have "bucket_address ''203.0.113.9'' = Some (IPv4, [203, 0, 113, 9])" by code_simp
  then obtain d where d: "derive_guest_network_signal_keyring (JStr ''203.0.113.9'') [(1, replicate 32 7)] 1 = Some [d]"
    "hmac_sha256_pattern d"
    using to_hex_lower
    by (auto simp: derive_guest_network_signal_keyring_def fits_u32_def UINT32_MAX_def hex64_pattern_def starts_with_def
        MAX_NETWORK_SIGNAL_KEYS_def signal_order_def derive_digest_def)
  have "length_prefix (ascii_bytes ''example.com'') \<noteq> None"
    by (simp add: length_prefix_def ascii_bytes_def UINT32_MAX_def u32be_def safe_int_def MAX_SAFE_INTEGER_def)
  then obtain encoded where "length_prefix (ascii_bytes ''example.com'') = Some encoded" by blast
  then have hash: "derive_guest_scan_request_hash (\<lambda>s. s) (JStr ''example.com'') =
      Some (sha256_text (sha256 (REQUEST_HASH_DOMAIN @ encoded)))"
    by (simp add: derive_guest_scan_request_hash_def host)
  have hash_pattern: "sha256_pattern (sha256_text (sha256 (REQUEST_HASH_DOMAIN @ encoded)))"
    by (rule sha256_text_valid) simp
  have "prepare_creation (\<lambda>s. s) sample_dependencies (sample_answers queue) (sample_creation cookie) =
      Inr (1000, persistence_request scope ''key-1'' (sha256_text (sha256 (REQUEST_HASH_DOMAIN @ encoded)))
        ''example.com'' [d] 1000)" for queue
    unfolding prepare_Inr
    using read host keys session(1) ingress d(1) hash
    by (simp add: sample_answers_def sample_dependencies_def as_bounded_def safe_int_def
        MAX_POSTGRES_UNIX_SECONDS_def MAX_SAFE_INTEGER_def)
  then show ?thesis by (intro that [OF _ session(2) hash_pattern d(2)] allI)
qed

lemma sample_created:
  obtains cookie token db' where "create_guest_scan (\<lambda>s. s) sample_dependencies (sample_answers accepting_queue)
      (postgres_persistence (\<lambda>s. s) [RUNS] run_context) (sample_creation cookie) migrated_db =
      (SCAN_CREATED 202 ''scan-1'' token (iso_date 2800) 1800, db')"
    "create_guest_scan (\<lambda>s. s) sample_dependencies (sample_answers (\<lambda>_. None))
      (postgres_persistence (\<lambda>s. s) [RUNS] run_context) (sample_creation cookie) migrated_db = (unavailable, db')"
    "db' \<noteq> migrated_db"
proof -
  obtain cookie scope hash d where prepared: "\<forall>queue. prepare_creation (\<lambda>s. s) sample_dependencies
      (sample_answers queue) (sample_creation cookie) =
      Inr (1000, persistence_request scope ''key-1'' hash ''example.com'' [d] 1000)"
    and patterns: "sha256_pattern scope" "sha256_pattern hash" "hmac_sha256_pattern d"
    by (rule sample_prepared)
  have fixed: "canonicalize_hostname (\<lambda>s. s) (JStr ''example.com'') = Inr ''example.com''"
    "idempotency_key_pattern ''key-1''" "id_pattern ''scan-1''" by code_simp+
  have q: "snapshot_persist_request (\<lambda>s. s) (persistence_request scope ''key-1'' hash ''example.com'' [d] 1000) =
      Some \<lparr>pq_session_scope = scope, pq_idempotency_key = ''key-1'', pq_request_hash = hash,
        pq_canonical_target = ''example.com'', pq_network_digests = [d], pq_now = 1000\<rparr>"
    using patterns fixed by (simp add: snapshot_request SCAN_RETENTION_SECONDS_def MAX_POSTGRES_UNIX_SECONDS_def)
  obtain token db' where run: "create_or_replay (\<lambda>s. s) [RUNS] run_context
      (persistence_request scope ''key-1'' hash ''example.com'' [d] 1000) migrated_db =
      (PERSISTED PA_CREATE ''scan-1'' token 2800 1800, db')" "map_of (db_scans db') ''scan-1'' \<noteq> None" "token_text token"
    by (rule first_persist [OF q refl patterns])
  have "persisted_success (persist_value (PERSISTED PA_CREATE ''scan-1'' token 2800 1800)) 1000 =
      Some \<lparr>ps_action = ''CREATE'', ps_guest_scan_id = ''scan-1'', ps_result_token = token,
        ps_expires_at = 2800, ps_expires_in = 1800\<rparr>"
    using run(3) fixed(3)
    by (simp add: persisted_success_value MAX_POSTGRES_UNIX_SECONDS_def del: persist_value.simps)
  then have fin: "finish_creation (sample_answers accepting_queue) 1000 (persist_value (PERSISTED PA_CREATE ''scan-1'' token 2800 1800)) =
      SCAN_CREATED 202 ''scan-1'' token (iso_date 2800) 1800"
    "finish_creation (sample_answers (\<lambda>_. None)) 1000 (persist_value (PERSISTED PA_CREATE ''scan-1'' token 2800 1800)) = unavailable"
    by (simp_all add: finish_creation_def sample_answers_def accepting_queue_def matches_queued_scan_def exact_object_def
        del: persist_value.simps)
  have "db' \<noteq> migrated_db" using run(2) by (auto simp: migrated_db_def)
  then show ?thesis
    by (rule that [OF service_persists [OF prepared [rule_format, of accepting_queue] run(1), unfolded fin]
          service_persists [OF prepared [rule_format, of "\<lambda>_. None"] run(1), unfolded fin]])
qed

subsection \<open>Properties\<close>

text \<open>C10: a success that the creation service reports is true: the request was well formed and of a session
  that is not revoked; the scan of the answer is in the database, with that session, that key
  and the hash of that target; the token is the one its row derives, the times are those of the row,
  and the queue has accepted the scan.  Status 202 means a scan created now and waiting, of the
  canonical host that was asked for; status 200 means nothing has changed.\<close>

theorem creation_answer_true:
  assumes "guest_reachable db"
    and "create_guest_scan to_ascii d a (postgres_persistence to_ascii tries c) v db =
      (SCAN_CREATED st sid token t ttl, db')"
  shows "\<exists>q host scope hash now s key queued.
    read_creation_request v = Some q \<and> canonicalize_hostname to_ascii (cq_domain q) = Inr host \<and>
    (\<exists>active keys kv. Option.bind (na_session_keys a) snapshot_guest_session_key_state = Some (active, keys) \<and>
       authenticate_guest_session_cookie_header (cq_cookie_header q) (map_of keys) (\<lambda>_. Some False) = Inr (kv, scope)) \<and>
    na_revoked a scope = Some (JBool False) \<and>
    na_now a = Some (JNum now) \<and> na_queued a sid = Some queued \<and> matches_queued_scan queued sid \<and>
    derive_guest_scan_request_hash to_ascii (JStr host) = Some hash \<and>
    map_of (db_scans db') sid = Some s \<and> gs_session_scope s = digest_bytes ''sha256:'' scope \<and>
    gs_idempotency_key s = cq_idempotency_key q \<and> gs_request_hash s = digest_bytes ''sha256:'' hash \<and>
    gs_access_revoked_at s = None \<and> pc_keyring c (gs_token_key_version s) = Some key \<and>
    derive_guest_result_token (stored_metadata sid s) key = Some token \<and>
    t = iso_date (gs_access_expires_at s) \<and> ttl = gs_access_expires_at s - now \<and> 1 \<le> ttl \<and> ttl \<le> 1800 \<and>
    (st = 202 \<and> gs_canonical_target s = host \<and> gs_job_state s = J_QUEUED \<and> gs_created_at s = now \<or>
     st = 200 \<and> db' = db)"
proof -
  obtain now req act expires where prep: "prepare_creation to_ascii d a v = Inr (now, req)"
    and run: "create_or_replay to_ascii tries c req db = (PERSISTED act sid token expires ttl, db')"
    and ans: "st = (if act = PA_REPLAY then 200 else 202)" "t = iso_date expires" "ttl = expires - now"
    and fin: "\<exists>queued. na_queued a sid = Some queued \<and> matches_queued_scan queued sid" "1 \<le> ttl" "ttl \<le> 1800"
    by (rule scan_created_parts [OF assms(2)])
  obtain q host active keys kv scope address src digests hash where p: "read_creation_request v = Some q"
    "canonicalize_hostname to_ascii (cq_domain q) = Inr host"
    "Option.bind (na_session_keys a) snapshot_guest_session_key_state = Some (active, keys)"
    "authenticate_guest_session_cookie_header (cq_cookie_header q) (map_of keys) (\<lambda>_. Some False) = Inr (kv, scope)"
    "Option.bind (na_revoked a scope) as_bool = Some False"
    "derive_guest_scan_request_hash to_ascii (JStr host) = Some hash"
    "Option.bind (na_now a) (as_bounded 0 (MAX_POSTGRES_UNIX_SECONDS - 86400)) = Some now"
    "req = persistence_request scope (cq_idempotency_key q) hash host digests now"
    using prep unfolding prepare_Inr by blast
  obtain q' where q': "snapshot_persist_request to_ascii req = Some q'"
    using run by (auto simp: create_or_replay_def split: option.splits)
  have fields: "pq_session_scope q' = scope" "pq_idempotency_key q' = cq_idempotency_key q" "pq_request_hash q' = hash"
    "pq_canonical_target q' = host" "pq_now q' = now"
    using q' unfolding p(8) snapshot_request by (auto split: if_splits)
  obtain s key where row: "map_of (db_scans db') sid = Some s" "id_pattern sid"
    "pc_keyring c (gs_token_key_version s) = Some key"
    "derive_guest_result_token (stored_metadata sid s) key = Some token"
    "gs_access_expires_at s = expires" "ttl = expires - pq_now q'" "gs_access_revoked_at s = None"
    "gs_session_scope s = digest_bytes ''sha256:'' (pq_session_scope q')"
    "gs_idempotency_key s = pq_idempotency_key q'"
    "gs_request_hash s = digest_bytes ''sha256:'' (pq_request_hash q')"
    "act = PA_REPLAY \<longrightarrow> db' = db \<and> pq_now q' < expires"
    "act \<noteq> PA_REPLAY \<longrightarrow> gs_canonical_target s = pq_canonical_target q' \<and> gs_job_state s = J_QUEUED \<and>
       gs_created_at s = pq_now q'"
    by (rule persisted_row [OF assms(1) q' run])
  have given: "na_revoked a scope = Some (JBool False)" "na_now a = Some (JNum now)"
    using p(5,7) by (auto simp: Option.bind_eq_Some_conv as_bool_Some as_bounded_Some)
  obtain queued where queued: "na_queued a sid = Some queued" "matches_queued_scan queued sid" using fin(1) by blast
  have session: "\<exists>active keys kv. Option.bind (na_session_keys a) snapshot_guest_session_key_state = Some (active, keys) \<and>
      authenticate_guest_session_cookie_header (cq_cookie_header q) (map_of keys) (\<lambda>_. Some False) = Inr (kv, scope)"
    using p(3,4) by blast
  have effect: "st = 202 \<and> gs_canonical_target s = host \<and> gs_job_state s = J_QUEUED \<and> gs_created_at s = now \<or>
      st = 200 \<and> db' = db"
    using ans(1) row(11,12) fields(4,5) by (cases "act = PA_REPLAY") simp_all
  show ?thesis
    by (rule exI [of _ q], rule exI [of _ host], rule exI [of _ scope], rule exI [of _ hash], rule exI [of _ now],
        rule exI [of _ s], rule exI [of _ key], rule exI [of _ queued])
      (rule session effect conjI | use p(1,2,6) queued row fields ans(2,3) fin(2,3) given in \<open>simp (no_asm_simp)\<close>)+
qed

theorem creation_answer_true_witness:
  "\<exists>cookie token db' s. create_guest_scan (\<lambda>s. s) sample_dependencies (sample_answers accepting_queue)
      (postgres_persistence (\<lambda>s. s) [RUNS] run_context) (sample_creation cookie) migrated_db =
      (SCAN_CREATED 202 ''scan-1'' token (iso_date 2800) 1800, db') \<and>
    map_of (db_scans db') ''scan-1'' = Some s \<and> gs_canonical_target s = ''example.com'' \<and> gs_job_state s = J_QUEUED"
proof -
  have start: "guest_reachable migrated_db" by (simp add: guest_reachable_def reachable.start)
  obtain cookie token db' where run: "create_guest_scan (\<lambda>s. s) sample_dependencies (sample_answers accepting_queue)
      (postgres_persistence (\<lambda>s. s) [RUNS] run_context) (sample_creation cookie) migrated_db =
      (SCAN_CREATED 202 ''scan-1'' token (iso_date 2800) 1800, db')" by (rule sample_created)
  have host: "canonicalize_hostname (\<lambda>s. s) (JStr ''example.com'') = Inr ''example.com''" by code_simp
  from creation_answer_true [OF start run] obtain q host s where s: "read_creation_request (sample_creation cookie) = Some q"
    "canonicalize_hostname (\<lambda>s. s) (cq_domain q) = Inr host" "map_of (db_scans db') ''scan-1'' = Some s"
    "gs_canonical_target s = host" "gs_job_state s = J_QUEUED" by auto
  have "cq_domain q = JStr ''example.com''"
    using s(1) by (auto simp: read_creation_request_def sample_creation_def Option.bind_eq_Some_conv)
  with s host run show ?thesis by auto
qed

lemma prepared_at:
  assumes "prepare_creation to_ascii d a v = Inr (now, req)" "now \<le> now'" "now' \<le> MAX_POSTGRES_UNIX_SECONDS - 86400"
    and "snapshot_persist_request to_ascii req = Some q"
  obtains req' where "prepare_creation to_ascii d (a\<lparr>na_now := Some (JNum now'), na_queued := queue\<rparr>) v = Inr (now', req')"
    "snapshot_persist_request to_ascii req' = Some (q\<lparr>pq_now := now'\<rparr>)" "pq_now q = now" "0 \<le> now"
proof -
  obtain q0 host active keys kv scope address src digests hash where p: "read_creation_request v = Some q0"
    "canonicalize_hostname to_ascii (cq_domain q0) = Inr host"
    "Option.bind (na_session_keys a) snapshot_guest_session_key_state = Some (active, keys)"
    "authenticate_guest_session_cookie_header (cq_cookie_header q0) (map_of keys) (\<lambda>_. Some False) = Inr (kv, scope)"
    "Option.bind (na_revoked a scope) as_bool = Some False"
    "resolve_trusted_ingress_address (ingress_request (cq_socket_remote_address q0)
          (cq_x_forwarded_for q0) (JArr (nd_trusted_proxy_cidrs d))) = Some (address, src)"
    "derive_guest_network_signal_keyring (JStr address) (nd_network_keyring d)
          (nd_active_network_key_version d) = Some digests"
    "derive_guest_scan_request_hash to_ascii (JStr host) = Some hash"
    "Option.bind (na_now a) (as_bounded 0 (MAX_POSTGRES_UNIX_SECONDS - 86400)) = Some now"
    "req = persistence_request scope (cq_idempotency_key q0) hash host digests now"
    using assms(1) unfolding prepare_Inr by blast
  note q = assms(4) [unfolded p(10) snapshot_request]
  have now: "pq_now q = now" "0 \<le> now" "safe_int now'"
    using q assms(2,3) by (auto simp: safe_int_def MAX_SAFE_INTEGER_def MAX_POSTGRES_UNIX_SECONDS_def split: if_splits)
  have shape: "q = \<lparr>pq_session_scope = scope, pq_idempotency_key = cq_idempotency_key q0, pq_request_hash = hash,
      pq_canonical_target = host, pq_network_digests = digests, pq_now = now\<rparr>"
    and valid: "sha256_pattern scope \<and> idempotency_key_pattern (cq_idempotency_key q0) \<and> sha256_pattern hash \<and>
      digests \<noteq> [] \<and> length digests \<le> 3 \<and> list_all hmac_sha256_pattern digests \<and> distinct digests \<and>
      canonicalize_hostname to_ascii (JStr host) = Inr host"
    using q by (simp_all split: if_splits)
  let ?req = "persistence_request scope (cq_idempotency_key q0) hash host digests now'"
  have "snapshot_persist_request to_ascii ?req = Some (q\<lparr>pq_now := now'\<rparr>)"
    using valid now assms(2,3) unfolding snapshot_request shape
    by (auto simp: SCAN_RETENTION_SECONDS_def MAX_POSTGRES_UNIX_SECONDS_def)
  moreover have "Option.bind (Some (JNum now')) (as_bounded 0 (MAX_POSTGRES_UNIX_SECONDS - 86400)) = Some now'"
    using now assms(2,3) by (simp add: as_bounded_Some)
  with p have "prepare_creation to_ascii d (a\<lparr>na_now := Some (JNum now'), na_queued := queue\<rparr>) v = Inr (now', ?req)"
    unfolding prepare_Inr by (intro exI conjI) (assumption | simp)+
  ultimately show ?thesis using that now by blast
qed





end
