(* ===== verification/Guest_Admission.thy ===== *)
theory Guest_Admission
  imports Guest_Idempotency
begin

section \<open>Admission of a scan\<close>

text \<open>
  Models \<^verbatim>\<open>apps/api/src/guest-abuse/admission.ts\<close>: the decision on the idempotency key comes first, the
  abuse limits are asked for new scans only, and the reservation must be of the same session and moment.
\<close>

datatype scan_admission =
    ADMISSION_REPLAY string string int int
  | ADMISSION_REFUSED idempotency_fail
  | ADMISSION_INVALID_CONTEXT
  | ADMISSION_LIMITED abuse_deny_code "int option"
  | ADMITTED idempotency_result abuse_decision

definition check_abuse ::
  "idempotency_result \<Rightarrow> idempotency_lookup \<Rightarrow> int \<Rightarrow> abuse_decision \<Rightarrow> scan_admission" where
  "check_abuse idempotency lookup expires_at abuse =
     (case abuse of
        INVALID_ABUSE_CONTEXT \<Rightarrow> ADMISSION_INVALID_CONTEXT
      | ABUSE_DENIED code wait \<Rightarrow> ADMISSION_LIMITED code wait
      | ALLOW_NEW_SCAN scope digest observed_at \<Rightarrow>
          if il_principal_scope lookup \<noteq> ''GUEST_SESSION:'' @ scope \<or>
             expires_at - GUEST_IDEMPOTENCY_WINDOW_SECONDS \<noteq> observed_at
          then ADMISSION_INVALID_CONTEXT
          else ADMITTED idempotency (ALLOW_NEW_SCAN scope digest observed_at))"

definition decide_guest_scan_admission ::
  "jsval \<Rightarrow> jsval \<Rightarrow> (int \<Rightarrow> bytes option) \<Rightarrow> jsval \<Rightarrow> scan_admission" where
  "decide_guest_scan_admission request existing keyring abuse_context =
     (case decide_guest_scan_idempotency request existing keyring of
        IDEM_REFUSED code \<Rightarrow> ADMISSION_REFUSED code
      | IDEM_REPLAY sid token expires_at ttl \<Rightarrow> ADMISSION_REPLAY sid token expires_at ttl
      | IDEM_CREATE lookup request_hash expires_at \<Rightarrow>
          check_abuse (IDEM_CREATE lookup request_hash expires_at) lookup expires_at
            (decide_guest_abuse_admission abuse_context)
      | IDEM_REPLACE_EXPIRED lookup request_hash expires_at \<Rightarrow>
          check_abuse (IDEM_REPLACE_EXPIRED lookup request_hash expires_at) lookup expires_at
            (decide_guest_abuse_admission abuse_context))"

lemma create_decision_shape:
  "create_decision action r = IDEM_REFUSED IDEM_INVALID_REQUEST \<or>
   create_decision action r = action (lookup_for r) (iq_request_hash r) (iq_now r + GUEST_IDEMPOTENCY_WINDOW_SECONDS)"
  by (simp add: create_decision_def Let_def)

text \<open>A decision to create names the session and the moment of the request.\<close>

lemma decided_create:
  assumes "decide_guest_scan_idempotency v w keyring = d"
    and "d = IDEM_CREATE l h e \<or> d = IDEM_REPLACE_EXPIRED l h e"
  obtains r where "parse_idempotency_request v = Some r" "l = lookup_for r" "h = iq_request_hash r"
    "e = iq_now r + GUEST_IDEMPOTENCY_WINDOW_SECONDS"
  using assms
  by (auto simp: decide_guest_scan_idempotency_def create_decision_def Let_def
      split: option.splits if_splits)

text \<open>An admitted scan is counted for its own session and time, within all limits.\<close>

lemma admitted_is_counted:
  assumes "decide_guest_scan_admission v w keyring c = ADMITTED d a"
  obtains r u where "parse_idempotency_request v = Some r" "snapshot_abuse_request c = Some u"
    "aq_session_scope u = iq_session_scope r" "aq_now u = iq_now r"
    "a = ALLOW_NEW_SCAN (iq_session_scope r) (aq_network_digest u) (iq_now r)"
    "aq_service_state u = SERVICE_OPEN" "usage_within_limits (aq_usage u)"
proof -
  have same: "check_abuse i l e x = ADMITTED d a \<Longrightarrow> i = d" for i l e x
    by (auto simp: check_abuse_def split: abuse_decision.splits if_splits)
  from assms obtain l h e where d: "decide_guest_scan_idempotency v w keyring = d"
    "d = IDEM_CREATE l h e \<or> d = IDEM_REPLACE_EXPIRED l h e"
    and abuse: "check_abuse d l e (decide_guest_abuse_admission c) = ADMITTED d a"
    unfolding decide_guest_scan_admission_def
    by (cases "decide_guest_scan_idempotency v w keyring") (use same in \<open>auto dest: same\<close>)
  obtain r where r: "parse_idempotency_request v = Some r" "l = lookup_for r"
    "e = iq_now r + GUEST_IDEMPOTENCY_WINDOW_SECONDS"
    by (rule decided_create [OF d])
  show ?thesis
    using abuse that [OF r(1)]
    by (auto simp: check_abuse_def decide_guest_abuse_admission_def admit_allows_iff r(2,3) lookup_for_def
        split: abuse_decision.splits if_splits option.splits)
qed

text \<open>A replay and a refusal do not depend on the counters.\<close>

lemma replay_ignores_limits:
  assumes "decide_guest_scan_admission v w keyring c = ADMISSION_REPLAY sid token e ttl"
  shows "decide_guest_scan_admission v w keyring c' = ADMISSION_REPLAY sid token e ttl"
  using assms
  by (auto simp: decide_guest_scan_admission_def check_abuse_def
      split: idempotency_result.splits abuse_decision.splits if_splits)

end
