(* ===== verification/Target_Resolver.thy ===== *)
theory Target_Resolver
  imports Ip_Text Hostname
begin

section \<open>Resolving the target\<close>

text \<open>
  Models \<^verbatim>\<open>apps/api/src/target/resolver.ts\<close>.  What the DNS resolver answers to the two queries is an
  argument: each is fulfilled with a value or rejected with an error.  The addresses that
  come out have passed the destination policy.
\<close>

definition IP_DESTINATION_POLICY_VERSION :: string where
  "IP_DESTINATION_POLICY_VERSION = ''iana-special-purpose-2025-10-09.v1''"

definition MAX_RECORDS_PER_FAMILY :: nat where "MAX_RECORDS_PER_FAMILY = 64"

datatype dns_answer = FULFILLED jsval | REJECTED jsval

record resolved_target =
  rt_canonical_host :: string
  rt_policy_version :: string
  rt_minimum_ttl_seconds :: int
  rt_resolved_at :: int
  rt_expires_at :: int
  rt_addresses :: "(string \<times> ip_family) list"

datatype resolve_fail =
    INVALID_CANONICAL_HOST
  | DNS_LOOKUP_FAILED
  | HOST_NOT_FOUND
  | INCONSISTENT_DNS_RESPONSE
  | INVALID_DNS_RESPONSE
  | NO_ADDRESS_RECORDS
  | DESTINATION_POLICY_REJECTED classify_fail
  | INVALID_RESOLUTION_TIME

definition error_code :: "jsval \<Rightarrow> string option" where
  "error_code e = as_str (get_prop e ''code'')"

definition parse_record :: "nat \<Rightarrow> jsval \<Rightarrow> (string \<times> int) option" where
  "parse_record expected_family v =
     do {
       require (exact_object v [''address'', ''ttl'']);
       address \<leftarrow> as_str_matching (\<lambda>s. \<not> (length s = 0 \<or> length s > 64 \<or> is_ip s \<noteq> expected_family))
         (get_prop v ''address'');
       ttl \<leftarrow> as_bounded 0 UINT32_MAX (get_prop v ''ttl'');
       Some (address, ttl)
     }"

definition parse_records :: "jsval \<Rightarrow> nat \<Rightarrow> (string \<times> int) list option" where
  "parse_records v expected_family =
     do {
       xs \<leftarrow> as_arr v;
       require (length xs \<le> MAX_RECORDS_PER_FAMILY);
       all_some (parse_record expected_family) xs
     }"

datatype query_state = QUERY_DATA | QUERY_NO_DATA | QUERY_NOT_FOUND | QUERY_FAILED

fun query_state_of :: "dns_answer \<Rightarrow> query_state" where
  "query_state_of (FULFILLED _) = QUERY_DATA"
| "query_state_of (REJECTED e) =
     (if error_code e = Some ''ENODATA'' then QUERY_NO_DATA
      else if error_code e = Some ''ENOTFOUND'' then QUERY_NOT_FOUND else QUERY_FAILED)"

fun records_of :: "dns_answer \<Rightarrow> nat \<Rightarrow> (string \<times> int) list option" where
  "records_of (FULFILLED v) family = parse_records v family"
| "records_of (REJECTED _) family = Some []"

definition minimum_ttl :: "int list \<Rightarrow> int" where
  "minimum_ttl ttls = foldl min (hd ttls) (tl ttls)"

definition resolve_and_classify_hostname ::
  "(string \<Rightarrow> string) \<Rightarrow> string \<Rightarrow> (string \<Rightarrow> dns_answer \<times> dns_answer) \<Rightarrow> jsval \<Rightarrow> jsval \<Rightarrow>
   resolve_fail + resolved_target" where
  "resolve_and_classify_hostname to_ascii host resolver internal_cidrs now_value =
     (if canonicalize_hostname to_ascii (JStr host) \<noteq> Inr host then Inl INVALID_CANONICAL_HOST
      else case as_bounded 0 MAX_SAFE_INTEGER now_value of
        None \<Rightarrow> Inl INVALID_RESOLUTION_TIME
      | Some now \<Rightarrow>
          (case resolver host of
             (answer4, answer6) \<Rightarrow>
               let states = [query_state_of answer4, query_state_of answer6]
               in if QUERY_FAILED \<in> set states then Inl DNS_LOOKUP_FAILED
                  else case (records_of answer4 4, records_of answer6 6) of
                    (Some records4, Some records6) \<Rightarrow>
                      let records = records4 @ records6
                      in if QUERY_NOT_FOUND \<in> set states
                         then Inl (if length records > 0 then INCONSISTENT_DNS_RESPONSE else HOST_NOT_FOUND)
                         else if length records = 0 then Inl NO_ADDRESS_RECORDS
                         else (case classify_resolved_address_set (JArr (map (JStr \<circ> fst) records)) internal_cidrs of
                                 Inl rejected \<Rightarrow> Inl (DESTINATION_POLICY_REJECTED rejected)
                               | Inr addresses \<Rightarrow>
                                   let ttl = minimum_ttl (map snd records); expires_at = now + ttl * 1000
                                   in if \<not> safe_int expires_at then Inl INVALID_RESOLUTION_TIME
                                      else Inr \<lparr>rt_canonical_host = host,
                                        rt_policy_version = IP_DESTINATION_POLICY_VERSION,
                                        rt_minimum_ttl_seconds = ttl, rt_resolved_at = now,
                                        rt_expires_at = expires_at, rt_addresses = addresses\<rparr>)
                  | _ \<Rightarrow> Inl INVALID_DNS_RESPONSE))"

subsection \<open>The classification of classified addresses\<close>

text \<open>The values of the configured ranges; only meaningful where the policy accepts them.\<close>

definition internal_ranges :: "jsval \<Rightarrow> cidr_range list option" where
  "internal_ranges configured =
     Option.bind (snapshot_configured_internal_cidrs configured) (all_some parse_cidr)"

text \<open>An address that may be contacted: a text that the policy parses to a public address.\<close>

definition approved_address :: "jsval \<Rightarrow> string \<Rightarrow> bool" where
  "approved_address configured s \<longleftrightarrow>
     (\<exists>ranges a. internal_ranges configured = Some ranges \<and> parse_ip s = Some a \<and> pi_address a = s \<and>
        public_address ranges a)"

definition address_keys :: "parsed_ip list \<Rightarrow> (ip_family \<times> int) list" where
  "address_keys = map (\<lambda>a. (pi_family a, pi_value a))"

lemma dedupe_set_new:
  "(pi_family a, pi_value a) \<notin> set (address_keys bs) \<Longrightarrow> dedupe_set bs a = bs @ [a]"
  by (induction bs) (auto simp: address_keys_def)

lemma dedupe_set_distinct: "distinct (address_keys bs) \<Longrightarrow> distinct (address_keys (dedupe_set bs a))"
proof (induction bs)
  case (Cons b bs)
  have "set (address_keys (dedupe_set bs a)) = insert (pi_family a, pi_value a) (set (address_keys bs))"
    using dedupe_set_keys [of bs a] by (simp add: address_keys_def)
  then show ?case using Cons by (auto simp: address_keys_def)
qed (simp add: address_keys_def)

lemma dedupe_distinct: "distinct (address_keys (dedupe as))"
proof -
  have "distinct (address_keys bs) \<Longrightarrow> distinct (address_keys (foldl dedupe_set bs as))" for bs
    by (induction as arbitrary: bs) (simp_all add: dedupe_set_distinct)
  from this [of "[]"] show ?thesis by (simp add: dedupe_def address_keys_def)
qed

lemma dedupe_id: "distinct (address_keys as) \<Longrightarrow> dedupe as = as"
proof -
  have "distinct (address_keys (bs @ as)) \<Longrightarrow> foldl dedupe_set bs as = bs @ as" for bs
  proof (induction as arbitrary: bs)
    case (Cons a as)
    then have "dedupe_set bs a = bs @ [a]"
      by (intro dedupe_set_new) (auto simp: address_keys_def)
    with Cons show ?case by simp
  qed simp
  from this [of "[]"] show "distinct (address_keys as) \<Longrightarrow> dedupe as = as" by (simp add: dedupe_def)
qed

lemma all_some_parse:
  "all_some parse_address_value xs = Some ps \<Longrightarrow> p \<in> set ps \<Longrightarrow> parse_ip (pi_address p) = Some p"
proof -
  assume a: "all_some parse_address_value xs = Some ps" "p \<in> set ps"
  then obtain x where "parse_address_value x = Some p" by (blast dest: all_some_set)
  then obtain s where "parse_ip s = Some p" by (auto simp: parse_address_value_def split: jsval.splits)
  then show ?thesis by (rule parse_ip_canonical)
qed

lemma parse_canonical_texts:
  "\<forall>p \<in> set ps. parse_ip (pi_address p) = Some p \<Longrightarrow>
   all_some parse_address_value (map (JStr \<circ> pi_address) ps) = Some ps"
  by (induction ps) (simp_all add: parse_address_value_def)

lemma dedupe_nonempty: "as \<noteq> [] \<Longrightarrow> dedupe as \<noteq> []"
  using dedupe_keys [of as] by auto

lemma length_dedupe: "length (dedupe as) \<le> length as"
proof -
  have one: "length (dedupe_set bs a) \<le> Suc (length bs)" for bs a by (induction bs) auto
  have "length (foldl dedupe_set bs as) \<le> length bs + length as" for bs
  proof (induction as arbitrary: bs)
    case (Cons a as)
    show ?case using Cons.IH [of "dedupe_set bs a"] one [of bs a] by simp
  qed simp
  from this [of "[]"] show ?thesis by (simp add: dedupe_def)
qed

text \<open>The policy accepts what it has accepted, unchanged.\<close>

lemma classify_again:
  assumes "classify_resolved_address_set v configured = Inr out"
  shows "classify_resolved_address_set (JArr (map (JStr \<circ> fst) out)) configured = Inr out"
    "out \<noteq> []" "length out \<le> MAX_RESOLVED_ADDRESSES"
    "\<forall>(s, f) \<in> set out. approved_address configured s \<and> (\<exists>a. parse_ip s = Some a \<and> pi_family a = f)"
    "distinct (map fst out)"
proof -
  obtain xs cidrs ranges parsed where c: "v = JArr xs" "xs \<noteq> []" "length xs \<le> MAX_RESOLVED_ADDRESSES"
    "snapshot_configured_internal_cidrs configured = Some cidrs" "all_some parse_cidr cidrs = Some ranges"
    "all_some parse_address_value xs = Some parsed"
    "\<forall>a \<in> set (dedupe parsed). block_reason a ranges = None"
    "out = map (\<lambda>a. (pi_address a, pi_family a)) (dedupe parsed)"
    using assms unfolding classify_Inr by blast
  have texts: "\<forall>p \<in> set (dedupe parsed). parse_ip (pi_address p) = Some p"
    using all_some_parse [OF c(6)] dedupe_subset by blast
  have parsed: "parsed \<noteq> []" "length (dedupe parsed) \<le> MAX_RESOLVED_ADDRESSES"
    using c(2,3) all_some_length [OF c(6)] length_dedupe [of parsed] by auto
  have again: "all_some parse_address_value (map (JStr \<circ> fst) out) = Some (dedupe parsed)"
    using parse_canonical_texts [OF texts] by (simp add: c(8) comp_def)
  show "out \<noteq> []" "length out \<le> MAX_RESOLVED_ADDRESSES"
    using parsed dedupe_nonempty by (simp_all add: c(8))
  then show "classify_resolved_address_set (JArr (map (JStr \<circ> fst) out)) configured = Inr out"
    unfolding classify_Inr using c(4,5,7,8) again dedupe_id [OF dedupe_distinct [of parsed]]
    by (intro exI conjI) (rule refl | assumption | simp)+
  have ranges: "internal_ranges configured = Some ranges" using c(4,5) by (simp add: internal_ranges_def)
  show "\<forall>(s, f) \<in> set out. approved_address configured s \<and> (\<exists>a. parse_ip s = Some a \<and> pi_family a = f)"
    using texts c(7) block_reason_None [OF ranges_aligned [OF c(5)]] ranges
    by (auto simp: c(8) approved_address_def)
  have "inj_on pi_address (set (dedupe parsed))" using texts by (metis inj_onI option.inject)
  moreover have "distinct (dedupe parsed)"
    using dedupe_distinct [of parsed] by (simp add: address_keys_def distinct_map)
  ultimately show "distinct (map fst out)" by (simp add: c(8) comp_def distinct_map)
qed

lemma parse_records_ttl:
  assumes "parse_records v f = Some rs" "(a, t) \<in> set rs" shows "0 \<le> t \<and> t \<le> UINT32_MAX"
proof -
  obtain xs where "all_some (parse_record f) xs = Some rs"
    using assms(1) by (auto simp: parse_records_def Option.bind_eq_Some_conv)
  then obtain x where "parse_record f x = Some (a, t)" using assms(2) by (blast dest: all_some_set)
  then show ?thesis by (auto simp: parse_record_def Option.bind_eq_Some_conv as_bounded_Some)
qed

lemma records_of_ttl: "records_of answer f = Some rs \<Longrightarrow> (a, t) \<in> set rs \<Longrightarrow> 0 \<le> t \<and> t \<le> UINT32_MAX"
  using parse_records_ttl by (cases answer) (auto simp: split_beta)

lemma minimum_ttl_member: "ts \<noteq> [] \<Longrightarrow> minimum_ttl ts \<in> set ts"
proof -
  have "foldl min t ts \<in> insert t (set ts)" for t and ts :: "int list"
  proof (induction ts arbitrary: t)
    case (Cons u ts)
    show ?case using Cons.IH [of "min t u"] by (auto simp: min_def split: if_splits)
  qed simp
  then show "ts \<noteq> [] \<Longrightarrow> minimum_ttl ts \<in> set ts" by (cases ts) (auto simp: minimum_ttl_def)
qed

lemma minimum_ttl_least: "t \<in> set ts \<Longrightarrow> minimum_ttl ts \<le> t"
proof -
  have "foldl min t ts \<le> t \<and> (\<forall>u \<in> set ts. foldl min t ts \<le> u)" for t and ts :: "int list"
  proof (induction ts arbitrary: t)
    case (Cons u ts)
    show ?case using Cons.IH [of "min t u"] by auto
  qed simp
  then show "t \<in> set ts \<Longrightarrow> minimum_ttl ts \<le> t" by (cases ts) (auto simp: minimum_ttl_def)
qed

lemma resolved_parts:
  assumes "resolve_and_classify_hostname to_ascii host resolver cidrs now_value = Inr t"
  obtains now v where "now_value = JNum now" "0 \<le> now" "safe_int now"
    "canonicalize_hostname to_ascii (JStr host) = Inr host"
    "t = \<lparr>rt_canonical_host = host, rt_policy_version = IP_DESTINATION_POLICY_VERSION,
       rt_minimum_ttl_seconds = rt_minimum_ttl_seconds t, rt_resolved_at = now,
       rt_expires_at = now + rt_minimum_ttl_seconds t * 1000, rt_addresses = rt_addresses t\<rparr>"
    "safe_int (now + rt_minimum_ttl_seconds t * 1000)"
    "0 \<le> rt_minimum_ttl_seconds t" "rt_minimum_ttl_seconds t \<le> UINT32_MAX"
    "classify_resolved_address_set v cidrs = Inr (rt_addresses t)"
proof -
  obtain now where now: "as_bounded 0 MAX_SAFE_INTEGER now_value = Some now"
    and host: "canonicalize_hostname to_ascii (JStr host) = Inr host"
    using assms by (auto simp: resolve_and_classify_hostname_def split: if_splits option.splits)
  obtain answer4 answer6 where answers: "resolver host = (answer4, answer6)" by (cases "resolver host")
  note run = assms [unfolded resolve_and_classify_hostname_def now answers option.case prod.case Let_def, simplified host]
  obtain records4 records6 where records: "records_of answer4 4 = Some records4" "records_of answer6 6 = Some records6"
    using run by (auto split: if_splits option.splits)
  define ttls where "ttls = map snd (records4 @ records6)"
  obtain addresses where c: "classify_resolved_address_set (JArr (map (JStr \<circ> fst) (records4 @ records6))) cidrs = Inr addresses"
    and t: "t = \<lparr>rt_canonical_host = host, rt_policy_version = IP_DESTINATION_POLICY_VERSION,
       rt_minimum_ttl_seconds = minimum_ttl ttls, rt_resolved_at = now,
       rt_expires_at = now + minimum_ttl ttls * 1000, rt_addresses = addresses\<rparr>"
    and safe: "safe_int (now + minimum_ttl ttls * 1000)" and ne: "ttls \<noteq> []"
    using run by (auto simp: records ttls_def split: if_splits sum.splits)
  have "minimum_ttl ttls \<in> set ttls" by (rule minimum_ttl_member [OF ne])
  then have "0 \<le> minimum_ttl ttls \<and> minimum_ttl ttls \<le> UINT32_MAX"
    using records_of_ttl [OF records(1)] records_of_ttl [OF records(2)] by (auto simp: ttls_def)
  with now host c t safe show ?thesis by (intro that) (auto simp: as_bounded_Some)
qed

end
