(* ===== verification/Pinned_Request.thy ===== *)
theory Pinned_Request
  imports Target_Resolver
begin

section \<open>Requests pinned to a resolved address\<close>

text \<open>
  Models \<^verbatim>\<open>apps/api/src/target/pinned-request.ts\<close>: a resolved target is checked again, its
  freshness is compared with the clock, and the request is bound to one of its addresses by the lookup
  function that the HTTP client is given.
\<close>

definition TARGET_KEYS :: "string list" where
  "TARGET_KEYS = [''canonical_host'', ''policy_version'', ''minimum_ttl_seconds'', ''resolved_at_unix_ms'',
     ''expires_at_unix_ms'', ''addresses'']"

definition PIN_REQUEST_KEYS :: "string list" where
  "PIN_REQUEST_KEYS = [''protocol'', ''method'', ''path'', ''pinned_address'', ''now_unix_ms'']"

datatype pin_fail =
    PIN_INVALID_TARGET
  | STALE_RESOLUTION
  | PIN_INVALID_REQUEST
  | PIN_NOT_APPROVED
  | PIN_POLICY_REJECTED

text \<open>\<^verbatim>\<open>/[#\\]/u\<close> and \<^verbatim>\<open>/^[\x21-\x7e]+$/u\<close>\<close>

definition is_valid_origin_form_path :: "string \<Rightarrow> bool" where
  "is_valid_origin_form_path s \<longleftrightarrow>
     length s > 0 \<and> length s \<le> 2048 \<and> starts_with ''/'' s \<and> \<not> starts_with ''//'' s \<and>
     \<not> list_ex (\<lambda>c. c = CHR ''#'' \<or> c = CHR 0x5C) s \<and>
     list_all (\<lambda>c. 33 \<le> code_of c \<and> code_of c \<le> 126) s"

record pinned_request =
  pr_protocol :: string
  pr_method :: string
  pr_path :: string
  pr_pinned_address :: string
  pr_now :: int

definition parse_spec :: "jsval \<Rightarrow> pinned_request option" where
  "parse_spec v =
     do {
       require (exact_object v PIN_REQUEST_KEYS);
       protocol \<leftarrow> as_str_matching (\<lambda>s. s = ''http:'' \<or> s = ''https:'') (get_prop v ''protocol'');
       method \<leftarrow> as_str_matching (\<lambda>s. s = ''GET'' \<or> s = ''HEAD'') (get_prop v ''method'');
       path \<leftarrow> as_str_matching is_valid_origin_form_path (get_prop v ''path'');
       address \<leftarrow> as_str (get_prop v ''pinned_address'');
       now \<leftarrow> as_bounded 0 MAX_SAFE_INTEGER (get_prop v ''now_unix_ms'');
       Some \<lparr>pr_protocol = protocol, pr_method = method, pr_path = path, pr_pinned_address = address,
         pr_now = now\<rparr>
     }"

datatype parsed_target = TARGET_OK resolved_target | TARGET_POLICY_REJECTED | TARGET_INVALID

definition parse_family :: "jsval \<Rightarrow> ip_family option" where
  "parse_family v = (if v = JNum 4 then Some IPv4 else if v = JNum 6 then Some IPv6 else None)"

definition parse_entry :: "jsval \<Rightarrow> (string \<times> ip_family) option" where
  "parse_entry v =
     do {
       require (exact_object v [''address'', ''family'']);
       address \<leftarrow> as_str (get_prop v ''address'');
       family \<leftarrow> parse_family (get_prop v ''family'');
       Some (address, family)
     }"

text \<open>The checks before the addresses are read.\<close>

definition parse_target_frame ::
  "(string \<Rightarrow> string) \<Rightarrow> jsval \<Rightarrow> (string \<times> int \<times> int \<times> int \<times> jsval list) option" where
  "parse_target_frame to_ascii v =
     do {
       require (exact_object v TARGET_KEYS);
       host \<leftarrow> as_str (get_prop v ''canonical_host'');
       require (canonicalize_hostname to_ascii (JStr host) = Inr host);
       require (get_prop v ''policy_version'' = JStr IP_DESTINATION_POLICY_VERSION);
       ttl \<leftarrow> as_bounded 0 UINT32_MAX (get_prop v ''minimum_ttl_seconds'');
       resolved_at \<leftarrow> as_bounded 0 MAX_SAFE_INTEGER (get_prop v ''resolved_at_unix_ms'');
       expires_at \<leftarrow> as_bounded 0 MAX_SAFE_INTEGER (get_prop v ''expires_at_unix_ms'');
       entries \<leftarrow> as_arr (get_prop v ''addresses'');
       require (\<not> (length entries = 0 \<or> length entries > 64));
       require (safe_int (resolved_at + ttl * 1000) \<and> resolved_at + ttl * 1000 = expires_at);
       Some (host, ttl, resolved_at, expires_at, entries)
     }"

definition parse_target :: "(string \<Rightarrow> string) \<Rightarrow> jsval \<Rightarrow> jsval \<Rightarrow> parsed_target" where
  "parse_target to_ascii v internal_cidrs =
     (case parse_target_frame to_ascii v of
        None \<Rightarrow> TARGET_INVALID
      | Some (host, ttl, resolved_at, expires_at, entries) \<Rightarrow>
          (case all_some parse_entry entries of
             None \<Rightarrow> TARGET_INVALID
           | Some supplied \<Rightarrow>
               (case classify_resolved_address_set (JArr (map (JStr \<circ> fst) supplied)) internal_cidrs of
                  Inl _ \<Rightarrow> TARGET_POLICY_REJECTED
                | Inr addresses \<Rightarrow>
                    if addresses \<noteq> supplied then TARGET_INVALID
                    else TARGET_OK \<lparr>rt_canonical_host = host,
                      rt_policy_version = IP_DESTINATION_POLICY_VERSION, rt_minimum_ttl_seconds = ttl,
                      rt_resolved_at = resolved_at, rt_expires_at = expires_at,
                      rt_addresses = supplied\<rparr>)))"

subsection \<open>The lookup function\<close>

text \<open>
  \<^verbatim>\<open>options.family\<close> may be missing.  The answer is one address, or a list of one when
  \<^verbatim>\<open>options.all\<close> is set; \<open>None\<close> is the error \<^verbatim>\<open>EPERM\<close>.
\<close>

datatype lookup_answer = LOOKUP_ONE "string \<times> ip_family" | LOOKUP_LIST "(string \<times> ip_family) list"

definition family_number :: "ip_family \<Rightarrow> int" where
  "family_number f = (case f of IPv4 \<Rightarrow> 4 | IPv6 \<Rightarrow> 6)"

definition pinned_lookup ::
  "string \<Rightarrow> string \<times> ip_family \<Rightarrow> string \<Rightarrow> jsval \<Rightarrow> bool \<Rightarrow> lookup_answer option" where
  "pinned_lookup canonical_host pinned hostname family all =
     (if hostname \<noteq> canonical_host \<or>
         (family \<noteq> JUndef \<and> family \<noteq> JNum 0 \<and> family \<noteq> JNum (family_number (snd pinned)))
      then None
      else if all then Some (LOOKUP_LIST [pinned]) else Some (LOOKUP_ONE pinned))"

subsection \<open>Request options\<close>

text \<open>
  The members of the options that vary; \<^verbatim>\<open>servername\<close>, \<^verbatim>\<open>rejectUnauthorized\<close> and the
  certificate check against the host are set together, for \<^verbatim>\<open>https:\<close> only.
\<close>

record pinned_options =
  po_protocol :: string
  po_host :: string
  po_port :: int
  po_method :: string
  po_path :: string
  po_headers :: "(string \<times> string) list"
  po_family :: ip_family
  po_lookup :: "string \<Rightarrow> jsval \<Rightarrow> bool \<Rightarrow> lookup_answer option"
  po_verified_server :: "string option"

definition create_pinned_request_options ::
  "(string \<Rightarrow> string) \<Rightarrow> jsval \<Rightarrow> jsval \<Rightarrow> jsval \<Rightarrow> pin_fail + pinned_options" where
  "create_pinned_request_options to_ascii target_value request_value internal_cidrs =
     (case parse_target to_ascii target_value internal_cidrs of
        TARGET_POLICY_REJECTED \<Rightarrow> Inl PIN_POLICY_REJECTED
      | TARGET_INVALID \<Rightarrow> Inl PIN_INVALID_TARGET
      | TARGET_OK target \<Rightarrow>
          (case parse_spec request_value of
             None \<Rightarrow> Inl PIN_INVALID_REQUEST
           | Some spec \<Rightarrow>
               if pr_now spec < rt_resolved_at target then Inl PIN_INVALID_TARGET
               else if pr_now spec \<ge> rt_expires_at target then Inl STALE_RESOLUTION
               else (case find (\<lambda>(address, _). address = pr_pinned_address spec) (rt_addresses target) of
                       None \<Rightarrow> Inl PIN_NOT_APPROVED
                     | Some pinned \<Rightarrow>
                         let host = rt_canonical_host target
                         in Inr \<lparr>po_protocol = pr_protocol spec, po_host = host,
                              po_port = (if pr_protocol spec = ''https:'' then 443 else 80),
                              po_method = pr_method spec, po_path = pr_path spec,
                              po_headers = [(''host'', host), (''accept'', ''*/*''),
                                (''connection'', ''close''), (''user-agent'', ''OUTSCAN/1.0'')],
                              po_family = snd pinned, po_lookup = pinned_lookup host pinned,
                              po_verified_server =
                                (if pr_protocol spec = ''https:'' then Some host else None)\<rparr>)))"

subsection \<open>Targets of the resolver\<close>

text \<open>The objects that the flow passes on.\<close>

definition entry_object :: "string \<times> ip_family \<Rightarrow> jsval" where
  "entry_object e = JObj [(''address'', JStr (fst e)), (''family'', JNum (family_number (snd e)))]"

definition target_object :: "resolved_target \<Rightarrow> jsval" where
  "target_object t = JObj
     [(''canonical_host'', JStr (rt_canonical_host t)), (''policy_version'', JStr (rt_policy_version t)),
      (''minimum_ttl_seconds'', JNum (rt_minimum_ttl_seconds t)), (''resolved_at_unix_ms'', JNum (rt_resolved_at t)),
      (''expires_at_unix_ms'', JNum (rt_expires_at t)), (''addresses'', JArr (map entry_object (rt_addresses t)))]"

definition spec_object :: "pinned_request \<Rightarrow> jsval" where
  "spec_object r = JObj
     [(''protocol'', JStr (pr_protocol r)), (''method'', JStr (pr_method r)), (''path'', JStr (pr_path r)),
      (''pinned_address'', JStr (pr_pinned_address r)), (''now_unix_ms'', JNum (pr_now r))]"

lemma parse_entry_object [simp]: "parse_entry (entry_object e) = Some e"
  by (cases e; cases "snd e")
    (simp_all add: parse_entry_def entry_object_def exact_object_def parse_family_def family_number_def)

lemma parse_entry_objects [simp]: "all_some parse_entry (map entry_object es) = Some es"
  by (induction es) simp_all

definition valid_spec :: "pinned_request \<Rightarrow> bool" where
  "valid_spec r \<longleftrightarrow> pr_protocol r \<in> {''http:'', ''https:''} \<and> pr_method r \<in> {''GET'', ''HEAD''} \<and>
     is_valid_origin_form_path (pr_path r) \<and> 0 \<le> pr_now r \<and> safe_int (pr_now r)"

lemma parse_spec_object: "parse_spec (spec_object r) = (if valid_spec r then Some r else None)"
  by (auto simp: parse_spec_def spec_object_def valid_spec_def exact_object_def PIN_REQUEST_KEYS_def
      as_str_matching_def as_bounded_def safe_int_def require_def)

text \<open>What the resolver answers passes the second check, as it is.\<close>

lemma parse_resolved:
  assumes "resolve_and_classify_hostname to_ascii host resolver cidrs now_value = Inr t"
  shows "parse_target to_ascii (target_object t) cidrs = TARGET_OK t"
proof -
  obtain now v where r: "0 \<le> now" "safe_int now" "canonicalize_hostname to_ascii (JStr host) = Inr host"
    "t = \<lparr>rt_canonical_host = host, rt_policy_version = IP_DESTINATION_POLICY_VERSION,
       rt_minimum_ttl_seconds = rt_minimum_ttl_seconds t, rt_resolved_at = now,
       rt_expires_at = now + rt_minimum_ttl_seconds t * 1000, rt_addresses = rt_addresses t\<rparr>"
    "safe_int (now + rt_minimum_ttl_seconds t * 1000)"
    "0 \<le> rt_minimum_ttl_seconds t" "rt_minimum_ttl_seconds t \<le> UINT32_MAX"
    "classify_resolved_address_set v cidrs = Inr (rt_addresses t)"
    by (rule resolved_parts [OF assms])
  note c = classify_again [OF r(8)]
  have fields: "rt_canonical_host t = host" "rt_policy_version t = IP_DESTINATION_POLICY_VERSION"
    "rt_resolved_at t = now" "rt_expires_at t = now + rt_minimum_ttl_seconds t * 1000"
    by (subst r(4), simp)+
  have safe: "safe_int (rt_minimum_ttl_seconds t)"
    using r(6,7) by (simp add: safe_int_def UINT32_MAX_def MAX_SAFE_INTEGER_def)
  have "exact_object (target_object t) TARGET_KEYS"
    by (simp add: exact_object_def target_object_def TARGET_KEYS_def)
  then have "parse_target_frame to_ascii (target_object t) =
      Some (host, rt_minimum_ttl_seconds t, now, now + rt_minimum_ttl_seconds t * 1000,
        map entry_object (rt_addresses t))"
    using r(1-3,5-7) safe c(2,3)
    by (simp add: parse_target_frame_def target_object_def fields as_bounded_def require_def safe_int_def
        MAX_RESOLVED_ADDRESSES_def)
  then show ?thesis
    unfolding parse_target_def using c(1) r(4) by (simp add: comp_def)
qed

end
