(* ===== verification/Pinned_Transport.thy ===== *)
theory Pinned_Transport
  imports Pinned_Request Byte_Codec
begin

section \<open>One HTTP exchange\<close>

text \<open>
  Models \<^verbatim>\<open>apps/api/src/target/pinned-transport.ts\<close>.  The HTTP client and its socket are the
  sequence of events they deliver: the socket connects, the response begins, data arrive, the
  stream ends, something fails, the timer fires.  Each listener of the code is one case of
  \<open>transport_step\<close>; the first result settles the exchange and later events change nothing.
\<close>

definition MAX_TIMEOUT_MS :: int where "MAX_TIMEOUT_MS = 30000"
definition MAX_RESPONSE_BYTES :: int where "MAX_RESPONSE_BYTES = 2 * 1024 * 1024"
definition MAX_HEADER_PAIRS :: int where "MAX_HEADER_PAIRS = 100"
definition MAX_HEADER_BYTES :: int where "MAX_HEADER_BYTES = 64 * 1024"

record transport_limits =
  tl_timeout_ms :: int
  tl_max_response_bytes :: int
  tl_max_header_pairs :: int
  tl_max_header_bytes :: int

definition TRANSPORT_LIMIT_KEYS :: "string list" where
  "TRANSPORT_LIMIT_KEYS =
     [''timeout_ms'', ''max_response_bytes'', ''max_header_pairs'', ''max_header_bytes'']"

definition parse_pinned_transport_limits :: "jsval \<Rightarrow> transport_limits option" where
  "parse_pinned_transport_limits v =
     do {
       require (exact_object v TRANSPORT_LIMIT_KEYS);
       timeout \<leftarrow> as_bounded 100 MAX_TIMEOUT_MS (get_prop v ''timeout_ms'');
       response \<leftarrow> as_bounded 1 MAX_RESPONSE_BYTES (get_prop v ''max_response_bytes'');
       pairs \<leftarrow> as_bounded 1 MAX_HEADER_PAIRS (get_prop v ''max_header_pairs'');
       bytes \<leftarrow> as_bounded 1 MAX_HEADER_BYTES (get_prop v ''max_header_bytes'');
       Some \<lparr>tl_timeout_ms = timeout, tl_max_response_bytes = response, tl_max_header_pairs = pairs,
         tl_max_header_bytes = bytes\<rparr>
     }"

datatype transport_fail =
    INVALID_LIMITS
  | TRANSPORT_INIT_FAILED
  | TRANSPORT_ERROR
  | TRANSPORT_TIMEOUT
  | PIN_MISMATCH
  | INVALID_RESPONSE
  | RESPONSE_HEADERS_REJECTED
  | RESPONSE_TOO_LARGE
  | PLAN_REFUSED pin_fail

record transport_response =
  tr_status_code :: int
  tr_headers :: "(string \<times> string) list"
  tr_body :: bytes
  tr_connected_address :: string

type_synonym transport_result = "transport_fail + transport_response"

definition normalized_address :: "jsval \<Rightarrow> string option" where
  "normalized_address v =
     (case as_str v of
        None \<Rightarrow> None
      | Some s \<Rightarrow>
          (case classify_resolved_address_set (JArr [JStr s]) (JArr []) of
             Inl _ \<Rightarrow> None
           | Inr [] \<Rightarrow> None
           | Inr (a # _) \<Rightarrow> Some (fst a)))"

subsection \<open>Headers\<close>

definition header_name_char :: "char \<Rightarrow> bool" where
  "header_name_char c \<longleftrightarrow>
     is_lower c \<or> is_digit c \<or> c \<in> set ''!#$%&*+.^_`|~-'' \<or> c = CHR 0x27"

definition header_name :: "string \<Rightarrow> bool" where
  "header_name s \<longleftrightarrow> s \<noteq> [] \<and> list_all header_name_char s"

text \<open>\<^verbatim>\<open>/[\0\r\n]/u\<close>\<close>

definition breaks_line :: "string \<Rightarrow> bool" where
  "breaks_line s \<longleftrightarrow> list_ex (\<lambda>c. c = CHR 0x00 \<or> c = CHR 0x0D \<or> c = CHR 0x0A) s"

fun parse_header_pairs ::
  "int \<Rightarrow> int \<Rightarrow> (string \<times> string) list \<Rightarrow> jsval list \<Rightarrow> (string \<times> string) list option" where
  "parse_header_pairs maximum sofar headers [] = Some headers"
| "parse_header_pairs maximum sofar headers [_] = None"
| "parse_header_pairs maximum sofar headers (raw_name # raw_value # rest) =
     (case (as_str raw_name, as_str raw_value) of
        (Some upper, Some text) \<Rightarrow>
          let name = js_lower upper; sofar' = sofar + int (length (utf8 name)) + int (length (utf8 text))
          in if length name = 0 \<or> length name > 256 \<or> \<not> header_name name \<or> length text > 8192 \<or>
                breaks_line text
             then None
             else if sofar' > maximum then None
             else parse_header_pairs maximum sofar' (headers @ [(name, text)]) rest
      | _ \<Rightarrow> None)"

definition parse_headers :: "jsval \<Rightarrow> transport_limits \<Rightarrow> (string \<times> string) list option" where
  "parse_headers v limits =
     (case as_arr v of
        None \<Rightarrow> None
      | Some raw \<Rightarrow>
          if length raw mod 2 \<noteq> 0 then None
          else if int (length raw div 2) > tl_max_header_pairs limits then None
          else parse_header_pairs (tl_max_header_bytes limits) 0 [] raw)"

text \<open>\<^verbatim>\<open>/^(0|[1-9][0-9]*)$/u\<close>\<close>

definition length_pattern :: "string \<Rightarrow> bool" where
  "length_pattern s \<longleftrightarrow> s = ''0'' \<or> (s \<noteq> [] \<and> list_all is_digit s \<and> hd s \<noteq> CHR ''0'')"

definition declared_length :: "(string \<times> string) list \<Rightarrow> (bool \<times> int) option" where
  "declared_length headers =
     (case filter (\<lambda>h. fst h = ''content-length'') headers of
        [] \<Rightarrow> Some (False, 0)
      | [h] \<Rightarrow>
          if \<not> length_pattern (snd h) then None
          else let n = digits_value 10 (snd h) in if safe_int n then Some (True, n) else None
      | _ \<Rightarrow> None)"

definition has_transfer_encoding :: "(string \<times> string) list \<Rightarrow> bool" where
  "has_transfer_encoding headers \<longleftrightarrow> list_ex (\<lambda>h. fst h = ''transfer-encoding'') headers"

subsection \<open>The exchange\<close>

datatype transport_event =
    CONNECTED jsval
  | RESPONSE jsval jsval
  | DATA jsval
  | ABORTED
  | RESPONSE_ERROR
  | RESPONSE_END bool
  | REQUEST_ERROR
  | TIMER_FIRED

record pending_response =
  pe_status :: int
  pe_headers :: "(string \<times> string) list"
  pe_declared :: "bool \<times> int"
  pe_address :: string
  pe_body :: bytes

record transport_state =
  ts_connect_seen :: bool
  ts_connected_address :: "string option"
  ts_response :: "pending_response option"

definition begin_response ::
  "transport_limits \<Rightarrow> string option \<Rightarrow> jsval \<Rightarrow> jsval \<Rightarrow> transport_fail + pending_response" where
  "begin_response limits connected status_value raw_headers =
     (case connected of
        None \<Rightarrow> Inl PIN_MISMATCH
      | Some address \<Rightarrow>
          (case as_bounded 100 599 status_value of
             None \<Rightarrow> Inl INVALID_RESPONSE
           | Some status \<Rightarrow>
               (case parse_headers raw_headers limits of
                  None \<Rightarrow> Inl RESPONSE_HEADERS_REJECTED
                | Some headers \<Rightarrow>
                    (case declared_length headers of
                       None \<Rightarrow> Inl INVALID_RESPONSE
                     | Some declared \<Rightarrow>
                         if fst declared \<and> has_transfer_encoding headers then Inl INVALID_RESPONSE
                         else if snd declared > tl_max_response_bytes limits then Inl RESPONSE_TOO_LARGE
                         else Inr \<lparr>pe_status = status, pe_headers = headers, pe_declared = declared,
                                pe_address = address, pe_body = []\<rparr>))))"

fun chunk_bytes :: "jsval \<Rightarrow> bytes option" where
  "chunk_bytes (JStr s) = Some (utf8 s)"
| "chunk_bytes (JBytes b) = Some b"
| "chunk_bytes _ = None"

definition absorb_chunk ::
  "transport_limits \<Rightarrow> pending_response \<Rightarrow> jsval \<Rightarrow> transport_fail + pending_response" where
  "absorb_chunk limits r chunk =
     (case chunk_bytes chunk of
        None \<Rightarrow> Inl INVALID_RESPONSE
      | Some bytes \<Rightarrow>
          if int (length (pe_body r @ bytes)) > tl_max_response_bytes limits then Inl RESPONSE_TOO_LARGE
          else Inr (r\<lparr>pe_body := pe_body r @ bytes\<rparr>))"

definition end_response :: "pending_response \<Rightarrow> bool \<Rightarrow> transport_result" where
  "end_response r complete =
     (if \<not> complete \<or> (fst (pe_declared r) \<and> snd (pe_declared r) \<noteq> int (length (pe_body r)))
      then Inl INVALID_RESPONSE
      else Inr \<lparr>tr_status_code = pe_status r, tr_headers = pe_headers r, tr_body = pe_body r,
             tr_connected_address = pe_address r\<rparr>)"

text \<open>A settled result, or the state in which the next event is awaited.\<close>

fun transport_step ::
  "transport_limits \<Rightarrow> jsval \<Rightarrow> transport_state \<Rightarrow> transport_event \<Rightarrow>
   transport_result + transport_state" where
  "transport_step limits pinned st (CONNECTED remote) =
     (if ts_connect_seen st then Inr st
      else case (normalized_address remote, normalized_address pinned) of
        (Some actual, Some expected) \<Rightarrow>
          if actual \<noteq> expected then Inl (Inl PIN_MISMATCH)
          else Inr (st\<lparr>ts_connect_seen := True, ts_connected_address := Some actual\<rparr>)
      | _ \<Rightarrow> Inl (Inl PIN_MISMATCH))"
| "transport_step limits pinned st (RESPONSE status raw_headers) =
     (if ts_response st \<noteq> None then Inr st
      else case begin_response limits (ts_connected_address st) status raw_headers of
        Inl code \<Rightarrow> Inl (Inl code)
      | Inr r \<Rightarrow> Inr (st\<lparr>ts_response := Some r\<rparr>))"
| "transport_step limits pinned st (DATA chunk) =
     (case ts_response st of
        None \<Rightarrow> Inr st
      | Some r \<Rightarrow>
          (case absorb_chunk limits r chunk of
             Inl code \<Rightarrow> Inl (Inl code)
           | Inr r' \<Rightarrow> Inr (st\<lparr>ts_response := Some r'\<rparr>)))"
| "transport_step limits pinned st ABORTED =
     (if ts_response st = None then Inr st else Inl (Inl TRANSPORT_ERROR))"
| "transport_step limits pinned st RESPONSE_ERROR =
     (if ts_response st = None then Inr st else Inl (Inl TRANSPORT_ERROR))"
| "transport_step limits pinned st (RESPONSE_END complete) =
     (case ts_response st of
        None \<Rightarrow> Inr st
      | Some r \<Rightarrow> Inl (end_response r complete))"
| "transport_step limits pinned st REQUEST_ERROR = Inl (Inl TRANSPORT_ERROR)"
| "transport_step limits pinned st TIMER_FIRED = Inl (Inl TRANSPORT_TIMEOUT)"

text \<open>\<open>None\<close>: the promise is still pending after these events.\<close>

fun transport_run ::
  "transport_limits \<Rightarrow> jsval \<Rightarrow> transport_state \<Rightarrow> transport_event list \<Rightarrow> transport_result option" where
  "transport_run limits pinned st [] = None"
| "transport_run limits pinned st (e # es) =
     (case transport_step limits pinned st e of
        Inl result \<Rightarrow> Some result
      | Inr st' \<Rightarrow> transport_run limits pinned st' es)"

definition initial_transport :: transport_state where
  "initial_transport = \<lparr>ts_connect_seen = False, ts_connected_address = None, ts_response = None\<rparr>"

text \<open>\<open>dispatches\<close>: the dispatcher is a function and does not throw.\<close>

definition execute_pinned_request ::
  "(string \<Rightarrow> string) \<Rightarrow> bool \<Rightarrow> transport_event list \<Rightarrow> jsval \<Rightarrow> jsval \<Rightarrow> jsval \<Rightarrow> jsval \<Rightarrow>
   transport_result option" where
  "execute_pinned_request to_ascii dispatches events target_value request_value limits_value internal_cidrs =
     (case parse_pinned_transport_limits limits_value of
        None \<Rightarrow> Some (Inl INVALID_LIMITS)
      | Some limits \<Rightarrow>
          (case create_pinned_request_options to_ascii target_value request_value internal_cidrs of
             Inl code \<Rightarrow> Some (Inl (PLAN_REFUSED code))
           | Inr options \<Rightarrow>
               if \<not> dispatches then Some (Inl TRANSPORT_INIT_FAILED)
               else transport_run limits (get_prop request_value ''pinned_address'') initial_transport events))"

subsection \<open>What an exchange can answer\<close>

definition parse_headers_bytes :: "(string \<times> string) list \<Rightarrow> int" where
  "parse_headers_bytes headers =
     sum_list (map (\<lambda>h. int (length (utf8 (fst h))) + int (length (utf8 (snd h)))) headers)"

definition safe_headers :: "(string \<times> string) list \<Rightarrow> bool" where
  "safe_headers headers \<longleftrightarrow> list_all (\<lambda>h. header_name (fst h) \<and> \<not> breaks_line (snd h)) headers"

lemma parse_header_pairs_bounds:
  "parse_header_pairs maximum sofar headers raw = Some out \<Longrightarrow> sofar = parse_headers_bytes headers \<Longrightarrow>
   sofar \<le> maximum \<Longrightarrow> safe_headers headers \<Longrightarrow>
   parse_headers_bytes out \<le> maximum \<and> 2 * length out = 2 * length headers + length raw \<and> safe_headers out"
proof (induction maximum sofar headers raw rule: parse_header_pairs.induct)
  case (3 maximum sofar headers raw_name raw_value rest)
  obtain upper val where texts: "as_str raw_name = Some upper" "as_str raw_value = Some val"
    using "3.prems"(1) by (auto split: option.splits)
  let ?name = "js_lower upper"
  let ?sofar = "sofar + int (length (utf8 ?name)) + int (length (utf8 val))"
  have ok: "header_name ?name" "\<not> breaks_line val" "?sofar \<le> maximum"
    "parse_header_pairs maximum ?sofar (headers @ [(?name, val)]) rest = Some out"
    using "3.prems"(1) by (auto simp: texts Let_def split: if_splits)
  have "parse_headers_bytes out \<le> maximum \<and> 2 * length out = 2 * length (headers @ [(?name, val)]) + length rest \<and>
      safe_headers out"
    by (rule "3.IH" [OF refl texts refl refl])
      (use ok "3.prems"(1,2,4) in \<open>auto simp: texts Let_def parse_headers_bytes_def safe_headers_def split: if_splits\<close>)
  then show ?case by simp
qed (auto simp: safe_headers_def)

definition response_bounded :: "transport_limits \<Rightarrow> pending_response \<Rightarrow> bool" where
  "response_bounded limits r \<longleftrightarrow>
     100 \<le> pe_status r \<and> pe_status r \<le> 599 \<and> int (length (pe_body r)) \<le> tl_max_response_bytes limits \<and>
     int (length (pe_headers r)) \<le> tl_max_header_pairs limits \<and>
     safe_headers (pe_headers r) \<and>
     parse_headers_bytes (pe_headers r) \<le> tl_max_header_bytes limits"

definition transport_inv :: "transport_limits \<Rightarrow> jsval \<Rightarrow> transport_event list \<Rightarrow> transport_state \<Rightarrow> bool" where
  "transport_inv limits pinned seen st \<longleftrightarrow>
     (\<forall>a. ts_connected_address st = Some a \<longrightarrow>
        normalized_address pinned = Some a \<and> (\<exists>remote. CONNECTED remote \<in> set seen \<and> normalized_address remote = Some a)) \<and>
     (\<forall>r. ts_response st = Some r \<longrightarrow> ts_connected_address st = Some (pe_address r) \<and> response_bounded limits r)"

lemma begin_response_bounded:
  assumes "begin_response limits connected status raw = Inr r" "0 \<le> tl_max_response_bytes limits" "0 \<le> tl_max_header_bytes limits"
  shows "connected = Some (pe_address r)" "response_bounded limits r"
proof -
  obtain headers where h: "parse_headers raw limits = Some headers" "pe_headers r = headers" "pe_body r = []"
    "connected = Some (pe_address r)" "100 \<le> pe_status r" "pe_status r \<le> 599"
    using assms(1) by (auto simp: begin_response_def as_bounded_Some split: option.splits if_splits)
  then obtain xs where x: "parse_header_pairs (tl_max_header_bytes limits) 0 [] xs = Some headers"
    "int (length xs div 2) \<le> tl_max_header_pairs limits"
    by (auto simp: parse_headers_def split: option.splits if_splits)
  have "parse_headers_bytes headers \<le> tl_max_header_bytes limits \<and> 2 * length headers = length xs \<and> safe_headers headers"
    using parse_header_pairs_bounds [OF x(1)] assms(3) by (simp add: parse_headers_bytes_def safe_headers_def)
  moreover from this have "length headers = length xs div 2" by linarith
  ultimately show "connected = Some (pe_address r)" "response_bounded limits r"
    using h x(2) assms(2) by (simp_all add: response_bounded_def)
qed

lemma transport_step_inv:
  assumes "transport_step limits pinned st e = Inr st'" "transport_inv limits pinned seen st"
    and "0 \<le> tl_max_response_bytes limits" "0 \<le> tl_max_header_bytes limits"
  shows "transport_inv limits pinned (e # seen) st'"
proof (cases e)
  case (RESPONSE status raw)
  then show ?thesis
    using assms(1,2) begin_response_bounded [OF _ assms(3,4)]
    by (auto simp: transport_inv_def split: if_splits sum.splits)
next
  case (DATA chunk)
  then show ?thesis
    using assms(1,2)
    by (auto simp: transport_inv_def absorb_chunk_def response_bounded_def split: option.splits sum.splits if_splits)
qed (use assms(1,2) in \<open>auto simp: transport_inv_def split: if_splits option.splits\<close>)

lemma transport_run_ok:
  assumes "transport_run limits pinned st es = Some (Inr r)" "transport_inv limits pinned seen st"
    and "0 \<le> tl_max_response_bytes limits" "0 \<le> tl_max_header_bytes limits"
  shows "normalized_address pinned = Some (tr_connected_address r) \<and>
    (\<exists>remote. CONNECTED remote \<in> set es \<union> set seen \<and> normalized_address remote = Some (tr_connected_address r)) \<and>
    100 \<le> tr_status_code r \<and> tr_status_code r \<le> 599 \<and> int (length (tr_body r)) \<le> tl_max_response_bytes limits \<and>
    int (length (tr_headers r)) \<le> tl_max_header_pairs limits \<and> safe_headers (tr_headers r) \<and>
    parse_headers_bytes (tr_headers r) \<le> tl_max_header_bytes limits"
  using assms(1,2)
proof (induction es arbitrary: st seen)
  case (Cons e es)
  show ?case
  proof (cases "transport_step limits pinned st e")
    case (Inl res)
    then have res: "res = Inr r" using Cons.prems(1) by simp
    obtain complete p where e: "e = RESPONSE_END complete" "ts_response st = Some p" "end_response p complete = Inr r"
      using Inl res by (cases e) (auto split: if_splits option.splits sum.splits)
    have r: "r = \<lparr>tr_status_code = pe_status p, tr_headers = pe_headers p, tr_body = pe_body p,
        tr_connected_address = pe_address p\<rparr>"
      using e(3) by (simp add: end_response_def split: if_splits)
    have "ts_connected_address st = Some (pe_address p)" "response_bounded limits p"
      using Cons.prems(2) e(2) by (auto simp: transport_inv_def)
    then show ?thesis using Cons.prems(2) by (auto simp: transport_inv_def response_bounded_def r)
  next
    case (Inr st')
    have "transport_inv limits pinned (e # seen) st'" by (rule transport_step_inv [OF Inr Cons.prems(2) assms(3,4)])
    from Cons.IH [OF _ this] Cons.prems(1) Inr show ?thesis by auto
  qed
qed simp

lemma transport_settles: "TIMER_FIRED \<in> set es \<Longrightarrow> transport_run limits pinned st es \<noteq> None"
  by (induction es arbitrary: st) (auto split: sum.splits)

lemma limits_parsed:
  assumes "parse_pinned_transport_limits v = Some limits"
  shows "100 \<le> tl_timeout_ms limits" "1 \<le> tl_max_response_bytes limits" "tl_max_response_bytes limits \<le> MAX_RESPONSE_BYTES"
    "1 \<le> tl_max_header_bytes limits" "tl_timeout_ms limits \<le> MAX_TIMEOUT_MS"
  using assms by (auto simp: parse_pinned_transport_limits_def Option.bind_eq_Some_conv as_bounded_Some)

lemma execute_ok:
  assumes "execute_pinned_request to_ascii dispatches events tv rv lv cidrs = Some (Inr r)"
  obtains limits options where "parse_pinned_transport_limits lv = Some limits"
    "create_pinned_request_options to_ascii tv rv cidrs = Inr options"
    "normalized_address (get_prop rv ''pinned_address'') = Some (tr_connected_address r)"
    "\<exists>remote. CONNECTED remote \<in> set events \<and> normalized_address remote = Some (tr_connected_address r)"
    "int (length (tr_body r)) \<le> tl_max_response_bytes limits" "safe_headers (tr_headers r)"
    "100 \<le> tr_status_code r" "tr_status_code r \<le> 599"
proof -
  obtain limits options where l: "parse_pinned_transport_limits lv = Some limits"
    "create_pinned_request_options to_ascii tv rv cidrs = Inr options"
    "transport_run limits (get_prop rv ''pinned_address'') initial_transport events = Some (Inr r)"
    using assms by (auto simp: execute_pinned_request_def split: option.splits sum.splits if_splits)
  have inv: "transport_inv limits (get_prop rv ''pinned_address'') [] initial_transport"
    by (simp add: transport_inv_def initial_transport_def)
  show ?thesis
    using that [OF l(1,2)] transport_run_ok [OF l(3) inv] limits_parsed [OF l(1)] by simp
qed

lemma options_pinned:
  assumes "create_pinned_request_options to_ascii tv rv cidrs = Inr options"
  obtains target spec where "parse_target to_ascii tv cidrs = TARGET_OK target" "parse_spec rv = Some spec"
    "rt_resolved_at target \<le> pr_now spec" "pr_now spec < rt_expires_at target"
    "pr_pinned_address spec \<in> fst ` set (rt_addresses target)" "po_host options = rt_canonical_host target"
    "\<exists>f. po_lookup options = pinned_lookup (rt_canonical_host target) (pr_pinned_address spec, f)"
proof -
  obtain target spec pinned where t: "parse_target to_ascii tv cidrs = TARGET_OK target" "parse_spec rv = Some spec"
    "rt_resolved_at target \<le> pr_now spec" "pr_now spec < rt_expires_at target"
    "find (\<lambda>(address, _). address = pr_pinned_address spec) (rt_addresses target) = Some pinned"
    "po_host options = rt_canonical_host target" "po_lookup options = pinned_lookup (rt_canonical_host target) pinned"
    using assms
    by (auto simp: create_pinned_request_options_def Let_def split: parsed_target.splits option.splits if_splits)
  have "pinned \<in> set (rt_addresses target)" "fst pinned = pr_pinned_address spec"
    using t(5) by (auto simp: find_Some_iff split_beta)
  then have "pr_pinned_address spec \<in> fst ` set (rt_addresses target)" "pinned = (pr_pinned_address spec, snd pinned)"
    by (metis image_eqI, metis prod.collapse)
  moreover from this(2) have "\<exists>f. po_lookup options = pinned_lookup (rt_canonical_host target) (pr_pinned_address spec, f)"
    using t(7) by metis
  ultimately have "pr_pinned_address spec \<in> fst ` set (rt_addresses target)"
    "\<exists>f. po_lookup options = pinned_lookup (rt_canonical_host target) (pr_pinned_address spec, f)" by simp_all
  then show ?thesis using that t by blast
qed

lemma target_addresses_approved:
  assumes "parse_target to_ascii tv cidrs = TARGET_OK target" "a \<in> fst ` set (rt_addresses target)"
  shows "approved_address cidrs a"
proof -
  have "classify_resolved_address_set (JArr (map (JStr \<circ> fst) (rt_addresses target))) cidrs = Inr (rt_addresses target)"
    using assms(1) by (auto simp: parse_target_def split: option.splits sum.splits if_splits)
  from classify_again(4) [OF this] assms(2) show ?thesis by auto
qed

lemma normalized_approved:
  assumes "approved_address cidrs s" shows "normalized_address (JStr s) = Some s"
proof -
  obtain ranges a where a: "parse_ip s = Some a" "pi_address a = s" "public_address ranges a"
    using assms by (auto simp: approved_address_def)
  have "public_address [] a" using a(3) by (simp add: public_address_def)
  then have "block_reason a [] = None" by (simp add: block_reason_None)
  then have "classify_resolved_address_set (JArr [JStr s]) (JArr []) = Inr [(s, pi_family a)]"
    using a(1,2) by (simp add: classify_Inr snapshot_configured_internal_cidrs_def MAX_RESOLVED_ADDRESSES_def
        MAX_CONFIGURED_INTERNAL_RANGES_def parse_address_value_def dedupe_def)
  then show ?thesis by (simp add: normalized_address_def)
qed

lemma execute_pinned:
  assumes "execute_pinned_request to_ascii dispatches events tv rv lv cidrs = Some (Inr r)"
  obtains target spec limits remote where "parse_target to_ascii tv cidrs = TARGET_OK target" "parse_spec rv = Some spec"
    "parse_pinned_transport_limits lv = Some limits"
    "rt_resolved_at target \<le> pr_now spec" "pr_now spec < rt_expires_at target"
    "tr_connected_address r = pr_pinned_address spec" "tr_connected_address r \<in> fst ` set (rt_addresses target)"
    "approved_address cidrs (tr_connected_address r)"
    "CONNECTED remote \<in> set events" "normalized_address remote = Some (tr_connected_address r)"
    "int (length (tr_body r)) \<le> tl_max_response_bytes limits" "safe_headers (tr_headers r)"
proof -
  obtain limits options remote where e: "parse_pinned_transport_limits lv = Some limits"
    "create_pinned_request_options to_ascii tv rv cidrs = Inr options"
    "normalized_address (get_prop rv ''pinned_address'') = Some (tr_connected_address r)"
    "CONNECTED remote \<in> set events" "normalized_address remote = Some (tr_connected_address r)"
    "int (length (tr_body r)) \<le> tl_max_response_bytes limits" "safe_headers (tr_headers r)"
    using execute_ok [OF assms] by metis
  obtain target spec where o: "parse_target to_ascii tv cidrs = TARGET_OK target" "parse_spec rv = Some spec"
    "rt_resolved_at target \<le> pr_now spec" "pr_now spec < rt_expires_at target"
    "pr_pinned_address spec \<in> fst ` set (rt_addresses target)"
    by (rule options_pinned [OF e(2)])
  have pinned: "get_prop rv ''pinned_address'' = JStr (pr_pinned_address spec)"
    using o(2) by (auto simp: parse_spec_def Option.bind_eq_Some_conv as_str_Some)
  have ok: "approved_address cidrs (pr_pinned_address spec)" by (rule target_addresses_approved [OF o(1,5)])
  then have "tr_connected_address r = pr_pinned_address spec"
    using e(3) normalized_approved [OF ok] by (simp add: pinned)
  with that o e ok show ?thesis by metis
qed

end
