(* ===== verification/Safe_Fetch.thy ===== *)
theory Safe_Fetch
  imports Pinned_Transport
begin

section \<open>Fetching with redirects and retries\<close>

text \<open>
  Models \<^verbatim>\<open>apps/api/src/target/safe-http-flow.ts\<close>.  The clock, the DNS answers and the transport of each
  turn of the loop are arguments (\<open>fetch_round\<close>); \<^verbatim>\<open>new URL\<close> is the parameter \<open>url\<close>, \<open>None\<close> when it
  throws.  Besides the result the flow returns how often it has asked the resolver, and its calls of the
  transport.
\<close>

definition MAX_REDIRECTS :: int where "MAX_REDIRECTS = 5"
definition MAX_RETRIES :: int where "MAX_RETRIES = 2"
definition MAX_TOTAL_RESPONSE_BYTES :: int where "MAX_TOTAL_RESPONSE_BYTES = 192 * 1024 * 1024"
definition REDIRECT_STATUSES :: "int list" where "REDIRECT_STATUSES = [301, 302, 303, 307, 308]"

definition FLOW_INPUT_KEYS :: "string list" where
  "FLOW_INPUT_KEYS = [''canonical_host'', ''protocol'', ''method'', ''path'', ''deadline_unix_ms'',
     ''max_redirects'', ''max_retries'', ''max_total_response_bytes'', ''transport_limits'']"

record current_request =
  cu_protocol :: string
  cu_method :: string
  cu_path :: string

record flow_input =
  fi_canonical_host :: string
  fi_request :: current_request
  fi_deadline :: int
  fi_max_redirects :: int
  fi_max_retries :: int
  fi_max_total_response_bytes :: int
  fi_transport_limits :: transport_limits

datatype flow_fail =
    INVALID_FLOW
  | FLOW_DEADLINE_EXCEEDED
  | INVALID_REDIRECT
  | REDIRECT_DOWNGRADE
  | REDIRECT_LIMIT_EXCEEDED
  | TOTAL_RESPONSE_LIMIT_EXCEEDED
  | ORCHESTRATION_FAILED
  | FLOW_RESOLVE resolve_fail
  | FLOW_TRANSPORT transport_fail

datatype stop_reason = COMPLETE | CROSS_HOST_REDIRECT

datatype flow_result =
    FLOW_OK transport_response int int stop_reason
  | FLOW_FAILED flow_fail

definition parse_flow_input :: "(string \<Rightarrow> string) \<Rightarrow> jsval \<Rightarrow> flow_input option" where
  "parse_flow_input to_ascii v =
     do {
       require (exact_object v FLOW_INPUT_KEYS);
       host \<leftarrow> as_str (get_prop v ''canonical_host'');
       require (canonicalize_hostname to_ascii (JStr host) = Inr host);
       protocol \<leftarrow> as_str_matching (\<lambda>s. s = ''http:'' \<or> s = ''https:'') (get_prop v ''protocol'');
       method \<leftarrow> as_str_matching (\<lambda>s. s = ''GET'' \<or> s = ''HEAD'') (get_prop v ''method'');
       path \<leftarrow> as_str_matching is_valid_origin_form_path (get_prop v ''path'');
       deadline \<leftarrow> as_bounded 0 MAX_SAFE_INTEGER (get_prop v ''deadline_unix_ms'');
       redirects \<leftarrow> as_bounded 0 MAX_REDIRECTS (get_prop v ''max_redirects'');
       retries \<leftarrow> as_bounded 0 MAX_RETRIES (get_prop v ''max_retries'');
       response_bytes \<leftarrow> as_bounded 1 MAX_TOTAL_RESPONSE_BYTES (get_prop v ''max_total_response_bytes'');
       limits \<leftarrow> parse_pinned_transport_limits (get_prop v ''transport_limits'');
       require (\<not> response_bytes < tl_max_response_bytes limits);
       Some \<lparr>fi_canonical_host = host,
         fi_request = \<lparr>cu_protocol = protocol, cu_method = method, cu_path = path\<rparr>,
         fi_deadline = deadline, fi_max_redirects = redirects, fi_max_retries = retries,
         fi_max_total_response_bytes = response_bytes, fi_transport_limits = limits\<rparr>
     }"

subsection \<open>Redirects\<close>

record url_parts =
  up_username :: string
  up_password :: string
  up_port :: string
  up_protocol :: string
  up_hostname :: string
  up_pathname :: string
  up_search :: string
  up_hash :: string

datatype redirect_decision =
    RD_NONE
  | RD_CROSS_HOST
  | RD_INVALID
  | RD_DOWNGRADE
  | RD_FOLLOW current_request

text \<open>\<^verbatim>\<open>/[\0\r\n\\]/u\<close>\<close>

definition bad_location_char :: "char \<Rightarrow> bool" where
  "bad_location_char c \<longleftrightarrow> c = CHR 0x00 \<or> c = CHR 0x0D \<or> c = CHR 0x0A \<or> c = CHR 0x5C"

definition follow_location ::
  "(string \<Rightarrow> string) \<Rightarrow> current_request \<Rightarrow> string \<Rightarrow> url_parts \<Rightarrow> redirect_decision" where
  "follow_location to_ascii current canonical_host u =
     (if up_username u \<noteq> [] \<or> up_password u \<noteq> [] \<or> up_port u \<noteq> [] then RD_INVALID
      else if up_protocol u \<noteq> ''http:'' \<and> up_protocol u \<noteq> ''https:'' then RD_INVALID
      else case canonicalize_hostname to_ascii (JStr (up_hostname u)) of
        Inl _ \<Rightarrow> RD_INVALID
      | Inr host \<Rightarrow>
          if host \<noteq> canonical_host then RD_CROSS_HOST
          else if cu_protocol current = ''https:'' \<and> up_protocol u = ''http:'' then RD_DOWNGRADE
          else let path = up_pathname u @ up_search u
               in if \<not> is_valid_origin_form_path path then RD_INVALID
                  else RD_FOLLOW \<lparr>cu_protocol = up_protocol u, cu_method = cu_method current, cu_path = path\<rparr>)"

definition redirect_decision_of ::
  "(string \<Rightarrow> string) \<Rightarrow> (string \<Rightarrow> string \<Rightarrow> url_parts option) \<Rightarrow> transport_response \<Rightarrow> current_request \<Rightarrow>
   string \<Rightarrow> redirect_decision" where
  "redirect_decision_of to_ascii url response current canonical_host =
     (if tr_status_code response \<notin> set REDIRECT_STATUSES then RD_NONE
      else case filter (\<lambda>h. fst h = ''location'') (tr_headers response) of
        [] \<Rightarrow> RD_NONE
      | [h] \<Rightarrow>
          if length (snd h) > 8192 \<or> list_ex bad_location_char (snd h) then RD_INVALID
          else (case url (snd h) (cu_protocol current @ ''//'' @ canonical_host @ cu_path current) of
                  None \<Rightarrow> RD_INVALID
                | Some u \<Rightarrow> follow_location to_ascii current canonical_host u)
      | _ \<Rightarrow> RD_INVALID)"

fun retryable :: "flow_fail \<Rightarrow> bool" where
  "retryable (FLOW_RESOLVE DNS_LOOKUP_FAILED) = True"
| "retryable (FLOW_TRANSPORT TRANSPORT_ERROR) = True"
| "retryable (FLOW_TRANSPORT TRANSPORT_TIMEOUT) = True"
| "retryable _ = False"

definition read_clock :: "jsval option \<Rightarrow> int option" where
  "read_clock v = Option.bind v (as_bounded 0 MAX_SAFE_INTEGER)"

subsection \<open>The loop\<close>

text \<open>What the world answers in one turn; a clock that throws and a transport that throws are \<open>None\<close>.\<close>

record fetch_round =
  fr_resolution_time :: "jsval option"
  fr_dns :: "string \<Rightarrow> dns_answer \<times> dns_answer"
  fr_request_time :: "jsval option"
  fr_transport :: "jsval \<Rightarrow> jsval \<Rightarrow> jsval \<Rightarrow> jsval \<Rightarrow> transport_result option"
  fr_completion_time :: "jsval option"

record dispatch =
  dp_target :: resolved_target
  dp_request :: pinned_request
  dp_limits :: transport_limits

record flow_state =
  fs_current :: current_request
  fs_retries :: int
  fs_request_count :: int
  fs_redirect_count :: int
  fs_total_response_bytes :: int
  fs_lookups :: int
  fs_dispatched :: "dispatch list"

text \<open>\<open>fs_lookups\<close> and \<open>fs_dispatched\<close> record the calls of the resolver and of the transport.\<close>

definition count_lookup :: "flow_state \<Rightarrow> flow_state" where
  "count_lookup st = st\<lparr>fs_lookups := fs_lookups st + 1\<rparr>"

definition limits_object :: "transport_limits \<Rightarrow> jsval" where
  "limits_object l = JObj
     [(''timeout_ms'', JNum (tl_timeout_ms l)), (''max_response_bytes'', JNum (tl_max_response_bytes l)),
      (''max_header_pairs'', JNum (tl_max_header_pairs l)), (''max_header_bytes'', JNum (tl_max_header_bytes l))]"

definition retry_or_fail :: "flow_input \<Rightarrow> flow_state \<Rightarrow> flow_fail \<Rightarrow> flow_result option \<times> flow_state" where
  "retry_or_fail input st code =
     (if retryable code \<and> fs_retries st < fi_max_retries input
      then (None, st\<lparr>fs_retries := fs_retries st + 1\<rparr>) else (Some (FLOW_FAILED code), st))"

definition handle_response ::
  "(string \<Rightarrow> string) \<Rightarrow> (string \<Rightarrow> string \<Rightarrow> url_parts option) \<Rightarrow> flow_input \<Rightarrow> flow_state \<Rightarrow>
   transport_response \<Rightarrow> flow_result option \<times> flow_state" where
  "handle_response to_ascii url input st response =
     (let received = fs_total_response_bytes st + int (length (tr_body response))
      in if received > fi_max_total_response_bytes input
         then (Some (FLOW_FAILED TOTAL_RESPONSE_LIMIT_EXCEEDED), st)
         else case redirect_decision_of to_ascii url response (fs_current st) (fi_canonical_host input) of
           RD_NONE \<Rightarrow> (Some (FLOW_OK response (fs_request_count st) (fs_redirect_count st) COMPLETE), st)
         | RD_CROSS_HOST \<Rightarrow>
             (Some (FLOW_OK response (fs_request_count st) (fs_redirect_count st) CROSS_HOST_REDIRECT), st)
         | RD_INVALID \<Rightarrow> (Some (FLOW_FAILED INVALID_REDIRECT), st)
         | RD_DOWNGRADE \<Rightarrow> (Some (FLOW_FAILED REDIRECT_DOWNGRADE), st)
         | RD_FOLLOW next_request \<Rightarrow>
             if fs_redirect_count st \<ge> fi_max_redirects input then (Some (FLOW_FAILED REDIRECT_LIMIT_EXCEEDED), st)
             else (None, st\<lparr>fs_redirect_count := fs_redirect_count st + 1, fs_retries := 0,
                     fs_current := next_request, fs_total_response_bytes := received\<rparr>))"

definition dispatch_of :: "flow_input \<Rightarrow> flow_state \<Rightarrow> resolved_target \<Rightarrow> int \<Rightarrow> dispatch" where
  "dispatch_of input st target request_time =
     \<lparr>dp_target = target,
      dp_request = \<lparr>pr_protocol = cu_protocol (fs_current st), pr_method = cu_method (fs_current st),
        pr_path = cu_path (fs_current st),
        pr_pinned_address =
          fst (rt_addresses target ! nat (fs_retries st mod int (length (rt_addresses target)))),
        pr_now = request_time\<rparr>,
      dp_limits = (fi_transport_limits input)\<lparr>tl_timeout_ms :=
        min (tl_timeout_ms (fi_transport_limits input)) (fi_deadline input - request_time)\<rparr>\<rparr>"

text \<open>One turn of \<^verbatim>\<open>while (true)\<close>: a result, or the state of the next turn.\<close>

definition flow_round ::
  "(string \<Rightarrow> string) \<Rightarrow> (string \<Rightarrow> string \<Rightarrow> url_parts option) \<Rightarrow> jsval \<Rightarrow> flow_input \<Rightarrow> fetch_round \<Rightarrow>
   flow_state \<Rightarrow> flow_result option \<times> flow_state" where
  "flow_round to_ascii url internal_cidrs input round st =
     (case read_clock (fr_resolution_time round) of
        None \<Rightarrow> (Some (FLOW_FAILED ORCHESTRATION_FAILED), st)
      | Some resolution_time \<Rightarrow>
          if resolution_time \<ge> fi_deadline input then (Some (FLOW_FAILED FLOW_DEADLINE_EXCEEDED), st)
          else let st0 = count_lookup st in
            case resolve_and_classify_hostname to_ascii (fi_canonical_host input) (fr_dns round)
                internal_cidrs (JNum resolution_time) of
            Inl code \<Rightarrow> retry_or_fail input st0 (FLOW_RESOLVE code)
          | Inr target \<Rightarrow>
              (case read_clock (fr_request_time round) of
                 None \<Rightarrow> (Some (FLOW_FAILED ORCHESTRATION_FAILED), st0)
               | Some request_time \<Rightarrow>
                   if fi_deadline input - request_time < 100
                   then (Some (FLOW_FAILED FLOW_DEADLINE_EXCEEDED), st0)
                   else let d = dispatch_of input st0 target request_time;
                            st1 = st0\<lparr>fs_dispatched := fs_dispatched st0 @ [d]\<rparr>
                        in case fr_transport round (target_object target) (spec_object (dp_request d))
                                  (limits_object (dp_limits d)) internal_cidrs of
                          None \<Rightarrow> (Some (FLOW_FAILED ORCHESTRATION_FAILED), st1)
                        | Some dispatched \<Rightarrow>
                            let st2 = st1\<lparr>fs_request_count := fs_request_count st1 + 1\<rparr>
                            in case dispatched of
                              Inl code \<Rightarrow> retry_or_fail input st2 (FLOW_TRANSPORT code)
                            | Inr response \<Rightarrow>
                                (case read_clock (fr_completion_time round) of
                                   None \<Rightarrow> (Some (FLOW_FAILED ORCHESTRATION_FAILED), st2)
                                 | Some completed_at \<Rightarrow>
                                     if completed_at \<ge> fi_deadline input
                                     then (Some (FLOW_FAILED FLOW_DEADLINE_EXCEEDED), st2)
                                     else handle_response to_ascii url input st2 response)))"

text \<open>Redirects and, between them, retries are bounded: the pair decreases with every turn.\<close>

definition flow_budget :: "flow_input \<Rightarrow> flow_state \<Rightarrow> nat \<times> nat" where
  "flow_budget input st =
     (nat (fi_max_redirects input - fs_redirect_count st), nat (fi_max_retries input - fs_retries st))"

lemma retry_budget:
  "retry_or_fail input st code = (None, st') \<Longrightarrow>
   st' = st\<lparr>fs_retries := fs_retries st + 1\<rparr> \<and> fs_retries st < fi_max_retries input"
  by (auto simp: retry_or_fail_def split: if_splits)

lemma response_budget:
  "handle_response to_ascii url input st r = (None, st') \<Longrightarrow>
   fs_redirect_count st' = fs_redirect_count st + 1 \<and> fs_redirect_count st < fi_max_redirects input \<and>
   fs_retries st' = 0 \<and> fs_dispatched st' = fs_dispatched st \<and> fs_request_count st' = fs_request_count st"
  by (auto simp: handle_response_def Let_def split: if_splits redirect_decision.splits)

lemma round_cases:
  assumes "flow_round to_ascii url cidrs input round st = (None, st')"
  obtains (unresolved) "st' = (count_lookup st)\<lparr>fs_retries := fs_retries st + 1\<rparr>" "fs_retries st < fi_max_retries input"
  | (refused) d where "fs_retries st < fi_max_retries input"
      "st' = (count_lookup st)\<lparr>fs_dispatched := fs_dispatched st @ [d], fs_request_count := fs_request_count st + 1,
        fs_retries := fs_retries st + 1\<rparr>"
  | (redirected) d r where "handle_response to_ascii url input
      ((count_lookup st)\<lparr>fs_dispatched := fs_dispatched st @ [d], fs_request_count := fs_request_count st + 1\<rparr>) r = (None, st')"
  using assms
  by (auto simp: flow_round_def Let_def count_lookup_def dest!: retry_budget split: option.splits if_splits sum.splits)

lemma round_budget:
  assumes "flow_round to_ascii url cidrs input round st = (None, st')"
  shows "(flow_budget input st', flow_budget input st) \<in> less_than <*lex*> less_than"
  using assms by (cases rule: round_cases) (auto simp: flow_budget_def count_lookup_def dest!: response_budget)

function flow_loop ::
  "(string \<Rightarrow> string) \<Rightarrow> (string \<Rightarrow> string \<Rightarrow> url_parts option) \<Rightarrow> jsval \<Rightarrow> flow_input \<Rightarrow> (nat \<Rightarrow> fetch_round) \<Rightarrow>
   nat \<Rightarrow> flow_state \<Rightarrow> flow_result \<times> flow_state" where
  "flow_loop to_ascii url cidrs input rounds i st =
     (case flow_round to_ascii url cidrs input (rounds i) st of
        (Some result, st') \<Rightarrow> (result, st')
      | (None, st') \<Rightarrow> flow_loop to_ascii url cidrs input rounds (i + 1) st')"
  by auto
termination
proof (relation "inv_image (less_than <*lex*> less_than) (\<lambda>(_, _, _, input, _, _, st). flow_budget input st)", goal_cases)
  case 1
  show ?case by (intro wf_inv_image wf_lex_prod wf_less_than)
next
  case (2 to_ascii url cidrs input rounds i st x y)
  then have "flow_round to_ascii url cidrs input (rounds i) st = (None, y)" by simp
  from round_budget [OF this] show ?case by (simp add: in_inv_image)
qed

definition execute_safe_http_flow ::
  "(string \<Rightarrow> string) \<Rightarrow> (string \<Rightarrow> string \<Rightarrow> url_parts option) \<Rightarrow> jsval \<Rightarrow> jsval \<Rightarrow> (nat \<Rightarrow> fetch_round) \<Rightarrow>
   flow_result \<times> int \<times> dispatch list" where
  "execute_safe_http_flow to_ascii url internal_cidrs input_value rounds =
     (case parse_flow_input to_ascii input_value of
        None \<Rightarrow> (FLOW_FAILED INVALID_FLOW, 0, [])
      | Some input \<Rightarrow>
          (case flow_loop to_ascii url internal_cidrs input rounds 0
                  \<lparr>fs_current = fi_request input, fs_retries = 0, fs_request_count = 0,
                   fs_redirect_count = 0, fs_total_response_bytes = 0, fs_lookups = 0, fs_dispatched = []\<rparr> of
             (result, st) \<Rightarrow> (result, fs_lookups st, fs_dispatched st)))"

end
