(* ===== verification/Guest_Checks.thy ===== *)
theory Guest_Checks
  imports Pinned_Transport Safe_Fetch Scanner_Output Iso_Date
begin

section \<open>What the scanner looks at in a response\<close>

text \<open>
  Models \<^verbatim>\<open>apps/api/src/guest-scanner/headers.ts\<close> and \<^verbatim>\<open>security-txt.ts\<close>: the verdicts on the
  security headers of a response and on the file \<^verbatim>\<open>/.well-known/security.txt\<close>.  \<^verbatim>\<open>new URL\<close> is the
  parameter \<open>url\<close>, \<open>None\<close> when it throws.
\<close>

subsection \<open>Headers\<close>

definition GUEST_HTTP_HEADER_CHECKS :: "string list" where
  "GUEST_HTTP_HEADER_CHECKS =
     [''HTTP_HSTS'', ''HTTP_CSP'', ''HTTP_X_CONTENT_TYPE_OPTIONS'', ''HTTP_FRAME_PROTECTION'',
      ''HTTP_REFERRER_POLICY'', ''HTTP_PERMISSIONS_POLICY'']"

definition SAFE_REFERRER_POLICIES :: "string list" where
  "SAFE_REFERRER_POLICIES =
     [''no-referrer'', ''origin'', ''origin-when-cross-origin'', ''same-origin'', ''strict-origin'',
      ''strict-origin-when-cross-origin'']"

definition ENFORCING_CSP_DIRECTIVES :: "string list" where
  "ENFORCING_CSP_DIRECTIVES =
     [''base-uri'', ''child-src'', ''connect-src'', ''default-src'', ''font-src'', ''form-action'',
      ''frame-ancestors'', ''frame-src'', ''img-src'', ''manifest-src'', ''media-src'', ''object-src'',
      ''sandbox'', ''script-src'', ''script-src-attr'', ''script-src-elem'', ''style-src'', ''style-src-attr'',
      ''style-src-elem'', ''upgrade-insecure-requests'', ''worker-src'']"

definition header_values :: "(string \<times> string) list \<Rightarrow> string \<Rightarrow> string list" where
  "header_values headers name = map snd (filter (\<lambda>h. fst h = name) headers)"

definition single :: "(string \<times> string) list \<Rightarrow> string \<Rightarrow> string option" where
  "single headers name =
     (case header_values headers name of
        [v] \<Rightarrow> if length (js_trim v) > 0 then Some (js_trim v) else None
      | _ \<Rightarrow> None)"

text \<open>\<^verbatim>\<open>/^[a-z][a-z-]*$/u\<close> and \<^verbatim>\<open>/^[a-z][a-z0-9-]*$/u\<close>\<close>

definition hsts_name :: "string \<Rightarrow> bool" where
  "hsts_name s \<longleftrightarrow>
     (case s of [] \<Rightarrow> False | c # cs \<Rightarrow> is_lower c \<and> list_all (\<lambda>d. is_lower d \<or> d = CHR ''-'') cs)"

definition feature_name :: "string \<Rightarrow> bool" where
  "feature_name s \<longleftrightarrow>
     (case s of [] \<Rightarrow> False
      | c # cs \<Rightarrow> is_lower c \<and> list_all (\<lambda>d. is_lower d \<or> is_digit d \<or> d = CHR ''-'') cs)"

definition until :: "char \<Rightarrow> string \<Rightarrow> string" where
  "until c s = takeWhile (\<lambda>d. d \<noteq> c) s"

definition after :: "char \<Rightarrow> string \<Rightarrow> string" where
  "after c s = tl (dropWhile (\<lambda>d. d \<noteq> c) s)"

definition directive_name :: "string \<Rightarrow> string" where
  "directive_name directive = js_lower (js_trim (until CHR ''='' directive))"

text \<open>The group of \<^verbatim>\<open>/^"([0-9]+)"$/u\<close>, or the text itself.\<close>

definition unquoted :: "string \<Rightarrow> string" where
  "unquoted s =
     (if length s \<ge> 3 \<and> hd s = CHR 0x22 \<and> last s = CHR 0x22 \<and> list_all is_digit (butlast (tl s))
      then butlast (tl s) else s)"

definition max_age :: "string \<Rightarrow> int option" where
  "max_age directive =
     (let seconds = unquoted (js_trim (after CHR ''='' directive))
      in if CHR ''='' \<notin> set directive \<or> \<not> length_pattern seconds then None
         else if \<not> safe_int (digits_value 10 seconds) then None
         else Some (digits_value 10 seconds))"

fun hsts_loop :: "string list \<Rightarrow> int option \<Rightarrow> string list \<Rightarrow> bool" where
  "hsts_loop seen age [] = (case age of None \<Rightarrow> False | Some n \<Rightarrow> n > 0)"
| "hsts_loop seen age (raw # rest) =
     (let directive = js_trim raw; name = directive_name directive
      in if directive = [] then hsts_loop seen age rest
         else if \<not> hsts_name name \<or> name \<in> set seen then False
         else if name = ''max-age''
         then (case max_age directive of None \<Rightarrow> False | Some n \<Rightarrow> hsts_loop (name # seen) (Some n) rest)
         else hsts_loop (name # seen) age rest)"

definition valid_hsts :: "string option \<Rightarrow> bool" where
  "valid_hsts v = (case v of None \<Rightarrow> False | Some s \<Rightarrow> hsts_loop [] None (split_on CHR '';'' s))"

definition first_word :: "string \<Rightarrow> string" where
  "first_word s = takeWhile (\<lambda>c. \<not> is_js_space c) s"

fun csp_loop :: "string list \<Rightarrow> string list \<Rightarrow> string list option" where
  "csp_loop names [] = (if names = [] then None else Some names)"
| "csp_loop names (raw # rest) =
     (let directive = js_trim raw; name = js_lower (first_word directive)
      in if directive = [] then csp_loop names rest
         else if \<not> feature_name name then None
         else if name \<in> set names then None
         else csp_loop (names @ [name]) rest)"

definition csp_directives :: "string option \<Rightarrow> string list option" where
  "csp_directives v = Option.bind v (\<lambda>s. csp_loop [] (split_on CHR '';'' s))"

text \<open>\<^verbatim>\<open>/^\s*([a-z][a-z0-9-]*)=\(([^()]*)\)\s*$/iu\<close>: its two groups.\<close>

definition match_policy :: "string \<Rightarrow> (string \<times> string) option" where
  "match_policy raw =
     (let s = js_trim raw; name = until CHR ''='' s; value = after CHR ''='' s
      in if CHR ''='' \<in> set s \<and> feature_name (js_lower name) \<and> length value \<ge> 2 \<and>
            hd value = CHR ''('' \<and> last value = CHR '')'' \<and>
            list_all (\<lambda>c. c \<noteq> CHR ''('' \<and> c \<noteq> CHR '')'') (butlast (tl value))
         then Some (name, butlast (tl value)) else None)"

fun permissions_loop :: "string list \<Rightarrow> string list \<Rightarrow> bool" where
  "permissions_loop seen [] = True"
| "permissions_loop seen (raw # rest) =
     (case match_policy raw of
        None \<Rightarrow> False
      | Some (name, allowed) \<Rightarrow>
          let feature = js_lower name
          in if feature \<in> set seen \<or> CHR ''*'' \<in> set allowed then False
             else permissions_loop (feature # seen) rest)"

definition valid_permissions_policy :: "string option \<Rightarrow> bool" where
  "valid_permissions_policy v =
     (case v of
        None \<Rightarrow> False
      | Some s \<Rightarrow>
          let directives = split_on CHR '','' s
          in if length directives = 0 \<or> length directives > 64 then False else permissions_loop [] directives)"

definition header_decision :: "(string \<times> string) list \<Rightarrow> string \<Rightarrow> bool" where
  "header_decision headers check =
     (let csp = csp_directives (single headers ''content-security-policy'');
          frame_options = map_option js_lower (single headers ''x-frame-options'');
          referrer = map_option (\<lambda>s. js_lower (js_trim (last (split_on CHR '','' s))))
            (single headers ''referrer-policy'')
      in if check = ''HTTP_HSTS'' then valid_hsts (single headers ''strict-transport-security'')
         else if check = ''HTTP_CSP''
         then (case csp of None \<Rightarrow> False | Some names \<Rightarrow> list_ex (\<lambda>n. n \<in> set ENFORCING_CSP_DIRECTIVES) names)
         else if check = ''HTTP_X_CONTENT_TYPE_OPTIONS''
         then map_option js_lower (single headers ''x-content-type-options'') = Some ''nosniff''
         else if check = ''HTTP_FRAME_PROTECTION''
         then frame_options = Some ''deny'' \<or> frame_options = Some ''sameorigin'' \<or>
           (case csp of None \<Rightarrow> False | Some names \<Rightarrow> ''frame-ancestors'' \<in> set names)
         else if check = ''HTTP_REFERRER_POLICY''
         then (case referrer of None \<Rightarrow> False | Some r \<Rightarrow> r \<noteq> [] \<and> r \<in> set SAFE_REFERRER_POLICIES)
         else valid_permissions_policy (single headers ''permissions-policy''))"

definition verdict :: "bool \<Rightarrow> string" where
  "verdict b = (if b then ''PASS'' else ''ATTENTION'')"

definition inspect_guest_security_headers :: "(string \<times> string) list \<Rightarrow> (string \<times> string) list" where
  "inspect_guest_security_headers headers =
     map (\<lambda>check. (check, verdict (header_decision headers check))) GUEST_HTTP_HEADER_CHECKS"

subsection \<open>security.txt\<close>

definition SECURITY_TXT_PATH :: string where "SECURITY_TXT_PATH = ''/.well-known/security.txt''"
definition MAX_SECURITY_TXT_BYTES :: int where "MAX_SECURITY_TXT_BYTES = 32 * 1024"
definition MAX_SECURITY_TXT_LINES :: nat where "MAX_SECURITY_TXT_LINES = 1000"
definition MAX_SECURITY_TXT_LINE_BYTES :: nat where "MAX_SECURITY_TXT_LINE_BYTES = 2048"

text \<open>\<^verbatim>\<open>/^[A-Za-z0-9!#$%&'*+\-/=?^_`{|}~]+$/u\<close>\<close>

definition field_name_char :: "char \<Rightarrow> bool" where
  "field_name_char c \<longleftrightarrow> is_alnum c \<or> c \<in> set ''!#$%&*+-/=?^_`{|}~'' \<or> c = CHR 0x27"

definition single_header :: "(string \<times> string) list \<Rightarrow> string \<Rightarrow> string option" where
  "single_header headers name =
     (case header_values headers name of [v] \<Rightarrow> Some (js_trim v) | _ \<Rightarrow> None)"

definition utf8_charset :: "string \<Rightarrow> bool" where
  "utf8_charset s \<longleftrightarrow>
     s = ''charset=utf-8'' \<or> s = ''charset='' @ [CHR 0x22] @ ''utf-8'' @ [CHR 0x22]"

definition valid_content_type :: "string option \<Rightarrow> bool" where
  "valid_content_type v =
     (case v of
        None \<Rightarrow> False
      | Some s \<Rightarrow>
          if s = [] then False
          else let parts = map (\<lambda>p. js_lower (js_trim p)) (split_on CHR '';'' s)
               in hd parts = ''text/plain'' \<and> length (tl parts) = 1 \<and>
                  length (filter utf8_charset (tl parts)) = 1)"

definition valid_contact :: "(units \<Rightarrow> url_parts option) \<Rightarrow> units \<Rightarrow> bool" where
  "valid_contact url v =
     (if length v = 0 \<or> length v > MAX_SECURITY_TXT_LINE_BYTES then False
      else case url v of
        None \<Rightarrow> False
      | Some u \<Rightarrow>
          up_protocol u \<in> {''https:'', ''mailto:'', ''tel:''} \<and>
          (up_protocol u \<noteq> ''https:'' \<or> (up_username u = [] \<and> up_password u = [] \<and> length (up_hostname u) > 0)))"

text \<open>The groups of \<^verbatim>\<open>UTC_DATE_TIME\<close> and the digits of its fraction.\<close>

definition utc_date_time :: "string \<Rightarrow> (int \<times> int \<times> int \<times> int \<times> int \<times> int \<times> string) option" where
  "utc_date_time s =
     (let digits = (\<lambda>i n. list_all is_digit (slice i n s)); number = (\<lambda>i n. digits_value 10 (slice i n s));
          rest = drop 19 s
      in if length s \<ge> 20 \<and> digits 0 4 \<and> slice 4 1 s = ''-'' \<and> digits 5 2 \<and> slice 7 1 s = ''-'' \<and>
            digits 8 2 \<and> slice 10 1 s = ''T'' \<and> digits 11 2 \<and> slice 13 1 s = '':'' \<and> digits 14 2 \<and>
            slice 16 1 s = '':'' \<and> digits 17 2 \<and>
            (rest = ''Z'' \<or> (length rest \<ge> 3 \<and> hd rest = CHR ''.'' \<and> last rest = CHR ''Z'' \<and>
               list_all is_digit (butlast (tl rest))))
         then Some (number 0 4, number 5 2, number 8 2, number 11 2, number 14 2, number 17 2, butlast (tl rest))
         else None)"

text \<open>
  \<^verbatim>\<open>Date.parse\<close> of such a text: months and days in their ranges, 24:00:00 as the end of the
  day, the first three digits of the fraction; a day past the end of its month
  counts into the next.
\<close>

definition date_parse :: "int \<times> int \<times> int \<times> int \<times> int \<times> int \<times> string \<Rightarrow> int option" where
  "date_parse = (\<lambda>(y, m, d, hour, minute, second, fraction).
     let millisecond = digits_value 10 (take 3 (fraction @ ''000''))
     in if 1 \<le> m \<and> m \<le> 12 \<and> 1 \<le> d \<and> d \<le> 31 \<and> minute \<le> 59 \<and> second \<le> 59 \<and>
           (hour \<le> 23 \<or> (hour = 24 \<and> minute = 0 \<and> second = 0 \<and> millisecond = 0))
        then Some ((day_number y m d * 86400 + hour * 3600 + minute * 60 + second) * 1000 + millisecond)
        else None)"

definition valid_expires :: "units \<Rightarrow> int \<Rightarrow> bool" where
  "valid_expires v now =
     (case Option.bind (latin (JsStr v)) utc_date_time of
        None \<Rightarrow> False
      | Some (y, m, d, hour, minute, second, fraction) \<Rightarrow>
          (case date_parse (y, m, d, hour, minute, second, fraction) of
             None \<Rightarrow> False
           | Some timestamp \<Rightarrow>
               if \<not> safe_int timestamp \<or> timestamp \<le> now then False
               else civil (timestamp div 86400000) = (y, m, d) \<and> timestamp div 3600000 mod 24 = hour \<and>
                 timestamp div 60000 mod 60 = minute \<and> timestamp div 1000 mod 60 = second))"

definition canonical_match :: "(units \<Rightarrow> url_parts option) \<Rightarrow> units \<Rightarrow> string \<Rightarrow> bool option" where
  "canonical_match url v canonical_host =
     (case url v of
        None \<Rightarrow> None
      | Some u \<Rightarrow>
          if up_protocol u \<noteq> ''https:'' \<or> up_username u \<noteq> [] \<or> up_password u \<noteq> [] \<or> length (up_hostname u) = 0
          then None
          else Some (up_hostname u = canonical_host \<and> up_port u = [] \<and> up_pathname u = SECURITY_TXT_PATH \<and>
            up_search u = [] \<and> up_hash u = []))"

text \<open>A carriage return that no line feed follows; \<^verbatim>\<open>replaceAll("\r\n", "\n")\<close>; the first \<^verbatim>\<open>": "\<close>.\<close>

fun lone_return :: "units \<Rightarrow> bool" where
  "lone_return [] = False"
| "lone_return [u] = (u = 13)"
| "lone_return (u # v # rest) = ((u = 13 \<and> v \<noteq> 10) \<or> lone_return (v # rest))"

fun line_feeds :: "units \<Rightarrow> units" where
  "line_feeds [] = []"
| "line_feeds [u] = [u]"
| "line_feeds (u # v # rest) = (if u = 13 \<and> v = 10 then 10 # line_feeds rest else u # line_feeds (v # rest))"

fun split_field :: "units \<Rightarrow> (units \<times> units) option" where
  "split_field [] = None"
| "split_field [u] = None"
| "split_field (u # v # rest) =
     (if u = 58 \<and> v = 32 then Some ([], rest)
      else map_option (\<lambda>(name, field_value). (u # name, field_value)) (split_field (v # rest)))"

record field_counts =
  fc_contacts :: nat
  fc_expires :: nat
  fc_canonical_seen :: bool

definition scan_field ::
  "(units \<Rightarrow> url_parts option) \<Rightarrow> string \<Rightarrow> int \<Rightarrow> string \<Rightarrow> units \<Rightarrow> field_counts \<Rightarrow> field_counts option" where
  "scan_field url host now name field_value c =
     (if js_lower name = ''contact''
      then if \<not> valid_contact url field_value then None else Some (c\<lparr>fc_contacts := fc_contacts c + 1\<rparr>)
      else if js_lower name = ''expires''
      then if fc_expires c + 1 > 1 \<or> \<not> valid_expires field_value now then None
           else Some (c\<lparr>fc_expires := fc_expires c + 1\<rparr>)
      else if js_lower name = ''canonical''
      then (case canonical_match url field_value host of
              None \<Rightarrow> None
            | Some True \<Rightarrow> Some (c\<lparr>fc_canonical_seen := True\<rparr>)
            | Some False \<Rightarrow> Some c)
      else Some c)"

fun scan_lines ::
  "(units \<Rightarrow> url_parts option) \<Rightarrow> string \<Rightarrow> int \<Rightarrow> field_counts \<Rightarrow> units list \<Rightarrow> field_counts option" where
  "scan_lines url host now c [] = Some c"
| "scan_lines url host now c (line # rest) =
     (if utf8_length line > MAX_SECURITY_TXT_LINE_BYTES then None
      else if list_all regex_space line \<or> hd line = 35 then scan_lines url host now c rest
      else case split_field line of
        None \<Rightarrow> None
      | Some (name_units, field_value) \<Rightarrow>
          (case latin (JsStr name_units) of
             None \<Rightarrow> None
           | Some name \<Rightarrow>
               if name = [] \<or> \<not> list_all field_name_char name \<or> length field_value = 0 then None
               else Option.bind (scan_field url host now name field_value c)
                      (\<lambda>c'. scan_lines url host now c' rest)))"

text \<open>\<^verbatim>\<open>/^Canonical: /iu\<close>\<close>

definition canonical_line :: "units \<Rightarrow> bool" where
  "canonical_line line \<longleftrightarrow> map_option js_lower (latin (JsStr (take 11 line))) = Some ''canonical: ''"

definition parse_security_body :: "(units \<Rightarrow> url_parts option) \<Rightarrow> bytes \<Rightarrow> string \<Rightarrow> int \<Rightarrow> bool" where
  "parse_security_body url body canonical_host now =
     (if int (length body) = 0 \<or> int (length body) > MAX_SECURITY_TXT_BYTES then False
      else case decode_text body of
        None \<Rightarrow> False
      | Some decoded \<Rightarrow>
          if hd decoded = 65279 \<or> last decoded \<noteq> 10 \<or> lone_return decoded \<or>
             list_ex (\<lambda>u. u \<in> {0, 11, 12, 127}) decoded
          then False
          else let file_lines = butlast (split_on 10 (line_feeds decoded))
               in if length file_lines = 0 \<or> length file_lines > MAX_SECURITY_TXT_LINES then False
                  else case scan_lines url canonical_host now
                         \<lparr>fc_contacts = 0, fc_expires = 0, fc_canonical_seen = False\<rparr> file_lines of
                    None \<Rightarrow> False
                  | Some c \<Rightarrow>
                      fc_contacts c > 0 \<and> fc_expires c = 1 \<and>
                      (\<not> list_ex canonical_line file_lines \<or> fc_canonical_seen c))"

definition inspect_guest_security_txt ::
  "(units \<Rightarrow> url_parts option) \<Rightarrow> transport_response \<Rightarrow> string \<Rightarrow> int \<Rightarrow> string" where
  "inspect_guest_security_txt url response canonical_host now =
     verdict (tr_status_code response = 200 \<and>
       valid_content_type (single_header (tr_headers response) ''content-type'') \<and>
       parse_security_body url (tr_body response) canonical_host now)"

end
