(* ===== verification/Scanner_Policy.thy ===== *)
theory Scanner_Policy
  imports Prelude
begin

section \<open>Scanner policy\<close>

text \<open>
  Models \<^verbatim>\<open>apps/api/src/scanner-policy\<close>: the closed capability, profile
  and budget vocabularies of \<^verbatim>\<open>model.ts\<close>, the V1 policy tables of
  \<^verbatim>\<open>policy.ts\<close> and the authorization of an untrusted execution request
  in \<^verbatim>\<open>validate.ts\<close>.
\<close>

subsection \<open>Vocabulary\<close>

datatype capability =
    DNS_READ | RDAP_READ | PASSIVE_CT_READ | TLS_HANDSHAKE | HTTP_GET_HEAD
  | SAME_HOST_REDIRECT | HTTP_HEADER_OBSERVE | TECH_FINGERPRINT_SAFE | NUCLEI_SAFE_HTTP
  | BOUNDED_SAME_ORIGIN_CRAWL | HEADLESS_BROWSER | HTTP_STATE_CHANGE | AUTHENTICATED_REQUEST
  | OOB_CALLBACK | JAVASCRIPT_TEMPLATE | CODE_EXECUTION | FUZZING | BRUTE_FORCE | RAW_TCP
  | PORT_ENUMERATION | PAYLOAD_GENERATION | DESTRUCTIVE | UNKNOWN_CAPABILITY

datatype profile = GUEST_SAFE | VERIFIED_BASELINE | CONTROLLED_DEEP | ACTIVE

text \<open>\<^verbatim>\<open>CAPABILITIES\<close> and \<^verbatim>\<open>PROFILES\<close>: the names requests use.\<close>

definition CAPABILITIES :: "(string \<times> capability) list" where
  "CAPABILITIES =
    [(''DNS_READ'', DNS_READ),
     (''RDAP_READ'', RDAP_READ),
     (''PASSIVE_CT_READ'', PASSIVE_CT_READ),
     (''TLS_HANDSHAKE'', TLS_HANDSHAKE),
     (''HTTP_GET_HEAD'', HTTP_GET_HEAD),
     (''SAME_HOST_REDIRECT'', SAME_HOST_REDIRECT),
     (''HTTP_HEADER_OBSERVE'', HTTP_HEADER_OBSERVE),
     (''TECH_FINGERPRINT_SAFE'', TECH_FINGERPRINT_SAFE),
     (''NUCLEI_SAFE_HTTP'', NUCLEI_SAFE_HTTP),
     (''BOUNDED_SAME_ORIGIN_CRAWL'', BOUNDED_SAME_ORIGIN_CRAWL),
     (''HEADLESS_BROWSER'', HEADLESS_BROWSER),
     (''HTTP_STATE_CHANGE'', HTTP_STATE_CHANGE),
     (''AUTHENTICATED_REQUEST'', AUTHENTICATED_REQUEST),
     (''OOB_CALLBACK'', OOB_CALLBACK),
     (''JAVASCRIPT_TEMPLATE'', JAVASCRIPT_TEMPLATE),
     (''CODE_EXECUTION'', CODE_EXECUTION),
     (''FUZZING'', FUZZING),
     (''BRUTE_FORCE'', BRUTE_FORCE),
     (''RAW_TCP'', RAW_TCP),
     (''PORT_ENUMERATION'', PORT_ENUMERATION),
     (''PAYLOAD_GENERATION'', PAYLOAD_GENERATION),
     (''DESTRUCTIVE'', DESTRUCTIVE),
     (''UNKNOWN'', UNKNOWN_CAPABILITY)]"

definition PROFILES :: "(string \<times> profile) list" where
  "PROFILES =
    [(''GUEST_SAFE'', GUEST_SAFE),
     (''VERIFIED_BASELINE'', VERIFIED_BASELINE),
     (''CONTROLLED_DEEP'', CONTROLLED_DEEP),
     (''ACTIVE'', ACTIVE)]"

record scanner_budgets =
  hard_duration_seconds :: int
  max_requests :: int
  max_concurrency :: int
  max_redirects :: int
  max_response_bytes :: int
  max_total_response_bytes :: int
  max_output_bytes :: int
  max_crawl_urls :: int

text \<open>\<^verbatim>\<open>BUDGET_KEYS\<close>, each with the field it names.\<close>

definition BUDGET_KEYS :: "(string \<times> (scanner_budgets \<Rightarrow> int)) list" where
  "BUDGET_KEYS =
    [(''hard_duration_seconds'', hard_duration_seconds),
     (''max_requests'', max_requests),
     (''max_concurrency'', max_concurrency),
     (''max_redirects'', max_redirects),
     (''max_response_bytes'', max_response_bytes),
     (''max_total_response_bytes'', max_total_response_bytes),
     (''max_output_bytes'', max_output_bytes),
     (''max_crawl_urls'', max_crawl_urls)]"

record scanner_execution_request =
  se_policy_id :: string
  se_policy_version :: string
  se_profile :: profile
  se_requested_capabilities :: "capability list"
  se_budgets :: scanner_budgets

datatype policy_deny_code =
    INVALID_REQUEST | POLICY_IDENTITY_MISMATCH | PROFILE_DISABLED
  | DENY_UNKNOWN_CAPABILITY | CAPABILITY_DENIED | BUDGET_EXCEEDED

datatype policy_decision =
    POLICY_ALLOWED scanner_execution_request
  | POLICY_REFUSED policy_deny_code

subsection \<open>The V1 policy\<close>

definition SCANNER_POLICY_ID :: string where
  "SCANNER_POLICY_ID = ''outscan-v1''"

definition SCANNER_POLICY_VERSION :: string where
  "SCANNER_POLICY_VERSION = ''1.0.0''"

definition baseline_capabilities :: "capability list" where
  "baseline_capabilities =
    [DNS_READ, RDAP_READ, PASSIVE_CT_READ, TLS_HANDSHAKE, HTTP_GET_HEAD,
     SAME_HOST_REDIRECT, HTTP_HEADER_OBSERVE, TECH_FINGERPRINT_SAFE]"

definition verified_capabilities :: "capability list" where
  "verified_capabilities =
     baseline_capabilities @ [NUCLEI_SAFE_HTTP, BOUNDED_SAME_ORIGIN_CRAWL]"

fun ALLOWED_CAPABILITIES :: "profile \<Rightarrow> capability list" where
  "ALLOWED_CAPABILITIES GUEST_SAFE = baseline_capabilities"
| "ALLOWED_CAPABILITIES VERIFIED_BASELINE = verified_capabilities"
| "ALLOWED_CAPABILITIES CONTROLLED_DEEP = verified_capabilities"
| "ALLOWED_CAPABILITIES ACTIVE = []"

text \<open>The table has no row for \<open>ACTIVE\<close>, which is refused before the table is read.\<close>

fun BUDGET_CEILINGS :: "profile \<Rightarrow> scanner_budgets option" where
  "BUDGET_CEILINGS GUEST_SAFE = Some
     \<lparr>hard_duration_seconds = 30, max_requests = 40, max_concurrency = 4, max_redirects = 5,
      max_response_bytes = 1048576, max_total_response_bytes = 8388608,
      max_output_bytes = 2097152, max_crawl_urls = 0\<rparr>"
| "BUDGET_CEILINGS VERIFIED_BASELINE = Some
     \<lparr>hard_duration_seconds = 120, max_requests = 300, max_concurrency = 8, max_redirects = 5,
      max_response_bytes = 2097152, max_total_response_bytes = 67108864,
      max_output_bytes = 12582912, max_crawl_urls = 100\<rparr>"
| "BUDGET_CEILINGS CONTROLLED_DEEP = Some
     \<lparr>hard_duration_seconds = 300, max_requests = 1200, max_concurrency = 10, max_redirects = 5,
      max_response_bytes = 2097152, max_total_response_bytes = 201326592,
      max_output_bytes = 33554432, max_crawl_urls = 500\<rparr>"
| "BUDGET_CEILINGS ACTIVE = None"

subsection \<open>Authorization of an untrusted request\<close>

definition REQUEST_KEYS :: "string list" where
  "REQUEST_KEYS =
    [''schema_version'', ''policy_id'', ''policy_version'', ''profile'',
     ''requested_capabilities'', ''budgets'']"

text \<open>
  Reading the capability list: strings only, then no duplicates, then known
  names only, in the order the code tests them.
\<close>

definition parse_capabilities :: "jsval \<Rightarrow> policy_deny_code + capability list" where
  "parse_capabilities value =
     (case value of
        JArr items \<Rightarrow>
          (case all_some as_str items of
             None \<Rightarrow> Inl INVALID_REQUEST
           | Some snapshot \<Rightarrow>
               if \<not> distinct snapshot then Inl INVALID_REQUEST
               else (case all_some (map_of CAPABILITIES) snapshot of
                       None \<Rightarrow> Inl DENY_UNKNOWN_CAPABILITY
                     | Some caps \<Rightarrow> Inr caps))
      | _ \<Rightarrow> Inl INVALID_REQUEST)"

definition parse_budgets :: "jsval \<Rightarrow> scanner_budgets option" where
  "parse_budgets value =
     do {
       require (exact_record value (map fst BUDGET_KEYS));
       duration \<leftarrow> as_bounded 0 MAX_SAFE_INTEGER (get_prop value ''hard_duration_seconds'');
       requests \<leftarrow> as_bounded 0 MAX_SAFE_INTEGER (get_prop value ''max_requests'');
       concurrency \<leftarrow> as_bounded 0 MAX_SAFE_INTEGER (get_prop value ''max_concurrency'');
       redirects \<leftarrow> as_bounded 0 MAX_SAFE_INTEGER (get_prop value ''max_redirects'');
       response \<leftarrow> as_bounded 0 MAX_SAFE_INTEGER (get_prop value ''max_response_bytes'');
       total \<leftarrow> as_bounded 0 MAX_SAFE_INTEGER (get_prop value ''max_total_response_bytes'');
       output \<leftarrow> as_bounded 0 MAX_SAFE_INTEGER (get_prop value ''max_output_bytes'');
       crawl \<leftarrow> as_bounded 0 MAX_SAFE_INTEGER (get_prop value ''max_crawl_urls'');
       Some \<lparr>hard_duration_seconds = duration, max_requests = requests,
             max_concurrency = concurrency, max_redirects = redirects,
             max_response_bytes = response, max_total_response_bytes = total,
             max_output_bytes = output, max_crawl_urls = crawl\<rparr>
     }"

definition is_capability_allowed :: "profile \<Rightarrow> capability \<Rightarrow> bool" where
  "is_capability_allowed p c \<longleftrightarrow> c \<in> set (ALLOWED_CAPABILITIES p)"

definition exceeds_ceiling :: "scanner_budgets \<Rightarrow> scanner_budgets \<Rightarrow> bool" where
  "exceeds_ceiling b ceiling \<longleftrightarrow> list_ex (\<lambda>(_, field). field b > field ceiling) BUDGET_KEYS"

definition authorize_scanner_execution :: "jsval \<Rightarrow> policy_decision" where
  "authorize_scanner_execution input =
     (if \<not> exact_record input REQUEST_KEYS then POLICY_REFUSED INVALID_REQUEST
      else if get_prop input ''schema_version'' \<noteq> JNum 1 \<or>
              get_prop input ''policy_id'' \<noteq> JStr SCANNER_POLICY_ID \<or>
              get_prop input ''policy_version'' \<noteq> JStr SCANNER_POLICY_VERSION
      then POLICY_REFUSED POLICY_IDENTITY_MISMATCH
      else (case Option.bind (as_str (get_prop input ''profile'')) (map_of PROFILES) of
          None \<Rightarrow> POLICY_REFUSED INVALID_REQUEST
        | Some p \<Rightarrow>
            if p = ACTIVE then POLICY_REFUSED PROFILE_DISABLED
            else (case parse_capabilities (get_prop input ''requested_capabilities'') of
                Inl code \<Rightarrow> POLICY_REFUSED code
              | Inr caps \<Rightarrow>
                  if list_ex (\<lambda>c. \<not> is_capability_allowed p c) caps
                  then POLICY_REFUSED CAPABILITY_DENIED
                  else (case parse_budgets (get_prop input ''budgets'') of
                      None \<Rightarrow> POLICY_REFUSED INVALID_REQUEST
                    | Some budgets \<Rightarrow>
                        (case BUDGET_CEILINGS p of
                           None \<Rightarrow> POLICY_REFUSED PROFILE_DISABLED
                         | Some ceiling \<Rightarrow>
                             if exceeds_ceiling budgets ceiling
                             then POLICY_REFUSED BUDGET_EXCEEDED
                             else POLICY_ALLOWED
                               \<lparr>se_policy_id = ''outscan-v1'', se_policy_version = ''1.0.0'',
                                se_profile = p, se_requested_capabilities = caps,
                                se_budgets = budgets\<rparr>)))))"

subsection \<open>What an authorized request satisfies\<close>

text \<open>The abstract contract: a request within the V1 policy of its profile.\<close>

definition within_policy :: "scanner_execution_request \<Rightarrow> bool" where
  "within_policy r \<longleftrightarrow>
     se_policy_id r = SCANNER_POLICY_ID \<and> se_policy_version r = SCANNER_POLICY_VERSION \<and>
     distinct (se_requested_capabilities r) \<and>
     set (se_requested_capabilities r) \<subseteq> set (ALLOWED_CAPABILITIES (se_profile r)) \<and>
     (case BUDGET_CEILINGS (se_profile r) of
        None \<Rightarrow> False
      | Some ceiling \<Rightarrow>
          list_all (\<lambda>(_, field). 0 \<le> field (se_budgets r) \<and> field (se_budgets r) \<le> field ceiling)
            BUDGET_KEYS)"

lemma CAPABILITIES_distinct: "distinct (map snd CAPABILITIES)"
  by (simp add: CAPABILITIES_def)

lemma CAPABILITIES_inj:
  assumes "map_of CAPABILITIES x = Some c" "map_of CAPABILITIES y = Some c"
  shows "x = y"
proof -
  from assms have "(x, c) \<in> set CAPABILITIES" "(y, c) \<in> set CAPABILITIES"
    by (auto dest: map_of_SomeD)
  moreover have "inj_on snd (set CAPABILITIES)"
    using CAPABILITIES_distinct by (simp add: distinct_map)
  ultimately show ?thesis by (metis inj_onD prod.inject snd_conv)
qed

lemma all_some_distinct:
  assumes "all_some f xs = Some ys" "distinct xs"
    and inj: "\<And>x y z. f x = Some z \<Longrightarrow> f y = Some z \<Longrightarrow> x = y"
  shows "distinct ys"
  using assms(1,2)
proof (induction xs arbitrary: ys)
  case (Cons x xs)
  from Cons.prems(1) obtain y zs where y: "f x = Some y" and zs: "all_some f xs = Some zs"
    and ys: "ys = y # zs" by (auto split: option.splits)
  have "y \<notin> set zs"
    using all_some_set [OF zs] y inj Cons.prems(2) by fastforce
  with Cons.IH [OF zs] Cons.prems(2) ys show ?case by simp
qed simp

lemma parse_capabilities_distinct: "parse_capabilities v = Inr caps \<Longrightarrow> distinct caps"
  by (auto simp: parse_capabilities_def split: jsval.splits option.splits if_splits
      elim!: all_some_distinct intro: CAPABILITIES_inj)

lemma parse_budgets_nonneg:
  "parse_budgets v = Some b \<Longrightarrow> list_all (\<lambda>(_, field). 0 \<le> field b) BUDGET_KEYS"
  by (auto simp: parse_budgets_def BUDGET_KEYS_def guard_simps split: Option.bind_splits)

text \<open>One case per way the authorization can end well; the facts its proofs share.\<close>

lemma authorize_allowedE:
  assumes "authorize_scanner_execution input = POLICY_ALLOWED r"
  obtains caps budgets ceiling p where
    "exact_record input REQUEST_KEYS"
    "get_prop input ''profile'' = JStr p" "map_of PROFILES p = Some (se_profile r)"
    "se_profile r \<noteq> ACTIVE"
    "parse_capabilities (get_prop input ''requested_capabilities'') = Inr caps"
    "list_all (is_capability_allowed (se_profile r)) caps"
    "parse_budgets (get_prop input ''budgets'') = Some budgets"
    "BUDGET_CEILINGS (se_profile r) = Some ceiling" "\<not> exceeds_ceiling budgets ceiling"
    "se_requested_capabilities r = caps" "se_budgets r = budgets"
    "se_policy_id r = ''outscan-v1''" "se_policy_version r = ''1.0.0''"
  using assms
  by (auto simp: authorize_scanner_execution_def guard_simps list_ex_iff list_all_iff
      bind_eq_Some_conv split: if_splits option.splits sum.splits)

lemma authorize_within_policy:
  assumes "authorize_scanner_execution input = POLICY_ALLOWED r"
  shows "within_policy r"
proof -
  from assms obtain caps budgets ceiling where
    caps: "parse_capabilities (get_prop input ''requested_capabilities'') = Inr caps"
    and ok: "list_all (is_capability_allowed (se_profile r)) caps"
    and budgets: "parse_budgets (get_prop input ''budgets'') = Some budgets"
    and ceiling: "BUDGET_CEILINGS (se_profile r) = Some ceiling" "\<not> exceeds_ceiling budgets ceiling"
    and r: "se_requested_capabilities r = caps" "se_budgets r = budgets"
      "se_policy_id r = ''outscan-v1''" "se_policy_version r = ''1.0.0''"
    by (rule authorize_allowedE)
  from ok have "set caps \<subseteq> set (ALLOWED_CAPABILITIES (se_profile r))"
    by (auto simp: list_all_iff is_capability_allowed_def)
  moreover have "list_all (\<lambda>(_, field). 0 \<le> field budgets \<and> field budgets \<le> field ceiling) BUDGET_KEYS"
    using parse_budgets_nonneg [OF budgets] ceiling(2)
    by (auto simp: exceeds_ceiling_def list_all_iff list_ex_iff)
  ultimately show ?thesis
    using parse_capabilities_distinct [OF caps] ceiling(1) r
    by (simp add: within_policy_def SCANNER_POLICY_ID_def SCANNER_POLICY_VERSION_def)
qed

lemma allowed_capability_safe:
  "c \<in> set (ALLOWED_CAPABILITIES p) \<Longrightarrow>
     c \<notin> {HEADLESS_BROWSER, HTTP_STATE_CHANGE, AUTHENTICATED_REQUEST, OOB_CALLBACK,
        JAVASCRIPT_TEMPLATE, CODE_EXECUTION, FUZZING, BRUTE_FORCE, RAW_TCP, PORT_ENUMERATION,
        PAYLOAD_GENERATION, DESTRUCTIVE, UNKNOWN_CAPABILITY}"
  by (cases p) (auto simp: baseline_capabilities_def verified_capabilities_def)

lemma within_policy_not_active: "within_policy r \<Longrightarrow> se_profile r \<noteq> ACTIVE"
  by (auto simp: within_policy_def)

lemma within_policy_safe:
  assumes "within_policy r"
  shows "set (se_requested_capabilities r) \<inter>
    {CODE_EXECUTION, FUZZING, BRUTE_FORCE, RAW_TCP, PORT_ENUMERATION, DESTRUCTIVE,
     UNKNOWN_CAPABILITY} = {}"
proof -
  have "set (se_requested_capabilities r) \<subseteq> set (ALLOWED_CAPABILITIES (se_profile r))"
    using assms by (simp add: within_policy_def)
  then show ?thesis using allowed_capability_safe by blast
qed

subsection \<open>Presenting a request\<close>

text \<open>The untrusted value a well-behaved client sends for a request; used to state completeness.\<close>

definition capability_name :: "capability \<Rightarrow> string" where
  "capability_name c = the (map_of (map (\<lambda>(n, d). (d, n)) CAPABILITIES) c)"

definition profile_name :: "profile \<Rightarrow> string" where
  "profile_name p = the (map_of (map (\<lambda>(n, d). (d, n)) PROFILES) p)"

definition present_budgets :: "scanner_budgets \<Rightarrow> jsval" where
  "present_budgets b = JObj (map (\<lambda>(k, field). (k, JNum (field b))) BUDGET_KEYS)"

definition present_request :: "scanner_execution_request \<Rightarrow> jsval" where
  "present_request r = JObj
    [(''schema_version'', JNum 1),
     (''policy_id'', JStr (se_policy_id r)),
     (''policy_version'', JStr (se_policy_version r)),
     (''profile'', JStr (profile_name (se_profile r))),
     (''requested_capabilities'',
        JArr (map (JStr \<circ> capability_name) (se_requested_capabilities r))),
     (''budgets'', present_budgets (se_budgets r))]"

lemma capability_name_inverse: "map_of CAPABILITIES (capability_name c) = Some c"
  by (cases c) (simp_all add: capability_name_def CAPABILITIES_def)

lemma profile_name_inverse: "map_of PROFILES (profile_name p) = Some p"
  by (cases p) (simp_all add: profile_name_def PROFILES_def)

lemma capability_name_inj: "capability_name a = capability_name b \<longleftrightarrow> a = b"
  by (metis capability_name_inverse option.inject)

lemma parse_capabilities_present:
  assumes "distinct caps"
  shows "parse_capabilities (JArr (map (JStr \<circ> capability_name) caps)) = Inr caps"
proof -
  have "all_some as_str (map (JStr \<circ> capability_name) caps) = Some (map capability_name caps)"
    by (rule all_some_map) simp
  moreover have "all_some (map_of CAPABILITIES) (map capability_name caps) = Some (map id caps)"
    by (rule all_some_map) (simp add: capability_name_inverse)
  moreover have "distinct (map capability_name caps)"
    using assms by (simp add: distinct_map inj_on_def capability_name_inj)
  ultimately show ?thesis by (simp add: parse_capabilities_def)
qed

lemma parse_budgets_present:
  assumes "list_all (\<lambda>(_, field). 0 \<le> field b \<and> field b \<le> MAX_SAFE_INTEGER) BUDGET_KEYS"
  shows "parse_budgets (present_budgets b) = Some b"
  using assms
  by (simp add: parse_budgets_def present_budgets_def BUDGET_KEYS_def exact_record_def
      has_exact_keys_def as_bounded_def safe_int_def MAX_SAFE_INTEGER_def)

lemma ceilings_safe:
  "BUDGET_CEILINGS p = Some ceiling \<Longrightarrow>
     list_all (\<lambda>(_, field). field ceiling \<le> MAX_SAFE_INTEGER) BUDGET_KEYS"
  by (cases p) (auto simp: BUDGET_KEYS_def MAX_SAFE_INTEGER_def)

lemma authorize_complete:
  assumes "within_policy r"
  shows "authorize_scanner_execution (present_request r) = POLICY_ALLOWED r"
proof -
  from assms obtain ceiling where ceiling: "BUDGET_CEILINGS (se_profile r) = Some ceiling"
    and bounds: "list_all (\<lambda>(_, field). 0 \<le> field (se_budgets r) \<and>
        field (se_budgets r) \<le> field ceiling) BUDGET_KEYS"
    by (auto simp: within_policy_def split: option.splits)
  from bounds ceilings_safe [OF ceiling]
  have "list_all (\<lambda>(_, field). 0 \<le> field (se_budgets r) \<and>
      field (se_budgets r) \<le> MAX_SAFE_INTEGER) BUDGET_KEYS"
    by (fastforce simp: list_all_iff)
  then have "parse_budgets (present_budgets (se_budgets r)) = Some (se_budgets r)"
    by (rule parse_budgets_present)
  moreover have "se_profile r \<noteq> ACTIVE" using ceiling by auto
  moreover have "\<not> exceeds_ceiling (se_budgets r) ceiling"
    using bounds by (auto simp: exceeds_ceiling_def list_ex_iff list_all_iff)
  moreover have "\<not> list_ex (\<lambda>c. \<not> is_capability_allowed (se_profile r) c) (se_requested_capabilities r)"
    using assms by (auto simp: within_policy_def list_ex_iff is_capability_allowed_def)
  moreover have "parse_capabilities (JArr (map (JStr \<circ> capability_name)
      (se_requested_capabilities r))) = Inr (se_requested_capabilities r)"
    using assms by (intro parse_capabilities_present) (simp add: within_policy_def)
  moreover have "exact_record (present_request r) REQUEST_KEYS"
    by (simp add: present_request_def exact_record_def has_exact_keys_def REQUEST_KEYS_def)
  moreover have "se_policy_id r = ''outscan-v1''" "se_policy_version r = ''1.0.0''"
    using assms
    by (simp_all add: within_policy_def SCANNER_POLICY_ID_def SCANNER_POLICY_VERSION_def)
  ultimately show ?thesis
    by (simp add: authorize_scanner_execution_def present_request_def profile_name_inverse
        SCANNER_POLICY_ID_def SCANNER_POLICY_VERSION_def ceiling)
qed

subsection \<open>Properties\<close>

text \<open>C21: whatever value is submitted, an authorized execution request carries the current policy
identity, no repeated capability, only capabilities of its profile's allow list, and budgets
between zero and the ceilings of its profile.\<close>
theorem scanner_policy_sound:
  "authorize_scanner_execution input = POLICY_ALLOWED r \<Longrightarrow>
     within_policy r \<and> se_profile r \<noteq> ACTIVE \<and>
     set (se_requested_capabilities r) \<inter>
       {CODE_EXECUTION, FUZZING, BRUTE_FORCE, RAW_TCP, PORT_ENUMERATION, DESTRUCTIVE,
        UNKNOWN_CAPABILITY} = {}"
  by (intro conjI authorize_within_policy within_policy_safe within_policy_not_active)
    (auto dest: authorize_within_policy)

definition guest_request :: scanner_execution_request where
  "guest_request =
     \<lparr>se_policy_id = ''outscan-v1'', se_policy_version = ''1.0.0'', se_profile = GUEST_SAFE,
      se_requested_capabilities = [DNS_READ, TLS_HANDSHAKE],
      se_budgets = \<lparr>hard_duration_seconds = 30, max_requests = 40, max_concurrency = 4,
        max_redirects = 5, max_response_bytes = 1024, max_total_response_bytes = 2048,
        max_output_bytes = 4096, max_crawl_urls = 0\<rparr>\<rparr>"

lemma guest_request_within: "within_policy guest_request"
  by (simp add: within_policy_def guest_request_def SCANNER_POLICY_ID_def
      SCANNER_POLICY_VERSION_def baseline_capabilities_def BUDGET_KEYS_def)

theorem scanner_policy_sound_witness:
  "within_policy guest_request \<and> RAW_TCP \<notin> set (se_requested_capabilities guest_request)"
  using scanner_policy_sound [OF authorize_complete [OF guest_request_within]] by auto

text \<open>Every request within the policy of its profile is authorized exactly as submitted when it
is presented in the wire shape: the validation refuses nothing the policy allows.\<close>
lemma scanner_policy_complete:
  "within_policy r \<Longrightarrow> authorize_scanner_execution (present_request r) = POLICY_ALLOWED r"
  by (rule authorize_complete)

end
