(* ===== verification/Guest_Scanner.thy ===== *)
theory Guest_Scanner
  imports Guest_Checks Scanner_Policy "HOL-Library.AList"
begin

section \<open>The guest scanner\<close>

text \<open>
  Models \<^verbatim>\<open>apps/api/src/guest-scanner/run.ts\<close> and \<^verbatim>\<open>config.ts\<close>.  The clock, the DNS answers and the transport
  are arguments (\<open>scanner_world\<close>); the wrappers that count requests and refuse those beyond the
  budget are \<open>bounded_round\<close>.  The output is the JSON value that the scanner process prints.
\<close>

definition REQUIRED_CAPABILITIES :: "capability list" where
  "REQUIRED_CAPABILITIES = [DNS_READ, TLS_HANDSHAKE, HTTP_GET_HEAD, SAME_HOST_REDIRECT, HTTP_HEADER_OBSERVE]"

definition SCANNER_INPUT_KEYS :: "string list" where
  "SCANNER_INPUT_KEYS = [''schema_version'', ''canonical_target'', ''policy'']"

definition CHECKS :: "string list" where
  "CHECKS =
     [''DNS_AAAA_PRESENT'', ''DNS_DNSSEC'', ''DNS_CAA'', ''MAIL_SPF'', ''MAIL_DMARC'', ''MAIL_MTA_STS'',
      ''MAIL_TLS_RPT'', ''TLS_CERTIFICATE'', ''HTTP_HSTS'', ''HTTP_CSP'', ''HTTP_X_CONTENT_TYPE_OPTIONS'',
      ''HTTP_FRAME_PROTECTION'', ''HTTP_REFERRER_POLICY'', ''HTTP_PERMISSIONS_POLICY'', ''HTTP_PROTOCOL'',
      ''INFRA_RPKI'', ''SECURITY_TXT'']"

definition UNAVAILABLE_COVERAGE :: "string list" where
  "UNAVAILABLE_COVERAGE = [''MAIL_SECURITY_POSTURE'', ''PUBLIC_INFRASTRUCTURE'', ''RDAP_ENRICHMENT'', ''CT_ENRICHMENT'']"

datatype scanner_fail = INVALID_SCANNER_INPUT | INVALID_SCANNER_RUNTIME

definition scanner_input :: "(string \<Rightarrow> string) \<Rightarrow> jsval \<Rightarrow> (string \<times> scanner_budgets) option" where
  "scanner_input to_ascii v =
     do {
       require (exact_record v SCANNER_INPUT_KEYS);
       require (get_prop v ''schema_version'' = JNum 1);
       target \<leftarrow> as_str (get_prop v ''canonical_target'');
       require (canonicalize_hostname to_ascii (JStr target) = Inr target);
       (case authorize_scanner_execution (get_prop v ''policy'') of
          POLICY_REFUSED _ \<Rightarrow> None
        | POLICY_ALLOWED r \<Rightarrow>
            do {
              require (se_profile r = GUEST_SAFE);
              require (list_all (\<lambda>c. c \<in> set (se_requested_capabilities r)) REQUIRED_CAPABILITIES);
              require (\<not> (hard_duration_seconds (se_budgets r) < 1 \<or> max_requests (se_budgets r) < 3 \<or>
                max_concurrency (se_budgets r) < 2 \<or> max_response_bytes (se_budgets r) < 1 \<or>
                max_total_response_bytes (se_budgets r) < 1));
              Some (target, se_budgets r)
            })
     }"

definition safe_now :: "jsval option \<Rightarrow> int option" where
  "safe_now v = Option.bind v (as_bounded 0 MAX_SAFE_INTEGER)"

definition fingerprint :: "string \<Rightarrow> string \<Rightarrow> string" where
  "fingerprint host check =
     sha256_text (sha256 (ascii_bytes ''OUTSCAN:GUEST_FINDING:v1'' @ [0] @ utf8 host @ [0] @ ascii_bytes check))"

subsection \<open>The output\<close>

definition json_object :: "(string \<times> json) list \<Rightarrow> json" where
  "json_object ms = JsObj (map (\<lambda>(k, v). (units k, v)) ms)"

definition json_string :: "string \<Rightarrow> json" where
  "json_string s = JsStr (units s)"

definition flow_ok :: "flow_result option \<Rightarrow> bool" where
  "flow_ok r = (case r of Some (FLOW_OK _ _ _ _) \<Rightarrow> True | _ \<Rightarrow> False)"

definition scan_outcomes ::
  "(units \<Rightarrow> url_parts option) \<Rightarrow> string \<Rightarrow> int \<Rightarrow> resolve_fail + resolved_target \<Rightarrow> flow_result option \<Rightarrow>
   flow_result option \<Rightarrow> (string \<times> string) list" where
  "scan_outcomes url host completed_at resolved http security_txt =
     (let start = map (\<lambda>check. (check, ''UNKNOWN'')) CHECKS;
          dns = (case resolved of
              Inl _ \<Rightarrow> start
            | Inr target \<Rightarrow> AList.update ''DNS_AAAA_PRESENT''
                (verdict (list_ex (\<lambda>a. snd a = IPv6) (rt_addresses target))) start);
          web = (case http of
              Some (FLOW_OK response _ _ _) \<Rightarrow>
                fold (\<lambda>(check, outcome). AList.update check outcome)
                  (inspect_guest_security_headers (tr_headers response))
                  (AList.update ''HTTP_PROTOCOL'' ''PASS'' (AList.update ''TLS_CERTIFICATE'' ''PASS'' dns))
            | _ \<Rightarrow> dns)
      in case security_txt of
          Some (FLOW_OK response _ _ reason) \<Rightarrow>
            AList.update ''SECURITY_TXT''
              (if reason = COMPLETE then inspect_guest_security_txt url response host completed_at
               else ''ATTENTION'') web
        | _ \<Rightarrow> web)"

definition is_finding :: "string \<times> string \<Rightarrow> bool" where
  "is_finding = (\<lambda>(check, outcome).
     (starts_with ''HTTP_'' check \<or> check = ''SECURITY_TXT'') \<and> outcome = ''ATTENTION'')"

definition candidate_finding :: "string \<Rightarrow> string \<Rightarrow> json" where
  "candidate_finding host check = json_object
     [(''fingerprint'', json_string (fingerprint host check)),
      (''severity'', json_string (if check = ''HTTP_HSTS'' \<or> check = ''HTTP_CSP'' then ''MEDIUM'' else ''LOW'')),
      (''confidence'', JsNum 90), (''evidence'', json_string (check @ '':NOT_ACCEPTED''))]"

definition coverage_entry :: "string \<Rightarrow> bool \<Rightarrow> string \<Rightarrow> json" where
  "coverage_entry detectors ok completeness = json_object
     [(''detector_group'', json_string detectors),
      (''execution_status'', json_string (if ok then ''SUCCESS'' else ''FAILED'')),
      (''completeness'', json_string (if ok then completeness else ''UNKNOWN''))]"

definition warning_codes :: "bool \<Rightarrow> bool \<Rightarrow> bool \<Rightarrow> string list" where
  "warning_codes resolved http security_txt =
     (if \<not> resolved then [''TARGET_RESOLUTION_UNAVAILABLE''] else []) @
     (if resolved \<and> \<not> http then [''HTTPS_PROBE_UNAVAILABLE''] else []) @
     (if resolved \<and> \<not> security_txt then [''SECURITY_TXT_UNAVAILABLE''] else []) @
     map (\<lambda>detectors. detectors @ ''_UNAVAILABLE'') UNAVAILABLE_COVERAGE"

definition build_output ::
  "(units \<Rightarrow> url_parts option) \<Rightarrow> string \<Rightarrow> int \<Rightarrow> int \<Rightarrow> int \<Rightarrow> resolve_fail + resolved_target \<Rightarrow>
   flow_result option \<Rightarrow> flow_result option \<Rightarrow> json" where
  "build_output url host started_at completed_at request_count resolved http security_txt =
     (let outcomes = scan_outcomes url host completed_at resolved http security_txt;
          ok = (case resolved of Inr _ \<Rightarrow> True | Inl _ \<Rightarrow> False)
      in json_object
        [(''observations'', JsArr (map (\<lambda>(check, outcome). json_object
            [(''check_id'', json_string check), (''outcome'', json_string outcome)]) outcomes)),
         (''candidate_findings'', JsArr (map (\<lambda>(check, _). candidate_finding host check) (filter is_finding outcomes))),
         (''coverage'', JsArr
           ([coverage_entry ''TARGET_RESOLUTION'' ok ''COMPLETE'',
             coverage_entry ''DNS_DOMAIN_POSTURE'' ok ''PARTIAL'',
             coverage_entry ''TLS_CERTIFICATE_POSTURE'' (flow_ok http) ''COMPLETE'',
             coverage_entry ''HTTP_SECURITY_POSTURE'' (flow_ok http) ''PARTIAL''] @
            map (\<lambda>detectors. coverage_entry detectors False ''UNKNOWN'') UNAVAILABLE_COVERAGE)),
         (''execution_metadata'', json_object
           [(''schema_version'', JsNum 1), (''profile'', json_string ''GUEST_SAFE''),
            (''canonical_host'', json_string host), (''policy_id'', json_string ''outscan-v1''),
            (''policy_version'', json_string ''1.0.0''),
            (''duration_ms'', JsNum (max 0 (min 30000 (completed_at - started_at)))),
            (''request_count'', JsNum request_count)]),
         (''warnings'', JsArr (map (\<lambda>code. json_object [(''code'', json_string code)])
           (warning_codes ok (flow_ok http) (flow_ok security_txt))))])"

subsection \<open>Configuration\<close>

definition guest_scanner_runtime_configuration :: "jsval \<Rightarrow> (jsval \<times> string list) option" where
  "guest_scanner_runtime_configuration v =
     do {
       require (exact_object v [''schema_version'', ''dns'', ''configured_internal_cidrs'']);
       require (get_prop v ''schema_version'' = JNum 1);
       cidrs \<leftarrow> snapshot_configured_internal_cidrs (get_prop v ''configured_internal_cidrs'');
       Some (get_prop v ''dns'', cidrs)
     }"

subsection \<open>The request budget\<close>

text \<open>
  \<^verbatim>\<open>reserve()\<close> counts a request while the count is below the maximum: after \<open>n\<close> attempts from the
  count \<open>used\<close> it is \<open>reserved maximum used n\<close>.
\<close>

definition reserved :: "int \<Rightarrow> int \<Rightarrow> int \<Rightarrow> int" where
  "reserved maximum used n = max used (min maximum (used + n))"

definition bounded_dns ::
  "int \<Rightarrow> int \<Rightarrow> (string \<Rightarrow> dns_answer \<times> dns_answer) \<Rightarrow> string \<Rightarrow> dns_answer \<times> dns_answer" where
  "bounded_dns maximum used dns host =
     (case dns host of
        (answer4, answer6) \<Rightarrow>
          (if used < maximum then answer4 else REJECTED (JObj []),
           if reserved maximum used 1 < maximum then answer6 else REJECTED (JObj [])))"

text \<open>A turn of the flow asks the resolver twice, then calls the transport.\<close>

definition bounded_round :: "int \<Rightarrow> int \<Rightarrow> fetch_round \<Rightarrow> fetch_round" where
  "bounded_round maximum used round =
     round\<lparr>fr_dns := bounded_dns maximum used (fr_dns round),
       fr_transport := (\<lambda>target request limits cidrs.
         if reserved maximum used 2 < maximum then fr_transport round target request limits cidrs
         else Some (Inl TRANSPORT_ERROR))\<rparr>"

text \<open>The flows have no retries, so a turn that another follows has made three calls.\<close>

definition bounded_rounds :: "int \<Rightarrow> int \<Rightarrow> (nat \<Rightarrow> fetch_round) \<Rightarrow> nat \<Rightarrow> fetch_round" where
  "bounded_rounds maximum used rounds i = bounded_round maximum (reserved maximum used (3 * int i)) (rounds i)"

subsection \<open>The run\<close>

definition probe_input :: "string \<Rightarrow> string \<Rightarrow> int \<Rightarrow> int \<Rightarrow> int \<Rightarrow> int \<Rightarrow> int \<Rightarrow> jsval" where
  "probe_input host path deadline duration_ms redirects total_bytes maximum = JObj
     [(''canonical_host'', JStr host), (''protocol'', JStr ''https:''), (''method'', JStr ''GET''),
      (''path'', JStr path), (''deadline_unix_ms'', JNum deadline), (''max_redirects'', JNum redirects),
      (''max_retries'', JNum 0), (''max_total_response_bytes'', JNum total_bytes),
      (''transport_limits'', JObj
        [(''timeout_ms'', JNum (min duration_ms 30000)), (''max_response_bytes'', JNum maximum),
         (''max_header_pairs'', JNum 100), (''max_header_bytes'', JNum (64 * 1024))])]"

text \<open>\<open>sw_callable\<close>: the resolver and the clock are functions; a clock that throws is \<open>None\<close>.\<close>

record scanner_world =
  sw_callable :: bool
  sw_internal_cidrs :: jsval
  sw_started_at :: "jsval option"
  sw_dns :: "string \<Rightarrow> dns_answer \<times> dns_answer"
  sw_http :: "nat \<Rightarrow> fetch_round"
  sw_security_txt :: "nat \<Rightarrow> fetch_round"
  sw_completed_at :: "jsval option"

definition or_empty :: "jsval \<Rightarrow> jsval" where
  "or_empty v = (if v = JUndef \<or> v = JNull then JArr [] else v)"

text \<open>A flow with the requests counted so far: its result and the count after it.\<close>

definition counted_flow ::
  "(string \<Rightarrow> string) \<Rightarrow> (string \<Rightarrow> string \<Rightarrow> url_parts option) \<Rightarrow> jsval \<Rightarrow> int \<Rightarrow> jsval \<Rightarrow> (nat \<Rightarrow> fetch_round) \<Rightarrow>
   int \<Rightarrow> flow_result \<times> int" where
  "counted_flow to_ascii url cidrs maximum input rounds used =
     (case execute_safe_http_flow to_ascii url cidrs input (bounded_rounds maximum used rounds) of
        (result, lookups, calls) \<Rightarrow> (result, reserved maximum used (2 * lookups + int (length calls))))"

definition run_guest_safe_scanner ::
  "(string \<Rightarrow> string) \<Rightarrow> (string \<Rightarrow> string \<Rightarrow> url_parts option) \<Rightarrow> (units \<Rightarrow> url_parts option) \<Rightarrow> jsval \<Rightarrow>
   scanner_world \<Rightarrow> scanner_fail + json" where
  "run_guest_safe_scanner to_ascii url absolute_url v w =
     (case scanner_input to_ascii v of
        None \<Rightarrow> Inl INVALID_SCANNER_INPUT
      | Some (host, budgets) \<Rightarrow>
          (case (snapshot_configured_internal_cidrs (or_empty (sw_internal_cidrs w)), safe_now (sw_started_at w)) of
             (Some cidr_texts, Some started_at) \<Rightarrow>
               let duration_ms = hard_duration_seconds budgets * 1000; deadline = started_at + duration_ms;
                   maximum = max_requests budgets; cidrs = JArr (map JStr cidr_texts)
               in if \<not> sw_callable w \<or> \<not> safe_int deadline then Inl INVALID_SCANNER_RUNTIME
                  else let resolved = resolve_and_classify_hostname to_ascii host
                             (bounded_dns maximum 0 (sw_dns w)) cidrs (JNum started_at);
                           used = reserved maximum 0 2
                       in case (case resolved of
                             Inl _ \<Rightarrow> (None, None, used)
                           | Inr _ \<Rightarrow>
                               (case counted_flow to_ascii url cidrs maximum
                                       (probe_input host ''/'' deadline duration_ms (max_redirects budgets)
                                          (max_total_response_bytes budgets)
                                          (min (max_response_bytes budgets) (64 * 1024)))
                                       (sw_http w) used of
                                  (http, used1) \<Rightarrow>
                                    (case counted_flow to_ascii url cidrs maximum
                                            (probe_input host SECURITY_TXT_PATH deadline duration_ms
                                               (max_redirects budgets) MAX_SECURITY_TXT_BYTES
                                               (min (max_response_bytes budgets) MAX_SECURITY_TXT_BYTES))
                                            (sw_security_txt w) used1 of
                                       (security_txt, used2) \<Rightarrow> (Some http, Some security_txt, used2)))) of
                         (http, security_txt, count) \<Rightarrow>
                           (case safe_now (sw_completed_at w) of
                              None \<Rightarrow> Inl INVALID_SCANNER_RUNTIME
                            | Some completed_at \<Rightarrow>
                                Inr (build_output absolute_url host started_at completed_at count resolved http
                                  security_txt))
           | _ \<Rightarrow> Inl INVALID_SCANNER_RUNTIME))"

end
