(* ===== verification/Fetch_Properties.thy ===== *)
theory Fetch_Properties
  imports Safe_Fetch Tables
begin

section \<open>What the fetch can reach\<close>

text \<open>
  Every turn of the flow keeps an invariant, so every call of the transport is pinned to an address
  that the policy has approved in that turn; the number of turns is bounded by the input; and with the
  transport of \<open>Pinned_Transport\<close> the response comes from the address it was pinned to.
\<close>

definition flow_start :: "flow_input \<Rightarrow> flow_state" where
  "flow_start input = \<lparr>fs_current = fi_request input, fs_retries = 0, fs_request_count = 0,
     fs_redirect_count = 0, fs_total_response_bytes = 0, fs_lookups = 0, fs_dispatched = []\<rparr>"

definition valid_request_line :: "current_request \<Rightarrow> bool" where
  "valid_request_line r \<longleftrightarrow> cu_protocol r \<in> {''http:'', ''https:''} \<and> cu_method r \<in> {''GET'', ''HEAD''} \<and>
     is_valid_origin_form_path (cu_path r)"

definition valid_flow_input :: "(string \<Rightarrow> string) \<Rightarrow> flow_input \<Rightarrow> bool" where
  "valid_flow_input to_ascii input \<longleftrightarrow>
     canonicalize_hostname to_ascii (JStr (fi_canonical_host input)) = Inr (fi_canonical_host input) \<and>
     valid_request_line (fi_request input) \<and>
     0 \<le> fi_max_redirects input \<and> fi_max_redirects input \<le> MAX_REDIRECTS \<and>
     0 \<le> fi_max_retries input \<and> fi_max_retries input \<le> MAX_RETRIES"

lemma parse_flow_valid: "parse_flow_input to_ascii v = Some input \<Longrightarrow> valid_flow_input to_ascii input"
  by (auto simp: parse_flow_input_def valid_flow_input_def valid_request_line_def Option.bind_eq_Some_conv
      as_bounded_Some as_str_matching_def split: jsval.splits if_splits)

text \<open>A call of the transport that is allowed.\<close>

definition dispatch_ok :: "(string \<Rightarrow> string) \<Rightarrow> jsval \<Rightarrow> flow_input \<Rightarrow> dispatch \<Rightarrow> bool" where
  "dispatch_ok to_ascii cidrs input d \<longleftrightarrow>
     rt_canonical_host (dp_target d) = fi_canonical_host input \<and>
     parse_target to_ascii (target_object (dp_target d)) cidrs = TARGET_OK (dp_target d) \<and>
     pr_pinned_address (dp_request d) \<in> fst ` set (rt_addresses (dp_target d)) \<and>
     approved_address cidrs (pr_pinned_address (dp_request d)) \<and> valid_spec (dp_request d) \<and>
     pr_method (dp_request d) = cu_method (fi_request input) \<and>
     pr_now (dp_request d) + 100 \<le> fi_deadline input \<and>
     tl_timeout_ms (dp_limits d) \<le> fi_deadline input - pr_now (dp_request d)"

text \<open>Once a request has been sent over TLS, so are all that follow.\<close>

definition no_downgrade :: "string list \<Rightarrow> bool" where
  "no_downgrade = sorted_wrt (\<lambda>a b. a = ''https:'' \<longrightarrow> b = ''https:'')"

definition flow_inv :: "(string \<Rightarrow> string) \<Rightarrow> jsval \<Rightarrow> flow_input \<Rightarrow> flow_state \<Rightarrow> bool" where
  "flow_inv to_ascii cidrs input st \<longleftrightarrow>
     valid_flow_input to_ascii input \<and> valid_request_line (fs_current st) \<and>
     cu_method (fs_current st) = cu_method (fi_request input) \<and>
     0 \<le> fs_retries st \<and> fs_retries st \<le> fi_max_retries input \<and>
     0 \<le> fs_redirect_count st \<and> fs_redirect_count st \<le> fi_max_redirects input \<and>
     list_all (dispatch_ok to_ascii cidrs input) (fs_dispatched st) \<and>
     no_downgrade ((cu_protocol (fi_request input) # map (\<lambda>d. pr_protocol (dp_request d)) (fs_dispatched st)) @
       [cu_protocol (fs_current st)])"

lemma follow_keeps:
  assumes "redirect_decision_of to_ascii url r current host = RD_FOLLOW next_request"
  shows "cu_method next_request = cu_method current" "valid_request_line current \<Longrightarrow> valid_request_line next_request"
    "cu_protocol current = ''https:'' \<Longrightarrow> cu_protocol next_request = ''https:''"
  using assms
  by (auto simp: redirect_decision_of_def follow_location_def valid_request_line_def Let_def
      split: if_splits list.splits option.splits sum.splits)

lemma retry_effect:
  assumes "retry_or_fail input st code = (res, st')" "0 \<le> fs_retries st" "fs_retries st \<le> fi_max_retries input"
  shows "fs_current st' = fs_current st" "fs_dispatched st' = fs_dispatched st" "fs_redirect_count st' = fs_redirect_count st"
    "0 \<le> fs_retries st'" "fs_retries st' \<le> fi_max_retries input"
  using assms by (auto simp: retry_or_fail_def split: if_splits)

lemma retry_keeps:
  assumes "retry_or_fail input st code = (res, st')" "flow_inv to_ascii cidrs input st"
  shows "flow_inv to_ascii cidrs input st'"
  using assms(2) retry_effect [OF assms(1)] by (simp add: flow_inv_def)

lemma no_downgrade_next:
  "no_downgrade (ps @ [p]) \<Longrightarrow> p = ''https:'' \<longrightarrow> q = ''https:'' \<Longrightarrow> no_downgrade (ps @ [q])"
  by (auto simp: no_downgrade_def sorted_wrt_append)

lemma no_downgrade_more: "no_downgrade (ps @ [p]) \<Longrightarrow> no_downgrade ((ps @ [p]) @ [p])"
  by (auto simp: no_downgrade_def sorted_wrt_append)

lemma response_keeps:
  assumes "handle_response to_ascii url input st r = (res, st')" "flow_inv to_ascii cidrs input st"
  shows "flow_inv to_ascii cidrs input st'"
proof (cases "\<exists>next_request. redirect_decision_of to_ascii url r (fs_current st) (fi_canonical_host input) =
    RD_FOLLOW next_request \<and> fs_redirect_count st < fi_max_redirects input \<and>
    st' = st\<lparr>fs_redirect_count := fs_redirect_count st + 1, fs_retries := 0, fs_current := next_request,
      fs_total_response_bytes := fs_total_response_bytes st + int (length (tr_body r))\<rparr>")
  case True
  then obtain next_request where follow: "redirect_decision_of to_ascii url r (fs_current st) (fi_canonical_host input) =
      RD_FOLLOW next_request" "fs_redirect_count st < fi_max_redirects input"
    "st' = st\<lparr>fs_redirect_count := fs_redirect_count st + 1, fs_retries := 0, fs_current := next_request,
      fs_total_response_bytes := fs_total_response_bytes st + int (length (tr_body r))\<rparr>" by blast
  note k = follow_keeps [OF follow(1)]
  have "no_downgrade ((cu_protocol (fi_request input) # map (\<lambda>d. pr_protocol (dp_request d)) (fs_dispatched st)) @
      [cu_protocol next_request])"
    by (rule no_downgrade_next) (use assms(2) k(3) in \<open>auto simp: flow_inv_def\<close>)
  then show ?thesis
    using assms(2) k(1,2) follow(2) by (simp add: flow_inv_def follow(3) valid_flow_input_def)
next
  case False
  then have "st' = st"
    using assms(1) by (auto simp: handle_response_def Let_def split: if_splits redirect_decision.splits)
  then show ?thesis using assms(2) by simp
qed

lemma dispatch_keeps:
  assumes inv: "flow_inv to_ascii cidrs input st"
    and target: "resolve_and_classify_hostname to_ascii (fi_canonical_host input) dns cidrs (JNum t) = Inr target"
    and clock: "read_clock clock = Some now" "\<not> fi_deadline input - now < 100"
  shows "flow_inv to_ascii cidrs input (st\<lparr>fs_dispatched := fs_dispatched st @ [dispatch_of input st target now]\<rparr>)"
    "dispatch_ok to_ascii cidrs input (dispatch_of input st target now)"
proof -
  obtain v where t: "rt_canonical_host target = fi_canonical_host input"
    and c: "classify_resolved_address_set v cidrs = Inr (rt_addresses target)"
    by (rule resolved_parts [OF target]) (metis resolved_target.select_convs(1))
  note ok = classify_again [OF c]
  let ?k = "nat (fs_retries st mod int (length (rt_addresses target)))"
  have "?k < length (rt_addresses target)" using ok(2) by (simp add: nat_less_iff)
  then have mem: "rt_addresses target ! ?k \<in> set (rt_addresses target)" by simp
  then have "approved_address cidrs (fst (rt_addresses target ! ?k))" using ok(4) by fastforce
  moreover have "0 \<le> now" "safe_int now"
    using clock(1) by (auto simp: read_clock_def Option.bind_eq_Some_conv as_bounded_Some)
  ultimately show one: "dispatch_ok to_ascii cidrs input (dispatch_of input st target now)"
    using inv mem t parse_resolved [OF target] clock(2)
    by (auto simp: dispatch_ok_def dispatch_of_def valid_spec_def flow_inv_def valid_request_line_def)
  have "no_downgrade (((cu_protocol (fi_request input) # map (\<lambda>d. pr_protocol (dp_request d)) (fs_dispatched st)) @
      [cu_protocol (fs_current st)]) @ [cu_protocol (fs_current st)])"
    using inv by (intro no_downgrade_more) (simp add: flow_inv_def)
  moreover have "pr_protocol (dp_request (dispatch_of input st target now)) = cu_protocol (fs_current st)"
    by (simp add: dispatch_of_def)
  ultimately show "flow_inv to_ascii cidrs input (st\<lparr>fs_dispatched := fs_dispatched st @ [dispatch_of input st target now]\<rparr>)"
    using inv one by (simp add: flow_inv_def)
qed

text \<open>One turn, by what it called.\<close>

lemma round_shape:
  assumes "flow_round to_ascii url cidrs input round st = (res, st')"
  obtains (early) "st' = st \<or> st' = count_lookup st" "\<exists>code. res = Some (FLOW_FAILED code)"
  | (unresolved) code where "retry_or_fail input (count_lookup st) (FLOW_RESOLVE code) = (res, st')"
  | (called) dns t clock target now st1 where
      "resolve_and_classify_hostname to_ascii (fi_canonical_host input) dns cidrs (JNum t) = Inr target"
      "read_clock clock = Some now" "\<not> fi_deadline input - now < 100"
      "st1 = (count_lookup st)\<lparr>fs_dispatched := fs_dispatched st @ [dispatch_of input (count_lookup st) target now]\<rparr>"
      "st' = st1 \<and> (\<exists>code. res = Some (FLOW_FAILED code)) \<or>
       (\<exists>st2 result. st2 = st1\<lparr>fs_request_count := fs_request_count st1 + 1\<rparr> \<and>
          fr_transport round (target_object target) (spec_object (dp_request (dispatch_of input (count_lookup st) target now)))
            (limits_object (dp_limits (dispatch_of input (count_lookup st) target now))) cidrs = Some result \<and>
          (st' = st2 \<and> (\<exists>code. res = Some (FLOW_FAILED code)) \<or>
           (\<exists>code. result = Inl code \<and> retry_or_fail input st2 (FLOW_TRANSPORT code) = (res, st')) \<or>
           (\<exists>r. result = Inr r \<and> handle_response to_ascii url input st2 r = (res, st'))))"
proof (cases "read_clock (fr_resolution_time round)")
  case None
  show ?thesis by (rule early) (use assms None in \<open>auto simp: flow_round_def\<close>)
next
  case (Some t)
  note t = Some
  show ?thesis
  proof (cases "t \<ge> fi_deadline input")
    case True
    show ?thesis by (rule early) (use assms t True in \<open>auto simp: flow_round_def\<close>)
  next
    case False
    note in_time = False
    show ?thesis
    proof (cases "resolve_and_classify_hostname to_ascii (fi_canonical_host input) (fr_dns round) cidrs (JNum t)")
      case (Inl code)
      show ?thesis by (rule unresolved) (use assms t in_time Inl in \<open>auto simp: flow_round_def\<close>)
    next
      case (Inr target)
      note target = Inr
      show ?thesis
      proof (cases "read_clock (fr_request_time round)")
        case None
        show ?thesis by (rule early) (use assms t in_time target None in \<open>auto simp: flow_round_def\<close>)
      next
        case (Some now)
        show ?thesis
        proof (cases "fi_deadline input - now < 100")
          case True
          show ?thesis by (rule early) (use assms t in_time target Some True in \<open>auto simp: flow_round_def\<close>)
        next
          case False
          show ?thesis
            by (rule called [OF target Some False refl])
              (use assms in \<open>auto simp: count_lookup_def flow_round_def t in_time target Some False Let_def
                 split: option.splits sum.splits if_splits\<close>)
        qed
      qed
    qed
  qed
qed

lemma flow_inv_lookup [simp]: "flow_inv to_ascii cidrs input (count_lookup st) = flow_inv to_ascii cidrs input st"
  by (simp add: flow_inv_def count_lookup_def)

lemma count_lookup_simps [simp]:
  "fs_current (count_lookup st) = fs_current st" "fs_retries (count_lookup st) = fs_retries st"
  "fs_request_count (count_lookup st) = fs_request_count st" "fs_redirect_count (count_lookup st) = fs_redirect_count st"
  "fs_total_response_bytes (count_lookup st) = fs_total_response_bytes st"
  "fs_dispatched (count_lookup st) = fs_dispatched st"
  by (simp_all add: count_lookup_def)

lemma flow_inv_count: "flow_inv to_ascii cidrs input (st\<lparr>fs_request_count := n\<rparr>) = flow_inv to_ascii cidrs input st"
  by (simp add: flow_inv_def)

lemma round_keeps:
  assumes "flow_round to_ascii url cidrs input round st = (res, st')" "flow_inv to_ascii cidrs input st"
  shows "flow_inv to_ascii cidrs input st'"
  using assms(1)
proof (cases rule: round_shape)
  case early
  then show ?thesis using assms(2) by auto
next
  case (unresolved code)
  from retry_keeps [OF this] assms(2) show ?thesis by simp
next
  case (called dns t clock target now st1)
  have "flow_inv to_ascii cidrs input (count_lookup st)" using assms(2) by simp
  from dispatch_keeps(1) [OF this called(1-3)] have kept: "flow_inv to_ascii cidrs input st1" by (simp add: called(4))
  from called(5) kept show ?thesis
    by (elim disjE exE conjE) (auto simp: flow_inv_count intro: retry_keeps response_keeps)
qed

definition flow_step :: "(string \<Rightarrow> string) \<Rightarrow> (string \<Rightarrow> string \<Rightarrow> url_parts option) \<Rightarrow> jsval \<Rightarrow> flow_input \<Rightarrow>
    flow_state \<Rightarrow> flow_state \<Rightarrow> bool" where
  "flow_step to_ascii url cidrs input st st' \<longleftrightarrow>
     (\<exists>round res. flow_round to_ascii url cidrs input round st = (res, st'))"

interpretation flow: invariant_system "\<lambda>st. valid_flow_input to_ascii input \<and> st = flow_start input"
  "flow_step to_ascii url cidrs input" "flow_inv to_ascii cidrs input"
  for to_ascii url cidrs input
proof
  fix st
  assume "valid_flow_input to_ascii input \<and> st = flow_start input"
  then show "flow_inv to_ascii cidrs input st"
    by (simp add: flow_inv_def flow_start_def valid_flow_input_def no_downgrade_def)
next
  fix st st'
  assume "flow_inv to_ascii cidrs input st" "flow_step to_ascii url cidrs input st st'"
  then show "flow_inv to_ascii cidrs input st'" unfolding flow_step_def using round_keeps by blast
qed

lemma loop_reachable:
  assumes "reachable init (flow_step to_ascii url cidrs input) st"
    and "flow_loop to_ascii url cidrs input rounds i st = (res, final)"
  shows "reachable init (flow_step to_ascii url cidrs input) final"
  using assms
proof (induction to_ascii url cidrs input rounds i st rule: flow_loop.induct)
  case (1 to_ascii url cidrs input rounds i st)
  obtain r st' where round: "flow_round to_ascii url cidrs input (rounds i) st = (r, st')" by fastforce
  have next_state: "reachable init (flow_step to_ascii url cidrs input) st'"
    by (rule reachable.more [OF "1.prems"(1)]) (use round in \<open>auto simp: flow_step_def\<close>)
  show ?case
  proof (cases r)
    case None
    with round have turn: "flow_round to_ascii url cidrs input (rounds i) st = (None, st')" by simp
    show ?thesis
      by (rule "1.IH" [OF turn [symmetric] refl next_state]) (use "1.prems"(2) in \<open>simp add: turn\<close>)
  next
    case (Some result)
    then show ?thesis using "1.prems"(2) next_state by (simp add: round)
  qed
qed

lemma executed_parts:
  assumes "execute_safe_http_flow to_ascii url cidrs v rounds = (res, lookups, ds)" "parse_flow_input to_ascii v = Some input"
  obtains st where "flow_loop to_ascii url cidrs input rounds 0 (flow_start input) = (res, st)" "ds = fs_dispatched st"
    "flow_inv to_ascii cidrs input st"
proof -
  obtain st where run: "flow_loop to_ascii url cidrs input rounds 0 (flow_start input) = (res, st)" "ds = fs_dispatched st"
    using assms by (auto simp: execute_safe_http_flow_def flow_start_def split: prod.splits)
  have "flow_inv to_ascii cidrs input st"
    by (rule flow.always [OF loop_reachable [OF reachable.start run(1)]]) (simp add: parse_flow_valid [OF assms(2)])
  with that run show ?thesis by blast
qed

subsection \<open>The number of turns\<close>

definition turns_left :: "flow_input \<Rightarrow> flow_state \<Rightarrow> nat" where
  "turns_left input st = nat ((fi_max_redirects input - fs_redirect_count st) * (fi_max_retries input + 1) +
     (fi_max_retries input - fs_retries st) + 1)"

lemma round_turns:
  assumes "flow_round to_ascii url cidrs input round st = (None, st')" "flow_inv to_ascii cidrs input st"
  shows "turns_left input st' < turns_left input st" "length (fs_dispatched st') \<le> length (fs_dispatched st) + 1"
  using assms(1)
proof (atomize (full), cases rule: round_cases)
  case unresolved
  then show "turns_left input st' < turns_left input st \<and> length (fs_dispatched st') \<le> length (fs_dispatched st) + 1"
    using assms(2) by (auto simp: turns_left_def flow_inv_def nat_less_iff)
next
  case (refused d)
  then show "turns_left input st' < turns_left input st \<and> length (fs_dispatched st') \<le> length (fs_dispatched st) + 1"
    using assms(2) by (auto simp: turns_left_def flow_inv_def)
next
  case (redirected d r)
  note b = response_budget [OF redirected]
  let ?R = "fi_max_redirects input - fs_redirect_count st" and ?T = "fi_max_retries input"
  have "(?R - 1) * (?T + 1) + ?T + 1 = ?R * (?T + 1)" by algebra
  moreover have pos: "0 \<le> ?R * (?T + 1)" using assms(2) by (auto simp: flow_inv_def valid_flow_input_def)
  moreover have "fi_max_redirects input - fs_redirect_count st' = ?R - 1" "fs_retries st' = 0" using b by simp_all
  ultimately have "turns_left input st' = nat (?R * (?T + 1))" unfolding turns_left_def by (metis diff_zero)
  then have "turns_left input st' < turns_left input st"
    using assms(2) pos by (simp add: turns_left_def flow_inv_def)
  moreover have "length (fs_dispatched st') \<le> length (fs_dispatched st) + 1" using b by simp
  ultimately show "turns_left input st' < turns_left input st \<and> length (fs_dispatched st') \<le> length (fs_dispatched st) + 1" ..
qed

lemma round_calls_once:
  assumes "flow_round to_ascii url cidrs input round st = (res, st')"
  shows "length (fs_dispatched st') \<le> length (fs_dispatched st) + 1"
  using assms
proof (cases rule: round_shape)
  case early
  then show ?thesis by auto
next
  case (unresolved code)
  then show ?thesis by (auto simp: retry_or_fail_def split: if_splits)
next
  case (called dns t clock target now st1)
  have same: "fs_dispatched st' = fs_dispatched s" if "retry_or_fail input s code = (res, st')" for s code
    using that by (auto simp: retry_or_fail_def split: if_splits)
  have same': "fs_dispatched st' = fs_dispatched s" if "handle_response to_ascii url input s r = (res, st')" for s r
    using that by (auto simp: handle_response_def Let_def split: if_splits redirect_decision.splits)
  have "fs_dispatched st' = fs_dispatched st1"
    using called(5) by (auto dest!: same same')
  then show ?thesis by (simp add: called(4))
qed

lemma round_lookups:
  assumes "flow_round to_ascii url cidrs input round st = (res, st')"
  shows "fs_lookups st \<le> fs_lookups st'"
  using assms
proof (cases rule: round_shape)
  case early
  then show ?thesis by (auto simp: count_lookup_def)
next
  case (unresolved code)
  then show ?thesis by (auto simp: retry_or_fail_def count_lookup_def split: if_splits)
next
  case (called dns t clock target now st1)
  have same: "fs_lookups st' = fs_lookups s" if "retry_or_fail input s code = (res, st')" for s code
    using that by (auto simp: retry_or_fail_def split: if_splits)
  have same': "fs_lookups st' = fs_lookups s" if "handle_response to_ascii url input s r = (res, st')" for s r
    using that by (auto simp: handle_response_def Let_def split: if_splits redirect_decision.splits)
  have "fs_lookups st' = fs_lookups st1"
    using called(5) by (auto dest!: same same')
  then show ?thesis by (simp add: called(4) count_lookup_def)
qed

lemma loop_lookups:
  "flow_loop to_ascii url cidrs input rounds i st = (res, final) \<Longrightarrow> fs_lookups st \<le> fs_lookups final"
proof (induction to_ascii url cidrs input rounds i st rule: flow_loop.induct)
  case (1 to_ascii url cidrs input rounds i st)
  obtain r st' where round: "flow_round to_ascii url cidrs input (rounds i) st = (r, st')" by fastforce
  show ?case
  proof (cases r)
    case None
    with round have turn: "flow_round to_ascii url cidrs input (rounds i) st = (None, st')" by simp
    have "fs_lookups st' \<le> fs_lookups final"
      by (rule "1.IH" [OF turn [symmetric] refl]) (use "1.prems" in \<open>simp add: turn\<close>)
    with round_lookups [OF round] show ?thesis by simp
  next
    case (Some result)
    then show ?thesis using "1.prems" round_lookups [OF round] by (simp add: round)
  qed
qed

text \<open>Without retries, a turn that another follows has asked the resolver once and called the transport once.\<close>

lemma turn_calls:
  assumes "flow_round to_ascii url cidrs input round st = (None, st')" "fi_max_retries input = 0" "0 \<le> fs_retries st"
  shows "fs_lookups st' = fs_lookups st + 1" "length (fs_dispatched st') = length (fs_dispatched st) + 1"
proof -
  have "fs_lookups st' = fs_lookups s \<and> fs_dispatched st' = fs_dispatched s"
    if "handle_response to_ascii url input s r = (None, st')" for s r
    using that by (auto simp: handle_response_def Let_def split: if_splits redirect_decision.splits)
  note same = this
  show "fs_lookups st' = fs_lookups st + 1" "length (fs_dispatched st') = length (fs_dispatched st) + 1"
    using assms(1) by (cases rule: round_cases; use assms(2,3) in \<open>auto simp: count_lookup_def dest!: same\<close>)+
qed

lemma loop_bounded:
  assumes "flow_inv to_ascii cidrs input st"
    and "\<forall>j. i \<le> j \<and> j < i + turns_left input st \<longrightarrow> rounds' j = rounds j"
  shows "flow_loop to_ascii url cidrs input rounds' i st = flow_loop to_ascii url cidrs input rounds i st"
    and "length (fs_dispatched (snd (flow_loop to_ascii url cidrs input rounds i st))) \<le>
      length (fs_dispatched st) + turns_left input st"
proof (atomize (full))
  show "flow_loop to_ascii url cidrs input rounds' i st = flow_loop to_ascii url cidrs input rounds i st \<and>
      length (fs_dispatched (snd (flow_loop to_ascii url cidrs input rounds i st))) \<le>
      length (fs_dispatched st) + turns_left input st"
    using assms
  proof (induction to_ascii url cidrs input rounds i st rule: flow_loop.induct)
    case (1 to_ascii url cidrs input rounds i st)
    obtain r st' where round: "flow_round to_ascii url cidrs input (rounds i) st = (r, st')" by fastforce
    have some_left: "0 < turns_left input st"
      using "1.prems"(1) by (simp add: turns_left_def flow_inv_def valid_flow_input_def pos_add_strict)
    then have same: "rounds' i = rounds i" using "1.prems"(2) by simp
    show ?case
    proof (cases r)
      case (Some result)
      then show ?thesis using round_calls_once [OF round] some_left by (simp add: same round)
    next
      case None
      with round have turn: "flow_round to_ascii url cidrs input (rounds i) st = (None, st')" by simp
      note less = round_turns [OF turn "1.prems"(1)]
      have "flow_loop to_ascii url cidrs input rounds' (i + 1) st' = flow_loop to_ascii url cidrs input rounds (i + 1) st' \<and>
          length (fs_dispatched (snd (flow_loop to_ascii url cidrs input rounds (i + 1) st'))) \<le>
          length (fs_dispatched st') + turns_left input st'"
        by (rule "1.IH" [OF turn [symmetric] refl round_keeps [OF turn "1.prems"(1)]])
          (use "1.prems"(2) less(1) in auto)
      then show ?thesis using less by (simp add: same turn)
    qed
  qed
qed

subsection \<open>Where a response comes from\<close>

lemma loop_ends:
  assumes "flow_inv to_ascii cidrs input st" "flow_loop to_ascii url cidrs input rounds i st = (res, final)"
  obtains j st' where "flow_inv to_ascii cidrs input st'"
    "flow_round to_ascii url cidrs input (rounds j) st' = (Some res, final)"
proof -
  have "\<exists>j st'. flow_inv to_ascii cidrs input st' \<and> flow_round to_ascii url cidrs input (rounds j) st' = (Some res, final)"
    using assms
  proof (induction to_ascii url cidrs input rounds i st rule: flow_loop.induct)
    case (1 to_ascii url cidrs input rounds i st)
    obtain r st' where round: "flow_round to_ascii url cidrs input (rounds i) st = (r, st')" by fastforce
    show ?case
    proof (cases r)
      case None
      with round have turn: "flow_round to_ascii url cidrs input (rounds i) st = (None, st')" by simp
      show ?thesis
        by (rule "1.IH" [OF turn [symmetric] refl round_keeps [OF turn "1.prems"(1)]]) (use "1.prems"(2) in \<open>simp add: turn\<close>)
    next
      case (Some result)
      then have "flow_round to_ascii url cidrs input (rounds i) st = (Some res, final)"
        using "1.prems"(2) round by simp
      with "1.prems"(1) show ?thesis by blast
    qed
  qed
  with that show ?thesis by blast
qed

lemma response_of_round:
  assumes inv: "flow_inv to_ascii cidrs input st"
    and round: "flow_round to_ascii url cidrs input round st = (Some (FLOW_OK r n k reason), st')"
  obtains d where "fs_dispatched st' = fs_dispatched st @ [d]" "dispatch_ok to_ascii cidrs input d"
    "tl_max_response_bytes (dp_limits d) = tl_max_response_bytes (fi_transport_limits input)"
    "fr_transport round (target_object (dp_target d)) (spec_object (dp_request d)) (limits_object (dp_limits d)) cidrs =
      Some (Inr r)"
  using round
proof (cases rule: round_shape)
  case early
  then show ?thesis by simp
next
  case (unresolved code)
  then show ?thesis by (auto simp: retry_or_fail_def split: if_splits)
next
  case (called dns t clock target now st1)
  have final: "r = r' \<and> st' = s" if "handle_response to_ascii url input s r' = (Some (FLOW_OK r n k reason), st')" for s r'
    using that by (auto simp: handle_response_def Let_def split: if_splits redirect_decision.splits)
  have none: "retry_or_fail input s code \<noteq> (Some (FLOW_OK r n k reason), st')" for s code
    by (simp add: retry_or_fail_def)
  have "fr_transport round (target_object target) (spec_object (dp_request (dispatch_of input (count_lookup st) target now)))
      (limits_object (dp_limits (dispatch_of input (count_lookup st) target now))) cidrs = Some (Inr r)"
    "st' = st1\<lparr>fs_request_count := fs_request_count st1 + 1\<rparr>"
    using called(5) by (auto simp: none dest!: final)
  with that [of "dispatch_of input (count_lookup st) target now"] dispatch_keeps(2) [of to_ascii cidrs input "count_lookup st", OF _ called(1-3)] inv
  show ?thesis
    by (simp add: called(4)) (simp add: dispatch_of_def)
qed

lemma response_of_fetch:
  assumes "execute_safe_http_flow to_ascii url cidrs v rounds = (FLOW_OK r n k reason, lookups, ds)"
    "parse_flow_input to_ascii v = Some input"
  obtains i where "ds \<noteq> []" "dispatch_ok to_ascii cidrs input (last ds)"
    "tl_max_response_bytes (dp_limits (last ds)) = tl_max_response_bytes (fi_transport_limits input)"
    "fr_transport (rounds i) (target_object (dp_target (last ds))) (spec_object (dp_request (last ds)))
      (limits_object (dp_limits (last ds))) cidrs = Some (Inr r)"
proof -
  obtain final where run: "flow_loop to_ascii url cidrs input rounds 0 (flow_start input) = (FLOW_OK r n k reason, final)"
    "ds = fs_dispatched final"
    by (rule executed_parts [OF assms])
  have "flow_inv to_ascii cidrs input (flow_start input)"
    by (rule flow.always [OF reachable.start]) (simp add: parse_flow_valid [OF assms(2)])
  then obtain j st' where end_of: "flow_inv to_ascii cidrs input st'"
    "flow_round to_ascii url cidrs input (rounds j) st' = (Some (FLOW_OK r n k reason), final)"
    by (rule loop_ends [OF _ run(1)])
  from response_of_round [OF end_of] that run(2) show ?thesis by (metis last_snoc snoc_eq_iff_butlast)
qed

lemma parse_limits_object: "parse_pinned_transport_limits (limits_object l) = Some l' \<Longrightarrow> l' = l"
  by (auto simp: parse_pinned_transport_limits_def limits_object_def Option.bind_eq_Some_conv as_bounded_Some)

lemma exchange_pinned:
  assumes "dispatch_ok to_ascii cidrs input d"
    and "execute_pinned_request to_ascii dispatches events (target_object (dp_target d)) (spec_object (dp_request d))
      (limits_object (dp_limits d)) cidrs = Some (Inr r)"
  obtains remote where "tr_connected_address r = pr_pinned_address (dp_request d)"
    "approved_address cidrs (tr_connected_address r)"
    "CONNECTED remote \<in> set events" "normalized_address remote = Some (tr_connected_address r)"
    "rt_resolved_at (dp_target d) \<le> pr_now (dp_request d)" "pr_now (dp_request d) < rt_expires_at (dp_target d)"
    "int (length (tr_body r)) \<le> tl_max_response_bytes (dp_limits d)"
proof -
  obtain target spec limits remote where p: "parse_target to_ascii (target_object (dp_target d)) cidrs = TARGET_OK target"
    "parse_spec (spec_object (dp_request d)) = Some spec"
    "parse_pinned_transport_limits (limits_object (dp_limits d)) = Some limits"
    "rt_resolved_at target \<le> pr_now spec" "pr_now spec < rt_expires_at target"
    "tr_connected_address r = pr_pinned_address spec" "approved_address cidrs (tr_connected_address r)"
    "CONNECTED remote \<in> set events" "normalized_address remote = Some (tr_connected_address r)"
    "int (length (tr_body r)) \<le> tl_max_response_bytes limits"
    by (rule execute_pinned [OF assms(2)])
  have "target = dp_target d" "spec = dp_request d" "limits = dp_limits d"
    using p(1) assms(1) p(2) parse_limits_object [OF p(3)] by (auto simp: dispatch_ok_def parse_spec_object split: if_splits)
  with that p show ?thesis by metis
qed

lemma pinned_of_fetch:
  assumes "execute_safe_http_flow to_ascii url cidrs v rounds = (FLOW_OK r n k reason, lookups, ds)"
    "parse_flow_input to_ascii v = Some input"
    "\<forall>i. fr_transport (rounds i) = execute_pinned_request to_ascii (dispatches i) (events i)"
  obtains i remote where "ds \<noteq> []" "dispatch_ok to_ascii cidrs input (last ds)"
    "tr_connected_address r = pr_pinned_address (dp_request (last ds))"
    "approved_address cidrs (tr_connected_address r)"
    "CONNECTED remote \<in> set (events i)" "normalized_address remote = Some (tr_connected_address r)"
    "rt_resolved_at (dp_target (last ds)) \<le> pr_now (dp_request (last ds))"
    "pr_now (dp_request (last ds)) < rt_expires_at (dp_target (last ds))"
    "int (length (tr_body r)) \<le> tl_max_response_bytes (fi_transport_limits input)"
proof -
  obtain i where d: "ds \<noteq> []" "dispatch_ok to_ascii cidrs input (last ds)"
    "tl_max_response_bytes (dp_limits (last ds)) = tl_max_response_bytes (fi_transport_limits input)"
    "execute_pinned_request to_ascii (dispatches i) (events i) (target_object (dp_target (last ds)))
      (spec_object (dp_request (last ds))) (limits_object (dp_limits (last ds))) cidrs = Some (Inr r)"
    by (rule response_of_fetch [OF assms(1,2)]) (use assms(3) in auto)
  from exchange_pinned [OF d(2,4)] that d(1-3) show ?thesis by metis
qed

lemma fetch_lookups:
  assumes "execute_safe_http_flow to_ascii url cidrs v rounds = (res, lookups, ds)" shows "0 \<le> lookups"
proof (cases "parse_flow_input to_ascii v")
  case None
  then show ?thesis using assms by (simp add: execute_safe_http_flow_def)
next
  case (Some input)
  obtain st where "flow_loop to_ascii url cidrs input rounds 0 (flow_start input) = (res, st)" "lookups = fs_lookups st"
    using assms Some by (auto simp: execute_safe_http_flow_def flow_start_def split: prod.splits)
  then show ?thesis using loop_lookups [of to_ascii url cidrs input rounds 0 "flow_start input"] by (simp add: flow_start_def)
qed

lemma fetch_keeps_tls:
  assumes "execute_safe_http_flow to_ascii url cidrs v rounds = (res, lookups, ds)" "parse_flow_input to_ascii v = Some input"
    and "cu_protocol (fi_request input) = ''https:''" "d \<in> set ds"
  shows "pr_protocol (dp_request d) = ''https:''"
proof -
  obtain st where "ds = fs_dispatched st" "flow_inv to_ascii cidrs input st"
    by (rule executed_parts [OF assms(1,2)])
  then show ?thesis using assms(3,4) by (auto simp: flow_inv_def no_downgrade_def sorted_wrt_append)
qed

subsection \<open>A run\<close>

definition sample_flow :: jsval where
  "sample_flow = JObj
     [(''canonical_host'', JStr ''example.com''), (''protocol'', JStr ''https:''), (''method'', JStr ''GET''),
      (''path'', JStr ''/''), (''deadline_unix_ms'', JNum 30000), (''max_redirects'', JNum 5), (''max_retries'', JNum 2),
      (''max_total_response_bytes'', JNum 4096),
      (''transport_limits'', limits_object \<lparr>tl_timeout_ms = 5000, tl_max_response_bytes = 4096,
         tl_max_header_pairs = 10, tl_max_header_bytes = 1024\<rparr>)]"

definition sample_events :: "transport_event list" where
  "sample_events = [CONNECTED (JStr ''8.8.8.8''), RESPONSE (JNum 200) (JArr []), DATA (JBytes [104, 105]), RESPONSE_END True]"

definition sample_round :: fetch_round where
  "sample_round = \<lparr>fr_resolution_time = Some (JNum 1000),
     fr_dns = (\<lambda>_. (FULFILLED (JArr [JObj [(''address'', JStr ''8.8.8.8''), (''ttl'', JNum 300)]]),
                    REJECTED (JObj [(''code'', JStr ''ENODATA'')]))),
     fr_request_time = Some (JNum 1010),
     fr_transport = execute_pinned_request (\<lambda>s. s) True sample_events,
     fr_completion_time = Some (JNum 1200)\<rparr>"

definition sample_target :: resolved_target where
  "sample_target = \<lparr>rt_canonical_host = ''example.com'', rt_policy_version = IP_DESTINATION_POLICY_VERSION,
     rt_minimum_ttl_seconds = 300, rt_resolved_at = 1000, rt_expires_at = 301000, rt_addresses = [(''8.8.8.8'', IPv4)]\<rparr>"

definition sample_input :: flow_input where
  "sample_input = \<lparr>fi_canonical_host = ''example.com'',
     fi_request = \<lparr>cu_protocol = ''https:'', cu_method = ''GET'', cu_path = ''/''\<rparr>,
     fi_deadline = 30000, fi_max_redirects = 5, fi_max_retries = 2, fi_max_total_response_bytes = 4096,
     fi_transport_limits = \<lparr>tl_timeout_ms = 5000, tl_max_response_bytes = 4096, tl_max_header_pairs = 10,
       tl_max_header_bytes = 1024\<rparr>\<rparr>"

lemma sample_flow_parses: "parse_flow_input (\<lambda>s. s) sample_flow = Some sample_input"
  by code_simp

lemma sample_target_classified: "classify_resolved_address_set (JArr [JStr ''8.8.8.8'']) (JArr []) = Inr [(''8.8.8.8'', IPv4)]"
  using sample_addresses_public block_reason_None [of "[]"]
  by (simp add: classify_Inr snapshot_configured_internal_cidrs_def MAX_RESOLVED_ADDRESSES_def
      MAX_CONFIGURED_INTERNAL_RANGES_def parse_address_value_def sample_addresses_parse dedupe_def)

lemma sample_canonical: "canonicalize_hostname (\<lambda>s. s) (JStr ''example.com'') = Inr ''example.com''"
  by code_simp

lemma sample_is_ip: "is_ip ''8.8.8.8'' = 4" by code_simp

lemma sample_resolved:
  "resolve_and_classify_hostname (\<lambda>s. s) ''example.com'' (fr_dns sample_round) (JArr []) (JNum 1000) = Inr sample_target"
  by (simp add: resolve_and_classify_hostname_def sample_canonical sample_round_def error_code_def parse_records_def
      MAX_RECORDS_PER_FAMILY_def parse_record_def exact_object_def as_str_matching_def as_bounded_def sample_is_ip
      sample_target_classified minimum_ttl_def sample_target_def safe_int_def MAX_SAFE_INTEGER_def UINT32_MAX_def)

definition sample_dispatch :: dispatch where
  "sample_dispatch = dispatch_of sample_input (flow_start sample_input) sample_target 1010"

definition sample_response :: transport_response where
  "sample_response = \<lparr>tr_status_code = 200, tr_headers = [], tr_body = [104, 105], tr_connected_address = ''8.8.8.8''\<rparr>"

lemma sample_dispatch_eq:
  "sample_dispatch = \<lparr>dp_target = sample_target,
     dp_request = \<lparr>pr_protocol = ''https:'', pr_method = ''GET'', pr_path = ''/'', pr_pinned_address = ''8.8.8.8'', pr_now = 1010\<rparr>,
     dp_limits = \<lparr>tl_timeout_ms = 5000, tl_max_response_bytes = 4096, tl_max_header_pairs = 10, tl_max_header_bytes = 1024\<rparr>\<rparr>"
  by (simp add: sample_dispatch_def dispatch_of_def sample_input_def flow_start_def sample_target_def)

lemma sample_request_parsed: "parse_spec (spec_object (dp_request sample_dispatch)) = Some (dp_request sample_dispatch)"
  by (simp add: sample_dispatch_eq) code_simp

lemma sample_limits_parsed:
  "parse_pinned_transport_limits (limits_object (dp_limits sample_dispatch)) = Some (dp_limits sample_dispatch)"
  by (simp add: sample_dispatch_eq) code_simp

lemma sample_normalized: "normalized_address (JStr ''8.8.8.8'') = Some ''8.8.8.8''"
  by (simp add: normalized_address_def sample_target_classified)

lemma sample_exchange:
  assumes "parse_pinned_transport_limits (limits_object l) = Some l" "2 \<le> tl_max_response_bytes l" "0 \<le> tl_max_header_pairs l"
  shows "execute_pinned_request (\<lambda>s. s) True sample_events (target_object sample_target)
    (spec_object (dp_request sample_dispatch)) (limits_object l) (JArr []) = Some (Inr sample_response)"
proof -
  have "transport_run l (JStr ''8.8.8.8'') initial_transport sample_events = Some (Inr sample_response)"
    using assms(2,3)
    by (simp add: sample_events_def initial_transport_def sample_normalized begin_response_def as_bounded_def safe_int_def
        MAX_SAFE_INTEGER_def parse_headers_def declared_length_def has_transfer_encoding_def
        absorb_chunk_def end_response_def sample_response_def)
  moreover have "get_prop (spec_object (dp_request sample_dispatch)) ''pinned_address'' = JStr ''8.8.8.8''"
    by (simp add: spec_object_def sample_dispatch_eq)
  moreover obtain options where "create_pinned_request_options (\<lambda>s. s) (target_object sample_target)
      (spec_object (dp_request sample_dispatch)) (JArr []) = Inr options"
    by (simp add: create_pinned_request_options_def parse_resolved [OF sample_resolved] sample_request_parsed)
      (simp add: sample_dispatch_eq sample_target_def Let_def)
  ultimately show ?thesis by (simp add: execute_pinned_request_def assms(1))
qed

lemma sample_sent:
  "execute_pinned_request (\<lambda>s. s) True sample_events (target_object sample_target) (spec_object (dp_request sample_dispatch))
     (limits_object (dp_limits sample_dispatch)) (JArr []) = Some (Inr sample_response)"
  by (rule sample_exchange [OF sample_limits_parsed]) (simp_all add: sample_dispatch_eq)

lemma sample_parts:
  "fr_resolution_time sample_round = Some (JNum 1000)" "fr_request_time sample_round = Some (JNum 1010)"
  "fr_transport sample_round = execute_pinned_request (\<lambda>s. s) True sample_events"
  "fr_completion_time sample_round = Some (JNum 1200)"
  by (simp_all add: sample_round_def)

lemma sample_host:
  "fi_canonical_host sample_input = ''example.com''" "fi_deadline sample_input = 30000"
  "fi_max_total_response_bytes sample_input = 4096"
  by (simp_all add: sample_input_def)

lemma sample_dispatched: "dp_target sample_dispatch = sample_target"
  by (simp add: sample_dispatch_eq)

lemma dispatch_of_lookups [simp]: "dispatch_of input (st\<lparr>fs_lookups := n\<rparr>) target now = dispatch_of input st target now"
  by (simp add: dispatch_of_def)

lemma sample_start:
  "fs_lookups (flow_start input) = 0"
  "fs_dispatched (flow_start input) = []" "fs_request_count (flow_start input) = 0"
  "fs_redirect_count (flow_start input) = 0" "fs_total_response_bytes (flow_start input) = 0"
  by (simp_all add: flow_start_def)

lemma sample_fetch:
  "execute_safe_http_flow (\<lambda>s. s) (\<lambda>_ _. None) (JArr []) sample_flow (\<lambda>_. sample_round) =
     (FLOW_OK sample_response 1 0 COMPLETE, 1, [sample_dispatch])"
proof -
  have "flow_round (\<lambda>s. s) (\<lambda>_ _. None) (JArr []) sample_input sample_round (flow_start sample_input) =
      (Some (FLOW_OK sample_response 1 0 COMPLETE),
       (flow_start sample_input)\<lparr>fs_lookups := 1, fs_dispatched := [sample_dispatch], fs_request_count := 1\<rparr>)"
    using sample_resolved sample_sent
    by (simp add: flow_round_def Let_def read_clock_def as_bounded_def safe_int_def MAX_SAFE_INTEGER_def sample_parts
        sample_host sample_dispatch_def [symmetric] sample_dispatched handle_response_def redirect_decision_of_def
        sample_response_def REDIRECT_STATUSES_def sample_start count_lookup_def)
  then show ?thesis
    by (simp add: execute_safe_http_flow_def sample_flow_parses flow_start_def [symmetric])
qed

subsection \<open>The properties\<close>

text \<open>C18: a fetch ends: an accepted input allows at most (redirects + 1) times (retries + 1) turns, and never more
  than 18; the result and the calls are determined by what the world answers in these
  turns, and each turn calls the transport at most once.\<close>

theorem fetch_bounded:
  assumes "parse_flow_input to_ascii v = Some input"
    and "turns = nat ((fi_max_redirects input + 1) * (fi_max_retries input + 1))"
    and "\<forall>i < turns. rounds' i = rounds i"
  shows "turns \<le> 18 \<and>
    execute_safe_http_flow to_ascii url cidrs v rounds' = execute_safe_http_flow to_ascii url cidrs v rounds \<and>
    length (snd (snd (execute_safe_http_flow to_ascii url cidrs v rounds))) \<le> turns"
proof -
  have valid: "valid_flow_input to_ascii input" by (rule parse_flow_valid [OF assms(1)])
  then have "flow_inv to_ascii cidrs input (flow_start input)" using flow.initially by blast
  moreover have left: "turns_left input (flow_start input) = turns"
    by (simp add: turns_left_def flow_start_def assms(2) algebra_simps)
  ultimately have run: "flow_loop to_ascii url cidrs input rounds' 0 (flow_start input) = flow_loop to_ascii url cidrs input rounds 0 (flow_start input)"
    "length (fs_dispatched (snd (flow_loop to_ascii url cidrs input rounds 0 (flow_start input)))) \<le> turns"
    using loop_bounded [of to_ascii cidrs input "flow_start input" 0 rounds' rounds url] assms(3) by (simp_all add: sample_start)
  have "(fi_max_redirects input + 1) * (fi_max_retries input + 1) \<le> 6 * 3"
    by (rule mult_mono) (use valid in \<open>auto simp: valid_flow_input_def MAX_REDIRECTS_def MAX_RETRIES_def\<close>)
  then have "turns \<le> 18" by (simp add: assms(2))
  with run show ?thesis
    by (auto simp: execute_safe_http_flow_def assms(1) flow_start_def [symmetric] simp del: flow_loop.simps split: prod.split)
qed

theorem fetch_bounded_witness:
  "length (snd (snd (execute_safe_http_flow (\<lambda>s. s) (\<lambda>_ _. None) (JArr []) sample_flow (\<lambda>_. sample_round)))) \<le> 18 \<and>
   execute_safe_http_flow (\<lambda>s. s) (\<lambda>_ _. None) (JArr []) sample_flow (\<lambda>i. sample_round\<lparr>fr_dns := (if i < 18 then fr_dns sample_round else undefined)\<rparr>) =
     (FLOW_OK sample_response 1 0 COMPLETE, 1, [sample_dispatch])"
proof -
  have "18 = nat ((fi_max_redirects sample_input + 1) * (fi_max_retries sample_input + 1))" by (simp add: sample_input_def)
  from fetch_bounded [OF sample_flow_parses this, of "\<lambda>i. sample_round\<lparr>fr_dns := (if i < 18 then fr_dns sample_round else undefined)\<rparr>"
      "\<lambda>_. sample_round" "\<lambda>_ _. None" "JArr []"]
  show ?thesis by (simp add: sample_fetch)
qed



text \<open>C17: a response comes from where the policy allowed: when a fetch over the transport of
  \<^verbatim>\<open>pinned-transport.ts\<close> answers with a response, the address it reports is public and outside the internal
  ranges, it is the pinned address of the last call, a socket of the exchange was connected to it, the
  resolution was not older than its records allow, and the body is within the limit.\<close>

theorem fetched_response_pinned:
  assumes "parse_flow_input to_ascii v = Some input"
    and "\<forall>i. fr_transport (rounds i) = execute_pinned_request to_ascii (dispatches i) (events i)"
    and "execute_safe_http_flow to_ascii url cidrs v rounds = (FLOW_OK r n k reason, lookups, ds)"
  shows "approved_address cidrs (tr_connected_address r) \<and> ds \<noteq> [] \<and>
    tr_connected_address r = pr_pinned_address (dp_request (last ds)) \<and>
    (\<exists>i remote. CONNECTED remote \<in> set (events i) \<and> normalized_address remote = Some (tr_connected_address r)) \<and>
    rt_canonical_host (dp_target (last ds)) = fi_canonical_host input \<and>
    rt_resolved_at (dp_target (last ds)) \<le> pr_now (dp_request (last ds)) \<and>
    pr_now (dp_request (last ds)) < rt_expires_at (dp_target (last ds)) \<and>
    int (length (tr_body r)) \<le> tl_max_response_bytes (fi_transport_limits input)"
  by (rule pinned_of_fetch [OF assms(3,1,2)]) (auto simp: dispatch_ok_def)

theorem fetched_response_pinned_witness:
  "approved_address (JArr []) ''8.8.8.8'' \<and>
   (\<exists>i remote. CONNECTED remote \<in> set ((\<lambda>_ :: nat. sample_events) i) \<and> normalized_address remote = Some ''8.8.8.8'')"
proof -
  have "\<forall>i. fr_transport ((\<lambda>_. sample_round) i) = execute_pinned_request (\<lambda>s. s) ((\<lambda>_ :: nat. True) i) ((\<lambda>_. sample_events) i)"
    by (simp add: sample_parts)
  from fetched_response_pinned [OF sample_flow_parses this sample_fetch] show ?thesis
    by (auto simp: sample_response_def)
qed

end
