(* ===== verification/Scanner_Ipc.thy ===== *)
theory Scanner_Ipc
  imports Byte_Codec
begin

section \<open>Scanner IPC: one framed result over a chunked stream\<close>

text \<open>
  Models \<^verbatim>\<open>apps/api/src/scanner-ipc/frame.ts\<close>, \<^verbatim>\<open>read.ts\<close> and
  \<^verbatim>\<open>model.ts\<close>.  What \<^verbatim>\<open>nextWithDeadline\<close> can hand to the reader is an
  event; the source is the sequence of these events.  When the sequence ends,
  the producer stays silent and the deadline timer answers, so an exhausted
  sequence is a timeout: every read has a deadline.  The fixed-size buffers of
  the reader are represented by the bytes written to them so far, and the
  allocated size of the payload buffer is kept beside them.  An
  \<^verbatim>\<open>AbortSignal\<close> in the options is an opaque object.
\<close>

subsection \<open>Frames\<close>

definition SCANNER_IPC_MAX_PAYLOAD_BYTES :: int where
  "SCANNER_IPC_MAX_PAYLOAD_BYTES = 33554432"

definition SCANNER_IPC_MAX_TIMEOUT_MS :: int where
  "SCANNER_IPC_MAX_TIMEOUT_MS = 300000"

definition SCANNER_IPC_MAX_CHUNKS :: nat where
  "SCANNER_IPC_MAX_CHUNKS = 4096"

definition SCANNER_IPC_MAGIC :: bytes where
  "SCANNER_IPC_MAGIC = ascii_bytes ''OUTSCAN:SCANNER_RESULT:v1'' @ [0]"

definition SCANNER_IPC_HEADER_BYTES :: nat where
  "SCANNER_IPC_HEADER_BYTES = length SCANNER_IPC_MAGIC + 4"

datatype ipc_fail =
    INVALID_IPC_CONTEXT
  | IPC_ABORTED
  | IPC_TIMEOUT
  | IPC_STREAM_ERROR
  | IPC_INVALID_FRAME
  | IPC_OUTPUT_TOO_LARGE
  | IPC_TOO_FRAGMENTED

definition valid_limit :: "jsval \<Rightarrow> int option" where
  "valid_limit v = as_bounded 1 SCANNER_IPC_MAX_PAYLOAD_BYTES v"

definition has_scanner_ipc_magic :: "bytes \<Rightarrow> bool" where
  "has_scanner_ipc_magic header \<longleftrightarrow>
     (if length header < length SCANNER_IPC_MAGIC then False
      else take (length SCANNER_IPC_MAGIC) header = SCANNER_IPC_MAGIC)"

definition read_scanner_ipc_payload_length :: "bytes \<Rightarrow> int option" where
  "read_scanner_ipc_payload_length header =
     (if length header \<noteq> SCANNER_IPC_HEADER_BYTES \<or> \<not> has_scanner_ipc_magic header then None
      else Some (be_value (take 4 (drop (length SCANNER_IPC_MAGIC) header))))"

definition encode_scanner_ipc_frame :: "jsval \<Rightarrow> jsval \<Rightarrow> ipc_fail + bytes" where
  "encode_scanner_ipc_frame payload maximum =
     (case (valid_limit maximum, as_bytes payload) of
        (Some limit, Some p) \<Rightarrow>
          if length p = 0 \<or> int (length p) > limit then Inl IPC_OUTPUT_TOO_LARGE
          else (case u32be (int (length p)) of
                  Some sz \<Rightarrow> Inr (SCANNER_IPC_MAGIC @ sz @ p)
                | None \<Rightarrow> Inl INVALID_IPC_CONTEXT)
      | _ \<Rightarrow> Inl INVALID_IPC_CONTEXT)"

subsection \<open>Reading\<close>

record ipc_options =
  io_max_payload_bytes :: int
  io_timeout_ms :: int

definition OPTION_KEYS :: "string list" where
  "OPTION_KEYS = [''max_payload_bytes'', ''timeout_ms'', ''signal'']"

definition snapshot_options :: "jsval \<Rightarrow> ipc_options option" where
  "snapshot_options v =
     (if \<not> exact_record v OPTION_KEYS then None
      else case (as_bounded 1 SCANNER_IPC_MAX_PAYLOAD_BYTES (get_prop v ''max_payload_bytes''),
                 as_bounded 1 SCANNER_IPC_MAX_TIMEOUT_MS (get_prop v ''timeout_ms'')) of
             (Some limit, Some timeout) \<Rightarrow>
               if get_prop v ''signal'' = JOpaque
               then Some \<lparr>io_max_payload_bytes = limit, io_timeout_ms = timeout\<rparr>
               else None
           | _ \<Rightarrow> None)"

datatype ipc_event =
    NEXT_CHUNK bytes
  | NEXT_OTHER
  | NEXT_DONE
  | NEXT_ABORTED
  | NEXT_TIMEOUT
  | NEXT_ERROR

record ipc_state =
  ip_header :: bytes
  ip_payload :: "(int \<times> bytes) option"
  ip_chunks :: nat

definition ipc_initial :: ipc_state where
  "ipc_initial = \<lparr>ip_header = [], ip_payload = None, ip_chunks = 0\<rparr>"

text \<open>
  The part of the loop body that fills the header buffer; the result is the
  state and the number of bytes of the chunk that were used.
\<close>

definition ipc_fill_header :: "int \<Rightarrow> ipc_state \<Rightarrow> bytes \<Rightarrow> ipc_fail + ipc_state \<times> nat" where
  "ipc_fill_header limit st chunk =
     (if length (ip_header st) < SCANNER_IPC_HEADER_BYTES then
        (let count = min (SCANNER_IPC_HEADER_BYTES - length (ip_header st)) (length chunk);
             header = ip_header st @ take count chunk;
             st' = st\<lparr>ip_header := header\<rparr>
         in if length header = SCANNER_IPC_HEADER_BYTES then
              (if \<not> has_scanner_ipc_magic header then Inl IPC_INVALID_FRAME
               else case read_scanner_ipc_payload_length header of
                      None \<Rightarrow> Inl IPC_INVALID_FRAME
                    | Some n \<Rightarrow>
                        if n = 0 then Inl IPC_INVALID_FRAME
                        else if n > limit then Inl IPC_OUTPUT_TOO_LARGE
                        else Inr (st'\<lparr>ip_payload := Some (n, [])\<rparr>, count))
            else Inr (st', count))
      else Inr (st, 0))"

definition ipc_fill_payload :: "ipc_state \<Rightarrow> bytes \<Rightarrow> nat \<Rightarrow> ipc_state \<times> nat" where
  "ipc_fill_payload st chunk offset =
     (case ip_payload st of
        Some (n, filled) \<Rightarrow>
          if offset < length chunk then
            (let count = min (nat n - length filled) (length chunk - offset)
             in (st\<lparr>ip_payload := Some (n, filled @ take count (drop offset chunk))\<rparr>,
                 offset + count))
          else (st, offset)
      | None \<Rightarrow> (st, offset))"

definition ipc_absorb :: "int \<Rightarrow> ipc_state \<Rightarrow> bytes \<Rightarrow> ipc_fail + ipc_state" where
  "ipc_absorb limit st chunk =
     (case ipc_fill_header limit st chunk of
        Inl code \<Rightarrow> Inl code
      | Inr (st', used) \<Rightarrow>
          (case ipc_fill_payload st' chunk used of
             (st'', offset) \<Rightarrow>
               if offset \<noteq> length chunk then Inl IPC_INVALID_FRAME else Inr st''))"

fun ipc_loop :: "int \<Rightarrow> ipc_state \<Rightarrow> ipc_event list \<Rightarrow> ipc_fail + bytes" where
  "ipc_loop limit st [] = Inl IPC_TIMEOUT"
| "ipc_loop limit st (NEXT_ABORTED # _) = Inl IPC_ABORTED"
| "ipc_loop limit st (NEXT_TIMEOUT # _) = Inl IPC_TIMEOUT"
| "ipc_loop limit st (NEXT_ERROR # _) = Inl IPC_STREAM_ERROR"
| "ipc_loop limit st (NEXT_DONE # _) =
     (case ip_payload st of
        None \<Rightarrow> Inl IPC_INVALID_FRAME
      | Some (n, filled) \<Rightarrow> if int (length filled) \<noteq> n then Inl IPC_INVALID_FRAME else Inr filled)"
| "ipc_loop limit st (NEXT_OTHER # _) =
     (if ip_chunks st + 1 > SCANNER_IPC_MAX_CHUNKS then Inl IPC_TOO_FRAGMENTED
      else Inl IPC_STREAM_ERROR)"
| "ipc_loop limit st (NEXT_CHUNK chunk # events) =
     (if ip_chunks st + 1 > SCANNER_IPC_MAX_CHUNKS then Inl IPC_TOO_FRAGMENTED
      else case ipc_absorb limit (st\<lparr>ip_chunks := ip_chunks st + 1\<rparr>) chunk of
             Inl code \<Rightarrow> Inl code
           | Inr st' \<Rightarrow> ipc_loop limit st' events)"

text \<open>A source that has no asynchronous iterator is \<open>None\<close>.\<close>

definition read_scanner_ipc_frame ::
  "ipc_event list option \<Rightarrow> jsval \<Rightarrow> ipc_fail + bytes" where
  "read_scanner_ipc_frame source options =
     (case snapshot_options options of
        None \<Rightarrow> Inl INVALID_IPC_CONTEXT
      | Some context \<Rightarrow>
          (case source of
             None \<Rightarrow> Inl INVALID_IPC_CONTEXT
           | Some events \<Rightarrow> ipc_loop (io_max_payload_bytes context) ipc_initial events))"

subsection \<open>The state after a prefix of the stream\<close>

lemma magic_length [simp]: "length SCANNER_IPC_MAGIC = 26"
  by (simp add: SCANNER_IPC_MAGIC_def ascii_bytes_def)

lemma header_bytes [simp]: "SCANNER_IPC_HEADER_BYTES = 30"
  by (simp add: SCANNER_IPC_HEADER_BYTES_def)

definition frame_size :: "bytes \<Rightarrow> int" where
  "frame_size d = be_value (take 4 (drop 26 d))"

definition good_prefix :: "int \<Rightarrow> bytes \<Rightarrow> bool" where
  "good_prefix limit d \<longleftrightarrow>
     (30 \<le> length d \<longrightarrow>
        take 26 d = SCANNER_IPC_MAGIC \<and> 0 < frame_size d \<and> frame_size d \<le> limit \<and>
        int (length d - 30) \<le> frame_size d)"

definition state_after :: "nat \<Rightarrow> bytes \<Rightarrow> ipc_state" where
  "state_after k d =
     \<lparr>ip_header = take 30 d,
      ip_payload = (if length d < 30 then None else Some (frame_size d, drop 30 d)),
      ip_chunks = k\<rparr>"

lemma frame_size_take: "30 \<le> length d \<Longrightarrow> frame_size (take 30 d) = frame_size d"
  by (simp add: frame_size_def drop_take)

lemma frame_size_append: "30 \<le> length d \<Longrightarrow> frame_size (d @ c) = frame_size d"
  using frame_size_take [of "d @ c"] frame_size_take [of d] by simp

lemma frame_size_nonneg: "0 \<le> frame_size d"
  using be_value_bounds by (simp add: frame_size_def)

lemma payload_length_frame_size:
  "length h = 30 \<Longrightarrow> read_scanner_ipc_payload_length h =
     (if take 26 h = SCANNER_IPC_MAGIC then Some (frame_size h) else None)"
  by (auto simp: read_scanner_ipc_payload_length_def has_scanner_ipc_magic_def frame_size_def)

lemma fill_header_full: "30 \<le> length d \<Longrightarrow>
  ipc_fill_header limit (state_after k d) c = Inr (state_after k d, 0)"
  by (simp add: ipc_fill_header_def state_after_def)

lemma fill_header_short: "length d + length c < 30 \<Longrightarrow>
  ipc_fill_header limit (state_after k d) c = Inr (state_after k (d @ c), length c)"
  by (simp add: ipc_fill_header_def state_after_def Let_def)

lemma fill_header_done:
  assumes "length d < 30" "30 \<le> length d + length c"
  shows "ipc_fill_header limit (state_after k d) c =
    (let h = take 30 (d @ c) in
     if take 26 h \<noteq> SCANNER_IPC_MAGIC \<or> frame_size h = 0 then Inl IPC_INVALID_FRAME
     else if frame_size h > limit then Inl IPC_OUTPUT_TOO_LARGE
     else Inr (state_after k h, 30 - length d))"
proof -
  have h: "d @ take (30 - length d) c = take 30 (d @ c)" using assms(1) by simp
  have len: "length (take 30 (d @ c)) = 30" using assms by simp
  show ?thesis
    using assms len
    by (simp add: ipc_fill_header_def state_after_def Let_def h payload_length_frame_size
        has_scanner_ipc_magic_def del: take_append)
qed

lemma fill_payload_none: "length d < 30 \<Longrightarrow>
  ipc_fill_payload (state_after k d) c off = (state_after k d, off)"
  by (simp add: ipc_fill_payload_def state_after_def)

lemma fill_payload_some:
  assumes "30 \<le> length d" "off \<le> length c" "int (length d - 30) \<le> frame_size d"
  shows "\<exists>st off'. ipc_fill_payload (state_after k d) c off = (st, off') \<and>
    (off' = length c \<longleftrightarrow>
       int (length (d @ drop off c) - 30) \<le> frame_size d) \<and>
    (off' = length c \<longrightarrow> st = state_after k (d @ drop off c))"
proof (cases "off < length c")
  case True
  let ?room = "nat (frame_size d) - (length d - 30)"
  let ?count = "min ?room (length c - off)"
  have "off + ?count = length c \<longleftrightarrow> length c - off \<le> ?room" using True by auto
  also have "\<dots> \<longleftrightarrow> int (length (d @ drop off c) - 30) \<le> frame_size d"
    using assms by auto
  finally have full: "off + ?count = length c \<longleftrightarrow>
    int (length (d @ drop off c) - 30) \<le> frame_size d" .
  moreover have "take ?count (drop off c) = drop off c" if "off + ?count = length c"
    using that True by simp
  ultimately show ?thesis
    using assms True
    by (auto simp: ipc_fill_payload_def state_after_def Let_def frame_size_append)
next
  case False
  then show ?thesis
    using assms by (auto simp: ipc_fill_payload_def state_after_def)
qed

lemma absorb_state_after:
  assumes good: "good_prefix limit d"
  shows "ipc_absorb limit (state_after k d) c = Inr st \<longleftrightarrow>
    good_prefix limit (d @ c) \<and> st = state_after k (d @ c)"
proof -
  consider (payload) "30 \<le> length d" | (short) "length d + length c < 30"
    | (cross) "length d < 30" "30 \<le> length d + length c" by linarith
  then show ?thesis
  proof cases
    case payload
    then have "int (length d - 30) \<le> frame_size d" using good by (simp add: good_prefix_def)
    with payload obtain st' off where
      "ipc_fill_payload (state_after k d) c 0 = (st', off)"
      "off = length c \<longleftrightarrow> int (length (d @ c) - 30) \<le> frame_size d"
      "off = length c \<longrightarrow> st' = state_after k (d @ c)"
      using fill_payload_some [of d 0 c k] by auto
    with payload good show ?thesis
      by (auto simp: ipc_absorb_def fill_header_full good_prefix_def frame_size_append)
  next
    case short
    then show ?thesis
      by (auto simp: ipc_absorb_def fill_header_short fill_payload_none good_prefix_def)
  next
    case cross
    let ?h = "take 30 (d @ c)"
    have len: "length ?h = 30" and rest: "?h @ drop (30 - length d) c = d @ c"
      and size: "frame_size ?h = frame_size (d @ c)" and magic: "take 26 ?h = take 26 (d @ c)"
      using cross by (simp_all add: frame_size_take [of "d @ c"] del: take_append)
        (simp add: take_append)
    have pre: "30 \<le> length ?h" "30 - length d \<le> length c"
      "int (length ?h - 30) \<le> frame_size ?h"
      using len cross frame_size_nonneg [of ?h] by linarith+
    obtain st' off where fill:
      "ipc_fill_payload (state_after k ?h) c (30 - length d) = (st', off)"
      "off = length c \<longleftrightarrow> int (length (d @ c) - 30) \<le> frame_size (d @ c)"
      "off = length c \<longrightarrow> st' = state_after k (d @ c)"
      using fill_payload_some [OF pre, of k] unfolding rest size by blast
    show ?thesis
      using fill cross frame_size_nonneg [of "d @ c"]
      unfolding ipc_absorb_def fill_header_done [OF cross] Let_def size magic
      by (auto simp: good_prefix_def)
  qed
qed

subsection \<open>What the reader accepts\<close>

lemma state_after_initial: "ipc_initial = state_after 0 []"
  by (simp add: ipc_initial_def state_after_def)

lemma good_prefix_Nil: "good_prefix limit []"
  by (simp add: good_prefix_def)

lemma state_after_chunks: "(state_after k d)\<lparr>ip_chunks := j\<rparr> = state_after j d"
  by (simp add: state_after_def)

lemma ip_chunks_state_after [simp]: "ip_chunks (state_after k d) = k"
  by (simp add: state_after_def)

lemma good_prefix_append: "good_prefix limit (d @ c) \<Longrightarrow> good_prefix limit d"
  by (auto simp: good_prefix_def frame_size_append)

lemma loop_done: "ipc_loop limit (state_after k d) (NEXT_DONE # rest) = Inr p \<longleftrightarrow>
  30 \<le> length d \<and> p = drop 30 d \<and> int (length p) = frame_size d"
  by (auto simp: state_after_def)

text \<open>The chunks before the end of the stream, if the reader gets that far.\<close>

definition stream_of :: "ipc_event list \<Rightarrow> bytes list \<Rightarrow> bool" where
  "stream_of events cs \<longleftrightarrow> (\<exists>rest. events = map NEXT_CHUNK cs @ NEXT_DONE # rest)"

lemma stream_of_simps:
  "\<not> stream_of [] cs"
  "stream_of (NEXT_DONE # rest) cs \<longleftrightarrow> cs = []"
  "stream_of (NEXT_CHUNK c # events) cs \<longleftrightarrow> (\<exists>cs'. cs = c # cs' \<and> stream_of events cs')"
  "\<not> stream_of (NEXT_OTHER # events) cs"
  "\<not> stream_of (NEXT_ABORTED # events) cs"
  "\<not> stream_of (NEXT_TIMEOUT # events) cs"
  "\<not> stream_of (NEXT_ERROR # events) cs"
  by (cases cs; auto simp: stream_of_def)+

lemma loop_accepts:
  "good_prefix limit d \<Longrightarrow>
   ipc_loop limit (state_after k d) events = Inr p \<longleftrightarrow>
   (\<exists>cs. stream_of events cs \<and> (cs = [] \<or> k + length cs \<le> SCANNER_IPC_MAX_CHUNKS) \<and>
      good_prefix limit (d @ concat cs) \<and> 30 \<le> length (d @ concat cs) \<and>
      p = drop 30 (d @ concat cs) \<and> int (length p) = frame_size (d @ concat cs))"
proof (induction events arbitrary: k d)
  case Nil
  then show ?case by (simp add: stream_of_simps)
next
  case (Cons e events)
  show ?case
  proof (cases e)
    case (NEXT_CHUNK c)
    show ?thesis
    proof (cases "k + 1 > SCANNER_IPC_MAX_CHUNKS")
      case True
      then show ?thesis using NEXT_CHUNK by (auto simp: state_after_def stream_of_simps)
    next
      case fits: False
      show ?thesis
      proof (cases "good_prefix limit (d @ c)")
        case True
        then have "ipc_absorb limit (state_after (k + 1) d) c = Inr (state_after (k + 1) (d @ c))"
          using absorb_state_after [OF Cons.prems] by blast
        then have "ipc_loop limit (state_after k d) (e # events) =
            ipc_loop limit (state_after (k + 1) (d @ c)) events"
          using fits NEXT_CHUNK by (simp add: state_after_chunks)
        also note Cons.IH [OF True]
        finally show ?thesis
          using fits NEXT_CHUNK True Cons.prems
          by (auto simp: stream_of_simps)
      next
        case False
        then have "\<forall>st. ipc_absorb limit (state_after (k + 1) d) c \<noteq> Inr st"
          using absorb_state_after [OF Cons.prems] by blast
        then obtain code where "ipc_absorb limit (state_after (k + 1) d) c = Inl code"
          by (cases "ipc_absorb limit (state_after (k + 1) d) c") auto
        then have "\<forall>q. ipc_loop limit (state_after k d) (e # events) \<noteq> Inr q"
          using NEXT_CHUNK by (simp add: state_after_chunks)
        moreover have "\<not> good_prefix limit (d @ concat (c # cs))" for cs
          using False good_prefix_append [of limit "d @ c"] by auto
        ultimately show ?thesis using NEXT_CHUNK by (auto simp: stream_of_simps)
      qed
    qed
  next
    case NEXT_DONE
    show ?thesis using Cons.prems
      unfolding NEXT_DONE loop_done by (auto simp: stream_of_simps)
  qed (auto simp: stream_of_simps)
qed

lemma frame_unfold:
  "good_prefix limit d \<and> 30 \<le> length d \<and> p = drop 30 d \<and> int (length p) = frame_size d \<longleftrightarrow>
   d = SCANNER_IPC_MAGIC @ prefixed p \<and> prefixable p \<and> p \<noteq> [] \<and> int (length p) \<le> limit"
  (is "?L \<longleftrightarrow> ?R")
proof
  assume l: ?L
  let ?b = "take 4 (drop 26 d)"
  have "30 \<le> length d" using l by simp
  then have len: "length ?b = 4" by simp
  have "be_bytes 4 (frame_size d) = ?b"
    using be_bytes_be_value [of ?b] len by (simp add: frame_size_def)
  moreover have "d = take 26 d @ ?b @ drop 30 d"
  proof -
    have "drop 26 d = ?b @ drop 4 (drop 26 d)" by (metis append_take_drop_id)
    moreover have "drop 4 (drop 26 d) = drop 30 d" by simp
    ultimately show ?thesis using append_take_drop_id [of 26 d] by simp
  qed
  moreover have "frame_size d < 256 ^ 4" using be_value_bounds [of ?b] len
    by (simp add: frame_size_def)
  ultimately show ?R using l
    by (auto simp: good_prefix_def prefixed_def prefixable_def UINT32_MAX_def)
next
  assume r: ?R
  then have "fits_u32 (int (length p))" by (simp add: prefixable_def fits_u32_def)
  then have "frame_size d = int (length p)"
    using r be_value_be_bytes [of "int (length p)" 4]
    by (simp add: frame_size_def prefixed_def fits_u32_bounds)
  with r show ?L by (auto simp: good_prefix_def prefixed_def)
qed

lemma encode_frame_Inr:
  "encode_scanner_ipc_frame (JBytes p) (JNum limit) = Inr f \<longleftrightarrow>
     valid_limit (JNum limit) = Some limit \<and> p \<noteq> [] \<and> int (length p) \<le> limit \<and>
     f = SCANNER_IPC_MAGIC @ prefixed p"
proof -
  have "u32be (int (length p)) = Some (be_bytes 4 (int (length p)))"
    if "limit \<le> SCANNER_IPC_MAX_PAYLOAD_BYTES" "int (length p) \<le> limit"
    using that by (simp add: u32be_Some fits_u32_def SCANNER_IPC_MAX_PAYLOAD_BYTES_def UINT32_MAX_def)
  then show ?thesis
    by (auto simp: encode_scanner_ipc_frame_def valid_limit_def as_bounded_def prefixed_def
        split: if_splits option.splits)
qed

lemma valid_limit_small:
  "valid_limit (JNum limit) = Some limit \<Longrightarrow> int (length p) \<le> limit \<Longrightarrow> prefixable p"
  by (auto simp: valid_limit_def as_bounded_def prefixable_def SCANNER_IPC_MAX_PAYLOAD_BYTES_def
      UINT32_MAX_def split: if_splits)

lemma snapshot_limit:
  "snapshot_options options = Some context \<Longrightarrow>
   valid_limit (JNum (io_max_payload_bytes context)) = Some (io_max_payload_bytes context)"
  by (cases "get_prop options ''max_payload_bytes''")
    (auto simp: snapshot_options_def valid_limit_def as_bounded_def
      split: if_splits option.splits)

text \<open>C31: The reader of the scanner stream returns a payload exactly when the
  chunks delivered before the end of the stream, however the producer cut
  them, join to the frame the encoder writes for this payload under the same
  limit, with at most 4096 chunks.  Truncated, oversized, trailing or
  wrongly tagged streams, aborts, timeouts and stream errors never yield a
  payload.\<close>

theorem ipc_reader_accepts_exactly_frames:
  assumes "snapshot_options options = Some context"
  shows "read_scanner_ipc_frame (Some events) options = Inr p \<longleftrightarrow>
    (\<exists>cs. stream_of events cs \<and> length cs \<le> SCANNER_IPC_MAX_CHUNKS \<and>
       encode_scanner_ipc_frame (JBytes p) (JNum (io_max_payload_bytes context)) =
         Inr (concat cs))"
  using snapshot_limit [OF assms] valid_limit_small [OF snapshot_limit [OF assms], of p]
    frame_unfold [of "io_max_payload_bytes context" _ p]
  unfolding read_scanner_ipc_frame_def assms option.case encode_frame_Inr state_after_initial
    loop_accepts [OF good_prefix_Nil]
  by (auto simp: conj_commute)

theorem ipc_reader_accepts_exactly_frames_witness:
  "read_scanner_ipc_frame
     (Some [NEXT_CHUNK (take 10 SCANNER_IPC_MAGIC), NEXT_CHUNK [],
        NEXT_CHUNK (drop 10 SCANNER_IPC_MAGIC @ [0, 0]), NEXT_CHUNK [0, 2, 7, 8], NEXT_DONE])
     (JObj [(''max_payload_bytes'', JNum 64), (''timeout_ms'', JNum 1000), (''signal'', JOpaque)])
   = Inr [7, 8]"
proof -
  let ?cs = "[take 10 SCANNER_IPC_MAGIC, [], drop 10 SCANNER_IPC_MAGIC @ [0, 0], [0, 2, 7, 8]]"
  have opt: "snapshot_options
      (JObj [(''max_payload_bytes'', JNum 64), (''timeout_ms'', JNum 1000), (''signal'', JOpaque)])
    = Some \<lparr>io_max_payload_bytes = 64, io_timeout_ms = 1000\<rparr>" by code_simp
  have frame: "encode_scanner_ipc_frame (JBytes [7, 8]) (JNum 64) = Inr (concat ?cs)" by code_simp
  have "stream_of [NEXT_CHUNK (take 10 SCANNER_IPC_MAGIC), NEXT_CHUNK [],
        NEXT_CHUNK (drop 10 SCANNER_IPC_MAGIC @ [0, 0]), NEXT_CHUNK [0, 2, 7, 8], NEXT_DONE] ?cs"
    by (simp add: stream_of_simps)
  with frame show ?thesis
    unfolding ipc_reader_accepts_exactly_frames [OF opt]
    by (intro exI [of _ ?cs]) (simp add: SCANNER_IPC_MAX_CHUNKS_def)
qed

end
