(* ===== verification/Scanner_Properties.thy ===== *)
theory Scanner_Properties
  imports Guest_Scanner Canonical_Output Fetch_Properties Scanner_Ipc
begin

section \<open>What a scan reports\<close>

text \<open>
  Whatever the network answers, the output of the scanner is one that the result commit accepts, and it
  stays within its budget.
\<close>

subsection \<open>The verdicts\<close>

lemma verdict_cases: "verdict b \<in> {''PASS'', ''ATTENTION''}" by (simp add: verdict_def)

definition complete_outcomes :: "(string \<times> string) list \<Rightarrow> bool" where
  "complete_outcomes os \<longleftrightarrow> map fst os = CHECKS \<and> snd ` set os \<subseteq> {''PASS'', ''ATTENTION'', ''UNKNOWN''}"

lemma complete_update:
  assumes "complete_outcomes os" "check \<in> set CHECKS" "outcome \<in> {''PASS'', ''ATTENTION'', ''UNKNOWN''}"
  shows "complete_outcomes (AList.update check outcome os)"
proof -
  have "map fst (AList.update check outcome os) = CHECKS"
    using assms by (simp add: complete_outcomes_def update_keys)
  moreover have "set (AList.update check outcome os) \<subseteq> insert (check, outcome) (set os)"
  proof (induction os)
    case (Cons a os)
    then show ?case by (cases a) auto
  qed simp
  ultimately show ?thesis using assms unfolding complete_outcomes_def by fastforce
qed

lemma complete_fold:
  "complete_outcomes os \<Longrightarrow> fst ` set cs \<subseteq> set CHECKS \<Longrightarrow> snd ` set cs \<subseteq> {''PASS'', ''ATTENTION'', ''UNKNOWN''} \<Longrightarrow>
   complete_outcomes (fold (\<lambda>(check, outcome). AList.update check outcome) cs os)"
proof (induction cs arbitrary: os)
  case (Cons c cs)
  then show ?case by (cases c) (auto intro!: Cons.IH complete_update)
qed simp

lemma header_checks: "fst ` set (inspect_guest_security_headers hs) \<subseteq> set CHECKS"
  "snd ` set (inspect_guest_security_headers hs) \<subseteq> {''PASS'', ''ATTENTION'', ''UNKNOWN''}"
  using verdict_cases
  by (auto simp: inspect_guest_security_headers_def GUEST_HTTP_HEADER_CHECKS_def CHECKS_def verdict_def)

lemma check_names: "''DNS_AAAA_PRESENT'' \<in> set CHECKS" "''TLS_CERTIFICATE'' \<in> set CHECKS"
  "''HTTP_PROTOCOL'' \<in> set CHECKS" "''SECURITY_TXT'' \<in> set CHECKS"
  by (simp_all add: CHECKS_def)

lemma security_verdict: "inspect_guest_security_txt url response host now \<in> {''PASS'', ''ATTENTION'', ''UNKNOWN''}"
  using verdict_cases by (simp add: inspect_guest_security_txt_def verdict_def)

lemma complete_web:
  "complete_outcomes os \<Longrightarrow> complete_outcomes (fold (\<lambda>(check, outcome). AList.update check outcome)
     (inspect_guest_security_headers hs) (AList.update ''HTTP_PROTOCOL'' ''PASS'' (AList.update ''TLS_CERTIFICATE'' ''PASS'' os)))"
  by (rule complete_fold [OF _ header_checks]) (simp add: complete_update check_names)

lemma complete_item:
  assumes "complete_outcomes os" "(check, outcome) \<in> set os"
  shows "check \<in> set CHECKS" "outcome \<in> set OUTCOMES"
proof -
  have "check \<in> set (map fst os)" "outcome \<in> snd ` set os" using assms(2) by force+
  with assms(1) show "check \<in> set CHECKS" "outcome \<in> set OUTCOMES"
    unfolding complete_outcomes_def OUTCOMES_def by auto
qed

lemma outcomes_complete: "complete_outcomes (scan_outcomes url host completed_at resolved http security_txt)"
proof -
  have start: "complete_outcomes (map (\<lambda>check. (check, ''UNKNOWN'')) CHECKS)"
    by (auto simp: complete_outcomes_def comp_def)
  have dns: "complete_outcomes (case resolved of Inl _ \<Rightarrow> map (\<lambda>check. (check, ''UNKNOWN'')) CHECKS
      | Inr target \<Rightarrow> AList.update ''DNS_AAAA_PRESENT'' (verdict (list_ex (\<lambda>a. snd a = IPv6) (rt_addresses target)))
          (map (\<lambda>check. (check, ''UNKNOWN'')) CHECKS))" (is "complete_outcomes ?dns")
    using start by (auto split: sum.splits intro!: complete_update check_names simp: verdict_def)
  have web: "complete_outcomes (case http of
      Some (FLOW_OK response _ _ _) \<Rightarrow>
        fold (\<lambda>(check, outcome). AList.update check outcome) (inspect_guest_security_headers (tr_headers response))
          (AList.update ''HTTP_PROTOCOL'' ''PASS'' (AList.update ''TLS_CERTIFICATE'' ''PASS'' ?dns))
      | _ \<Rightarrow> ?dns)" (is "complete_outcomes ?web")
    using dns by (auto split: option.splits flow_result.splits intro!: complete_web)
  have "scan_outcomes url host completed_at resolved http security_txt =
      (case security_txt of Some (FLOW_OK response _ _ reason) \<Rightarrow> AList.update ''SECURITY_TXT''
          (if reason = COMPLETE then inspect_guest_security_txt url response host completed_at else ''ATTENTION'') ?web
       | _ \<Rightarrow> ?web)"
    by (simp add: scan_outcomes_def Let_def)
  then show ?thesis
    using web security_verdict
    by (auto split: option.splits flow_result.splits intro!: complete_update check_names)
qed

subsection \<open>The output is valid\<close>

definition reported :: "string \<Rightarrow> int \<Rightarrow> int \<Rightarrow> (string \<times> string) list \<Rightarrow> bool \<Rightarrow> bool \<Rightarrow> bool \<Rightarrow> guest_envelope" where
  "reported host duration requests outcomes dns http security_txt =
     \<lparr>en_observations = map (\<lambda>(check, outcome). \<lparr>ob_check_id = check, ob_outcome = outcome\<rparr>) outcomes,
      en_findings = map (\<lambda>(check, _). \<lparr>fd_fingerprint = fingerprint host check,
        fd_severity = (if check = ''HTTP_HSTS'' \<or> check = ''HTTP_CSP'' then ''MEDIUM'' else ''LOW''),
        fd_confidence = 90\<rparr>) (filter is_finding outcomes),
      en_coverage = map (\<lambda>(detectors, ok, completeness). \<lparr>cv_detector_group = detectors,
          cv_execution_status = (if ok then ''SUCCESS'' else ''FAILED''),
          cv_completeness = (if ok then completeness else ''UNKNOWN'')\<rparr>)
        ([(''TARGET_RESOLUTION'', dns, ''COMPLETE''), (''DNS_DOMAIN_POSTURE'', dns, ''PARTIAL''),
          (''TLS_CERTIFICATE_POSTURE'', http, ''COMPLETE''), (''HTTP_SECURITY_POSTURE'', http, ''PARTIAL'')] @
         map (\<lambda>detectors. (detectors, False, ''UNKNOWN'')) UNAVAILABLE_COVERAGE),
      en_metadata = (host, duration, requests),
      en_warnings = warning_codes dns http security_txt\<rparr>"

lemma fingerprint_valid: "sha256_pattern (fingerprint host check)"
  by (simp add: fingerprint_def sha256_text_valid)

lemma warnings_valid: "list_all machine_code (warning_codes a b c) \<and> distinct (warning_codes a b c) \<and>
    length (warning_codes a b c) \<le> 8"
proof -
  have "\<forall>a b c. list_all machine_code (warning_codes a b c) \<and> distinct (warning_codes a b c) \<and>
      length (warning_codes a b c) \<le> 8"
    unfolding all_bool_eq by code_simp
  then show ?thesis by blast
qed

lemma same_checks: "CHECKS = GUEST_POSTURE_CHECKS"
  by (simp add: CHECKS_def GUEST_POSTURE_CHECKS_def)

lemma checks_known: "set CHECKS = set GUEST_POSTURE_CHECKS" "distinct CHECKS" "length CHECKS = 17"
  by (simp_all add: CHECKS_def GUEST_POSTURE_CHECKS_def)

lemma reported_valid:
  assumes "complete_outcomes os" "canonicalize_hostname to_ascii (JStr host) = Inr host"
    and "0 \<le> duration" "duration \<le> 30000" "0 \<le> requests" "requests \<le> 40"
  shows "valid_envelope to_ascii (reported host duration requests os dns http security_txt)"
proof -
  have len: "length os = 17" using assms(1) checks_known(3) by (metis complete_outcomes_def length_map)
  have obs: "map ob_check_id (en_observations (reported host duration requests os dns http security_txt)) = CHECKS"
    using assms(1) by (simp add: reported_def complete_outcomes_def comp_def case_prod_unfold)
  have obs_ok: "\<forall>b \<in> set (en_observations (reported host duration requests os dns http security_txt)). valid_observation b"
    using complete_item [OF assms(1)] checks_known(1) by (auto simp: reported_def valid_observation_def)
  have "length (filter is_finding os) \<le> 17" using length_filter_le [of is_finding os] len by simp
  moreover have "\<forall>c \<in> set (en_coverage (reported host duration requests os dns http security_txt)). valid_coverage c"
    by (auto simp: reported_def valid_coverage_def UNAVAILABLE_COVERAGE_def GUEST_COVERAGE_GROUPS_def
        EXECUTION_STATUSES_def COMPLETENESS_def)
  moreover have "distinct (map cv_detector_group (en_coverage (reported host duration requests os dns http security_txt)))"
    by (simp add: reported_def UNAVAILABLE_COVERAGE_def)
  ultimately show ?thesis
    using obs_ok len assms(2-) warnings_valid [of dns http security_txt] fingerprint_valid
    unfolding valid_envelope_def obs
    by (auto simp: reported_def checks_known MAX_OBSERVATIONS_def MAX_FINDINGS_def MAX_COVERAGE_def MAX_WARNINGS_def
        valid_finding_def SEVERITIES_def UNAVAILABLE_COVERAGE_def valid_metadata_triple_def list_all_iff)
qed

subsection \<open>The output is read as it was meant\<close>

lemma json_members:
  "json_object ((k, v) # ms) = JsObj ((units k, v) # map (\<lambda>(k, v). (units k, v)) ms)"
  "json_object [] = JsObj []"
  by (simp_all add: json_object_def)

lemma evidence_short: "check \<in> set CHECKS \<Longrightarrow> utf8_length (units (check @ '':NOT_ACCEPTED'')) \<le> MAX_EVIDENCE_BYTES"
proof -
  have "list_all (\<lambda>check. utf8_length (units (check @ '':NOT_ACCEPTED'')) \<le> MAX_EVIDENCE_BYTES) CHECKS" by code_simp
  then show "check \<in> set CHECKS \<Longrightarrow> utf8_length (units (check @ '':NOT_ACCEPTED'')) \<le> MAX_EVIDENCE_BYTES"
    by (simp add: list_all_iff)
qed

lemma read_candidate:
  assumes "check \<in> set CHECKS"
  shows "read_finding (candidate_finding host check) = Some \<lparr>fd_fingerprint = fingerprint host check,
    fd_severity = (if check = ''HTTP_HSTS'' \<or> check = ''HTTP_CSP'' then ''MEDIUM'' else ''LOW''), fd_confidence = 90\<rparr>"
  using evidence_short [OF assms] fingerprint_valid
  by (simp add: read_finding_def candidate_finding_def json_members json_string_def json_readers SEVERITIES_def safe_int_def
      MAX_SAFE_INTEGER_def del: units_simps)

text \<open>The output is the text of its contents, except for the evidence of its findings.\<close>

definition output_json :: "string \<Rightarrow> (string \<times> string) list \<Rightarrow> guest_envelope \<Rightarrow> json" where
  "output_json host os e = JsObj
     [(units ''observations'', JsArr (map observation_json (en_observations e))),
      (units ''candidate_findings'', JsArr (map (\<lambda>(check, _). candidate_finding host check) (filter is_finding os))),
      (units ''coverage'', JsArr (map coverage_json (en_coverage e))),
      (units ''execution_metadata'', metadata_json (en_metadata e)),
      (units ''warnings'', JsArr (map warning_json (en_warnings e)))]"

definition is_resolved :: "resolve_fail + resolved_target \<Rightarrow> bool" where
  "is_resolved r = (case r of Inr _ \<Rightarrow> True | Inl _ \<Rightarrow> False)"

lemma build_output_eq:
  assumes "os = scan_outcomes url host completed_at resolved http security_txt"
  shows "build_output url host started_at completed_at n resolved http security_txt =
    output_json host os (reported host (max 0 (min 30000 (completed_at - started_at))) n os
      (is_resolved resolved) (flow_ok http) (flow_ok security_txt))"
  unfolding assms
  by (simp add: build_output_def output_json_def reported_def Let_def json_members json_string_def comp_def
      case_prod_unfold coverage_entry_def UNAVAILABLE_COVERAGE_def item_json metadata_json_def is_resolved_def
      del: units_simps)

lemma read_candidates:
  assumes "complete_outcomes os"
  shows "read_findings (JsArr (map (\<lambda>(check, _). candidate_finding host check) (filter is_finding os))) =
    Some (en_findings (reported host duration n os dns http security_txt))"
proof -
  have len: "length os = 17" using assms checks_known(3) by (metis complete_outcomes_def length_map)
  then have short: "length (filter is_finding os) \<le> MAX_FINDINGS"
    using length_filter_le [of is_finding os] by (simp add: MAX_FINDINGS_def)
  have "all_some read_finding (map (\<lambda>a. candidate_finding host (fst a)) (filter is_finding os)) =
      Some (map (\<lambda>a. \<lparr>fd_fingerprint = fingerprint host (fst a),
        fd_severity = (if fst a = ''HTTP_HSTS'' \<or> fst a = ''HTTP_CSP'' then ''MEDIUM'' else ''LOW''), fd_confidence = 90\<rparr>)
        (filter is_finding os))"
    by (rule all_some_map, rule read_candidate) (use complete_item(1) [OF assms] in auto)
  then show ?thesis using short by (simp add: read_findings_def reported_def case_prod_unfold)
qed

lemma read_output:
  assumes "complete_outcomes os" "e = reported host duration n os dns http security_txt" "valid_envelope to_ascii e"
  shows "read_envelope to_ascii (output_json host os e) = Some e"
  using read_back_lists [OF assms(3)] assms(3) read_candidates [OF assms(1), of host duration n dns http security_txt]
  by (simp add: read_envelope_def output_json_def ENVELOPE_MEMBERS_def valid_envelope_def read_metadata_back
      assms(2) [symmetric] del: units_simps)

lemma check_ascii: "check \<in> set CHECKS \<Longrightarrow> list_all (\<lambda>x. x < 128) (units (check @ '':NOT_ACCEPTED''))"
proof -
  have "list_all (\<lambda>check. list_all (\<lambda>x. x < 128) (units (check @ '':NOT_ACCEPTED''))) CHECKS" by code_simp
  then show "check \<in> set CHECKS \<Longrightarrow> list_all (\<lambda>x. x < 128) (units (check @ '':NOT_ACCEPTED''))"
    by (simp add: list_all_iff)
qed

lemma candidate_tidy: "check \<in> set CHECKS \<Longrightarrow> tidy (candidate_finding host check)"
  using check_ascii [of check] pattern_ascii(2) [OF fingerprint_valid]
  by (simp add: candidate_finding_def json_members json_string_def)

lemma output_tidy:
  assumes "complete_outcomes os" "valid_envelope to_ascii e"
  shows "tidy (output_json host os e)"
  using envelope_tidy [OF assms(2)] candidate_tidy complete_item(1) [OF assms(1)]
  by (fastforce simp: output_json_def envelope_json_def)

lemma output_keyed: "well_keyed 0 (output_json host os e)"
  by (cases "en_metadata e") (auto simp: output_json_def item_json metadata_json_def candidate_finding_def json_members
      json_string_def MAX_JSON_DEPTH_def)

subsection \<open>The output is small\<close>

lemma weight_array: "(\<And>v. v \<in> set vs \<Longrightarrow> weight v \<le> B) \<Longrightarrow> weight (JsArr vs) \<le> length vs * (B + 1) + 2"
proof -
  assume "\<And>v. v \<in> set vs \<Longrightarrow> weight v \<le> B"
  then have "sum_list (map weight vs) \<le> sum_list (map (\<lambda>_. B) vs)" by (intro sum_list_mono)
  then show ?thesis by (simp add: sum_list_triv)
qed

lemma table_short:
  "s \<in> set GUEST_POSTURE_CHECKS \<union> set GUEST_COVERAGE_GROUPS \<union> set OUTCOMES \<union>
    set EXECUTION_STATUSES \<union> set COMPLETENESS \<union> set SEVERITIES \<union> {GUEST_EVIDENCE_REDACTION} \<Longrightarrow> length s \<le> 40"
proof -
  have "list_all (\<lambda>s. length s \<le> 40) (GUEST_POSTURE_CHECKS @ GUEST_COVERAGE_GROUPS @ OUTCOMES @ EXECUTION_STATUSES @
      COMPLETENESS @ SEVERITIES @ [GUEST_EVIDENCE_REDACTION])" by code_simp
  then show "s \<in> set GUEST_POSTURE_CHECKS \<union> set GUEST_COVERAGE_GROUPS \<union> set OUTCOMES \<union>
    set EXECUTION_STATUSES \<union> set COMPLETENESS \<union> set SEVERITIES \<union> {GUEST_EVIDENCE_REDACTION} \<Longrightarrow> length s \<le> 40"
    unfolding list_all_iff by auto
qed

lemma item_weights:
  "valid_observation b \<Longrightarrow> weight (observation_json b) \<le> 2000"
  "valid_coverage c \<Longrightarrow> weight (coverage_json c) \<le> 2000"
  "valid_finding f \<Longrightarrow> weight (finding_json f) \<le> 2000"
  "machine_code w \<Longrightarrow> weight (warning_json w) \<le> 2000"
  "valid_metadata_triple to_ascii m \<Longrightarrow> weight (metadata_json m) \<le> 4000"
proof -
  show "valid_observation b \<Longrightarrow> weight (observation_json b) \<le> 2000"
    using table_short [of "ob_check_id b"] table_short [of "ob_outcome b"]
    by (simp add: observation_json_def valid_items del: units_simps(2,3))
  show "valid_coverage c \<Longrightarrow> weight (coverage_json c) \<le> 2000"
    using table_short [of "cv_detector_group c"] table_short [of "cv_execution_status c"] table_short [of "cv_completeness c"]
    by (simp add: coverage_json_def valid_items del: units_simps(2,3))
  show "valid_finding f \<Longrightarrow> weight (finding_json f) \<le> 2000"
    using table_short [of "fd_severity f"] table_short [of GUEST_EVIDENCE_REDACTION] hex64_pattern_length [of "''sha256:''" "fd_fingerprint f"]
    by (simp add: finding_json_def valid_items del: units_simps(2,3))
  show "machine_code w \<Longrightarrow> weight (warning_json w) \<le> 2000"
    by (auto simp: warning_json_def machine_code_def simp del: units_simps(2,3) split: list.splits)
  show "valid_metadata_triple to_ascii m \<Longrightarrow> weight (metadata_json m) \<le> 4000"
    using canonicalize_Inr [of to_ascii _ "fst m"]
    by (auto simp: metadata_json_def valid_metadata_triple_def has_valid_dns_shape_def MAX_HOSTNAME_LENGTH_def
        simp del: units_simps(2,3) dest!: canonicalize_Inr)
qed

lemma candidate_weight: "check \<in> set CHECKS \<Longrightarrow> weight (candidate_finding host check) \<le> 2000"
  using table_short [of check] hex64_pattern_length [OF fingerprint_valid, of host check] checks_known(1)
  by (simp add: candidate_finding_def json_members json_string_def del: units_simps(2,3))

lemma envelope_weight:
  assumes "valid_envelope to_ascii e"
  shows "weight (envelope_json e) \<le> 1000000"
proof -
  note v = assms [unfolded valid_envelope_def]
  have "weight (JsArr (map observation_json (en_observations e))) \<le> length (en_observations e) * 2001 + 2"
    using weight_array [of "map observation_json (en_observations e)" 2000] v item_weights(1) by fastforce
  moreover have "weight (JsArr (map finding_json (en_findings e))) \<le> length (en_findings e) * 2001 + 2"
    using weight_array [of "map finding_json (en_findings e)" 2000] v item_weights(3) by fastforce
  moreover have "weight (JsArr (map coverage_json (en_coverage e))) \<le> length (en_coverage e) * 2001 + 2"
    using weight_array [of "map coverage_json (en_coverage e)" 2000] v item_weights(2) by fastforce
  moreover have "weight (JsArr (map warning_json (en_warnings e))) \<le> length (en_warnings e) * 2001 + 2"
    using weight_array [of "map warning_json (en_warnings e)" 2000] v item_weights(4) by fastforce
  moreover have "weight (metadata_json (en_metadata e)) \<le> 4000" using v item_weights(5) by blast
  moreover have "length (en_observations e) \<le> 64" "length (en_findings e) \<le> 256" "length (en_coverage e) \<le> 16"
    "length (en_warnings e) \<le> 32"
    using v by (simp_all add: MAX_OBSERVATIONS_def MAX_FINDINGS_def MAX_COVERAGE_def MAX_WARNINGS_def)
  ultimately show ?thesis by (simp add: envelope_json_def del: weight.simps(3) units_simps(2,3))
qed

lemma output_weight:
  assumes "complete_outcomes os" "valid_envelope to_ascii e"
  shows "weight (output_json host os e) \<le> 1000000"
proof -
  note v = assms(2) [unfolded valid_envelope_def]
  have len: "length os = 17" using assms(1) checks_known(3) by (metis complete_outcomes_def length_map)
  have "length (filter is_finding os) \<le> 17" using length_filter_le [of is_finding os] len by simp
  moreover have "weight (JsArr (map (\<lambda>(check, _). candidate_finding host check) (filter is_finding os))) \<le>
      length (filter is_finding os) * 2001 + 2"
    using weight_array [of "map (\<lambda>(check, _). candidate_finding host check) (filter is_finding os)" 2000]
      candidate_weight complete_item(1) [OF assms(1)] by fastforce
  moreover have "weight (JsArr (map observation_json (en_observations e))) \<le> length (en_observations e) * 2001 + 2"
    using weight_array [of "map observation_json (en_observations e)" 2000] v item_weights(1) by fastforce
  moreover have "weight (JsArr (map coverage_json (en_coverage e))) \<le> length (en_coverage e) * 2001 + 2"
    using weight_array [of "map coverage_json (en_coverage e)" 2000] v item_weights(2) by fastforce
  moreover have "weight (JsArr (map warning_json (en_warnings e))) \<le> length (en_warnings e) * 2001 + 2"
    using weight_array [of "map warning_json (en_warnings e)" 2000] v item_weights(4) by fastforce
  moreover have "weight (metadata_json (en_metadata e)) \<le> 4000" using v item_weights(5) by blast
  moreover have "length (en_observations e) \<le> 64" "length (en_coverage e) \<le> 16" "length (en_warnings e) \<le> 32"
    using v by (simp_all add: MAX_OBSERVATIONS_def MAX_FINDINGS_def MAX_COVERAGE_def MAX_WARNINGS_def)
  ultimately show ?thesis by (simp add: output_json_def del: weight.simps(3) units_simps(2,3))
qed

text \<open>The bytes that the scanner process writes.\<close>

definition output_bytes :: "json \<Rightarrow> bytes" where
  "output_bytes output = encode_text (json_text output)"

lemma output_fits:
  assumes "complete_outcomes os" "valid_envelope to_ascii e"
  shows "int (length (output_bytes (output_json host os e))) \<le> 2097152" "output_bytes (output_json host os e) \<noteq> []"
proof -
  note tidy = output_tidy [OF assms]
  show "int (length (output_bytes (output_json host os e))) \<le> 2097152"
    using json_text_weight [OF tidy, of host] output_weight [OF assms, of host] ascii_text(4) [OF ascii_json_text [OF tidy]]
    by (simp add: output_bytes_def)
  show "output_bytes (output_json host os e) \<noteq> []" by (simp add: output_bytes_def output_json_def encode_text_def)
qed

lemma output_accepted:
  assumes "complete_outcomes os" "e = reported host duration n os dns http security_txt" "valid_envelope to_ascii e"
  shows "produce_canonical_guest_scanner_result to_ascii (JBytes (output_bytes (output_json host os e))) (JNum 2097152) =
    Inr \<lparr>cr_payload_digest = payload_digest (canonical_bytes (sort_envelope e)),
        cr_payload_size = int (length (canonical_bytes (sort_envelope e))),
        cr_projection = projection_of e, cr_canonical_payload = canonical_bytes (sort_envelope e)\<rparr>"
proof -
  let ?v = "output_json host os e" and ?s = "sort_envelope e"
  note tidy = output_tidy [OF assms(1,3)]
  have ascii: "list_all (\<lambda>x. x < 128) (json_text ?v)" by (rule ascii_json_text [OF tidy])
  have len: "\<not> int (length (output_bytes ?v)) > 2097152" using output_fits(1) [OF assms(1,3), of host] by simp
  obtain t where "output_bytes ?v = 123 # t"
    by (simp add: output_bytes_def output_json_def encode_text_def)
  then have "take 3 (output_bytes ?v) \<noteq> [0xef, 0xbb, 0xbf]" by (simp add: numeral_3_eq_3)
  then have parsed: "parse_json_bytes (JBytes (output_bytes ?v)) 2097152 = Some ?v"
    using len parse_json_text [OF tidy_printable [OF tidy] output_keyed] ascii_text(3) [OF ascii]
    by (simp add: parse_json_bytes_def output_bytes_def)
  note sorted = valid_envelope_sort [OF assms(3)]
  have "int (length (canonical_bytes ?s)) \<le> 2097152"
    using json_text_weight [OF envelope_tidy [OF sorted]] envelope_weight [OF sorted]
      ascii_text(4) [OF ascii_json_text [OF envelope_tidy [OF sorted]]] by (simp add: canonical_bytes_def)
  moreover have "as_bounded 1 MAX_GUEST_OUTPUT_BYTES (JNum 2097152) = Some 2097152" by code_simp
  ultimately show ?thesis
    unfolding produce_iff using parsed read_output [OF assms] by blast
qed

subsection \<open>Runs\<close>

lemma reserved_bounds: "0 \<le> used \<Longrightarrow> used \<le> maximum \<Longrightarrow> 0 \<le> n \<Longrightarrow> 0 \<le> reserved maximum used n \<and> reserved maximum used n \<le> maximum"
  by (simp add: reserved_def)

lemma scanner_input_Some:
  assumes "scanner_input to_ascii v = Some (host, budgets)"
  shows "canonicalize_hostname to_ascii (JStr host) = Inr host" "3 \<le> max_requests budgets" "max_requests budgets \<le> 40"
    "1 \<le> hard_duration_seconds budgets" "hard_duration_seconds budgets \<le> 30"
    "0 \<le> max_redirects budgets" "max_redirects budgets \<le> 5" "1 \<le> max_response_bytes budgets"
proof -
  obtain r where r: "canonicalize_hostname to_ascii (JStr host) = Inr host"
    "authorize_scanner_execution (get_prop v ''policy'') = POLICY_ALLOWED r" "se_profile r = GUEST_SAFE" "budgets = se_budgets r"
    "\<not> (hard_duration_seconds budgets < 1 \<or> max_requests budgets < 3 \<or> max_concurrency budgets < 2 \<or>
      max_response_bytes budgets < 1 \<or> max_total_response_bytes budgets < 1)"
  proof (cases "authorize_scanner_execution (get_prop v ''policy'')")
    case (POLICY_ALLOWED r)
    show ?thesis
      by (rule that [of r]) (use assms in \<open>auto simp: scanner_input_def POLICY_ALLOWED Option.bind_eq_Some_conv as_str_Some\<close>)
  next
    case (POLICY_REFUSED code)
    then show ?thesis using assms by (simp add: scanner_input_def Option.bind_eq_Some_conv)
  qed
  have "within_policy r" by (rule authorize_within_policy [OF r(2)])
  then show "canonicalize_hostname to_ascii (JStr host) = Inr host" "3 \<le> max_requests budgets" "max_requests budgets \<le> 40"
    "1 \<le> hard_duration_seconds budgets" "hard_duration_seconds budgets \<le> 30"
    "0 \<le> max_redirects budgets" "max_redirects budgets \<le> 5" "1 \<le> max_response_bytes budgets"
    using r by (auto simp: within_policy_def BUDGET_KEYS_def)
qed

lemma counted_bounds:
  assumes "counted_flow to_ascii url cidrs maximum input rounds used = (res, used')" "0 \<le> used" "used \<le> maximum"
  shows "0 \<le> used'" "used' \<le> maximum"
proof -
  obtain lookups ds where run: "execute_safe_http_flow to_ascii url cidrs input (bounded_rounds maximum used rounds) = (res, lookups, ds)"
    "used' = reserved maximum used (2 * lookups + int (length ds))"
    using assms(1) by (auto simp: counted_flow_def split: prod.splits)
  then show "0 \<le> used'" "used' \<le> maximum"
    using reserved_bounds [OF assms(2,3)] fetch_lookups [OF run(1)] by simp_all
qed

lemma scan_parts:
  assumes "run_guest_safe_scanner to_ascii url absolute_url v w = Inr output"
  obtains host budgets started_at completed_at cidr_texts resolved http security_txt count where
    "scanner_input to_ascii v = Some (host, budgets)" "0 \<le> count" "count \<le> max_requests budgets"
    "snapshot_configured_internal_cidrs (or_empty (sw_internal_cidrs w)) = Some cidr_texts"
    "output = build_output absolute_url host started_at completed_at count resolved http security_txt"
    "http \<noteq> None \<longrightarrow> (\<exists>used used1. counted_flow to_ascii url (JArr (map JStr cidr_texts)) (max_requests budgets)
       (probe_input host ''/'' (started_at + hard_duration_seconds budgets * 1000) (hard_duration_seconds budgets * 1000)
          (max_redirects budgets) (max_total_response_bytes budgets) (min (max_response_bytes budgets) (64 * 1024)))
       (sw_http w) used = (the http, used1))"
proof -
  obtain host budgets cidr_texts started_at completed_at where ok: "scanner_input to_ascii v = Some (host, budgets)"
    "snapshot_configured_internal_cidrs (or_empty (sw_internal_cidrs w)) = Some cidr_texts"
    "safe_now (sw_started_at w) = Some started_at" "safe_now (sw_completed_at w) = Some completed_at"
    using assms
    by (auto simp: run_guest_safe_scanner_def Let_def split: option.splits prod.splits if_splits)
  have used: "0 \<le> reserved (max_requests budgets) 0 2 \<and> reserved (max_requests budgets) 0 2 \<le> max_requests budgets"
    using reserved_bounds [of 0 "max_requests budgets" 2] scanner_input_Some [OF ok(1)] by simp
  let ?cidrs = "JArr (map JStr cidr_texts)" and ?ms = "hard_duration_seconds budgets * 1000"
  obtain http used1 where http: "counted_flow to_ascii url ?cidrs (max_requests budgets)
      (probe_input host ''/'' (started_at + ?ms) ?ms (max_redirects budgets) (max_total_response_bytes budgets)
        (min (max_response_bytes budgets) (64 * 1024))) (sw_http w) (reserved (max_requests budgets) 0 2) = (http, used1)"
    by fastforce
  obtain security_txt used2 where security: "counted_flow to_ascii url ?cidrs (max_requests budgets)
      (probe_input host SECURITY_TXT_PATH (started_at + ?ms) ?ms (max_redirects budgets) MAX_SECURITY_TXT_BYTES
        (min (max_response_bytes budgets) MAX_SECURITY_TXT_BYTES)) (sw_security_txt w) used1 = (security_txt, used2)"
    by fastforce
  note b1 = counted_bounds [OF http] and b2 = counted_bounds [OF security]
  let ?resolved = "resolve_and_classify_hostname to_ascii host (bounded_dns (max_requests budgets) 0 (sw_dns w)) ?cidrs (JNum started_at)"
  show ?thesis
  proof (cases ?resolved)
    case (Inl code)
    then have out: "output = build_output absolute_url host started_at completed_at (reserved (max_requests budgets) 0 2) ?resolved None None"
      using assms by (simp add: run_guest_safe_scanner_def ok Let_def split: if_splits)
    show ?thesis by (rule that [OF ok(1) _ _ ok(2) out]) (use used in auto)
  next
    case (Inr target)
    then have out: "output = build_output absolute_url host started_at completed_at used2 ?resolved (Some http) (Some security_txt)"
      using assms http security by (simp add: run_guest_safe_scanner_def ok Let_def split: if_splits)
    show ?thesis by (rule that [OF ok(1) _ _ ok(2) out]) (use used b1 b2 http in auto)
  qed
qed

text \<open>The output of a run, as contents that the commit reads.\<close>

lemma scan_reported:
  assumes "run_guest_safe_scanner to_ascii url absolute_url v w = Inr output"
  obtains host budgets completed_at cidr_texts resolved http security_txt count os e where
    "scanner_input to_ascii v = Some (host, budgets)"
    "os = scan_outcomes absolute_url host completed_at resolved http security_txt"
    "output = output_json host os e" "valid_envelope to_ascii e"
    "en_observations e = map (\<lambda>(check, outcome). \<lparr>ob_check_id = check, ob_outcome = outcome\<rparr>) os"
    "en_metadata e = (host, fst (snd (en_metadata e)), count)" "count \<le> max_requests budgets"
    "produce_canonical_guest_scanner_result to_ascii (JBytes (output_bytes output)) (JNum 2097152) =
      Inr \<lparr>cr_payload_digest = payload_digest (canonical_bytes (sort_envelope e)),
        cr_payload_size = int (length (canonical_bytes (sort_envelope e))),
        cr_projection = projection_of e, cr_canonical_payload = canonical_bytes (sort_envelope e)\<rparr>"
    "snapshot_configured_internal_cidrs (or_empty (sw_internal_cidrs w)) = Some cidr_texts"
    "http \<noteq> None \<longrightarrow> (\<exists>deadline ms total_bytes maximum used used1. counted_flow to_ascii url (JArr (map JStr cidr_texts))
       (max_requests budgets) (probe_input host ''/'' deadline ms (max_redirects budgets) total_bytes maximum)
       (sw_http w) used = (the http, used1))"
proof -
  obtain host budgets started_at completed_at cidr_texts resolved http security_txt count where p:
    "scanner_input to_ascii v = Some (host, budgets)" "0 \<le> count" "count \<le> max_requests budgets"
    "snapshot_configured_internal_cidrs (or_empty (sw_internal_cidrs w)) = Some cidr_texts"
    "output = build_output absolute_url host started_at completed_at count resolved http security_txt"
    "http \<noteq> None \<longrightarrow> (\<exists>used used1. counted_flow to_ascii url (JArr (map JStr cidr_texts)) (max_requests budgets)
       (probe_input host ''/'' (started_at + hard_duration_seconds budgets * 1000) (hard_duration_seconds budgets * 1000)
          (max_redirects budgets) (max_total_response_bytes budgets) (min (max_response_bytes budgets) (64 * 1024)))
       (sw_http w) used = (the http, used1))"
    by (rule scan_parts [OF assms])
  let ?os = "scan_outcomes absolute_url host completed_at resolved http security_txt"
  let ?e = "reported host (max 0 (min 30000 (completed_at - started_at))) count ?os (is_resolved resolved) (flow_ok http)
      (flow_ok security_txt)"
  have valid: "valid_envelope to_ascii ?e"
    by (rule reported_valid [OF outcomes_complete]) (use scanner_input_Some [OF p(1)] p(2,3) in auto)
  have out: "output = output_json host ?os ?e" unfolding p(5) by (rule build_output_eq [OF refl])
  show ?thesis
  proof (rule that [OF p(1) refl out valid])
    show "en_observations ?e = map (\<lambda>(check, outcome). \<lparr>ob_check_id = check, ob_outcome = outcome\<rparr>) ?os"
      by (simp add: reported_def)
    show "en_metadata ?e = (host, fst (snd (en_metadata ?e)), count)" by (simp add: reported_def)
    show "http \<noteq> None \<longrightarrow> (\<exists>deadline ms total_bytes maximum used used1. counted_flow to_ascii url (JArr (map JStr cidr_texts))
       (max_requests budgets) (probe_input host ''/'' deadline ms (max_redirects budgets) total_bytes maximum)
       (sw_http w) used = (the http, used1))" using p(6) by blast
    show "produce_canonical_guest_scanner_result to_ascii (JBytes (output_bytes output)) (JNum 2097152) =
      Inr \<lparr>cr_payload_digest = payload_digest (canonical_bytes (sort_envelope ?e)),
        cr_payload_size = int (length (canonical_bytes (sort_envelope ?e))),
        cr_projection = projection_of ?e, cr_canonical_payload = canonical_bytes (sort_envelope ?e)\<rparr>"
      unfolding out by (rule output_accepted [OF outcomes_complete refl valid])
  qed (use p(3,4) in auto)
qed

text \<open>The verdict on the certificate depends on the first flow only.\<close>

lemma outcome_of_fold:
  "k \<notin> fst ` set cs \<Longrightarrow>
   map_of (fold (\<lambda>(check, outcome). AList.update check outcome) cs os) k = map_of os k"
proof (induction cs arbitrary: os)
  case (Cons c cs)
  then show ?case by (cases c) (auto simp: update_conv')
qed simp

lemma tls_outcome:
  assumes "(''TLS_CERTIFICATE'', ''PASS'') \<in> set (scan_outcomes url host completed_at resolved http security_txt)"
  shows "flow_ok http"
proof (rule ccontr)
  assume no: "\<not> flow_ok http"
  let ?os = "scan_outcomes url host completed_at resolved http security_txt"
  have "distinct (map fst ?os)" using outcomes_complete checks_known(2) by (metis complete_outcomes_def)
  then have "map_of ?os ''TLS_CERTIFICATE'' = Some ''PASS''" using assms by simp
  moreover have "map_of (map (\<lambda>check. (check, ''UNKNOWN'')) CHECKS) ''TLS_CERTIFICATE'' = Some ''UNKNOWN''"
    by (simp add: CHECKS_def)
  ultimately show False
    using no by (auto simp: scan_outcomes_def flow_ok_def Let_def update_conv' split: option.splits flow_result.splits
        sum.splits if_splits)
qed

lemma bounded_transport:
  assumes "fr_transport (bounded_rounds maximum used rounds i) target request limits cidrs = Some (Inr r)"
  shows "fr_transport (rounds i) target request limits cidrs = Some (Inr r)"
  using assms by (auto simp: bounded_rounds_def bounded_round_def split: if_splits)

lemma probe_parsed:
  assumes "parse_flow_input to_ascii (probe_input host path deadline ms redirects total_bytes maximum) = Some input"
  shows "cu_protocol (fi_request input) = ''https:''" "fi_canonical_host input = host"
  using assms by (auto simp: parse_flow_input_def probe_input_def Option.bind_eq_Some_conv as_str_matching_def split: if_splits)

lemma verified_options:
  assumes "dispatch_ok to_ascii cidrs input d" "pr_protocol (dp_request d) = ''https:''"
    and "create_pinned_request_options to_ascii (target_object (dp_target d)) (spec_object (dp_request d)) cidrs = Inr options"
  shows "po_verified_server options = Some (fi_canonical_host input)" "po_protocol options = ''https:''"
  using assms
  by (auto simp: create_pinned_request_options_def dispatch_ok_def parse_spec_object Let_def split: if_splits option.splits)

text \<open>The exchange of a flow that has answered with a response over TLS.\<close>

lemma tls_exchange:
  assumes flow: "counted_flow to_ascii url cidrs maximum (probe_input host path deadline ms redirects total_bytes most) rounds used =
      (FLOW_OK response n k reason, used')"
    and transport: "\<forall>i. fr_transport (rounds i) = execute_pinned_request to_ascii (dispatches i) (events i)"
  obtains d :: dispatch and options :: pinned_options and i remote where
    "create_pinned_request_options to_ascii (target_object (dp_target d)) (spec_object (dp_request d)) cidrs = Inr options"
    "po_verified_server options = Some host" "approved_address cidrs (tr_connected_address response)"
    "CONNECTED remote \<in> set (events i)" "normalized_address remote = Some (tr_connected_address response)"
proof -
  obtain lookups ds where run: "execute_safe_http_flow to_ascii url cidrs
      (probe_input host path deadline ms redirects total_bytes most) (bounded_rounds maximum used rounds) =
      (FLOW_OK response n k reason, lookups, ds)"
    using flow by (auto simp: counted_flow_def split: prod.splits)
  then obtain input where input: "parse_flow_input to_ascii (probe_input host path deadline ms redirects total_bytes most) = Some input"
    by (auto simp: execute_safe_http_flow_def split: option.splits)
  note probe = probe_parsed [OF input]
  obtain i where d: "ds \<noteq> []" "dispatch_ok to_ascii cidrs input (last ds)"
    "fr_transport (bounded_rounds maximum used rounds i) (target_object (dp_target (last ds))) (spec_object (dp_request (last ds)))
      (limits_object (dp_limits (last ds))) cidrs = Some (Inr response)"
    by (rule response_of_fetch [OF run input])
  have exchange: "execute_pinned_request to_ascii (dispatches i) (events i) (target_object (dp_target (last ds)))
      (spec_object (dp_request (last ds))) (limits_object (dp_limits (last ds))) cidrs = Some (Inr response)"
    using bounded_transport [OF d(3)] transport by simp
  obtain options where options: "create_pinned_request_options to_ascii (target_object (dp_target (last ds)))
      (spec_object (dp_request (last ds))) cidrs = Inr options"
    by (rule execute_ok [OF exchange])
  have "pr_protocol (dp_request (last ds)) = ''https:''"
    by (rule fetch_keeps_tls [OF run input probe(1)]) (use d(1) in simp)
  from verified_options(1) [OF d(2) this options] have "po_verified_server options = Some host" by (simp add: probe(2))
  moreover from exchange_pinned [OF d(2) exchange] obtain remote where
    "approved_address cidrs (tr_connected_address response)" "CONNECTED remote \<in> set (events i)"
    "normalized_address remote = Some (tr_connected_address response)" by metis
  ultimately show ?thesis using that [OF options] by blast
qed

subsection \<open>The properties\<close>

text \<open>C14: what the scanner prints is accepted: whatever the resolver, the transport and the clock answer, the
  output of a scan fits a frame of the result stream, and the commit accepts its bytes; the
  projection is of the host that was asked for, has a verdict for every check, counts no more
  requests than the budget of the policy allows, at most 40, and lasts at most 30 seconds.\<close>

theorem scanner_output_accepted:
  assumes "run_guest_safe_scanner to_ascii url absolute_url v w = Inr output"
  shows "\<exists>host budgets frame r. scanner_input to_ascii v = Some (host, budgets) \<and>
    encode_scanner_ipc_frame (JBytes (output_bytes output)) (JNum 2097152) = Inr frame \<and>
    produce_canonical_guest_scanner_result to_ascii (JBytes (output_bytes output)) (JNum 2097152) = Inr r \<and>
    sp_canonical_host (cr_projection r) = host \<and>
    mset (map ob_check_id (sp_posture (cr_projection r))) = mset GUEST_POSTURE_CHECKS \<and>
    sp_request_count (cr_projection r) \<le> max_requests budgets \<and> max_requests budgets \<le> 40 \<and>
    0 \<le> sp_duration_ms (cr_projection r) \<and> sp_duration_ms (cr_projection r) \<le> 30000"
proof -
  obtain host budgets completed_at resolved http security_txt count os e where p:
    "scanner_input to_ascii v = Some (host, budgets)"
    "os = scan_outcomes absolute_url host completed_at resolved http security_txt"
    "output = output_json host os e" "valid_envelope to_ascii e"
    "en_observations e = map (\<lambda>(check, outcome). \<lparr>ob_check_id = check, ob_outcome = outcome\<rparr>) os"
    "en_metadata e = (host, fst (snd (en_metadata e)), count)" "count \<le> max_requests budgets"
    "produce_canonical_guest_scanner_result to_ascii (JBytes (output_bytes output)) (JNum 2097152) =
      Inr \<lparr>cr_payload_digest = payload_digest (canonical_bytes (sort_envelope e)),
        cr_payload_size = int (length (canonical_bytes (sort_envelope e))),
        cr_projection = projection_of e, cr_canonical_payload = canonical_bytes (sort_envelope e)\<rparr>"
    by (rule scan_reported [OF assms])
  have checks: "map ob_check_id (en_observations e) = CHECKS"
    using outcomes_complete [of absolute_url host completed_at resolved http security_txt]
    by (simp add: p(2,5) complete_outcomes_def comp_def case_prod_unfold)
  obtain duration where m: "en_metadata e = (host, duration, count)" using p(6) by metis
  then have "0 \<le> duration \<and> duration \<le> 30000"
    using p(4) by (simp add: valid_envelope_def valid_metadata_triple_def)
  moreover have "mset (map ob_check_id (sp_posture (projection_of e))) = mset (map ob_check_id (en_observations e))"
    by (simp add: projection_of_def m)
  note this [unfolded checks same_checks]
  moreover obtain frame where "encode_scanner_ipc_frame (JBytes (output_bytes output)) (JNum 2097152) = Inr frame"
  proof -
    have "valid_limit (JNum 2097152) = Some 2097152" by code_simp
    with output_fits [OF _ p(4), of os host] outcomes_complete [of absolute_url host completed_at resolved http security_txt]
    show thesis using that by (simp add: encode_frame_Inr p(2,3))
  qed
  ultimately show ?thesis
    using p(1,7,8) scanner_input_Some(3) [OF p(1)] m by (simp add: projection_of_def)
qed


subsection \<open>A scan\<close>

definition scan_request :: scanner_execution_request where
  "scan_request =
     \<lparr>se_policy_id = ''outscan-v1'', se_policy_version = ''1.0.0'', se_profile = GUEST_SAFE,
      se_requested_capabilities = REQUIRED_CAPABILITIES,
      se_budgets = \<lparr>hard_duration_seconds = 30, max_requests = 40, max_concurrency = 4,
        max_redirects = 5, max_response_bytes = 65536, max_total_response_bytes = 8388608,
        max_output_bytes = 2097152, max_crawl_urls = 0\<rparr>\<rparr>"

definition scan_order :: jsval where
  "scan_order = JObj [(''schema_version'', JNum 1), (''canonical_target'', JStr ''example.com''),
     (''policy'', present_request scan_request)]"

definition scan_world :: scanner_world where
  "scan_world = \<lparr>sw_callable = True, sw_internal_cidrs = JUndef, sw_started_at = Some (JNum 1000),
     sw_dns = fr_dns sample_round, sw_http = (\<lambda>_. sample_round),
     sw_security_txt = (\<lambda>_. sample_round), sw_completed_at = Some (JNum 2000)\<rparr>"

lemma scan_order_accepted: "scanner_input (\<lambda>s. s) scan_order = Some (''example.com'', se_budgets scan_request)"
proof -
  have "within_policy scan_request"
    by (simp add: within_policy_def scan_request_def SCANNER_POLICY_ID_def SCANNER_POLICY_VERSION_def
        baseline_capabilities_def BUDGET_KEYS_def REQUIRED_CAPABILITIES_def)
  from authorize_complete [OF this]
  have "authorize_scanner_execution (get_prop scan_order ''policy'') = POLICY_ALLOWED scan_request"
    by (simp add: scan_order_def)
  moreover have "exact_record scan_order SCANNER_INPUT_KEYS"
    by (simp add: scan_order_def exact_record_def has_exact_keys_def SCANNER_INPUT_KEYS_def)
  ultimately show ?thesis
    by (simp add: scanner_input_def) (simp add: scan_order_def sample_canonical scan_request_def list_all_iff)
qed

lemma resolver_at_host:
  assumes "resolver host = resolver' host"
  shows "resolve_and_classify_hostname to_ascii host resolver cidrs now = resolve_and_classify_hostname to_ascii host resolver' cidrs now"
  unfolding resolve_and_classify_hostname_def assms ..

definition scan_input :: flow_input where
  "scan_input = sample_input\<lparr>fi_deadline := 31000, fi_max_retries := 0, fi_max_total_response_bytes := 8388608,
     fi_transport_limits := \<lparr>tl_timeout_ms = 30000, tl_max_response_bytes = 65536, tl_max_header_pairs = 100,
       tl_max_header_bytes = 65536\<rparr>\<rparr>"

lemma scan_probe_parses:
  "parse_flow_input (\<lambda>s. s) (probe_input ''example.com'' ''/'' 31000 30000 5 8388608 65536) = Some scan_input"
  by code_simp

definition scan_dispatch :: dispatch where
  "scan_dispatch = dispatch_of scan_input (flow_start scan_input) sample_target 1010"

lemma scan_dispatch_eq:
  "scan_dispatch = sample_dispatch\<lparr>dp_limits := \<lparr>tl_timeout_ms = 29990, tl_max_response_bytes = 65536,
     tl_max_header_pairs = 100, tl_max_header_bytes = 65536\<rparr>\<rparr>"
  by (simp add: scan_dispatch_def sample_dispatch_eq dispatch_of_def sample_input_def scan_input_def flow_start_def
      sample_target_def)

lemma scan_exchange:
  "execute_pinned_request (\<lambda>s. s) True sample_events (target_object sample_target) (spec_object (dp_request scan_dispatch))
     (limits_object (dp_limits scan_dispatch)) (JArr []) = Some (Inr sample_response)"
proof -
  have "parse_pinned_transport_limits (limits_object (dp_limits scan_dispatch)) = Some (dp_limits scan_dispatch)"
    by (simp add: scan_dispatch_eq) code_simp
  from sample_exchange [OF this] show ?thesis by (simp add: scan_dispatch_eq)
qed

lemma scan_round:
  "fr_resolution_time (bounded_rounds 40 2 (\<lambda>_. sample_round) 0) = Some (JNum 1000)"
  "fr_request_time (bounded_rounds 40 2 (\<lambda>_. sample_round) 0) = Some (JNum 1010)"
  "fr_completion_time (bounded_rounds 40 2 (\<lambda>_. sample_round) 0) = Some (JNum 1200)"
  "fr_dns (bounded_rounds 40 2 (\<lambda>_. sample_round) 0) ''example.com'' = fr_dns sample_round ''example.com''"
  "fr_transport (bounded_rounds 40 2 (\<lambda>_. sample_round) 0) = execute_pinned_request (\<lambda>s. s) True sample_events"
  by (simp_all add: bounded_rounds_def bounded_round_def bounded_dns_def reserved_def sample_parts split_beta)

lemma scan_fields:
  "fi_canonical_host scan_input = ''example.com''" "fi_deadline scan_input = 31000"
  "fi_max_total_response_bytes scan_input = 8388608"
  by (simp_all add: scan_input_def sample_input_def)

lemma scan_flow:
  "counted_flow (\<lambda>s. s) (\<lambda>_ _. None) (JArr []) 40 (probe_input ''example.com'' ''/'' 31000 30000 5 8388608 65536)
     (\<lambda>_. sample_round) 2 = (FLOW_OK sample_response 1 0 COMPLETE, 5)"
proof -
  have "resolve_and_classify_hostname (\<lambda>s. s) ''example.com'' (fr_dns (bounded_rounds 40 2 (\<lambda>_. sample_round) 0)) (JArr [])
      (JNum 1000) = Inr sample_target"
    using resolver_at_host [of "fr_dns (bounded_rounds 40 2 (\<lambda>_. sample_round) 0)" "''example.com''" "fr_dns sample_round"]
      sample_resolved scan_round(4) by simp
  moreover have "dp_target scan_dispatch = sample_target" by (simp add: scan_dispatch_eq sample_dispatched)
  ultimately have "flow_round (\<lambda>s. s) (\<lambda>_ _. None) (JArr []) scan_input (bounded_rounds 40 2 (\<lambda>_. sample_round) 0) (flow_start scan_input) =
      (Some (FLOW_OK sample_response 1 0 COMPLETE),
       (flow_start scan_input)\<lparr>fs_lookups := 1, fs_dispatched := [scan_dispatch], fs_request_count := 1\<rparr>)"
    using scan_exchange
    by (simp add: flow_round_def Let_def read_clock_def as_bounded_def safe_int_def MAX_SAFE_INTEGER_def scan_round
        scan_fields scan_dispatch_def [symmetric] handle_response_def redirect_decision_of_def
        sample_response_def REDIRECT_STATUSES_def sample_start count_lookup_def)
  then have "execute_safe_http_flow (\<lambda>s. s) (\<lambda>_ _. None) (JArr []) (probe_input ''example.com'' ''/'' 31000 30000 5 8388608 65536)
      (bounded_rounds 40 2 (\<lambda>_. sample_round)) = (FLOW_OK sample_response 1 0 COMPLETE, 1, [scan_dispatch])"
    by (simp add: execute_safe_http_flow_def scan_probe_parses flow_start_def [symmetric])
  then show ?thesis by (simp add: counted_flow_def reserved_def)
qed

lemma scan_runs:
  obtains security_txt count where "run_guest_safe_scanner (\<lambda>s. s) (\<lambda>_ _. None) (\<lambda>_. None) scan_order scan_world =
    Inr (build_output (\<lambda>_. None) ''example.com'' 1000 2000 count (Inr sample_target)
      (Some (FLOW_OK sample_response 1 0 COMPLETE)) (Some security_txt))" "0 \<le> count" "count \<le> 40"
proof -
  have "bounded_dns 40 0 (fr_dns sample_round) ''example.com'' = fr_dns sample_round ''example.com''"
    by (simp add: bounded_dns_def reserved_def split_beta)
  from resolver_at_host [of "bounded_dns 40 0 (fr_dns sample_round)" "''example.com''" "fr_dns sample_round" "\<lambda>s. s" "JArr []" "JNum 1000",
      OF this] sample_resolved
  have "resolve_and_classify_hostname (\<lambda>s. s) ''example.com'' (bounded_dns 40 0 (fr_dns sample_round)) (JArr []) (JNum 1000) =
      Inr sample_target" by simp
  moreover have "snapshot_configured_internal_cidrs (JArr []) = Some []"
    by (simp add: snapshot_configured_internal_cidrs_def MAX_CONFIGURED_INTERNAL_RANGES_def)
  moreover have "reserved 40 0 2 = 2" by (simp add: reserved_def)
  moreover obtain security_txt count where flow: "counted_flow (\<lambda>s. s) (\<lambda>_ _. None) (JArr []) 40
      (probe_input ''example.com'' SECURITY_TXT_PATH 31000 30000 5 MAX_SECURITY_TXT_BYTES 32768) (\<lambda>_. sample_round) 5 =
      (security_txt, count)" by fastforce
  ultimately show ?thesis
    using that [of count security_txt] scan_flow counted_bounds [OF flow]
    by (simp add: run_guest_safe_scanner_def scan_order_accepted scan_world_def scan_request_def or_empty_def safe_now_def
        as_bounded_def safe_int_def MAX_SAFE_INTEGER_def MAX_SECURITY_TXT_BYTES_def)
qed

lemma tls_reported:
  "(''TLS_CERTIFICATE'', ''PASS'') \<in> set (scan_outcomes url host completed_at resolved (Some (FLOW_OK response n k reason)) security_txt)"
proof -
  have "''TLS_CERTIFICATE'' \<notin> fst ` set (inspect_guest_security_headers (tr_headers response))"
    by (simp add: inspect_guest_security_headers_def GUEST_HTTP_HEADER_CHECKS_def)
  note other = outcome_of_fold [OF this]
  have "map_of (scan_outcomes url host completed_at resolved (Some (FLOW_OK response n k reason)) security_txt) ''TLS_CERTIFICATE'' =
      Some ''PASS''"
    by (auto simp: scan_outcomes_def Let_def update_conv' other split: option.splits flow_result.splits)
  then show ?thesis by (rule map_of_SomeD)
qed

theorem scanner_output_accepted_witness:
  "\<exists>printed r. run_guest_safe_scanner (\<lambda>s. s) (\<lambda>_ _. None) (\<lambda>_. None) scan_order scan_world = Inr printed \<and>
     produce_canonical_guest_scanner_result (\<lambda>s. s) (JBytes (output_bytes printed)) (JNum 2097152) = Inr r \<and>
     sp_canonical_host (cr_projection r) = ''example.com'' \<and> sp_request_count (cr_projection r) \<le> 40"
proof -
  obtain printed where run: "run_guest_safe_scanner (\<lambda>s. s) (\<lambda>_ _. None) (\<lambda>_. None) scan_order scan_world = Inr printed"
    by (rule scan_runs)
  from scanner_output_accepted [OF run] run show ?thesis by (auto simp: scan_order_accepted)
qed

lemma accepted_posture:
  assumes "canonicalize_hostname to_ascii (JStr host) = Inr host" "0 \<le> n" "n \<le> 40"
  obtains r where "produce_canonical_guest_scanner_result to_ascii
      (JBytes (output_bytes (build_output url host started_at completed_at n resolved http security_txt))) (JNum 2097152) = Inr r"
    "set (sp_posture (cr_projection r)) = (\<lambda>(check, outcome). \<lparr>ob_check_id = check, ob_outcome = outcome\<rparr>) `
      set (scan_outcomes url host completed_at resolved http security_txt)"
proof -
  let ?os = "scan_outcomes url host completed_at resolved http security_txt"
  let ?e = "reported host (max 0 (min 30000 (completed_at - started_at))) n ?os (is_resolved resolved) (flow_ok http)
      (flow_ok security_txt)"
  have valid: "valid_envelope to_ascii ?e"
    by (rule reported_valid [OF outcomes_complete]) (use assms in auto)
  note accepted = output_accepted [OF outcomes_complete refl valid, folded build_output_eq [OF refl]]
  show ?thesis
    by (rule that [OF accepted]) (simp add: projection_of_def reported_def)
qed


end
