(* ===== verification/Check_Properties.thy ===== *)
theory Check_Properties
  imports Guest_Checks
begin

section \<open>What the verdicts mean\<close>

text \<open>
  The loops over directives and lines, against conditions on all of them.
\<close>

subsection \<open>Strict-Transport-Security\<close>

definition directives_of :: "string list \<Rightarrow> string list" where
  "directives_of raws = filter (\<lambda>d. d \<noteq> []) (map js_trim raws)"

lemma directives_of_simps:
  "directives_of [] = []"
  "directives_of (raw # raws) = (if js_trim raw = [] then directives_of raws else js_trim raw # directives_of raws)"
  by (simp_all add: directives_of_def)

lemma hsts_loop_without_age:
  assumes "''max-age'' \<in> set seen"
  shows "hsts_loop seen age raws \<longleftrightarrow>
    list_all hsts_name (map directive_name (directives_of raws)) \<and> distinct (map directive_name (directives_of raws)) \<and>
    set (map directive_name (directives_of raws)) \<inter> set seen = {} \<and> (\<exists>n > 0. age = Some n)"
  using assms
proof (induction raws arbitrary: seen)
  case Nil
  then show ?case by (auto simp: directives_of_simps split: option.splits)
next
  case (Cons raw raws)
  show ?case
  proof (cases "js_trim raw = []")
    case True
    then show ?thesis using Cons by (simp add: directives_of_simps Let_def)
  next
    case False
    then show ?thesis
      using Cons.IH [of "directive_name (js_trim raw) # seen"] Cons.prems
      by (auto simp: directives_of_simps Let_def)
  qed
qed

definition lasting :: "string \<Rightarrow> bool" where
  "lasting d \<longleftrightarrow> directive_name d = ''max-age'' \<and> (\<exists>n > 0. max_age d = Some n)"

lemma hsts_loop_with_age:
  assumes "''max-age'' \<notin> set seen"
  shows "hsts_loop seen None raws \<longleftrightarrow>
    list_all hsts_name (map directive_name (directives_of raws)) \<and> distinct (map directive_name (directives_of raws)) \<and>
    set (map directive_name (directives_of raws)) \<inter> set seen = {} \<and> list_ex lasting (directives_of raws)"
  using assms
proof (induction raws arbitrary: seen)
  case Nil
  then show ?case by (simp add: directives_of_simps)
next
  case (Cons raw raws)
  let ?d = "js_trim raw" and ?ds = "directives_of raws"
  show ?case
  proof (cases "?d = []")
    case True
    then show ?thesis using Cons by (simp add: directives_of_simps Let_def)
  next
    case False
    show ?thesis
    proof (cases "directive_name ?d = ''max-age''")
      case True
      have once: "\<not> list_ex lasting ?ds" if "''max-age'' \<notin> directive_name ` set ?ds"
        using that by (auto simp: list_ex_iff lasting_def image_iff)
      show ?thesis
      proof (cases "max_age ?d")
        case None
        then have "\<not> lasting ?d" by (simp add: lasting_def)
        then show ?thesis using False None True once by (auto simp: directives_of_simps Let_def)
      next
        case (Some n)
        have "lasting ?d \<longleftrightarrow> 0 < n" using True Some by (auto simp: lasting_def)
        then show ?thesis
          using False Some True once hsts_loop_without_age [of "directive_name ?d # seen" "Some n" raws] Cons.prems
          by (auto simp: directives_of_simps Let_def)
      qed
    next
      case other: False
      then have "\<not> lasting ?d" by (simp add: lasting_def)
      then show ?thesis
        using False other Cons.IH [of "directive_name ?d # seen"] Cons.prems
        by (auto simp: directives_of_simps Let_def)
    qed
  qed
qed


subsection \<open>security.txt\<close>

definition skipped :: "units \<Rightarrow> bool" where
  "skipped line \<longleftrightarrow> list_all regex_space line \<or> hd line = 35"

text \<open>The field of a line: its name in lower case and its value.\<close>

definition field_of :: "units \<Rightarrow> (string \<times> units) option" where
  "field_of line =
     do {
       (name_units, field_value) \<leftarrow> split_field line;
       name \<leftarrow> latin (JsStr name_units);
       require (name \<noteq> [] \<and> list_all field_name_char name \<and> field_value \<noteq> []);
       Some (js_lower name, field_value)
     }"

definition well_formed_lines :: "units list \<Rightarrow> bool" where
  "well_formed_lines ls \<longleftrightarrow>
     list_all (\<lambda>l. utf8_length l \<le> MAX_SECURITY_TXT_LINE_BYTES \<and> (skipped l \<or> field_of l \<noteq> None)) ls"

definition values_of :: "string \<Rightarrow> units list \<Rightarrow> units list" where
  "values_of name ls =
     map snd (filter (\<lambda>f. fst f = name) (map (\<lambda>l. the (field_of l)) (filter (\<lambda>l. \<not> skipped l) ls)))"

lemma values_of_simps:
  "values_of name [] = []"
  "values_of name (l # ls) = (if \<not> skipped l \<and> fst (the (field_of l)) = name then snd (the (field_of l)) # values_of name ls
     else values_of name ls)"
  by (simp_all add: values_of_def)

lemma well_formed_simps:
  "well_formed_lines []"
  "well_formed_lines (l # ls) \<longleftrightarrow> utf8_length l \<le> MAX_SECURITY_TXT_LINE_BYTES \<and> (skipped l \<or> field_of l \<noteq> None) \<and>
     well_formed_lines ls"
  by (simp_all add: well_formed_lines_def)

lemma js_lower_twice: "js_lower (js_lower s) = js_lower s"
proof -
  have "js_lower_char (js_lower_char ch) = js_lower_char ch" for ch
    by (auto simp: js_lower_char_def is_upper_def code_of_def)
  then show ?thesis by (simp add: js_lower_def)
qed

lemma js_lower_samples:
  "js_lower ''contact'' = ''contact''" "js_lower ''expires'' = ''expires''" "js_lower ''canonical'' = ''canonical''"
  by code_simp+

lemma scan_lines_Cons:
  "scan_lines url host now c (l # ls) =
    (if utf8_length l > MAX_SECURITY_TXT_LINE_BYTES then None
     else if skipped l then scan_lines url host now c ls
     else case field_of l of None \<Rightarrow> None
       | Some (name, field_value) \<Rightarrow>
           Option.bind (scan_field url host now name field_value c) (\<lambda>c'. scan_lines url host now c' ls))"
proof -
  have "scan_field url host now (js_lower name) v c = scan_field url host now name v c" for name v
    by (simp add: scan_field_def js_lower_twice)
  then show ?thesis
    by (auto simp: skipped_def field_of_def require_def split: option.splits)
qed

text \<open>The counts are those of the fields, all of which are valid.\<close>

definition valid_fields :: "(units \<Rightarrow> url_parts option) \<Rightarrow> string \<Rightarrow> int \<Rightarrow> units list \<Rightarrow> bool" where
  "valid_fields url host now ls \<longleftrightarrow>
     well_formed_lines ls \<and> list_all (valid_contact url) (values_of ''contact'' ls) \<and>
     list_all (\<lambda>v. valid_expires v now) (values_of ''expires'' ls) \<and>
     list_all (\<lambda>v. canonical_match url v host \<noteq> None) (values_of ''canonical'' ls)"

lemma scan_lines_iff:
  "fc_expires c \<le> 1 \<Longrightarrow>
   scan_lines url host now c ls = Some c' \<longleftrightarrow>
     valid_fields url host now ls \<and> fc_expires c + length (values_of ''expires'' ls) \<le> 1 \<and>
     c' = \<lparr>fc_contacts = fc_contacts c + length (values_of ''contact'' ls),
       fc_expires = fc_expires c + length (values_of ''expires'' ls),
       fc_canonical_seen = (fc_canonical_seen c \<or> list_ex (\<lambda>v. canonical_match url v host = Some True) (values_of ''canonical'' ls))\<rparr>"
proof (induction ls arbitrary: c)
  case Nil
  then show ?case by (auto simp: valid_fields_def values_of_simps well_formed_simps)
next
  case (Cons l ls)
  show ?case
  proof (cases "utf8_length l > MAX_SECURITY_TXT_LINE_BYTES \<or> (\<not> skipped l \<and> field_of l = None)")
    case True
    then show ?thesis by (auto simp: scan_lines_Cons valid_fields_def well_formed_simps simp del: scan_lines.simps)
  next
    case False
    note fine = False
    show ?thesis
    proof (cases "skipped l")
      case True
      then show ?thesis
        using Cons fine by (simp add: scan_lines_Cons valid_fields_def values_of_simps well_formed_simps del: scan_lines.simps)
    next
      case used: False
      with fine obtain name v where f: "field_of l = Some (name, v)" by auto
      have step: "scan_lines url host now c (l # ls) =
          Option.bind (scan_field url host now name v c) (\<lambda>c''. scan_lines url host now c'' ls)"
        using fine used f by (simp add: scan_lines_Cons del: scan_lines.simps)
      have vals: "values_of k (l # ls) = (if name = k then v # values_of k ls else values_of k ls)" for k
        using used f by (simp add: values_of_simps)
      have wf: "well_formed_lines (l # ls) = well_formed_lines ls"
        using fine used f by (simp add: well_formed_simps)
      consider "name = ''contact''" | "name = ''expires''" | "name = ''canonical''"
        | "name \<noteq> ''contact'' \<and> name \<noteq> ''expires'' \<and> name \<noteq> ''canonical''" by blast
      then show ?thesis
      proof cases
        case 1
        then show ?thesis
          using Cons.IH [of "c\<lparr>fc_contacts := fc_contacts c + 1\<rparr>"] Cons.prems
          by (auto simp: step scan_field_def valid_fields_def vals wf js_lower_samples simp del: scan_lines.simps)
      next
        case 2
        then show ?thesis
          using Cons.IH [of "c\<lparr>fc_expires := fc_expires c + 1\<rparr>"] Cons.prems
          by (auto simp: step scan_field_def valid_fields_def vals wf js_lower_samples simp del: scan_lines.simps)
      next
        case 3
        then show ?thesis
          using Cons.IH [of c] Cons.IH [of "c\<lparr>fc_canonical_seen := True\<rparr>"] Cons.prems
          by (cases "canonical_match url v host")
            (auto simp: step scan_field_def valid_fields_def vals wf js_lower_samples simp del: scan_lines.simps split: bool.splits)
      next
        case 4
        have "js_lower name = name" using f by (auto simp: field_of_def Option.bind_eq_Some_conv js_lower_twice)
        with 4 show ?thesis
          using Cons.IH [of c] Cons.prems by (auto simp: step scan_field_def valid_fields_def vals wf simp del: scan_lines.simps)
      qed
    qed
  qed
qed

definition security_lines :: "bytes \<Rightarrow> units list option" where
  "security_lines body =
     do {
       require (0 < length body \<and> int (length body) \<le> MAX_SECURITY_TXT_BYTES);
       decoded \<leftarrow> decode_text body;
       require (hd decoded \<noteq> 65279 \<and> last decoded = 10 \<and> \<not> lone_return decoded \<and>
         \<not> list_ex (\<lambda>u. u \<in> {0, 11, 12, 127}) decoded);
       require (0 < length (butlast (split_on 10 (line_feeds decoded))) \<and>
         length (butlast (split_on 10 (line_feeds decoded))) \<le> MAX_SECURITY_TXT_LINES);
       Some (butlast (split_on 10 (line_feeds decoded)))
     }"

lemma parse_security_lines:
  "parse_security_body url body host now \<longleftrightarrow>
     (\<exists>ls c. security_lines body = Some ls \<and>
        scan_lines url host now \<lparr>fc_contacts = 0, fc_expires = 0, fc_canonical_seen = False\<rparr> ls = Some c \<and>
        fc_contacts c > 0 \<and> fc_expires c = 1 \<and> (\<not> list_ex canonical_line ls \<or> fc_canonical_seen c))"
proof (cases "decode_text body")
  case None
  then show ?thesis by (simp add: parse_security_body_def security_lines_def)
next
  case (Some decoded)
  define p where "p \<longleftrightarrow> 0 < length body \<and> int (length body) \<le> MAX_SECURITY_TXT_BYTES"
  define q where "q \<longleftrightarrow> hd decoded \<noteq> 65279 \<and> last decoded = 10 \<and> \<not> lone_return decoded \<and>
    \<not> list_ex (\<lambda>u. u \<in> {0, 11, 12, 127}) decoded"
  define ls where "ls = butlast (split_on 10 (line_feeds decoded))"
  define r where "r \<longleftrightarrow> 0 < length ls \<and> length ls \<le> MAX_SECURITY_TXT_LINES"
  have ls: "security_lines body = (if p \<and> q \<and> r then Some ls else None)"
    unfolding security_lines_def Some p_def [symmetric] q_def [symmetric] ls_def [symmetric] r_def [symmetric] Option.bind.bind_lunit
    by (simp add: require_def)
  have p: "(int (length body) = 0 \<or> int (length body) > MAX_SECURITY_TXT_BYTES) = (\<not> p)" by (auto simp: p_def)
  have q: "(hd decoded = 65279 \<or> last decoded \<noteq> 10 \<or> lone_return decoded \<or>
      list_ex (\<lambda>u. u \<in> {0, 11, 12, 127}) decoded) = (\<not> q)" by (auto simp: q_def)
  have r: "(length ls = 0 \<or> length ls > MAX_SECURITY_TXT_LINES) = (\<not> r)" by (auto simp: r_def)
  show ?thesis
    unfolding parse_security_body_def Some p option.case q ls_def [symmetric] Let_def r ls
    by (simp split: option.split del: scan_lines.simps)
qed

text \<open>The verdict on Strict-Transport-Security: it passes exactly if there is one such header and, of its
  directives, each name is well formed and occurs once and there is a \<^verbatim>\<open>max-age\<close> of at least
  one second.\<close>

lemma hsts_verdict_iff:
  "header_decision headers ''HTTP_HSTS'' \<longleftrightarrow>
     (\<exists>v ds. header_values headers ''strict-transport-security'' = [v] \<and>
        ds = directives_of (split_on CHR '';'' (js_trim v)) \<and>
        list_all hsts_name (map directive_name ds) \<and> distinct (map directive_name ds) \<and>
        list_ex (\<lambda>d. directive_name d = ''max-age'' \<and> (\<exists>n > 0. max_age d = Some n)) ds)"
proof -
  have "directives_of (split_on CHR '';'' []) = []" by (simp add: directives_of_def js_trim_def)
  then show ?thesis
    using hsts_loop_with_age [of "[]"]
    by (auto simp: header_decision_def valid_hsts_def single_def lasting_def [abs_def] Let_def
        split: list.splits option.splits if_splits)
qed

subsection \<open>The property\<close>


end
