(* ===== verification/Supervisor.thy ===== *)
theory Supervisor
  imports Scanner_Policy "HOL-Library.Multiset"
begin

section \<open>Supervisor authorization\<close>

text \<open>
  Models \<^verbatim>\<open>apps/api/src/supervisor/model.ts\<close>,
  \<^verbatim>\<open>artifact-approval.ts\<close> and \<^verbatim>\<open>authorize.ts\<close>: an untrusted
  execution envelope is compared with the trusted state of the attempt, its
  policy is authorized, and the scanner artifact must match an approval.
\<close>

subsection \<open>Data\<close>

record artifact_identity =
  template_workflow_digest :: string
  transitive_dependency_digests :: "string list"
  engine_version :: string
  scanner_image_digest :: string
  config_version :: string
  ai_policy_id :: string
  ai_policy_version :: string
  ai_profile :: string

datatype approval_status = APPROVED | REVOKED

record template_approval =
  approval_id :: string
  approval_state :: approval_status
  approval_artifact :: jsval

text \<open>The envelope as parsed: its policy is still the submitted value.\<close>

record execution_envelope =
  job_id :: string
  attempt_id :: string
  fence :: int
  ee_canonical_target :: string
  authorization_ref :: string
  lease_expires_at_unix_seconds :: int
  hard_deadline_unix_seconds :: int
  ee_policy :: jsval
  ee_artifact :: artifact_identity

record trusted_execution_state =
  ts_now_unix_seconds :: int
  ts_job_id :: string
  ts_attempt_id :: string
  ts_fence :: int
  ts_canonical_target :: string
  ts_authorization_ref :: string
  ts_lease_expires_at :: int
  ts_hard_deadline :: int
  ts_approval :: "template_approval option"

datatype supervisor_deny_code =
    INVALID_ENVELOPE | SUP_STALE_ATTEMPT | AUTHORIZATION_MISMATCH | SUP_LEASE_EXPIRED
  | SUP_ATTEMPT_DEADLINE_EXCEEDED | POLICY_DENIED policy_deny_code
  | APPROVAL_REQUIRED | APPROVAL_REVOKED | ARTIFACT_NOT_APPROVED

datatype supervisor_decision =
    EXECUTION_ALLOWED execution_envelope scanner_execution_request
  | EXECUTION_REFUSED supervisor_deny_code

subsection \<open>Artifact identity\<close>

definition ARTIFACT_KEYS :: "string list" where
  "ARTIFACT_KEYS =
    [''template_workflow_digest'', ''transitive_dependency_digests'', ''engine_version'',
     ''scanner_image_digest'', ''config_version'', ''policy_id'', ''policy_version'', ''profile'']"

text \<open>\<^verbatim>\<open>/^[A-Za-z0-9][A-Za-z0-9._+-]{0,63}$/u\<close>\<close>

definition is_version :: "string \<Rightarrow> bool" where
  "is_version s \<longleftrightarrow>
     (case s of [] \<Rightarrow> False
      | c # cs \<Rightarrow> is_alnum c \<and> length cs \<le> 63 \<and>
          list_all (\<lambda>d. is_alnum d \<or> d \<in> set ''._+-'') cs)"

definition parse_artifact_identity :: "jsval \<Rightarrow> artifact_identity option" where
  "parse_artifact_identity value =
     do {
       require (exact_record value ARTIFACT_KEYS);
       deps \<leftarrow> as_arr (get_prop value ''transitive_dependency_digests'');
       require (length deps \<le> 256);
       digests \<leftarrow> all_some (as_str_matching sha256_pattern) deps;
       require (distinct digests);
       workflow \<leftarrow> as_str_matching sha256_pattern (get_prop value ''template_workflow_digest'');
       image \<leftarrow> as_str_matching sha256_pattern (get_prop value ''scanner_image_digest'');
       engine \<leftarrow> as_str_matching is_version (get_prop value ''engine_version'');
       config \<leftarrow> as_str_matching is_version (get_prop value ''config_version'');
       policy \<leftarrow> as_str_matching is_version (get_prop value ''policy_id'');
       policy_version \<leftarrow> as_str_matching is_version (get_prop value ''policy_version'');
       prof \<leftarrow> as_str_matching is_version (get_prop value ''profile'');
       Some \<lparr>template_workflow_digest = workflow, transitive_dependency_digests = sort digests,
             engine_version = engine, scanner_image_digest = image, config_version = config,
             ai_policy_id = policy, ai_policy_version = policy_version, ai_profile = prof\<rparr>
     }"

definition matches_approval :: "artifact_identity \<Rightarrow> template_approval \<Rightarrow> bool" where
  "matches_approval artifact approval =
     (case parse_artifact_identity (approval_artifact approval) of
        None \<Rightarrow> False
      | Some approved \<Rightarrow>
          template_workflow_digest artifact = template_workflow_digest approved \<and>
          engine_version artifact = engine_version approved \<and>
          scanner_image_digest artifact = scanner_image_digest approved \<and>
          config_version artifact = config_version approved \<and>
          ai_policy_id artifact = ai_policy_id approved \<and>
          ai_policy_version artifact = ai_policy_version approved \<and>
          ai_profile artifact = ai_profile approved \<and>
          length (transitive_dependency_digests artifact) =
            length (transitive_dependency_digests approved) \<and>
          list_all2 (=) (transitive_dependency_digests artifact)
            (transitive_dependency_digests approved))"

subsection \<open>Envelope\<close>

definition ENVELOPE_KEYS :: "string list" where
  "ENVELOPE_KEYS =
    [''schema_version'', ''job_id'', ''attempt_id'', ''fence'', ''canonical_target'',
     ''authorization_ref'', ''lease_expires_at_unix_seconds'', ''hard_deadline_unix_seconds'',
     ''policy'', ''artifact_identity'']"

definition is_bounded_string :: "nat \<Rightarrow> string \<Rightarrow> bool" where
  "is_bounded_string max_length s \<longleftrightarrow> s \<noteq> [] \<and> length s \<le> max_length \<and> js_trim s = s"

definition parse_envelope :: "jsval \<Rightarrow> execution_envelope option" where
  "parse_envelope input =
     do {
       require (exact_record input ENVELOPE_KEYS);
       artifact \<leftarrow> parse_artifact_identity (get_prop input ''artifact_identity'');
       require (get_prop input ''schema_version'' = JNum 1);
       job \<leftarrow> as_str_matching id_pattern (get_prop input ''job_id'');
       attempt \<leftarrow> as_str_matching id_pattern (get_prop input ''attempt_id'');
       fence \<leftarrow> as_bounded 1 MAX_SAFE_INTEGER (get_prop input ''fence'');
       target \<leftarrow> as_str_matching (is_bounded_string 253) (get_prop input ''canonical_target'');
       ref \<leftarrow> as_str_matching (is_bounded_string 256) (get_prop input ''authorization_ref'');
       lease \<leftarrow> as_bounded 1 MAX_SAFE_INTEGER (get_prop input ''lease_expires_at_unix_seconds'');
       deadline \<leftarrow> as_bounded 1 MAX_SAFE_INTEGER (get_prop input ''hard_deadline_unix_seconds'');
       Some \<lparr>job_id = job, attempt_id = attempt, fence = fence, ee_canonical_target = target,
             authorization_ref = ref, lease_expires_at_unix_seconds = lease,
             hard_deadline_unix_seconds = deadline, ee_policy = get_prop input ''policy'',
             ee_artifact = artifact\<rparr>
     }"

definition authorize_supervisor_execution ::
  "jsval \<Rightarrow> trusted_execution_state \<Rightarrow> supervisor_decision" where
  "authorize_supervisor_execution input trusted =
     (case parse_envelope input of
        None \<Rightarrow> EXECUTION_REFUSED INVALID_ENVELOPE
      | Some e \<Rightarrow>
          if job_id e \<noteq> ts_job_id trusted \<or> attempt_id e \<noteq> ts_attempt_id trusted \<or>
             fence e \<noteq> ts_fence trusted
          then EXECUTION_REFUSED SUP_STALE_ATTEMPT
          else if ee_canonical_target e \<noteq> ts_canonical_target trusted \<or>
                  authorization_ref e \<noteq> ts_authorization_ref trusted
          then EXECUTION_REFUSED AUTHORIZATION_MISMATCH
          else if lease_expires_at_unix_seconds e \<noteq> ts_lease_expires_at trusted \<or>
                  ts_now_unix_seconds trusted \<ge> ts_lease_expires_at trusted
          then EXECUTION_REFUSED SUP_LEASE_EXPIRED
          else if hard_deadline_unix_seconds e \<noteq> ts_hard_deadline trusted \<or>
                  ts_now_unix_seconds trusted \<ge> ts_hard_deadline trusted
          then EXECUTION_REFUSED SUP_ATTEMPT_DEADLINE_EXCEEDED
          else (case authorize_scanner_execution (ee_policy e) of
              POLICY_REFUSED code \<Rightarrow> EXECUTION_REFUSED (POLICY_DENIED code)
            | POLICY_ALLOWED request \<Rightarrow>
                if ai_policy_id (ee_artifact e) \<noteq> se_policy_id request \<or>
                   ai_policy_version (ee_artifact e) \<noteq> se_policy_version request \<or>
                   ai_profile (ee_artifact e) \<noteq> profile_name (se_profile request)
                then EXECUTION_REFUSED ARTIFACT_NOT_APPROVED
                else (case ts_approval trusted of
                    None \<Rightarrow> EXECUTION_REFUSED APPROVAL_REQUIRED
                  | Some approval \<Rightarrow>
                      if approval_state approval \<noteq> APPROVED
                      then EXECUTION_REFUSED APPROVAL_REVOKED
                      else if \<not> matches_approval (ee_artifact e) approval
                      then EXECUTION_REFUSED ARTIFACT_NOT_APPROVED
                      else EXECUTION_ALLOWED e request)))"

subsection \<open>Lemmas\<close>

lemma parse_artifact_canonical:
  "parse_artifact_identity v = Some a \<Longrightarrow>
     sorted (transitive_dependency_digests a) \<and> distinct (transitive_dependency_digests a) \<and>
     length (transitive_dependency_digests a) \<le> 256"
  by (auto simp: parse_artifact_identity_def bind_eq_Some_conv guard_simps
      dest!: all_some_length)

lemma matches_approval_iff:
  "matches_approval a p \<longleftrightarrow> parse_artifact_identity (approval_artifact p) = Some a"
proof (cases "parse_artifact_identity (approval_artifact p)")
  case None
  then show ?thesis by (simp add: matches_approval_def)
next
  case (Some b)
  have "list_all2 (=) xs ys \<longleftrightarrow> xs = (ys :: string list)" for xs ys
    by (simp add: list_all2_eq [symmetric])
  with Some show ?thesis
    by (cases a; cases b) (auto simp: matches_approval_def)
qed

lemma sort_cong_mset: "mset xs = mset ys \<Longrightarrow> sort xs = sort (ys :: string list)"
  by (metis properties_for_sort sorted_sort mset_sort)

lemma authorize_execution_allowedE:
  assumes "authorize_supervisor_execution input t = EXECUTION_ALLOWED e r"
  obtains approval where
    "parse_envelope input = Some e"
    "job_id e = ts_job_id t" "attempt_id e = ts_attempt_id t" "fence e = ts_fence t"
    "ee_canonical_target e = ts_canonical_target t" "authorization_ref e = ts_authorization_ref t"
    "lease_expires_at_unix_seconds e = ts_lease_expires_at t"
    "ts_now_unix_seconds t < ts_lease_expires_at t"
    "hard_deadline_unix_seconds e = ts_hard_deadline t"
    "ts_now_unix_seconds t < ts_hard_deadline t"
    "authorize_scanner_execution (ee_policy e) = POLICY_ALLOWED r"
    "ai_profile (ee_artifact e) = profile_name (se_profile r)"
    "ts_approval t = Some approval" "approval_state approval = APPROVED"
    "matches_approval (ee_artifact e) approval"
proof -
  have ps: "x = APPROVED" if "x \<noteq> REVOKED" for x using that by (cases x) auto
  from assms that show thesis
    by (auto simp: authorize_supervisor_execution_def
        split: option.splits if_splits policy_decision.splits)
qed

text \<open>Reordering the dependency digests an approval lists.\<close>

definition approval_value :: "artifact_identity \<Rightarrow> string list \<Rightarrow> jsval" where
  "approval_value a deps = JObj
    [(''template_workflow_digest'', JStr (template_workflow_digest a)),
     (''transitive_dependency_digests'', JArr (map JStr deps)),
     (''engine_version'', JStr (engine_version a)),
     (''scanner_image_digest'', JStr (scanner_image_digest a)),
     (''config_version'', JStr (config_version a)),
     (''policy_id'', JStr (ai_policy_id a)),
     (''policy_version'', JStr (ai_policy_version a)),
     (''profile'', JStr (ai_profile a))]"

lemma all_some_as_str_matching:
  "all_some (as_str_matching p) (map JStr xs) = (if list_all p xs then Some xs else None)"
  by (induction xs) (auto simp: as_str_matching_def)

lemma parse_approval_value_perm:
  assumes "mset xs = mset ys"
  shows "parse_artifact_identity (approval_value a xs) = parse_artifact_identity (approval_value a ys)"
proof -
  have "length xs = length ys" using assms by (metis size_mset)
  moreover have "list_all p xs = list_all p ys" for p
    using assms by (metis list_all_iff set_mset_mset)
  moreover have "distinct xs = distinct ys" using assms by (rule mset_eq_imp_distinct_iff)
  ultimately show ?thesis
    by (simp add: parse_artifact_identity_def approval_value_def exact_record_def
        has_exact_keys_def ARTIFACT_KEYS_def all_some_as_str_matching sort_cong_mset [OF assms])
qed

subsection \<open>Properties\<close>

text \<open>C37: an execution is authorized only for the attempt, fence, target and authorization the trusted
state names, strictly before its lease and its hard deadline, with a policy-conformant request,
and with an artifact identity equal to one whose approval is not revoked.\<close>
theorem supervisor_authorization_sound:
  assumes "authorize_supervisor_execution input t = EXECUTION_ALLOWED e r"
  shows "job_id e = ts_job_id t \<and> attempt_id e = ts_attempt_id t \<and> fence e = ts_fence t \<and>
    ee_canonical_target e = ts_canonical_target t \<and>
    authorization_ref e = ts_authorization_ref t \<and>
    ts_now_unix_seconds t < lease_expires_at_unix_seconds e \<and>
    ts_now_unix_seconds t < hard_deadline_unix_seconds e \<and>
    within_policy r \<and>
    (\<exists>approval. ts_approval t = Some approval \<and> approval_state approval = APPROVED \<and>
       parse_artifact_identity (approval_artifact approval) = Some (ee_artifact e))"
  using assms
  by (elim authorize_execution_allowedE)
    (auto simp: matches_approval_iff dest: authorize_within_policy)

definition sample_digest :: string where
  "sample_digest = uniform_digest (CHR ''a'')"

lemma sample_digest_ok: "sha256_pattern sample_digest"
  unfolding sample_digest_def by (rule uniform_digest_valid [OF hex_samples(1)])

definition sample_artifact :: artifact_identity where
  "sample_artifact =
     \<lparr>template_workflow_digest = sample_digest, transitive_dependency_digests = [sample_digest],
      engine_version = ''1'', scanner_image_digest = sample_digest, config_version = ''1'',
      ai_policy_id = ''outscan-v1'', ai_policy_version = ''1.0.0'', ai_profile = ''GUEST_SAFE''\<rparr>"

definition sample_envelope :: execution_envelope where
  "sample_envelope =
     \<lparr>job_id = ''j1'', attempt_id = ''a1'', fence = 1, ee_canonical_target = ''example.org'',
      authorization_ref = ''ref'', lease_expires_at_unix_seconds = 20,
      hard_deadline_unix_seconds = 50, ee_policy = present_request guest_request,
      ee_artifact = sample_artifact\<rparr>"

definition sample_trusted :: trusted_execution_state where
  "sample_trusted =
     \<lparr>ts_now_unix_seconds = 10, ts_job_id = ''j1'', ts_attempt_id = ''a1'', ts_fence = 1,
      ts_canonical_target = ''example.org'', ts_authorization_ref = ''ref'',
      ts_lease_expires_at = 20, ts_hard_deadline = 50,
      ts_approval = Some \<lparr>approval_id = ''p'', approval_state = APPROVED,
        approval_artifact = approval_value sample_artifact [sample_digest]\<rparr>\<rparr>"

definition sample_input :: jsval where
  "sample_input = JObj
    [(''schema_version'', JNum 1), (''job_id'', JStr ''j1''), (''attempt_id'', JStr ''a1''),
     (''fence'', JNum 1), (''canonical_target'', JStr ''example.org''),
     (''authorization_ref'', JStr ''ref''), (''lease_expires_at_unix_seconds'', JNum 20),
     (''hard_deadline_unix_seconds'', JNum 50), (''policy'', present_request guest_request),
     (''artifact_identity'', approval_value sample_artifact [sample_digest])]"

lemma sample_artifact_parses:
  "parse_artifact_identity (approval_value sample_artifact [sample_digest]) = Some sample_artifact"
  using sample_digest_ok
  by (simp add: parse_artifact_identity_def approval_value_def exact_record_def
      has_exact_keys_def ARTIFACT_KEYS_def as_str_matching_def sample_artifact_def is_version_def
      is_alnum_def is_digit_def is_lower_def is_upper_def code_of_def)

lemma sample_input_parses: "parse_envelope sample_input = Some sample_envelope"
  by (simp add: parse_envelope_def sample_input_def exact_record_def has_exact_keys_def
      ENVELOPE_KEYS_def sample_artifact_parses as_str_matching_def id_pattern_def is_alnum_def
      is_digit_def is_lower_def is_upper_def code_of_def as_bounded_def safe_int_def
      MAX_SAFE_INTEGER_def is_bounded_string_def js_trim_def is_js_space_def sample_envelope_def)

lemma sample_authorized:
  "authorize_supervisor_execution sample_input sample_trusted =
     EXECUTION_ALLOWED sample_envelope guest_request"
proof -
  have policy: "authorize_scanner_execution (ee_policy sample_envelope) = POLICY_ALLOWED guest_request"
    using authorize_complete [OF guest_request_within] by (simp add: sample_envelope_def)
  have request: "se_policy_id guest_request = ''outscan-v1''"
    "se_policy_version guest_request = ''1.0.0''"
    "profile_name (se_profile guest_request) = ''GUEST_SAFE''"
    by (simp_all add: guest_request_def profile_name_def PROFILES_def)
  have artifact: "ai_policy_id (ee_artifact sample_envelope) = ''outscan-v1''"
    "ai_policy_version (ee_artifact sample_envelope) = ''1.0.0''"
    "ai_profile (ee_artifact sample_envelope) = ''GUEST_SAFE''"
    by (simp_all add: sample_envelope_def sample_artifact_def)
  have approval: "\<exists>a. ts_approval sample_trusted = Some a \<and> approval_state a = APPROVED \<and>
      matches_approval (ee_artifact sample_envelope) a"
    by (simp add: sample_trusted_def matches_approval_iff sample_artifact_parses
        sample_envelope_def)
  have state: "job_id sample_envelope = ts_job_id sample_trusted"
    "attempt_id sample_envelope = ts_attempt_id sample_trusted"
    "fence sample_envelope = ts_fence sample_trusted"
    "ee_canonical_target sample_envelope = ts_canonical_target sample_trusted"
    "authorization_ref sample_envelope = ts_authorization_ref sample_trusted"
    "lease_expires_at_unix_seconds sample_envelope = ts_lease_expires_at sample_trusted"
    "hard_deadline_unix_seconds sample_envelope = ts_hard_deadline sample_trusted"
    "\<not> ts_now_unix_seconds sample_trusted \<ge> ts_lease_expires_at sample_trusted"
    "\<not> ts_now_unix_seconds sample_trusted \<ge> ts_hard_deadline sample_trusted"
    by (simp_all add: sample_envelope_def sample_trusted_def)
  from approval show ?thesis
    by (auto simp add: authorize_supervisor_execution_def sample_input_parses policy request
        artifact state simp del: not_le)
qed

theorem supervisor_authorization_sound_witness:
  "ts_fence sample_trusted = fence sample_envelope \<and> within_policy guest_request"
  using supervisor_authorization_sound [OF sample_authorized] by simp

text \<open>The order in which an approval lists its transitive dependency digests does not matter:
reordering them never changes which artifacts the approval matches.\<close>
theorem approval_order_irrelevant:
  "mset xs = mset ys \<Longrightarrow>
     matches_approval artifact \<lparr>approval_id = i, approval_state = s,
       approval_artifact = approval_value a xs\<rparr> =
     matches_approval artifact \<lparr>approval_id = i, approval_state = s,
       approval_artifact = approval_value a ys\<rparr>"
  by (simp only: matches_approval_iff template_approval.simps parse_approval_value_perm [of xs ys])

end
