(* ===== verification/Notifications.thy ===== *)
theory Notifications
  imports Prelude
begin

section \<open>Notification events and their recipients\<close>

text \<open>
  Models \<^verbatim>\<open>apps/api/src/notifications/model.ts\<close>, \<^verbatim>\<open>catalog.ts\<close>,
  \<^verbatim>\<open>validation.ts\<close> and \<^verbatim>\<open>recipient-policy.ts\<close>: the closed catalog of event
  types, the check of an untrusted event, and who is told about it.  A tenant event walks the
  members of the context once, with the endpoints already used as the loop's state; a member
  of another organization or a malformed one refuses the whole event.
\<close>

subsection \<open>Data\<close>

datatype notification_event_type =
    ACCOUNT_EMAIL_VERIFICATION | ACCOUNT_PASSWORD_RECOVERY | ACCOUNT_SECURITY_CHANGED
  | ORGANIZATION_INVITATION
  | FINDING_CREATED | FINDING_REOPENED | THREAT_INTEL_MATCHED | ASSET_DISCOVERED
  | POSTURE_REGRESSION | CERTIFICATE_EXPIRING | SECURITY_SCORE_CHANGED | MONITORING_FAILED
  | MONITORING_SUSPENDED
  | WORKER_UNHEALTHY | QUEUE_DEGRADED | SCAN_FAILURE_SPIKE | THREAT_INTEL_SYNC_FAILED
  | THREAT_INTEL_STALE | SCANNER_RELEASE_FAILED | EMAIL_DELIVERY_DEGRADED
  | TELEGRAM_DELIVERY_DEGRADED | ABUSE_SPIKE | PLATFORM_SECURITY_EVENT | BREAK_GLASS_ACCESS

datatype notification_priority = NP_CRITICAL | NP_HIGH | NP_NORMAL | NP_LOW

datatype notification_channel =
  EMAIL_TRANSACTIONAL | EMAIL_TECHNICAL | TELEGRAM_CUSTOMER | TELEGRAM_OPS

datatype notification_scope = ACCOUNT_SCOPE | TENANT_SCOPE | PLATFORM_SCOPE

datatype notification_category =
  ACCOUNT_CATEGORY | SECURITY_CATEGORY | MONITORING_CATEGORY | PLATFORM_CATEGORY

datatype notification_stream = ACCOUNT_TRANSACTIONAL | CUSTOMER_TECHNICAL | PLATFORM_OPERATIONS

datatype notification_subject_kind =
    ACCOUNT_SUBJECT | ORGANIZATION_SUBJECT | ASSET_SUBJECT | FINDING_SUBJECT
  | MONITORING_SUBJECT | SERVICE_SUBJECT

datatype notification_error =
    INVALID_EVENT | UNKNOWN_EVENT_TYPE | SCOPE_MISMATCH | INVALID_RECIPIENT_CONTEXT
  | CROSS_TENANT_CONTEXT | INVALID_IDEMPOTENCY_INPUT | INVALID_CONTENT
  | INVALID_DELIVERY_TRANSITION | INVALID_TELEGRAM_CONFIGURATION

record notification_event_base =
  ev_event_id :: string
  ev_event_type :: notification_event_type
  ev_occurred_at :: int
  ev_priority :: notification_priority
  ev_subject_reference_id :: string

text \<open>The three shapes of an event: the identifier is the user, the organization or the service.\<close>

datatype notification_event =
    ACCOUNT_EVENT notification_event_base string
  | TENANT_EVENT notification_event_base string
  | PLATFORM_EVENT notification_event_base string

record notification_event_definition =
  def_event_type :: notification_event_type
  def_scope :: notification_scope
  def_category :: notification_category
  def_stream :: notification_stream
  def_subject_kind :: notification_subject_kind
  def_mandatory :: bool
  def_channels :: "notification_channel list"

datatype principal_kind = USER_PRINCIPAL | OPS_CONFIG

record recipient_intent =
  ri_event_id :: string
  ri_principal_kind :: principal_kind
  ri_principal_id :: string
  ri_endpoint_id :: string
  ri_channel :: notification_channel

definition ACCOUNT_NOTIFICATION_EVENT_TYPES :: "(string \<times> notification_event_type) list" where
  "ACCOUNT_NOTIFICATION_EVENT_TYPES =
    [(''ACCOUNT_EMAIL_VERIFICATION'', ACCOUNT_EMAIL_VERIFICATION),
     (''ACCOUNT_PASSWORD_RECOVERY'', ACCOUNT_PASSWORD_RECOVERY),
     (''ACCOUNT_SECURITY_CHANGED'', ACCOUNT_SECURITY_CHANGED),
     (''ORGANIZATION_INVITATION'', ORGANIZATION_INVITATION)]"

definition TENANT_NOTIFICATION_EVENT_TYPES :: "(string \<times> notification_event_type) list" where
  "TENANT_NOTIFICATION_EVENT_TYPES =
    [(''FINDING_CREATED'', FINDING_CREATED), (''FINDING_REOPENED'', FINDING_REOPENED),
     (''THREAT_INTEL_MATCHED'', THREAT_INTEL_MATCHED), (''ASSET_DISCOVERED'', ASSET_DISCOVERED),
     (''POSTURE_REGRESSION'', POSTURE_REGRESSION),
     (''CERTIFICATE_EXPIRING'', CERTIFICATE_EXPIRING),
     (''SECURITY_SCORE_CHANGED'', SECURITY_SCORE_CHANGED),
     (''MONITORING_FAILED'', MONITORING_FAILED),
     (''MONITORING_SUSPENDED'', MONITORING_SUSPENDED)]"

definition PLATFORM_NOTIFICATION_EVENT_TYPES :: "(string \<times> notification_event_type) list" where
  "PLATFORM_NOTIFICATION_EVENT_TYPES =
    [(''WORKER_UNHEALTHY'', WORKER_UNHEALTHY), (''QUEUE_DEGRADED'', QUEUE_DEGRADED),
     (''SCAN_FAILURE_SPIKE'', SCAN_FAILURE_SPIKE),
     (''THREAT_INTEL_SYNC_FAILED'', THREAT_INTEL_SYNC_FAILED),
     (''THREAT_INTEL_STALE'', THREAT_INTEL_STALE),
     (''SCANNER_RELEASE_FAILED'', SCANNER_RELEASE_FAILED),
     (''EMAIL_DELIVERY_DEGRADED'', EMAIL_DELIVERY_DEGRADED),
     (''TELEGRAM_DELIVERY_DEGRADED'', TELEGRAM_DELIVERY_DEGRADED),
     (''ABUSE_SPIKE'', ABUSE_SPIKE), (''PLATFORM_SECURITY_EVENT'', PLATFORM_SECURITY_EVENT),
     (''BREAK_GLASS_ACCESS'', BREAK_GLASS_ACCESS)]"

definition NOTIFICATION_PRIORITIES :: "(string \<times> notification_priority) list" where
  "NOTIFICATION_PRIORITIES =
    [(''CRITICAL'', NP_CRITICAL), (''HIGH'', NP_HIGH), (''NORMAL'', NP_NORMAL), (''LOW'', NP_LOW)]"

definition NOTIFICATION_CHANNELS :: "(string \<times> notification_channel) list" where
  "NOTIFICATION_CHANNELS =
    [(''EMAIL_TRANSACTIONAL'', EMAIL_TRANSACTIONAL), (''EMAIL_TECHNICAL'', EMAIL_TECHNICAL),
     (''TELEGRAM_CUSTOMER'', TELEGRAM_CUSTOMER), (''TELEGRAM_OPS'', TELEGRAM_OPS)]"

definition NOTIFICATION_SCOPES :: "(string \<times> notification_scope) list" where
  "NOTIFICATION_SCOPES =
    [(''ACCOUNT'', ACCOUNT_SCOPE), (''TENANT'', TENANT_SCOPE), (''PLATFORM'', PLATFORM_SCOPE)]"

text \<open>Reading one of a closed set of strings.\<close>

definition as_name_of :: "(string \<times> 'a) list \<Rightarrow> jsval \<Rightarrow> 'a option" where
  "as_name_of names v = (case as_str v of None \<Rightarrow> None | Some s \<Rightarrow> map_of names s)"

subsection \<open>Catalog\<close>

definition account_definition ::
  "string \<times> notification_event_type \<Rightarrow> notification_event_definition" where
  "account_definition named =
     \<lparr>def_event_type = snd named, def_scope = ACCOUNT_SCOPE, def_category = ACCOUNT_CATEGORY,
      def_stream = ACCOUNT_TRANSACTIONAL,
      def_subject_kind =
        (if snd named = ORGANIZATION_INVITATION then ORGANIZATION_SUBJECT else ACCOUNT_SUBJECT),
      def_mandatory = True, def_channels = [EMAIL_TRANSACTIONAL]\<rparr>"

definition TENANT_SUBJECTS :: "(notification_event_type \<times> notification_subject_kind) list" where
  "TENANT_SUBJECTS =
    [(FINDING_CREATED, FINDING_SUBJECT), (FINDING_REOPENED, FINDING_SUBJECT),
     (THREAT_INTEL_MATCHED, FINDING_SUBJECT), (ASSET_DISCOVERED, ASSET_SUBJECT),
     (POSTURE_REGRESSION, ASSET_SUBJECT), (CERTIFICATE_EXPIRING, ASSET_SUBJECT),
     (SECURITY_SCORE_CHANGED, ORGANIZATION_SUBJECT), (MONITORING_FAILED, MONITORING_SUBJECT),
     (MONITORING_SUSPENDED, MONITORING_SUBJECT)]"

definition tenant_definition ::
  "string \<times> notification_event_type \<Rightarrow> notification_event_definition" where
  "tenant_definition named =
     \<lparr>def_event_type = snd named, def_scope = TENANT_SCOPE,
      def_category =
        (if starts_with ''MONITORING_'' (fst named) then MONITORING_CATEGORY else SECURITY_CATEGORY),
      def_stream = CUSTOMER_TECHNICAL,
      def_subject_kind = the (map_of TENANT_SUBJECTS (snd named)),
      def_mandatory = False, def_channels = [EMAIL_TECHNICAL, TELEGRAM_CUSTOMER]\<rparr>"

definition platform_definition ::
  "string \<times> notification_event_type \<Rightarrow> notification_event_definition" where
  "platform_definition named =
     \<lparr>def_event_type = snd named, def_scope = PLATFORM_SCOPE, def_category = PLATFORM_CATEGORY,
      def_stream = PLATFORM_OPERATIONS, def_subject_kind = SERVICE_SUBJECT,
      def_mandatory = True, def_channels = [TELEGRAM_OPS]\<rparr>"

definition NOTIFICATION_EVENT_CATALOG :: "(string \<times> notification_event_definition) list" where
  "NOTIFICATION_EVENT_CATALOG =
     map (\<lambda>n. (fst n, account_definition n)) ACCOUNT_NOTIFICATION_EVENT_TYPES @
     map (\<lambda>n. (fst n, tenant_definition n)) TENANT_NOTIFICATION_EVENT_TYPES @
     map (\<lambda>n. (fst n, platform_definition n)) PLATFORM_NOTIFICATION_EVENT_TYPES"

definition get_notification_event_definition ::
  "jsval \<Rightarrow> notification_error + notification_event_definition" where
  "get_notification_event_definition event_type =
     (case as_name_of NOTIFICATION_EVENT_CATALOG event_type of
        None \<Rightarrow> Inl UNKNOWN_EVENT_TYPE | Some d \<Rightarrow> Inr d)"

text \<open>The same lookup for a value that already has the event's type.\<close>

definition definition_of :: "notification_event_type \<Rightarrow> notification_event_definition option" where
  "definition_of t = find (\<lambda>d. def_event_type d = t) (map snd NOTIFICATION_EVENT_CATALOG)"

subsection \<open>Checking an event\<close>

abbreviation notification_identifier :: "string \<Rightarrow> bool" where
  "notification_identifier \<equiv> id_pattern"

definition scoped_key :: "notification_scope \<Rightarrow> string" where
  "scoped_key s =
     (case s of ACCOUNT_SCOPE \<Rightarrow> ''userId'' | TENANT_SCOPE \<Rightarrow> ''organizationId''
      | PLATFORM_SCOPE \<Rightarrow> ''serviceId'')"

definition event_keys :: "notification_scope \<Rightarrow> string list" where
  "event_keys s =
    [''schemaVersion'', ''eventId'', ''eventType'', ''scope'', ''occurredAtEpochSeconds'',
     ''priority'', ''subjectReferenceId'', scoped_key s]"

definition event_of_scope ::
  "notification_scope \<Rightarrow> notification_event_base \<Rightarrow> string \<Rightarrow> notification_event" where
  "event_of_scope s =
     (case s of ACCOUNT_SCOPE \<Rightarrow> ACCOUNT_EVENT | TENANT_SCOPE \<Rightarrow> TENANT_EVENT
      | PLATFORM_SCOPE \<Rightarrow> PLATFORM_EVENT)"

definition read_event ::
  "jsval \<Rightarrow> notification_event_definition \<Rightarrow> notification_event option" where
  "read_event input d =
     do {
       require (exact_object input (event_keys (def_scope d)));
       require (get_prop input ''schemaVersion'' = JNum 1);
       scope \<leftarrow> as_name_of NOTIFICATION_SCOPES (get_prop input ''scope'');
       require (scope = def_scope d);
       eid \<leftarrow> as_str_matching notification_identifier (get_prop input ''eventId'');
       subject \<leftarrow> as_str_matching notification_identifier (get_prop input ''subjectReferenceId'');
       owner \<leftarrow> as_str_matching notification_identifier (get_prop input (scoped_key (def_scope d)));
       occurred \<leftarrow> as_bounded 0 MAX_SAFE_INTEGER (get_prop input ''occurredAtEpochSeconds'');
       priority \<leftarrow> as_name_of NOTIFICATION_PRIORITIES (get_prop input ''priority'');
       Some (event_of_scope scope
         \<lparr>ev_event_id = eid, ev_event_type = def_event_type d, ev_occurred_at = occurred,
          ev_priority = priority, ev_subject_reference_id = subject\<rparr> owner)
     }"

definition validate_notification_event :: "jsval \<Rightarrow> notification_error + notification_event" where
  "validate_notification_event input =
     (if \<not> is_record input then Inl INVALID_EVENT
      else case get_notification_event_definition (get_prop input ''eventType'') of
        Inl e \<Rightarrow> Inl e
      | Inr d \<Rightarrow> (case read_event input d of None \<Rightarrow> Inl INVALID_EVENT | Some ev \<Rightarrow> Inr ev))"

subsection \<open>Recipients\<close>

definition recipient :: "string \<Rightarrow> string \<Rightarrow> string \<Rightarrow> notification_channel \<Rightarrow> recipient_intent" where
  "recipient event_id user endpoint channel =
     \<lparr>ri_event_id = event_id, ri_principal_kind = USER_PRINCIPAL, ri_principal_id = user,
      ri_endpoint_id = endpoint, ri_channel = channel\<rparr>"

definition resolve_account ::
  "notification_event_base \<Rightarrow> string \<Rightarrow> jsval \<Rightarrow> notification_error + recipient_intent list" where
  "resolve_account ev event_user ctx =
     (case do {
         require (exact_object ctx [''scope'', ''userId'', ''emailEndpointId'', ''endpointActive'']);
         require (get_prop ctx ''scope'' = JStr ''ACCOUNT'');
         require (get_prop ctx ''userId'' = JStr event_user);
         user \<leftarrow> as_str_matching notification_identifier (get_prop ctx ''userId'');
         endpoint \<leftarrow> as_str_matching notification_identifier (get_prop ctx ''emailEndpointId'');
         active \<leftarrow> as_bool (get_prop ctx ''endpointActive'');
         Some (user, endpoint, active)
       } of
        None \<Rightarrow> Inl INVALID_RECIPIENT_CONTEXT
      | Some (user, endpoint, active) \<Rightarrow>
          Inr (if active then [recipient (ev_event_id ev) user endpoint EMAIL_TRANSACTIONAL] else []))"

record tenant_member =
  tm_user :: string
  tm_active :: bool
  tm_email_endpoint :: "string option"
  tm_telegram_endpoint :: "string option"
  tm_email_enabled :: bool
  tm_telegram_enabled :: bool

definition MEMBER_KEYS :: "string list" where
  "MEMBER_KEYS =
    [''organizationId'', ''userId'', ''role'', ''status'', ''emailEndpointId'',
     ''telegramEndpointId'', ''technicalEmailEnabled'', ''technicalTelegramEnabled'']"

definition MEMBER_ROLES :: "string list" where
  "MEMBER_ROLES = [''OWNER'', ''ADMIN'', ''ANALYST'']"

text \<open>An endpoint is \<^verbatim>\<open>null\<close> or an identifier.\<close>

definition as_endpoint :: "jsval \<Rightarrow> string option option" where
  "as_endpoint v =
     (if v = JNull then Some None
      else map_option Some (as_str_matching notification_identifier v))"

text \<open>The checks on one member, after its organization's.\<close>

definition read_member :: "jsval \<Rightarrow> tenant_member option" where
  "read_member member =
     do {
       user \<leftarrow> as_str_matching notification_identifier (get_prop member ''userId'');
       role \<leftarrow> as_str_matching (\<lambda>r. r \<in> set MEMBER_ROLES) (get_prop member ''role'');
       status \<leftarrow> as_str_matching (\<lambda>s. s \<in> {''ACTIVE'', ''REMOVED''}) (get_prop member ''status'');
       email_on \<leftarrow> as_bool (get_prop member ''technicalEmailEnabled'');
       telegram_on \<leftarrow> as_bool (get_prop member ''technicalTelegramEnabled'');
       email \<leftarrow> as_endpoint (get_prop member ''emailEndpointId'');
       telegram \<leftarrow> as_endpoint (get_prop member ''telegramEndpointId'');
       Some \<lparr>tm_user = user, tm_active = (status = ''ACTIVE''), tm_email_endpoint = email,
             tm_telegram_endpoint = telegram, tm_email_enabled = email_on,
             tm_telegram_enabled = telegram_on\<rparr>
     }"

text \<open>One channel of one member: the endpoints used so far and the intents so far.\<close>

definition offer ::
  "string \<Rightarrow> string \<Rightarrow> notification_channel \<Rightarrow> bool \<Rightarrow> string option \<Rightarrow>
   string set \<times> recipient_intent list \<Rightarrow> string set \<times> recipient_intent list" where
  "offer event_id user channel enabled endpoint st =
     (case endpoint of
        Some e \<Rightarrow>
          if enabled \<and> e \<notin> fst st
          then (insert e (fst st), snd st @ [recipient event_id user e channel]) else st
      | None \<Rightarrow> st)"

definition offer_member ::
  "string \<Rightarrow> tenant_member \<Rightarrow> string set \<times> recipient_intent list \<Rightarrow>
   string set \<times> recipient_intent list" where
  "offer_member event_id m st =
     (if \<not> tm_active m then st
      else offer event_id (tm_user m) TELEGRAM_CUSTOMER (tm_telegram_enabled m) (tm_telegram_endpoint m)
             (offer event_id (tm_user m) EMAIL_TECHNICAL (tm_email_enabled m) (tm_email_endpoint m) st))"

text \<open>The loop over the members.\<close>

fun offer_members ::
  "string \<Rightarrow> string \<Rightarrow> jsval list \<Rightarrow> string set \<times> recipient_intent list \<Rightarrow>
   notification_error + recipient_intent list" where
  "offer_members event_id org [] st = Inr (snd st)"
| "offer_members event_id org (member # rest) st =
     (if \<not> exact_object member MEMBER_KEYS then Inl INVALID_RECIPIENT_CONTEXT
      else if get_prop member ''organizationId'' \<noteq> JStr org then Inl CROSS_TENANT_CONTEXT
      else case read_member member of
        None \<Rightarrow> Inl INVALID_RECIPIENT_CONTEXT
      | Some m \<Rightarrow> offer_members event_id org rest (offer_member event_id m st))"

definition resolve_tenant ::
  "notification_event_base \<Rightarrow> string \<Rightarrow> jsval \<Rightarrow> notification_error + recipient_intent list" where
  "resolve_tenant ev event_org ctx =
     (case do {
         require (exact_object ctx [''scope'', ''organizationId'', ''members'']);
         require (get_prop ctx ''scope'' = JStr ''TENANT'');
         org \<leftarrow> as_str_matching notification_identifier (get_prop ctx ''organizationId'');
         members \<leftarrow> as_arr (get_prop ctx ''members'');
         require (length members \<le> 1000);
         Some (org, members)
       } of
        None \<Rightarrow> Inl INVALID_RECIPIENT_CONTEXT
      | Some (org, members) \<Rightarrow>
          if org \<noteq> event_org then Inl CROSS_TENANT_CONTEXT
          else offer_members (ev_event_id ev) event_org members ({}, []))"

definition resolve_platform ::
  "notification_event_base \<Rightarrow> jsval \<Rightarrow> notification_error + recipient_intent list" where
  "resolve_platform ev ctx =
     (case do {
         require (exact_object ctx [''scope'', ''opsEndpointId'', ''endpointActive'']);
         require (get_prop ctx ''scope'' = JStr ''PLATFORM'');
         endpoint \<leftarrow> as_str_matching notification_identifier (get_prop ctx ''opsEndpointId'');
         active \<leftarrow> as_bool (get_prop ctx ''endpointActive'');
         Some (endpoint, active)
       } of
        None \<Rightarrow> Inl INVALID_RECIPIENT_CONTEXT
      | Some (endpoint, active) \<Rightarrow>
          Inr (if active
            then [\<lparr>ri_event_id = ev_event_id ev, ri_principal_kind = OPS_CONFIG,
                   ri_principal_id = ''OUTSCAN_OPS'', ri_endpoint_id = endpoint,
                   ri_channel = TELEGRAM_OPS\<rparr>]
            else []))"

fun event_base :: "notification_event \<Rightarrow> notification_event_base" where
  "event_base (ACCOUNT_EVENT b _) = b"
| "event_base (TENANT_EVENT b _) = b"
| "event_base (PLATFORM_EVENT b _) = b"

fun event_scope :: "notification_event \<Rightarrow> notification_scope" where
  "event_scope (ACCOUNT_EVENT _ _) = ACCOUNT_SCOPE"
| "event_scope (TENANT_EVENT _ _) = TENANT_SCOPE"
| "event_scope (PLATFORM_EVENT _ _) = PLATFORM_SCOPE"

definition resolve_notification_recipients ::
  "notification_event \<Rightarrow> jsval \<Rightarrow> notification_error + recipient_intent list" where
  "resolve_notification_recipients ev ctx =
     (case definition_of (ev_event_type (event_base ev)) of
        None \<Rightarrow> Inl UNKNOWN_EVENT_TYPE
      | Some d \<Rightarrow>
          if def_scope d \<noteq> event_scope ev then Inl SCOPE_MISMATCH
          else case ev of
            ACCOUNT_EVENT b user \<Rightarrow> resolve_account b user ctx
          | TENANT_EVENT b org \<Rightarrow> resolve_tenant b org ctx
          | PLATFORM_EVENT b _ \<Rightarrow> resolve_platform b ctx)"

subsection \<open>Who may be told\<close>

text \<open>
  The entitlement on the member as given: active, the channel switched on, and the endpoint set.
\<close>

fun entitled :: "jsval \<Rightarrow> notification_channel \<Rightarrow> string \<Rightarrow> string \<Rightarrow> bool" where
  "entitled m EMAIL_TECHNICAL user e =
     (get_prop m ''userId'' = JStr user \<and> get_prop m ''status'' = JStr ''ACTIVE'' \<and>
      get_prop m ''technicalEmailEnabled'' = JBool True \<and>
      get_prop m ''emailEndpointId'' = JStr e)"
| "entitled m TELEGRAM_CUSTOMER user e =
     (get_prop m ''userId'' = JStr user \<and> get_prop m ''status'' = JStr ''ACTIVE'' \<and>
      get_prop m ''technicalTelegramEnabled'' = JBool True \<and>
      get_prop m ''telegramEndpointId'' = JStr e)"
| "entitled m _ user e = False"

definition entitled_endpoints :: "jsval \<Rightarrow> string set" where
  "entitled_endpoints m = {e. \<exists>c user. entitled m c user e}"

lemma as_endpoint_Some:
  "as_endpoint v = Some ep \<longleftrightarrow>
     (v = JNull \<and> ep = None) \<or> (\<exists>e. v = JStr e \<and> notification_identifier e \<and> ep = Some e)"
  by (auto simp: as_endpoint_def as_str_matching_Some)

lemma read_member_Some:
  assumes "read_member v = Some m"
  shows "get_prop v ''userId'' = JStr (tm_user m)"
    "get_prop v ''technicalEmailEnabled'' = JBool (tm_email_enabled m)"
    "get_prop v ''technicalTelegramEnabled'' = JBool (tm_telegram_enabled m)"
    "tm_active m \<longleftrightarrow> get_prop v ''status'' = JStr ''ACTIVE''"
    "tm_email_endpoint m = Some e \<longleftrightarrow> get_prop v ''emailEndpointId'' = JStr e"
    "tm_telegram_endpoint m = Some e \<longleftrightarrow> get_prop v ''telegramEndpointId'' = JStr e"
  using assms
  by (auto simp: read_member_def guard_simps as_endpoint_Some Option.bind_eq_Some_conv)

lemma entitled_read:
  assumes "read_member v = Some m"
  shows "entitled v EMAIL_TECHNICAL user e \<longleftrightarrow>
      tm_active m \<and> user = tm_user m \<and> tm_email_enabled m \<and> tm_email_endpoint m = Some e"
    "entitled v TELEGRAM_CUSTOMER user e \<longleftrightarrow>
      tm_active m \<and> user = tm_user m \<and> tm_telegram_enabled m \<and> tm_telegram_endpoint m = Some e"
  using read_member_Some [OF assms] by auto

text \<open>What the loop keeps: its intents are sound, use every endpoint once, and it records them.\<close>

definition planned :: "string \<Rightarrow> jsval set \<Rightarrow> string set \<times> recipient_intent list \<Rightarrow> bool" where
  "planned event_id members st \<longleftrightarrow>
     fst st = ri_endpoint_id ` set (snd st) \<and> distinct (map ri_endpoint_id (snd st)) \<and>
     (\<forall>i \<in> set (snd st). ri_event_id i = event_id \<and> ri_principal_kind i = USER_PRINCIPAL \<and>
        (\<exists>m \<in> members. entitled m (ri_channel i) (ri_principal_id i) (ri_endpoint_id i)))"

lemma planned_mono: "planned event_id A st \<Longrightarrow> A \<subseteq> B \<Longrightarrow> planned event_id B st"
  unfolding planned_def by blast

lemma offer_planned:
  assumes "planned event_id A st" and "v \<in> A"
    and "\<And>e. enabled \<Longrightarrow> endpoint = Some e \<Longrightarrow> entitled v channel user e"
  shows "planned event_id A (offer event_id user channel enabled endpoint st)"
    "fst (offer event_id user channel enabled endpoint st) =
       fst st \<union> {e. enabled \<and> endpoint = Some e}"
  using assms by (auto simp: planned_def offer_def recipient_def split: option.splits)

lemma offer_member_planned:
  assumes ok: "planned event_id A st" and v: "v \<in> A" and m: "read_member v = Some m"
  shows "planned event_id A (offer_member event_id m st)"
    "fst (offer_member event_id m st) = fst st \<union> entitled_endpoints v"
proof -
  have all: "e \<in> entitled_endpoints v \<longleftrightarrow>
      tm_active m \<and> (tm_email_enabled m \<and> tm_email_endpoint m = Some e \<or>
        tm_telegram_enabled m \<and> tm_telegram_endpoint m = Some e)" for e
  proof
    assume "e \<in> entitled_endpoints v"
    then obtain c user where c: "entitled v c user e" by (auto simp: entitled_endpoints_def)
    then show "tm_active m \<and> (tm_email_enabled m \<and> tm_email_endpoint m = Some e \<or>
        tm_telegram_enabled m \<and> tm_telegram_endpoint m = Some e)"
      using entitled_read [OF m] by (cases c) (simp_all del: entitled.simps(1,2))
  next
    assume "tm_active m \<and> (tm_email_enabled m \<and> tm_email_endpoint m = Some e \<or>
        tm_telegram_enabled m \<and> tm_telegram_endpoint m = Some e)"
    then have "entitled v EMAIL_TECHNICAL (tm_user m) e \<or> entitled v TELEGRAM_CUSTOMER (tm_user m) e"
      using entitled_read [OF m] by blast
    then show "e \<in> entitled_endpoints v" unfolding entitled_endpoints_def by blast
  qed
  let ?mail = "offer event_id (tm_user m) EMAIL_TECHNICAL (tm_email_enabled m) (tm_email_endpoint m) st"
  show "planned event_id A (offer_member event_id m st)"
  proof (cases "tm_active m")
    case True
    then have "planned event_id A ?mail"
      using ok v entitled_read(1) [OF m] by (intro offer_planned(1)) auto
    then show ?thesis
      unfolding offer_member_def using True v entitled_read(2) [OF m]
      by (simp add: offer_planned(1))
  qed (simp add: offer_member_def ok)
  have step: "fst (offer event_id u c on ep s) = fst s \<union> {e. on \<and> ep = Some e}" for u c on ep s
    by (auto simp: offer_def split: option.splits)
  show "fst (offer_member event_id m st) = fst st \<union> entitled_endpoints v"
    unfolding offer_member_def using all by (auto simp: step)
qed

lemma offer_members_planned:
  assumes "offer_members event_id org ms st = Inr intents" and "planned event_id A st"
  shows "planned event_id (A \<union> set ms) (ri_endpoint_id ` set intents, intents) \<and>
    ri_endpoint_id ` set intents = fst st \<union> (\<Union>v \<in> set ms. entitled_endpoints v) \<and>
    list_all (\<lambda>v. get_prop v ''organizationId'' = JStr org) ms"
  using assms
proof (induction ms arbitrary: st A)
  case Nil
  then show ?case by (auto simp: planned_def)
next
  case (Cons v ms)
  obtain m where m: "read_member v = Some m" "get_prop v ''organizationId'' = JStr org"
      "offer_members event_id org ms (offer_member event_id m st) = Inr intents"
    using Cons.prems(1) by (auto split: if_splits option.splits)
  have st: "planned event_id (insert v A) (offer_member event_id m st)"
      "fst (offer_member event_id m st) = fst st \<union> entitled_endpoints v"
    using offer_member_planned [OF planned_mono [OF Cons.prems(2)] _ m(1), of "insert v A"] by auto
  have "insert v A \<union> set ms = A \<union> set (v # ms)" by auto
  with Cons.IH [OF m(3) st(1)] st(2) m(2) show ?case by (auto simp: Un_assoc)
qed

subsection \<open>The recipients of every event\<close>

lemma resolve_tenant_Inr:
  assumes "resolve_tenant b org ctx = Inr intents"
  obtains ms where "get_prop ctx ''members'' = JArr ms" "length ms \<le> 1000"
    "get_prop ctx ''organizationId'' = JStr org"
    "offer_members (ev_event_id b) org ms ({}, []) = Inr intents"
  using assms
  by (auto simp: resolve_tenant_def guard_simps Option.bind_eq_Some_conv
      split: option.splits if_splits)

lemma tenant_intents:
  assumes "resolve_tenant b org ctx = Inr intents" and "get_prop ctx ''members'' = JArr ms"
  shows "planned (ev_event_id b) (set ms) (ri_endpoint_id ` set intents, intents)"
    "ri_endpoint_id ` set intents = (\<Union>m \<in> set ms. entitled_endpoints m)"
    "get_prop ctx ''organizationId'' = JStr org"
    "list_all (\<lambda>m. get_prop m ''organizationId'' = JStr org) ms"
proof -
  obtain ms' where "get_prop ctx ''members'' = JArr ms'"
    and org: "get_prop ctx ''organizationId'' = JStr org"
    and run: "offer_members (ev_event_id b) org ms' ({}, []) = Inr intents"
    using assms(1) by (rule resolve_tenant_Inr)
  then have run: "offer_members (ev_event_id b) org ms ({}, []) = Inr intents"
    using assms(2) by simp
  have "planned (ev_event_id b) {} ({}, [])" by (simp add: planned_def)
  from offer_members_planned [OF run this] org show
    "planned (ev_event_id b) (set ms) (ri_endpoint_id ` set intents, intents)"
    "ri_endpoint_id ` set intents = (\<Union>m \<in> set ms. entitled_endpoints m)"
    "get_prop ctx ''organizationId'' = JStr org"
    "list_all (\<lambda>m. get_prop m ''organizationId'' = JStr org) ms" by auto
qed

text \<open>C38: A tenant event is planned only from members of its own organization: every member of the
  context belongs to it, every intent goes to an active member who switched that channel on, at
  the endpoint that member registered for it, no endpoint gets the event twice, and the
  endpoints addressed are exactly those the active members switched on.
\<close>

theorem tenant_recipients_exact:
  assumes "resolve_notification_recipients (TENANT_EVENT b org) ctx = Inr intents"
    and "get_prop ctx ''members'' = JArr ms"
  shows "list_all (\<lambda>m. get_prop m ''organizationId'' = JStr org) ms \<and>
    list_all (\<lambda>i. ri_event_id i = ev_event_id b \<and> ri_principal_kind i = USER_PRINCIPAL \<and>
      list_ex (\<lambda>m. entitled m (ri_channel i) (ri_principal_id i) (ri_endpoint_id i)) ms) intents \<and>
    distinct (map ri_endpoint_id intents) \<and>
    ri_endpoint_id ` set intents = (\<Union>m \<in> set ms. entitled_endpoints m)"
proof -
  have "resolve_tenant b org ctx = Inr intents"
    using assms(1)
    by (auto simp: resolve_notification_recipients_def split: option.splits if_splits)
  note t = tenant_intents [OF this assms(2)]
  show ?thesis
    using t by (auto simp: planned_def list_all_iff list_ex_iff)
qed

definition sample_member :: "string \<Rightarrow> string \<Rightarrow> string \<Rightarrow> jsval" where
  "sample_member user status email =
     JObj [(''organizationId'', JStr ''org_1''), (''userId'', JStr user), (''role'', JStr ''OWNER''),
       (''status'', JStr status), (''emailEndpointId'', JStr email), (''telegramEndpointId'', JNull),
       (''technicalEmailEnabled'', JBool True), (''technicalTelegramEnabled'', JBool True)]"

definition sample_members :: "jsval list" where
  "sample_members =
     [sample_member ''u1'' ''ACTIVE'' ''e1'', sample_member ''u2'' ''REMOVED'' ''e2'',
      sample_member ''u3'' ''ACTIVE'' ''e1'']"

definition sample_tenant_context :: jsval where
  "sample_tenant_context =
     JObj [(''scope'', JStr ''TENANT''), (''organizationId'', JStr ''org_1''),
       (''members'', JArr sample_members)]"

definition sample_event_base :: notification_event_base where
  "sample_event_base =
     \<lparr>ev_event_id = ''event_1'', ev_event_type = FINDING_CREATED, ev_occurred_at = 5,
      ev_priority = NP_HIGH, ev_subject_reference_id = ''f1''\<rparr>"

lemma sample_tenant_run:
  "resolve_notification_recipients (TENANT_EVENT sample_event_base ''org_1'') sample_tenant_context =
     Inr [recipient ''event_1'' ''u1'' ''e1'' EMAIL_TECHNICAL]"
  "get_prop sample_tenant_context ''members'' = JArr sample_members"
  by code_simp+

theorem tenant_recipients_exact_witness:
  "(\<Union>m \<in> set sample_members. entitled_endpoints m) = {''e1''}"
  using tenant_recipients_exact [OF sample_tenant_run] by (simp add: recipient_def)

end
