(* ===== verification/Delivery_Machine.thy ===== *)
theory Delivery_Machine
  imports Notifications Digests Decimal Hostname
begin

section \<open>Delivering a notification\<close>

text \<open>
  Models \<^verbatim>\<open>apps/api/src/notifications/delivery-fsm.ts\<close>, \<^verbatim>\<open>idempotency.ts\<close>,
  \<^verbatim>\<open>content.ts\<close> and \<^verbatim>\<open>telegram-security.ts\<close>.  A delivery is a row
  (\<open>delivery_snapshot\<close>) that internal decisions and the provider's webhooks move; both decide on
  the stored value they are given, so a run feeds every applied row back as a value.
\<close>

subsection \<open>Statuses\<close>

datatype delivery_status =
    DS_QUEUED | DS_SENDING | DS_ACCEPTED | DS_DELIVERED | DS_RETRY_SCHEDULED | DS_UNKNOWN
  | DS_FAILED_PERMANENT | DS_BOUNCED | DS_COMPLAINED | DS_SUPPRESSED

definition NOTIFICATION_DELIVERY_STATUSES :: "(string \<times> delivery_status) list" where
  "NOTIFICATION_DELIVERY_STATUSES =
    [(''QUEUED'', DS_QUEUED), (''SENDING'', DS_SENDING), (''ACCEPTED'', DS_ACCEPTED),
     (''DELIVERED'', DS_DELIVERED), (''RETRY_SCHEDULED'', DS_RETRY_SCHEDULED),
     (''UNKNOWN'', DS_UNKNOWN), (''FAILED_PERMANENT'', DS_FAILED_PERMANENT),
     (''BOUNCED'', DS_BOUNCED), (''COMPLAINED'', DS_COMPLAINED), (''SUPPRESSED'', DS_SUPPRESSED)]"

record delivery_snapshot =
  ds_status :: delivery_status
  ds_attempts :: int
  ds_events :: "string list"

datatype delivery_decision = DELIVERY_APPLY delivery_snapshot | ACK_REPLAY | ACK_STALE | DELIVERY_DENY

fun ALLOWED_DELIVERY :: "delivery_status \<Rightarrow> delivery_status list" where
  "ALLOWED_DELIVERY DS_QUEUED = [DS_SENDING, DS_SUPPRESSED]"
| "ALLOWED_DELIVERY DS_SENDING =
     [DS_ACCEPTED, DS_UNKNOWN, DS_RETRY_SCHEDULED, DS_FAILED_PERMANENT]"
| "ALLOWED_DELIVERY DS_ACCEPTED = [DS_DELIVERED, DS_BOUNCED, DS_COMPLAINED]"
| "ALLOWED_DELIVERY DS_DELIVERED = [DS_COMPLAINED]"
| "ALLOWED_DELIVERY DS_RETRY_SCHEDULED = [DS_SENDING, DS_SUPPRESSED]"
| "ALLOWED_DELIVERY DS_UNKNOWN =
     [DS_ACCEPTED, DS_DELIVERED, DS_RETRY_SCHEDULED, DS_FAILED_PERMANENT, DS_BOUNCED, DS_COMPLAINED]"
| "ALLOWED_DELIVERY DS_FAILED_PERMANENT = []"
| "ALLOWED_DELIVERY DS_BOUNCED = []"
| "ALLOWED_DELIVERY DS_COMPLAINED = []"
| "ALLOWED_DELIVERY DS_SUPPRESSED = []"

definition PROVIDER_STATUSES :: "delivery_status list" where
  "PROVIDER_STATUSES =
    [DS_ACCEPTED, DS_DELIVERED, DS_BOUNCED, DS_COMPLAINED, DS_FAILED_PERMANENT]"

subsection \<open>Decisions\<close>

definition SNAPSHOT_KEYS :: "string list" where
  "SNAPSHOT_KEYS = [''status'', ''attemptCount'', ''processedProviderEventIds'']"

definition read_snapshot :: "jsval \<Rightarrow> delivery_snapshot option" where
  "read_snapshot v =
     do {
       require (exact_object v SNAPSHOT_KEYS);
       status \<leftarrow> as_name_of NOTIFICATION_DELIVERY_STATUSES (get_prop v ''status'');
       attempts \<leftarrow> as_bounded 0 100 (get_prop v ''attemptCount'');
       ids \<leftarrow> as_arr (get_prop v ''processedProviderEventIds'');
       require (length ids \<le> 1000);
       events \<leftarrow> all_some (as_str_matching notification_identifier) ids;
       require (distinct events);
       Some \<lparr>ds_status = status, ds_attempts = attempts, ds_events = events\<rparr>
     }"

definition decide_internal_transition ::
  "jsval \<Rightarrow> jsval \<Rightarrow> notification_error + delivery_decision" where
  "decide_internal_transition current proposed =
     (case do {
         snapshot \<leftarrow> read_snapshot current;
         status \<leftarrow> as_name_of NOTIFICATION_DELIVERY_STATUSES proposed;
         require (status \<notin> set PROVIDER_STATUSES);
         Some (snapshot, status)
       } of
        None \<Rightarrow> Inl INVALID_DELIVERY_TRANSITION
      | Some (s, status) \<Rightarrow>
          if status \<notin> set (ALLOWED_DELIVERY (ds_status s)) then Inr DELIVERY_DENY
          else if status = DS_SENDING \<and> ds_attempts s \<ge> 100 then Inr DELIVERY_DENY
          else Inr (DELIVERY_APPLY
            \<lparr>ds_status = status, ds_attempts = ds_attempts s + (if status = DS_SENDING then 1 else 0),
             ds_events = ds_events s\<rparr>))"

definition decide_provider_transition ::
  "jsval \<Rightarrow> jsval \<Rightarrow> jsval \<Rightarrow> notification_error + delivery_decision" where
  "decide_provider_transition current event_id proposed =
     (case do {
         snapshot \<leftarrow> read_snapshot current;
         eid \<leftarrow> as_str_matching notification_identifier event_id;
         status \<leftarrow> as_name_of NOTIFICATION_DELIVERY_STATUSES proposed;
         require (status \<in> set PROVIDER_STATUSES);
         Some (snapshot, eid, status)
       } of
        None \<Rightarrow> Inl INVALID_DELIVERY_TRANSITION
      | Some (s, eid, status) \<Rightarrow>
          if eid \<in> set (ds_events s) then Inr ACK_REPLAY
          else if status \<notin> set (ALLOWED_DELIVERY (ds_status s)) then Inr ACK_STALE
          else if length (ds_events s) \<ge> 1000 then Inr DELIVERY_DENY
          else Inr (DELIVERY_APPLY
            \<lparr>ds_status = status, ds_attempts = ds_attempts s, ds_events = ds_events s @ [eid]\<rparr>))"

subsection \<open>Idempotency key\<close>

text \<open>\<^verbatim>\<open>/^[a-z][a-z0-9._-]{0,127}$/u\<close>\<close>

definition template_id_pattern :: "string \<Rightarrow> bool" where
  "template_id_pattern s \<longleftrightarrow>
     (case s of [] \<Rightarrow> False
      | c # cs \<Rightarrow> is_lower c \<and> length cs \<le> 127 \<and>
          list_all (\<lambda>d. is_lower d \<or> is_digit d \<or> d \<in> set ''._-'') cs)"

record delivery_identity =
  di_event_id :: string
  di_endpoint_id :: string
  di_channel :: string
  di_template_id :: string
  di_template_version :: int

definition read_identity :: "jsval \<Rightarrow> delivery_identity option" where
  "read_identity input =
     do {
       require (exact_object input
         [''eventId'', ''endpointId'', ''channel'', ''templateId'', ''templateVersion'']);
       event \<leftarrow> as_str_matching notification_identifier (get_prop input ''eventId'');
       endpoint \<leftarrow> as_str_matching notification_identifier (get_prop input ''endpointId'');
       channel \<leftarrow> as_str_matching (\<lambda>c. c \<in> set (map fst NOTIFICATION_CHANNELS))
         (get_prop input ''channel'');
       template \<leftarrow> as_str_matching template_id_pattern (get_prop input ''templateId'');
       version \<leftarrow> as_bounded 1 1000000 (get_prop input ''templateVersion'');
       Some \<lparr>di_event_id = event, di_endpoint_id = endpoint, di_channel = channel,
             di_template_id = template, di_template_version = version\<rparr>
     }"

text \<open>\<^verbatim>\<open>encodedField\<close>; \<^verbatim>\<open>writeUInt32BE\<close> throws past 32 bits, which no field reaches.\<close>

definition encoded_field :: "string \<Rightarrow> bytes" where
  "encoded_field s = prefixed (utf8 s)"

definition delivery_preimage :: "delivery_identity \<Rightarrow> bytes" where
  "delivery_preimage d =
     encoded_field ''OUTSCAN:NOTIFICATION_DELIVERY:v1'' @ encoded_field (di_event_id d) @
     encoded_field (di_endpoint_id d) @ encoded_field (di_channel d) @
     encoded_field (di_template_id d) @ encoded_field (to_digits 10 (di_template_version d))"

definition derive_notification_delivery_key :: "jsval \<Rightarrow> notification_error + string" where
  "derive_notification_delivery_key input =
     (case read_identity input of
        None \<Rightarrow> Inl INVALID_IDEMPOTENCY_INPUT
      | Some d \<Rightarrow> Inr (encode_base64url (sha256 (delivery_preimage d))))"

subsection \<open>Content\<close>

record external_content =
  ec_headline :: string
  ec_asset_hostname :: "string option"
  ec_risk :: string
  ec_status :: string
  ec_action :: string
  ec_action_url :: string

definition HEADLINES :: "string list" where
  "HEADLINES =
    [''ACCOUNT_ACTION_REQUIRED'', ''SECURITY_RISK_DETECTED'', ''MONITORING_ATTENTION_REQUIRED'',
     ''PLATFORM_ATTENTION_REQUIRED'']"

definition CONTENT_ACTIONS :: "string list" where
  "CONTENT_ACTIONS = [''OPEN_OUTSCAN'', ''VERIFY_EMAIL'', ''REVIEW_SECURITY'']"

definition RISK_LEVELS :: "string list" where
  "RISK_LEVELS = [''CRITICAL'', ''HIGH'', ''MEDIUM'', ''LOW'', ''NONE'']"

definition STATUS_CODES :: "string list" where
  "STATUS_CODES = [''NEW'', ''REOPENED'', ''DEGRADED'', ''FAILED'', ''PENDING'']"

text \<open>
  \<^verbatim>\<open>/^\/(?:[a-z0-9_-]+\/?){1,12}$/u\<close>: a slash, then one to twelve non-empty
  segments, separated by one slash each and perhaps followed by one.
\<close>

definition safe_path :: "string \<Rightarrow> bool" where
  "safe_path s \<longleftrightarrow>
     (case s of [] \<Rightarrow> False
      | c # cs \<Rightarrow>
          c = CHR ''/'' \<and>
          (let parts = split_on (CHR ''/'') cs;
               segments = (if last parts = [] then butlast parts else parts)
           in segments \<noteq> [] \<and> length segments \<le> 12 \<and>
              list_all (\<lambda>p. p \<noteq> [] \<and>
                list_all (\<lambda>d. is_lower d \<or> is_digit d \<or> d = CHR ''_'' \<or> d = CHR ''-'') p) segments))"

text \<open>
  \<^verbatim>\<open>new URL(path, "https://outscan.ru").toString()\<close> on a safe path: its characters are
  neither escaped nor dots, and it does not start with two slashes.
\<close>

definition action_url :: "string \<Rightarrow> string" where
  "action_url path = ''https://outscan.ru'' @ path"

definition CONTENT_KEYS :: "string list" where
  "CONTENT_KEYS = [''headline'', ''risk'', ''status'', ''action'', ''path'']"

definition read_asset_hostname ::
  "(string \<Rightarrow> string) \<Rightarrow> jsval \<Rightarrow> string option option" where
  "read_asset_hostname to_ascii input =
     (if ''assetHostname'' \<notin> set (own_keys input) then Some None
      else case canonicalize_hostname to_ascii (get_prop input ''assetHostname'') of
        Inl e \<Rightarrow> None
      | Inr host \<Rightarrow> if JStr host \<noteq> get_prop input ''assetHostname'' then None else Some (Some host))"

definition create_external_content ::
  "(string \<Rightarrow> string) \<Rightarrow> jsval \<Rightarrow> notification_error + external_content" where
  "create_external_content to_ascii input =
     (case do {
         require (exact_object input
           (if ''assetHostname'' \<in> set (own_keys input) then CONTENT_KEYS @ [''assetHostname'']
            else CONTENT_KEYS));
         headline \<leftarrow> as_str_matching (\<lambda>s. s \<in> set HEADLINES) (get_prop input ''headline'');
         risk \<leftarrow> as_str_matching (\<lambda>s. s \<in> set RISK_LEVELS) (get_prop input ''risk'');
         status \<leftarrow> as_str_matching (\<lambda>s. s \<in> set STATUS_CODES) (get_prop input ''status'');
         action \<leftarrow> as_str_matching (\<lambda>s. s \<in> set CONTENT_ACTIONS) (get_prop input ''action'');
         path \<leftarrow> as_str_matching safe_path (get_prop input ''path'');
         host \<leftarrow> read_asset_hostname to_ascii input;
         Some \<lparr>ec_headline = headline, ec_asset_hostname = host, ec_risk = risk,
               ec_status = status, ec_action = action, ec_action_url = action_url path\<rparr>
       } of
        None \<Rightarrow> Inl INVALID_CONTENT
      | Some c \<Rightarrow> Inr c)"

subsection \<open>Telegram\<close>

record telegram_binding =
  tb_user_id :: string
  tb_token_hash :: string
  tb_expires_at :: int
  tb_used_at :: "int option"
  tb_revoked_at :: "int option"

datatype telegram_decision = TELEGRAM_BIND string string | TELEGRAM_DENY

definition binding_token_pattern :: "string \<Rightarrow> bool" where
  "binding_token_pattern s \<longleftrightarrow> length s = 43 \<and> list_all is_base64url s"

definition webhook_secret_pattern :: "string \<Rightarrow> bool" where
  "webhook_secret_pattern s \<longleftrightarrow> 1 \<le> length s \<and> length s \<le> 256 \<and> list_all is_base64url s"

text \<open>\<^verbatim>\<open>/^[1-9][0-9]{0,19}$/u\<close>, at most the largest signed 64-bit number.\<close>

definition telegram_user_pattern :: "string \<Rightarrow> bool" where
  "telegram_user_pattern s \<longleftrightarrow>
     (case s of [] \<Rightarrow> False
      | c # cs \<Rightarrow> is_digit c \<and> c \<noteq> CHR ''0'' \<and> length cs \<le> 19 \<and> list_all is_digit cs) \<and>
     digits_value 10 s \<le> 9223372036854775807"

definition telegram_token_hash :: "string \<Rightarrow> string" where
  "telegram_token_hash token =
     encode_base64url (sha256 (ascii_bytes (''OUTSCAN:TELEGRAM_BINDING:v1'' @ [CHR 0x00]) @
       ascii_bytes token))"

text \<open>
  \<^verbatim>\<open>issueTelegramBindingToken\<close>: an absent lifetime is 600 seconds, and \<open>entropy\<close> is what
  \<^verbatim>\<open>randomBytesFn(32)\<close> returned.
\<close>

definition issue_telegram_binding ::
  "jsval \<Rightarrow> jsval \<Rightarrow> jsval \<Rightarrow> bytes \<Rightarrow> notification_error + (string \<times> telegram_binding)" where
  "issue_telegram_binding user now ttl entropy =
     (case do {
         uid \<leftarrow> as_str_matching notification_identifier user;
         t \<leftarrow> as_bounded 0 MAX_SAFE_INTEGER now;
         l \<leftarrow> as_bounded 60 900 (if ttl = JUndef then JNum 600 else ttl);
         require (length entropy = 32);
         Some (uid, t + l)
       } of
        None \<Rightarrow> Inl INVALID_TELEGRAM_CONFIGURATION
      | Some (uid, expires) \<Rightarrow>
          Inr (encode_base64url entropy,
            \<lparr>tb_user_id = uid, tb_token_hash = telegram_token_hash (encode_base64url entropy),
             tb_expires_at = expires, tb_used_at = None, tb_revoked_at = None\<rparr>))"

definition verify_telegram_binding ::
  "jsval \<Rightarrow> jsval \<Rightarrow> jsval \<Rightarrow> jsval \<Rightarrow> telegram_decision" where
  "verify_telegram_binding token telegram_user binding now =
     (case do {
         tok \<leftarrow> as_str_matching binding_token_pattern token;
         tg \<leftarrow> as_str_matching telegram_user_pattern telegram_user;
         require (exact_object binding
           [''userId'', ''tokenHash'', ''expiresAtEpochSeconds'', ''usedAtEpochSeconds'',
            ''revokedAtEpochSeconds'']);
         uid \<leftarrow> as_str_matching notification_identifier (get_prop binding ''userId'');
         hash \<leftarrow> as_str_matching binding_token_pattern (get_prop binding ''tokenHash'');
         expires \<leftarrow> as_bounded 0 MAX_SAFE_INTEGER (get_prop binding ''expiresAtEpochSeconds'');
         t \<leftarrow> as_bounded 0 MAX_SAFE_INTEGER now;
         require (t < expires);
         require (get_prop binding ''usedAtEpochSeconds'' = JNull);
         require (get_prop binding ''revokedAtEpochSeconds'' = JNull);
         Some (tok, tg, uid, hash)
       } of
        None \<Rightarrow> TELEGRAM_DENY
      | Some (tok, tg, uid, hash) \<Rightarrow>
          if telegram_token_hash tok \<noteq> hash then TELEGRAM_DENY else TELEGRAM_BIND uid tg)"

definition verify_telegram_webhook_secret :: "jsval \<Rightarrow> jsval \<Rightarrow> bool" where
  "verify_telegram_webhook_secret presented configured =
     (case (as_str_matching webhook_secret_pattern presented,
            as_str_matching webhook_secret_pattern configured) of
        (Some a, Some b) \<Rightarrow> ascii_bytes a = ascii_bytes b
      | _ \<Rightarrow> False)"

subsection \<open>A delivery's history\<close>

text \<open>What the row is stored and read back as.\<close>

definition snapshot_value :: "delivery_snapshot \<Rightarrow> jsval" where
  "snapshot_value s =
     JObj [(''status'', JStr (case find (\<lambda>p. snd p = ds_status s) NOTIFICATION_DELIVERY_STATUSES of
              Some p \<Rightarrow> fst p | None \<Rightarrow> [])),
       (''attemptCount'', JNum (ds_attempts s)),
       (''processedProviderEventIds'', JArr (map JStr (ds_events s)))]"

datatype delivery_input = INTERNAL_INPUT jsval | PROVIDER_INPUT jsval jsval

fun decide_delivery ::
  "delivery_snapshot \<Rightarrow> delivery_input \<Rightarrow> notification_error + delivery_decision" where
  "decide_delivery s (INTERNAL_INPUT status) = decide_internal_transition (snapshot_value s) status"
| "decide_delivery s (PROVIDER_INPUT eid status) =
     decide_provider_transition (snapshot_value s) eid status"

text \<open>Every row a delivery has, from a first one: only an applied decision replaces the row.\<close>

fun delivery_history :: "delivery_snapshot \<Rightarrow> delivery_input list \<Rightarrow> delivery_snapshot list" where
  "delivery_history s [] = [s]"
| "delivery_history s (i # is) =
     (case decide_delivery s i of
        Inr (DELIVERY_APPLY s') \<Rightarrow> s # delivery_history s' is
      | _ \<Rightarrow> delivery_history s is)"

definition queued_delivery :: delivery_snapshot where
  "queued_delivery = \<lparr>ds_status = DS_QUEUED, ds_attempts = 0, ds_events = []\<rparr>"

definition delivery_wf :: "delivery_snapshot \<Rightarrow> bool" where
  "delivery_wf s \<longleftrightarrow>
     0 \<le> ds_attempts s \<and> ds_attempts s \<le> 100 \<and> length (ds_events s) \<le> 1000 \<and>
     list_all notification_identifier (ds_events s) \<and> distinct (ds_events s)"

text \<open>A delivery the provider or the system has settled is not sent again.\<close>

definition settled :: "delivery_snapshot \<Rightarrow> bool" where
  "settled s \<longleftrightarrow> ds_status s \<in> set PROVIDER_STATUSES \<or> ds_status s = DS_SUPPRESSED"

fun delivery_phase :: "delivery_status \<Rightarrow> int" where
  "delivery_phase DS_QUEUED = 2"
| "delivery_phase DS_SENDING = 0"
| "delivery_phase DS_UNKNOWN = 1"
| "delivery_phase DS_RETRY_SCHEDULED = 2"
| "delivery_phase DS_ACCEPTED = 2"
| "delivery_phase DS_DELIVERED = 3"
| "delivery_phase DS_SUPPRESSED = 3"
| "delivery_phase _ = 4"

definition delivery_rank :: "delivery_snapshot \<Rightarrow> int" where
  "delivery_rank s = 3 * ds_attempts s + delivery_phase (ds_status s)"

lemma all_some_strings:
  "list_all p xs \<Longrightarrow> all_some (as_str_matching p) (map JStr xs) = Some xs"
  by (induction xs) (auto simp: as_str_matching_def)

lemma read_snapshot_value [simp]:
  assumes "delivery_wf s"
  shows "read_snapshot (snapshot_value s) = Some s"
proof -
  have "as_name_of NOTIFICATION_DELIVERY_STATUSES (get_prop (snapshot_value s) ''status'') =
      Some (ds_status s)"
    by (cases "ds_status s")
      (simp_all add: snapshot_value_def as_name_of_def NOTIFICATION_DELIVERY_STATUSES_def)
  moreover have "exact_object (snapshot_value s) SNAPSHOT_KEYS"
    by (simp add: exact_object_def snapshot_value_def SNAPSHOT_KEYS_def)
  ultimately show ?thesis
    using assms
    by (simp add: read_snapshot_def delivery_wf_def snapshot_value_def as_bounded_def safe_int_def
        MAX_SAFE_INTEGER_def all_some_strings)
qed

inductive delivery_step :: "delivery_snapshot \<Rightarrow> delivery_snapshot \<Rightarrow> bool" where
  internal_step: "status \<in> set (ALLOWED_DELIVERY (ds_status s)) \<Longrightarrow>
    status \<notin> set PROVIDER_STATUSES \<Longrightarrow> status = DS_SENDING \<longrightarrow> ds_attempts s < 100 \<Longrightarrow>
    delivery_step s \<lparr>ds_status = status,
      ds_attempts = ds_attempts s + (if status = DS_SENDING then 1 else 0), ds_events = ds_events s\<rparr>"
| provider_step: "status \<in> set (ALLOWED_DELIVERY (ds_status s)) \<Longrightarrow>
    status \<in> set PROVIDER_STATUSES \<Longrightarrow> eid \<notin> set (ds_events s) \<Longrightarrow> notification_identifier eid \<Longrightarrow>
    length (ds_events s) < 1000 \<Longrightarrow>
    delivery_step s \<lparr>ds_status = status, ds_attempts = ds_attempts s, ds_events = ds_events s @ [eid]\<rparr>"

inductive_cases delivery_stepE: "delivery_step s s'"

text \<open>The decisions apply exactly the steps of the relation.\<close>

lemma decide_delivery_step:
  assumes "delivery_wf s" and "decide_delivery s i = Inr (DELIVERY_APPLY s')"
  shows "delivery_step s s'"
proof (cases i)
  case (INTERNAL_INPUT v)
  then obtain status where "status \<in> set (ALLOWED_DELIVERY (ds_status s))"
      "status \<notin> set PROVIDER_STATUSES" "status = DS_SENDING \<longrightarrow> ds_attempts s < 100"
      "s' = \<lparr>ds_status = status,
        ds_attempts = ds_attempts s + (if status = DS_SENDING then 1 else 0), ds_events = ds_events s\<rparr>"
    using assms
    by (auto simp: decide_internal_transition_def Option.bind_eq_Some_conv
        split: option.splits if_splits)
  note step = this
  show ?thesis unfolding step(4) by (rule internal_step [OF step(1-3)])
next
  case (PROVIDER_INPUT e v)
  then show ?thesis
    using assms
    by (auto simp: decide_provider_transition_def Option.bind_eq_Some_conv as_str_matching_Some
        split: option.splits if_splits intro!: provider_step)
qed

lemma delivery_step_props:
  assumes "delivery_step s s'" and "delivery_wf s"
  shows "delivery_wf s'" "delivery_rank s < delivery_rank s'"
    "ds_attempts s' = ds_attempts s + (if ds_status s' = DS_SENDING then 1 else 0)"
    "length (ds_events s') =
       length (ds_events s) + (if ds_status s' \<in> set PROVIDER_STATUSES then 1 else 0)"
    "settled s \<Longrightarrow> settled s'" "set (ds_events s) \<subseteq> set (ds_events s')"
  using assms
  by (cases rule: delivery_step.cases; cases "ds_status s";
      auto simp: delivery_wf_def delivery_rank_def settled_def PROVIDER_STATUSES_def)+

subsection \<open>Runs\<close>

lemma history_not_Nil [simp]: "delivery_history s is \<noteq> []"
  by (induction s "is" rule: delivery_history.induct) (auto split: sum.splits delivery_decision.splits)

text \<open>A history is a chain of steps.\<close>

fun step_chain :: "delivery_snapshot list \<Rightarrow> bool" where
  "step_chain (s # s' # h) \<longleftrightarrow> delivery_step s s' \<and> step_chain (s' # h)"
| "step_chain _ \<longleftrightarrow> True"

lemma history_hd: "hd (delivery_history s is) = s"
  by (induction s "is" rule: delivery_history.induct) (auto split: sum.splits delivery_decision.splits)

lemma history_chain: "delivery_wf s \<Longrightarrow> step_chain (delivery_history s inputs)"
proof (induction inputs arbitrary: s)
  case (Cons i inputs)
  show ?case
  proof (cases "\<exists>s'. decide_delivery s i = Inr (DELIVERY_APPLY s')")
    case True
    then obtain s' where s': "decide_delivery s i = Inr (DELIVERY_APPLY s')" by blast
    then have step: "delivery_step s s'" by (rule decide_delivery_step [OF Cons.prems])
    have "step_chain (delivery_history s' inputs)"
      by (rule Cons.IH [OF delivery_step_props(1) [OF step Cons.prems]])
    then show ?thesis
      using s' step history_hd [of s' inputs] by (cases "delivery_history s' inputs") auto
  next
    case False
    then have "delivery_history s (i # inputs) = delivery_history s inputs"
      by (auto split: sum.splits delivery_decision.splits)
    then show ?thesis using Cons by simp
  qed
qed simp

lemma step_chain_bounds:
  assumes "step_chain (s # h)" and "delivery_wf s"
  shows "delivery_wf (last (s # h)) \<and> int (length h) \<le> delivery_rank (last (s # h)) - delivery_rank s \<and>
    ds_attempts (last (s # h)) =
      ds_attempts s + int (length (filter (\<lambda>t. ds_status t = DS_SENDING) h)) \<and>
    length (ds_events (last (s # h))) =
      length (ds_events s) + length (filter (\<lambda>t. ds_status t \<in> set PROVIDER_STATUSES) h) \<and>
    (settled s \<longrightarrow> list_all settled h)"
  using assms
proof (induction h arbitrary: s)
  case (Cons s' h)
  then have step: "delivery_step s s'" and chain: "step_chain (s' # h)" by simp_all
  note p = delivery_step_props [OF step Cons.prems(2)]
  from Cons.IH [OF chain p(1)] p(2-5) show ?case by auto
qed simp

lemma rank_bounds: "delivery_wf s \<Longrightarrow> delivery_rank s \<le> 304"
  by (cases "ds_status s") (simp_all add: delivery_wf_def delivery_rank_def)

lemma step_chain_drop: "step_chain h \<Longrightarrow> step_chain (drop n h)"
proof (induction h arbitrary: n rule: step_chain.induct)
  case (1 s s' h)
  then show ?case by (cases n) simp_all
qed (simp_all add: drop_Cons')

lemma step_chain_wf: "step_chain h \<Longrightarrow> delivery_wf (hd h) \<Longrightarrow> list_all delivery_wf h"
  by (induction h rule: step_chain.induct) (auto dest: delivery_step_props(1))

text \<open>C39: A delivery settles and is not sent twice after it settled.  Whatever decisions and
  provider webhooks arrive, in any order and with any repetition, the row changes at most 302
  times; it is handed to the provider at most 100 times, counted exactly by its attempt count;
  every provider event moves it at most once, and each move by the provider is recorded; and
  from the first row that is accepted, delivered, bounced, complained, failed or suppressed it
  is never queued for sending again.
\<close>

theorem delivery_bounded:
  assumes "h = delivery_history queued_delivery inputs"
  shows "length h \<le> 303 \<and>
    ds_attempts (last h) = int (length (filter (\<lambda>s. ds_status s = DS_SENDING) h)) \<and>
    ds_attempts (last h) \<le> 100 \<and>
    distinct (ds_events (last h)) \<and>
    length (ds_events (last h)) = length (filter (\<lambda>s. ds_status s \<in> set PROVIDER_STATUSES) h) \<and>
    (\<forall>i < length h. settled (h ! i) \<longrightarrow> list_all settled (drop i h))"
proof -
  have wf: "delivery_wf queued_delivery" by (simp add: delivery_wf_def queued_delivery_def)
  obtain t where t: "h = queued_delivery # t"
    using assms history_hd [of queued_delivery inputs] by (metis history_not_Nil list.collapse)
  have chain: "step_chain (queued_delivery # t)" using history_chain [OF wf, of inputs] assms t by simp
  note all = step_chain_wf [OF chain] and b = step_chain_bounds [OF chain wf]
  have "list_all settled (drop i h)" if i: "i < length h" "settled (h ! i)" for i
  proof -
    have d: "drop i h = h ! i # drop (Suc i) h" using i(1) by (rule Cons_nth_drop_Suc [symmetric])
    have "step_chain (h ! i # drop (Suc i) h)" using step_chain_drop [OF chain, of i] t d by simp
    moreover have "delivery_wf (h ! i)" using all wf i(1) t by (simp add: list_all_length)
    ultimately show ?thesis using step_chain_bounds i(2) d by auto
  qed
  moreover have "length t \<le> 302"
    using b rank_bounds [of "last (queued_delivery # t)"]
    by (simp add: delivery_rank_def queued_delivery_def)
  ultimately show ?thesis
    using b t by (auto simp: queued_delivery_def delivery_wf_def PROVIDER_STATUSES_def)
qed

definition sample_delivery_inputs :: "delivery_input list" where
  "sample_delivery_inputs =
     [INTERNAL_INPUT (JStr ''SENDING''), INTERNAL_INPUT (JStr ''UNKNOWN''),
      PROVIDER_INPUT (JStr ''p1'') (JStr ''DELIVERED''), PROVIDER_INPUT (JStr ''p1'') (JStr ''BOUNCED''),
      INTERNAL_INPUT (JStr ''RETRY_SCHEDULED''), PROVIDER_INPUT (JStr ''p2'') (JStr ''COMPLAINED'')]"

lemma sample_delivery_run:
  "map ds_status (delivery_history queued_delivery sample_delivery_inputs) =
     [DS_QUEUED, DS_SENDING, DS_UNKNOWN, DS_DELIVERED, DS_COMPLAINED]"
  by code_simp

theorem delivery_bounded_witness:
  "settled (delivery_history queued_delivery sample_delivery_inputs ! 4)"
  using delivery_bounded [OF refl, of sample_delivery_inputs] sample_delivery_run
  by (auto simp: settled_def PROVIDER_STATUSES_def dest: arg_cong [of _ _ "\<lambda>l. l ! 4"])

subsection \<open>Telegram binding\<close>

definition binding_value :: "telegram_binding \<Rightarrow> jsval" where
  "binding_value b =
     JObj [(''userId'', JStr (tb_user_id b)), (''tokenHash'', JStr (tb_token_hash b)),
       (''expiresAtEpochSeconds'', JNum (tb_expires_at b)),
       (''usedAtEpochSeconds'', (case tb_used_at b of None \<Rightarrow> JNull | Some t \<Rightarrow> JNum t)),
       (''revokedAtEpochSeconds'', (case tb_revoked_at b of None \<Rightarrow> JNull | Some t \<Rightarrow> JNum t))]"

lemma base64url_of_32:
  "length bs = 32 \<Longrightarrow> binding_token_pattern (encode_base64url bs)"
  using encode_base64url_alphabet [of bs]
  by (simp add: binding_token_pattern_def length_encode_base64url list_all_iff)

lemma telegram_token_hash_pattern: "binding_token_pattern (telegram_token_hash token)"
  by (simp add: telegram_token_hash_def base64url_of_32)

lemma issue_telegram_Inr:
  assumes "issue_telegram_binding user now ttl entropy = Inr (token, b)"
  obtains t l where "now = JNum t" "0 \<le> t" "t \<le> MAX_SAFE_INTEGER" "60 \<le> l" "l \<le> 900"
    "tb_expires_at b = t + l" "user = JStr (tb_user_id b)" "notification_identifier (tb_user_id b)"
    "length entropy = 32" "token = encode_base64url entropy"
    "tb_token_hash b = telegram_token_hash token"
  using assms
  by (fastforce simp: issue_telegram_binding_def guard_simps Option.bind_eq_Some_conv
      split: option.splits)

lemma verify_binding_value:
  assumes "notification_identifier (tb_user_id b)" and "tb_token_hash b = telegram_token_hash token"
  shows "verify_telegram_binding (JStr t) (JStr g) (binding_value b) (JNum n) = TELEGRAM_BIND u g' \<longleftrightarrow>
    u = tb_user_id b \<and> g' = g \<and> binding_token_pattern t \<and> telegram_user_pattern g \<and>
    0 \<le> n \<and> n < tb_expires_at b \<and> tb_expires_at b \<le> MAX_SAFE_INTEGER \<and>
    tb_used_at b = None \<and> tb_revoked_at b = None \<and>
    telegram_token_hash t = telegram_token_hash token"
proof -
  have "exact_object (binding_value b)
      [''userId'', ''tokenHash'', ''expiresAtEpochSeconds'', ''usedAtEpochSeconds'',
       ''revokedAtEpochSeconds'']"
    by (simp add: exact_object_def binding_value_def)
  then show ?thesis
    using assms telegram_token_hash_pattern [of token]
    by (auto simp: verify_telegram_binding_def binding_value_def as_str_matching_def as_bounded_def
        safe_int_def MAX_SAFE_INTEGER_def require_def split: option.splits)
qed

text \<open>C40: A binding token lives between one and fifteen minutes and binds its user and no other:
  the stored record, with whatever use and revocation times were written to it since, binds a
  presented token exactly when it is a well-formed token with the issued token's SHA-256 digest,
  the Telegram identifier is well formed, the clock is before the expiry, and the record is
  neither used nor revoked; the user bound is the one the token was issued to.  The issued token
  itself is well formed.
\<close>

theorem telegram_binding_iff:
  assumes "issue_telegram_binding user now ttl entropy = Inr (token, b)"
    and "stored = b\<lparr>tb_used_at := used, tb_revoked_at := revoked\<rparr>"
  shows "(verify_telegram_binding (JStr t) (JStr g) (binding_value stored) (JNum n) =
      TELEGRAM_BIND u g' \<longleftrightarrow>
      JStr u = user \<and> g' = g \<and> telegram_user_pattern g \<and> used = None \<and> revoked = None \<and>
      0 \<le> n \<and> n < tb_expires_at b \<and> tb_expires_at b \<le> MAX_SAFE_INTEGER \<and>
      binding_token_pattern t \<and> telegram_token_hash t = telegram_token_hash token) \<and>
    binding_token_pattern token \<and>
    (\<exists>l. 60 \<le> l \<and> l \<le> 900 \<and> now = JNum (tb_expires_at b - l))"
proof -
  obtain s l where i: "now = JNum s" "60 \<le> l" "l \<le> 900" "tb_expires_at b = s + l"
    and u: "user = JStr (tb_user_id b)" "notification_identifier (tb_user_id b)"
    and tok: "length entropy = 32" "token = encode_base64url entropy"
      "tb_token_hash b = telegram_token_hash token"
    using assms(1) by (rule issue_telegram_Inr)
  show ?thesis
    using i u tok verify_binding_value [of stored token t g n u g']
    by (auto simp: assms(2) base64url_of_32)
qed

definition sample_binding :: telegram_binding where
  "sample_binding =
     \<lparr>tb_user_id = ''u1'', tb_token_hash = telegram_token_hash (encode_base64url (replicate 32 0)),
      tb_expires_at = 700, tb_used_at = None, tb_revoked_at = None\<rparr>"

lemma sample_binding_issued:
  "issue_telegram_binding (JStr ''u1'') (JNum 100) JUndef (replicate 32 0) =
     Inr (encode_base64url (replicate 32 0), sample_binding)"
  by (simp add: issue_telegram_binding_def sample_binding_def as_str_matching_def as_bounded_def
      safe_int_def MAX_SAFE_INTEGER_def id_pattern_def is_alnum_def is_lower_def is_digit_def
      is_upper_def code_of_def)

theorem telegram_binding_iff_witness:
  "verify_telegram_binding (JStr (encode_base64url (replicate 32 0))) (JStr ''77'')
     (binding_value sample_binding) (JNum 699) = TELEGRAM_BIND ''u1'' ''77''"
  using telegram_binding_iff [OF sample_binding_issued refl, where used = None and revoked = None
      and t = "encode_base64url (replicate 32 0)" and g = "''77''" and n = 699 and u = "''u1''"
      and g' = "''77''"]
  by (simp add: base64url_of_32 sample_binding_def telegram_user_pattern_def is_digit_def
      code_of_def digits_value_def hex_value_def MAX_SAFE_INTEGER_def)

subsection \<open>Delivery keys and links\<close>

text \<open>Equal keys are equal deliveries, up to a collision of SHA-256 on the two preimages.\<close>

lemma encoded_field_append:
  assumes "length s \<le> 200" "length t \<le> 200"
  shows "encoded_field s @ x = encoded_field t @ y \<longleftrightarrow> s = t \<and> x = y"
proof -
  have "prefixable (utf8 s)" "prefixable (utf8 t)"
    using assms length_utf8 [of s] length_utf8 [of t] by (simp_all add: prefixable_def UINT32_MAX_def)
  then show ?thesis
    unfolding encoded_field_def using length_prefixed.append_eq utf8_inj by metis
qed

lemma read_identity_Some:
  assumes "read_identity input = Some d"
  shows "notification_identifier (di_event_id d)" "notification_identifier (di_endpoint_id d)"
    "di_channel d \<in> set (map fst NOTIFICATION_CHANNELS)" "template_id_pattern (di_template_id d)"
    "1 \<le> di_template_version d" "di_template_version d \<le> 1000000"
  using assms
  by (auto simp: read_identity_def guard_simps Option.bind_eq_Some_conv intro: rev_image_eqI)

lemma identity_field_lengths:
  assumes "read_identity input = Some d"
  shows "length (di_event_id d) \<le> 200" "length (di_endpoint_id d) \<le> 200"
    "length (di_channel d) \<le> 200" "length (di_template_id d) \<le> 200"
  using read_identity_Some [OF assms] id_pattern_length [of "di_event_id d"]
    id_pattern_length [of "di_endpoint_id d"]
  by (auto simp: NOTIFICATION_CHANNELS_def template_id_pattern_def split: list.splits)

lemma delivery_preimage_inj:
  assumes "read_identity a = Some d" and "read_identity b = Some e"
  shows "delivery_preimage d = delivery_preimage e \<longleftrightarrow> d = e"
proof
  assume eq: "delivery_preimage d = delivery_preimage e"
  note fields = identity_field_lengths [OF assms(1)] identity_field_lengths [OF assms(2)]
  have "di_event_id d = di_event_id e \<and> di_endpoint_id d = di_endpoint_id e \<and>
      di_channel d = di_channel e \<and> di_template_id d = di_template_id e \<and>
      encoded_field (to_digits 10 (di_template_version d)) =
        encoded_field (to_digits 10 (di_template_version e))"
    using eq fields by (simp add: delivery_preimage_def encoded_field_append)
  moreover from this have "to_digits 10 (di_template_version d) = to_digits 10 (di_template_version e)"
    by (simp add: encoded_field_def prefixed_def utf8_inj)
  then have "di_template_version d = di_template_version e"
    using read_identity_Some(5) [OF assms(1)] read_identity_Some(5) [OF assms(2)]
      to_digits_value by (smt (verit))
  ultimately show "d = e" by simp
qed simp

text \<open>Equal keys are equal deliveries, unless SHA-256 collides on their two preimages.\<close>

lemma delivery_key_iff:
  assumes "read_identity a = Some d" and "read_identity b = Some e"
    and "sha256 (delivery_preimage d) = sha256 (delivery_preimage e) \<longrightarrow>
      delivery_preimage d = delivery_preimage e"
  shows "derive_notification_delivery_key a = derive_notification_delivery_key b \<longleftrightarrow> d = e"
  using assms delivery_preimage_inj [OF assms(1,2)]
  by (auto simp: derive_notification_delivery_key_def)

text \<open>A link in external content stays on the product's origin and names a path.\<close>

lemma content_link_on_origin:
  assumes "create_external_content to_ascii input = Inr c"
  shows "\<exists>d rest. ec_action_url c = ''https://outscan.ru/'' @ d # rest \<and>
    (is_lower d \<or> is_digit d \<or> d = CHR ''_'' \<or> d = CHR ''-'')"
proof -
  obtain path where path: "safe_path path" "ec_action_url c = action_url path"
    using assms
    by (auto simp: create_external_content_def guard_simps Option.bind_eq_Some_conv
        split: option.splits)
  then obtain cs where cs: "path = CHR ''/'' # cs"
    by (auto simp: safe_path_def split: list.splits)
  have "cs \<noteq> [] \<and> (is_lower (hd cs) \<or> is_digit (hd cs) \<or> hd cs = CHR ''_'' \<or> hd cs = CHR ''-'')"
  proof (cases "split_on (CHR ''/'') cs")
    case (Cons p ps)
    have "p \<noteq> [] \<and> list_all (\<lambda>d. is_lower d \<or> is_digit d \<or> d = CHR ''_'' \<or> d = CHR ''-'') p"
      using path(1) Cons by (auto simp: safe_path_def cs Let_def split: if_splits)
    moreover have "cs \<noteq> [] \<and> hd cs = hd p" if "p \<noteq> []"
      using that Cons by (cases cs) (auto split: if_splits list.splits)
    ultimately show ?thesis by (cases p) auto
  qed simp
  then show ?thesis using path(2) cs by (cases cs) (auto simp: action_url_def)
qed

end
