(* ===== verification/Spec2Isabelle.thy ===== *)
theory Spec2Isabelle
  imports Read_Properties Creation_Properties Guest_Admission Scanner_Properties Check_Properties
    Scanner_Policy Supervisor Scanner_Ipc Ip_Text Delivery_Machine
begin

text \<open>
  \<^bold>\<open>The guest scan service of outscan.\<close>

  The program (\<^verbatim>\<open>apps/api/src\<close>, TypeScript) lets an anonymous visitor scan one host.  An
  HTTP request becomes a row of \<^verbatim>\<open>guest_scans\<close>, guarded by idempotency keys and by the
  abuse counters; a worker leases an attempt, an isolated scanner runs it and its output comes
  back in a signed envelope; the result is validated, reduced to a projection and committed once;
  the guest reads it with a token that expires; a retention worker deletes everything after a day.
  The durable state is a PostgreSQL database whose constraints and triggers are part of
  the program (\<^verbatim>\<open>apps/api/db/migrations\<close>).

  \<^bold>\<open>Foundations.\<close>  \<open>Prelude\<close>: untrusted JavaScript values (\<open>jsval\<close>), the guards the handlers
  share and string patterns.  \<open>Decimal\<close>, \<open>Byte_Codec\<close>, \<open>Digests\<close>: number text, big-endian integers,
  hexadecimal, base64url, UTF-8, SHA-256 and HMAC.  \<open>Json\<close>: UTF-8 decoding, \<^verbatim>\<open>JSON.parse\<close>,
  \<^verbatim>\<open>JSON.stringify\<close> and the scan for repeated keys of \<^verbatim>\<open>scanner-output/guest-projection.ts\<close>.
  \<open>Tables\<close>: keyed tables with update, deletion and counting.

  \<^bold>\<open>Decisions without state.\<close>  \<open>Lifecycle\<close> and \<open>Scan_Protocol\<close> (\<^verbatim>\<open>scan-protocol\<close>): the job
  and attempt machines and the commit decision.  \<open>Scanner_Policy\<close> (\<^verbatim>\<open>scanner-policy\<close>) and
  \<open>Supervisor\<close> (\<^verbatim>\<open>supervisor\<close>): which executions are allowed.  \<open>Guest_Abuse\<close>
  (\<^verbatim>\<open>guest-abuse\<close>): admission and retention.  \<open>Guest_Idempotency\<close> (\<^verbatim>\<open>guest-idempotency\<close>): create,
  replace, replay or refuse.  \<open>Guest_Token\<close> (\<^verbatim>\<open>guest-crypto/result-token.ts\<close>),
  \<open>Guest_Session\<close> (\<^verbatim>\<open>guest-crypto/guest-session.ts\<close>, \<^verbatim>\<open>guest-session-http.ts\<close>) and
  \<open>Result_Envelope\<close> (\<^verbatim>\<open>result-envelope\<close>): tokens, session cookies and signed results.  \<open>Scanner_Ipc\<close>
  (\<^verbatim>\<open>scanner-ipc\<close>): the framed stream of the scanner process.  \<open>Ip_Policy\<close>, \<open>Ip_Text\<close> and
  \<open>Hostname\<close> (\<^verbatim>\<open>target\<close>): which hosts and addresses may be contacted.  \<open>Scanner_Output\<close>
  (\<^verbatim>\<open>scanner-output\<close>): validation, projection and canonical form of the output, and \<open>Canonical_Output\<close>:
  the canonical payload is a fixed point and is determined by the validated contents.

  \<^bold>\<open>Reaching the target\<close> (\<^verbatim>\<open>target\<close>).  \<open>Target_Resolver\<close>, \<open>Pinned_Request\<close>, \<open>Pinned_Transport\<close> and
  \<open>Safe_Fetch\<close> model the resolver, the options of a request, the exchange as a machine over the events
  of its socket, and the loop over redirects and retries; \<open>Fetch_Properties\<close> has the invariant of that loop,
  its bound, and where the responses come from.  \<open>Guest_Checks\<close> and \<open>Guest_Scanner\<close>
  (\<^verbatim>\<open>guest-scanner\<close>): the verdicts on headers and security.txt, and the scan with its request
  budget; \<open>Scanner_Properties\<close>: the output is accepted by the commit and its verdict on TLS is earned;
  \<open>Check_Properties\<close>: the verdicts as conditions on all directives and lines.

  \<^bold>\<open>The result page.\<close>  \<open>Iso_Date\<close>, \<open>Guest_Result_View\<close> (\<^verbatim>\<open>guest-result\<close>,
  \<^verbatim>\<open>guest-crypto/guest-result-http.ts\<close>, \<^verbatim>\<open>guest-http/result-projection.ts\<close>): who may read a result, the
  view built from its projection and the check of the route before it is sent; \<open>View_Properties\<close>:
  a view shows all of the projection, and the route passes on genuine views only.  \<open>Guest_Records\<close>
  (\<^verbatim>\<open>guest-scan/snapshot.ts\<close>, \<^verbatim>\<open>guest-scan/result-read.ts\<close>, the result row and its store): the checks of
  stored records and the authorized read; \<open>Read_Properties\<close>: who can read what in a reachable
  database.

  \<^bold>\<open>The database and its handlers\<close> (\<^verbatim>\<open>guest-persistence\<close>).  \<open>Guest_Schema\<close> has the rows as
  records, the tables as the record \<open>guest_db\<close>, the CHECK constraints, triggers, deferred keys and
  statements, and the transaction with its retries: a handler's body is a partial function on
  databases, \<open>None\<close> is an exception and rolls back.  \<open>Guest_Counters\<close>, \<open>Guest_Lease\<close>,
  \<open>Guest_Commit\<close>, \<open>Guest_Store\<close> and \<open>Guest_Retention\<close> are the handlers, each with every guard and
  statement of the code in its order.  \<open>Guest_Submission\<close> composes the verification of an envelope, the
  canonical form of its payload and the commit.  The clock, the generators of identifiers and nonces, and
  the outcome of each connection attempt are arguments, so the properties hold for all of them.

  \<^bold>\<open>The creation service.\<close>  \<open>Guest_Network\<close> (\<^verbatim>\<open>guest-abuse/network-address.ts\<close>, \<^verbatim>\<open>trusted-ingress.ts\<close>,
  \<^verbatim>\<open>network-signal.ts\<close>): the address a request comes from and the signal it is counted under.
  \<open>Guest_Admission\<close> (\<^verbatim>\<open>guest-abuse/admission.ts\<close>): idempotency before limits.  \<open>Guest_Creation\<close>
  (\<^verbatim>\<open>guest-scan/create.ts\<close>, \<^verbatim>\<open>guest-session/bootstrap.ts\<close>) composes session, network signal, creation in
  the database and queue; \<open>First_Creation\<close> runs it for any request to the migrated database, and
  \<open>Creation_Properties\<close> states what its answers mean.

  \<^bold>\<open>Notifications\<close> (\<^verbatim>\<open>notifications\<close>).  \<open>Notifications\<close>: the event catalog, the check of an event and
  its recipients; \<open>Delivery_Machine\<close>: the machine of one delivery with the run of any sequence of decisions
  and provider events, the idempotency key, the content that leaves the product and the Telegram binding.

  \<^bold>\<open>The specification.\<close>  \<open>Guest_View\<close> abstracts the database to what belongs to one scan,
  \<open>Guest_Protocol\<close> states the steps a scan may take and their invariant, \<open>Guest_Quota\<close> the
  counting invariant of the active counters and windows, \<open>Guest_Reserve\<close> and
  \<open>Guest_Refinement\<close> show that each handler is such a step.  \<open>Guest_Safety\<close> composes the handlers
  into one step relation in any order and interprets the locale \<open>invariant_system\<close> on it, so that
  \<open>Guest_Properties\<close>, \<open>Guest_Behaviour\<close> and \<open>Guest_Progress\<close> can state what holds in every
  reachable database.  \<open>Guest_Run\<close> is a run of the handlers from the migrated database to a
  committed result; the witnesses use its states.

  \<^bold>\<open>Bounds and fuel.\<close>  The transaction loop makes at most three tries, as the code does.  The JSON
  parser's fuel is one more than the length of the text and each call consumes a unit or ends, so
  it never runs out (\<open>printable_parses_back\<close>, \<open>unique_keys_value\<close>).  All other recursions are
  structural or have a measure.  Times and counters are unbounded integers with the checks of the
  code written out; 64-bit columns are bounded by the constraints.

  \<^bold>\<open>Abstractions.\<close>  Transactions are serializable in the code and atomic here; a
  serialization failure is a retried try.  \<^verbatim>\<open>SKIP LOCKED\<close> never skips, since no other transaction
  is open.  Strings of \<open>jsval\<close> hold code units below 256; \<open>Json\<close> and \<open>Scanner_Output\<close> keep all.
  Objects have no accessors.  \<^verbatim>\<open>domainToASCII\<close> is a parameter.

  \<^bold>\<open>Not modelled.\<close>  The HTTP routes, queue and process entry points are glue around Fastify, BullMQ,
  Redis and the operating system; resolver and transport are socket I/O; the web and
  admin applications are static pages.  The run tables of the retention and telemetry workers, the
  notification model, the Yandex Metrika import and the capability registry are separate from
  the scan service.
\<close>

end
